(* ===== verification/Prelude.thy ===== *)
theory Prelude
  imports Main
begin

text \<open>
  Shared material of the development: the exceptions the services raise, the error
  result and its bind, tables as lists of rows with the three operations the services
  use on them (primary-key lookup, in-place update of the row of a key, constrained
  insert), the transaction of one session block, and the contract locales that the
  component theories interpret on their own definitions.
\<close>

section \<open>Collections of rules\<close>

named_theorems behaves \<open>a call of a service keeps the log and moves the runs forward\<close>
named_theorems leaves_alone \<open>a call of a service leaves the tables of other services alone\<close>

section \<open>Exceptions\<close>

text \<open>
  One constructor per exception class of the modelled services, with the message the
  code builds. \<open>IntegrityError\<close> is the exception of a violated database constraint,
  \<open>TypeError\<close> and \<open>KeyError\<close> are the interpreter's own.
\<close>

datatype err =
    LookupError (err_text: string)
  | NotFoundError (err_text: string)
  | ValueError (err_text: string)
  | TypeError (err_text: string)
  | KeyError (err_text: string)
  | IntegrityError (err_text: string)
  | InvalidTransitionError (err_text: string)
  | BudgetExceededError (err_text: string)
  | ReservationConflictError (err_text: string)
  | RevisionConflictError (err_text: string)
  | DuplicateExperimentError (err_text: string)
  | ActivityConflictError (err_text: string)
  | SessionConflictError (err_text: string)
  | RuntimeConflictError (err_text: string)
  | TerminalBudgetConflictError (err_text: string)
  | EvidenceConflictError (err_text: string)
  | InvalidAdmissionError (err_text: string)
  | ReviewAuthorizationError (err_text: string)
  | ReviewConflictError (err_text: string)
  | ComparisonInputError (err_text: string)
  | ArtifactMetadataConflict (err_text: string)
  | ArtifactTooLargeError (err_text: string)
  | ArtifactIntegrityError (err_text: string)
  | OSError (err_text: string)
  | UnsafeWorkspaceError (err_text: string)
  | CanonicalizationError (err_text: string)
  | StructuredSchemaError (err_text: string)
  | PluginCompatibilityError (err_text: string)
  | InvalidCapabilityToken (err_text: string)
  | InvocationConflictError (err_text: string)
  | AttributeError (err_text: string)
  | CampaignRuntimeError (err_text: string)
  | CampaignAuthorityPathError (err_text: string)
  | PromotionJournalError (err_text: string)
  | PromotionLeaseConflictError (err_text: string)
  | PromotionRecordConflictError (err_text: string)
  | IntegrationPromotionPreconditionError (err_text: string)
  | RuntimeError (err_text: string)
  | FileExistsError (err_text: string)
  | FileNotFoundError (err_text: string)
  | PromotionStaleBaseError (err_text: string)
  | PromotionProvenanceError (err_text: string)
  | PromotionEvidenceError (err_text: string)
  | InjectedWorkerCrash (err_text: string)
  | HandlerError (err_text: string)

text \<open>Sequencing of steps that may raise.\<close>

definition bind_err :: "'e + 'a \<Rightarrow> ('a \<Rightarrow> 'e + 'b) \<Rightarrow> 'e + 'b" where
  "bind_err m f = (case m of Inl e \<Rightarrow> Inl e | Inr x \<Rightarrow> f x)"

lemma bind_err_Inl [simp]: "bind_err (Inl e) f = Inl e"
  by (simp add: bind_err_def)

lemma bind_err_Inr [simp]: "bind_err (Inr x) f = f x"
  by (simp add: bind_err_def)

lemma bind_err_eq_Inr: "bind_err m f = Inr y \<longleftrightarrow> (\<exists>x. m = Inr x \<and> f x = Inr y)"
  by (cases m) auto

lemma Inr_eq_bind_err: "Inr y = bind_err m f \<longleftrightarrow> (\<exists>x. m = Inr x \<and> f x = Inr y)"
  by (cases m) auto

lemma bind_err_eq_Inl:
  "bind_err m f = Inl e \<longleftrightarrow> m = Inl e \<or> (\<exists>x. m = Inr x \<and> f x = Inl e)"
  by (cases m) auto

lemma if_raise_eq_Inr: "(if c then Inl e else m) = Inr y \<longleftrightarrow> \<not> c \<and> m = Inr y"
  by simp

lemma case_raise_eq_Inr:
  "(case x of None \<Rightarrow> Inl e | Some r \<Rightarrow> f r) = Inr y \<longleftrightarrow> (\<exists>r. x = Some r \<and> f r = Inr y)"
  by (cases x) auto

lemmas raise_simps = bind_err_eq_Inr if_raise_eq_Inr case_raise_eq_Inr

section \<open>Decimal rendering\<close>

text \<open>\<open>str\<close> of an integer, as the messages interpolate it.\<close>

fun show_nat :: "nat \<Rightarrow> string" where
  "show_nat n = (if n < 10 then [char_of (48 + n)]
     else show_nat (n div 10) @ [char_of (48 + n mod 10)])"

declare show_nat.simps [simp del]

definition show_int :: "int \<Rightarrow> string" where
  "show_int n = (if n < 0 then CHR ''-'' # show_nat (nat (- n)) else show_nat (nat n))"

text \<open>The byte order of identifiers, as \<open>ORDER BY\<close> on a text column compares them.\<close>

fun str_less :: "string \<Rightarrow> string \<Rightarrow> bool" where
  "str_less _ [] = False"
| "str_less [] (_ # _) = True"
| "str_less (c # cs) (d # ds) =
     ((of_char c :: nat) < of_char d \<or> c = d \<and> str_less cs ds)"

lemma str_less_irrefl [simp]: "\<not> str_less x x"
  by (induction x) auto

lemma str_less_asym: "str_less x y \<Longrightarrow> \<not> str_less y x"
  by (induction x y rule: str_less.induct) auto

lemma str_less_cotrans: "str_less x z \<Longrightarrow> str_less x y \<or> str_less y z"
proof (induction x z arbitrary: y rule: str_less.induct)
  case (2 d ds)
  then show ?case by (cases y) auto
next
  case (3 c cs d ds)
  then show ?case by (cases y) (auto simp: nat_neq_iff)
qed simp

section \<open>Tables\<close>

text \<open>
  A table is the list of its rows in insertion order. \<open>row_get\<close> is a lookup by primary
  key (\<open>session.get\<close>), \<open>row_set\<close> writes attributes of the row of a key, \<open>row_add\<close>
  inserts a row unless a constraint, given as a relation between the new row and a stored
  one, is violated.
\<close>

definition row_get :: "('r \<Rightarrow> 'k) \<Rightarrow> 'k \<Rightarrow> 'r list \<Rightarrow> 'r option" where
  "row_get key k t = find (\<lambda>r. key r = k) t"

definition row_set :: "('r \<Rightarrow> 'k) \<Rightarrow> 'k \<Rightarrow> ('r \<Rightarrow> 'r) \<Rightarrow> 'r list \<Rightarrow> 'r list" where
  "row_set key k f t = map (\<lambda>r. if key r = k then f r else r) t"

definition row_add :: "('r \<Rightarrow> 'r \<Rightarrow> bool) \<Rightarrow> string \<Rightarrow> 'r \<Rightarrow> 'r list \<Rightarrow> err + 'r list" where
  "row_add conflict name r t =
     (if list_ex (conflict r) t then Inl (IntegrityError name) else Inr (t @ [r]))"

lemma row_get_Nil [simp]: "row_get key k [] = None"
  by (simp add: row_get_def)

lemma row_get_Cons:
  "row_get key k (r # t) = (if key r = k then Some r else row_get key k t)"
  by (simp add: row_get_def)

lemma row_get_SomeD: "row_get key k t = Some r \<Longrightarrow> r \<in> set t \<and> key r = k"
  by (auto simp: row_get_def find_Some_iff)

lemma row_get_None: "row_get key k t = None \<longleftrightarrow> (\<forall>r\<in>set t. key r \<noteq> k)"
  by (auto simp: row_get_def find_None_iff)

lemma row_get_none_eq: "None = row_get key k t \<longleftrightarrow> (\<forall>r\<in>set t. key r \<noteq> k)"
  by (metis row_get_None)

lemma row_get_append:
  "row_get key k (t @ u) = (case row_get key k t of None \<Rightarrow> row_get key k u | Some r \<Rightarrow> Some r)"
  by (induction t) (auto simp: row_get_Cons)

lemma row_get_mem:
  "distinct (map key t) \<Longrightarrow> r \<in> set t \<Longrightarrow> row_get key (key r) t = Some r"
  by (induction t) (auto simp: row_get_Cons)

lemma row_set_Nil [simp]: "row_set key k f [] = []"
  by (simp add: row_set_def)

lemma row_set_Cons:
  "row_set key k f (r # t) = (if key r = k then f r else r) # row_set key k f t"
  by (simp add: row_set_def)

lemma row_set_append: "row_set key k f (t @ u) = row_set key k f t @ row_set key k f u"
  by (simp add: row_set_def)

lemma length_row_set [simp]: "length (row_set key k f t) = length t"
  by (simp add: row_set_def)

lemma set_row_set: "set (row_set key k f t) = (\<lambda>r. if key r = k then f r else r) ` set t"
  by (simp add: row_set_def)

lemma ball_row_set:
  "(\<forall>r\<in>set (row_set key k f t). P r) \<longleftrightarrow> (\<forall>r\<in>set t. P (if key r = k then f r else r))"
  by (auto simp: row_set_def)

lemma bex_row_set:
  "(\<exists>r\<in>set (row_set key k f t). P r) \<longleftrightarrow> (\<exists>r\<in>set t. P (if key r = k then f r else r))"
  by (auto simp: row_set_def)

lemma map_row_set:
  "(\<And>r. key r = k \<Longrightarrow> g (f r) = g r) \<Longrightarrow> map g (row_set key k f t) = map g t"
  by (simp add: row_set_def)

lemma image_row_set:
  "(\<And>r. key r = k \<Longrightarrow> g (f r) = g r) \<Longrightarrow> g ` set (row_set key k f t) = g ` set t"
  by (metis map_row_set set_map)

lemma row_set_idle: "row_get key k t = None \<Longrightarrow> row_set key k f t = t"
  by (auto simp: row_get_None row_set_def intro: map_idI)

lemma row_get_row_set:
  assumes "\<And>r. key (f r) = key r"
  shows "row_get key k (row_set key k' f t) =
    (if k = k' then map_option f (row_get key k t) else row_get key k t)"
  by (induction t) (auto simp: row_get_Cons row_set_Cons assms)

lemma row_get_add:
  assumes "row_add conflict name r t = Inr t'" and "\<And>q. key q = key r \<Longrightarrow> conflict r q"
  shows "row_get key k t' = (if k = key r then Some r else row_get key k t)"
proof -
  from assms(1) have fresh: "\<forall>q\<in>set t. \<not> conflict r q" and t': "t' = t @ [r]"
    by (auto simp: row_add_def list_ex_iff split: if_splits)
  have "row_get key (key r) t = None"
    using fresh assms(2) by (auto simp: row_get_None)
  then show ?thesis
    by (auto simp: t' row_get_append row_get_Cons split: option.split)
qed

lemma row_add_Inr:
  "row_add conflict name r t = Inr t' \<longleftrightarrow> (\<forall>q\<in>set t. \<not> conflict r q) \<and> t' = t @ [r]"
  by (auto simp: row_add_def list_ex_iff)

lemma row_add_distinct:
  assumes "row_add conflict name r t = Inr t'" and "\<And>q. key q = key r \<Longrightarrow> conflict r q"
    and "distinct (map key t)"
  shows "distinct (map key t')"
  using assms by (auto simp: row_add_Inr)

lemma distinct_row_set:
  assumes "\<And>r. key r = k \<Longrightarrow> g (f r) = g r"
  shows "distinct (map g (row_set key k f t)) = distinct (map g t)"
  by (simp add: map_row_set assms)

text \<open>
  Sums over a table: writing one row changes the sum by the difference of that row, and
  an insert adds the new row's share.
\<close>

lemma sum_row_set:
  fixes g :: "'r \<Rightarrow> 'g::ab_group_add"
  assumes "distinct (map key t)" and "row_get key k t = Some r"
  shows "sum_list (map g (row_set key k f t)) = sum_list (map g t) - g r + g (f r)"
  using assms
proof (induction t)
  case Nil
  then show ?case by simp
next
  case (Cons q t)
  show ?case
  proof (cases "key q = k")
    case True
    from True Cons.prems(1) have "k \<notin> key ` set t"
      by auto
    then have "row_get key k t = None"
      by (auto simp: row_get_None)
    moreover from True Cons.prems have "q = r"
      by (simp add: row_get_Cons)
    ultimately show ?thesis
      using True by (simp add: row_set_Cons row_set_idle)
  next
    case False
    with Cons show ?thesis
      by (simp add: row_set_Cons row_get_Cons algebra_simps)
  qed
qed

lemma filter_row_set_other:
  assumes "\<And>r. key r = k \<Longrightarrow> \<not> P r \<and> \<not> P (f r)"
  shows "filter P (row_set key k f t) = filter P t"
  using assms by (induction t) (auto simp: row_set_Cons)

lemma filter_row_set_commute:
  assumes "\<And>r. key r = k \<Longrightarrow> P (f r) = P r"
  shows "filter P (row_set key k f t) = row_set key k f (filter P t)"
  using assms by (induction t) (auto simp: row_set_Cons)

section \<open>Rows that only advance\<close>

text \<open>
  A relation on rows lifted to the states: every row found before is found after, related
  to what it was.
\<close>

definition rows_advance ::
  "('k \<Rightarrow> 's \<Rightarrow> 'r option) \<Rightarrow> ('r \<Rightarrow> 'r \<Rightarrow> bool) \<Rightarrow> 's \<Rightarrow> 's \<Rightarrow> bool" where
  "rows_advance get R s s' \<longleftrightarrow>
     (\<forall>k r. get k s = Some r \<longrightarrow> (\<exists>r'. get k s' = Some r' \<and> R r r'))"

lemma rows_advanceD:
  "rows_advance get R s s' \<Longrightarrow> get k s = Some r \<Longrightarrow> \<exists>r'. get k s' = Some r' \<and> R r r'"
  by (simp add: rows_advance_def)

lemma rows_advance_same:
  assumes "\<And>r. R r r" and "\<And>k. get k s' = get k s"
  shows "rows_advance get R s s'"
  using assms by (auto simp: rows_advance_def)

lemma rows_advance_trans:
  assumes "\<And>a b c. R a b \<Longrightarrow> R b c \<Longrightarrow> R a c"
    and "rows_advance get R s t" and "rows_advance get R t u"
  shows "rows_advance get R s u"
  using assms unfolding rows_advance_def by meson

section \<open>The contract of a keyed table\<close>

text \<open>
  What the services rely on when they address rows by key: a lookup returns the row last
  written under that key, other keys are untouched, and keys stay unique.
\<close>

locale keyed_table =
  fixes key :: "'r \<Rightarrow> 'k"
    and get :: "'k \<Rightarrow> 't \<Rightarrow> 'r option"
    and set_row :: "'k \<Rightarrow> ('r \<Rightarrow> 'r) \<Rightarrow> 't \<Rightarrow> 't"
    and add :: "'r \<Rightarrow> 't \<Rightarrow> err + 't"
    and unique :: "'t \<Rightarrow> bool"
  assumes get_key: "get k t = Some r \<Longrightarrow> key r = k"
    and get_set: "(\<And>r. key (f r) = key r) \<Longrightarrow>
      get k (set_row k' f t) = (if k = k' then map_option f (get k t) else get k t)"
    and get_add: "add r t = Inr t' \<Longrightarrow> get k t' = (if k = key r then Some r else get k t)"
    and add_fresh: "add r t = Inr t' \<Longrightarrow> get (key r) t = None"
    and unique_set: "(\<And>r. key (f r) = key r) \<Longrightarrow> unique (set_row k f t) = unique t"
    and unique_add: "unique t \<Longrightarrow> add r t = Inr t' \<Longrightarrow> unique t'"
begin

lemma get_after_add: "add r t = Inr t' \<Longrightarrow> get (key r) t' = Some r"
  by (simp add: get_add)

lemma get_other_after_add: "add r t = Inr t' \<Longrightarrow> k \<noteq> key r \<Longrightarrow> get k t' = get k t"
  by (simp add: get_add)

lemma get_after_set:
  "(\<And>r. key (f r) = key r) \<Longrightarrow> get k t = Some r \<Longrightarrow> get k (set_row k f t) = Some (f r)"
  by (simp add: get_set)

lemma advance_set:
  assumes "\<And>r. key (f r) = key r" and "\<And>r. R r r" and "\<And>r. get k t = Some r \<Longrightarrow> R r (f r)"
  shows "rows_advance get R t (set_row k f t)"
  using assms by (auto simp: rows_advance_def get_set)

lemma advance_add:
  assumes "add r t = Inr t'" and "\<And>r. R r r"
  shows "rows_advance get R t t'"
  using assms add_fresh [OF assms(1)] by (auto simp: rows_advance_def get_add)

lemma set_commute_lookup:
  assumes "\<And>r. key (f r) = key r" and "\<And>r. key (g r) = key r" and "k \<noteq> k'"
  shows "get q (set_row k f (set_row k' g t)) = get q (set_row k' g (set_row k f t))"
  using assms by (simp add: get_set)

end

section \<open>Transactions\<close>

text \<open>
  A block \<open>with database.session()\<close> commits when it returns and rolls back when it
  raises: the caller sees the result or the exception, and the state after the block.
\<close>

definition in_session :: "('s \<Rightarrow> 'e + 'r \<times> 's) \<Rightarrow> 's \<Rightarrow> ('e + 'r) \<times> 's" where
  "in_session body s = (case body s of Inl e \<Rightarrow> (Inl e, s) | Inr (r, s') \<Rightarrow> (Inr r, s'))"

fun run_sessions :: "('c \<Rightarrow> 's \<Rightarrow> 'e + 'r \<times> 's) \<Rightarrow> 'c list \<Rightarrow> 's \<Rightarrow> 's" where
  "run_sessions step [] s = s"
| "run_sessions step (c # cs) s = run_sessions step cs (snd (in_session (step c) s))"

lemma run_sessions_append:
  "run_sessions step (cs @ ds) s = run_sessions step ds (run_sessions step cs s)"
  by (induction cs arbitrary: s) auto

text \<open>
  The contract of a transactional service for an invariant: a session block that commits
  keeps it. Whatever sequence of calls is made, failed ones included, the invariant holds
  after each.
\<close>

locale transactional =
  fixes step :: "'c \<Rightarrow> 's \<Rightarrow> 'e + 'r \<times> 's"
    and inv :: "'s \<Rightarrow> bool"
  assumes commit_inv: "inv s \<Longrightarrow> step c s = Inr (r, s') \<Longrightarrow> inv s'"
begin

lemma session_inv: "inv s \<Longrightarrow> inv (snd (in_session (step c) s))"
  by (auto simp: in_session_def commit_inv split: sum.split prod.split)

lemma sessions_inv: "inv s \<Longrightarrow> inv (run_sessions step cs s)"
proof (induction cs arbitrary: s)
  case Nil
  then show ?case by simp
next
  case (Cons c cs)
  from Cons.prems have "inv (snd (in_session (step c) s))" by (rule session_inv)
  then show ?case by (simp add: Cons.IH)
qed

end

text \<open>
  A second contract, for facts that relate the state before a call to the state after it
  (what is append-only, what only grows): a preorder that every committed block respects.
\<close>

locale monotone_service =
  fixes step :: "'c \<Rightarrow> 's \<Rightarrow> 'e + 'r \<times> 's"
    and le :: "'s \<Rightarrow> 's \<Rightarrow> bool"
  assumes le_refl: "le s s"
    and le_trans: "le s t \<Longrightarrow> le t u \<Longrightarrow> le s u"
    and commit_le: "step c s = Inr (r, s') \<Longrightarrow> le s s'"
begin

lemma session_le: "le s (snd (in_session (step c) s))"
  by (auto simp: in_session_def le_refl commit_le split: sum.split prod.split)

lemma sessions_le: "le s (run_sessions step cs s)"
proof (induction cs arbitrary: s)
  case Nil
  show ?case by (simp add: le_refl)
next
  case (Cons c cs)
  have "le s (snd (in_session (step c) s))" by (rule session_le)
  then show ?case using Cons.IH by (auto intro: le_trans)
qed

end

text \<open>
  The third contract: a service implements an abstract specification when each committed call
  is a step of the specification on what the state stands for. Calls that raise are rolled
  back, so that every sequence of calls is a run of the specification.
\<close>

locale refinement = transactional step inv
  for step :: "'c \<Rightarrow> 's \<Rightarrow> 'e + 'r \<times> 's" and inv :: "'s \<Rightarrow> bool" +
  fixes abs :: "'s \<Rightarrow> 'a"
    and spec :: "'a \<Rightarrow> 'a \<Rightarrow> bool"
  assumes simulates: "inv s \<Longrightarrow> step c s = Inr (r, s') \<Longrightarrow> spec (abs s) (abs s')"
begin

lemma session_refines: "inv s \<Longrightarrow> spec\<^sup>*\<^sup>* (abs s) (abs (snd (in_session (step c) s)))"
  by (auto simp: in_session_def dest: simulates split: sum.split prod.split)

lemma sessions_refine: "inv s \<Longrightarrow> spec\<^sup>*\<^sup>* (abs s) (abs (run_sessions step cs s))"
proof (induction cs arbitrary: s)
  case (Cons c cs)
  from session_refines [OF Cons.prems, of c] Cons.IH [OF session_inv [OF Cons.prems, of c]] show ?case
    by simp
qed simp

end

end
