(* ===== verification/Lifecycle.thy ===== *)
theory Lifecycle
  imports Prelude
begin

text \<open>
  The authoritative lifecycle values (contracts/lifecycle.py) and their closed transition
  tables (domain/lifecycle/state\_machine.py). The enumerations are datatypes whose
  \<open>*_value\<close> functions give the strings the code stores; a table is a function from a
  state to the list of its successors. The locale \<open>lifecycle_machine\<close> is the contract
  every table meets: terminal states are exactly those without a successor, and from every
  state a terminal one can be reached.
\<close>

section \<open>State values\<close>

datatype RunState =
    R_CREATED | R_VALIDATING | R_READY | R_RUNNING | R_PAUSING | R_PAUSED | R_CANCELLING
  | R_BLOCKED_REVIEW | R_BLOCKED_RECONCILIATION | R_COMPLETED | R_CANCELLED | R_FAILED

datatype VariationSessionState =
    S_QUEUED | S_RUNNING | S_PROPOSAL_READY | S_EXHAUSTED | S_POLICY_BLOCKED
  | S_RECONCILIATION_REQUIRED | S_CANCELLED | S_FAILED

datatype CandidateState =
    C_STAGED | C_EVALUATING | C_REVIEW_REQUIRED | C_ADMITTED | C_REJECTED
  | C_QUARANTINED | C_POLICY_BLOCKED | C_CANCELLED

datatype EvaluationState =
    E_QUEUED | E_RUNNING | E_PASSED | E_FAILED | E_ERRORED | E_TIMED_OUT
  | E_POLICY_BLOCKED | E_INVALID_REPORT

datatype ReviewState = V_PENDING | V_APPROVED | V_REJECTED | V_EXPIRED | V_WITHDRAWN

fun run_value :: "RunState \<Rightarrow> string" where
  "run_value R_CREATED = ''created''"
| "run_value R_VALIDATING = ''validating''"
| "run_value R_READY = ''ready''"
| "run_value R_RUNNING = ''running''"
| "run_value R_PAUSING = ''pausing''"
| "run_value R_PAUSED = ''paused''"
| "run_value R_CANCELLING = ''cancelling''"
| "run_value R_BLOCKED_REVIEW = ''blocked_review''"
| "run_value R_BLOCKED_RECONCILIATION = ''blocked_reconciliation''"
| "run_value R_COMPLETED = ''completed''"
| "run_value R_CANCELLED = ''cancelled''"
| "run_value R_FAILED = ''failed''"

fun session_value :: "VariationSessionState \<Rightarrow> string" where
  "session_value S_QUEUED = ''queued''"
| "session_value S_RUNNING = ''running''"
| "session_value S_PROPOSAL_READY = ''proposal_ready''"
| "session_value S_EXHAUSTED = ''exhausted''"
| "session_value S_POLICY_BLOCKED = ''policy_blocked''"
| "session_value S_RECONCILIATION_REQUIRED = ''reconciliation_required''"
| "session_value S_CANCELLED = ''cancelled''"
| "session_value S_FAILED = ''failed''"

fun candidate_value :: "CandidateState \<Rightarrow> string" where
  "candidate_value C_STAGED = ''staged''"
| "candidate_value C_EVALUATING = ''evaluating''"
| "candidate_value C_REVIEW_REQUIRED = ''review_required''"
| "candidate_value C_ADMITTED = ''admitted''"
| "candidate_value C_REJECTED = ''rejected''"
| "candidate_value C_QUARANTINED = ''quarantined''"
| "candidate_value C_POLICY_BLOCKED = ''policy_blocked''"
| "candidate_value C_CANCELLED = ''cancelled''"

fun evaluation_value :: "EvaluationState \<Rightarrow> string" where
  "evaluation_value E_QUEUED = ''queued''"
| "evaluation_value E_RUNNING = ''running''"
| "evaluation_value E_PASSED = ''passed''"
| "evaluation_value E_FAILED = ''failed''"
| "evaluation_value E_ERRORED = ''errored''"
| "evaluation_value E_TIMED_OUT = ''timed_out''"
| "evaluation_value E_POLICY_BLOCKED = ''policy_blocked''"
| "evaluation_value E_INVALID_REPORT = ''invalid_report''"

fun review_value :: "ReviewState \<Rightarrow> string" where
  "review_value V_PENDING = ''pending''"
| "review_value V_APPROVED = ''approved''"
| "review_value V_REJECTED = ''rejected''"
| "review_value V_EXPIRED = ''expired''"
| "review_value V_WITHDRAWN = ''withdrawn''"

section \<open>Transition tables\<close>

fun RUN_TRANSITIONS :: "RunState \<Rightarrow> RunState list" where
  "RUN_TRANSITIONS R_CREATED = [R_VALIDATING, R_CANCELLED]"
| "RUN_TRANSITIONS R_VALIDATING = [R_READY, R_FAILED, R_CANCELLED]"
| "RUN_TRANSITIONS R_READY = [R_RUNNING, R_CANCELLED]"
| "RUN_TRANSITIONS R_RUNNING =
     [R_PAUSING, R_CANCELLING, R_BLOCKED_REVIEW, R_BLOCKED_RECONCILIATION, R_COMPLETED, R_FAILED]"
| "RUN_TRANSITIONS R_PAUSING = [R_PAUSED, R_CANCELLING, R_BLOCKED_RECONCILIATION, R_FAILED]"
| "RUN_TRANSITIONS R_PAUSED = [R_READY, R_CANCELLED]"
| "RUN_TRANSITIONS R_CANCELLING = [R_CANCELLED, R_BLOCKED_RECONCILIATION, R_FAILED]"
| "RUN_TRANSITIONS R_BLOCKED_REVIEW = [R_RUNNING, R_CANCELLING, R_FAILED]"
| "RUN_TRANSITIONS R_BLOCKED_RECONCILIATION =
     [R_READY, R_RUNNING, R_PAUSED, R_CANCELLED, R_FAILED]"
| "RUN_TRANSITIONS R_COMPLETED = []"
| "RUN_TRANSITIONS R_CANCELLED = []"
| "RUN_TRANSITIONS R_FAILED = []"

fun SESSION_TRANSITIONS :: "VariationSessionState \<Rightarrow> VariationSessionState list" where
  "SESSION_TRANSITIONS S_QUEUED = [S_RUNNING, S_CANCELLED]"
| "SESSION_TRANSITIONS S_RUNNING =
     [S_PROPOSAL_READY, S_EXHAUSTED, S_POLICY_BLOCKED, S_RECONCILIATION_REQUIRED,
      S_CANCELLED, S_FAILED]"
| "SESSION_TRANSITIONS S_PROPOSAL_READY = []"
| "SESSION_TRANSITIONS S_EXHAUSTED = []"
| "SESSION_TRANSITIONS S_POLICY_BLOCKED = []"
| "SESSION_TRANSITIONS S_RECONCILIATION_REQUIRED = [S_RUNNING, S_CANCELLED, S_FAILED]"
| "SESSION_TRANSITIONS S_CANCELLED = []"
| "SESSION_TRANSITIONS S_FAILED = []"

fun CANDIDATE_TRANSITIONS :: "CandidateState \<Rightarrow> CandidateState list" where
  "CANDIDATE_TRANSITIONS C_STAGED = [C_EVALUATING, C_POLICY_BLOCKED, C_CANCELLED]"
| "CANDIDATE_TRANSITIONS C_EVALUATING =
     [C_REJECTED, C_QUARANTINED, C_REVIEW_REQUIRED, C_ADMITTED]"
| "CANDIDATE_TRANSITIONS C_REVIEW_REQUIRED = [C_ADMITTED, C_REJECTED, C_CANCELLED]"
| "CANDIDATE_TRANSITIONS C_ADMITTED = []"
| "CANDIDATE_TRANSITIONS C_REJECTED = []"
| "CANDIDATE_TRANSITIONS C_QUARANTINED = []"
| "CANDIDATE_TRANSITIONS C_POLICY_BLOCKED = []"
| "CANDIDATE_TRANSITIONS C_CANCELLED = []"

fun EVALUATION_TRANSITIONS :: "EvaluationState \<Rightarrow> EvaluationState list" where
  "EVALUATION_TRANSITIONS E_QUEUED = [E_RUNNING, E_POLICY_BLOCKED]"
| "EVALUATION_TRANSITIONS E_RUNNING =
     [E_PASSED, E_FAILED, E_ERRORED, E_TIMED_OUT, E_POLICY_BLOCKED, E_INVALID_REPORT]"
| "EVALUATION_TRANSITIONS E_PASSED = []"
| "EVALUATION_TRANSITIONS E_FAILED = []"
| "EVALUATION_TRANSITIONS E_ERRORED = []"
| "EVALUATION_TRANSITIONS E_TIMED_OUT = []"
| "EVALUATION_TRANSITIONS E_POLICY_BLOCKED = []"
| "EVALUATION_TRANSITIONS E_INVALID_REPORT = []"

fun REVIEW_TRANSITIONS :: "ReviewState \<Rightarrow> ReviewState list" where
  "REVIEW_TRANSITIONS V_PENDING = [V_APPROVED, V_REJECTED, V_EXPIRED, V_WITHDRAWN]"
| "REVIEW_TRANSITIONS V_APPROVED = []"
| "REVIEW_TRANSITIONS V_REJECTED = []"
| "REVIEW_TRANSITIONS V_EXPIRED = []"
| "REVIEW_TRANSITIONS V_WITHDRAWN = []"

section \<open>The transition guard\<close>

text \<open>
  The union of the five enumerations; \<open>can_transition\<close> refuses a pair of different kinds
  before it looks at a table.
\<close>

datatype LifecycleState =
    RunL RunState
  | SessionL VariationSessionState
  | CandidateL CandidateState
  | EvaluationL EvaluationState
  | ReviewL ReviewState

fun can_transition :: "LifecycleState \<Rightarrow> LifecycleState \<Rightarrow> bool" where
  "can_transition (RunL a) (RunL b) = (b \<in> set (RUN_TRANSITIONS a))"
| "can_transition (SessionL a) (SessionL b) = (b \<in> set (SESSION_TRANSITIONS a))"
| "can_transition (CandidateL a) (CandidateL b) = (b \<in> set (CANDIDATE_TRANSITIONS a))"
| "can_transition (EvaluationL a) (EvaluationL b) = (b \<in> set (EVALUATION_TRANSITIONS a))"
| "can_transition (ReviewL a) (ReviewL b) = (b \<in> set (REVIEW_TRANSITIONS a))"
| "can_transition _ _ = False"

fun type_name :: "LifecycleState \<Rightarrow> string" where
  "type_name (RunL _) = ''RunState''"
| "type_name (SessionL _) = ''VariationSessionState''"
| "type_name (CandidateL _) = ''CandidateState''"
| "type_name (EvaluationL _) = ''EvaluationState''"
| "type_name (ReviewL _) = ''ReviewState''"

fun state_value :: "LifecycleState \<Rightarrow> string" where
  "state_value (RunL s) = run_value s"
| "state_value (SessionL s) = session_value s"
| "state_value (CandidateL s) = candidate_value s"
| "state_value (EvaluationL s) = evaluation_value s"
| "state_value (ReviewL s) = review_value s"

definition require_transition :: "LifecycleState \<Rightarrow> LifecycleState \<Rightarrow> err + unit" where
  "require_transition current target =
     (if \<not> can_transition current target
      then Inl (InvalidTransitionError (''transition '' @ type_name current @ '':'' @
        state_value current @ ''->'' @ state_value target @ '' is not allowed''))
      else Inr ())"

lemma require_transition_Inr [simp]:
  "require_transition a b = Inr u \<longleftrightarrow> can_transition a b"
  by (simp add: require_transition_def)

section \<open>The contract of a lifecycle\<close>

locale lifecycle_machine =
  fixes transitions :: "'s \<Rightarrow> 's list"
    and terminal :: "'s \<Rightarrow> bool"
    and distance :: "'s \<Rightarrow> nat"
  assumes terminal_iff: "terminal s \<longleftrightarrow> transitions s = []"
    and no_self_loop: "s \<notin> set (transitions s)"
    and descends: "\<not> terminal s \<Longrightarrow> \<exists>t\<in>set (transitions s). distance t < distance s"
begin

abbreviation step :: "'s \<Rightarrow> 's \<Rightarrow> bool" where
  "step s t \<equiv> t \<in> set (transitions s)"

lemma terminal_absorbing: "step\<^sup>*\<^sup>* s t \<Longrightarrow> terminal s \<Longrightarrow> t = s"
  by (induction rule: converse_rtranclp_induct) (auto simp: terminal_iff)

lemma reaches_terminal: "\<exists>t. step\<^sup>*\<^sup>* s t \<and> terminal t"
proof (induction "distance s" arbitrary: s rule: less_induct)
  case less
  show ?case
  proof (cases "terminal s")
    case True
    then show ?thesis by blast
  next
    case False
    then obtain u where u: "step s u" "distance u < distance s"
      using descends by blast
    with less obtain t where "step\<^sup>*\<^sup>* u t" "terminal t" by blast
    with u(1) show ?thesis by (blast intro: converse_rtranclp_into_rtranclp)
  qed
qed

end

fun run_terminal :: "RunState \<Rightarrow> bool" where
  "run_terminal R_COMPLETED = True"
| "run_terminal R_CANCELLED = True"
| "run_terminal R_FAILED = True"
| "run_terminal _ = False"

fun session_terminal :: "VariationSessionState \<Rightarrow> bool" where
  "session_terminal s = (s \<notin> {S_QUEUED, S_RUNNING, S_RECONCILIATION_REQUIRED})"

fun candidate_terminal :: "CandidateState \<Rightarrow> bool" where
  "candidate_terminal s = (s \<notin> {C_STAGED, C_EVALUATING, C_REVIEW_REQUIRED})"

fun evaluation_terminal :: "EvaluationState \<Rightarrow> bool" where
  "evaluation_terminal s = (s \<notin> {E_QUEUED, E_RUNNING})"

fun review_terminal :: "ReviewState \<Rightarrow> bool" where
  "review_terminal s = (s \<noteq> V_PENDING)"

definition one_step :: "('s \<Rightarrow> bool) \<Rightarrow> 's \<Rightarrow> nat" where
  "one_step terminal s = (if terminal s then 0 else 1)"

interpretation run_life: lifecycle_machine RUN_TRANSITIONS run_terminal "one_step run_terminal"
proof (unfold_locales, goal_cases)
  case (1 s) show ?case by (cases s) simp_all
next
  case (2 s) show ?case by (cases s) simp_all
next
  case (3 s) then show ?case by (cases s) (simp_all add: one_step_def)
qed

interpretation session_life:
  lifecycle_machine SESSION_TRANSITIONS session_terminal "one_step session_terminal"
proof (unfold_locales, goal_cases)
  case (1 s) show ?case by (cases s) simp_all
next
  case (2 s) show ?case by (cases s) simp_all
next
  case (3 s) then show ?case by (cases s) (simp_all add: one_step_def)
qed

interpretation candidate_life:
  lifecycle_machine CANDIDATE_TRANSITIONS candidate_terminal "one_step candidate_terminal"
proof (unfold_locales, goal_cases)
  case (1 s) show ?case by (cases s) simp_all
next
  case (2 s) show ?case by (cases s) simp_all
next
  case (3 s) then show ?case by (cases s) (simp_all add: one_step_def)
qed

interpretation evaluation_life:
  lifecycle_machine EVALUATION_TRANSITIONS evaluation_terminal
    "\<lambda>s. if s = E_QUEUED then 2 else one_step evaluation_terminal s"
proof (unfold_locales, goal_cases)
  case (1 s) show ?case by (cases s) simp_all
next
  case (2 s) show ?case by (cases s) simp_all
next
  case (3 s) then show ?case by (cases s) (simp_all add: one_step_def)
qed

interpretation review_life:
  lifecycle_machine REVIEW_TRANSITIONS review_terminal "one_step review_terminal"
proof (unfold_locales, goal_cases)
  case (1 s) show ?case by (cases s) simp_all
next
  case (2 s) show ?case by (cases s) simp_all
next
  case (3 s) then show ?case by (cases s) (simp_all add: one_step_def)
qed

section \<open>Facts the services use\<close>

lemma can_transition_run_terminal [simp]:
  "run_terminal a \<Longrightarrow> \<not> can_transition (RunL a) (RunL b)"
  by (cases a) simp_all

lemma can_transition_same_kind:
  "can_transition a b \<Longrightarrow> type_name a = type_name b"
  by (induction a b rule: can_transition.induct) simp_all

end
