(* ===== verification/Budgets.thy ===== *)
theory Budgets
  imports Prelude
begin

text \<open>
  Budget specifications and usage records (contracts/budgets.py) and the pure budget
  arithmetic (domain/budgets.py). The ten dimensions are one datatype, used for both
  \<open>BudgetSpec\<close> and \<open>UsageRecord\<close> (the second extends the first by methods only);
  \<open>plus\<close> and \<open>fits_within\<close> run over the list of model fields as the code does. The
  type is made an ordered abelian group, with \<open>0\<close>, \<open>+\<close> and \<open>\<le>\<close> shown to be the
  record's \<open>zero\<close>, \<open>plus\<close> and \<open>fits_within\<close>, so that sums of reservations can be
  taken with the library's \<open>sum_list\<close>.
\<close>

section \<open>Records\<close>

datatype UsageRecord = UsageRecord
  (wall_clock_seconds: int)
  (model_input_tokens: int)
  (model_output_tokens: int)
  (model_cost_microusd: int)
  (tool_calls: int)
  (sandbox_cpu_seconds: int)
  (sandbox_gpu_seconds: int)
  (authoritative_evaluations: int)
  (variation_sessions: int)
  (artifact_bytes: int)

type_synonym BudgetSpec = UsageRecord

text \<open>\<open>BudgetSpec.model_fields\<close> without \<open>schema_version\<close>, in declaration order.\<close>

definition model_fields :: "(string \<times> (UsageRecord \<Rightarrow> int)) list" where
  "model_fields =
    [(''wall_clock_seconds'', wall_clock_seconds),
     (''model_input_tokens'', model_input_tokens),
     (''model_output_tokens'', model_output_tokens),
     (''model_cost_microusd'', model_cost_microusd),
     (''tool_calls'', tool_calls),
     (''sandbox_cpu_seconds'', sandbox_cpu_seconds),
     (''sandbox_gpu_seconds'', sandbox_gpu_seconds),
     (''authoritative_evaluations'', authoritative_evaluations),
     (''variation_sessions'', variation_sessions),
     (''artifact_bytes'', artifact_bytes)]"

text \<open>Every field is a \<open>NonNegativeInt\<close>; the constructor refuses other values.\<close>

definition usage_valid :: "UsageRecord \<Rightarrow> bool" where
  "usage_valid u = list_all (\<lambda>(n, get). 0 \<le> get u) model_fields"

definition mk_usage :: "UsageRecord \<Rightarrow> err + UsageRecord" where
  "mk_usage u = (if usage_valid u then Inr u
     else Inl (ValueError ''Input should be greater than or equal to 0''))"

definition usage_zero :: UsageRecord where
  "usage_zero = UsageRecord 0 0 0 0 0 0 0 0 0 0"

definition usage_of_values :: "int list \<Rightarrow> UsageRecord" where
  "usage_of_values vs = UsageRecord (vs ! 0) (vs ! 1) (vs ! 2) (vs ! 3) (vs ! 4) (vs ! 5)
     (vs ! 6) (vs ! 7) (vs ! 8) (vs ! 9)"

definition usage_plus :: "UsageRecord \<Rightarrow> UsageRecord \<Rightarrow> UsageRecord" where
  "usage_plus u v = usage_of_values (map (\<lambda>(n, get). get u + get v) model_fields)"

definition fits_within :: "UsageRecord \<Rightarrow> BudgetSpec \<Rightarrow> bool" where
  "fits_within u limit = list_all (\<lambda>(n, get). get u \<le> get limit) model_fields"

section \<open>Usage records as an ordered group\<close>

instantiation UsageRecord :: ab_group_add
begin

definition zero_UsageRecord :: UsageRecord where
  "zero_UsageRecord = UsageRecord 0 0 0 0 0 0 0 0 0 0"

definition plus_UsageRecord :: "UsageRecord \<Rightarrow> UsageRecord \<Rightarrow> UsageRecord" where
  "plus_UsageRecord u v = UsageRecord
     (wall_clock_seconds u + wall_clock_seconds v)
     (model_input_tokens u + model_input_tokens v)
     (model_output_tokens u + model_output_tokens v)
     (model_cost_microusd u + model_cost_microusd v)
     (tool_calls u + tool_calls v)
     (sandbox_cpu_seconds u + sandbox_cpu_seconds v)
     (sandbox_gpu_seconds u + sandbox_gpu_seconds v)
     (authoritative_evaluations u + authoritative_evaluations v)
     (variation_sessions u + variation_sessions v)
     (artifact_bytes u + artifact_bytes v)"

definition uminus_UsageRecord :: "UsageRecord \<Rightarrow> UsageRecord" where
  "uminus_UsageRecord u = UsageRecord
     (- wall_clock_seconds u) (- model_input_tokens u) (- model_output_tokens u)
     (- model_cost_microusd u) (- tool_calls u) (- sandbox_cpu_seconds u)
     (- sandbox_gpu_seconds u) (- authoritative_evaluations u) (- variation_sessions u)
     (- artifact_bytes u)"

definition minus_UsageRecord :: "UsageRecord \<Rightarrow> UsageRecord \<Rightarrow> UsageRecord" where
  "minus_UsageRecord u v = u + (- v)"

instance
  by standard
    (simp_all add: zero_UsageRecord_def plus_UsageRecord_def uminus_UsageRecord_def
      minus_UsageRecord_def UsageRecord.expand)

end

lemma UsageRecord_plus_sel [simp]:
  "wall_clock_seconds (u + v) = wall_clock_seconds u + wall_clock_seconds v"
  "model_input_tokens (u + v) = model_input_tokens u + model_input_tokens v"
  "model_output_tokens (u + v) = model_output_tokens u + model_output_tokens v"
  "model_cost_microusd (u + v) = model_cost_microusd u + model_cost_microusd v"
  "tool_calls (u + v) = tool_calls u + tool_calls v"
  "sandbox_cpu_seconds (u + v) = sandbox_cpu_seconds u + sandbox_cpu_seconds v"
  "sandbox_gpu_seconds (u + v) = sandbox_gpu_seconds u + sandbox_gpu_seconds v"
  "authoritative_evaluations (u + v) = authoritative_evaluations u + authoritative_evaluations v"
  "variation_sessions (u + v) = variation_sessions u + variation_sessions v"
  "artifact_bytes (u + v) = artifact_bytes u + artifact_bytes v"
  by (simp_all add: plus_UsageRecord_def)

lemma UsageRecord_minus_sel [simp]:
  "wall_clock_seconds (u - v) = wall_clock_seconds u - wall_clock_seconds v"
  "model_input_tokens (u - v) = model_input_tokens u - model_input_tokens v"
  "model_output_tokens (u - v) = model_output_tokens u - model_output_tokens v"
  "model_cost_microusd (u - v) = model_cost_microusd u - model_cost_microusd v"
  "tool_calls (u - v) = tool_calls u - tool_calls v"
  "sandbox_cpu_seconds (u - v) = sandbox_cpu_seconds u - sandbox_cpu_seconds v"
  "sandbox_gpu_seconds (u - v) = sandbox_gpu_seconds u - sandbox_gpu_seconds v"
  "authoritative_evaluations (u - v) = authoritative_evaluations u - authoritative_evaluations v"
  "variation_sessions (u - v) = variation_sessions u - variation_sessions v"
  "artifact_bytes (u - v) = artifact_bytes u - artifact_bytes v"
  by (simp_all add: minus_UsageRecord_def uminus_UsageRecord_def)

lemma UsageRecord_zero_sel [simp]:
  "wall_clock_seconds 0 = 0" "model_input_tokens 0 = 0" "model_output_tokens 0 = 0"
  "model_cost_microusd 0 = 0" "tool_calls 0 = 0" "sandbox_cpu_seconds 0 = 0"
  "sandbox_gpu_seconds 0 = 0" "authoritative_evaluations 0 = 0"
  "variation_sessions 0 = 0" "artifact_bytes 0 = 0"
  by (simp_all add: zero_UsageRecord_def)

instantiation UsageRecord :: order
begin

definition less_eq_UsageRecord :: "UsageRecord \<Rightarrow> UsageRecord \<Rightarrow> bool" where
  "less_eq_UsageRecord u v = list_all (\<lambda>(n, get). get u \<le> get v) model_fields"

definition less_UsageRecord :: "UsageRecord \<Rightarrow> UsageRecord \<Rightarrow> bool" where
  "less_UsageRecord u v = (u \<le> v \<and> \<not> v \<le> u)"

instance
  by standard
    (auto simp: less_eq_UsageRecord_def less_UsageRecord_def model_fields_def
      UsageRecord.expand)

end

lemma UsageRecord_le_iff:
  "u \<le> v \<longleftrightarrow>
     wall_clock_seconds u \<le> wall_clock_seconds v \<and>
     model_input_tokens u \<le> model_input_tokens v \<and>
     model_output_tokens u \<le> model_output_tokens v \<and>
     model_cost_microusd u \<le> model_cost_microusd v \<and>
     tool_calls u \<le> tool_calls v \<and>
     sandbox_cpu_seconds u \<le> sandbox_cpu_seconds v \<and>
     sandbox_gpu_seconds u \<le> sandbox_gpu_seconds v \<and>
     authoritative_evaluations u \<le> authoritative_evaluations v \<and>
     variation_sessions u \<le> variation_sessions v \<and>
     artifact_bytes u \<le> artifact_bytes v"
  by (simp add: less_eq_UsageRecord_def model_fields_def)

instance UsageRecord :: ordered_ab_group_add
  by standard (simp add: UsageRecord_le_iff)

text \<open>The record's own operations are the group's.\<close>

lemma usage_zero_eq [simp]: "usage_zero = 0"
  by (simp add: usage_zero_def zero_UsageRecord_def)

lemma usage_plus_eq [simp]: "usage_plus u v = u + v"
  by (simp add: usage_plus_def model_fields_def usage_of_values_def plus_UsageRecord_def)

lemma fits_within_iff [simp]: "fits_within u limit \<longleftrightarrow> u \<le> limit"
  by (simp add: fits_within_def less_eq_UsageRecord_def)

lemma usage_valid_iff: "usage_valid u \<longleftrightarrow> 0 \<le> u"
  by (simp add: usage_valid_def less_eq_UsageRecord_def model_fields_def)

section \<open>Reservation arithmetic\<close>

fun join :: "string \<Rightarrow> string list \<Rightarrow> string" where
  "join sep [] = []"
| "join sep [x] = x"
| "join sep (x # y # ys) = x @ sep @ join sep (y # ys)"

definition exceeded_names :: "UsageRecord \<Rightarrow> BudgetSpec \<Rightarrow> string list" where
  "exceeded_names projected limit =
     map fst (filter (\<lambda>(n, get). get projected > get limit) model_fields)"

definition reserve_usage ::
  "BudgetSpec \<Rightarrow> UsageRecord \<Rightarrow> UsageRecord \<Rightarrow> UsageRecord \<Rightarrow> err + UsageRecord" where
  "reserve_usage limit used already_reserved requested =
     (let projected = usage_plus (usage_plus used already_reserved) requested in
      if \<not> fits_within projected limit
      then Inl (BudgetExceededError
        (''budget exceeded: '' @ join '', '' (exceeded_names projected limit)))
      else Inr (usage_plus already_reserved requested))"

definition reconcile_usage ::
  "UsageRecord \<Rightarrow> UsageRecord \<Rightarrow> UsageRecord \<Rightarrow> UsageRecord
    \<Rightarrow> err + UsageRecord \<times> UsageRecord" where
  "reconcile_usage used already_reserved estimated actual =
     (let vs = map (\<lambda>(n, get). get already_reserved - get estimated) model_fields in
      if list_ex (\<lambda>v. v < 0) vs then Inl (ValueError ''reservation underflow'')
      else Inr (usage_plus used actual, usage_of_values vs))"

lemma reserve_usage_Inr:
  "reserve_usage limit used reserved requested = Inr r \<longleftrightarrow>
     used + reserved + requested \<le> limit \<and> r = reserved + requested"
  by (auto simp: reserve_usage_def Let_def)

lemma reserve_usage_Inl:
  "reserve_usage limit used reserved requested = Inl e \<longleftrightarrow>
     \<not> used + reserved + requested \<le> limit \<and>
     e = BudgetExceededError (''budget exceeded: '' @
       join '', '' (exceeded_names (used + reserved + requested) limit))"
  by (auto simp: reserve_usage_def Let_def)

lemma usage_difference:
  "usage_of_values (map (\<lambda>(n, get). get u - get v) model_fields) = u - v"
  by (simp add: model_fields_def usage_of_values_def UsageRecord.expand)

lemma usage_underflow:
  "list_ex (\<lambda>x. x < 0) (map (\<lambda>(n, get). get u - get v) model_fields) \<longleftrightarrow> \<not> v \<le> u"
  by (auto simp: model_fields_def UsageRecord_le_iff)

lemma reconcile_usage_Inr:
  "reconcile_usage used reserved estimated actual = Inr (u, r) \<longleftrightarrow>
     estimated \<le> reserved \<and> u = used + actual \<and> r = reserved - estimated"
  by (auto simp: reconcile_usage_def Let_def usage_underflow usage_difference)

lemma reconcile_usage_Inl:
  "reconcile_usage used reserved estimated actual = Inl e \<longleftrightarrow>
     \<not> estimated \<le> reserved \<and> e = ValueError ''reservation underflow''"
  by (auto simp: reconcile_usage_def Let_def usage_underflow)

lemma exceeded_names_empty: "exceeded_names u limit = [] \<longleftrightarrow> u \<le> limit"
  by (auto simp: exceeded_names_def model_fields_def UsageRecord_le_iff)

end
