(* ===== verification/Contracts.thy ===== *)
theory Contracts
  imports Lifecycle Budgets
begin

text \<open>
  The immutable records the services exchange (contracts/base.py, experiment.py,
  variation.py, evaluation.py, policy.py, review.py, runtime.py), with the model
  validators that constrain them, and the ambient values a service call reads: the clock,
  random identifiers, the canonical digest and the date column type.

  Timestamps are Python datetimes: a wall clock in microseconds, with an offset from UTC
  when the value is timezone-aware. Decimals are a coefficient and an exponent, with the
  addition of the default context (28 significant digits, round half even).
\<close>

section \<open>Datetimes\<close>

datatype py_datetime = Naive int | Aware int int

fun wall :: "py_datetime \<Rightarrow> int" where
  "wall (Naive w) = w"
| "wall (Aware w off) = w"

fun is_aware :: "py_datetime \<Rightarrow> bool" where
  "is_aware (Naive w) = False"
| "is_aware (Aware w off) = True"

text \<open>The instant of an aware value, and the comparison that refuses to mix the kinds.\<close>

fun dt_less :: "py_datetime \<Rightarrow> py_datetime \<Rightarrow> err + bool" where
  "dt_less (Naive a) (Naive b) = Inr (a < b)"
| "dt_less (Aware a p) (Aware b q) = Inr (a - p < b - q)"
| "dt_less _ _ = Inl (TypeError ''can't compare offset-naive and offset-aware datetimes'')"

fun dt_add :: "py_datetime \<Rightarrow> int \<Rightarrow> py_datetime" where
  "dt_add (Naive w) d = Naive (w + d)"
| "dt_add (Aware w off) d = Aware (w + d) off"

definition seconds :: "int \<Rightarrow> int" where
  "seconds n = n * 1000000"

definition require_aware_datetime :: "py_datetime \<Rightarrow> err + py_datetime" where
  "require_aware_datetime value =
     (if \<not> is_aware value then Inl (ValueError ''timestamp must be timezone-aware'')
      else Inr value)"

section \<open>Decimals\<close>

datatype decimal = Dec (coefficient: int) (exponent: int)

fun ndigits :: "nat \<Rightarrow> nat" where
  "ndigits n = (if n < 10 then 1 else Suc (ndigits (n div 10)))"

declare ndigits.simps [simp del]

definition decimal_prec :: nat where
  "decimal_prec = 28"

text \<open>Rounding of an exact result to the context precision, half to even.\<close>

definition decimal_fix :: "decimal \<Rightarrow> decimal" where
  "decimal_fix d =
     (let c = nat \<bar>coefficient d\<bar>; n = ndigits c in
      if n \<le> decimal_prec then d
      else let k = n - decimal_prec; q = c div 10 ^ k; r = c mod 10 ^ k;
               up = (2 * r > 10 ^ k \<or> 2 * r = 10 ^ k \<and> odd q);
               q' = (if up then q + 1 else q)
           in Dec (sgn (coefficient d) * int q') (exponent d + int k))"

definition decimal_align :: "decimal \<Rightarrow> int \<Rightarrow> int" where
  "decimal_align d e = coefficient d * 10 ^ nat (exponent d - e)"

definition decimal_add :: "decimal \<Rightarrow> decimal \<Rightarrow> decimal" where
  "decimal_add a b =
     (let e = min (exponent a) (exponent b)
      in decimal_fix (Dec (decimal_align a e + decimal_align b e) e))"

definition decimal_neg :: "decimal \<Rightarrow> decimal" where
  "decimal_neg a = Dec (- coefficient a) (exponent a)"

definition decimal_sub :: "decimal \<Rightarrow> decimal \<Rightarrow> decimal" where
  "decimal_sub a b = decimal_add a (decimal_neg b)"

text \<open>Comparison is exact.\<close>

definition decimal_le :: "decimal \<Rightarrow> decimal \<Rightarrow> bool" where
  "decimal_le a b =
     (let e = min (exponent a) (exponent b) in decimal_align a e \<le> decimal_align b e)"

definition decimal_negative :: "decimal \<Rightarrow> bool" where
  "decimal_negative a = (coefficient a < 0)"

section \<open>JSON values\<close>

datatype jval =
    JNull
  | JBool bool
  | JInt int
  | JStr string
  | JList "jval list"
  | JObj "(string \<times> jval) list"

section \<open>Base records\<close>

text \<open>
  \<open>NonEmptyString\<close>: surrounding white space is stripped, and what is left must not be
  empty.
\<close>

definition white_space :: "char \<Rightarrow> bool" where
  "white_space c = ((of_char c :: nat) \<in> {9, 10, 11, 12, 13, 32, 133, 160})"

definition strip :: "string \<Rightarrow> string" where
  "strip x = rev (dropWhile white_space (rev (dropWhile white_space x)))"

definition non_empty_string :: "string \<Rightarrow> err + string" where
  "non_empty_string x = (if strip x = []
     then Inl (ValueError ''String should have at least 1 character'') else Inr (strip x))"

text \<open>
  \<open>Sha256Digest\<close>: the pattern \<open>^sha256:[0-9a-f]{64}$\<close> on the stripped string; positive
  integers, string literals, and a validator applied to each item of a list.
\<close>

definition is_sha256 :: "string \<Rightarrow> bool" where
  "is_sha256 x \<longleftrightarrow> take 7 x = ''sha256:'' \<and> length x = 71 \<and>
     list_all (\<lambda>c. c \<in> set ''0123456789abcdef'') (drop 7 x)"

definition sha256_digest :: "string \<Rightarrow> err + string" where
  "sha256_digest x = (if is_sha256 (strip x) then Inr (strip x)
     else Inl (ValueError ''String should match pattern''))"

definition positive_int :: "int \<Rightarrow> err + int" where
  "positive_int n = (if n > 0 then Inr n else Inl (ValueError ''Input should be greater than 0''))"

definition one_of :: "string list \<Rightarrow> string \<Rightarrow> err + string" where
  "one_of literals x = (if x \<in> set literals then Inr x
     else Inl (ValueError ''Input should be one of the literals''))"

fun map_err :: "('a \<Rightarrow> err + 'b) \<Rightarrow> 'a list \<Rightarrow> err + 'b list" where
  "map_err f [] = Inr []"
| "map_err f (x # xs) = bind_err (f x) (\<lambda>y. bind_err (map_err f xs) (\<lambda>ys. Inr (y # ys)))"

definition min_one :: "'a list \<Rightarrow> err + 'a list" where
  "min_one xs = (if xs = [] then Inl (ValueError ''List should have at least 1 item after validation'')
     else Inr xs)"

record ArtifactRef =
  ar_digest :: string
  ar_size_bytes :: int
  ar_media_type :: string
  ar_role :: string
  ar_created_at :: py_datetime

record ActorRef =
  actor_type :: string
  actor_id :: string

record VersionedComponentRef =
  component_id :: string
  component_version :: string
  package_digest :: string
  capability_manifest_digest :: string

section \<open>Experiment configuration\<close>

definition mk_actor :: "ActorRef \<Rightarrow> err + ActorRef" where
  "mk_actor a =
     bind_err (one_of [''human'', ''service'', ''harness'', ''evaluator''] (actor_type a)) (\<lambda>ty.
     bind_err (non_empty_string (actor_id a)) (\<lambda>k.
     Inr \<lparr>actor_type = ty, actor_id = k\<rparr>))"

definition mk_component :: "VersionedComponentRef \<Rightarrow> err + VersionedComponentRef" where
  "mk_component c =
     bind_err (non_empty_string (component_id c)) (\<lambda>k.
     bind_err (non_empty_string (component_version c)) (\<lambda>v.
     bind_err (sha256_digest (package_digest c)) (\<lambda>p.
     bind_err (sha256_digest (capability_manifest_digest c)) (\<lambda>m.
     Inr \<lparr>component_id = k, component_version = v, package_digest = p,
       capability_manifest_digest = m\<rparr>))))"

text \<open>\<open>str.split\<close> on a single character, and membership tests on paths.\<close>

fun split_on :: "char \<Rightarrow> string \<Rightarrow> string list" where
  "split_on c [] = [[]]"
| "split_on c (x # xs) =
     (if x = c then [] # split_on c xs
      else (case split_on c xs of [] \<Rightarrow> [[x]] | w # ws \<Rightarrow> (x # w) # ws))"

definition ascii_letter :: "char \<Rightarrow> bool" where
  "ascii_letter c =
     ((of_char c :: nat) \<in> {65..90} \<or> (of_char c :: nat) \<in> {97..122})"

fun drive_prefix :: "string \<Rightarrow> bool" where
  "drive_prefix (a # b # _) = (ascii_letter a \<and> b = CHR '':'')"
| "drive_prefix _ = False"

text \<open>The argument \<open>nfc\<close> stands for \<open>unicodedata.normalize("NFC", _)\<close>.\<close>

definition validate_manifest_path :: "(string \<Rightarrow> string) \<Rightarrow> string \<Rightarrow> err + string" where
  "validate_manifest_path nfc value =
     (if nfc value \<noteq> value
      then Inl (ValueError ''manifest paths must already be NFC-normalized'')
      else if value = [] \<or> CHR 0x00 \<in> set value
      then Inl (ValueError ''manifest paths must be non-empty and contain no NUL'')
      else if CHR 0x5C \<in> set value \<or> hd value = CHR ''/'' \<or> drive_prefix value
      then Inl (ValueError ''manifest paths must be relative POSIX paths'')
      else if list_ex (\<lambda>segment. segment \<in> {[], ''.'', ''..''}) (split_on (CHR ''/'') value)
      then Inl (ValueError ''manifest paths contain an unsafe segment'')
      else Inr value)"

definition validate_paths :: "(string \<Rightarrow> string) \<Rightarrow> string list \<Rightarrow> err + string list" where
  "validate_paths nfc values =
     bind_err (map_err (validate_manifest_path nfc) values) (\<lambda>paths.
       if \<not> distinct paths then Inl (ValueError ''manifest paths must be unique'')
       else Inr paths)"

record WorkspaceSpec =
  source_uri :: string
  source_revision :: string
  ws_source_tree_digest :: string
  allowed_paths :: "string list"
  forbidden_paths :: "string list"
  required_paths :: "string list"
  max_file_bytes :: int
  max_tree_bytes :: int
  submodules :: string
  symlinks :: string

definition validate_sizes :: "WorkspaceSpec \<Rightarrow> err + WorkspaceSpec" where
  "validate_sizes w =
     (if max_file_bytes w > max_tree_bytes w
      then Inl (ValueError ''max_file_bytes cannot exceed max_tree_bytes'') else Inr w)"

definition mk_workspace :: "(string \<Rightarrow> string) \<Rightarrow> WorkspaceSpec \<Rightarrow> err + WorkspaceSpec" where
  "mk_workspace nfc w =
     bind_err (non_empty_string (source_uri w)) (\<lambda>uri.
     bind_err (non_empty_string (source_revision w)) (\<lambda>revision.
     bind_err (sha256_digest (ws_source_tree_digest w)) (\<lambda>tree.
     bind_err (validate_paths nfc (map strip (allowed_paths w))) (\<lambda>allowed.
     bind_err (validate_paths nfc (map strip (forbidden_paths w))) (\<lambda>forbidden.
     bind_err (validate_paths nfc (map strip (required_paths w))) (\<lambda>needed.
     bind_err (positive_int (max_file_bytes w)) (\<lambda>file.
     bind_err (positive_int (max_tree_bytes w)) (\<lambda>total.
     bind_err (one_of [''deny'', ''pinned_only''] (submodules w)) (\<lambda>subs.
     bind_err (one_of [''deny'', ''internal_only''] (symlinks w)) (\<lambda>links.
     validate_sizes \<lparr>source_uri = uri, source_revision = revision, ws_source_tree_digest = tree,
       allowed_paths = allowed, forbidden_paths = forbidden, required_paths = needed,
       max_file_bytes = file, max_tree_bytes = total, submodules = subs, symlinks = links\<rparr>))))))))))"

record SearchSpec =
  search_method :: string
  method_version :: string
  max_committed_candidates :: int
  stopping_rules :: "string list"

definition mk_search :: "SearchSpec \<Rightarrow> err + SearchSpec" where
  "mk_search x =
     bind_err (one_of [''single_lineage_agentic''] (search_method x)) (\<lambda>m.
     bind_err (non_empty_string (method_version x)) (\<lambda>v.
     bind_err (positive_int (max_committed_candidates x)) (\<lambda>n.
     bind_err (map_err non_empty_string (stopping_rules x)) (\<lambda>rules.
     bind_err (min_one rules) (\<lambda>rules.
     Inr \<lparr>search_method = m, method_version = v, max_committed_candidates = n, stopping_rules = rules\<rparr>)))))"

record HarnessSpec =
  hs_component :: VersionedComponentRef
  hs_model_config_digest :: string
  configuration_digest :: string

definition mk_harness :: "HarnessSpec \<Rightarrow> err + HarnessSpec" where
  "mk_harness h =
     bind_err (mk_component (hs_component h)) (\<lambda>c.
     bind_err (sha256_digest (hs_model_config_digest h)) (\<lambda>m.
     bind_err (sha256_digest (configuration_digest h)) (\<lambda>g.
     Inr \<lparr>hs_component = c, hs_model_config_digest = m, configuration_digest = g\<rparr>)))"

record EvaluatorSpec =
  es_component :: VersionedComponentRef
  es_tier :: string
  es_profile_digest :: string
  es_execution_image_digest :: string

definition mk_evaluator :: "EvaluatorSpec \<Rightarrow> err + EvaluatorSpec" where
  "mk_evaluator v =
     bind_err (mk_component (es_component v)) (\<lambda>c.
     bind_err (one_of [''development'', ''admission'', ''audit''] (es_tier v)) (\<lambda>tier.
     bind_err (sha256_digest (es_profile_digest v)) (\<lambda>p.
     bind_err (sha256_digest (es_execution_image_digest v)) (\<lambda>i.
     Inr \<lparr>es_component = c, es_tier = tier, es_profile_digest = p, es_execution_image_digest = i\<rparr>))))"

record ReviewPolicy =
  rp_required :: bool
  rp_eligible_roles :: "string list"
  rp_approvals_required :: int
  rp_proposer_may_review :: bool
  rp_expires_after_seconds :: "int option"

definition validate_review_policy :: "ReviewPolicy \<Rightarrow> err + ReviewPolicy" where
  "validate_review_policy p =
     (if rp_required p \<noteq> (rp_approvals_required p > 0)
      then Inl (ValueError ''required and approvals_required must agree'') else Inr p)"

definition mk_review_policy :: "ReviewPolicy \<Rightarrow> err + ReviewPolicy" where
  "mk_review_policy p =
     bind_err (map_err non_empty_string (rp_eligible_roles p)) (\<lambda>roles.
     if \<not> (0 \<le> rp_approvals_required p \<and> rp_approvals_required p \<le> 2)
     then Inl (ValueError ''approvals_required out of range'')
     else if \<exists>n\<in>set_option (rp_expires_after_seconds p). n \<le> 0
     then Inl (ValueError ''Input should be greater than 0'')
     else validate_review_policy (p\<lparr>rp_eligible_roles := roles\<rparr>))"

record ExperimentSpec =
  experiment_id :: string
  title :: string
  objective :: string
  success_criteria :: "string list"
  workspace :: WorkspaceSpec
  search :: SearchSpec
  harness :: HarnessSpec
  development_evaluators :: "EvaluatorSpec list"
  admission_evaluators :: "EvaluatorSpec list"
  audit_evaluators :: "EvaluatorSpec list"
  budget :: BudgetSpec
  sandbox_profile_id :: string
  xs_policy_bundle_digest :: string
  retention_policy_id :: string
  review_policy :: ReviewPolicy
  created_by :: ActorRef

definition wrong_tier :: "string \<Rightarrow> EvaluatorSpec list \<Rightarrow> bool" where
  "wrong_tier tier evaluators = list_ex (\<lambda>e. es_tier e \<noteq> tier) evaluators"

definition validate_evaluator_tiers :: "ExperimentSpec \<Rightarrow> err + ExperimentSpec" where
  "validate_evaluator_tiers x =
     (if wrong_tier ''development'' (development_evaluators x)
      then Inl (ValueError ''development evaluator list contains another tier'')
      else if wrong_tier ''admission'' (admission_evaluators x)
      then Inl (ValueError ''admission evaluator list contains another tier'')
      else if wrong_tier ''audit'' (audit_evaluators x)
      then Inl (ValueError ''audit evaluator list contains another tier'')
      else Inr x)"

text \<open>
  Construction of a specification: the fields are validated in declaration order, then the
  tiers. Every budget field is a \<open>NonNegativeInt\<close>. Where several fields are invalid the
  code's validation error lists them all; here the first one is reported.
\<close>

definition mk_experiment :: "(string \<Rightarrow> string) \<Rightarrow> ExperimentSpec \<Rightarrow> err + ExperimentSpec" where
  "mk_experiment nfc x =
     bind_err (non_empty_string (experiment_id x)) (\<lambda>k.
     bind_err (non_empty_string (title x)) (\<lambda>ttl.
     bind_err (non_empty_string (objective x)) (\<lambda>goal.
     bind_err (map_err non_empty_string (success_criteria x)) (\<lambda>criteria.
     bind_err (min_one criteria) (\<lambda>criteria.
     bind_err (mk_workspace nfc (workspace x)) (\<lambda>w.
     bind_err (mk_search (search x)) (\<lambda>srch.
     bind_err (mk_harness (harness x)) (\<lambda>h.
     bind_err (map_err mk_evaluator (development_evaluators x)) (\<lambda>dev.
     bind_err (min_one dev) (\<lambda>dev.
     bind_err (map_err mk_evaluator (admission_evaluators x)) (\<lambda>adm.
     bind_err (min_one adm) (\<lambda>adm.
     bind_err (map_err mk_evaluator (audit_evaluators x)) (\<lambda>aud.
     bind_err (mk_usage (budget x)) (\<lambda>b.
     bind_err (non_empty_string (sandbox_profile_id x)) (\<lambda>sandbox.
     bind_err (sha256_digest (xs_policy_bundle_digest x)) (\<lambda>pol.
     bind_err (non_empty_string (retention_policy_id x)) (\<lambda>retention.
     bind_err (mk_review_policy (review_policy x)) (\<lambda>p.
     bind_err (mk_actor (created_by x)) (\<lambda>creator.
     validate_evaluator_tiers
       \<lparr>experiment_id = k, title = ttl, objective = goal, success_criteria = criteria, workspace = w,
        search = srch, harness = h, development_evaluators = dev, admission_evaluators = adm,
        audit_evaluators = aud, budget = b, sandbox_profile_id = sandbox, xs_policy_bundle_digest = pol,
        retention_policy_id = retention, review_policy = p, created_by = creator\<rparr>)))))))))))))))))))"

section \<open>Variation records\<close>

record CandidateRef =
  cr_candidate_id :: string
  cr_source_tree_digest :: string
  cr_lineage_sequence :: int

record VariationSessionRequest =
  vsr_session_id :: string
  vsr_run_id :: string
  champion :: CandidateRef
  lineage_index_digest :: string
  initial_context_digest :: string
  tool_capability_token :: string
  development_evaluator_refs :: "VersionedComponentRef list"
  vsr_budget_reservation_id :: string
  random_seed :: int

datatype session_outcome = O_proposal_ready | O_exhausted | O_policy_blocked | O_cancelled | O_failed

fun session_outcome_state :: "session_outcome \<Rightarrow> VariationSessionState" where
  "session_outcome_state O_proposal_ready = S_PROPOSAL_READY"
| "session_outcome_state O_exhausted = S_EXHAUSTED"
| "session_outcome_state O_policy_blocked = S_POLICY_BLOCKED"
| "session_outcome_state O_cancelled = S_CANCELLED"
| "session_outcome_state O_failed = S_FAILED"

record VariationSessionResult =
  vres_session_id :: string
  vres_outcome :: session_outcome
  proposed_workspace_digest :: "string option"
  proposed_patch_digest :: "string option"
  rationale_artifact :: "ArtifactRef option"
  vres_attempt_index_digest :: string
  vres_usage :: UsageRecord

definition proposal_requires_workspace ::
  "VariationSessionResult \<Rightarrow> err + VariationSessionResult" where
  "proposal_requires_workspace r =
     (if vres_outcome r = O_proposal_ready \<and> proposed_workspace_digest r = None
      then Inl (ValueError ''proposal_ready requires proposed_workspace_digest'') else Inr r)"

record VariationAttemptRecord =
  attempt_id :: string
  var_session_id :: string
  parent_workspace_digest :: string
  result_workspace_digest :: "string option"
  patch_digest :: "string option"
  development_evaluation_ids :: "string list"
  tool_trace_digest :: string
  var_outcome :: string
  var_started_at :: py_datetime
  var_completed_at :: py_datetime

record CandidateManifest =
  cm_candidate_id :: string
  cm_run_id :: string
  cm_session_id :: string
  parent_candidate_ids :: "string list"
  base_workspace_digest :: string
  cm_source_tree_digest :: string
  patch_artifact :: "ArtifactRef option"
  result_artifacts :: "ArtifactRef list"
  harness_ref :: VersionedComponentRef
  cm_model_config_digest :: string
  context_digest :: string
  cm_attempt_index_digest :: string
  execution_profile_digest :: string
  cm_policy_bundle_digest :: string
  cm_created_at :: py_datetime

section \<open>Evaluation and admission records\<close>

record TrialRecord =
  trial_index :: int
  seed :: int
  tr_metrics :: "(string \<times> decimal) list"
  workload_time_ms :: decimal
  sandbox_setup_time_ms :: decimal
  queue_time_ms :: decimal
  host_overhead_time_ms :: decimal

record UncertaintyRecord =
  ur_method :: string
  lower :: decimal
  upper :: decimal
  confidence_level :: decimal

datatype severity = Hard | Soft

record ConstraintResult =
  con_name :: string
  passed :: bool
  severity :: severity
  con_evidence_digest :: "string option"

datatype evaluator_tier = T_development | T_admission | T_audit

record EvaluationRecord =
  er_evaluation_id :: string
  er_candidate_id :: string
  evaluator_ref :: VersionedComponentRef
  evaluator_tier :: evaluator_tier
  evaluator_profile_digest :: string
  execution_image_digest :: string
  hardware_class :: string
  input_artifact_digests :: "string list"
  trial_records :: "TrialRecord list"
  aggregate_metrics :: "(string \<times> decimal) list"
  uncertainty :: "(string \<times> UncertaintyRecord) list"
  constraints :: "ConstraintResult list"
  er_outcome :: EvaluationState
  evidence_artifacts :: "ArtifactRef list"
  er_started_at :: py_datetime
  er_completed_at :: py_datetime

datatype direction = Maximize | Minimize
datatype conclusion = Improved | Not_improved | Within_noise

record ComparisonRecord =
  cmp_metric :: string
  cmp_direction :: direction
  incumbent_value :: decimal
  cmp_candidate_value :: decimal
  minimum_effect :: decimal
  conclusion :: conclusion

datatype admission_outcome = A_admit | A_reject | A_quarantine | A_review_required

record AdmissionDecision =
  ad_admission_id :: string
  ad_candidate_id :: string
  expected_champion_id :: string
  evaluation_ids :: "string list"
  policy_decision_ids :: "string list"
  ad_outcome :: admission_outcome
  ad_reason_codes :: "string list"
  comparison :: ComparisonRecord
  decided_by :: ActorRef
  ad_decided_at :: py_datetime

section \<open>Policy, review and runtime records\<close>

datatype policy_outcome = P_allow | P_deny | P_review

record PolicyObligation =
  obligation_type :: string
  parameters :: "(string \<times> jval) list"

record PolicyDecision =
  pd_decision_id :: string
  policy_engine_id :: string
  pd_policy_bundle_digest :: string
  pd_action :: string
  pd_resource :: string
  pd_input_digest :: string
  pd_outcome :: policy_outcome
  pd_reason_codes :: "string list"
  obligations :: "PolicyObligation list"
  pd_decided_at :: py_datetime

record ReviewRequest =
  rq_review_id :: string
  rq_run_id :: string
  rq_candidate_id :: string
  rq_action :: string
  rq_proposer_id :: string
  rq_eligible_roles :: "string list"
  rq_approvals_required :: int
  rq_proposer_may_review :: bool
  rq_required_evidence_digests :: "string list"
  rq_expires_at :: py_datetime
  rq_created_at :: py_datetime

datatype review_outcome = RV_approve | RV_reject

record ReviewDecision =
  rd_decision_id :: string
  rd_review_id :: string
  reviewer :: ActorRef
  reviewer_role :: string
  rd_outcome :: review_outcome
  rd_evidence_digests :: "string list"
  rationale :: string
  signature_digest :: string
  rd_decided_at :: py_datetime

record ReviewStatus =
  rs_review_id :: string
  rs_state :: ReviewState
  rs_approvals :: int
  rs_approvals_required :: int

datatype invocation_state =
  I_started | I_running | I_completed | I_failed | I_reconciliation_required

record RuntimeSessionRef =
  adapter_id :: string
  native_session_id :: string
  native_operation_id :: "string option"
  rsr_invocation_id :: "string option"
  storage_class :: string
  checkpoint :: "(int + string) option"

datatype completion_outcome = Proposal | Stop

record AgentCompletion =
  ac_outcome :: completion_outcome
  ac_rationale :: string
  claimed_tests :: "string list"

record EconomicUsageRecord =
  billing_mode :: string
  charged_cost_microusd :: "int option"
  provider_equivalent_cost_microusd :: "int option"
  counterfactual_cost_microusd :: "int option"
  cost_source :: string
  price_table_digest :: "string option"
  token_details :: "(string \<times> int) list"
  quota_details :: "(string \<times> int) list"

definition validate_price_source :: "EconomicUsageRecord \<Rightarrow> err + EconomicUsageRecord" where
  "validate_price_source r =
     (if cost_source r = ''price_table'' \<and> price_table_digest r = None
      then Inl (ValueError ''price_table cost source requires price_table_digest'')
      else if billing_mode r = ''metered'' \<and> charged_cost_microusd r = None
      then Inl (ValueError ''metered billing requires charged cost'')
      else Inr r)"

record HarnessInvocationRecord =
  hi_invocation_id :: string
  hi_activity_id :: string
  hi_run_id :: string
  hi_session_id :: "string option"
  profile_digest :: string
  runtime_id :: string
  hi_state :: invocation_state
  adapter_version :: string
  runtime_version :: string
  requested_model :: string
  resolved_model :: "string option"
  runtime_session :: "RuntimeSessionRef option"
  workspace_before_digest :: string
  workspace_after_digest :: "string option"
  event_stream_artifact_digest :: "string option"
  hi_completion :: "AgentCompletion option"
  hi_usage :: "(string \<times> int) list"
  economics :: EconomicUsageRecord
  error_class :: "string option"
  hi_started_at :: py_datetime
  hi_completed_at :: "py_datetime option"

datatype case_state = Open | Resolved

datatype resolution = Retry | Accept_result | Cancel | Fail

record ReconciliationCaseRecord =
  rc_reconciliation_id :: string
  rc_run_id :: string
  rc_activity_id :: string
  rc_session_id :: "string option"
  rc_reason :: string
  rc_evidence_digests :: "string list"
  rc_budget_reservation_id :: "string option"
  rc_state :: case_state
  rc_resolution :: "resolution option"
  rc_resolution_note :: "string option"
  rc_opened_at :: py_datetime
  rc_resolved_at :: "py_datetime option"

definition validate_resolution :: "ReconciliationCaseRecord \<Rightarrow> err + ReconciliationCaseRecord" where
  "validate_resolution r =
     (if rc_state r = Open \<and>
         (rc_resolution r \<noteq> None \<or> rc_resolution_note r \<noteq> None \<or> rc_resolved_at r \<noteq> None)
      then Inl (ValueError ''open reconciliation cannot have resolution fields'')
      else if rc_state r = Resolved \<and> (rc_resolution r = None \<or> rc_resolved_at r = None)
      then Inl (ValueError ''resolved reconciliation requires resolution and timestamp'')
      else Inr r)"

text \<open>The constructor: the reason is a non-empty string, the timestamp aware.\<close>

definition mk_reconciliation :: "ReconciliationCaseRecord \<Rightarrow> err + ReconciliationCaseRecord" where
  "mk_reconciliation r =
     bind_err (non_empty_string (rc_reason r)) (\<lambda>reason.
     bind_err (require_aware_datetime (rc_opened_at r)) (\<lambda>_.
     validate_resolution (r\<lparr>rc_reason := reason\<rparr>)))"

text \<open>Records of one tool call and of one model call.\<close>

datatype tool_outcome = Tool_succeeded | Tool_failed | Tool_policy_blocked | Tool_timed_out

record ToolInvocationRecord =
  ti_invocation_id :: string
  ti_activity_id :: string
  ti_session_id :: string
  ti_actor_id :: string
  ti_tool_id :: string
  ti_tool_version :: string
  ti_arguments_digest :: string
  ti_policy_decision_id :: string
  ti_outcome :: tool_outcome
  ti_output_artifact_digests :: "string list"
  ti_input_bytes :: int
  ti_output_bytes :: int
  ti_usage :: UsageRecord
  ti_redaction_profile :: string
  ti_started_at :: py_datetime
  ti_completed_at :: py_datetime
  ti_error :: "jval option"

record ModelInvocationRecord =
  mi_invocation_id :: string
  mi_activity_id :: string
  mi_session_id :: string
  mi_provider :: string
  mi_endpoint_class :: string
  mi_requested_model :: string
  mi_provider_model_revision :: "string option"
  mi_system_artifact_digest :: string
  mi_developer_artifact_digest :: string
  mi_user_artifact_digest :: string
  mi_tool_schema_digest :: string
  mi_parameters :: "(string \<times> jval) list"
  mi_provider_request_id :: "string option"
  mi_usage :: UsageRecord
  mi_provider_usage :: "(string \<times> int) list"
  mi_retry_parent_invocation_id :: "string option"
  mi_finish_reason :: "string option"
  mi_error_class :: "string option"
  mi_request_artifact_digest :: string
  mi_response_artifact_digest :: "string option"
  mi_cost_source :: string
  mi_started_at :: py_datetime
  mi_completed_at :: py_datetime

section \<open>Digested values and the ambient values of a call\<close>

text \<open>
  Everything \<open>canonical_digest\<close> is applied to in the services: a record, or a dictionary.
\<close>

datatype digestible =
    D_experiment ExperimentSpec
  | D_request VariationSessionRequest
  | D_result VariationSessionResult
  | D_attempt VariationAttemptRecord
  | D_manifest CandidateManifest
  | D_evaluation EvaluationRecord
  | D_policy PolicyDecision
  | D_admission AdmissionDecision
  | D_review ReviewDecision
  | D_invocation HarnessInvocationRecord
  | D_reconciliation ReconciliationCaseRecord
  | D_tool ToolInvocationRecord
  | D_model ModelInvocationRecord
  | D_budget_input UsageRecord string BudgetSpec
  | D_json jval

text \<open>
  What one call reads from outside the program: the UTC clock, the random identifiers
  drawn during the call (the n-th \<open>uuid4\<close>), name-based identifiers, the canonical digest
  of a record (RFC 8785 and SHA-256 of its serialised form), what a date column gives
  back for a stored value, and the NFC normalisation of a string.
\<close>

record env =
  utcnow :: int
  uuid4 :: "nat \<Rightarrow> string"
  uuid5 :: "string \<Rightarrow> string"
  canonical_digest :: "digestible \<Rightarrow> string"
  date_column :: "py_datetime \<Rightarrow> py_datetime"
  normalize_nfc :: "string \<Rightarrow> string"

definition now :: "env \<Rightarrow> py_datetime" where
  "now e = Aware (utcnow e) 0"

text \<open>
  The documented behaviour of a \<open>DateTime\<close> column on SQLite: the offset is not stored,
  values come back naive with the same wall clock.
\<close>

definition drops_tzinfo :: "env \<Rightarrow> bool" where
  "drops_tzinfo e = (\<forall>d. date_column e d = Naive (wall d))"

end
