(* ===== verification/Store.thy ===== *)
theory Store
  imports Contracts
begin

text \<open>
  The relational store (adapters/persistence/models.py): one record per table row, the
  database as the record of its tables, and for each table the operations the services
  use: lookup by primary key, attribute writes, and insertion under the primary-key,
  unique and foreign-key constraints the models declare (SQLite runs with
  \<open>foreign_keys=ON\<close>). A violated constraint raises \<open>IntegrityError\<close> at the insert.
  Columns that hold the JSON text of a record hold the record here; a state column holds
  a value of the enumeration whose strings the services write.

  The event log is the store's first invariant: per run, the sequence numbers of its
  events are exactly 1 to the run's counter, the revision counts the same steps, and every
  event has its outbox row with the same payload.
\<close>

section \<open>Rows\<close>

record ExperimentRow =
  exp_id :: string
  exp_spec_digest :: string
  exp_spec :: ExperimentSpec
  exp_created_by :: string
  exp_created_at :: py_datetime

record RunRow =
  run_id :: string
  run_experiment_id :: string
  run_state :: RunState
  run_revision :: int
  run_event_sequence :: int
  run_champion_id :: "string option"
  run_created_at :: py_datetime
  run_updated_at :: py_datetime

record EventRow =
  ev_id :: string
  ev_run_id :: string
  ev_sequence :: int
  ev_type :: string
  ev_actor_id :: string
  ev_payload :: jval
  ev_created_at :: py_datetime

record OutboxRow =
  ob_id :: string
  ob_event_id :: string
  ob_topic :: string
  ob_payload :: jval
  ob_created_at :: py_datetime
  ob_published_at :: "py_datetime option"

record BudgetLedgerRow =
  led_run_id :: string
  led_limit :: BudgetSpec
  led_used :: UsageRecord
  led_reserved :: UsageRecord
  led_revision :: int

datatype reservation_state = Reserved | Held | Completed | Released | Exceeded

record BudgetReservationRow =
  res_id :: string
  res_run_id :: string
  res_activity_key :: string
  res_state :: reservation_state
  res_estimated :: UsageRecord
  res_actual :: "UsageRecord option"
  res_created_at :: py_datetime
  res_reconciled_at :: "py_datetime option"

datatype activity_state =
    Act_queued | Act_running | Act_completed | Act_reconciliation_required | Act_cancelled
  | Act_failed

record ActivityRow =
  act_id :: string
  act_run_id :: string
  act_session_id :: "string option"
  act_reservation_id :: "string option"
  act_key :: string
  act_state :: activity_state
  act_attempt_count :: int
  act_lease_epoch :: int
  act_lease_owner :: "string option"
  act_lease_expires_at :: "py_datetime option"
  act_input_digest :: string
  act_result_digest :: "string option"
  act_error :: "jval option"
  act_created_at :: py_datetime
  act_updated_at :: py_datetime

record ArtifactMetadataRow =
  am_digest :: string
  am_size_bytes :: int
  am_media_type :: string
  am_role :: string
  am_created_at :: py_datetime
  am_verified_at :: py_datetime

record IdempotencyRow =
  idem_record_id :: string
  idem_actor_id :: string
  idem_scope :: string
  idem_key :: string
  idem_request_digest :: string
  idem_resource_id :: string
  idem_created_at :: py_datetime

record VariationSessionRow =
  ses_id :: string
  ses_run_id :: string
  ses_number :: int
  ses_state :: VariationSessionState
  ses_request :: VariationSessionRequest
  ses_result :: "VariationSessionResult option"
  ses_usage :: "UsageRecord option"
  ses_created_at :: py_datetime
  ses_updated_at :: py_datetime

record AttemptRow =
  att_id :: string
  att_session_id :: string
  att_number :: int
  att_record :: VariationAttemptRecord
  att_record_digest :: string
  att_created_at :: py_datetime

text \<open>A candidate is the seed of its run or carries a \<open>CandidateState\<close> value.\<close>

datatype candidate_row_state = Seed | In_state CandidateState

datatype candidate_manifest = Seed_manifest jval | Manifest CandidateManifest

record CandidateRow =
  cand_id :: string
  cand_run_id :: string
  cand_session_id :: "string option"
  cand_state :: candidate_row_state
  cand_source_tree_digest :: string
  cand_manifest_digest :: string
  cand_manifest :: candidate_manifest
  cand_created_at :: py_datetime

record EvaluationRow =
  evl_id :: string
  evl_candidate_id :: string
  evl_evaluator_key :: string
  evl_tier :: evaluator_tier
  evl_state :: EvaluationState
  evl_record_digest :: string
  evl_record :: EvaluationRecord
  evl_created_at :: py_datetime

record PolicyDecisionRow =
  pol_id :: string
  pol_run_id :: string
  pol_candidate_id :: "string option"
  pol_decision_digest :: string
  pol_decision :: PolicyDecision
  pol_created_at :: py_datetime

record AdmissionRow =
  adm_id :: string
  adm_run_id :: string
  adm_candidate_id :: string
  adm_outcome :: admission_outcome
  adm_decision_digest :: string
  adm_decision :: AdmissionDecision
  adm_created_at :: py_datetime

record LineageRow =
  lin_id :: string
  lin_run_id :: string
  lin_sequence :: int
  lin_candidate_id :: string
  lin_source_tree_digest :: string
  lin_admission_id :: "string option"
  lin_committed_at :: py_datetime

record HarnessInvocationRow =
  inv_id :: string
  inv_run_id :: string
  inv_activity_id :: string
  inv_session_id :: "string option"
  inv_state :: invocation_state
  inv_record_digest :: string
  inv_record :: HarnessInvocationRecord
  inv_created_at :: py_datetime
  inv_updated_at :: py_datetime

record ReconciliationCaseRow =
  rec_id :: string
  rec_run_id :: string
  rec_activity_id :: string
  rec_session_id :: "string option"
  rec_state :: case_state
  rec_record_digest :: string
  rec_record :: ReconciliationCaseRecord
  rec_created_at :: py_datetime
  rec_updated_at :: py_datetime

record ToolInvocationRow =
  tin_id :: string
  tin_run_id :: string
  tin_session_id :: string
  tin_record_digest :: string
  tin_record :: ToolInvocationRecord
  tin_created_at :: py_datetime

record ModelInvocationRow =
  min_id :: string
  min_run_id :: string
  min_session_id :: string
  min_record_digest :: string
  min_record :: ModelInvocationRecord
  min_created_at :: py_datetime

record ArtifactReferenceRow =
  ref_id :: string
  ref_digest :: string
  ref_run_id :: string
  ref_owner_type :: string
  ref_owner_id :: string
  ref_role :: string
  ref_retention_class :: string
  ref_created_at :: py_datetime

record DeletionTombstoneRow =
  tomb_id :: string
  tomb_digest :: string
  tomb_outcome :: string
  tomb_reason :: string
  tomb_created_at :: py_datetime

record ReviewRequestRow =
  rvq_id :: string
  rvq_run_id :: string
  rvq_candidate_id :: string
  rvq_action :: string
  rvq_proposer_id :: string
  rvq_eligible_roles :: "string list"
  rvq_approvals_required :: int
  rvq_proposer_may_review :: bool
  rvq_required_evidence :: "string list"
  rvq_state :: ReviewState
  rvq_expires_at :: py_datetime
  rvq_created_at :: py_datetime

record ReviewDecisionRow =
  rvd_id :: string
  rvd_review_id :: string
  rvd_reviewer_id :: string
  rvd_outcome :: review_outcome
  rvd_decision_digest :: string
  rvd_decision :: ReviewDecision
  rvd_created_at :: py_datetime

section \<open>The database\<close>

record db =
  experiments :: "ExperimentRow list"
  runs :: "RunRow list"
  events :: "EventRow list"
  outbox :: "OutboxRow list"
  ledgers :: "BudgetLedgerRow list"
  reservations :: "BudgetReservationRow list"
  activities :: "ActivityRow list"
  artifact_metadata :: "ArtifactMetadataRow list"
  idempotency :: "IdempotencyRow list"
  sessions :: "VariationSessionRow list"
  attempts :: "AttemptRow list"
  candidates :: "CandidateRow list"
  evaluations :: "EvaluationRow list"
  policy_decisions :: "PolicyDecisionRow list"
  admissions :: "AdmissionRow list"
  lineage :: "LineageRow list"
  invocations :: "HarnessInvocationRow list"
  reconciliations :: "ReconciliationCaseRow list"
  artifact_references :: "ArtifactReferenceRow list"
  tombstones :: "DeletionTombstoneRow list"
  review_requests :: "ReviewRequestRow list"
  review_decisions :: "ReviewDecisionRow list"
  tool_invocations :: "ToolInvocationRow list"
  model_invocations :: "ModelInvocationRow list"

definition empty_db :: db where
  "empty_db = \<lparr>experiments = [], runs = [], events = [], outbox = [], ledgers = [],
     reservations = [], activities = [], artifact_metadata = [], idempotency = [],
     sessions = [], attempts = [], candidates = [], evaluations = [], policy_decisions = [],
     admissions = [], lineage = [], invocations = [], reconciliations = [],
     artifact_references = [], tombstones = [], review_requests = [], review_decisions = [],
     tool_invocations = [], model_invocations = []\<rparr>"

section \<open>Lookups and attribute writes\<close>

definition get_experiment_row :: "string \<Rightarrow> db \<Rightarrow> ExperimentRow option" where
  "get_experiment_row k s = row_get exp_id k (experiments s)"

definition get_run :: "string \<Rightarrow> db \<Rightarrow> RunRow option" where
  "get_run k s = row_get run_id k (runs s)"

definition set_run :: "string \<Rightarrow> (RunRow \<Rightarrow> RunRow) \<Rightarrow> db \<Rightarrow> db" where
  "set_run k f s = s\<lparr>runs := row_set run_id k f (runs s)\<rparr>"

definition get_ledger :: "string \<Rightarrow> db \<Rightarrow> BudgetLedgerRow option" where
  "get_ledger k s = row_get led_run_id k (ledgers s)"

definition set_ledger :: "string \<Rightarrow> (BudgetLedgerRow \<Rightarrow> BudgetLedgerRow) \<Rightarrow> db \<Rightarrow> db" where
  "set_ledger k f s = s\<lparr>ledgers := row_set led_run_id k f (ledgers s)\<rparr>"

definition get_reservation :: "string \<Rightarrow> db \<Rightarrow> BudgetReservationRow option" where
  "get_reservation k s = row_get res_id k (reservations s)"

definition set_reservation ::
  "string \<Rightarrow> (BudgetReservationRow \<Rightarrow> BudgetReservationRow) \<Rightarrow> db \<Rightarrow> db" where
  "set_reservation k f s = s\<lparr>reservations := row_set res_id k f (reservations s)\<rparr>"

definition get_activity :: "string \<Rightarrow> db \<Rightarrow> ActivityRow option" where
  "get_activity k s = row_get act_id k (activities s)"

definition set_activity :: "string \<Rightarrow> (ActivityRow \<Rightarrow> ActivityRow) \<Rightarrow> db \<Rightarrow> db" where
  "set_activity k f s = s\<lparr>activities := row_set act_id k f (activities s)\<rparr>"

definition get_session :: "string \<Rightarrow> db \<Rightarrow> VariationSessionRow option" where
  "get_session k s = row_get ses_id k (sessions s)"

definition set_session ::
  "string \<Rightarrow> (VariationSessionRow \<Rightarrow> VariationSessionRow) \<Rightarrow> db \<Rightarrow> db" where
  "set_session k f s = s\<lparr>sessions := row_set ses_id k f (sessions s)\<rparr>"

definition get_attempt :: "string \<Rightarrow> db \<Rightarrow> AttemptRow option" where
  "get_attempt k s = row_get att_id k (attempts s)"

definition get_candidate_row :: "string \<Rightarrow> db \<Rightarrow> CandidateRow option" where
  "get_candidate_row k s = row_get cand_id k (candidates s)"

definition set_candidate :: "string \<Rightarrow> (CandidateRow \<Rightarrow> CandidateRow) \<Rightarrow> db \<Rightarrow> db" where
  "set_candidate k f s = s\<lparr>candidates := row_set cand_id k f (candidates s)\<rparr>"

definition get_policy_decision :: "string \<Rightarrow> db \<Rightarrow> PolicyDecisionRow option" where
  "get_policy_decision k s = row_get pol_id k (policy_decisions s)"

definition get_admission_row :: "string \<Rightarrow> db \<Rightarrow> AdmissionRow option" where
  "get_admission_row k s = row_get adm_id k (admissions s)"

definition get_invocation_row :: "string \<Rightarrow> db \<Rightarrow> HarnessInvocationRow option" where
  "get_invocation_row k s = row_get inv_id k (invocations s)"

definition set_invocation ::
  "string \<Rightarrow> (HarnessInvocationRow \<Rightarrow> HarnessInvocationRow) \<Rightarrow> db \<Rightarrow> db" where
  "set_invocation k f s = s\<lparr>invocations := row_set inv_id k f (invocations s)\<rparr>"

definition get_reconciliation :: "string \<Rightarrow> db \<Rightarrow> ReconciliationCaseRow option" where
  "get_reconciliation k s = row_get rec_id k (reconciliations s)"

definition set_reconciliation ::
  "string \<Rightarrow> (ReconciliationCaseRow \<Rightarrow> ReconciliationCaseRow) \<Rightarrow> db \<Rightarrow> db" where
  "set_reconciliation k f s = s\<lparr>reconciliations := row_set rec_id k f (reconciliations s)\<rparr>"

definition get_artifact_metadata :: "string \<Rightarrow> db \<Rightarrow> ArtifactMetadataRow option" where
  "get_artifact_metadata k s = row_get am_digest k (artifact_metadata s)"

definition get_review_request :: "string \<Rightarrow> db \<Rightarrow> ReviewRequestRow option" where
  "get_review_request k s = row_get rvq_id k (review_requests s)"

definition set_review_request ::
  "string \<Rightarrow> (ReviewRequestRow \<Rightarrow> ReviewRequestRow) \<Rightarrow> db \<Rightarrow> db" where
  "set_review_request k f s = s\<lparr>review_requests := row_set rvq_id k f (review_requests s)\<rparr>"

definition get_review_decision :: "string \<Rightarrow> db \<Rightarrow> ReviewDecisionRow option" where
  "get_review_decision k s = row_get rvd_id k (review_decisions s)"

definition get_tool_invocation :: "string \<Rightarrow> db \<Rightarrow> ToolInvocationRow option" where
  "get_tool_invocation k s = row_get tin_id k (tool_invocations s)"

definition get_model_invocation :: "string \<Rightarrow> db \<Rightarrow> ModelInvocationRow option" where
  "get_model_invocation k s = row_get min_id k (model_invocations s)"

lemmas get_defs = get_experiment_row_def get_run_def get_ledger_def get_reservation_def
  get_activity_def get_session_def get_attempt_def get_candidate_row_def
  get_policy_decision_def get_admission_row_def get_invocation_row_def
  get_reconciliation_def get_artifact_metadata_def get_review_request_def
  get_review_decision_def get_tool_invocation_def get_model_invocation_def

lemmas set_defs = set_run_def set_ledger_def set_reservation_def set_activity_def
  set_session_def set_candidate_def set_invocation_def set_reconciliation_def
  set_review_request_def

section \<open>Inserts under the declared constraints\<close>

text \<open>A nullable foreign key is satisfied by the null value.\<close>

definition fk :: "('k \<Rightarrow> 'r option) \<Rightarrow> 'k option \<Rightarrow> bool" where
  "fk get x = (case x of None \<Rightarrow> True | Some k \<Rightarrow> get k \<noteq> None)"

definition experiment_conflict :: "ExperimentRow \<Rightarrow> ExperimentRow \<Rightarrow> bool" where
  "experiment_conflict r q \<longleftrightarrow>
     exp_id q = exp_id r \<or> exp_spec_digest q = exp_spec_digest r"

definition run_conflict :: "RunRow \<Rightarrow> RunRow \<Rightarrow> bool" where
  "run_conflict r q \<longleftrightarrow>
     run_id q = run_id r"

definition event_conflict :: "EventRow \<Rightarrow> EventRow \<Rightarrow> bool" where
  "event_conflict r q \<longleftrightarrow>
     ev_id q = ev_id r \<or> ev_run_id q = ev_run_id r \<and> ev_sequence q = ev_sequence r"

definition outbox_conflict :: "OutboxRow \<Rightarrow> OutboxRow \<Rightarrow> bool" where
  "outbox_conflict r q \<longleftrightarrow>
     ob_id q = ob_id r \<or> ob_event_id q = ob_event_id r"

definition ledger_conflict :: "BudgetLedgerRow \<Rightarrow> BudgetLedgerRow \<Rightarrow> bool" where
  "ledger_conflict r q \<longleftrightarrow>
     led_run_id q = led_run_id r"

definition reservation_conflict :: "BudgetReservationRow \<Rightarrow> BudgetReservationRow \<Rightarrow> bool" where
  "reservation_conflict r q \<longleftrightarrow>
     res_id q = res_id r \<or>
     res_run_id q = res_run_id r \<and> res_activity_key q = res_activity_key r"

definition activity_conflict :: "ActivityRow \<Rightarrow> ActivityRow \<Rightarrow> bool" where
  "activity_conflict r q \<longleftrightarrow>
     act_id q = act_id r \<or> act_run_id q = act_run_id r \<and> act_key q = act_key r"

definition artifact_metadata_conflict :: "ArtifactMetadataRow \<Rightarrow> ArtifactMetadataRow \<Rightarrow> bool" where
  "artifact_metadata_conflict r q \<longleftrightarrow>
     am_digest q = am_digest r"

definition idempotency_conflict :: "IdempotencyRow \<Rightarrow> IdempotencyRow \<Rightarrow> bool" where
  "idempotency_conflict r q \<longleftrightarrow>
     idem_record_id q = idem_record_id r \<or>
     idem_actor_id q = idem_actor_id r \<and> idem_scope q = idem_scope r \<and> idem_key q = idem_key r"

definition session_conflict :: "VariationSessionRow \<Rightarrow> VariationSessionRow \<Rightarrow> bool" where
  "session_conflict r q \<longleftrightarrow>
     ses_id q = ses_id r \<or> ses_run_id q = ses_run_id r \<and> ses_number q = ses_number r"

definition attempt_conflict :: "AttemptRow \<Rightarrow> AttemptRow \<Rightarrow> bool" where
  "attempt_conflict r q \<longleftrightarrow>
     att_id q = att_id r \<or>
     att_session_id q = att_session_id r \<and> att_number q = att_number r"

definition candidate_conflict :: "CandidateRow \<Rightarrow> CandidateRow \<Rightarrow> bool" where
  "candidate_conflict r q \<longleftrightarrow>
     cand_id q = cand_id r \<or>
     cand_run_id q = cand_run_id r \<and> cand_source_tree_digest q = cand_source_tree_digest r"

definition evaluation_conflict :: "EvaluationRow \<Rightarrow> EvaluationRow \<Rightarrow> bool" where
  "evaluation_conflict r q \<longleftrightarrow>
     evl_id q = evl_id r \<or>
     evl_candidate_id q = evl_candidate_id r \<and> evl_evaluator_key q = evl_evaluator_key r"

definition policy_decision_conflict :: "PolicyDecisionRow \<Rightarrow> PolicyDecisionRow \<Rightarrow> bool" where
  "policy_decision_conflict r q \<longleftrightarrow>
     pol_id q = pol_id r"

definition admission_conflict :: "AdmissionRow \<Rightarrow> AdmissionRow \<Rightarrow> bool" where
  "admission_conflict r q \<longleftrightarrow>
     adm_id q = adm_id r \<or>
     adm_candidate_id q = adm_candidate_id r \<and> adm_outcome q = A_admit \<and> adm_outcome r = A_admit"

definition lineage_conflict :: "LineageRow \<Rightarrow> LineageRow \<Rightarrow> bool" where
  "lineage_conflict r q \<longleftrightarrow>
     lin_id q = lin_id r \<or> lin_run_id q = lin_run_id r \<and>
     (lin_sequence q = lin_sequence r \<or> lin_candidate_id q = lin_candidate_id r \<or>
      lin_source_tree_digest q = lin_source_tree_digest r)"

definition invocation_conflict :: "HarnessInvocationRow \<Rightarrow> HarnessInvocationRow \<Rightarrow> bool" where
  "invocation_conflict r q \<longleftrightarrow>
     inv_id q = inv_id r"

definition reconciliation_conflict :: "ReconciliationCaseRow \<Rightarrow> ReconciliationCaseRow \<Rightarrow> bool" where
  "reconciliation_conflict r q \<longleftrightarrow>
     rec_id q = rec_id r"

definition artifact_reference_conflict :: "ArtifactReferenceRow \<Rightarrow> ArtifactReferenceRow \<Rightarrow> bool" where
  "artifact_reference_conflict r q \<longleftrightarrow>
     ref_id q = ref_id r \<or>
     ref_digest q = ref_digest r \<and> ref_owner_type q = ref_owner_type r \<and>
     ref_owner_id q = ref_owner_id r \<and> ref_role q = ref_role r"

definition tombstone_conflict :: "DeletionTombstoneRow \<Rightarrow> DeletionTombstoneRow \<Rightarrow> bool" where
  "tombstone_conflict r q \<longleftrightarrow>
     tomb_id q = tomb_id r"

definition review_request_conflict :: "ReviewRequestRow \<Rightarrow> ReviewRequestRow \<Rightarrow> bool" where
  "review_request_conflict r q \<longleftrightarrow>
     rvq_id q = rvq_id r"

definition review_decision_conflict :: "ReviewDecisionRow \<Rightarrow> ReviewDecisionRow \<Rightarrow> bool" where
  "review_decision_conflict r q \<longleftrightarrow>
     rvd_id q = rvd_id r \<or>
     rvd_review_id q = rvd_review_id r \<and> rvd_reviewer_id q = rvd_reviewer_id r"

definition tool_invocation_conflict :: "ToolInvocationRow \<Rightarrow> ToolInvocationRow \<Rightarrow> bool" where
  "tool_invocation_conflict r q \<longleftrightarrow>
     tin_id q = tin_id r"

definition model_invocation_conflict :: "ModelInvocationRow \<Rightarrow> ModelInvocationRow \<Rightarrow> bool" where
  "model_invocation_conflict r q \<longleftrightarrow>
     min_id q = min_id r"

definition add_experiment :: "ExperimentRow \<Rightarrow> db \<Rightarrow> err + db" where
  "add_experiment r s =
     bind_err (row_add experiment_conflict ''experiments'' r (experiments s)) (\<lambda>t. Inr (s\<lparr>experiments := t\<rparr>))"

definition add_run :: "RunRow \<Rightarrow> db \<Rightarrow> err + db" where
  "add_run r s =
     (if \<not> (get_experiment_row (run_experiment_id r) s \<noteq> None)
      then Inl (IntegrityError ''runs'')
      else bind_err (row_add run_conflict ''runs'' r (runs s)) (\<lambda>t. Inr (s\<lparr>runs := t\<rparr>)))"

definition add_event :: "EventRow \<Rightarrow> db \<Rightarrow> err + db" where
  "add_event r s =
     (if \<not> (get_run (ev_run_id r) s \<noteq> None)
      then Inl (IntegrityError ''events'')
      else bind_err (row_add event_conflict ''events'' r (events s)) (\<lambda>t. Inr (s\<lparr>events := t\<rparr>)))"

definition add_outbox :: "OutboxRow \<Rightarrow> db \<Rightarrow> err + db" where
  "add_outbox r s =
     (if \<not> (row_get ev_id (ob_event_id r) (events s) \<noteq> None)
      then Inl (IntegrityError ''outbox'')
      else bind_err (row_add outbox_conflict ''outbox'' r (outbox s)) (\<lambda>t. Inr (s\<lparr>outbox := t\<rparr>)))"

definition add_ledger :: "BudgetLedgerRow \<Rightarrow> db \<Rightarrow> err + db" where
  "add_ledger r s =
     (if \<not> (get_run (led_run_id r) s \<noteq> None)
      then Inl (IntegrityError ''ledgers'')
      else bind_err (row_add ledger_conflict ''ledgers'' r (ledgers s)) (\<lambda>t. Inr (s\<lparr>ledgers := t\<rparr>)))"

definition add_reservation :: "BudgetReservationRow \<Rightarrow> db \<Rightarrow> err + db" where
  "add_reservation r s =
     (if \<not> (get_run (res_run_id r) s \<noteq> None)
      then Inl (IntegrityError ''reservations'')
      else bind_err (row_add reservation_conflict ''reservations'' r (reservations s)) (\<lambda>t. Inr (s\<lparr>reservations := t\<rparr>)))"

definition add_activity :: "ActivityRow \<Rightarrow> db \<Rightarrow> err + db" where
  "add_activity r s =
     (if \<not> (get_run (act_run_id r) s \<noteq> None \<and>
         fk (\<lambda>k. get_session k s) (act_session_id r) \<and>
         fk (\<lambda>k. get_reservation k s) (act_reservation_id r))
      then Inl (IntegrityError ''activities'')
      else bind_err (row_add activity_conflict ''activities'' r (activities s)) (\<lambda>t. Inr (s\<lparr>activities := t\<rparr>)))"

definition add_artifact_metadata :: "ArtifactMetadataRow \<Rightarrow> db \<Rightarrow> err + db" where
  "add_artifact_metadata r s =
     bind_err (row_add artifact_metadata_conflict ''artifact_metadata'' r (artifact_metadata s)) (\<lambda>t. Inr (s\<lparr>artifact_metadata := t\<rparr>))"

definition add_idempotency :: "IdempotencyRow \<Rightarrow> db \<Rightarrow> err + db" where
  "add_idempotency r s =
     bind_err (row_add idempotency_conflict ''idempotency'' r (idempotency s)) (\<lambda>t. Inr (s\<lparr>idempotency := t\<rparr>))"

definition add_session :: "VariationSessionRow \<Rightarrow> db \<Rightarrow> err + db" where
  "add_session r s =
     (if \<not> (get_run (ses_run_id r) s \<noteq> None)
      then Inl (IntegrityError ''sessions'')
      else bind_err (row_add session_conflict ''sessions'' r (sessions s)) (\<lambda>t. Inr (s\<lparr>sessions := t\<rparr>)))"

definition add_attempt :: "AttemptRow \<Rightarrow> db \<Rightarrow> err + db" where
  "add_attempt r s =
     (if \<not> (get_session (att_session_id r) s \<noteq> None)
      then Inl (IntegrityError ''attempts'')
      else bind_err (row_add attempt_conflict ''attempts'' r (attempts s)) (\<lambda>t. Inr (s\<lparr>attempts := t\<rparr>)))"

definition add_candidate :: "CandidateRow \<Rightarrow> db \<Rightarrow> err + db" where
  "add_candidate r s =
     (if \<not> (get_run (cand_run_id r) s \<noteq> None \<and>
         fk (\<lambda>k. get_session k s) (cand_session_id r))
      then Inl (IntegrityError ''candidates'')
      else bind_err (row_add candidate_conflict ''candidates'' r (candidates s)) (\<lambda>t. Inr (s\<lparr>candidates := t\<rparr>)))"

definition add_evaluation :: "EvaluationRow \<Rightarrow> db \<Rightarrow> err + db" where
  "add_evaluation r s =
     (if \<not> (get_candidate_row (evl_candidate_id r) s \<noteq> None)
      then Inl (IntegrityError ''evaluations'')
      else bind_err (row_add evaluation_conflict ''evaluations'' r (evaluations s)) (\<lambda>t. Inr (s\<lparr>evaluations := t\<rparr>)))"

definition add_policy_decision :: "PolicyDecisionRow \<Rightarrow> db \<Rightarrow> err + db" where
  "add_policy_decision r s =
     (if \<not> (get_run (pol_run_id r) s \<noteq> None \<and>
         fk (\<lambda>k. get_candidate_row k s) (pol_candidate_id r))
      then Inl (IntegrityError ''policy_decisions'')
      else bind_err (row_add policy_decision_conflict ''policy_decisions'' r (policy_decisions s)) (\<lambda>t. Inr (s\<lparr>policy_decisions := t\<rparr>)))"

definition add_admission :: "AdmissionRow \<Rightarrow> db \<Rightarrow> err + db" where
  "add_admission r s =
     (if \<not> (get_run (adm_run_id r) s \<noteq> None \<and>
         get_candidate_row (adm_candidate_id r) s \<noteq> None)
      then Inl (IntegrityError ''admissions'')
      else bind_err (row_add admission_conflict ''admissions'' r (admissions s)) (\<lambda>t. Inr (s\<lparr>admissions := t\<rparr>)))"

definition add_lineage :: "LineageRow \<Rightarrow> db \<Rightarrow> err + db" where
  "add_lineage r s =
     (if \<not> (get_run (lin_run_id r) s \<noteq> None \<and>
         get_candidate_row (lin_candidate_id r) s \<noteq> None \<and>
         fk (\<lambda>k. get_admission_row k s) (lin_admission_id r))
      then Inl (IntegrityError ''lineage'')
      else bind_err (row_add lineage_conflict ''lineage'' r (lineage s)) (\<lambda>t. Inr (s\<lparr>lineage := t\<rparr>)))"

definition add_invocation :: "HarnessInvocationRow \<Rightarrow> db \<Rightarrow> err + db" where
  "add_invocation r s =
     (if \<not> (get_run (inv_run_id r) s \<noteq> None \<and>
         get_activity (inv_activity_id r) s \<noteq> None \<and>
         fk (\<lambda>k. get_session k s) (inv_session_id r))
      then Inl (IntegrityError ''invocations'')
      else bind_err (row_add invocation_conflict ''invocations'' r (invocations s)) (\<lambda>t. Inr (s\<lparr>invocations := t\<rparr>)))"

definition add_reconciliation :: "ReconciliationCaseRow \<Rightarrow> db \<Rightarrow> err + db" where
  "add_reconciliation r s =
     (if \<not> (get_run (rec_run_id r) s \<noteq> None \<and>
         get_activity (rec_activity_id r) s \<noteq> None \<and>
         fk (\<lambda>k. get_session k s) (rec_session_id r))
      then Inl (IntegrityError ''reconciliations'')
      else bind_err (row_add reconciliation_conflict ''reconciliations'' r (reconciliations s)) (\<lambda>t. Inr (s\<lparr>reconciliations := t\<rparr>)))"

definition add_artifact_reference :: "ArtifactReferenceRow \<Rightarrow> db \<Rightarrow> err + db" where
  "add_artifact_reference r s =
     (if \<not> (get_artifact_metadata (ref_digest r) s \<noteq> None \<and>
         get_run (ref_run_id r) s \<noteq> None)
      then Inl (IntegrityError ''artifact_references'')
      else bind_err (row_add artifact_reference_conflict ''artifact_references'' r (artifact_references s)) (\<lambda>t. Inr (s\<lparr>artifact_references := t\<rparr>)))"

definition add_tombstone :: "DeletionTombstoneRow \<Rightarrow> db \<Rightarrow> err + db" where
  "add_tombstone r s =
     bind_err (row_add tombstone_conflict ''tombstones'' r (tombstones s)) (\<lambda>t. Inr (s\<lparr>tombstones := t\<rparr>))"

definition add_review_request :: "ReviewRequestRow \<Rightarrow> db \<Rightarrow> err + db" where
  "add_review_request r s =
     (if \<not> (get_run (rvq_run_id r) s \<noteq> None \<and>
         get_candidate_row (rvq_candidate_id r) s \<noteq> None)
      then Inl (IntegrityError ''review_requests'')
      else bind_err (row_add review_request_conflict ''review_requests'' r (review_requests s)) (\<lambda>t. Inr (s\<lparr>review_requests := t\<rparr>)))"

definition add_review_decision :: "ReviewDecisionRow \<Rightarrow> db \<Rightarrow> err + db" where
  "add_review_decision r s =
     (if \<not> (get_review_request (rvd_review_id r) s \<noteq> None)
      then Inl (IntegrityError ''review_decisions'')
      else bind_err (row_add review_decision_conflict ''review_decisions'' r (review_decisions s)) (\<lambda>t. Inr (s\<lparr>review_decisions := t\<rparr>)))"

definition add_tool_invocation :: "ToolInvocationRow \<Rightarrow> db \<Rightarrow> err + db" where
  "add_tool_invocation r s =
     (if \<not> (get_run (tin_run_id r) s \<noteq> None \<and> get_session (tin_session_id r) s \<noteq> None)
      then Inl (IntegrityError ''tool_invocations'')
      else bind_err (row_add tool_invocation_conflict ''tool_invocations'' r (tool_invocations s)) (\<lambda>t. Inr (s\<lparr>tool_invocations := t\<rparr>)))"

definition add_model_invocation :: "ModelInvocationRow \<Rightarrow> db \<Rightarrow> err + db" where
  "add_model_invocation r s =
     (if \<not> (get_run (min_run_id r) s \<noteq> None \<and> get_session (min_session_id r) s \<noteq> None)
      then Inl (IntegrityError ''model_invocations'')
      else bind_err (row_add model_invocation_conflict ''model_invocations'' r (model_invocations s)) (\<lambda>t. Inr (s\<lparr>model_invocations := t\<rparr>)))"

lemma add_experiment_Inr:
  "add_experiment r s = Inr s' \<longleftrightarrow> 
     (\<forall>q\<in>set (experiments s). \<not> experiment_conflict r q) \<and> s' = s\<lparr>experiments := experiments s @ [r]\<rparr>"
  by (auto simp: add_experiment_def bind_err_eq_Inr row_add_Inr)

lemma add_run_Inr:
  "add_run r s = Inr s' \<longleftrightarrow> (get_experiment_row (run_experiment_id r) s \<noteq> None) \<and> 
     (\<forall>q\<in>set (runs s). \<not> run_conflict r q) \<and> s' = s\<lparr>runs := runs s @ [r]\<rparr>"
  by (auto simp: add_run_def bind_err_eq_Inr row_add_Inr)

lemma add_event_Inr:
  "add_event r s = Inr s' \<longleftrightarrow> (get_run (ev_run_id r) s \<noteq> None) \<and> 
     (\<forall>q\<in>set (events s). \<not> event_conflict r q) \<and> s' = s\<lparr>events := events s @ [r]\<rparr>"
  by (auto simp: add_event_def bind_err_eq_Inr row_add_Inr)

lemma add_outbox_Inr:
  "add_outbox r s = Inr s' \<longleftrightarrow> (row_get ev_id (ob_event_id r) (events s) \<noteq> None) \<and> 
     (\<forall>q\<in>set (outbox s). \<not> outbox_conflict r q) \<and> s' = s\<lparr>outbox := outbox s @ [r]\<rparr>"
  by (auto simp: add_outbox_def bind_err_eq_Inr row_add_Inr)

lemma add_ledger_Inr:
  "add_ledger r s = Inr s' \<longleftrightarrow> (get_run (led_run_id r) s \<noteq> None) \<and> 
     (\<forall>q\<in>set (ledgers s). \<not> ledger_conflict r q) \<and> s' = s\<lparr>ledgers := ledgers s @ [r]\<rparr>"
  by (auto simp: add_ledger_def bind_err_eq_Inr row_add_Inr)

lemma add_reservation_Inr:
  "add_reservation r s = Inr s' \<longleftrightarrow> (get_run (res_run_id r) s \<noteq> None) \<and> 
     (\<forall>q\<in>set (reservations s). \<not> reservation_conflict r q) \<and> s' = s\<lparr>reservations := reservations s @ [r]\<rparr>"
  by (auto simp: add_reservation_def bind_err_eq_Inr row_add_Inr)

lemma add_activity_Inr:
  "add_activity r s = Inr s' \<longleftrightarrow> (get_run (act_run_id r) s \<noteq> None) \<and> (fk (\<lambda>k. get_session k s) (act_session_id r)) \<and> (fk (\<lambda>k. get_reservation k s) (act_reservation_id r)) \<and> 
     (\<forall>q\<in>set (activities s). \<not> activity_conflict r q) \<and> s' = s\<lparr>activities := activities s @ [r]\<rparr>"
  by (auto simp: add_activity_def bind_err_eq_Inr row_add_Inr)

lemma add_artifact_metadata_Inr:
  "add_artifact_metadata r s = Inr s' \<longleftrightarrow> 
     (\<forall>q\<in>set (artifact_metadata s). \<not> artifact_metadata_conflict r q) \<and> s' = s\<lparr>artifact_metadata := artifact_metadata s @ [r]\<rparr>"
  by (auto simp: add_artifact_metadata_def bind_err_eq_Inr row_add_Inr)

lemma add_idempotency_Inr:
  "add_idempotency r s = Inr s' \<longleftrightarrow> 
     (\<forall>q\<in>set (idempotency s). \<not> idempotency_conflict r q) \<and> s' = s\<lparr>idempotency := idempotency s @ [r]\<rparr>"
  by (auto simp: add_idempotency_def bind_err_eq_Inr row_add_Inr)

lemma add_session_Inr:
  "add_session r s = Inr s' \<longleftrightarrow> (get_run (ses_run_id r) s \<noteq> None) \<and> 
     (\<forall>q\<in>set (sessions s). \<not> session_conflict r q) \<and> s' = s\<lparr>sessions := sessions s @ [r]\<rparr>"
  by (auto simp: add_session_def bind_err_eq_Inr row_add_Inr)

lemma add_attempt_Inr:
  "add_attempt r s = Inr s' \<longleftrightarrow> (get_session (att_session_id r) s \<noteq> None) \<and> 
     (\<forall>q\<in>set (attempts s). \<not> attempt_conflict r q) \<and> s' = s\<lparr>attempts := attempts s @ [r]\<rparr>"
  by (auto simp: add_attempt_def bind_err_eq_Inr row_add_Inr)

lemma add_candidate_Inr:
  "add_candidate r s = Inr s' \<longleftrightarrow> (get_run (cand_run_id r) s \<noteq> None) \<and> (fk (\<lambda>k. get_session k s) (cand_session_id r)) \<and> 
     (\<forall>q\<in>set (candidates s). \<not> candidate_conflict r q) \<and> s' = s\<lparr>candidates := candidates s @ [r]\<rparr>"
  by (auto simp: add_candidate_def bind_err_eq_Inr row_add_Inr)

lemma add_evaluation_Inr:
  "add_evaluation r s = Inr s' \<longleftrightarrow> (get_candidate_row (evl_candidate_id r) s \<noteq> None) \<and> 
     (\<forall>q\<in>set (evaluations s). \<not> evaluation_conflict r q) \<and> s' = s\<lparr>evaluations := evaluations s @ [r]\<rparr>"
  by (auto simp: add_evaluation_def bind_err_eq_Inr row_add_Inr)

lemma add_policy_decision_Inr:
  "add_policy_decision r s = Inr s' \<longleftrightarrow> (get_run (pol_run_id r) s \<noteq> None) \<and> (fk (\<lambda>k. get_candidate_row k s) (pol_candidate_id r)) \<and> 
     (\<forall>q\<in>set (policy_decisions s). \<not> policy_decision_conflict r q) \<and> s' = s\<lparr>policy_decisions := policy_decisions s @ [r]\<rparr>"
  by (auto simp: add_policy_decision_def bind_err_eq_Inr row_add_Inr)

lemma add_admission_Inr:
  "add_admission r s = Inr s' \<longleftrightarrow> (get_run (adm_run_id r) s \<noteq> None) \<and> (get_candidate_row (adm_candidate_id r) s \<noteq> None) \<and> 
     (\<forall>q\<in>set (admissions s). \<not> admission_conflict r q) \<and> s' = s\<lparr>admissions := admissions s @ [r]\<rparr>"
  by (auto simp: add_admission_def bind_err_eq_Inr row_add_Inr)

lemma add_lineage_Inr:
  "add_lineage r s = Inr s' \<longleftrightarrow> (get_run (lin_run_id r) s \<noteq> None) \<and> (get_candidate_row (lin_candidate_id r) s \<noteq> None) \<and> (fk (\<lambda>k. get_admission_row k s) (lin_admission_id r)) \<and> 
     (\<forall>q\<in>set (lineage s). \<not> lineage_conflict r q) \<and> s' = s\<lparr>lineage := lineage s @ [r]\<rparr>"
  by (auto simp: add_lineage_def bind_err_eq_Inr row_add_Inr)

lemma add_invocation_Inr:
  "add_invocation r s = Inr s' \<longleftrightarrow> (get_run (inv_run_id r) s \<noteq> None) \<and> (get_activity (inv_activity_id r) s \<noteq> None) \<and> (fk (\<lambda>k. get_session k s) (inv_session_id r)) \<and> 
     (\<forall>q\<in>set (invocations s). \<not> invocation_conflict r q) \<and> s' = s\<lparr>invocations := invocations s @ [r]\<rparr>"
  by (auto simp: add_invocation_def bind_err_eq_Inr row_add_Inr)

lemma add_reconciliation_Inr:
  "add_reconciliation r s = Inr s' \<longleftrightarrow> (get_run (rec_run_id r) s \<noteq> None) \<and> (get_activity (rec_activity_id r) s \<noteq> None) \<and> (fk (\<lambda>k. get_session k s) (rec_session_id r)) \<and> 
     (\<forall>q\<in>set (reconciliations s). \<not> reconciliation_conflict r q) \<and> s' = s\<lparr>reconciliations := reconciliations s @ [r]\<rparr>"
  by (auto simp: add_reconciliation_def bind_err_eq_Inr row_add_Inr)

lemma add_artifact_reference_Inr:
  "add_artifact_reference r s = Inr s' \<longleftrightarrow> (get_artifact_metadata (ref_digest r) s \<noteq> None) \<and> (get_run (ref_run_id r) s \<noteq> None) \<and> 
     (\<forall>q\<in>set (artifact_references s). \<not> artifact_reference_conflict r q) \<and> s' = s\<lparr>artifact_references := artifact_references s @ [r]\<rparr>"
  by (auto simp: add_artifact_reference_def bind_err_eq_Inr row_add_Inr)

lemma add_tombstone_Inr:
  "add_tombstone r s = Inr s' \<longleftrightarrow> 
     (\<forall>q\<in>set (tombstones s). \<not> tombstone_conflict r q) \<and> s' = s\<lparr>tombstones := tombstones s @ [r]\<rparr>"
  by (auto simp: add_tombstone_def bind_err_eq_Inr row_add_Inr)

lemma add_review_request_Inr:
  "add_review_request r s = Inr s' \<longleftrightarrow> (get_run (rvq_run_id r) s \<noteq> None) \<and> (get_candidate_row (rvq_candidate_id r) s \<noteq> None) \<and> 
     (\<forall>q\<in>set (review_requests s). \<not> review_request_conflict r q) \<and> s' = s\<lparr>review_requests := review_requests s @ [r]\<rparr>"
  by (auto simp: add_review_request_def bind_err_eq_Inr row_add_Inr)

lemma add_review_decision_Inr:
  "add_review_decision r s = Inr s' \<longleftrightarrow> (get_review_request (rvd_review_id r) s \<noteq> None) \<and> 
     (\<forall>q\<in>set (review_decisions s). \<not> review_decision_conflict r q) \<and> s' = s\<lparr>review_decisions := review_decisions s @ [r]\<rparr>"
  by (auto simp: add_review_decision_def bind_err_eq_Inr row_add_Inr)

lemma add_tool_invocation_Inr:
  "add_tool_invocation r s = Inr s' \<longleftrightarrow>
     get_run (tin_run_id r) s \<noteq> None \<and> get_session (tin_session_id r) s \<noteq> None \<and>
     (\<forall>q\<in>set (tool_invocations s). \<not> tool_invocation_conflict r q) \<and> s' = s\<lparr>tool_invocations := tool_invocations s @ [r]\<rparr>"
  by (auto simp: add_tool_invocation_def bind_err_eq_Inr row_add_Inr)

lemma add_model_invocation_Inr:
  "add_model_invocation r s = Inr s' \<longleftrightarrow>
     get_run (min_run_id r) s \<noteq> None \<and> get_session (min_session_id r) s \<noteq> None \<and>
     (\<forall>q\<in>set (model_invocations s). \<not> model_invocation_conflict r q) \<and> s' = s\<lparr>model_invocations := model_invocations s @ [r]\<rparr>"
  by (auto simp: add_model_invocation_def bind_err_eq_Inr row_add_Inr)

lemmas add_Inr = add_experiment_Inr add_run_Inr add_event_Inr add_outbox_Inr add_ledger_Inr add_reservation_Inr add_activity_Inr add_artifact_metadata_Inr add_idempotency_Inr add_session_Inr add_attempt_Inr add_candidate_Inr add_evaluation_Inr add_policy_decision_Inr add_admission_Inr add_lineage_Inr add_invocation_Inr add_reconciliation_Inr add_artifact_reference_Inr add_tombstone_Inr add_review_request_Inr add_review_decision_Inr add_tool_invocation_Inr add_model_invocation_Inr

lemmas conflict_defs = experiment_conflict_def run_conflict_def event_conflict_def outbox_conflict_def ledger_conflict_def reservation_conflict_def activity_conflict_def artifact_metadata_conflict_def idempotency_conflict_def session_conflict_def attempt_conflict_def candidate_conflict_def evaluation_conflict_def policy_decision_conflict_def admission_conflict_def lineage_conflict_def invocation_conflict_def reconciliation_conflict_def artifact_reference_conflict_def tombstone_conflict_def review_request_conflict_def review_decision_conflict_def tool_invocation_conflict_def model_invocation_conflict_def

section \<open>The tables meet the contract of a keyed table\<close>

text \<open>
  The operations of each table with attribute writes, on the whole database, as instances
  of the contract: lookups see the row last written, and keys stay unique.
\<close>

lemmas table_laws = row_get_row_set distinct_row_set row_get_append row_get_None row_get_none_eq

interpretation run_table: keyed_table run_id get_run set_run add_run
  "\<lambda>s. distinct (map run_id (runs s))"
  by unfold_locales
    (auto simp: get_run_def set_run_def add_run_Inr run_conflict_def table_laws row_get_Cons
      dest: row_get_SomeD split: option.splits)

interpretation ledger_table: keyed_table led_run_id get_ledger set_ledger add_ledger
  "\<lambda>s. distinct (map led_run_id (ledgers s))"
  by unfold_locales
    (auto simp: get_ledger_def set_ledger_def add_ledger_Inr ledger_conflict_def table_laws
      row_get_Cons dest: row_get_SomeD split: option.splits)

interpretation reservation_table: keyed_table res_id get_reservation set_reservation add_reservation
  "\<lambda>s. distinct (map res_id (reservations s))"
  by unfold_locales
    (auto simp: get_reservation_def set_reservation_def add_reservation_Inr
      reservation_conflict_def table_laws row_get_Cons dest: row_get_SomeD split: option.splits)

interpretation activity_table: keyed_table act_id get_activity set_activity add_activity
  "\<lambda>s. distinct (map act_id (activities s))"
  by unfold_locales
    (auto simp: get_activity_def set_activity_def add_activity_Inr activity_conflict_def
      table_laws row_get_Cons dest: row_get_SomeD split: option.splits)

interpretation session_table: keyed_table ses_id get_session set_session add_session
  "\<lambda>s. distinct (map ses_id (sessions s))"
  by unfold_locales
    (auto simp: get_session_def set_session_def add_session_Inr session_conflict_def
      table_laws row_get_Cons dest: row_get_SomeD split: option.splits)

interpretation candidate_table: keyed_table cand_id get_candidate_row set_candidate add_candidate
  "\<lambda>s. distinct (map cand_id (candidates s))"
  by unfold_locales
    (auto simp: get_candidate_row_def set_candidate_def add_candidate_Inr candidate_conflict_def
      table_laws row_get_Cons dest: row_get_SomeD split: option.splits)

interpretation invocation_table: keyed_table inv_id get_invocation_row set_invocation add_invocation
  "\<lambda>s. distinct (map inv_id (invocations s))"
  by unfold_locales
    (auto simp: get_invocation_row_def set_invocation_def add_invocation_Inr
      invocation_conflict_def table_laws row_get_Cons dest: row_get_SomeD split: option.splits)

interpretation reconciliation_table: keyed_table rec_id get_reconciliation set_reconciliation
  add_reconciliation "\<lambda>s. distinct (map rec_id (reconciliations s))"
  by unfold_locales
    (auto simp: get_reconciliation_def set_reconciliation_def add_reconciliation_Inr
      reconciliation_conflict_def table_laws row_get_Cons dest: row_get_SomeD split: option.splits)

interpretation review_table: keyed_table rvq_id get_review_request set_review_request
  add_review_request "\<lambda>s. distinct (map rvq_id (review_requests s))"
  by unfold_locales
    (auto simp: get_review_request_def set_review_request_def add_review_request_Inr
      review_request_conflict_def table_laws row_get_Cons dest: row_get_SomeD split: option.splits)

end
