(* ===== verification/EventLog.thy ===== *)
theory EventLog
  imports Store "HOL-Library.Sublist"
begin

text \<open>
  The append-only event log and its transactional outbox. \<open>append_event\<close> is the insert
  of one event and its outbox row (RunService and EvidenceService pass the sequence
  number); \<open>append_run_event\<close> first advances the run's revision and counter (the other
  services). The invariant \<open>log_ok\<close> is the one the architecture asks for: ordering uses
  gap-free per-run sequence numbers, and every event has exactly one outbox entry.
\<close>

section \<open>Appending\<close>

definition event_row ::
  "env \<Rightarrow> py_datetime \<Rightarrow> nat \<Rightarrow> string \<Rightarrow> int \<Rightarrow> string \<Rightarrow> string \<Rightarrow> jval \<Rightarrow> EventRow" where
  "event_row e w i rid sequence event_type actor payload =
     \<lparr>ev_id = uuid4 e i, ev_run_id = rid, ev_sequence = sequence, ev_type = event_type,
      ev_actor_id = actor, ev_payload = payload, ev_created_at = date_column e w\<rparr>"

definition outbox_row :: "env \<Rightarrow> py_datetime \<Rightarrow> nat \<Rightarrow> jval \<Rightarrow> OutboxRow" where
  "outbox_row e w i payload =
     \<lparr>ob_id = uuid4 e (Suc i), ob_event_id = uuid4 e i, ob_topic = ''run.events'',
      ob_payload = payload, ob_created_at = date_column e w, ob_published_at = None\<rparr>"

definition append_event ::
  "env \<Rightarrow> py_datetime \<Rightarrow> nat \<Rightarrow> string \<Rightarrow> int \<Rightarrow> string \<Rightarrow> string \<Rightarrow> jval \<Rightarrow> db \<Rightarrow> err + db" where
  "append_event e w i rid sequence event_type actor payload s =
     bind_err (add_event (event_row e w i rid sequence event_type actor payload) s)
       (add_outbox (outbox_row e w i payload))"

definition advance_run :: "env \<Rightarrow> py_datetime \<Rightarrow> RunRow \<Rightarrow> RunRow" where
  "advance_run e w r = r\<lparr>run_revision := run_revision r + 1,
     run_event_sequence := run_event_sequence r + 1, run_updated_at := date_column e w\<rparr>"

definition append_run_event ::
  "env \<Rightarrow> py_datetime \<Rightarrow> nat \<Rightarrow> RunRow \<Rightarrow> string \<Rightarrow> string \<Rightarrow> jval \<Rightarrow> db \<Rightarrow> err + db" where
  "append_run_event e w i run event_type actor payload s =
     append_event e w i (run_id run) (run_event_sequence run + 1) event_type actor payload
       (set_run (run_id run) (advance_run e w) s)"

lemma advance_run_simps [simp]:
  "run_id (advance_run e w r) = run_id r"
  "run_revision (advance_run e w r) = run_revision r + 1"
  "run_event_sequence (advance_run e w r) = run_event_sequence r + 1"
  "run_state (advance_run e w r) = run_state r"
  "run_champion_id (advance_run e w r) = run_champion_id r"
  "run_experiment_id (advance_run e w r) = run_experiment_id r"
  by (simp_all add: advance_run_def)

lemma event_row_simps [simp]:
  "ev_id (event_row e w i rid n ty ac p) = uuid4 e i"
  "ev_run_id (event_row e w i rid n ty ac p) = rid"
  "ev_sequence (event_row e w i rid n ty ac p) = n"
  "ev_type (event_row e w i rid n ty ac p) = ty"
  "ev_payload (event_row e w i rid n ty ac p) = p"
  by (simp_all add: event_row_def)

lemma outbox_row_simps [simp]:
  "ob_id (outbox_row e w i p) = uuid4 e (Suc i)"
  "ob_event_id (outbox_row e w i p) = uuid4 e i"
  "ob_payload (outbox_row e w i p) = p"
  by (simp_all add: outbox_row_def)

section \<open>The log invariant\<close>

definition events_of :: "string \<Rightarrow> EventRow list \<Rightarrow> EventRow list" where
  "events_of k es = filter (\<lambda>v. ev_run_id v = k) es"

definition log_ok :: "RunRow list \<Rightarrow> EventRow list \<Rightarrow> OutboxRow list \<Rightarrow> bool" where
  "log_ok rs es obs \<longleftrightarrow>
     distinct (map run_id rs) \<and>
     (\<forall>r\<in>set rs. map ev_sequence (events_of (run_id r) es) = [1..run_event_sequence r] \<and>
        1 \<le> run_event_sequence r \<and> run_revision r = run_event_sequence r) \<and>
     (\<forall>v\<in>set es. \<exists>r\<in>set rs. run_id r = ev_run_id v) \<and>
     distinct (map ev_id es) \<and>
     map (\<lambda>b. (ob_event_id b, ob_payload b)) obs = map (\<lambda>v. (ev_id v, ev_payload v)) es"

definition log_inv :: "db \<Rightarrow> bool" where
  "log_inv s \<longleftrightarrow> log_ok (runs s) (events s) (outbox s)"

lemma events_of_append: "events_of k (es @ fs) = events_of k es @ events_of k fs"
  by (simp add: events_of_def)

lemma log_ok_empty: "log_ok [] [] []"
  by (simp add: log_ok_def)

lemma log_ok_distinct: "log_ok rs es obs \<Longrightarrow> distinct (map run_id rs)"
  by (simp add: log_ok_def)

text \<open>Writing attributes other than the counters keeps the log.\<close>

lemma log_ok_set_run:
  assumes "\<And>r. run_id (f r) = run_id r" and "\<And>r. run_revision (f r) = run_revision r"
    and "\<And>r. run_event_sequence (f r) = run_event_sequence r"
  shows "log_ok (row_set run_id k f rs) es obs = log_ok rs es obs"
proof -
  have "distinct (map run_id (row_set run_id k f rs)) = distinct (map run_id rs)"
    by (simp add: distinct_row_set assms)
  then show ?thesis
    unfolding log_ok_def ball_row_set bex_row_set
    by (simp add: assms if_distrib [of run_id] if_distrib [of run_revision]
        if_distrib [of run_event_sequence] cong: if_cong)
qed

text \<open>One more event for an existing run, with the counters advanced.\<close>

lemma log_ok_append:
  assumes ok: "log_ok rs es obs" and r: "row_get run_id k rs = Some r"
    and v: "ev_run_id v = k" "ev_sequence v = run_event_sequence r + 1"
    and fresh: "\<forall>q\<in>set es. ev_id q \<noteq> ev_id v"
    and b: "ob_event_id b = ev_id v" "ob_payload b = ev_payload v"
    and f: "\<And>r. run_id (f r) = run_id r" "\<And>r. run_revision (f r) = run_revision r + 1"
      "\<And>r. run_event_sequence (f r) = run_event_sequence r + 1"
  shows "log_ok (row_set run_id k f rs) (es @ [v]) (obs @ [b])"
proof -
  from ok have dist: "distinct (map run_id rs)" by (rule log_ok_distinct)
  from r have mem: "r \<in> set rs" "run_id r = k" by (auto dest: row_get_SomeD)
  have only: "q = r" if "q \<in> set rs" "run_id q = k" for q
    using dist that mem row_get_mem [OF dist, of q] r by auto
  have "distinct (map run_id (row_set run_id k f rs))"
    using dist by (simp add: distinct_row_set f)
  moreover have "map ev_sequence (events_of (run_id q) (es @ [v])) = [1..run_event_sequence q] \<and>
      1 \<le> run_event_sequence q \<and> run_revision q = run_event_sequence q"
    if q: "q \<in> set (row_set run_id k f rs)" for q
  proof -
    from q obtain p where p: "p \<in> set rs" "q = (if run_id p = k then f p else p)"
      by (auto simp: set_row_set)
    with ok have base: "map ev_sequence (events_of (run_id p) es) = [1..run_event_sequence p]"
      "1 \<le> run_event_sequence p" "run_revision p = run_event_sequence p"
      by (auto simp: log_ok_def)
    show ?thesis
    proof (cases "run_id p = k")
      case True
      with p only mem have "p = r" by blast
      with True p base v show ?thesis
        by (simp add: f events_of_append events_of_def upto_rec2)
    next
      case False
      with p base v show ?thesis
        by (simp add: events_of_append events_of_def)
    qed
  qed
  moreover have "\<exists>q\<in>set (row_set run_id k f rs). run_id q = ev_run_id w"
    if "w \<in> set (es @ [v])" for w
  proof -
    from that ok mem v obtain p where "p \<in> set rs" "run_id p = ev_run_id w"
      by (auto simp: log_ok_def)
    then show ?thesis
      unfolding bex_row_set by (auto simp: f)
  qed
  ultimately show ?thesis
    using ok fresh b by (auto simp: log_ok_def)
qed

text \<open>A new run together with its first events.\<close>

lemma log_ok_new_run:
  assumes ok: "log_ok rs es obs" and new: "\<forall>q\<in>set rs. run_id q \<noteq> run_id r"
    and vs: "\<forall>v\<in>set vs. ev_run_id v = run_id r" "map ev_sequence vs = [1..run_event_sequence r]"
    and cnt: "1 \<le> run_event_sequence r" "run_revision r = run_event_sequence r"
    and fresh: "distinct (map ev_id (es @ vs))"
    and b: "map (\<lambda>b. (ob_event_id b, ob_payload b)) bs = map (\<lambda>v. (ev_id v, ev_payload v)) vs"
  shows "log_ok (rs @ [r]) (es @ vs) (obs @ bs)"
proof -
  have none: "events_of (run_id r) es = []"
    using ok new by (force simp: log_ok_def events_of_def filter_empty_conv)
  have all: "events_of (run_id r) vs = vs"
    using vs(1) by (auto simp: events_of_def filter_id_conv)
  have other: "events_of (run_id q) vs = []" if "q \<in> set rs" for q
    using new vs(1) that by (auto simp: events_of_def filter_empty_conv)
  have "distinct (map run_id (rs @ [r]))"
    using ok new by (auto simp: log_ok_def)
  moreover have "map ev_sequence (events_of (run_id q) (es @ vs)) = [1..run_event_sequence q] \<and>
      1 \<le> run_event_sequence q \<and> run_revision q = run_event_sequence q"
    if "q \<in> set (rs @ [r])" for q
    using that ok cnt vs(2) by (auto simp: events_of_append none all other log_ok_def)
  ultimately show ?thesis
    using ok vs(1) fresh b by (auto simp: log_ok_def)
qed

section \<open>Effect of appending\<close>

lemma append_event_Inr:
  "append_event e w i rid n ty ac p s = Inr s' \<longleftrightarrow>
     get_run rid s \<noteq> None \<and>
     (\<forall>q\<in>set (events s). ev_id q \<noteq> uuid4 e i \<and> \<not> (ev_run_id q = rid \<and> ev_sequence q = n)) \<and>
     (\<forall>q\<in>set (outbox s). ob_id q \<noteq> uuid4 e (Suc i) \<and> ob_event_id q \<noteq> uuid4 e i) \<and>
     s' = s\<lparr>events := events s @ [event_row e w i rid n ty ac p],
       outbox := outbox s @ [outbox_row e w i p]\<rparr>"
  by (auto simp: append_event_def bind_err_eq_Inr add_event_Inr add_outbox_Inr event_conflict_def
      outbox_conflict_def row_get_append row_get_Cons get_run_def split: option.split)

text \<open>What a successful append writes.\<close>

lemma append_run_event_Inr:
  assumes "append_run_event e w i run ty ac p s = Inr s'"
  shows "s' = s\<lparr>runs := row_set run_id (run_id run) (advance_run e w) (runs s),
      events := events s @ [event_row e w i (run_id run) (run_event_sequence run + 1) ty ac p],
      outbox := outbox s @ [outbox_row e w i p]\<rparr>"
    and "\<forall>q\<in>set (events s). ev_id q \<noteq> uuid4 e i"
  using assms by (auto simp: append_run_event_def append_event_Inr set_run_def)

lemma append_run_event_log:
  assumes app: "append_run_event e w i run ty ac p s = Inr s'" and "log_inv s"
    and "get_run (run_id run) s = Some r" and "run_event_sequence r = run_event_sequence run"
  shows "log_inv s'"
  unfolding append_run_event_Inr(1) [OF app] log_inv_def
  using assms(2-4) append_run_event_Inr(2) [OF app]
  by (simp add: log_inv_def get_run_def log_ok_append)

text \<open>
  The form the services need: the run row was read at the start of the block, and what the
  block wrote before the append are other tables, or attributes of runs that leave the
  counters alone.
\<close>

lemma append_after_read:
  assumes app: "append_run_event e w i run ty ac p t = Inr s'" and ok: "log_inv s"
    and run: "get_run k s = Some run"
    and same: "runs t = runs s" "events t = events s" "outbox t = outbox s"
  shows "log_inv s'"
proof -
  from run have "run_id run = k" by (rule run_table.get_key)
  with run ok same show ?thesis
    by (intro append_run_event_log [OF app]) (simp_all add: log_inv_def get_run_def)
qed

lemma append_after_write:
  assumes app: "append_run_event e w i run ty ac p t = Inr s'" and ok: "log_inv s"
    and run: "get_run k s = Some old" and counter: "run_event_sequence run = run_event_sequence old"
      "run_id run = run_id old"
    and same: "runs t = row_set run_id k f (runs s)" "events t = events s" "outbox t = outbox s"
    and f: "\<And>r. run_id (f r) = run_id r" "\<And>r. run_revision (f r) = run_revision r"
      "\<And>r. run_event_sequence (f r) = run_event_sequence r"
  shows "log_inv s'"
proof -
  from run have k: "run_id old = k" by (rule run_table.get_key)
  have "log_inv t" using ok by (simp add: log_inv_def same log_ok_set_run f)
  moreover have "get_run (run_id run) t = Some (f old)"
    using run k counter by (simp add: get_run_def same row_get_row_set f)
  ultimately show ?thesis
    using counter by (intro append_run_event_log [OF app, where r = "f old"]) (simp_all add: f)
qed

lemma log_inv_frame:
  "runs t = runs s \<Longrightarrow> events t = events s \<Longrightarrow> outbox t = outbox s \<Longrightarrow> log_inv t = log_inv s"
  by (simp add: log_inv_def)

section \<open>The log only grows\<close>

text \<open>
  No service rewrites or deletes an event: the log after a call extends the log before it.
\<close>

definition log_extends :: "db \<Rightarrow> db \<Rightarrow> bool" where
  "log_extends s s' \<longleftrightarrow> prefix (events s) (events s') \<and> prefix (outbox s) (outbox s')"

lemma log_extends_refl [simp]: "log_extends s s"
  by (simp add: log_extends_def)

lemma log_extends_trans: "log_extends s t \<Longrightarrow> log_extends t u \<Longrightarrow> log_extends s u"
  by (auto simp: log_extends_def intro: prefix_order.trans)

lemma append_event_extends:
  assumes "append_event e w i rid n ty ac p t = Inr s'" and "events t = events s"
    and "outbox t = outbox s"
  shows "log_extends s s'"
  using assms by (auto simp: append_event_Inr log_extends_def)

lemma append_run_event_extends:
  assumes "append_run_event e w i run ty ac p t = Inr s'" and "events t = events s"
    and "outbox t = outbox s"
  shows "log_extends s s'"
  using assms by (auto simp: append_run_event_def set_run_def elim: append_event_extends)

end
