(* ===== verification/Fixtures.thy ===== *)
theory Fixtures
  imports EventLog
begin

text \<open>
  Concrete values on which the witnesses evaluate the model: an environment per call with
  its own identifiers and clock, a run with its ledger, and the date column as SQLite
  implements it.
\<close>

definition call_at :: "string \<Rightarrow> int \<Rightarrow> env" where
  "call_at tag t = \<lparr>utcnow = seconds t, uuid4 = (\<lambda>i. tag @ replicate i (CHR ''x'')),
     uuid5 = (\<lambda>name. ''v5'' @ name), canonical_digest = (\<lambda>d. ''digest''),
     date_column = (\<lambda>d. Naive (wall d)), normalize_nfc = (\<lambda>x. x)\<rparr>"

definition plain_usage :: "int \<Rightarrow> UsageRecord" where
  "plain_usage n = UsageRecord n n n n n n n n n n"

definition demo_run :: RunRow where
  "demo_run = \<lparr>run_id = ''r'', run_experiment_id = ''x'', run_state = R_RUNNING,
     run_revision = 1, run_event_sequence = 1, run_champion_id = Some ''seed-r'',
     run_created_at = Naive 0, run_updated_at = Naive 0\<rparr>"

definition demo_event :: EventRow where
  "demo_event = \<lparr>ev_id = ''e1'', ev_run_id = ''r'', ev_sequence = 1, ev_type = ''run.created'',
     ev_actor_id = ''op'', ev_payload = JNull, ev_created_at = Naive 0\<rparr>"

definition demo_outbox :: OutboxRow where
  "demo_outbox = \<lparr>ob_id = ''o1'', ob_event_id = ''e1'', ob_topic = ''run.events'',
     ob_payload = JNull, ob_created_at = Naive 0, ob_published_at = None\<rparr>"

definition demo_ledger :: BudgetLedgerRow where
  "demo_ledger = \<lparr>led_run_id = ''r'', led_limit = plain_usage 10, led_used = plain_usage 0,
     led_reserved = plain_usage 0, led_revision = 1\<rparr>"

definition demo_db :: db where
  "demo_db = empty_db\<lparr>runs := [demo_run], events := [demo_event], outbox := [demo_outbox],
     ledgers := [demo_ledger]\<rparr>"

lemma demo_log: "log_inv demo_db"
  by (simp add: log_inv_def log_ok_def demo_db_def demo_run_def demo_event_def demo_outbox_def
      empty_db_def events_of_def)

lemma call_at_drops_tzinfo: "drops_tzinfo (call_at tag t)"
  by (simp add: drops_tzinfo_def call_at_def)

end
