(* ===== verification/BudgetSvc.thy ===== *)
theory BudgetSvc
  imports Fixtures
begin

text \<open>
  Transactional budget reservation and reconciliation (application/budget\_service.py).
  Each method is one session block over the database: it returns its result and the new
  state, or the exception it raises. The invariant \<open>ledger_ok\<close> says what the ledger of a
  run means: \<open>reserved\<close> is the sum of the estimates of its active reservations,
  \<open>used\<close> the sum of the actual usage of its settled ones, and the two together stay within
  the limit as long as no reservation of the run was settled as exceeded.
\<close>

section \<open>Operations\<close>

definition budget_append_run_event ::
  "env \<Rightarrow> py_datetime \<Rightarrow> nat \<Rightarrow> RunRow \<Rightarrow> string \<Rightarrow> string \<Rightarrow> jval \<Rightarrow> db \<Rightarrow> err + db" where
  "budget_append_run_event = append_run_event"

definition active :: "BudgetReservationRow \<Rightarrow> bool" where
  "active r \<longleftrightarrow> res_state r \<in> {Reserved, Held}"

definition find_reservation :: "string \<Rightarrow> string \<Rightarrow> db \<Rightarrow> BudgetReservationRow option" where
  "find_reservation rid key s =
     find (\<lambda>r. res_run_id r = rid \<and> res_activity_key r = key) (reservations s)"

definition budget_reserve ::
  "env \<Rightarrow> string \<Rightarrow> string \<Rightarrow> UsageRecord \<Rightarrow> string \<Rightarrow> db \<Rightarrow> err + string \<times> db" where
  "budget_reserve e rid key estimated actor s =
     (case find_reservation rid key s of
        Some existing \<Rightarrow>
          if res_estimated existing \<noteq> estimated
          then Inl (ReservationConflictError ''activity_key already has a different estimate'')
          else Inr (res_id existing, s)
      | None \<Rightarrow>
          (case (get_ledger rid s, get_run rid s) of
             (Some ledger, Some run) \<Rightarrow>
               bind_err (reserve_usage (led_limit ledger) (led_used ledger)
                   (led_reserved ledger) estimated) (\<lambda>new_reserved.
               bind_err (add_reservation \<lparr>res_id = uuid4 e 0, res_run_id = rid,
                   res_activity_key = key, res_state = Reserved, res_estimated = estimated,
                   res_actual = None, res_created_at = date_column e (now e),
                   res_reconciled_at = None\<rparr> s) (\<lambda>s.
               bind_err (budget_append_run_event e (now e) 1 run ''budget.reserved'' actor
                   (JObj [(''activity_key'', JStr key), (''reservation_id'', JStr (uuid4 e 0))])
                   (set_ledger rid (\<lambda>l. l\<lparr>led_reserved := new_reserved,
                      led_revision := led_revision l + 1\<rparr>) s)) (\<lambda>s.
               Inr (uuid4 e 0, s))))
           | _ \<Rightarrow> Inl (LookupError (''run not found: '' @ rid))))"

definition state_name :: "reservation_state \<Rightarrow> string" where
  "state_name st = (case st of Reserved \<Rightarrow> ''reserved'' | Held \<Rightarrow> ''held''
     | Completed \<Rightarrow> ''completed'' | Released \<Rightarrow> ''released'' | Exceeded \<Rightarrow> ''exceeded'')"

definition budget_complete ::
  "env \<Rightarrow> string \<Rightarrow> UsageRecord \<Rightarrow> string \<Rightarrow> db \<Rightarrow> err + unit \<times> db" where
  "budget_complete e rsv actual actor s =
     (case get_reservation rsv s of
        None \<Rightarrow> Inl (LookupError (''reservation not found: '' @ rsv))
      | Some reservation \<Rightarrow>
          if res_state reservation = Completed then
            (case res_actual reservation of
               None \<Rightarrow> Inl (ValueError ''Field required'')
             | Some prior_actual \<Rightarrow>
                 if prior_actual \<noteq> actual
                 then Inl (ReservationConflictError
                   ''completed reservation has different actual usage'')
                 else Inr ((), s))
          else if \<not> active reservation
          then Inl (ReservationConflictError
            (''cannot complete reservation in state '' @ state_name (res_state reservation)))
          else
            (case (get_ledger (res_run_id reservation) s, get_run (res_run_id reservation) s) of
               (Some ledger, Some run) \<Rightarrow>
                 bind_err (reconcile_usage (led_used ledger) (led_reserved ledger)
                     (res_estimated reservation) actual) (\<lambda>(used, reserved).
                 if \<not> fits_within (usage_plus used reserved) (led_limit ledger)
                 then Inl (BudgetExceededError ''actual usage exceeds the run budget'')
                 else
                   bind_err (budget_append_run_event e (now e) 0 run ''budget.completed'' actor
                     (JObj [(''reservation_id'', JStr rsv)])
                     (set_reservation rsv (\<lambda>r. r\<lparr>res_state := Completed,
                        res_actual := Some actual,
                        res_reconciled_at := Some (date_column e (now e))\<rparr>)
                     (set_ledger (res_run_id reservation) (\<lambda>l. l\<lparr>led_used := used,
                        led_reserved := reserved, led_revision := led_revision l + 1\<rparr>) s))) (\<lambda>s.
                   Inr ((), s)))
             | _ \<Rightarrow> Inl (LookupError (''run not found: '' @ res_run_id reservation))))"

definition observed_so_far :: "BudgetReservationRow \<Rightarrow> UsageRecord" where
  "observed_so_far r = (case res_actual r of None \<Rightarrow> usage_zero | Some u \<Rightarrow> u)"

definition budget_observe ::
  "env \<Rightarrow> string \<Rightarrow> UsageRecord \<Rightarrow> string \<Rightarrow> db \<Rightarrow> err + unit \<times> db" where
  "budget_observe e rsv cumulative_actual actor s =
     (case get_reservation rsv s of
        None \<Rightarrow> Inl (LookupError (''reservation not found: '' @ rsv))
      | Some reservation \<Rightarrow>
          if \<not> active reservation
          then Inl (ReservationConflictError
            ''usage can only be observed on an active reservation'')
          else if \<not> fits_within (usage_plus cumulative_actual usage_zero)
              (res_estimated reservation)
          then Inl (BudgetExceededError ''observed usage exceeds the reserved estimate'')
          else if list_ex (\<lambda>(n, get). get cumulative_actual < get (observed_so_far reservation))
              model_fields
          then Inl (ReservationConflictError ''observed usage must be monotonic'')
          else
            (case get_run (res_run_id reservation) s of
               None \<Rightarrow> Inl (LookupError (''run not found: '' @ res_run_id reservation))
             | Some run \<Rightarrow>
                 bind_err (budget_append_run_event e (now e) 0 run ''budget.observed'' actor
                   (JObj [(''reservation_id'', JStr rsv)])
                   (set_reservation rsv (\<lambda>r. r\<lparr>res_actual := Some cumulative_actual\<rparr>) s))
                   (\<lambda>s. Inr ((), s))))"

definition budget_hold :: "env \<Rightarrow> string \<Rightarrow> string \<Rightarrow> db \<Rightarrow> err + unit \<times> db" where
  "budget_hold e rsv actor s =
     (case get_reservation rsv s of
        None \<Rightarrow> Inl (LookupError (''reservation not found: '' @ rsv))
      | Some reservation \<Rightarrow>
          if res_state reservation = Held then Inr ((), s)
          else if res_state reservation \<noteq> Reserved
          then Inl (ReservationConflictError ''only reserved usage can be held'')
          else
            (case get_run (res_run_id reservation) s of
               None \<Rightarrow> Inl (LookupError (''run not found: '' @ res_run_id reservation))
             | Some run \<Rightarrow>
                 bind_err (budget_append_run_event e (now e) 0 run ''budget.held'' actor
                   (JObj [(''reservation_id'', JStr rsv)])
                   (set_reservation rsv (\<lambda>r. r\<lparr>res_state := Held\<rparr>) s)) (\<lambda>s. Inr ((), s))))"

definition budget_release :: "env \<Rightarrow> string \<Rightarrow> string \<Rightarrow> db \<Rightarrow> err + unit \<times> db" where
  "budget_release e rsv actor s =
     (case get_reservation rsv s of
        None \<Rightarrow> Inl (LookupError (''reservation not found: '' @ rsv))
      | Some reservation \<Rightarrow>
          if res_state reservation = Released then Inr ((), s)
          else if \<not> active reservation
          then Inl (ReservationConflictError ''only active usage can be released'')
          else
            (case (get_ledger (res_run_id reservation) s, get_run (res_run_id reservation) s) of
               (Some ledger, Some run) \<Rightarrow>
                 bind_err (reconcile_usage (led_used ledger) (led_reserved ledger)
                     (res_estimated reservation) usage_zero) (\<lambda>(_, remaining).
                 bind_err (budget_append_run_event e (now e) 0 run ''budget.released'' actor
                   (JObj [(''reservation_id'', JStr rsv)])
                   (set_reservation rsv (\<lambda>r. r\<lparr>res_state := Released,
                      res_reconciled_at := Some (date_column e (now e))\<rparr>)
                   (set_ledger (res_run_id reservation) (\<lambda>l. l\<lparr>led_reserved := remaining,
                      led_revision := led_revision l + 1\<rparr>) s))) (\<lambda>s.
                 Inr ((), s)))
             | _ \<Rightarrow> Inl (LookupError (''run not found: '' @ res_run_id reservation))))"

section \<open>The service as a whole\<close>

text \<open>
  A call of the service: the arguments of one method. Usage arguments are validated by
  their constructor before the call.
\<close>

datatype budget_call =
    Reserve string string UsageRecord string
  | Complete string UsageRecord string
  | Observe string UsageRecord string
  | Hold string string
  | Release string string

fun budget_step :: "env \<times> budget_call \<Rightarrow> db \<Rightarrow> err + string \<times> db" where
  "budget_step (e, Reserve rid key est actor) s =
     bind_err (mk_usage est) (\<lambda>est. budget_reserve e rid key est actor s)"
| "budget_step (e, Complete rsv act actor) s =
     bind_err (mk_usage act) (\<lambda>act.
       bind_err (budget_complete e rsv act actor s) (\<lambda>(_, s). Inr ('''', s)))"
| "budget_step (e, Observe rsv act actor) s =
     bind_err (mk_usage act) (\<lambda>act.
       bind_err (budget_observe e rsv act actor s) (\<lambda>(_, s). Inr ('''', s)))"
| "budget_step (e, Hold rsv actor) s =
     bind_err (budget_hold e rsv actor s) (\<lambda>(_, s). Inr ('''', s))"
| "budget_step (e, Release rsv actor) s =
     bind_err (budget_release e rsv actor s) (\<lambda>(_, s). Inr ('''', s))"

section \<open>The ledger invariant\<close>

definition reserved_share :: "string \<Rightarrow> BudgetReservationRow \<Rightarrow> UsageRecord" where
  "reserved_share k r = (if res_run_id r = k \<and> active r then res_estimated r else 0)"

definition settled :: "BudgetReservationRow \<Rightarrow> bool" where
  "settled r \<longleftrightarrow> res_state r \<in> {Completed, Exceeded}"

definition used_share :: "string \<Rightarrow> BudgetReservationRow \<Rightarrow> UsageRecord" where
  "used_share k r = (if res_run_id r = k \<and> settled r
     then (case res_actual r of None \<Rightarrow> 0 | Some u \<Rightarrow> u) else 0)"

definition overrun :: "string \<Rightarrow> BudgetReservationRow list \<Rightarrow> bool" where
  "overrun k rs \<longleftrightarrow> (\<exists>r\<in>set rs. res_run_id r = k \<and> res_state r = Exceeded)"

definition account_ok :: "BudgetReservationRow list \<Rightarrow> BudgetLedgerRow \<Rightarrow> bool" where
  "account_ok rs l \<longleftrightarrow>
     led_reserved l = sum_list (map (reserved_share (led_run_id l)) rs) \<and>
     led_used l = sum_list (map (used_share (led_run_id l)) rs) \<and>
     (\<not> overrun (led_run_id l) rs \<longrightarrow> led_used l + led_reserved l \<le> led_limit l)"

definition ledger_ok :: "BudgetLedgerRow list \<Rightarrow> BudgetReservationRow list \<Rightarrow> bool" where
  "ledger_ok ls rs \<longleftrightarrow>
     distinct (map led_run_id ls) \<and> distinct (map res_id rs) \<and>
     (\<forall>r\<in>set rs. 0 \<le> res_estimated r \<and> res_run_id r \<in> led_run_id ` set ls) \<and>
     (\<forall>l\<in>set ls. account_ok rs l)"

definition ledger_inv :: "db \<Rightarrow> bool" where
  "ledger_inv s \<longleftrightarrow> ledger_ok (ledgers s) (reservations s)"

lemma ledger_okD:
  assumes "ledger_ok ls rs"
  shows "distinct (map led_run_id ls)" "distinct (map res_id rs)"
    "row_get res_id k rs = Some r \<Longrightarrow> 0 \<le> res_estimated r"
    "row_get led_run_id k ls = Some l \<Longrightarrow> account_ok rs l \<and> led_run_id l = k"
  using assms by (auto simp: ledger_ok_def dest: row_get_SomeD)

text \<open>
  The general write: one reservation row changes, and the ledger row of its run moves by
  the difference of the row's shares. Every budget operation on an existing reservation is
  an instance.
\<close>

lemma ledger_ok_move:
  assumes ok: "ledger_ok ls rs"
    and r: "row_get res_id k rs = Some r" and run: "res_run_id r = q"
    and l: "row_get led_run_id q ls = Some l"
    and f: "\<And>x. res_id (f x) = res_id x" "\<And>x. res_run_id (f x) = res_run_id x"
      "\<And>x. res_estimated (f x) = res_estimated x"
    and g: "\<And>x. led_run_id (g x) = led_run_id x" "\<And>x. led_limit (g x) = led_limit x"
    and move: "led_reserved (g l) = led_reserved l - reserved_share q r + reserved_share q (f r)"
      "led_used (g l) = led_used l - used_share q r + used_share q (f r)"
    and bound: "\<not> overrun q (row_set res_id k f rs) \<Longrightarrow>
      led_used (g l) + led_reserved (g l) \<le> led_limit l"
    and mono: "res_state r = Exceeded \<Longrightarrow> res_state (f r) = Exceeded"
  shows "ledger_ok (row_set led_run_id q g ls) (row_set res_id k f rs)"
proof -
  let ?rs = "row_set res_id k f rs"
  note dist = ledger_okD(1,2) [OF ok]
  have sums: "sum_list (map h ?rs) = sum_list (map h rs) - h r + h (f r)"
    for h :: "BudgetReservationRow \<Rightarrow> UsageRecord"
    by (rule sum_row_set [OF dist(2) r])
  have r': "r \<in> set rs" "res_id r = k" using r by (auto dest: row_get_SomeD)
  have account: "account_ok ?rs (if led_run_id x = q then g x else x)" if x: "x \<in> set ls" for x
  proof (cases "led_run_id x = q")
    case True
    with x l dist(1) have "x = l" by (metis row_get_mem option.inject)
    moreover have "account_ok rs l" "led_run_id l = q"
      using ledger_okD(4) [OF ok l] by auto
    ultimately show ?thesis
      using move bound by (simp add: account_ok_def sums g)
  next
    case False
    with run have zero: "reserved_share (led_run_id x) y = 0" "used_share (led_run_id x) y = 0"
      if "y \<in> {r, f r}" for y
      using that by (auto simp: reserved_share_def used_share_def f)
    have "overrun (led_run_id x) ?rs = overrun (led_run_id x) rs"
      unfolding overrun_def bex_row_set
      using False run dist(2) r by (auto simp: f) (metis row_get_mem option.inject)+
    moreover from x ok have "account_ok rs x" by (simp add: ledger_ok_def)
    ultimately show ?thesis
      using False by (auto simp: account_ok_def sums zero)
  qed
  show ?thesis
    using ok dist account
    by (simp add: ledger_ok_def distinct_row_set image_row_set f g ball_row_set if_distrib [of res_estimated]
        cong: if_cong)
qed

lemma overrun_row_set:
  assumes "distinct (map res_id rs)" and "row_get res_id k rs = Some r"
    and "\<And>x. res_run_id (f x) = res_run_id x"
    and "(res_state (f r) = Exceeded) = (res_state r = Exceeded)"
  shows "overrun q (row_set res_id k f rs) = overrun q rs"
  unfolding overrun_def bex_row_set
  using assms by (auto simp: assms(3)) (metis row_get_mem option.inject)+

text \<open>A write that changes no share leaves the ledgers as they are.\<close>

lemma ledger_ok_idle:
  assumes ok: "ledger_ok ls rs" and r: "row_get res_id k rs = Some r"
    and f: "\<And>x. res_id (f x) = res_id x" "\<And>x. res_run_id (f x) = res_run_id x"
      "\<And>x. res_estimated (f x) = res_estimated x"
    and same: "active (f r) = active r" "\<not> settled r" "\<not> settled (f r)"
  shows "ledger_ok ls (row_set res_id k f rs)"
proof -
  let ?rs = "row_set res_id k f rs"
  note dist = ledger_okD(1,2) [OF ok]
  have shares: "reserved_share q (f r) = reserved_share q r" "used_share q (f r) = used_share q r"
    for q using same by (auto simp: reserved_share_def used_share_def f)
  have sums: "sum_list (map h ?rs) = sum_list (map h rs) - h r + h (f r)"
    for h :: "BudgetReservationRow \<Rightarrow> UsageRecord"
    by (rule sum_row_set [OF dist(2) r])
  have "overrun q ?rs = overrun q rs" for q
    using same by (intro overrun_row_set [OF dist(2) r]) (auto simp: f settled_def)
  then have "account_ok ?rs l = account_ok rs l" for l
    by (simp add: account_ok_def sums shares)
  then show ?thesis
    using ok dist
    by (simp add: ledger_ok_def distinct_row_set f ball_row_set if_distrib [of res_estimated]
        cong: if_cong)
qed

text \<open>A new reservation, with its estimate added to the ledger of its run.\<close>

lemma ledger_ok_add:
  assumes ok: "ledger_ok ls rs" and l: "row_get led_run_id q ls = Some l"
    and r: "res_run_id r = q" "res_state r = Reserved" "0 \<le> res_estimated r"
      "\<forall>x\<in>set rs. res_id x \<noteq> res_id r"
    and g: "\<And>x. led_run_id (g x) = led_run_id x" "\<And>x. led_limit (g x) = led_limit x"
      "\<And>x. led_used (g x) = led_used x"
    and move: "led_reserved (g l) = led_reserved l + res_estimated r"
    and bound: "led_used l + led_reserved l + res_estimated r \<le> led_limit l"
  shows "ledger_ok (row_set led_run_id q g ls) (rs @ [r])"
proof -
  note dist = ledger_okD(1,2) [OF ok]
  have shares: "reserved_share p r = (if p = q then res_estimated r else 0)" "used_share p r = 0"
    for p using r by (auto simp: reserved_share_def used_share_def active_def settled_def)
  have over: "overrun p (rs @ [r]) = overrun p rs" for p
    using r by (auto simp: overrun_def)
  have "account_ok (rs @ [r]) (if led_run_id x = q then g x else x)" if x: "x \<in> set ls" for x
  proof (cases "led_run_id x = q")
    case True
    with x l dist(1) have "x = l" by (metis row_get_mem option.inject)
    moreover have "account_ok rs l" "led_run_id l = q"
      using ledger_okD(4) [OF ok l] by auto
    ultimately show ?thesis
      using move bound by (simp add: account_ok_def shares g over add.assoc)
  next
    case False
    from x ok have "account_ok rs x" by (simp add: ledger_ok_def)
    with False show ?thesis
      by (auto simp: account_ok_def shares over)
  qed
  moreover have "q \<in> led_run_id ` set ls" using l by (force dest: row_get_SomeD)
  ultimately show ?thesis
    using ok dist r by (auto simp: ledger_ok_def distinct_row_set image_row_set g ball_row_set)
qed

text \<open>A new ledger without reservations.\<close>

lemma ledger_ok_new:
  assumes ok: "ledger_ok ls rs" and fresh: "\<forall>x\<in>set ls. led_run_id x \<noteq> led_run_id l"
    and zero: "led_used l = 0" "led_reserved l = 0" "0 \<le> led_limit l"
  shows "ledger_ok (ls @ [l]) rs"
proof -
  have none: "res_run_id r \<noteq> led_run_id l" if "r \<in> set rs" for r
    using ok fresh that by (force simp: ledger_ok_def)
  then have "sum_list (map (reserved_share (led_run_id l)) rs) = 0"
    "sum_list (map (used_share (led_run_id l)) rs) = 0"
    by (simp_all add: reserved_share_def used_share_def cong: map_cong)
  then have "account_ok rs l" by (simp add: account_ok_def zero)
  then show ?thesis using ok fresh by (auto simp: ledger_ok_def)
qed

section \<open>What a successful call did\<close>

lemma budget_reserve_Inr:
  assumes "budget_reserve e rid key est actor s = Inr (x, s')"
  obtains (replay) r where "find_reservation rid key s = Some r" "res_estimated r = est"
      "x = res_id r" "s' = s"
  | (fresh) l run where "find_reservation rid key s = None" "get_ledger rid s = Some l"
      "get_run rid s = Some run" "led_used l + led_reserved l + est \<le> led_limit l"
      "x = uuid4 e 0" "\<forall>q\<in>set (reservations s). res_id q \<noteq> uuid4 e 0"
      "append_run_event e (now e) 1 run ''budget.reserved'' actor
         (JObj [(''activity_key'', JStr key), (''reservation_id'', JStr (uuid4 e 0))])
         (set_ledger rid (\<lambda>l'. l'\<lparr>led_reserved := led_reserved l + est,
            led_revision := led_revision l' + 1\<rparr>)
          (s\<lparr>reservations := reservations s @ [\<lparr>res_id = uuid4 e 0, res_run_id = rid,
             res_activity_key = key, res_state = Reserved, res_estimated = est,
             res_actual = None, res_created_at = date_column e (now e),
             res_reconciled_at = None\<rparr>]\<rparr>)) = Inr s'"
  using assms
  by (auto simp: budget_reserve_def raise_simps add_reservation_Inr reserve_usage_Inr
      reservation_conflict_def budget_append_run_event_def split: option.splits if_splits)

lemma budget_complete_Inr:
  assumes "budget_complete e rsv actual actor s = Inr (u, s')"
  obtains (replay) r where "get_reservation rsv s = Some r" "res_state r = Completed"
      "res_actual r = Some actual" "s' = s"
  | (settle) r l run where "get_reservation rsv s = Some r" "active r"
      "get_ledger (res_run_id r) s = Some l" "get_run (res_run_id r) s = Some run"
      "res_estimated r \<le> led_reserved l"
      "led_used l + actual + (led_reserved l - res_estimated r) \<le> led_limit l"
      "append_run_event e (now e) 0 run ''budget.completed'' actor
         (JObj [(''reservation_id'', JStr rsv)])
         (set_reservation rsv (\<lambda>r. r\<lparr>res_state := Completed, res_actual := Some actual,
            res_reconciled_at := Some (date_column e (now e))\<rparr>)
          (set_ledger (res_run_id r) (\<lambda>l'. l'\<lparr>led_used := led_used l + actual,
             led_reserved := led_reserved l - res_estimated r,
             led_revision := led_revision l' + 1\<rparr>) s)) = Inr s'"
  using assms
  by (auto simp: budget_complete_def raise_simps reconcile_usage_Inr budget_append_run_event_def
      split: option.splits if_splits prod.splits)

lemma budget_observe_Inr:
  assumes "budget_observe e rsv actual actor s = Inr (u, s')"
  obtains r run where "get_reservation rsv s = Some r" "active r"
      "get_run (res_run_id r) s = Some run"
      "observed_so_far r \<le> actual" "actual \<le> res_estimated r"
      "append_run_event e (now e) 0 run ''budget.observed'' actor (JObj [(''reservation_id'', JStr rsv)])
         (set_reservation rsv (\<lambda>r. r\<lparr>res_actual := Some actual\<rparr>) s) = Inr s'"
  using assms
  by (auto simp: budget_observe_def raise_simps budget_append_run_event_def
      UsageRecord_le_iff model_fields_def not_less split: option.splits if_splits)

lemma budget_hold_Inr:
  assumes "budget_hold e rsv actor s = Inr (u, s')"
  obtains (replay) r where "get_reservation rsv s = Some r" "res_state r = Held" "s' = s"
  | (hold) r run where "get_reservation rsv s = Some r" "res_state r = Reserved"
      "get_run (res_run_id r) s = Some run"
      "append_run_event e (now e) 0 run ''budget.held'' actor (JObj [(''reservation_id'', JStr rsv)])
         (set_reservation rsv (\<lambda>r. r\<lparr>res_state := Held\<rparr>) s) = Inr s'"
  using assms
  by (auto simp: budget_hold_def raise_simps budget_append_run_event_def
      split: option.splits if_splits)

lemma budget_release_Inr:
  assumes "budget_release e rsv actor s = Inr (u, s')"
  obtains (replay) r where "get_reservation rsv s = Some r" "res_state r = Released" "s' = s"
  | (free) r l run where "get_reservation rsv s = Some r" "active r"
      "get_ledger (res_run_id r) s = Some l" "get_run (res_run_id r) s = Some run"
      "res_estimated r \<le> led_reserved l"
      "append_run_event e (now e) 0 run ''budget.released'' actor
         (JObj [(''reservation_id'', JStr rsv)])
         (set_reservation rsv (\<lambda>r. r\<lparr>res_state := Released,
            res_reconciled_at := Some (date_column e (now e))\<rparr>)
          (set_ledger (res_run_id r) (\<lambda>l'. l'\<lparr>led_reserved := led_reserved l - res_estimated r,
             led_revision := led_revision l' + 1\<rparr>) s)) = Inr s'"
  using assms
  by (auto simp: budget_release_def raise_simps reconcile_usage_Inr budget_append_run_event_def
      split: option.splits if_splits prod.splits)

section \<open>Every call keeps the ledgers\<close>

lemma released_within:
  fixes a :: UsageRecord
  assumes "a + b \<le> c" and "0 \<le> d"
  shows "a + (b - d) \<le> c"
proof -
  from assms(2) have "a + (b - d) \<le> a + b" by simp
  with assms(1) show ?thesis by (rule order_trans [rotated])
qed

lemma append_run_event_ledger:
  "append_run_event e w i run ty ac p s = Inr s' \<Longrightarrow> ledger_inv s' = ledger_inv s"
  by (drule append_run_event_Inr(1)) (simp add: ledger_inv_def)

lemma budget_reserve_ledger:
  assumes "budget_reserve e rid key est actor s = Inr (x, s')" and "ledger_inv s" and "0 \<le> est"
  shows "ledger_inv s'"
  using assms(1)
proof (cases rule: budget_reserve_Inr)
  case replay
  with assms(2) show ?thesis by simp
next
  case (fresh l run)
  show ?thesis
    unfolding append_run_event_ledger [OF fresh(7)]
    using assms(2,3) fresh
    by (auto simp: ledger_inv_def set_ledger_def get_ledger_def intro!: ledger_ok_add)
qed

lemma budget_complete_ledger:
  assumes "budget_complete e rsv actual actor s = Inr (u, s')" and "ledger_inv s"
  shows "ledger_inv s'"
  using assms(1)
proof (cases rule: budget_complete_Inr)
  case replay
  with assms(2) show ?thesis by simp
next
  case (settle r l run)
  then show ?thesis
    unfolding append_run_event_ledger [OF settle(7)]
    using assms(2)
    by (auto simp: ledger_inv_def set_defs get_defs reserved_share_def used_share_def
        active_def settled_def intro!: ledger_ok_move)
qed

lemma budget_observe_ledger:
  assumes "budget_observe e rsv actual actor s = Inr (u, s')" and "ledger_inv s"
  shows "ledger_inv s'"
  using assms(1)
proof (cases rule: budget_observe_Inr)
  case (1 r run)
  then show ?thesis
    unfolding append_run_event_ledger [OF 1(6)]
    using assms(2)
    by (auto simp: ledger_inv_def set_defs get_defs active_def settled_def
        intro!: ledger_ok_idle)
qed

lemma budget_hold_ledger:
  assumes "budget_hold e rsv actor s = Inr (u, s')" and "ledger_inv s"
  shows "ledger_inv s'"
  using assms(1)
proof (cases rule: budget_hold_Inr)
  case replay
  with assms(2) show ?thesis by simp
next
  case (hold r run)
  then show ?thesis
    unfolding append_run_event_ledger [OF hold(4)]
    using assms(2)
    by (auto simp: ledger_inv_def set_defs get_defs active_def settled_def
        intro!: ledger_ok_idle)
qed

lemma budget_release_ledger:
  assumes "budget_release e rsv actor s = Inr (u, s')" and "ledger_inv s"
  shows "ledger_inv s'"
  using assms(1)
proof (cases rule: budget_release_Inr)
  case replay
  with assms(2) show ?thesis by simp
next
  case (free r l run)
  from assms(2) have ok: "ledger_ok (ledgers s) (reservations s)" by (simp add: ledger_inv_def)
  have l: "account_ok (reservations s) l" "led_run_id l = res_run_id r"
    using ledger_okD(4) [OF ok] free(3) by (auto simp: get_defs)
  have "0 \<le> res_estimated r" using ledger_okD(3) [OF ok] free(1) by (simp add: get_defs)
  then have "led_used l + (led_reserved l - res_estimated r) \<le> led_limit l"
    if "\<not> overrun (res_run_id r) (reservations s)"
    using l that by (intro released_within) (auto simp only: account_ok_def)
  moreover have "overrun (res_run_id r) (row_set res_id rsv (\<lambda>r. r\<lparr>res_state := Released,
      res_reconciled_at := Some (date_column e (now e))\<rparr>) (reservations s)) =
      overrun (res_run_id r) (reservations s)"
    using free by (intro overrun_row_set [OF ledger_okD(2) [OF ok]])
      (auto simp: get_defs active_def)
  ultimately show ?thesis
    unfolding append_run_event_ledger [OF free(6)]
    using ok free
    by (auto simp: ledger_inv_def set_defs get_defs reserved_share_def used_share_def
        active_def settled_def intro!: ledger_ok_move)
qed

section \<open>Every call keeps the log\<close>

lemma budget_reserve_log:
  assumes "budget_reserve e rid key est actor s = Inr (x, s')" and "log_inv s"
  shows "log_inv s' \<and> log_extends s s'"
  using assms(1)
proof (cases rule: budget_reserve_Inr)
  case (fresh l run)
  then show ?thesis
    using assms(2)
    by (auto simp: set_defs elim!: append_after_read append_run_event_extends)
qed (use assms(2) in auto)

lemma budget_complete_log:
  assumes "budget_complete e rsv actual actor s = Inr (u, s')" and "log_inv s"
  shows "log_inv s' \<and> log_extends s s'"
  using assms(1)
proof (cases rule: budget_complete_Inr)
  case (settle r l run)
  then show ?thesis
    using assms(2)
    by (auto simp: set_defs elim!: append_after_read append_run_event_extends)
qed (use assms(2) in auto)

lemma budget_observe_log:
  assumes "budget_observe e rsv actual actor s = Inr (u, s')" and "log_inv s"
  shows "log_inv s' \<and> log_extends s s'"
  using assms(1)
proof (cases rule: budget_observe_Inr)
  case (1 r run)
  then show ?thesis
    using assms(2)
    by (auto simp: set_defs elim!: append_after_read append_run_event_extends)
qed

lemma budget_hold_log:
  assumes "budget_hold e rsv actor s = Inr (u, s')" and "log_inv s"
  shows "log_inv s' \<and> log_extends s s'"
  using assms(1)
proof (cases rule: budget_hold_Inr)
  case (hold r run)
  then show ?thesis
    using assms(2)
    by (auto simp: set_defs elim!: append_after_read append_run_event_extends)
qed (use assms(2) in auto)

lemma budget_release_log:
  assumes "budget_release e rsv actor s = Inr (u, s')" and "log_inv s"
  shows "log_inv s' \<and> log_extends s s'"
  using assms(1)
proof (cases rule: budget_release_Inr)
  case (free r l run)
  then show ?thesis
    using assms(2)
    by (auto simp: set_defs elim!: append_after_read append_run_event_extends)
qed (use assms(2) in auto)

section \<open>The life of a reservation\<close>

text \<open>
  A reservation keeps its run, key and estimate; while it is active its observed usage
  only grows, and once it is settled or released it never changes again.
\<close>

definition reservation_progress :: "BudgetReservationRow \<Rightarrow> BudgetReservationRow \<Rightarrow> bool" where
  "reservation_progress r r' \<longleftrightarrow>
     res_run_id r' = res_run_id r \<and> res_activity_key r' = res_activity_key r \<and>
     res_estimated r' = res_estimated r \<and>
     (if active r then active r' \<longrightarrow> observed_so_far r \<le> observed_so_far r' else r' = r)"

definition budget_progress :: "db \<Rightarrow> db \<Rightarrow> bool" where
  "budget_progress = rows_advance get_reservation reservation_progress"

lemma reservation_progress_refl [simp]: "reservation_progress r r"
  by (simp add: reservation_progress_def)

lemma reservation_progress_trans:
  "reservation_progress r r' \<Longrightarrow> reservation_progress r' r'' \<Longrightarrow> reservation_progress r r''"
  by (auto simp: reservation_progress_def split: if_splits intro: order_trans)

lemma budget_progress_refl [simp]: "budget_progress s s"
  by (simp add: budget_progress_def rows_advance_same)

lemma budget_progress_trans: "budget_progress s t \<Longrightarrow> budget_progress t u \<Longrightarrow> budget_progress s u"
  unfolding budget_progress_def by (rule rows_advance_trans [of reservation_progress])
    (rule reservation_progress_trans)

lemma append_run_event_reservations:
  "append_run_event e w i run ty ac p s = Inr s' \<Longrightarrow> get_reservation k s' = get_reservation k s"
  by (drule append_run_event_Inr(1)) (simp add: get_reservation_def)

lemma get_reservation_set_ledger [simp]: "get_reservation k (set_ledger q f s) = get_reservation k s"
  by (simp add: get_reservation_def set_ledger_def)

lemma budget_progress_write:
  assumes "append_run_event e w i run ty ac p (set_reservation k f t) = Inr s'"
    and "\<And>q. get_reservation q t = get_reservation q s"
    and "get_reservation k s = Some r" "\<And>r. res_id (f r) = res_id r" "reservation_progress r (f r)"
  shows "budget_progress s s'"
  unfolding budget_progress_def rows_advance_def append_run_event_reservations [OF assms(1)]
  using assms(2-) by (auto simp: reservation_table.get_set)

lemma budget_reserve_progress:
  assumes "budget_reserve e rid key est actor s = Inr (x, s')"
  shows "budget_progress s s'"
  using assms
proof (cases rule: budget_reserve_Inr)
  case (fresh l run)
  show ?thesis
    unfolding budget_progress_def rows_advance_def append_run_event_reservations [OF fresh(7)]
    by (auto simp: get_reservation_def set_ledger_def row_get_append)
qed auto

lemma budget_complete_progress:
  "budget_complete e rsv actual actor s = Inr (u, s') \<Longrightarrow> budget_progress s s'"
  by (erule budget_complete_Inr)
    (auto elim!: budget_progress_write simp: reservation_progress_def active_def)

lemma budget_observe_progress:
  "budget_observe e rsv actual actor s = Inr (u, s') \<Longrightarrow> budget_progress s s'"
  by (erule budget_observe_Inr)
    (auto elim!: budget_progress_write simp: reservation_progress_def observed_so_far_def)

lemma budget_hold_progress:
  "budget_hold e rsv actor s = Inr (u, s') \<Longrightarrow> budget_progress s s'"
  by (erule budget_hold_Inr)
    (auto elim!: budget_progress_write
      simp: reservation_progress_def active_def observed_so_far_def)

lemma budget_release_progress:
  "budget_release e rsv actor s = Inr (u, s') \<Longrightarrow> budget_progress s s'"
  by (erule budget_release_Inr)
    (auto elim!: budget_progress_write simp: reservation_progress_def active_def)

section \<open>The service meets its contracts\<close>

lemma mk_usage_Inr: "mk_usage u = Inr v \<longleftrightarrow> 0 \<le> u \<and> v = u"
  by (auto simp: mk_usage_def usage_valid_iff)

fun_cases budget_step_Inr: "budget_step c s = Inr x"

lemmas budget_ledger = budget_reserve_ledger budget_complete_ledger budget_observe_ledger
  budget_hold_ledger budget_release_ledger

lemmas budget_log = budget_reserve_log budget_complete_log budget_observe_log budget_hold_log
  budget_release_log

lemmas budget_moves = budget_reserve_progress budget_complete_progress budget_observe_progress
  budget_hold_progress budget_release_progress

interpretation budget_ledgers: transactional budget_step ledger_inv
  by unfold_locales
    (auto elim!: budget_step_Inr simp: Inr_eq_bind_err bind_err_eq_Inr mk_usage_Inr dest: budget_ledger)

interpretation budget_events: transactional budget_step log_inv
  by unfold_locales
    (auto elim!: budget_step_Inr simp: Inr_eq_bind_err bind_err_eq_Inr mk_usage_Inr dest: budget_log)

interpretation budget_life: monotone_service budget_step budget_progress
  by unfold_locales
    (auto elim!: budget_step_Inr simp: Inr_eq_bind_err bind_err_eq_Inr mk_usage_Inr
      intro: budget_moves budget_progress_trans)

section \<open>Properties\<close>

lemma find_reservation_mem:
  "find_reservation rid key s = Some r \<Longrightarrow> res_run_id r = rid \<and> res_activity_key r = key"
  by (auto simp: find_reservation_def find_Some_iff)

lemma find_append: "find P (xs @ ys) = (case find P xs of None \<Rightarrow> find P ys | Some x \<Rightarrow> Some x)"
  by (induction xs) auto


definition demo_calls :: "(env \<times> budget_call) list" where
  "demo_calls =
     [(call_at ''a'' 1, Reserve ''r'' ''k1'' (plain_usage 4) ''op''),
      (call_at ''b'' 2, Observe ''a'' (plain_usage 2) ''op''),
      (call_at ''c'' 3, Complete ''a'' (plain_usage 3) ''op''),
      (call_at ''d'' 4, Reserve ''r'' ''k2'' (plain_usage 8) ''op''),
      (call_at ''f'' 5, Reserve ''r'' ''k3'' (plain_usage 7) ''op''),
      (call_at ''g'' 6, Hold ''f'' ''op'')]"

definition demo_spent :: BudgetLedgerRow where
  "demo_spent = demo_ledger\<lparr>led_used := plain_usage 3, led_reserved := plain_usage 7,
     led_revision := 4\<rparr>"

lemma demo_ledgers: "ledger_inv demo_db"
  by (simp add: ledger_inv_def ledger_ok_def account_ok_def demo_db_def empty_db_def
      demo_ledger_def plain_usage_def zero_UsageRecord_def [symmetric] UsageRecord_le_iff)

lemma demo_calls_ledger: "get_ledger ''r'' (run_sessions budget_step demo_calls demo_db) = Some demo_spent"
  by code_simp

lemma demo_calls_within: "\<not> overrun ''r'' (reservations (run_sessions budget_step demo_calls demo_db))"
  by code_simp




text \<open>
  Retrying a reserve is safe: after a successful call, the same run, activity key and
  estimate give the same reservation id and change nothing, whatever the clock, the drawn
  identifiers and the actor; a different estimate under the same key raises
  \<open>ReservationConflictError\<close>.
\<close>

theorem budget_reserve_retry:
  assumes "budget_reserve e rid key est actor s = Inr (x, s')"
  shows "budget_reserve e' rid key est actor' s' = Inr (x, s') \<and>
    (est' \<noteq> est \<longrightarrow> budget_reserve e' rid key est' actor' s' =
       Inl (ReservationConflictError ''activity_key already has a different estimate''))"
  using assms
proof (cases rule: budget_reserve_Inr)
  case (replay r)
  then show ?thesis by (auto simp: budget_reserve_def)
next
  case (fresh l run)
  have "find_reservation rid key s' = Some \<lparr>res_id = uuid4 e 0, res_run_id = rid,
     res_activity_key = key, res_state = Reserved, res_estimated = est,
     res_actual = None, res_created_at = date_column e (now e), res_reconciled_at = None\<rparr>"
    using fresh(1) append_run_event_Inr(1) [OF fresh(7)]
    by (simp add: find_reservation_def set_ledger_def find_append)
  then show ?thesis using fresh(5) by (auto simp: budget_reserve_def)
qed

definition demo_reserved :: db where
  "demo_reserved = snd (in_session (\<lambda>s. budget_reserve (call_at ''a'' 1) ''r'' ''k'' (plain_usage 4) ''op'' s)
     demo_db)"

lemma demo_reserve: "budget_reserve (call_at ''a'' 1) ''r'' ''k'' (plain_usage 4) ''op'' demo_db =
    Inr (''a'', demo_reserved)"
  by code_simp

theorem budget_reserve_retry_witness:
  "budget_reserve (call_at ''b'' 9) ''r'' ''k'' (plain_usage 4) ''other'' demo_reserved =
    Inr (''a'', demo_reserved)"
  using budget_reserve_retry [OF demo_reserve] by blast

text \<open>
  A completed reservation is final: repeating the call with the same usage changes
  nothing, and another usage, a hold, a release or an observation raises
  \<open>ReservationConflictError\<close>.
\<close>

theorem budget_complete_final:
  assumes "budget_complete e rsv actual actor s = Inr (u, s')"
  shows "budget_complete e' rsv actual actor' s' = Inr ((), s') \<and>
    (other \<noteq> actual \<longrightarrow> budget_complete e' rsv other actor' s' =
       Inl (ReservationConflictError ''completed reservation has different actual usage'')) \<and>
    budget_hold e' rsv actor' s' =
       Inl (ReservationConflictError ''only reserved usage can be held'') \<and>
    budget_release e' rsv actor' s' =
       Inl (ReservationConflictError ''only active usage can be released'') \<and>
    budget_observe e' rsv other actor' s' =
       Inl (ReservationConflictError ''usage can only be observed on an active reservation'')"
proof -
  obtain r where "get_reservation rsv s' = Some r" "res_state r = Completed"
    "res_actual r = Some actual"
    using assms
  proof (cases rule: budget_complete_Inr)
    case (replay r)
    then show ?thesis using that by simp
  next
    case (settle r l run)
    have "get_reservation rsv s' = Some (r\<lparr>res_state := Completed, res_actual := Some actual,
       res_reconciled_at := Some (date_column e (now e))\<rparr>)"
      unfolding append_run_event_reservations [OF settle(7)]
      using settle(1) by (simp add: reservation_table.get_set)
    then show ?thesis by (rule that) simp_all
  qed
  then show ?thesis
    by (auto simp: budget_complete_def budget_hold_def budget_release_def budget_observe_def
        active_def)
qed

definition demo_completed :: db where
  "demo_completed = snd (in_session (budget_complete (call_at ''c'' 3) ''a'' (plain_usage 3) ''op'')
     demo_reserved)"

lemma demo_complete: "budget_complete (call_at ''c'' 3) ''a'' (plain_usage 3) ''op'' demo_reserved =
    Inr ((), demo_completed)"
  by code_simp

theorem budget_complete_final_witness:
  "budget_complete (call_at ''d'' 4) ''a'' (plain_usage 3) ''op'' demo_completed =
    Inr ((), demo_completed)"
  using budget_complete_final [OF demo_complete] by blast

text \<open>
  Completing an active reservation moves exactly its share: the run's \<open>used\<close> grows by
  the actual usage, \<open>reserved\<close> shrinks by the estimate, every other ledger is as before, and
  the run's revision and event counter advance by one. It succeeds only when the result
  still fits the limit.
\<close>

theorem budget_complete_moves_share:
  assumes "budget_complete e rsv actual actor s = Inr (u, s')"
    and "get_reservation rsv s = Some r" and "res_state r \<noteq> Completed"
  shows "\<exists>l run. get_ledger (res_run_id r) s = Some l \<and> get_run (res_run_id r) s = Some run \<and>
    usage_plus (usage_plus (led_used l) actual) (led_reserved l - res_estimated r) \<le> led_limit l \<and>
    get_ledger k s' = (if k = res_run_id r
      then Some (l\<lparr>led_used := led_used l + actual, led_reserved := led_reserved l - res_estimated r,
        led_revision := led_revision l + 1\<rparr>) else get_ledger k s) \<and>
    get_run k s' = (if k = res_run_id r then Some (advance_run e (now e) run) else get_run k s)"
  using assms(1)
proof (cases rule: budget_complete_Inr)
  case (replay r')
  with assms(2,3) show ?thesis by simp
next
  case (settle r' l run)
  from settle(1) assms(2) have [simp]: "r' = r" by simp
  have "run_id run = res_run_id r" using settle(4) run_table.get_key by force
  then have "get_run k s' = (if k = res_run_id r then Some (advance_run e (now e) run) else get_run k s)"
    using settle(4) append_run_event_Inr(1) [OF settle(7)]
    by (simp add: get_run_def set_defs row_get_row_set)
  moreover have "get_ledger k s' = (if k = res_run_id r
      then Some (l\<lparr>led_used := led_used l + actual, led_reserved := led_reserved l - res_estimated r,
        led_revision := led_revision l + 1\<rparr>) else get_ledger k s)"
    using settle(3) append_run_event_Inr(1) [OF settle(7)]
    by (simp add: get_ledger_def set_defs row_get_row_set)
  ultimately show ?thesis using settle by auto
qed

definition demo_reservation :: BudgetReservationRow where
  "demo_reservation = \<lparr>res_id = ''a'', res_run_id = ''r'', res_activity_key = ''k'',
     res_state = Reserved, res_estimated = plain_usage 4, res_actual = None,
     res_created_at = Naive 1000000, res_reconciled_at = None\<rparr>"

lemma demo_reservation_row: "get_reservation ''a'' demo_reserved = Some demo_reservation"
  by code_simp

theorem budget_complete_moves_share_witness:
  "\<exists>l. get_ledger ''r'' demo_reserved = Some l \<and>
    get_ledger ''r'' demo_completed = Some (l\<lparr>led_used := led_used l + plain_usage 3,
      led_reserved := led_reserved l - plain_usage 4, led_revision := led_revision l + 1\<rparr>)"
  using budget_complete_moves_share [OF demo_complete demo_reservation_row, of "''r''"]
  by (auto simp: demo_reservation_def)

text \<open>
  Over any sequence of calls a reservation is only ever advanced: it keeps its run, key
  and estimate, its observed usage never decreases while it is active, and once it has been
  completed, released or exceeded the row never changes again.
\<close>

theorem budget_reservation_life:
  assumes "get_reservation k s = Some r"
  shows "\<exists>r'. get_reservation k (run_sessions budget_step cs s) = Some r' \<and>
    res_estimated r' = res_estimated r \<and> res_run_id r' = res_run_id r \<and>
    (active r \<and> active r' \<longrightarrow> observed_so_far r \<le> observed_so_far r') \<and>
    (\<not> active r \<longrightarrow> r' = r)"
proof -
  have "budget_progress s (run_sessions budget_step cs s)" by (rule budget_life.sessions_le)
  with assms obtain r' where "get_reservation k (run_sessions budget_step cs s) = Some r'"
    "reservation_progress r r'"
    by (auto simp: budget_progress_def dest: rows_advanceD)
  then show ?thesis by (auto simp: reservation_progress_def split: if_splits)
qed

theorem budget_reservation_life_witness:
  "\<exists>r'. get_reservation ''a'' (run_sessions budget_step demo_calls demo_reserved) = Some r' \<and>
    res_estimated r' = plain_usage 4"
  using budget_reservation_life [OF demo_reservation_row, of demo_calls]
  by (auto simp: demo_reservation_def)

end
