(* ===== verification/RunSvc.thy ===== *)
theory RunSvc
  imports BudgetSvc
begin

text \<open>
  Experiment and run lifecycle (application/run\_service.py). Creating a run writes the run
  row, its seed candidate and lineage entry, its zero ledger and its first events in one
  block; a transition is guarded by the closed table, the optional expected revision and a
  compare-and-swap on the revision column; an idempotency record makes a repeated command
  return the first result.
\<close>

section \<open>Idempotency records\<close>

definition find_idempotency :: "string \<Rightarrow> string \<Rightarrow> string \<Rightarrow> db \<Rightarrow> IdempotencyRow option" where
  "find_idempotency actor scope key s =
     find (\<lambda>r. idem_actor_id r = actor \<and> idem_scope r = scope \<and> idem_key r = key) (idempotency s)"

definition check_idempotency ::
  "string \<Rightarrow> string \<Rightarrow> string \<Rightarrow> string \<Rightarrow> db \<Rightarrow> err + string option" where
  "check_idempotency actor scope key request_digest s =
     (case find_idempotency actor scope key s of
        None \<Rightarrow> Inr None
      | Some rec \<Rightarrow>
          if idem_request_digest rec \<noteq> request_digest
          then Inl (RevisionConflictError ''idempotency key was already used for a different request'')
          else Inr (Some (idem_resource_id rec)))"

definition idempotency_row ::
  "env \<Rightarrow> nat \<Rightarrow> string \<Rightarrow> string \<Rightarrow> string \<Rightarrow> string \<Rightarrow> string \<Rightarrow> IdempotencyRow" where
  "idempotency_row e i actor scope key request_digest resource =
     \<lparr>idem_record_id = uuid4 e i, idem_actor_id = actor, idem_scope = scope, idem_key = key,
      idem_request_digest = request_digest, idem_resource_id = resource,
      idem_created_at = date_column e (now e)\<rparr>"

definition record_idempotency ::
  "env \<Rightarrow> nat \<Rightarrow> string \<Rightarrow> string \<Rightarrow> string \<Rightarrow> string \<Rightarrow> string \<Rightarrow> db \<Rightarrow> err + db" where
  "record_idempotency e i actor scope key request_digest resource =
     add_idempotency (idempotency_row e i actor scope key request_digest resource)"

text \<open>The two uses of an optional key: look up before the work, record after it.\<close>

definition check_optional ::
  "string \<Rightarrow> string \<Rightarrow> string option \<Rightarrow> string \<Rightarrow> db \<Rightarrow> err + string option" where
  "check_optional actor scope key digest s =
     (case key of None \<Rightarrow> Inr None | Some k \<Rightarrow> check_idempotency actor scope k digest s)"

definition record_optional ::
  "env \<Rightarrow> nat \<Rightarrow> string \<Rightarrow> string \<Rightarrow> string option \<Rightarrow> string \<Rightarrow> string \<Rightarrow> db \<Rightarrow> err + db" where
  "record_optional e i actor scope key digest resource s =
     (case key of None \<Rightarrow> Inr s
      | Some k \<Rightarrow> record_idempotency e i actor scope k digest resource s)"

section \<open>Experiments\<close>

definition store_experiment :: "env \<Rightarrow> ExperimentSpec \<Rightarrow> string \<Rightarrow> db \<Rightarrow> err + db" where
  "store_experiment e spec digest s =
     (case get_experiment_row (experiment_id spec) s of
        Some existing \<Rightarrow>
          if exp_spec_digest existing \<noteq> digest
          then Inl (DuplicateExperimentError
            ''experiment_id already refers to a different immutable spec'')
          else Inr s
      | None \<Rightarrow> add_experiment \<lparr>exp_id = experiment_id spec, exp_spec_digest = digest,
          exp_spec = spec, exp_created_by = actor_id (created_by spec),
          exp_created_at = date_column e (now e)\<rparr> s)"

definition create_experiment ::
  "env \<Rightarrow> ExperimentSpec \<Rightarrow> string option \<Rightarrow> string option \<Rightarrow> db \<Rightarrow> err + string \<times> db" where
  "create_experiment e spec actor key s =
     (let digest = canonical_digest e (D_experiment spec) in
      case (actor, key) of
        (Some a, Some k) \<Rightarrow>
          bind_err (check_idempotency a ''experiments.create'' k digest s) (\<lambda>prior.
          if prior \<noteq> None then Inr (digest, s)
          else
            bind_err (store_experiment e spec digest s) (\<lambda>s.
            bind_err (record_idempotency e 0 a ''experiments.create'' k digest (experiment_id spec) s)
              (\<lambda>s. Inr (digest, s))))
      | _ \<Rightarrow> bind_err (store_experiment e spec digest s) (\<lambda>s. Inr (digest, s)))"

section \<open>Creating a run\<close>

definition seed_id_of :: "string \<Rightarrow> string" where
  "seed_id_of rid = ''seed-'' @ rid"

definition seed_manifest :: "string \<Rightarrow> ExperimentSpec \<Rightarrow> jval" where
  "seed_manifest rid spec = JObj
     [(''candidate_id'', JStr (seed_id_of rid)), (''kind'', JStr ''seed''), (''run_id'', JStr rid),
      (''schema_version'', JInt 1), (''source_revision'', JStr (source_revision (workspace spec))),
      (''source_tree_digest'', JStr (ws_source_tree_digest (workspace spec)))]"

definition new_run :: "env \<Rightarrow> string \<Rightarrow> string \<Rightarrow> RunRow" where
  "new_run e rid xid = \<lparr>run_id = rid, run_experiment_id = xid, run_state = R_CREATED,
     run_revision = 1, run_event_sequence = 1, run_champion_id = None,
     run_created_at = date_column e (now e), run_updated_at = date_column e (now e)\<rparr>"

definition seed_candidate :: "env \<Rightarrow> string \<Rightarrow> ExperimentSpec \<Rightarrow> CandidateRow" where
  "seed_candidate e rid spec = \<lparr>cand_id = seed_id_of rid, cand_run_id = rid, cand_session_id = None,
     cand_state = Seed, cand_source_tree_digest = ws_source_tree_digest (workspace spec),
     cand_manifest_digest = canonical_digest e (D_json (seed_manifest rid spec)),
     cand_manifest = Seed_manifest (seed_manifest rid spec),
     cand_created_at = date_column e (now e)\<rparr>"

definition seed_lineage :: "env \<Rightarrow> nat \<Rightarrow> string \<Rightarrow> ExperimentSpec \<Rightarrow> LineageRow" where
  "seed_lineage e i rid spec = \<lparr>lin_id = uuid4 e i, lin_run_id = rid, lin_sequence = 0,
     lin_candidate_id = seed_id_of rid,
     lin_source_tree_digest = ws_source_tree_digest (workspace spec), lin_admission_id = None,
     lin_committed_at = date_column e (now e)\<rparr>"

definition new_ledger :: "string \<Rightarrow> ExperimentSpec \<Rightarrow> BudgetLedgerRow" where
  "new_ledger rid spec = \<lparr>led_run_id = rid, led_limit = budget spec, led_used = usage_zero,
     led_reserved = usage_zero, led_revision = 1\<rparr>"

text \<open>The shortcut of \<open>prepare\<close>: the run goes to ready with its two further events.\<close>

definition prepare_run :: "env \<Rightarrow> nat \<Rightarrow> string \<Rightarrow> string \<Rightarrow> db \<Rightarrow> err + db" where
  "prepare_run e i rid actor s =
     bind_err (append_event e (now e) i rid 2 ''run.validating'' actor
       (JObj [(''from'', JStr ''created''), (''to'', JStr ''validating'')])
       (set_run rid (\<lambda>r. r\<lparr>run_state := R_READY, run_revision := 3, run_event_sequence := 3\<rparr>) s))
     (append_event e (now e) (i + 2) rid 3 ''run.ready'' actor
       (JObj [(''from'', JStr ''validating''), (''to'', JStr ''ready'')]))"

definition insert_run ::
  "env \<Rightarrow> nat \<Rightarrow> string \<Rightarrow> ExperimentRow \<Rightarrow> string \<Rightarrow> bool \<Rightarrow> db \<Rightarrow> err + db" where
  "insert_run e i rid experiment actor prepare s =
     (let spec = exp_spec experiment in
      bind_err (add_run (new_run e rid (exp_id experiment)) s) (\<lambda>s.
      bind_err (add_candidate (seed_candidate e rid spec) s) (\<lambda>s.
      bind_err (add_lineage (seed_lineage e i rid spec) s) (\<lambda>s.
      bind_err (add_ledger (new_ledger rid spec)
        (set_run rid (\<lambda>r. r\<lparr>run_champion_id := Some (seed_id_of rid)\<rparr>) s)) (\<lambda>s.
      bind_err (append_event e (now e) (i + 1) rid 1 ''run.created'' actor
        (JObj [(''champion_id'', JStr (seed_id_of rid)),
           (''experiment_id'', JStr (exp_id experiment)),
           (''state'', JStr (run_value R_CREATED))]) s) (\<lambda>s.
      if prepare then prepare_run e (i + 3) rid actor s else Inr s))))))"

text \<open>The body of a creation that is not a replay.\<close>

definition perform_create ::
  "env \<Rightarrow> nat \<Rightarrow> string \<Rightarrow> string \<Rightarrow> string \<Rightarrow> bool \<Rightarrow> string option \<Rightarrow> string \<Rightarrow> string \<Rightarrow> db \<Rightarrow>
     err + string \<times> db" where
  "perform_create e i rid xid actor prepare key scope request_digest s =
     (case get_experiment_row xid s of
        None \<Rightarrow> Inl (NotFoundError (''experiment not found: '' @ xid))
      | Some experiment \<Rightarrow>
          (case get_run rid s of
             Some existing \<Rightarrow>
               if run_experiment_id existing \<noteq> xid
               then Inl (RevisionConflictError ''run_id belongs to another experiment'')
               else Inr (rid, s)
           | None \<Rightarrow>
               bind_err (insert_run e i rid experiment actor prepare s) (\<lambda>s.
               bind_err (record_optional e (i + (if prepare then 7 else 3)) actor scope key
                 request_digest rid s) (\<lambda>s.
               Inr (rid, s)))))"

definition create_scope :: "string \<Rightarrow> string" where
  "create_scope xid = ''experiments.'' @ xid @ ''.runs.create''"

definition create_digest :: "env \<Rightarrow> string \<Rightarrow> bool \<Rightarrow> string \<Rightarrow> string" where
  "create_digest e xid prepare rid = canonical_digest e (D_json (JObj
     [(''experiment_id'', JStr xid), (''prepare'', JBool prepare), (''run_id'', JStr rid)]))"

definition create_run ::
  "env \<Rightarrow> string \<Rightarrow> string \<Rightarrow> string option \<Rightarrow> bool \<Rightarrow> string option \<Rightarrow> db \<Rightarrow> err + string \<times> db" where
  "create_run e xid actor given prepare key s =
     (let fresh = (given = None \<or> given = Some []);
          rid = (if fresh then uuid4 e 0 else the given);
          i = (if fresh then 1 else 0);
          scope = create_scope xid;
          request_digest = create_digest e xid prepare rid
      in bind_err (check_optional actor scope key request_digest s) (\<lambda>prior.
         case prior of
           Some r \<Rightarrow> Inr (r, s)
         | None \<Rightarrow> perform_create e i rid xid actor prepare key scope request_digest s))"

section \<open>Reads\<close>

definition get_experiment :: "string \<Rightarrow> db \<Rightarrow> err + ExperimentSpec" where
  "get_experiment xid s = (case get_experiment_row xid s of
     None \<Rightarrow> Inl (NotFoundError (''experiment not found: '' @ xid)) | Some row \<Rightarrow> Inr (exp_spec row))"

definition read_run :: "string \<Rightarrow> db \<Rightarrow> err + RunRow" where
  "read_run rid s = (case get_run rid s of
     None \<Rightarrow> Inl (NotFoundError (''run not found: '' @ rid)) | Some run \<Rightarrow> Inr run)"

definition get_budget :: "string \<Rightarrow> db \<Rightarrow> err + BudgetSpec \<times> UsageRecord \<times> UsageRecord" where
  "get_budget rid s = (case get_ledger rid s of
     None \<Rightarrow> Inl (NotFoundError (''run not found: '' @ rid))
   | Some l \<Rightarrow> Inr (led_limit l, led_used l, led_reserved l))"

definition list_events :: "string \<Rightarrow> int \<Rightarrow> db \<Rightarrow> EventRow list" where
  "list_events rid after s =
     sort_key ev_sequence (filter (\<lambda>v. ev_run_id v = rid \<and> after < ev_sequence v) (events s))"

section \<open>Transitions\<close>

definition changed_rows :: "string \<Rightarrow> int \<Rightarrow> db \<Rightarrow> nat" where
  "changed_rows rid revision s =
     length (filter (\<lambda>r. run_id r = rid \<and> run_revision r = revision) (runs s))"

definition transition_scope :: "string \<Rightarrow> string option \<Rightarrow> string" where
  "transition_scope rid scope =
     (case scope of Some (c # cs) \<Rightarrow> c # cs | _ \<Rightarrow> ''runs.'' @ rid @ ''.transition'')"

definition json_opt :: "string option \<Rightarrow> jval" where
  "json_opt x = (case x of None \<Rightarrow> JNull | Some v \<Rightarrow> JStr v)"

definition commit_transition ::
  "env \<Rightarrow> RunRow \<Rightarrow> RunState \<Rightarrow> string \<Rightarrow> string option \<Rightarrow> db \<Rightarrow> err + db" where
  "commit_transition e current target actor reason s =
     (let next_revision = run_revision current + 1; next_sequence = run_event_sequence current + 1 in
      if changed_rows (run_id current) (run_revision current) s \<noteq> 1
      then Inl (RevisionConflictError ''run changed concurrently'')
      else append_event e (now e) 0 (run_id current) next_sequence (''run.'' @ run_value target) actor
        (JObj [(''from'', JStr (run_value (run_state current))), (''reason'', json_opt reason),
           (''to'', JStr (run_value target))])
        (set_run (run_id current) (\<lambda>r. r\<lparr>run_state := target, run_revision := next_revision,
           run_event_sequence := next_sequence, run_updated_at := date_column e (now e)\<rparr>) s))"

definition show_conflict :: "int \<Rightarrow> int \<Rightarrow> string" where
  "show_conflict expected current =
     ''expected revision '' @ show_int expected @ '', current is '' @ show_int current"

text \<open>The body of a transition that is not a replay.\<close>

definition perform_transition ::
  "env \<Rightarrow> string \<Rightarrow> RunState \<Rightarrow> string \<Rightarrow> int option \<Rightarrow> string option \<Rightarrow> string option \<Rightarrow> string \<Rightarrow>
     string \<Rightarrow> db \<Rightarrow> err + RunRow \<times> db" where
  "perform_transition e rid target actor expected_revision reason key scope request_digest s =
     (case get_run rid s of
        None \<Rightarrow> Inl (NotFoundError (''run not found: '' @ rid))
      | Some current \<Rightarrow>
          bind_err (require_transition (RunL (run_state current)) (RunL target)) (\<lambda>_.
          if expected_revision \<noteq> None \<and> run_revision current \<noteq> the expected_revision
          then Inl (RevisionConflictError
            (show_conflict (the expected_revision) (run_revision current)))
          else
            bind_err (commit_transition e current target actor reason s) (\<lambda>s.
            bind_err (record_optional e 2 actor scope key request_digest rid s) (\<lambda>s.
            Inr (current\<lparr>run_state := target, run_revision := run_revision current + 1,
              run_event_sequence := run_event_sequence current + 1, run_updated_at := now e\<rparr>, s)))))"

definition transition_digest :: "env \<Rightarrow> string \<Rightarrow> RunState \<Rightarrow> string option \<Rightarrow> string" where
  "transition_digest e rid target reason = canonical_digest e (D_json (JObj
     [(''reason'', json_opt reason), (''run_id'', JStr rid), (''target'', JStr (run_value target))]))"

definition transition ::
  "env \<Rightarrow> string \<Rightarrow> RunState \<Rightarrow> string \<Rightarrow> int option \<Rightarrow> string option \<Rightarrow> string option \<Rightarrow>
     string option \<Rightarrow> db \<Rightarrow> err + RunRow \<times> db" where
  "transition e rid target actor expected_revision reason key endpoint_scope s =
     (let scope = transition_scope rid endpoint_scope;
          request_digest = transition_digest e rid target reason
      in bind_err (check_optional actor scope key request_digest s) (\<lambda>prior.
         case prior of
           Some p \<Rightarrow> (case get_run p s of
               None \<Rightarrow> Inl (NotFoundError (''run not found: '' @ p))
             | Some prior_run \<Rightarrow> Inr (prior_run, s))
         | None \<Rightarrow> perform_transition e rid target actor expected_revision reason key scope
             request_digest s))"

definition control_target :: "RunState \<Rightarrow> RunState" where
  "control_target st = (if st = R_PAUSING then R_PAUSED else R_CANCELLED)"

definition safe_boundary :: "string \<Rightarrow> db \<Rightarrow> bool" where
  "safe_boundary rid s \<longleftrightarrow>
     \<not> list_ex (\<lambda>a. act_run_id a = rid \<and> act_state a = Act_running) (activities s) \<and>
     \<not> list_ex (\<lambda>v. ses_run_id v = rid \<and> ses_state v = S_RUNNING) (sessions s)"

definition settle_control_request :: "env \<Rightarrow> string \<Rightarrow> string \<Rightarrow> db \<Rightarrow> err + RunRow \<times> db" where
  "settle_control_request e rid actor s =
     bind_err (read_run rid s) (\<lambda>run.
       if run_state run \<notin> {R_PAUSING, R_CANCELLING} then Inr (run, s)
       else if \<not> safe_boundary rid s then Inr (run, s)
       else transition e rid (control_target (run_state run)) actor (Some (run_revision run))
         (Some ''safe_boundary_reached'') None None s)"

section \<open>What a successful call did\<close>

lemma check_idempotency_Inr:
  "check_idempotency actor scope key d s = Inr p \<longleftrightarrow>
     (case find_idempotency actor scope key s of
        None \<Rightarrow> p = None
      | Some r \<Rightarrow> idem_request_digest r = d \<and> p = Some (idem_resource_id r))"
  by (auto simp: check_idempotency_def split: option.splits)

lemma record_optional_Inr:
  "record_optional e i actor scope key d res s = Inr s' \<Longrightarrow>
     \<exists>rows. s' = s\<lparr>idempotency := idempotency s @ rows\<rparr>"
  by (auto simp: record_optional_def record_idempotency_def add_idempotency_Inr split: option.splits)
    (rule exI [of _ "[]"], simp)

definition created_payload :: "string \<Rightarrow> ExperimentRow \<Rightarrow> jval" where
  "created_payload rid x = JObj [(''champion_id'', JStr (seed_id_of rid)),
     (''experiment_id'', JStr (exp_id x)), (''state'', JStr (run_value R_CREATED))]"

definition first_run :: "env \<Rightarrow> string \<Rightarrow> ExperimentRow \<Rightarrow> bool \<Rightarrow> RunRow" where
  "first_run e rid x prepare =
     (let r = (new_run e rid (exp_id x))\<lparr>run_champion_id := Some (seed_id_of rid)\<rparr> in
      if prepare then r\<lparr>run_state := R_READY, run_revision := 3, run_event_sequence := 3\<rparr> else r)"

definition first_events :: "env \<Rightarrow> nat \<Rightarrow> string \<Rightarrow> ExperimentRow \<Rightarrow> string \<Rightarrow> bool \<Rightarrow> EventRow list" where
  "first_events e i rid x actor prepare =
     event_row e (now e) (i + 1) rid 1 ''run.created'' actor (created_payload rid x) #
     (if prepare then
        [event_row e (now e) (i + 3) rid 2 ''run.validating'' actor
           (JObj [(''from'', JStr ''created''), (''to'', JStr ''validating'')]),
         event_row e (now e) (i + 5) rid 3 ''run.ready'' actor
           (JObj [(''from'', JStr ''validating''), (''to'', JStr ''ready'')])]
      else [])"

definition first_outbox :: "env \<Rightarrow> nat \<Rightarrow> string \<Rightarrow> ExperimentRow \<Rightarrow> bool \<Rightarrow> OutboxRow list" where
  "first_outbox e i rid x prepare =
     outbox_row e (now e) (i + 1) (created_payload rid x) #
     (if prepare then
        [outbox_row e (now e) (i + 3) (JObj [(''from'', JStr ''created''), (''to'', JStr ''validating'')]),
         outbox_row e (now e) (i + 5) (JObj [(''from'', JStr ''validating''), (''to'', JStr ''ready'')])]
      else [])"

lemma row_set_fresh: "\<forall>q\<in>set t. key q \<noteq> k \<Longrightarrow> row_set key k f t = t"
  by (simp add: row_set_idle row_get_None)

lemma append_event_distinct:
  "append_event e w i rid n ty ac p s = Inr s' \<Longrightarrow> distinct (map ev_id (events s)) \<Longrightarrow>
     distinct (map ev_id (events s'))"
  by (auto simp: append_event_Inr)

lemma prepare_run_distinct:
  "prepare_run e i rid actor s = Inr s' \<Longrightarrow> distinct (map ev_id (events s)) \<Longrightarrow>
     distinct (map ev_id (events s'))"
  by (auto simp: prepare_run_def bind_err_eq_Inr set_run_def dest!: append_event_distinct)

lemma insert_run_Inr:
  assumes "insert_run e i rid x actor prepare s = Inr s'"
  shows "s' = s\<lparr>runs := runs s @ [first_run e rid x prepare],
       candidates := candidates s @ [seed_candidate e rid (exp_spec x)],
       lineage := lineage s @ [seed_lineage e i rid (exp_spec x)],
       ledgers := ledgers s @ [new_ledger rid (exp_spec x)],
       events := events s @ first_events e i rid x actor prepare,
       outbox := outbox s @ first_outbox e i rid x prepare\<rparr>" (is ?state)
    and "\<forall>q\<in>set (runs s). run_id q \<noteq> rid" (is ?runs)
    and "\<forall>q\<in>set (ledgers s). led_run_id q \<noteq> rid" (is ?ledgers)
    and "\<forall>q\<in>set (candidates s). cand_id q \<noteq> seed_id_of rid" (is ?cands)
    and "\<forall>q\<in>set (lineage s). lin_run_id q = rid \<longrightarrow> lin_sequence q \<noteq> 0" (is ?lin)
    and "distinct (map ev_id (events s)) \<longrightarrow>
      distinct (map ev_id (events s @ first_events e i rid x actor prepare))" (is ?ids)
proof -
  show ?runs ?ledgers ?cands ?lin
    using assms
    by (auto simp: insert_run_def Let_def raise_simps add_Inr conflict_defs new_run_def
        new_ledger_def seed_candidate_def seed_lineage_def set_run_def)
  have runs: "row_set run_id rid f (runs s) = runs s" for f
    using \<open>?runs\<close> by (rule row_set_fresh)
  obtain s1 s2 s3 s4 s5 where steps: "add_run (new_run e rid (exp_id x)) s = Inr s1"
    "add_candidate (seed_candidate e rid (exp_spec x)) s1 = Inr s2"
    "add_lineage (seed_lineage e i rid (exp_spec x)) s2 = Inr s3"
    "add_ledger (new_ledger rid (exp_spec x))
       (set_run rid (\<lambda>r. r\<lparr>run_champion_id := Some (seed_id_of rid)\<rparr>) s3) = Inr s4"
    "append_event e (now e) (i + 1) rid 1 ''run.created'' actor (created_payload rid x) s4 = Inr s5"
    "(if prepare then prepare_run e (i + 3) rid actor s5 else Inr s5) = Inr s'"
    using assms by (auto simp: insert_run_def Let_def bind_err_eq_Inr created_payload_def)
  have s4: "s4 = s\<lparr>runs := runs s @ [first_run e rid x False],
      candidates := candidates s @ [seed_candidate e rid (exp_spec x)],
      lineage := lineage s @ [seed_lineage e i rid (exp_spec x)],
      ledgers := ledgers s @ [new_ledger rid (exp_spec x)]\<rparr>"
    using steps(1-4)
    by (simp add: add_Inr set_run_def row_set_append row_set_Cons runs first_run_def new_run_def)
  have s5: "s5 = s4\<lparr>events := events s4 @ first_events e i rid x actor False,
      outbox := outbox s4 @ first_outbox e i rid x False\<rparr>"
    using steps(5) by (simp add: append_event_Inr first_events_def first_outbox_def)
  have "s' = s5\<lparr>runs := runs s @ [first_run e rid x True],
      events := events s @ first_events e i rid x actor True,
      outbox := outbox s @ first_outbox e i rid x True\<rparr>" if prepare
    using steps(6) that
    by (simp add: s4 s5 prepare_run_def bind_err_eq_Inr append_event_Inr set_run_def runs
        row_set_append row_set_Cons first_events_def first_outbox_def first_run_def new_run_def
        numeral_eq_Suc)
  then show ?state
    using steps(6) by (cases prepare) (simp_all add: s4 s5)
  have "events s4 = events s" by (simp add: s4)
  then have "distinct (map ev_id (events s)) \<longrightarrow> distinct (map ev_id (events s'))"
    using append_event_distinct [OF steps(5)] steps(6) prepare_run_distinct by (auto split: if_splits)
  then show ?ids using \<open>?state\<close> by simp
qed

lemma store_experiment_Inr:
  assumes "store_experiment e spec digest s = Inr s'"
  shows "\<exists>xs. s' = s\<lparr>experiments := experiments s @ xs\<rparr>"
    and "\<exists>x. get_experiment_row (experiment_id spec) s' = Some x \<and> exp_spec_digest x = digest"
proof -
  show "\<exists>xs. s' = s\<lparr>experiments := experiments s @ xs\<rparr>"
  proof (cases "get_experiment_row (experiment_id spec) s")
    case None
    with assms show ?thesis by (auto simp: store_experiment_def add_experiment_Inr)
  next
    case (Some x)
    with assms have "s' = s\<lparr>experiments := experiments s @ []\<rparr>"
      by (auto simp: store_experiment_def split: if_splits)
    then show ?thesis by blast
  qed
  show "\<exists>x. get_experiment_row (experiment_id spec) s' = Some x \<and> exp_spec_digest x = digest"
    using assms
    by (auto simp: store_experiment_def add_experiment_Inr get_experiment_row_def row_get_append
        row_get_Cons split: option.splits if_splits)
qed

lemma create_experiment_Inr:
  assumes "create_experiment e spec actor key s = Inr (d, s')"
  shows "\<exists>xs rows. s' = s\<lparr>experiments := experiments s @ xs, idempotency := idempotency s @ rows\<rparr>"
proof -
  have "s' = s \<or> (\<exists>t. store_experiment e spec (canonical_digest e (D_experiment spec)) s = Inr t \<and>
      (s' = t \<or> (\<exists>r. s' = t\<lparr>idempotency := idempotency t @ [r]\<rparr>)))"
    using assms
    by (auto simp: create_experiment_def Let_def raise_simps record_idempotency_def
        add_idempotency_Inr split: if_splits option.splits)
  then consider "s' = s"
    | t where "store_experiment e spec (canonical_digest e (D_experiment spec)) s = Inr t" "s' = t"
    | t r where "store_experiment e spec (canonical_digest e (D_experiment spec)) s = Inr t"
        "s' = t\<lparr>idempotency := idempotency t @ [r]\<rparr>"
    by blast
  then show ?thesis
  proof cases
    case 1
    then have "s' = s\<lparr>experiments := experiments s @ [], idempotency := idempotency s @ []\<rparr>" by simp
    then show ?thesis by blast
  next
    case 2
    with store_experiment_Inr(1) obtain xs where "s' = s\<lparr>experiments := experiments s @ xs\<rparr>"
      by blast
    then have "s' = s\<lparr>experiments := experiments s @ xs, idempotency := idempotency s @ []\<rparr>" by simp
    then show ?thesis by blast
  next
    case (3 t r)
    from store_experiment_Inr(1) [OF 3(1)] obtain xs where "t = s\<lparr>experiments := experiments s @ xs\<rparr>"
      by blast
    with 3(2) have "s' = s\<lparr>experiments := experiments s @ xs, idempotency := idempotency s @ [r]\<rparr>" by simp
    then show ?thesis by blast
  qed
qed

lemma record_optional_frame:
  assumes "record_optional e i actor scope key d res s = Inr s'"
  shows "\<exists>rows. s' = s\<lparr>idempotency := rows\<rparr>"
  using record_optional_Inr [OF assms] by blast

lemma perform_create_Inr:
  assumes "perform_create e i rid xid actor prepare key scope d s = Inr (r, s')"
  obtains (exists) run where "get_run rid s = Some run" "r = rid" "s' = s"
  | (fresh) x t rows where "get_experiment_row xid s = Some x" "get_run rid s = None"
      "insert_run e i rid x actor prepare s = Inr t" "s' = t\<lparr>idempotency := rows\<rparr>" "r = rid"
  using assms
  by (cases "get_run rid s")
    (auto simp: perform_create_def raise_simps split: if_splits dest!: record_optional_frame)

lemma create_run_Inr:
  assumes "create_run e xid actor given prepare key s = Inr (rid, s')"
  obtains (replay) "s' = s"
  | (fresh) i x t rows where "get_experiment_row xid s = Some x" "get_run rid s = None"
      "insert_run e i rid x actor prepare s = Inr t" "s' = t\<lparr>idempotency := rows\<rparr>"
proof -
  from assms consider "s' = s"
    | i r scope d where "perform_create e i r xid actor prepare key scope d s = Inr (rid, s')"
    unfolding create_run_def Let_def raise_simps by (auto split: option.splits)
  then show ?thesis
  proof cases
    case 2
    then show ?thesis by (cases rule: perform_create_Inr) (use that in auto)
  qed (use that in auto)
qed

definition moved_run :: "env \<Rightarrow> RunState \<Rightarrow> RunRow \<Rightarrow> RunRow \<Rightarrow> RunRow" where
  "moved_run e target current r = r\<lparr>run_state := target, run_revision := run_revision current + 1,
     run_event_sequence := run_event_sequence current + 1, run_updated_at := date_column e (now e)\<rparr>"

lemma moved_run_simps [simp]:
  "run_id (moved_run e target c r) = run_id r"
  "run_state (moved_run e target c r) = target"
  "run_revision (moved_run e target c r) = run_revision c + 1"
  "run_event_sequence (moved_run e target c r) = run_event_sequence c + 1"
  "run_champion_id (moved_run e target c r) = run_champion_id r"
  "run_experiment_id (moved_run e target c r) = run_experiment_id r"
  by (simp_all add: moved_run_def)

definition moved_payload :: "RunState \<Rightarrow> RunState \<Rightarrow> string option \<Rightarrow> jval" where
  "moved_payload old target reason = JObj [(''from'', JStr (run_value old)),
     (''reason'', json_opt reason), (''to'', JStr (run_value target))]"

lemma commit_transition_Inr:
  assumes "commit_transition e current target actor reason s = Inr s'"
  shows "s' = s\<lparr>runs := row_set run_id (run_id current) (moved_run e target current) (runs s),
      events := events s @ [event_row e (now e) 0 (run_id current) (run_event_sequence current + 1)
        (''run.'' @ run_value target) actor (moved_payload (run_state current) target reason)],
      outbox := outbox s @ [outbox_row e (now e) 0 (moved_payload (run_state current) target reason)]\<rparr>"
    and "\<forall>q\<in>set (events s). ev_id q \<noteq> uuid4 e 0"
  using assms
  by (auto simp: commit_transition_def Let_def append_event_Inr set_run_def moved_run_def [abs_def]
      moved_payload_def split: if_splits)

lemma perform_transition_Inr:
  assumes "perform_transition e rid target actor expected reason key scope d s = Inr (r, s')"
  obtains current t rows where "get_run rid s = Some current"
      "target \<in> set (RUN_TRANSITIONS (run_state current))"
      "expected = None \<or> expected = Some (run_revision current)"
      "commit_transition e current target actor reason s = Inr t" "s' = t\<lparr>idempotency := rows\<rparr>"
      "r = (moved_run e target current current)\<lparr>run_updated_at := now e\<rparr>"
  using assms
  by (cases expected)
    (auto simp: perform_transition_def raise_simps moved_run_def split: if_splits
      dest!: record_optional_frame)

lemma transition_Inr:
  assumes "transition e rid target actor expected reason key scope s = Inr (r, s')"
  obtains (replay) p where "key \<noteq> None" "get_run p s = Some r" "s' = s"
  | (move) current t rows where "get_run rid s = Some current"
      "target \<in> set (RUN_TRANSITIONS (run_state current))"
      "expected = None \<or> expected = Some (run_revision current)"
      "commit_transition e current target actor reason s = Inr t" "s' = t\<lparr>idempotency := rows\<rparr>"
      "r = (moved_run e target current current)\<lparr>run_updated_at := now e\<rparr>"
proof -
  from assms consider p where "key \<noteq> None" "get_run p s = Some r" "s' = s"
    | sc d where "perform_transition e rid target actor expected reason key sc d s = Inr (r, s')"
    by (auto simp: transition_def Let_def raise_simps check_optional_def split: option.splits)
  then show ?thesis
  proof cases
    case 2
    then show ?thesis by (cases rule: perform_transition_Inr) (use that in auto)
  qed (use that in auto)
qed

section \<open>Every call keeps the log and the ledgers\<close>

text \<open>Every stored specification has a budget without negative fields.\<close>

definition specs_inv :: "db \<Rightarrow> bool" where
  "specs_inv s \<longleftrightarrow> (\<forall>x\<in>set (experiments s). 0 \<le> budget (exp_spec x))"

definition core_inv :: "db \<Rightarrow> bool" where
  "core_inv s \<longleftrightarrow> log_inv s \<and> specs_inv s"

lemma core_inv_empty: "core_inv empty_db" "ledger_inv empty_db"
  by (simp_all add: core_inv_def log_inv_def ledger_inv_def specs_inv_def empty_db_def log_ok_empty
      ledger_ok_def)

lemma core_inv_frame:
  "runs t = runs s \<Longrightarrow> events t = events s \<Longrightarrow> outbox t = outbox s \<Longrightarrow>
   experiments t = experiments s \<Longrightarrow> core_inv t = core_inv s"
  by (simp add: core_inv_def log_inv_def specs_inv_def)

lemma core_inv_idempotency [simp]: "core_inv (s\<lparr>idempotency := rows\<rparr>) = core_inv s"
  by (rule core_inv_frame) simp_all

lemma first_run_log:
  "map ev_sequence (first_events e i rid x actor prepare) = [1..run_event_sequence (first_run e rid x prepare)]"
  "1 \<le> run_event_sequence (first_run e rid x prepare)"
  "run_revision (first_run e rid x prepare) = run_event_sequence (first_run e rid x prepare)"
  "run_id (first_run e rid x prepare) = rid"
  "\<forall>v\<in>set (first_events e i rid x actor prepare). ev_run_id v = rid"
  "map (\<lambda>b. (ob_event_id b, ob_payload b)) (first_outbox e i rid x prepare) =
     map (\<lambda>v. (ev_id v, ev_payload v)) (first_events e i rid x actor prepare)"
  by (auto simp: first_events_def first_run_def first_outbox_def new_run_def Let_def upto_rec1)

lemma insert_run_core:
  assumes ins: "insert_run e i rid x actor prepare s = Inr s'" and inv: "core_inv s"
  shows "core_inv s'"
proof -
  note eff = insert_run_Inr [OF ins]
  have "log_inv s'"
    using inv eff first_run_log
    by (auto simp: core_inv_def log_inv_def log_ok_def [of "runs s"] intro!: log_ok_new_run)
  then show ?thesis using inv eff(1) by (simp add: core_inv_def specs_inv_def)
qed

lemma insert_run_ledger:
  assumes ins: "insert_run e i rid x actor prepare s = Inr s'" and "ledger_inv s" "specs_inv s"
    and x: "x \<in> set (experiments s)"
  shows "ledger_inv s'"
  using assms insert_run_Inr(1,3) [OF ins]
  by (auto simp: ledger_inv_def specs_inv_def new_ledger_def intro!: ledger_ok_new)

lemma commit_transition_core:
  assumes com: "commit_transition e current target actor reason s = Inr s'" and inv: "core_inv s"
    and cur: "get_run rid s = Some current"
  shows "core_inv s'"
proof -
  note eff = commit_transition_Inr [OF com]
  from cur have rid: "run_id current = rid" by (rule run_table.get_key)
  have dist: "distinct (map run_id (runs s))"
    using inv by (auto simp: core_inv_def log_inv_def dest: log_ok_distinct)
  have same: "row_set run_id rid (moved_run e target current) (runs s) =
      row_set run_id rid (\<lambda>r. (moved_run e target current r)\<lparr>run_revision := run_revision r + 1,
        run_event_sequence := run_event_sequence r + 1\<rparr>) (runs s)"
    using cur dist
    by (auto simp: row_set_def get_run_def moved_run_def dest: row_get_mem [of run_id])
  have "log_inv s'"
    using inv cur eff(2) rid
    by (auto simp: core_inv_def log_inv_def eff(1) rid same get_run_def intro!: log_ok_append)
  then show ?thesis using inv by (simp add: core_inv_def eff(1) specs_inv_def)
qed

section \<open>Runs only advance along the table\<close>

definition run_reaches :: "RunState \<Rightarrow> RunState \<Rightarrow> bool" where
  "run_reaches = (\<lambda>a b. b \<in> set (RUN_TRANSITIONS a))\<^sup>*\<^sup>*"

definition run_moves :: "RunRow \<Rightarrow> RunRow \<Rightarrow> bool" where
  "run_moves r r' \<longleftrightarrow> run_reaches (run_state r) (run_state r') \<and>
     run_revision r \<le> run_revision r' \<and> run_experiment_id r' = run_experiment_id r"

definition run_advances :: "db \<Rightarrow> db \<Rightarrow> bool" where
  "run_advances = rows_advance get_run run_moves"

lemma run_reaches_refl [simp]: "run_reaches a a"
  by (simp add: run_reaches_def)

lemma run_reaches_step: "b \<in> set (RUN_TRANSITIONS a) \<Longrightarrow> run_reaches a b"
  by (auto simp: run_reaches_def)

lemma run_reaches_trans: "run_reaches a b \<Longrightarrow> run_reaches b c \<Longrightarrow> run_reaches a c"
  by (auto simp: run_reaches_def)

lemma run_reaches_terminal: "run_reaches a b \<Longrightarrow> run_terminal a \<Longrightarrow> b = a"
  unfolding run_reaches_def by (rule run_life.terminal_absorbing)

lemma run_moves_refl [simp]: "run_moves r r"
  by (simp add: run_moves_def)

lemma run_moves_trans: "run_moves a b \<Longrightarrow> run_moves b c \<Longrightarrow> run_moves a c"
  by (auto simp: run_moves_def intro: run_reaches_trans)

lemma run_advances_same: "runs t = runs s \<Longrightarrow> run_advances s t"
  by (simp add: run_advances_def rows_advance_same get_run_def)

lemma run_advances_refl [simp]: "run_advances s s"
  by (simp add: run_advances_same)

lemma run_advances_trans: "run_advances s t \<Longrightarrow> run_advances t u \<Longrightarrow> run_advances s u"
  unfolding run_advances_def by (rule rows_advance_trans [of run_moves]) (rule run_moves_trans)

lemma run_advances_set:
  "(\<And>r. run_id (f r) = run_id r) \<Longrightarrow> (\<And>r. get_run k s = Some r \<Longrightarrow> run_moves r (f r)) \<Longrightarrow>
     runs t = row_set run_id k f (runs s) \<Longrightarrow> run_advances s t"
  by (simp add: run_advances_def rows_advance_def get_run_def row_get_row_set)

text \<open>
  What every service call guarantees of the log: the log invariant is kept, runs move along
  the closed table with a growing revision, and the log is only extended. A call is well
  behaved when it also keeps the accounts.
\<close>

definition log_behaved :: "db \<Rightarrow> db \<Rightarrow> bool" where
  "log_behaved s s' \<longleftrightarrow> (core_inv s \<longrightarrow> core_inv s') \<and> run_advances s s' \<and> log_extends s s'"

definition well_behaved :: "db \<Rightarrow> db \<Rightarrow> bool" where
  "well_behaved s s' \<longleftrightarrow>
     log_behaved s s' \<and> (specs_inv s \<and> ledger_inv s \<longrightarrow> specs_inv s' \<and> ledger_inv s')"

lemma log_behaved_refl [simp]: "log_behaved s s"
  by (simp add: log_behaved_def)

lemma log_behaved_trans: "log_behaved s t \<Longrightarrow> log_behaved t u \<Longrightarrow> log_behaved s u"
  by (auto simp: log_behaved_def intro: run_advances_trans log_extends_trans)

lemma well_behaved_refl [simp]: "well_behaved s s"
  by (simp add: well_behaved_def)

lemma well_behaved_trans: "well_behaved s t \<Longrightarrow> well_behaved t u \<Longrightarrow> well_behaved s u"
  by (auto simp: well_behaved_def intro: log_behaved_trans)

lemma well_behaved_log: "well_behaved s s' \<Longrightarrow> log_behaved s s'"
  by (simp add: well_behaved_def)

lemma well_behaved_frame:
  "runs t = runs s \<Longrightarrow> events t = events s \<Longrightarrow> outbox t = outbox s \<Longrightarrow> ledgers t = ledgers s \<Longrightarrow>
   reservations t = reservations s \<Longrightarrow> experiments t = experiments s \<Longrightarrow> well_behaved s t"
  using core_inv_frame [of t s]
  by (simp add: well_behaved_def log_behaved_def run_advances_same log_extends_def ledger_inv_def
      specs_inv_def)

lemma append_run_event_runs:
  assumes "append_run_event e w i run ty ac p t = Inr s'"
  shows "runs s' = row_set run_id (run_id run) (advance_run e w) (runs t)"
    and "ledgers s' = ledgers t" "reservations s' = reservations t" "experiments s' = experiments t"
  using append_run_event_Inr(1) [OF assms] by simp_all

lemma append_run_event_advances:
  assumes "append_run_event e w i run ty ac p t = Inr s'"
  shows "run_advances t s'"
  using append_run_event_runs(1) [OF assms]
  by (rule run_advances_set [rotated 2]) (simp_all add: run_moves_def)

text \<open>The usual shape of a service call: other tables are written and one event is appended.\<close>

lemma log_behaved_append_set:
  assumes app: "append_run_event e w i run ty ac p t = Inr s'" and run: "get_run k s = Some run"
    and same: "runs t = row_set run_id k f (runs s)" "events t = events s" "outbox t = outbox s"
      "experiments t = experiments s"
    and f: "\<And>r. run_id (f r) = run_id r" "\<And>r. run_revision (f r) = run_revision r"
      "\<And>r. run_event_sequence (f r) = run_event_sequence r"
      "\<And>r. run_experiment_id (f r) = run_experiment_id r"
      "run_reaches (run_state run) (run_state (f run))"
  shows "log_behaved s s'"
proof -
  have "run_advances s t"
    using same(1) run f by (intro run_advances_set [where k = k and f = f]) (auto simp: run_moves_def)
  then have "run_advances s s'"
    using append_run_event_advances [OF app] by (rule run_advances_trans)
  moreover have "log_inv s'" if "core_inv s"
    using append_after_write [OF app _ run refl refl same(1-3) f(1,2,3)] that
    by (simp add: core_inv_def)
  moreover have "log_extends s s'" using append_run_event_extends [OF app same(2,3)] .
  ultimately show ?thesis
    using append_run_event_runs(4) [OF app] same(4)
    by (auto simp: log_behaved_def core_inv_def specs_inv_def)
qed

lemma well_behaved_append_set:
  assumes app: "append_run_event e w i run ty ac p t = Inr s'" and run: "get_run k s = Some run"
    and same: "runs t = row_set run_id k f (runs s)" "events t = events s" "outbox t = outbox s"
      "experiments t = experiments s"
    and f: "\<And>r. run_id (f r) = run_id r" "\<And>r. run_revision (f r) = run_revision r"
      "\<And>r. run_event_sequence (f r) = run_event_sequence r"
      "\<And>r. run_experiment_id (f r) = run_experiment_id r"
      "run_reaches (run_state run) (run_state (f run))"
    and money: "ledger_inv s \<Longrightarrow> ledger_inv t"
  shows "well_behaved s s'"
  using log_behaved_append_set [OF app run same f] append_run_event_ledger [OF app] money
    append_run_event_runs(4) [OF app] same(4)
  by (auto simp: well_behaved_def specs_inv_def)

lemma well_behaved_append:
  assumes app: "append_run_event e w i run ty ac p t = Inr s'" and run: "get_run k s = Some run"
    and same: "runs t = runs s" "events t = events s" "outbox t = outbox s"
      "experiments t = experiments s"
    and money: "ledgers t = ledgers s" "reservations t = reservations s"
  shows "well_behaved s s'"
  using assms
  by (intro well_behaved_append_set [OF app run, where f = "\<lambda>r. r"])
    (simp_all add: row_set_def ledger_inv_def)

lemma create_experiment_behaves:
  assumes "create_experiment e spec actor key s = Inr (d, s')"
  shows "run_advances s s'" "log_extends s s'" "log_inv s' = log_inv s" "ledger_inv s' = ledger_inv s"
  using create_experiment_Inr [OF assms]
  by (auto simp: run_advances_same log_extends_def log_inv_def ledger_inv_def)

lemma create_run_behaves:
  assumes "create_run e xid actor given prepare key s = Inr (rid, s')"
  shows "well_behaved s s'"
  using assms
proof (cases rule: create_run_Inr)
  case (fresh i x t rows)
  have "x \<in> set (experiments s)"
    using fresh(1) by (auto simp: get_experiment_row_def dest: row_get_SomeD)
  then have "specs_inv s \<and> ledger_inv s \<longrightarrow> ledger_inv t" "core_inv s \<longrightarrow> core_inv t"
    "specs_inv t = specs_inv s"
    using insert_run_ledger [OF fresh(3)] insert_run_core [OF fresh(3)] insert_run_Inr(1) [OF fresh(3)]
    by (auto simp: specs_inv_def)
  moreover have "run_advances s s'" "log_extends s s'"
    using insert_run_Inr(1) [OF fresh(3)] fresh(4)
    by (auto simp: run_advances_def rows_advance_def get_run_def row_get_append log_extends_def)
  ultimately show ?thesis
    using fresh(4) by (simp add: well_behaved_def log_behaved_def ledger_inv_def specs_inv_def)
qed simp

lemma commit_transition_behaves:
  assumes com: "commit_transition e current target actor reason s = Inr s'"
    and cur: "get_run rid s = Some current"
    and ok: "target \<in> set (RUN_TRANSITIONS (run_state current))"
  shows "well_behaved s s'"
proof -
  from cur have rid: "run_id current = rid" by (rule run_table.get_key)
  have "run_advances s s'"
    using cur ok commit_transition_core [OF com]
    by (intro run_advances_set [where k = rid])
      (auto simp: run_moves_def rid run_reaches_step commit_transition_Inr(1) [OF com])
  then show ?thesis
    using commit_transition_core [OF com _ cur]
    by (auto simp: well_behaved_def log_behaved_def commit_transition_Inr(1) [OF com] log_extends_def
        ledger_inv_def specs_inv_def)
qed

lemma well_behaved_idempotency [simp]:
  "well_behaved s (t\<lparr>idempotency := rows\<rparr>) = well_behaved s t"
  by (simp add: well_behaved_def log_behaved_def run_advances_def rows_advance_def get_run_def
      log_extends_def ledger_inv_def specs_inv_def)

lemma transition_behaves:
  "transition e rid target actor expected reason key scope s = Inr (r, s') \<Longrightarrow> well_behaved s s'"
  by (erule transition_Inr) (auto intro: commit_transition_behaves)

lemma settle_control_request_behaves:
  "settle_control_request e rid actor s = Inr (r, s') \<Longrightarrow> well_behaved s s'"
  by (auto simp: settle_control_request_def raise_simps split: if_splits intro: transition_behaves)

section \<open>The service as a whole\<close>

datatype run_call =
    Create_experiment ExperimentSpec "string option" "string option"
  | Create_run string string "string option" bool "string option"
  | Transition string RunState string "int option" "string option" "string option" "string option"
  | Settle_control string string

fun run_step :: "env \<times> run_call \<Rightarrow> db \<Rightarrow> err + string \<times> db" where
  "run_step (e, Create_experiment spec actor key) s =
     bind_err (mk_experiment (normalize_nfc e) spec) (\<lambda>spec. create_experiment e spec actor key s)"
| "run_step (e, Create_run xid actor given prepare key) s =
     create_run e xid actor given prepare key s"
| "run_step (e, Transition rid target actor expected reason key scope) s =
     bind_err (transition e rid target actor expected reason key scope s) (\<lambda>(r, s).
       Inr (run_id r, s))"
| "run_step (e, Settle_control rid actor) s =
     bind_err (settle_control_request e rid actor s) (\<lambda>(r, s). Inr (run_id r, s))"

fun_cases run_step_Inr: "run_step c s = Inr x"

lemma mk_experiment_budget: "mk_experiment nfc x = Inr y \<Longrightarrow> 0 \<le> budget y"
  by (auto simp: mk_experiment_def validate_evaluator_tiers_def raise_simps mk_usage_Inr)

lemma store_experiment_specs:
  "store_experiment e spec d s = Inr s' \<Longrightarrow> specs_inv s \<Longrightarrow> 0 \<le> budget spec \<Longrightarrow> specs_inv s'"
  by (auto simp: store_experiment_def add_experiment_Inr specs_inv_def split: option.splits if_splits)

lemma create_experiment_specs:
  assumes "create_experiment e spec actor key s = Inr (d, s')" and "specs_inv s" and "0 \<le> budget spec"
  shows "specs_inv s'"
proof -
  have idem: "specs_inv (t\<lparr>idempotency := rows\<rparr>) = specs_inv t" for t rows
    by (simp add: specs_inv_def)
  show ?thesis
    using assms store_experiment_specs
    by (auto simp: create_experiment_def Let_def raise_simps record_idempotency_def
        add_idempotency_Inr idem split: option.splits if_splits)
qed

lemma run_step_behaves:
  assumes "run_step c s = Inr (r, s')"
  shows "well_behaved s s'"
proof -
  have "well_behaved s s'" if "mk_experiment nfc x = Inr spec"
      "create_experiment e spec actor key s = Inr (r, s')" for nfc x spec e actor key
    using create_experiment_behaves [OF that(2)] create_experiment_specs [OF that(2)]
      mk_experiment_budget [OF that(1)]
    by (auto simp: well_behaved_def log_behaved_def core_inv_def)
  then show ?thesis
    using assms
    by (auto elim!: run_step_Inr simp: Inr_eq_bind_err bind_err_eq_Inr
        intro: create_run_behaves transition_behaves settle_control_request_behaves
          create_run_behaves [OF sym])
qed

text \<open>The budget service behaves as well.\<close>

lemma append_advances:
  "append_run_event e w i run ty ac p t = Inr s' \<Longrightarrow> runs t = runs s \<Longrightarrow> run_advances s s'"
  by (blast intro: run_advances_trans run_advances_same append_run_event_advances)

lemma append_specs:
  "append_run_event e w i run ty ac p t = Inr s' \<Longrightarrow> experiments t = experiments s \<Longrightarrow>
     specs_inv s' = specs_inv s"
  by (drule append_run_event_runs(4)) (simp add: specs_inv_def)

lemma budget_runs:
  "budget_reserve e rid key est actor s = Inr (x, s') \<Longrightarrow> run_advances s s' \<and> specs_inv s' = specs_inv s"
  "budget_complete e rsv act actor s = Inr (u, s') \<Longrightarrow> run_advances s s' \<and> specs_inv s' = specs_inv s"
  "budget_observe e rsv act actor s = Inr (u, s') \<Longrightarrow> run_advances s s' \<and> specs_inv s' = specs_inv s"
  "budget_hold e rsv actor s = Inr (u, s') \<Longrightarrow> run_advances s s' \<and> specs_inv s' = specs_inv s"
  "budget_release e rsv actor s = Inr (u, s') \<Longrightarrow> run_advances s s' \<and> specs_inv s' = specs_inv s"
  by (auto elim!: budget_reserve_Inr budget_complete_Inr budget_observe_Inr budget_hold_Inr
      budget_release_Inr append_advances simp: set_defs append_specs)

lemma budget_extends:
  "budget_reserve e rid key est actor s = Inr (x, s') \<Longrightarrow> log_extends s s'"
  "budget_complete e rsv act actor s = Inr (u, s') \<Longrightarrow> log_extends s s'"
  "budget_observe e rsv act actor s = Inr (u, s') \<Longrightarrow> log_extends s s'"
  "budget_hold e rsv actor s = Inr (u, s') \<Longrightarrow> log_extends s s'"
  "budget_release e rsv actor s = Inr (u, s') \<Longrightarrow> log_extends s s'"
  by (auto elim!: budget_reserve_Inr budget_complete_Inr budget_observe_Inr budget_hold_Inr
      budget_release_Inr append_run_event_extends simp: set_defs)

lemma budget_step_behaves:
  assumes "budget_step c s = Inr (r, s')"
  shows "well_behaved s s'"
proof -
  have "run_advances s s' \<and> specs_inv s' = specs_inv s \<and> log_extends s s'"
    using assms
    by (auto elim!: budget_step_Inr simp: Inr_eq_bind_err bind_err_eq_Inr mk_usage_Inr
        dest: budget_runs budget_extends)
  moreover have "log_inv s \<longrightarrow> log_inv s'" "ledger_inv s \<longrightarrow> ledger_inv s'"
    using budget_events.commit_inv [OF _ assms] budget_ledgers.commit_inv [OF _ assms] by auto
  ultimately show ?thesis by (auto simp: well_behaved_def log_behaved_def core_inv_def)
qed

interpretation run_core: transactional run_step core_inv
  by unfold_locales (auto dest!: run_step_behaves simp: well_behaved_def log_behaved_def)

interpretation run_states: monotone_service run_step well_behaved
  by unfold_locales (auto intro: well_behaved_trans run_step_behaves)

section \<open>Properties\<close>

lemma get_run_idempotency [simp]: "get_run k (s\<lparr>idempotency := rows\<rparr>) = get_run k s"
  by (simp add: get_run_def)

lemma first_run_row:
  assumes "insert_run e i rid x actor prepare s = Inr s'"
  shows "get_run rid s' = Some (first_run e rid x prepare)"
  using insert_run_Inr(1,2) [OF assms]
  by (simp add: get_run_def row_get_append row_get_Cons first_run_log(4) row_get_None
      split: option.split) (auto simp: row_get_None dest: row_get_SomeD)

text \<open>
  A new run starts complete: its row is created (or ready when prepared) with the seed
  candidate as champion, revision and event counter agree with the events written, the seed
  is stored with the lineage entry number 0, and its ledger holds the experiment's budget
  with nothing used or reserved.
\<close>

theorem create_run_starts:
  assumes "create_run e xid actor (Some rid) prepare None s = Inr (r, s')" and "rid \<noteq> []"
    and "get_run rid s = None"
  shows "\<exists>x run. get_experiment_row xid s = Some x \<and> r = rid \<and> get_run rid s' = Some run \<and>
    run_state run = (if prepare then R_READY else R_CREATED) \<and>
    run_revision run = run_event_sequence run \<and> run_experiment_id run = exp_id x \<and>
    run_champion_id run = Some (''seed-'' @ rid) \<and>
    map ev_sequence (drop (length (events s)) (events s')) = [1..run_event_sequence run] \<and>
    lineage s' = lineage s @ [seed_lineage e 0 rid (exp_spec x)] \<and>
    candidates s' = candidates s @ [seed_candidate e rid (exp_spec x)] \<and>
    get_budget rid s' = Inr (budget (exp_spec x), usage_zero, usage_zero)"
proof -
  from assms have "perform_create e 0 rid xid actor prepare None (create_scope xid)
      (create_digest e xid prepare rid) s = Inr (r, s')"
    by (simp add: create_run_def check_optional_def)
  then show ?thesis
  proof (cases rule: perform_create_Inr)
    case (exists run)
    with assms(3) show ?thesis by simp
  next
    case (fresh x t rows)
    note eff = insert_run_Inr [OF fresh(3)]
    have "get_ledger rid t = Some (new_ledger rid (exp_spec x))"
      using eff(3) unfolding eff(1)
      by (auto simp: get_ledger_def row_get_append row_get_Cons new_ledger_def row_get_None
          split: option.split dest: row_get_SomeD)
    then have "get_budget rid s' = Inr (budget (exp_spec x), usage_zero, usage_zero)"
      using fresh(4) by (simp add: get_budget_def get_ledger_def new_ledger_def)
    then show ?thesis
      using fresh eff(1) first_run_row [OF fresh(3)] first_run_log(1,3)
      by (simp add: first_run_def new_run_def seed_id_of_def Let_def)
  qed
qed

lemma perform_create_recorded:
  assumes "perform_create e i rid xid actor prepare (Some k) scope d s = Inr (r, s')"
    and "get_run rid s = None" and "find_idempotency actor scope k s = None"
  shows "check_idempotency actor scope k d s' = Inr (Some rid)"
proof -
  from assms(1,2) obtain x t where t: "insert_run e i rid x actor prepare s = Inr t"
    and rows: "idempotency s' = idempotency t @
      [idempotency_row e (i + (if prepare then 7 else 3)) actor scope k d rid]"
    by (auto simp: perform_create_def raise_simps record_optional_def record_idempotency_def
        add_idempotency_Inr)
  have "idempotency t = idempotency s" using insert_run_Inr(1) [OF t] by simp
  with assms(3) rows show ?thesis
    by (simp add: check_idempotency_def find_idempotency_def find_append idempotency_row_def)
qed

lemma create_run_explicit:
  "rid \<noteq> [] \<Longrightarrow> create_run e xid actor (Some rid) prepare key s =
     bind_err (check_optional actor (create_scope xid) key (create_digest e xid prepare rid) s)
       (\<lambda>prior. case prior of Some r \<Rightarrow> Inr (r, s)
          | None \<Rightarrow> perform_create e 0 rid xid actor prepare key (create_scope xid)
              (create_digest e xid prepare rid) s)"
  by (simp add: create_run_def Let_def)

text \<open>
  Creating a run is idempotent: with an explicit run id, repeating a successful call
  (with or without an idempotency key, at another time) returns the same id and changes
  nothing.
\<close>

theorem create_run_retry:
  assumes "create_run e xid actor (Some rid) prepare key s = Inr (r, s')" and "rid \<noteq> []"
    and "canonical_digest e' = canonical_digest e"
  shows "create_run e' xid actor (Some rid) prepare key s' = Inr (r, s')"
proof (cases "check_optional actor (create_scope xid) key (create_digest e xid prepare rid) s = Inr None")
  case False
  then show ?thesis
    using assms by (auto simp: create_run_explicit create_digest_def raise_simps split: option.splits)
next
  case True
  then have perform: "perform_create e 0 rid xid actor prepare key (create_scope xid)
      (create_digest e xid prepare rid) s = Inr (r, s')"
    using assms(1,2) by (simp add: create_run_explicit)
  then show ?thesis
  proof (cases rule: perform_create_Inr)
    case (exists run)
    then show ?thesis
      using True assms perform
      by (auto simp: create_run_explicit create_digest_def perform_create_def
          split: option.splits if_splits)
  next
    case (fresh x t rows)
    have "get_run rid s' = Some (first_run e rid x prepare)"
      using first_run_row [OF fresh(3)] fresh(4) by simp
    moreover have "get_experiment_row xid s' = Some x" "exp_id x = xid"
      using fresh(1,4) insert_run_Inr(1) [OF fresh(3)]
      by (auto simp: get_experiment_row_def dest: row_get_SomeD)
    ultimately have "perform_create e' 0 rid xid actor prepare key sc d s' = Inr (r, s')" for sc d
      using fresh(5) by (simp add: perform_create_def first_run_def new_run_def Let_def)
    moreover have "check_idempotency actor (create_scope xid) k (create_digest e xid prepare rid) s' =
        Inr (Some rid)" if "key = Some k" for k
    proof (rule perform_create_recorded)
      show "find_idempotency actor (create_scope xid) k s = None"
        using True that
        by (auto simp: check_optional_def check_idempotency_def split: option.splits if_splits)
    qed (use perform that fresh(2) in auto)
    ultimately show ?thesis
      using assms(2,3) fresh(5)
      by (cases key) (simp_all add: create_run_explicit check_optional_def create_digest_def)
  qed
qed


text \<open>
  No lost update: of two transitions that were both decided on the same revision of a
  run, after one has committed the other cannot, whatever its target, actor and clock.
\<close>

theorem transition_compare_and_swap:
  assumes "transition e rid target actor (Some n) reason None scope s = Inr (r, s')"
  shows "\<exists>x. transition e' rid target' actor' (Some n) reason' None scope' s' = Inl x"
  using assms
proof (cases rule: transition_Inr)
  case (move current t rows)
  have "get_run rid s' = Some (moved_run e target current current)"
    using move(1,5) run_table.get_key [OF move(1)]
    by (simp add: commit_transition_Inr(1) [OF move(4)] get_run_def row_get_row_set)
  moreover have "n = run_revision current" using move(3) by simp
  ultimately show ?thesis
    by (auto simp: transition_def check_optional_def perform_transition_def
        bind_err_def [of "require_transition _ _"] Let_def split: sum.splits)
qed simp

lemma filter_upto: "0 \<le> n \<Longrightarrow> filter (\<lambda>i. n < i) [1..m] = [n + 1..m]"
  by (rule sorted_distinct_set_unique) (auto intro: sorted_wrt_filter)

text \<open>
  The event feed is complete: for a run of a database with a consistent log, listing
  events after a cursor returns exactly the sequence numbers that follow it, in order and
  without a gap, up to the run's counter.
\<close>

theorem list_events_complete:
  assumes "log_inv s" and "get_run rid s = Some run" and "0 \<le> n"
  shows "map ev_sequence (list_events rid n s) = [n + 1..run_event_sequence run]"
proof -
  have run: "run \<in> set (runs s)" "run_id run = rid"
    using assms(2) by (auto simp: get_run_def dest: row_get_SomeD)
  with assms(1) have seq: "map ev_sequence (events_of rid (events s)) = [1..run_event_sequence run]"
    by (auto simp: log_inv_def log_ok_def)
  have "filter (\<lambda>v. ev_run_id v = rid \<and> n < ev_sequence v) (events s) =
      filter (\<lambda>v. n < ev_sequence v) (events_of rid (events s))"
    by (simp add: events_of_def conj_commute)
  moreover have "map ev_sequence (filter (\<lambda>v. n < ev_sequence v) (events_of rid (events s))) =
      filter (\<lambda>i. n < i) [1..run_event_sequence run]"
    unfolding seq [symmetric] by (simp add: filter_map o_def)
  moreover have "filter (\<lambda>i. n < i) [1..run_event_sequence run] = [n + 1..run_event_sequence run]"
    using assms(3) by (rule filter_upto)
  ultimately show ?thesis
    by (simp add: list_events_def sort_key_id_if_sorted)
qed

text \<open>
  Settling a pause or cancel request waits for the safe boundary: the request changes
  the run only when it is pausing or cancelling and neither an activity nor a session of it
  is running, and then it goes to paused or cancelled respectively.
\<close>

theorem settle_control_safe:
  assumes "settle_control_request e rid actor s = Inr (r, s')" and "s' \<noteq> s"
  shows "\<exists>run. get_run rid s = Some run \<and>
    (run_state run = R_PAUSING \<and> run_state r = R_PAUSED \<or>
     run_state run = R_CANCELLING \<and> run_state r = R_CANCELLED) \<and>
    (\<forall>a\<in>set (activities s). act_run_id a = rid \<longrightarrow> act_state a \<noteq> Act_running) \<and>
    (\<forall>v\<in>set (sessions s). ses_run_id v = rid \<longrightarrow> ses_state v \<noteq> S_RUNNING)"
proof -
  from assms obtain run where run: "get_run rid s = Some run"
      "run_state run \<in> {R_PAUSING, R_CANCELLING}" "safe_boundary rid s"
    and tr: "transition e rid (control_target (run_state run)) actor (Some (run_revision run))
      (Some ''safe_boundary_reached'') None None s = Inr (r, s')"
    by (auto simp: settle_control_request_def read_run_def raise_simps split: if_splits option.splits)
  from tr have "run_state r = control_target (run_state run)"
    by (cases rule: transition_Inr) auto
  with run show ?thesis
    by (auto simp: control_target_def safe_boundary_def list_ex_iff)
qed

section \<open>Evaluations\<close>

definition demo_sha :: string where
  "demo_sha = ''sha256:'' @ replicate 64 (CHR ''0'')"

definition demo_spec :: ExperimentSpec where
  "demo_spec = (let c = \<lparr>component_id = ''c'', component_version = ''1'', package_digest = demo_sha,
       capability_manifest_digest = demo_sha\<rparr>;
       v = (\<lambda>tier. \<lparr>es_component = c, es_tier = tier, es_profile_digest = demo_sha,
         es_execution_image_digest = demo_sha\<rparr>) in
     \<lparr>experiment_id = ''x'', title = ''t'', objective = ''o'', success_criteria = [''s''],
      workspace = \<lparr>source_uri = ''u'', source_revision = ''rev'', ws_source_tree_digest = demo_sha,
        allowed_paths = [''src/a''], forbidden_paths = [], required_paths = [], max_file_bytes = 1,
        max_tree_bytes = 2, submodules = ''deny'', symlinks = ''deny''\<rparr>,
      search = \<lparr>search_method = ''single_lineage_agentic'', method_version = ''1'', max_committed_candidates = 3,
        stopping_rules = [''budget'']\<rparr>,
      harness = \<lparr>hs_component = c, hs_model_config_digest = demo_sha, configuration_digest = demo_sha\<rparr>,
      development_evaluators = [v ''development''], admission_evaluators = [v ''admission''],
      audit_evaluators = [], budget = plain_usage 10, sandbox_profile_id = ''sb'',
      xs_policy_bundle_digest = demo_sha, retention_policy_id = ''rp'',
      review_policy = \<lparr>rp_required = False, rp_eligible_roles = [], rp_approvals_required = 0,
        rp_proposer_may_review = False, rp_expires_after_seconds = None\<rparr>,
      created_by = \<lparr>actor_type = ''human'', actor_id = ''op''\<rparr>\<rparr>)"

definition demo_setup :: "(env \<times> run_call) list" where
  "demo_setup = [(call_at ''a'' 1, Create_experiment demo_spec None None)]"

definition demo_experiment_db :: db where
  "demo_experiment_db = run_sessions run_step demo_setup empty_db"

definition demo_ready_db :: db where
  "demo_ready_db = snd (in_session (create_run (call_at ''b'' 2) ''x'' ''op'' (Some ''r'') True None)
     demo_experiment_db)"

lemma demo_create: "create_run (call_at ''b'' 2) ''x'' ''op'' (Some ''r'') True None demo_experiment_db =
    Inr (''r'', demo_ready_db)"
  by code_simp

lemma demo_create_fresh: "get_run ''r'' demo_experiment_db = None"
  by code_simp

theorem create_run_starts_witness:
  "\<exists>x run. get_experiment_row ''x'' demo_experiment_db = Some x \<and> get_run ''r'' demo_ready_db = Some run \<and>
     run_state run = R_READY \<and> run_champion_id run = Some ''seed-r'' \<and>
     get_budget ''r'' demo_ready_db = Inr (budget (exp_spec x), usage_zero, usage_zero)"
  using create_run_starts [OF demo_create _ demo_create_fresh] by auto

theorem create_run_retry_witness:
  "create_run (call_at ''z'' 99) ''x'' ''op'' (Some ''r'') True None demo_ready_db = Inr (''r'', demo_ready_db)"
  using create_run_retry [OF demo_create] by (simp add: call_at_def)

lemma demo_run_row: "get_run ''r'' demo_db = Some demo_run"
  by code_simp

lemma demo_digits: "show_int 7 = ''7''" "show_int 1 = ''1''"
  by code_simp+


definition demo_pausing_db :: db where
  "demo_pausing_db = snd (in_session (transition (call_at ''b'' 2) ''r'' R_PAUSING ''op'' (Some 1) None None None)
     demo_db)"

definition demo_pausing_run :: RunRow where
  "demo_pausing_run = demo_run\<lparr>run_state := R_PAUSING, run_revision := 2, run_event_sequence := 2,
     run_updated_at := Aware 2000000 0\<rparr>"

lemma demo_transition: "transition (call_at ''b'' 2) ''r'' R_PAUSING ''op'' (Some 1) None None None demo_db =
    Inr (demo_pausing_run, demo_pausing_db)"
  by code_simp

theorem transition_compare_and_swap_witness:
  "\<exists>x. transition (call_at ''c'' 3) ''r'' R_CANCELLING ''other'' (Some 1) None None None demo_pausing_db = Inl x"
  using transition_compare_and_swap [OF demo_transition] by blast

theorem list_events_complete_witness: "map ev_sequence (list_events ''r'' 0 demo_db) = [1]"
  using list_events_complete [OF demo_log demo_run_row, of 0] by (simp add: demo_run_def)

definition demo_paused_db :: db where
  "demo_paused_db = snd (in_session (settle_control_request (call_at ''c'' 3) ''r'' ''op'') demo_pausing_db)"

definition demo_paused_run :: RunRow where
  "demo_paused_run = demo_run\<lparr>run_state := R_PAUSED, run_revision := 3, run_event_sequence := 3,
     run_updated_at := Aware 3000000 0\<rparr>"

lemma demo_settle: "settle_control_request (call_at ''c'' 3) ''r'' ''op'' demo_pausing_db =
    Inr (demo_paused_run, demo_paused_db)"
  by code_simp

lemma demo_settle_changes: "demo_paused_db \<noteq> demo_pausing_db"
  by code_simp

theorem settle_control_safe_witness:
  "\<exists>run. get_run ''r'' demo_pausing_db = Some run \<and>
    (run_state run = R_PAUSING \<and> run_state demo_paused_run = R_PAUSED \<or>
     run_state run = R_CANCELLING \<and> run_state demo_paused_run = R_CANCELLED)"
  using settle_control_safe [OF demo_settle demo_settle_changes] by blast

end
