(* ===== verification/ActivitySvc.thy ===== *)
theory ActivitySvc
  imports RunSvc
begin

text \<open>
  The durable activity journal (application/activity\_service.py): enqueue, the lease-based
  claim, completion, heartbeat and the move to reconciliation. A claim raises the lease
  epoch, and completion and heartbeat are fenced by owner and epoch.
\<close>

section \<open>Operations\<close>

definition activity_append_event ::
  "env \<Rightarrow> py_datetime \<Rightarrow> nat \<Rightarrow> RunRow \<Rightarrow> string \<Rightarrow> string \<Rightarrow> jval \<Rightarrow> db \<Rightarrow> err + db" where
  "activity_append_event = append_run_event"

definition find_activity :: "string \<Rightarrow> string \<Rightarrow> db \<Rightarrow> ActivityRow option" where
  "find_activity rid key s = find (\<lambda>a. act_run_id a = rid \<and> act_key a = key) (activities s)"

definition new_activity ::
  "env \<Rightarrow> string \<Rightarrow> string \<Rightarrow> string \<Rightarrow> string option \<Rightarrow> string option \<Rightarrow> ActivityRow" where
  "new_activity e rid key input session reservation =
     \<lparr>act_id = uuid4 e 0, act_run_id = rid, act_session_id = session,
      act_reservation_id = reservation, act_key = key, act_state = Act_queued,
      act_attempt_count = 0, act_lease_epoch = 0, act_lease_owner = None,
      act_lease_expires_at = None, act_input_digest = input, act_result_digest = None,
      act_error = None, act_created_at = date_column e (now e),
      act_updated_at = date_column e (now e)\<rparr>"

definition activity_enqueue ::
  "env \<Rightarrow> string \<Rightarrow> string \<Rightarrow> string \<Rightarrow> string \<Rightarrow> string option \<Rightarrow> string option \<Rightarrow> db \<Rightarrow>
     err + string \<times> db" where
  "activity_enqueue e rid key input actor session reservation s =
     (case find_activity rid key s of
        Some existing \<Rightarrow>
          if act_input_digest existing \<noteq> input
          then Inl (ActivityConflictError ''activity_key has a different input digest'')
          else if act_session_id existing \<noteq> session \<or> act_reservation_id existing \<noteq> reservation
          then Inl (ActivityConflictError ''activity_key has different lifecycle context'')
          else Inr (act_id existing, s)
      | None \<Rightarrow>
          (case get_run rid s of
             None \<Rightarrow> Inl (LookupError (''run not found: '' @ rid))
           | Some run \<Rightarrow>
               bind_err (add_activity (new_activity e rid key input session reservation) s) (\<lambda>s.
               bind_err (activity_append_event e (now e) 1 run ''activity.queued'' actor
                 (JObj [(''activity_id'', JStr (uuid4 e 0)), (''activity_key'', JStr key)]) s) (\<lambda>s.
               Inr (uuid4 e 0, s)))))"

text \<open>
  The claim's query: queued activities, and running ones whose lease has expired without a
  result, of runs that are running, ordered by creation time and identifier. Date columns
  are compared as stored.
\<close>

definition column_less :: "py_datetime \<Rightarrow> py_datetime \<Rightarrow> bool" where
  "column_less a b \<longleftrightarrow> wall a < wall b"

definition eligible :: "py_datetime \<Rightarrow> ActivityRow \<Rightarrow> bool" where
  "eligible claimed_at a \<longleftrightarrow>
     act_state a = Act_queued \<or>
     act_state a = Act_running \<and>
     (case act_lease_expires_at a of None \<Rightarrow> False | Some x \<Rightarrow> column_less x claimed_at) \<and>
     act_result_digest a = None"

definition schedulable :: "db \<Rightarrow> ActivityRow \<Rightarrow> bool" where
  "schedulable s a \<longleftrightarrow>
     (case get_run (act_run_id a) s of None \<Rightarrow> False | Some r \<Rightarrow> run_state r = R_RUNNING)"

definition precedes :: "ActivityRow \<Rightarrow> ActivityRow \<Rightarrow> bool" where
  "precedes a b \<longleftrightarrow>
     column_less (act_created_at a) (act_created_at b) \<or>
     wall (act_created_at a) = wall (act_created_at b) \<and> str_less (act_id a) (act_id b)"

fun first_in_order :: "ActivityRow list \<Rightarrow> ActivityRow option" where
  "first_in_order [] = None"
| "first_in_order (a # as) =
     (case first_in_order as of None \<Rightarrow> Some a
      | Some b \<Rightarrow> if precedes b a then Some b else Some a)"

definition next_activity :: "py_datetime \<Rightarrow> db \<Rightarrow> ActivityRow option" where
  "next_activity claimed_at s =
     first_in_order (filter (\<lambda>a. eligible claimed_at a \<and> schedulable s a) (activities s))"

definition claimed :: "env \<Rightarrow> string \<Rightarrow> py_datetime \<Rightarrow> py_datetime \<Rightarrow> ActivityRow \<Rightarrow> ActivityRow" where
  "claimed e worker claimed_at expires_at a =
     a\<lparr>act_state := Act_running, act_attempt_count := act_attempt_count a + 1,
       act_lease_epoch := act_lease_epoch a + 1, act_lease_owner := Some worker,
       act_lease_expires_at := Some (date_column e expires_at),
       act_updated_at := date_column e claimed_at\<rparr>"

definition claim_next ::
  "env \<Rightarrow> string \<Rightarrow> int \<Rightarrow> py_datetime option \<Rightarrow> db \<Rightarrow> err + ActivityRow option \<times> db" where
  "claim_next e worker lease_seconds at_time s =
     (let claimed_at = (case at_time of None \<Rightarrow> now e | Some t \<Rightarrow> t);
          expires_at = dt_add claimed_at (seconds lease_seconds)
      in case next_activity claimed_at s of
           None \<Rightarrow> Inr (None, s)
         | Some a \<Rightarrow>
             (let activity = claimed e worker claimed_at expires_at a in
              case get_run (act_run_id activity) s of
                None \<Rightarrow> Inl (LookupError (''run not found: '' @ act_run_id activity))
              | Some run \<Rightarrow>
                  bind_err (activity_append_event e claimed_at 0 run ''activity.claimed'' worker
                    (JObj [(''activity_id'', JStr (act_id activity)),
                       (''attempt_count'', JInt (act_attempt_count activity)),
                       (''lease_epoch'', JInt (act_lease_epoch activity))])
                    (set_activity (act_id a) (\<lambda>r. if eligible claimed_at r
                       then claimed e worker claimed_at expires_at r else r) s)) (\<lambda>s.
                  Inr (Some activity, s))))"

definition completed_row :: "env \<Rightarrow> string \<Rightarrow> ActivityRow \<Rightarrow> ActivityRow" where
  "completed_row e result a = a\<lparr>act_state := Act_completed, act_result_digest := Some result,
     act_lease_owner := None, act_lease_expires_at := None,
     act_updated_at := date_column e (now e)\<rparr>"

definition activity_complete ::
  "env \<Rightarrow> string \<Rightarrow> string \<Rightarrow> int \<Rightarrow> string \<Rightarrow> db \<Rightarrow> err + unit \<times> db" where
  "activity_complete e aid worker epoch result s =
     (case get_activity aid s of
        None \<Rightarrow> Inl (LookupError (''activity not found: '' @ aid))
      | Some activity \<Rightarrow>
          if act_state activity = Act_completed then
            if act_result_digest activity \<noteq> Some result
            then Inl (ActivityConflictError ''activity completed with another result'')
            else Inr ((), s)
          else if act_state activity \<noteq> Act_running \<or> act_lease_owner activity \<noteq> Some worker \<or>
            act_lease_epoch activity \<noteq> epoch
          then Inl (ActivityConflictError ''worker does not hold the activity lease'')
          else
            (case get_run (act_run_id activity) s of
               None \<Rightarrow> Inl (LookupError (''run not found: '' @ act_run_id activity))
             | Some run \<Rightarrow>
                 bind_err (activity_append_event e (now e) 0 run ''activity.completed'' worker
                   (JObj [(''activity_id'', JStr aid), (''lease_epoch'', JInt epoch),
                      (''result_digest'', JStr result)])
                   (set_activity aid (completed_row e result) s)) (\<lambda>s.
                 Inr ((), s))))"

definition heartbeat ::
  "env \<Rightarrow> string \<Rightarrow> string \<Rightarrow> int \<Rightarrow> int \<Rightarrow> py_datetime option \<Rightarrow> db \<Rightarrow> err + py_datetime \<times> db" where
  "heartbeat e aid worker epoch lease_seconds at_time s =
     (if lease_seconds \<le> 0 then Inl (ValueError ''lease_seconds must be positive'')
      else
        let heartbeat_at = (case at_time of None \<Rightarrow> now e | Some t \<Rightarrow> t);
            expires_at = dt_add heartbeat_at (seconds lease_seconds)
        in case get_activity aid s of
             None \<Rightarrow> Inl (LookupError (''activity not found: '' @ aid))
           | Some activity \<Rightarrow>
               if act_state activity \<noteq> Act_running \<or> act_lease_owner activity \<noteq> Some worker \<or>
                 act_lease_epoch activity \<noteq> epoch
               then Inl (ActivityConflictError ''worker does not hold a live activity lease'')
               else
                 bind_err (case act_lease_expires_at activity of None \<Rightarrow> Inr False
                   | Some x \<Rightarrow> dt_less x heartbeat_at) (\<lambda>expired.
                 if expired
                 then Inl (ActivityConflictError ''worker does not hold a live activity lease'')
                 else Inr (expires_at, set_activity aid (\<lambda>a. a\<lparr>
                   act_lease_expires_at := Some (date_column e expires_at),
                   act_updated_at := date_column e heartbeat_at\<rparr>) s)))"

definition activity_state_name :: "activity_state \<Rightarrow> string" where
  "activity_state_name st = (case st of Act_queued \<Rightarrow> ''queued'' | Act_running \<Rightarrow> ''running''
     | Act_completed \<Rightarrow> ''completed'' | Act_reconciliation_required \<Rightarrow> ''reconciliation_required''
     | Act_cancelled \<Rightarrow> ''cancelled'' | Act_failed \<Rightarrow> ''failed'')"

text \<open>
  The error dictionary of a reconciliation maps strings to strings, in the order of the
  dictionary; its JSON text has sorted keys.
\<close>

definition reason_of :: "(string \<times> string) list \<Rightarrow> string" where
  "reason_of error = (case map_of error ''reason'' of None \<Rightarrow> ''uncertain_external_state'' | Some r \<Rightarrow> r)"

fun insert_key :: "string \<times> 'v \<Rightarrow> (string \<times> 'v) list \<Rightarrow> (string \<times> 'v) list" where
  "insert_key x [] = [x]"
| "insert_key x (y # ys) = (if str_less (fst y) (fst x) then y # insert_key x ys else x # y # ys)"

definition error_json :: "(string \<times> string) list \<Rightarrow> jval" where
  "error_json error = JObj (map (\<lambda>(k, v). (k, JStr v)) (foldr insert_key error []))"

definition park_row :: "env \<Rightarrow> (string \<times> string) list \<Rightarrow> ActivityRow \<Rightarrow> ActivityRow" where
  "park_row e error a = a\<lparr>act_state := Act_reconciliation_required, act_error := Some (error_json error),
     act_lease_owner := None, act_lease_expires_at := None,
     act_updated_at := date_column e (now e)\<rparr>"

definition block_run :: "RunRow \<Rightarrow> RunRow" where
  "block_run r = r\<lparr>run_state := R_BLOCKED_RECONCILIATION\<rparr>"

definition park_session :: "env \<Rightarrow> VariationSessionRow \<Rightarrow> VariationSessionRow" where
  "park_session e v = (if ses_state v = S_RUNNING
     then v\<lparr>ses_state := S_RECONCILIATION_REQUIRED, ses_updated_at := date_column e (now e)\<rparr> else v)"

definition hold_reserved :: "BudgetReservationRow \<Rightarrow> BudgetReservationRow" where
  "hold_reserved r = (if res_state r = Reserved then r\<lparr>res_state := Held\<rparr> else r)"

definition opt_write :: "('k \<Rightarrow> ('r \<Rightarrow> 'r) \<Rightarrow> db \<Rightarrow> db) \<Rightarrow> 'k option \<Rightarrow> ('r \<Rightarrow> 'r) \<Rightarrow> db \<Rightarrow> db" where
  "opt_write setter k f s = (case k of None \<Rightarrow> s | Some x \<Rightarrow> setter x f s)"

definition open_case ::
  "env \<Rightarrow> nat \<Rightarrow> ActivityRow \<Rightarrow> string \<Rightarrow> string list \<Rightarrow> ReconciliationCaseRecord" where
  "open_case e i activity reason evidence =
     \<lparr>rc_reconciliation_id = uuid4 e i, rc_run_id = act_run_id activity,
      rc_activity_id = act_id activity, rc_session_id = act_session_id activity,
      rc_reason = reason, rc_evidence_digests = evidence,
      rc_budget_reservation_id = act_reservation_id activity, rc_state = Open,
      rc_resolution = None, rc_resolution_note = None, rc_opened_at = now e,
      rc_resolved_at = None\<rparr>"

definition case_row :: "env \<Rightarrow> ReconciliationCaseRecord \<Rightarrow> ReconciliationCaseRow" where
  "case_row e rec =
     \<lparr>rec_id = rc_reconciliation_id rec, rec_run_id = rc_run_id rec,
      rec_activity_id = rc_activity_id rec, rec_session_id = rc_session_id rec,
      rec_state = Open, rec_record_digest = canonical_digest e (D_reconciliation rec),
      rec_record = rec, rec_created_at = date_column e (now e),
      rec_updated_at = date_column e (now e)\<rparr>"

definition mark_reconciliation_required ::
  "env \<Rightarrow> string \<Rightarrow> string \<Rightarrow> (string \<times> string) list \<Rightarrow> int option \<Rightarrow> db \<Rightarrow> err + unit \<times> db" where
  "mark_reconciliation_required e aid actor error epoch s =
     (case get_activity aid s of
        None \<Rightarrow> Inl (LookupError (''activity not found: '' @ aid))
      | Some activity \<Rightarrow>
          if act_state activity \<notin> {Act_running, Act_queued}
          then Inl (ActivityConflictError (''cannot reconcile activity in '' @
            activity_state_name (act_state activity)))
          else if epoch \<noteq> None \<and> act_lease_epoch activity \<noteq> the epoch
          then Inl (ActivityConflictError ''stale activity lease epoch'')
          else
            (case get_run (act_run_id activity) s of
               None \<Rightarrow> Inl (LookupError (''run not found: '' @ act_run_id activity))
             | Some run \<Rightarrow>
                 bind_err (if run_state run = R_BLOCKED_RECONCILIATION then Inr ()
                   else require_transition (RunL (run_state run)) (RunL R_BLOCKED_RECONCILIATION)) (\<lambda>_.
                 bind_err (mk_reconciliation (open_case e 0 activity (reason_of error) [])) (\<lambda>rec.
                 bind_err (add_reconciliation (case_row e rec)
                   (set_run (run_id run) block_run (set_activity aid (park_row e error) s))) (\<lambda>s.
                 bind_err (activity_append_event e (now e) 1 run ''activity.reconciliation_required'' actor
                   (JObj [(''activity_id'', JStr aid)])
                   (opt_write set_reservation (act_reservation_id activity) hold_reserved
                     (opt_write set_session (act_session_id activity) (park_session e) s))) (\<lambda>s.
                 Inr ((), s)))))))"

section \<open>The service as a whole\<close>

datatype activity_call =
    Enqueue string string string string "string option" "string option"
  | Claim string int "py_datetime option"
  | Complete_activity string string int string
  | Heartbeat string string int int "py_datetime option"
  | Mark_reconciliation string string "(string \<times> string) list" "int option"

fun activity_step :: "env \<times> activity_call \<Rightarrow> db \<Rightarrow> err + unit \<times> db" where
  "activity_step (e, Enqueue rid key input actor session reservation) s =
     bind_err (activity_enqueue e rid key input actor session reservation s) (\<lambda>(_, s). Inr ((), s))"
| "activity_step (e, Claim worker lease_seconds at_time) s =
     bind_err (claim_next e worker lease_seconds at_time s) (\<lambda>(_, s). Inr ((), s))"
| "activity_step (e, Complete_activity aid worker epoch result) s =
     activity_complete e aid worker epoch result s"
| "activity_step (e, Heartbeat aid worker epoch lease_seconds at_time) s =
     bind_err (heartbeat e aid worker epoch lease_seconds at_time s) (\<lambda>(_, s). Inr ((), s))"
| "activity_step (e, Mark_reconciliation aid actor error epoch) s =
     mark_reconciliation_required e aid actor error epoch s"

fun_cases activity_step_Inr: "activity_step c s = Inr x"

section \<open>What a successful call did\<close>

lemma activity_enqueue_Inr:
  assumes "activity_enqueue e rid key input actor session reservation s = Inr (x, s')"
  obtains (replay) a where "find_activity rid key s = Some a" "act_input_digest a = input"
      "act_session_id a = session" "act_reservation_id a = reservation" "x = act_id a" "s' = s"
  | (fresh) run t where "find_activity rid key s = None" "get_run rid s = Some run"
      "add_activity (new_activity e rid key input session reservation) s = Inr t"
      "append_run_event e (now e) 1 run ''activity.queued'' actor
         (JObj [(''activity_id'', JStr (uuid4 e 0)), (''activity_key'', JStr key)]) t = Inr s'"
      "x = uuid4 e 0"
  using assms
  by (cases "find_activity rid key s")
    (auto simp: activity_enqueue_def raise_simps activity_append_event_def split: if_splits)

lemma first_in_order_Some: "first_in_order as = Some a \<Longrightarrow> a \<in> set as"
  by (induction as arbitrary: a) (auto split: option.splits if_splits)

lemma next_activity_Some:
  assumes "next_activity t s = Some a"
  shows "a \<in> set (activities s)" "eligible t a" "schedulable s a"
  using first_in_order_Some [OF assms [unfolded next_activity_def]] by auto

lemma claim_next_Inr:
  assumes "claim_next e worker secs at_time s = Inr (x, s')"
  obtains (idle) "x = None" "s' = s" "next_activity (case at_time of None \<Rightarrow> now e | Some t \<Rightarrow> t) s = None"
  | (claim) a run c expires where
      "c = (case at_time of None \<Rightarrow> now e | Some t \<Rightarrow> t)" "expires = dt_add c (seconds secs)"
      "next_activity c s = Some a" "get_run (act_run_id a) s = Some run"
      "x = Some (claimed e worker c expires a)"
      "append_run_event e c 0 run ''activity.claimed'' worker
         (JObj [(''activity_id'', JStr (act_id a)), (''attempt_count'', JInt (act_attempt_count a + 1)),
            (''lease_epoch'', JInt (act_lease_epoch a + 1))])
         (set_activity (act_id a) (\<lambda>r. if eligible c r then claimed e worker c expires r else r) s) =
       Inr s'"
proof (cases "next_activity (case at_time of None \<Rightarrow> now e | Some t \<Rightarrow> t) s")
  case None
  with assms idle show ?thesis by (simp add: claim_next_def Let_def)
next
  case (Some a)
  with assms show ?thesis
    by (auto simp: claim_next_def Let_def raise_simps activity_append_event_def claimed_def
        intro!: claim)
qed

lemma activity_complete_Inr:
  assumes "activity_complete e aid worker epoch result s = Inr (u, s')"
  obtains (replay) a where "get_activity aid s = Some a" "act_state a = Act_completed"
      "act_result_digest a = Some result" "s' = s"
  | (finish) a run where "get_activity aid s = Some a" "act_state a = Act_running"
      "act_lease_owner a = Some worker" "act_lease_epoch a = epoch"
      "get_run (act_run_id a) s = Some run"
      "append_run_event e (now e) 0 run ''activity.completed'' worker
         (JObj [(''activity_id'', JStr aid), (''lease_epoch'', JInt epoch), (''result_digest'', JStr result)])
         (set_activity aid (completed_row e result) s) = Inr s'"
  using assms
  by (auto simp: activity_complete_def raise_simps activity_append_event_def split: if_splits)

lemma ex_Inr_False: "(\<exists>x. m = Inr x \<and> \<not> x) \<longleftrightarrow> m = Inr False"
  by (cases m) auto

lemma heartbeat_Inr:
  assumes "heartbeat e aid worker epoch secs at_time s = Inr (x, s')"
  obtains a t where "get_activity aid s = Some a" "act_state a = Act_running"
      "act_lease_owner a = Some worker" "act_lease_epoch a = epoch" "0 < secs"
      "t = (case at_time of None \<Rightarrow> now e | Some t \<Rightarrow> t)"
      "\<forall>v. act_lease_expires_at a = Some v \<longrightarrow> dt_less v t = Inr False"
      "x = dt_add t (seconds secs)"
      "s' = set_activity aid (\<lambda>a. a\<lparr>act_lease_expires_at := Some (date_column e x),
         act_updated_at := date_column e t\<rparr>) s"
  using assms
  by (auto simp: heartbeat_def Let_def raise_simps ex_Inr_False split: if_splits option.splits)

lemma mark_reconciliation_Inr:
  assumes "mark_reconciliation_required e aid actor error epoch s = Inr (u, s')"
  obtains a run rec t where "get_activity aid s = Some a"
      "act_state a \<in> {Act_running, Act_queued}" "epoch = None \<or> epoch = Some (act_lease_epoch a)"
      "get_run (act_run_id a) s = Some run"
      "run_state run = R_BLOCKED_RECONCILIATION \<or>
         R_BLOCKED_RECONCILIATION \<in> set (RUN_TRANSITIONS (run_state run))"
      "mk_reconciliation (open_case e 0 a (reason_of error) []) = Inr rec"
      "add_reconciliation (case_row e rec)
         (set_run (run_id run) block_run (set_activity aid (park_row e error) s)) = Inr t"
      "append_run_event e (now e) 1 run ''activity.reconciliation_required'' actor
         (JObj [(''activity_id'', JStr aid)])
         (opt_write set_reservation (act_reservation_id a) hold_reserved
           (opt_write set_session (act_session_id a) (park_session e) t)) = Inr s'"
  using assms
  by (cases epoch)
    (auto simp: mark_reconciliation_required_def raise_simps activity_append_event_def
      split: if_splits)

section \<open>Every call behaves\<close>

lemma activity_enqueue_behaves:
  assumes "activity_enqueue e rid key input actor session reservation s = Inr (x, s')"
  shows "well_behaved s s'"
  using assms
proof (cases rule: activity_enqueue_Inr)
  case (fresh run t)
  from fresh(3) show ?thesis
    by (intro well_behaved_append [OF fresh(4,2)]) (auto simp: add_activity_Inr)
qed simp

lemma claim_next_behaves:
  assumes "claim_next e worker secs at_time s = Inr (x, s')"
  shows "well_behaved s s'"
  using assms
proof (cases rule: claim_next_Inr)
  case (claim a run c expires)
  show ?thesis
    by (rule well_behaved_append [OF claim(6,4)]) (auto simp: set_activity_def)
qed simp

lemma activity_complete_behaves:
  assumes "activity_complete e aid worker epoch result s = Inr (u, s')"
  shows "well_behaved s s'"
  using assms
proof (cases rule: activity_complete_Inr)
  case (finish a run)
  show ?thesis
    by (rule well_behaved_append [OF finish(6,5)]) (auto simp: set_activity_def)
qed simp

lemma heartbeat_behaves:
  assumes "heartbeat e aid worker epoch secs at_time s = Inr (x, s')"
  shows "well_behaved s s'"
  using assms
proof (cases rule: heartbeat_Inr)
  case (1 a t)
  show ?thesis unfolding 1(9) by (rule well_behaved_frame) (simp_all add: set_activity_def)
qed

lemma opt_write_frame [simp]:
  "runs (opt_write set_session k f s) = runs s" "events (opt_write set_session k f s) = events s"
  "outbox (opt_write set_session k f s) = outbox s" "ledgers (opt_write set_session k f s) = ledgers s"
  "reservations (opt_write set_session k f s) = reservations s"
  "experiments (opt_write set_session k f s) = experiments s"
  "activities (opt_write set_session k f s) = activities s"
  "runs (opt_write set_reservation k g s) = runs s" "events (opt_write set_reservation k g s) = events s"
  "outbox (opt_write set_reservation k g s) = outbox s"
  "ledgers (opt_write set_reservation k g s) = ledgers s"
  "experiments (opt_write set_reservation k g s) = experiments s"
  "sessions (opt_write set_reservation k g s) = sessions s"
  "activities (opt_write set_reservation k g s) = activities s"
  by (simp_all add: opt_write_def set_session_def set_reservation_def split: option.split)

lemma hold_reserved_simps [simp]:
  "res_id (hold_reserved r) = res_id r" "res_run_id (hold_reserved r) = res_run_id r"
  "res_estimated (hold_reserved r) = res_estimated r" "active (hold_reserved r) = active r"
  "settled (hold_reserved r) = settled r" "res_actual (hold_reserved r) = res_actual r"
  by (auto simp: hold_reserved_def active_def settled_def)

lemma hold_settled: "settled r \<Longrightarrow> hold_reserved r = r"
  by (auto simp: hold_reserved_def settled_def)

text \<open>Putting a reservation on hold changes no account.\<close>

lemma ledger_ok_hold:
  assumes "ledger_ok ls rs"
  shows "ledger_ok ls (row_set res_id k hold_reserved rs)"
proof (cases "row_get res_id k rs")
  case None
  with assms show ?thesis by (simp add: row_set_idle)
next
  case (Some r)
  show ?thesis
  proof (cases "settled r")
    case True
    have "x = r" if "x \<in> set rs" "res_id x = k" for x
      using ledger_okD(2) [OF assms] Some that by (metis row_get_mem option.inject)
    then have "row_set res_id k hold_reserved rs = rs"
      using True by (auto simp: row_set_def hold_settled intro!: map_idI)
    with assms show ?thesis by simp
  next
    case False
    with assms Some show ?thesis by (intro ledger_ok_idle) auto
  qed
qed

lemma ledger_inv_hold:
  "reservations t = reservations s \<Longrightarrow> ledgers t = ledgers s \<Longrightarrow> ledger_inv s \<Longrightarrow>
     ledger_inv (opt_write set_reservation k hold_reserved t)"
  by (cases k) (auto simp: opt_write_def ledger_inv_def set_reservation_def ledger_ok_hold)

lemma block_run_simps [simp]:
  "run_id (block_run r) = run_id r" "run_revision (block_run r) = run_revision r"
  "run_event_sequence (block_run r) = run_event_sequence r"
  "run_experiment_id (block_run r) = run_experiment_id r"
  "run_champion_id (block_run r) = run_champion_id r"
  "run_state (block_run r) = R_BLOCKED_RECONCILIATION"
  by (simp_all add: block_run_def)

lemma mark_reconciliation_behaves:
  assumes "mark_reconciliation_required e aid actor error epoch s = Inr (u, s')"
  shows "well_behaved s s'"
  using assms
proof (cases rule: mark_reconciliation_Inr)
  case (1 a run rec t)
  have t: "runs t = row_set run_id (act_run_id a) block_run (runs s)" "events t = events s"
    "outbox t = outbox s" "ledgers t = ledgers s" "reservations t = reservations s"
    "experiments t = experiments s"
    using 1(7) run_table.get_key [OF 1(4)] by (auto simp: add_reconciliation_Inr set_defs)
  show ?thesis
    using 1(5) t
    by (intro well_behaved_append_set [OF 1(8,4), where f = block_run])
      (auto simp: run_reaches_step ledger_inv_hold)
qed

lemma activity_step_behaves: "activity_step c s = Inr (r, s') \<Longrightarrow> well_behaved s s'"
  by (erule activity_step_Inr)
    (auto simp: Inr_eq_bind_err intro: activity_enqueue_behaves claim_next_behaves heartbeat_behaves
      activity_complete_behaves [OF sym] mark_reconciliation_behaves [OF sym])

section \<open>Leases only advance\<close>

text \<open>
  What any call does to an activity: its identity is fixed, the lease epoch never goes back,
  and within one epoch the lease has at most one owner.
\<close>

definition lease_moves :: "ActivityRow \<Rightarrow> ActivityRow \<Rightarrow> bool" where
  "lease_moves a a' \<longleftrightarrow>
     act_run_id a' = act_run_id a \<and> act_key a' = act_key a \<and>
     act_input_digest a' = act_input_digest a \<and> act_lease_epoch a \<le> act_lease_epoch a' \<and>
     (act_lease_epoch a' = act_lease_epoch a \<and> act_lease_owner a' \<noteq> None \<longrightarrow>
        act_lease_owner a' = act_lease_owner a)"

text \<open>Within this service, moreover, a completed activity is never touched again.\<close>

definition activity_moves :: "ActivityRow \<Rightarrow> ActivityRow \<Rightarrow> bool" where
  "activity_moves a a' \<longleftrightarrow> lease_moves a a' \<and> (act_state a = Act_completed \<longrightarrow> a' = a)"

definition leases_advance :: "db \<Rightarrow> db \<Rightarrow> bool" where
  "leases_advance = rows_advance get_activity lease_moves"

definition activities_advance :: "db \<Rightarrow> db \<Rightarrow> bool" where
  "activities_advance = rows_advance get_activity activity_moves"

lemma lease_moves_refl [simp]: "lease_moves a a"
  by (simp add: lease_moves_def)

lemma lease_moves_trans: "lease_moves a b \<Longrightarrow> lease_moves b c \<Longrightarrow> lease_moves a c"
  by (auto simp: lease_moves_def)

lemma activity_moves_refl [simp]: "activity_moves a a"
  by (simp add: activity_moves_def)

lemma activity_moves_trans: "activity_moves a b \<Longrightarrow> activity_moves b c \<Longrightarrow> activity_moves a c"
  by (auto simp: activity_moves_def intro: lease_moves_trans)

lemma activities_advance_refl [simp]: "activities_advance s s"
  by (simp add: activities_advance_def rows_advance_same)

lemma activities_advance_trans:
  "activities_advance s t \<Longrightarrow> activities_advance t u \<Longrightarrow> activities_advance s u"
  unfolding activities_advance_def
  by (rule rows_advance_trans [of activity_moves]) (rule activity_moves_trans)

lemma leases_advance_trans: "leases_advance s t \<Longrightarrow> leases_advance t u \<Longrightarrow> leases_advance s u"
  unfolding leases_advance_def
  by (rule rows_advance_trans [of lease_moves]) (rule lease_moves_trans)

lemma activities_leases: "activities_advance s t \<Longrightarrow> leases_advance s t"
  by (fastforce simp: activities_advance_def leases_advance_def rows_advance_def activity_moves_def)

lemma leases_advance_same: "activities t = activities s \<Longrightarrow> leases_advance s t"
  by (simp add: leases_advance_def rows_advance_same get_activity_def)

lemma append_run_event_activities:
  "append_run_event e w i run ty ac p s = Inr s' \<Longrightarrow> activities s' = activities s"
  by (drule append_run_event_Inr(1)) simp

lemma activities_advance_set:
  assumes "activities t = row_set act_id k f (activities s)" and "\<And>a. act_id (f a) = act_id a"
    and "\<And>a. get_activity k s = Some a \<Longrightarrow> activity_moves a (f a)"
  shows "activities_advance s t"
  using assms by (auto simp: activities_advance_def rows_advance_def get_activity_def row_get_row_set)

lemma leases_advance_set:
  assumes "activities t = row_set act_id k f (activities s)" and "\<And>a. act_id (f a) = act_id a"
    and "\<And>a. get_activity k s = Some a \<Longrightarrow> lease_moves a (f a)"
  shows "leases_advance s t"
  using assms by (auto simp: leases_advance_def rows_advance_def get_activity_def row_get_row_set)

lemma claimed_simps [simp]:
  "act_id (claimed e w c x a) = act_id a" "act_run_id (claimed e w c x a) = act_run_id a"
  "act_lease_epoch (claimed e w c x a) = act_lease_epoch a + 1"
  "act_attempt_count (claimed e w c x a) = act_attempt_count a + 1"
  "act_lease_owner (claimed e w c x a) = Some w" "act_state (claimed e w c x a) = Act_running"
  "act_lease_expires_at (claimed e w c x a) = Some (date_column e x)"
  by (simp_all add: claimed_def)

lemma claimed_moves: "eligible c a \<Longrightarrow> activity_moves a (claimed e w c x a)"
  by (auto simp: activity_moves_def lease_moves_def claimed_def eligible_def)

lemma activity_enqueue_advances:
  assumes "activity_enqueue e rid key input actor session reservation s = Inr (x, s')"
  shows "activities_advance s s'"
  using assms
proof (cases rule: activity_enqueue_Inr)
  case (fresh run t)
  have "activities_advance s t"
    unfolding activities_advance_def by (rule activity_table.advance_add [OF fresh(3)]) simp
  with append_run_event_activities [OF fresh(4)] show ?thesis
    by (simp add: activities_advance_def rows_advance_def get_activity_def)
qed simp

lemma claim_next_advances:
  assumes "claim_next e worker secs at_time s = Inr (x, s')"
  shows "activities_advance s s'"
  using assms
proof (cases rule: claim_next_Inr)
  case (claim a run c expires)
  show ?thesis
    using append_run_event_activities [OF claim(6)]
    by (intro activities_advance_set [where k = "act_id a" and
          f = "\<lambda>r. if eligible c r then claimed e worker c expires r else r"])
      (auto simp: set_activity_def claimed_moves)
qed simp

lemma activity_complete_advances:
  assumes "activity_complete e aid worker epoch result s = Inr (u, s')"
  shows "activities_advance s s'"
  using assms
proof (cases rule: activity_complete_Inr)
  case (finish a run)
  show ?thesis
    using append_run_event_activities [OF finish(6)] finish(1,2)
    by (intro activities_advance_set [where k = aid and f = "completed_row e result"])
      (auto simp: set_activity_def completed_row_def activity_moves_def lease_moves_def)
qed simp

lemma heartbeat_advances:
  assumes "heartbeat e aid worker epoch secs at_time s = Inr (x, s')"
  shows "activities_advance s s'"
  using assms
proof (cases rule: heartbeat_Inr)
  case (1 a t)
  then show ?thesis
    by (intro activities_advance_set [where k = aid and f = "\<lambda>a. a\<lparr>act_lease_expires_at :=
          Some (date_column e x), act_updated_at := date_column e t\<rparr>"])
      (auto simp: set_activity_def activity_moves_def lease_moves_def)
qed

lemma mark_reconciliation_advances:
  assumes "mark_reconciliation_required e aid actor error epoch s = Inr (u, s')"
  shows "activities_advance s s'"
  using assms
proof (cases rule: mark_reconciliation_Inr)
  case (1 a run rec t)
  then have "activities s' = row_set act_id aid (park_row e error) (activities s)"
    using append_run_event_activities [OF 1(8)] by (auto simp: add_reconciliation_Inr set_defs)
  then show ?thesis
    using 1(1,2)
    by (intro activities_advance_set [where k = aid and f = "park_row e error"])
      (auto simp: park_row_def activity_moves_def lease_moves_def)
qed

lemma activity_step_advances: "activity_step c s = Inr (r, s') \<Longrightarrow> activities_advance s s'"
  by (erule activity_step_Inr)
    (auto simp: Inr_eq_bind_err intro: activity_enqueue_advances claim_next_advances
      heartbeat_advances activity_complete_advances [OF sym] mark_reconciliation_advances [OF sym])

interpretation activity_log: monotone_service activity_step well_behaved
  by unfold_locales (auto intro: well_behaved_trans activity_step_behaves)

interpretation activity_leases: monotone_service activity_step activities_advance
  by unfold_locales (auto intro: activities_advance_trans activity_step_advances)

section \<open>Properties\<close>

lemma precedes_asym: "precedes a b \<Longrightarrow> \<not> precedes b a"
  by (auto simp: precedes_def column_less_def dest: str_less_asym)

lemma precedes_cotrans: "precedes a c \<Longrightarrow> precedes a b \<or> precedes b c"
  by (auto simp: precedes_def column_less_def dest: str_less_cotrans [of _ _ "act_id b"])

lemma first_in_order_None: "first_in_order as = None \<longleftrightarrow> as = []"
  by (cases as) (auto split: option.splits if_splits)

lemma first_in_order_minimal: "first_in_order as = Some a \<Longrightarrow> b \<in> set as \<Longrightarrow> \<not> precedes b a"
proof (induction as arbitrary: a b)
  case (Cons c as)
  show ?case
  proof (cases "first_in_order as")
    case None
    with Cons.prems show ?thesis by (auto simp: first_in_order_None dest: precedes_asym)
  next
    case (Some m)
    with Cons.prems Cons.IH [OF Some] show ?thesis
      by (auto split: if_splits dest: precedes_asym precedes_cotrans [of _ _ m])
  qed
qed simp

definition claim_time :: "env \<Rightarrow> py_datetime option \<Rightarrow> py_datetime" where
  "claim_time e at_time = (case at_time of None \<Rightarrow> now e | Some t \<Rightarrow> t)"

text \<open>
  C21. A claim takes the oldest work: what it returns is an activity that was queued, or
  running with an expired lease and no result, of a run in state running, and none before
  it in creation order (then identifier order) was eligible. The stored row is the returned
  one: running, owned by the worker, with attempt count and lease epoch one higher and the
  lease expiring after the requested time.
\<close>

theorem claim_takes_oldest:
  assumes "claim_next e worker secs at_time s = Inr (Some a', s')"
    and "distinct (map act_id (activities s))"
  shows "\<exists>a\<in>set (activities s).
    eligible (claim_time e at_time) a \<and> schedulable s a \<and>
    (\<forall>b\<in>set (activities s). eligible (claim_time e at_time) b \<and> schedulable s b \<longrightarrow> \<not> precedes b a) \<and>
    a' = a\<lparr>act_state := Act_running, act_attempt_count := act_attempt_count a + 1,
      act_lease_epoch := act_lease_epoch a + 1, act_lease_owner := Some worker,
      act_lease_expires_at := Some (date_column e (dt_add (claim_time e at_time) (seconds secs))),
      act_updated_at := date_column e (claim_time e at_time)\<rparr> \<and>
    get_activity (act_id a) s' = Some a'"
  using assms(1)
proof (cases rule: claim_next_Inr)
  case (claim a run c expires)
  note a = next_activity_Some [OF claim(3)]
  have c: "c = claim_time e at_time" using claim(1) by (simp add: claim_time_def)
  have "\<forall>b\<in>set (activities s). eligible c b \<and> schedulable s b \<longrightarrow> \<not> precedes b a"
    using first_in_order_minimal claim(3) by (auto simp: next_activity_def)
  moreover have "get_activity (act_id a) s = Some a"
    using a(1) assms(2) by (simp add: get_activity_def row_get_mem)
  then have "get_activity (act_id a) s' = Some a'"
    using append_run_event_activities [OF claim(6)] a(2) claim(5)
    by (simp add: get_activity_def set_activity_def row_get_row_set)
  ultimately show ?thesis
    using a claim(2,5) c by (intro bexI [of _ a]) (simp_all add: claimed_def)
qed simp

lemma append_succeeds:
  assumes "log_inv s" and "get_run k s = Some run" and "runs t = runs s" "events t = events s"
    "outbox t = outbox s" and "\<forall>v\<in>set (events s). ev_id v \<noteq> uuid4 e i"
    and "\<forall>b\<in>set (outbox s). ob_id b \<noteq> uuid4 e (Suc i)"
  shows "\<exists>s'. append_run_event e w i run ty ac p t = Inr s'"
proof -
  have run: "run \<in> set (runs s)" "run_id run = k"
    using assms(2) by (auto simp: get_run_def dest: row_get_SomeD)
  have "map ev_sequence (events_of k (events s)) = [1..run_event_sequence run]"
    using assms(1) run by (auto simp: log_inv_def log_ok_def)
  then have "set (map ev_sequence (events_of k (events s))) = {1..run_event_sequence run}"
    by (simp only: set_upto)
  then have seq: "ev_sequence v \<noteq> run_event_sequence run + 1"
    if "v \<in> set (events s)" "ev_run_id v = k" for v
    using that by (force simp: events_of_def)
  have "set (map (\<lambda>b. (ob_event_id b, ob_payload b)) (outbox s)) =
      set (map (\<lambda>v. (ev_id v, ev_payload v)) (events s))"
    using assms(1) by (simp add: log_inv_def log_ok_def)
  then have "\<forall>b\<in>set (outbox s). ob_event_id b \<noteq> uuid4 e i"
    using assms(6) by force
  then show ?thesis
    using assms run seq
    by (simp add: append_run_event_def append_event_Inr set_run_def get_run_def row_get_row_set)
qed

text \<open>
  C22. Work is never stranded: when an eligible activity of a running run exists, a claim
  returns one (the drawn event and outbox identifiers being new, as random ones are).
\<close>

theorem claim_finds_work:
  assumes "log_inv s" and "a \<in> set (activities s)" and "eligible (claim_time e at_time) a"
    and "schedulable s a" and "\<forall>v\<in>set (events s). ev_id v \<noteq> uuid4 e 0"
    and "\<forall>b\<in>set (outbox s). ob_id b \<noteq> uuid4 e 1"
  shows "\<exists>a' s'. claim_next e worker secs at_time s = Inr (Some a', s')"
proof -
  obtain b where b: "next_activity (claim_time e at_time) s = Some b"
    using assms(2,3,4) by (cases "next_activity (claim_time e at_time) s")
      (auto simp: next_activity_def first_in_order_None filter_empty_conv)
  from next_activity_Some(3) [OF b] obtain run where run: "get_run (act_run_id b) s = Some run"
    by (auto simp: schedulable_def split: option.splits)
  have "\<exists>s'. append_run_event e w 0 run ty ac p (set_activity k f s) = Inr s'" for w ty ac p k f
    using assms(1,5,6) run by (intro append_succeeds) (simp_all add: set_activity_def)
  then show ?thesis
    using b run unfolding claim_next_def claim_time_def
    by (auto simp: Let_def activity_append_event_def bind_err_eq_Inr)
qed

lemma claim_stored:
  assumes "claim_next e worker secs at_time s = Inr (Some a, s')"
    and "distinct (map act_id (activities s))"
  shows "get_activity (act_id a) s' = Some a"
  using assms(1)
proof (cases rule: claim_next_Inr)
  case (claim a0 run c expires)
  note next_activity_Some [OF claim(3)]
  then have "get_activity (act_id a0) s = Some a0" "eligible c a0"
    using assms(2) by (simp_all add: get_activity_def row_get_mem)
  then show ?thesis
    using append_run_event_activities [OF claim(6)] claim(5)
    by (simp add: get_activity_def set_activity_def row_get_row_set)
qed simp

lemma claim_returns:
  assumes "claim_next e worker secs at_time s = Inr (Some a, s')"
  shows "act_state a = Act_running \<and> act_lease_owner a = Some worker \<and>
    act_lease_expires_at a = Some (date_column e (dt_add (claim_time e at_time) (seconds secs)))"
  using assms by (cases rule: claim_next_Inr) (simp_all add: claim_time_def)

text \<open>
  Leases fence: once an activity has been claimed at some epoch, then through any later
  sequence of activity calls a completion or heartbeat presenting an earlier epoch is
  refused, unless the activity is already completed (when a completion with the recorded
  result is a harmless replay).
\<close>

theorem stale_lease_fenced:
  assumes "claim_next e worker secs at_time s = Inr (Some a, s')"
    and "distinct (map act_id (activities s))" and "epoch < act_lease_epoch a" and "0 < secs'"
    and "get_activity (act_id a) (run_sessions activity_step cs s') = Some b"
  shows "heartbeat e' (act_id a) worker' epoch secs' t' (run_sessions activity_step cs s') =
      Inl (ActivityConflictError ''worker does not hold a live activity lease'') \<and>
    (act_state b \<noteq> Act_completed \<longrightarrow>
      activity_complete e' (act_id a) worker' epoch result (run_sessions activity_step cs s') =
        Inl (ActivityConflictError ''worker does not hold the activity lease''))"
proof -
  have "get_activity (act_id a) s' = Some a" using assms(1,2) by (rule claim_stored)
  with activity_leases.sessions_le [of s' cs] assms(5) have "activity_moves a b"
    by (auto simp: activities_advance_def dest: rows_advanceD)
  with assms(3) have "act_lease_epoch b \<noteq> epoch" by (simp add: activity_moves_def lease_moves_def)
  with assms(4,5) show ?thesis by (simp add: heartbeat_def activity_complete_def Let_def)
qed

text \<open>
  A completion is recorded once: after it, through any later sequence of activity calls,
  the row is unchanged, repeating the completion with the same result succeeds without a
  change, and another result is refused.
\<close>

theorem completion_final:
  assumes "activity_complete e aid worker epoch result s = Inr (u, s')"
  shows "let final = run_sessions activity_step cs s' in
    get_activity aid final = get_activity aid s' \<and>
    activity_complete e' aid worker' epoch' result final = Inr ((), final) \<and>
    (other \<noteq> result \<longrightarrow> activity_complete e' aid worker' epoch' other final =
       Inl (ActivityConflictError ''activity completed with another result''))"
proof -
  obtain a where a: "get_activity aid s' = Some a" "act_state a = Act_completed"
    "act_result_digest a = Some result"
    using assms(1)
  proof (cases rule: activity_complete_Inr)
    case (replay a)
    then show ?thesis using that by simp
  next
    case (finish a run)
    then have "get_activity aid s' = Some (completed_row e result a)"
      using append_run_event_activities [OF finish(6)]
      by (simp add: get_activity_def set_activity_def row_get_row_set completed_row_def)
    then show ?thesis by (rule that) (simp_all add: completed_row_def)
  qed
  have "get_activity aid (run_sessions activity_step cs s') = Some a"
    using activity_leases.sessions_le [of s' cs] a
    by (auto simp: activities_advance_def activity_moves_def dest: rows_advanceD)
  with a show ?thesis by (simp add: activity_complete_def Let_def)
qed

text \<open>
  Renewing a live lease fails: on a store whose date columns drop the time zone, the
  worker that holds the lease, calling heartbeat with the service's own clock, gets a
  \<open>TypeError\<close> (the stored expiry is naive, the clock aware) and the lease is not extended.
\<close>

theorem live_heartbeat_fails:
  assumes "claim_next e worker secs at_time s = Inr (Some a, s')" and "drops_tzinfo e"
    and "distinct (map act_id (activities s))" and "0 < secs'"
  shows "in_session (heartbeat e' (act_id a) worker (act_lease_epoch a) secs' None) s' =
    (Inl (TypeError ''can't compare offset-naive and offset-aware datetimes''), s')"
  using claim_stored [OF assms(1,3)] claim_returns [OF assms(1)] assms(2,4)
  by (auto simp: in_session_def heartbeat_def drops_tzinfo_def now_def Let_def)

text \<open>
  Parking an uncertain activity is one step: the activity gives up its lease and waits
  for reconciliation, its run is blocked, a reserved budget is held rather than released, a
  running session waits too, and one open case naming them is recorded.
\<close>

theorem mark_reconciliation_effect:
  assumes "mark_reconciliation_required e aid actor error epoch s = Inr (u, s')"
  shows "\<exists>a run c. get_activity aid s = Some a \<and> act_state a \<in> {Act_running, Act_queued} \<and>
    get_activity aid s' = Some (park_row e error a) \<and>
    get_run (act_run_id a) s = Some run \<and>
    get_run (act_run_id a) s' = Some (advance_run e (now e) (block_run run)) \<and>
    reconciliations s' = reconciliations s @ [c] \<and> rec_state c = Open \<and> rec_activity_id c = aid \<and>
    rec_run_id c = act_run_id a \<and>
    (\<forall>k. get_reservation k s' = (if act_reservation_id a = Some k
       then map_option hold_reserved (get_reservation k s) else get_reservation k s)) \<and>
    (\<forall>k. get_session k s' = (if act_session_id a = Some k
       then map_option (park_session e) (get_session k s) else get_session k s))"
  using assms
proof (cases rule: mark_reconciliation_Inr)
  case (1 a run rec t)
  note eff = append_run_event_Inr(1) [OF 1(8)]
  have t: "t = (set_run (run_id run) block_run (set_activity aid (park_row e error) s))
      \<lparr>reconciliations := reconciliations s @ [case_row e rec]\<rparr>"
    using 1(7) by (simp add: add_reconciliation_Inr set_defs)
  have ids: "run_id run = act_run_id a" "act_id a = aid"
    using run_table.get_key [OF 1(4)] activity_table.get_key [OF 1(1)] by auto
  have rec: "rc_activity_id rec = aid" "rc_run_id rec = act_run_id a"
    using 1(6) ids by (auto simp: mk_reconciliation_def raise_simps validate_resolution_def open_case_def
        split: if_splits)
  have "get_activity aid s' = Some (park_row e error a)"
    using 1(1) by (simp add: eff t get_activity_def set_defs row_get_row_set park_row_def)
  moreover have "get_run (act_run_id a) s' = Some (advance_run e (now e) (block_run run))"
    using 1(4) ids by (simp add: eff t get_run_def set_defs row_get_row_set)
  moreover have "reconciliations s' = reconciliations s @ [case_row e rec]"
    by (simp add: eff t opt_write_def set_defs split: option.split)
  moreover have "get_reservation k s' = (if act_reservation_id a = Some k
       then map_option hold_reserved (get_reservation k s) else get_reservation k s)" for k
    by (auto simp: eff t get_reservation_def opt_write_def set_defs row_get_row_set split: option.split)
  moreover have "get_session k s' = (if act_session_id a = Some k
       then map_option (park_session e) (get_session k s) else get_session k s)" for k
    by (auto simp: eff t get_session_def opt_write_def set_defs row_get_row_set park_session_def
        split: option.split)
  ultimately show ?thesis
    using 1(1,2,4) rec by (auto simp: case_row_def)
qed

section \<open>Evaluations\<close>

definition demo_queued :: db where
  "demo_queued = snd (in_session (activity_enqueue (call_at ''a'' 1) ''r'' ''k'' ''in'' ''op'' None None) demo_db)"

definition demo_activity :: ActivityRow where
  "demo_activity = new_activity (call_at ''a'' 1) ''r'' ''k'' ''in'' None None"

definition demo_claimed_row :: ActivityRow where
  "demo_claimed_row = claimed (call_at ''b'' 2) ''w1'' (Aware 2000000 0) (Aware 32000000 0) demo_activity"

definition demo_claimed :: db where
  "demo_claimed = snd (in_session (claim_next (call_at ''b'' 2) ''w1'' 30 None) demo_queued)"

lemma demo_claim: "claim_next (call_at ''b'' 2) ''w1'' 30 None demo_queued = Inr (Some demo_claimed_row, demo_claimed)"
  by code_simp

lemma demo_activity_ids: "distinct (map act_id (activities demo_queued))"
  by code_simp

theorem claim_takes_oldest_witness:
  "\<exists>a\<in>set (activities demo_queued). eligible (claim_time (call_at ''b'' 2) None) a \<and>
    schedulable demo_queued a \<and> get_activity (act_id a) demo_claimed = Some demo_claimed_row"
  using claim_takes_oldest [OF demo_claim demo_activity_ids] by blast

lemma demo_queued_log: "log_inv demo_queued"
proof -
  have "activity_step (call_at ''a'' 1, Enqueue ''r'' ''k'' ''in'' ''op'' None None) demo_db = Inr ((), demo_queued)"
    by code_simp
  then have "well_behaved demo_db demo_queued" by (rule activity_step_behaves)
  moreover have "core_inv demo_db"
    using demo_log by (simp add: core_inv_def specs_inv_def demo_db_def empty_db_def)
  ultimately show ?thesis by (simp add: well_behaved_def log_behaved_def core_inv_def)
qed

theorem claim_finds_work_witness:
  "\<exists>a' s'. claim_next (call_at ''c'' 3) ''w2'' 30 None demo_queued = Inr (Some a', s')"
proof (rule claim_finds_work [OF demo_queued_log])
  show "demo_activity \<in> set (activities demo_queued)" by code_simp
  show "eligible (claim_time (call_at ''c'' 3) None) demo_activity" by code_simp
  show "schedulable demo_queued demo_activity" by code_simp
  show "\<forall>v\<in>set (events demo_queued). ev_id v \<noteq> uuid4 (call_at ''c'' 3) 0" by code_simp
  show "\<forall>b\<in>set (outbox demo_queued). ob_id b \<noteq> uuid4 (call_at ''c'' 3) 1" by code_simp
qed

definition demo_rival :: "(env \<times> activity_call) list" where
  "demo_rival = [(call_at ''c'' 60, Claim ''w2'' 30 None)]"

lemma demo_rival_row: "\<exists>b. get_activity (act_id demo_claimed_row)
    (run_sessions activity_step demo_rival demo_claimed) = Some b \<and> act_state b = Act_running \<and>
    act_lease_owner b = Some ''w2'' \<and> act_lease_epoch b = 2"
  by (rule exI [of _ "claimed (call_at ''c'' 60) ''w2'' (Aware 60000000 0) (Aware 90000000 0) demo_claimed_row"])
    code_simp

theorem stale_lease_fenced_witness:
  "\<exists>b. get_activity (act_id demo_claimed_row) (run_sessions activity_step demo_rival demo_claimed) = Some b \<and>
    activity_complete (call_at ''d'' 61) (act_id demo_claimed_row) ''w1'' 0 ''out''
      (run_sessions activity_step demo_rival demo_claimed) =
    Inl (ActivityConflictError ''worker does not hold the activity lease'')"
proof -
  obtain b where b: "get_activity (act_id demo_claimed_row)
      (run_sessions activity_step demo_rival demo_claimed) = Some b" "act_state b = Act_running"
    using demo_rival_row by blast
  have "0 < act_lease_epoch demo_claimed_row" by code_simp
  with stale_lease_fenced [OF demo_claim demo_activity_ids _ _ b(1), of 0 1] b show ?thesis by auto
qed

definition demo_done :: db where
  "demo_done = snd (in_session (activity_complete (call_at ''c'' 3) (act_id demo_claimed_row) ''w1'' 1 ''out'')
     demo_claimed)"

lemma demo_done_call: "activity_complete (call_at ''c'' 3) (act_id demo_claimed_row) ''w1'' 1 ''out'' demo_claimed =
    Inr ((), demo_done)"
  by code_simp

theorem completion_final_witness:
  "activity_complete (call_at ''d'' 61) (act_id demo_claimed_row) ''w9'' 7 ''out''
      (run_sessions activity_step demo_rival demo_done) =
    Inr ((), run_sessions activity_step demo_rival demo_done)"
  using completion_final [OF demo_done_call, of demo_rival] by (simp add: Let_def)

theorem live_heartbeat_fails_witness:
  "in_session (heartbeat (call_at ''c'' 3) (act_id demo_claimed_row) ''w1'' (act_lease_epoch demo_claimed_row) 30 None)
      demo_claimed =
    (Inl (TypeError ''can't compare offset-naive and offset-aware datetimes''), demo_claimed)"
  using live_heartbeat_fails [OF demo_claim call_at_drops_tzinfo demo_activity_ids, of 30] by simp

definition demo_parked :: db where
  "demo_parked = snd (in_session (mark_reconciliation_required (call_at ''c'' 3) (act_id demo_claimed_row) ''w1''
     [(''reason'', ''lost'')] (Some 1)) demo_claimed)"

lemma demo_park: "mark_reconciliation_required (call_at ''c'' 3) (act_id demo_claimed_row) ''w1''
    [(''reason'', ''lost'')] (Some 1) demo_claimed = Inr ((), demo_parked)"
  by code_simp

theorem mark_reconciliation_effect_witness:
  "\<exists>a. get_activity (act_id demo_claimed_row) demo_claimed = Some a \<and>
    get_activity (act_id demo_claimed_row) demo_parked =
      Some (park_row (call_at ''c'' 3) [(''reason'', ''lost'')] a)"
  using mark_reconciliation_effect [OF demo_park] by blast

end
