(* ===== verification/SessionSvc.thy ===== *)
theory SessionSvc
  imports ActivitySvc
begin

text \<open>
  The variation-session and private-attempt journal (application/session\_service.py):
  sessions are enqueued against the run's current champion, started one at a time, collect
  numbered attempts while running, and finish once with a result.
\<close>

section \<open>Operations\<close>

text \<open>\<open>coalesce(max(column), 0)\<close>.\<close>

definition sql_max :: "int list \<Rightarrow> int" where
  "sql_max xs = (case xs of [] \<Rightarrow> 0 | x # xs \<Rightarrow> fold max xs x)"

definition session_numbers :: "string \<Rightarrow> db \<Rightarrow> int list" where
  "session_numbers rid s = map ses_number (filter (\<lambda>v. ses_run_id v = rid) (sessions s))"

definition new_session :: "env \<Rightarrow> VariationSessionRequest \<Rightarrow> int \<Rightarrow> VariationSessionRow" where
  "new_session e request number =
     \<lparr>ses_id = vsr_session_id request, ses_run_id = vsr_run_id request, ses_number = number,
      ses_state = S_QUEUED, ses_request = request, ses_result = None, ses_usage = None,
      ses_created_at = date_column e (now e), ses_updated_at = date_column e (now e)\<rparr>"

definition session_enqueue :: "env \<Rightarrow> VariationSessionRequest \<Rightarrow> db \<Rightarrow> err + unit \<times> db" where
  "session_enqueue e request s =
     (case get_session (vsr_session_id request) s of
        Some existing \<Rightarrow>
          if canonical_digest e (D_request (ses_request existing)) \<noteq> canonical_digest e (D_request request)
          then Inl (SessionConflictError ''session_id already has a different request'')
          else Inr ((), s)
      | None \<Rightarrow>
          if (case get_run (vsr_run_id request) s of None \<Rightarrow> True
              | Some run \<Rightarrow> run_champion_id run \<noteq> Some (cr_candidate_id (champion request)))
          then Inl (SessionConflictError ''session champion is stale or run is missing'')
          else bind_err (add_session (new_session e request
                 (sql_max (session_numbers (vsr_run_id request) s) + 1)) s) (\<lambda>s. Inr ((), s)))"

definition session_start :: "env \<Rightarrow> string \<Rightarrow> db \<Rightarrow> err + unit \<times> db" where
  "session_start e sid s =
     (case get_session sid s of
        None \<Rightarrow> Inl (SessionConflictError ''session does not exist'')
      | Some row \<Rightarrow>
          if ses_state row = S_RUNNING then Inr ((), s)
          else if (case get_run (ses_run_id row) s of None \<Rightarrow> True | Some run \<Rightarrow> run_state run \<noteq> R_RUNNING)
          then Inl (SessionConflictError ''run is not schedulable'')
          else if list_ex (\<lambda>v. ses_run_id v = ses_run_id row \<and> ses_state v = S_RUNNING \<and> ses_id v \<noteq> sid)
            (sessions s)
          then Inl (SessionConflictError ''another variation session is running'')
          else
            bind_err (require_transition (SessionL (ses_state row)) (SessionL S_RUNNING)) (\<lambda>_.
            Inr ((), set_session sid (\<lambda>v. v\<lparr>ses_state := S_RUNNING,
              ses_updated_at := date_column e (now e)\<rparr>) s)))"

definition get_request :: "string \<Rightarrow> db \<Rightarrow> err + VariationSessionRequest" where
  "get_request sid s = (case get_session sid s of
     None \<Rightarrow> Inl (SessionConflictError ''session does not exist'') | Some row \<Rightarrow> Inr (ses_request row))"

definition get_state :: "string \<Rightarrow> db \<Rightarrow> err + VariationSessionState" where
  "get_state sid s = (case get_session sid s of
     None \<Rightarrow> Inl (SessionConflictError ''session does not exist'') | Some row \<Rightarrow> Inr (ses_state row))"

definition get_result :: "string \<Rightarrow> db \<Rightarrow> err + VariationSessionResult option" where
  "get_result sid s = (case get_session sid s of
     None \<Rightarrow> Inl (SessionConflictError ''session does not exist'') | Some row \<Rightarrow> Inr (ses_result row))"

definition attempt_numbers :: "string \<Rightarrow> db \<Rightarrow> int list" where
  "attempt_numbers sid s = map att_number (filter (\<lambda>v. att_session_id v = sid) (attempts s))"

definition new_attempt :: "env \<Rightarrow> VariationAttemptRecord \<Rightarrow> int \<Rightarrow> AttemptRow" where
  "new_attempt e rec number =
     \<lparr>att_id = attempt_id rec, att_session_id = var_session_id rec, att_number = number,
      att_record = rec, att_record_digest = canonical_digest e (D_attempt rec),
      att_created_at = date_column e (var_completed_at rec)\<rparr>"

definition record_attempt :: "env \<Rightarrow> VariationAttemptRecord \<Rightarrow> db \<Rightarrow> err + int \<times> db" where
  "record_attempt e rec s =
     (if (case get_session (var_session_id rec) s of None \<Rightarrow> True | Some row \<Rightarrow> ses_state row \<noteq> S_RUNNING)
      then Inl (SessionConflictError ''attempt session is not running'')
      else
        (case get_attempt (attempt_id rec) s of
           Some existing \<Rightarrow>
             if att_record_digest existing \<noteq> canonical_digest e (D_attempt rec)
             then Inl (SessionConflictError ''attempt_id has conflicting evidence'')
             else Inr (att_number existing, s)
         | None \<Rightarrow>
             let number = sql_max (attempt_numbers (var_session_id rec) s) + 1
             in bind_err (add_attempt (new_attempt e rec number) s) (\<lambda>s. Inr (number, s))))"

definition finish_row :: "env \<Rightarrow> VariationSessionResult \<Rightarrow> VariationSessionRow \<Rightarrow> VariationSessionRow" where
  "finish_row e result v = v\<lparr>ses_state := session_outcome_state (vres_outcome result),
     ses_result := Some result, ses_usage := Some (vres_usage result),
     ses_updated_at := date_column e (now e)\<rparr>"

definition session_finish :: "env \<Rightarrow> VariationSessionResult \<Rightarrow> db \<Rightarrow> err + unit \<times> db" where
  "session_finish e result s =
     (case get_session (vres_session_id result) s of
        None \<Rightarrow> Inl (SessionConflictError ''session does not exist'')
      | Some row \<Rightarrow>
          (case ses_result row of
             Some prior \<Rightarrow>
               if canonical_digest e (D_result prior) \<noteq> canonical_digest e (D_result result)
               then Inl (SessionConflictError ''session already has a different result'')
               else Inr ((), s)
           | None \<Rightarrow>
               bind_err (require_transition (SessionL (ses_state row))
                 (SessionL (session_outcome_state (vres_outcome result)))) (\<lambda>_.
               Inr ((), set_session (vres_session_id result) (finish_row e result) s))))"

section \<open>The service as a whole\<close>

text \<open>A result of the contract: its usage and its proposal are checked when it is built.\<close>

definition mk_session_result :: "VariationSessionResult \<Rightarrow> err + VariationSessionResult" where
  "mk_session_result r = bind_err (mk_usage (vres_usage r)) (\<lambda>_. proposal_requires_workspace r)"

datatype session_call =
    Enqueue_session VariationSessionRequest
  | Start_session string
  | Record_attempt VariationAttemptRecord
  | Finish_session VariationSessionResult

fun session_step :: "env \<times> session_call \<Rightarrow> db \<Rightarrow> err + unit \<times> db" where
  "session_step (e, Enqueue_session request) s = session_enqueue e request s"
| "session_step (e, Start_session sid) s = session_start e sid s"
| "session_step (e, Record_attempt rec) s =
     bind_err (record_attempt e rec s) (\<lambda>(_, s). Inr ((), s))"
| "session_step (e, Finish_session result) s =
     bind_err (mk_session_result result) (\<lambda>result. session_finish e result s)"

fun_cases session_step_Inr: "session_step c s = Inr x"

lemmas session_step_cases = session_step_Inr [consumes 1, case_names queue launch attempt conclude]

section \<open>What a successful call did\<close>

lemma session_enqueue_Inr:
  assumes "session_enqueue e request s = Inr (u, s')"
  obtains (replay) v where "get_session (vsr_session_id request) s = Some v" "s' = s"
  | (fresh) run where "get_session (vsr_session_id request) s = None"
      "get_run (vsr_run_id request) s = Some run"
      "run_champion_id run = Some (cr_candidate_id (champion request))"
      "add_session (new_session e request (sql_max (session_numbers (vsr_run_id request) s) + 1)) s = Inr s'"
  using assms
  by (cases "get_session (vsr_session_id request) s")
    (auto simp: session_enqueue_def raise_simps split: option.splits if_splits)

lemma session_start_Inr:
  assumes "session_start e sid s = Inr (u, s')"
  obtains (replay) v where "get_session sid s = Some v" "ses_state v = S_RUNNING" "s' = s"
  | (start) v run where "get_session sid s = Some v" "get_run (ses_run_id v) s = Some run"
      "run_state run = R_RUNNING" "S_RUNNING \<in> set (SESSION_TRANSITIONS (ses_state v))"
      "\<forall>w\<in>set (sessions s). ses_run_id w = ses_run_id v \<and> ses_state w = S_RUNNING \<longrightarrow> ses_id w = sid"
      "s' = set_session sid (\<lambda>v. v\<lparr>ses_state := S_RUNNING, ses_updated_at := date_column e (now e)\<rparr>) s"
  using assms
  by (auto simp: session_start_def raise_simps list_ex_iff split: option.splits if_splits)

lemma record_attempt_Inr:
  assumes "record_attempt e rec s = Inr (n, s')"
  obtains (replay) a where "get_attempt (attempt_id rec) s = Some a" "n = att_number a" "s' = s"
  | (fresh) v where "get_session (var_session_id rec) s = Some v" "ses_state v = S_RUNNING"
      "n = sql_max (attempt_numbers (var_session_id rec) s) + 1"
      "add_attempt (new_attempt e rec n) s = Inr s'"
  using assms
  by (cases "get_attempt (attempt_id rec) s")
    (auto simp: record_attempt_def Let_def raise_simps split: option.splits if_splits)

lemma session_finish_Inr:
  assumes "session_finish e result s = Inr (u, s')"
  obtains (replay) v prior where "get_session (vres_session_id result) s = Some v"
      "ses_result v = Some prior"
      "canonical_digest e (D_result prior) = canonical_digest e (D_result result)" "s' = s"
  | (finish) v where "get_session (vres_session_id result) s = Some v" "ses_result v = None"
      "session_outcome_state (vres_outcome result) \<in> set (SESSION_TRANSITIONS (ses_state v))"
      "s' = set_session (vres_session_id result) (finish_row e result) s"
proof -
  from assms obtain v where v: "get_session (vres_session_id result) s = Some v"
    by (auto simp: session_finish_def split: option.splits)
  show ?thesis
  proof (cases "ses_result v")
    case None
    with assms v that(2) show ?thesis by (auto simp: session_finish_def raise_simps)
  next
    case (Some prior)
    with assms v that(1) show ?thesis by (auto simp: session_finish_def split: if_splits)
  qed
qed

lemma session_step_behaves:
  assumes "session_step c s = Inr (r, s')"
  shows "well_behaved s s'"
proof -
  have "well_behaved s s'" if "runs s' = runs s" "events s' = events s" "outbox s' = outbox s"
    "ledgers s' = ledgers s" "reservations s' = reservations s" "experiments s' = experiments s"
    using that by (rule well_behaved_frame)
  then show ?thesis
    using assms
    by (auto elim!: session_step_Inr simp: Inr_eq_bind_err
        elim!: session_enqueue_Inr [OF sym] session_start_Inr [OF sym] record_attempt_Inr session_finish_Inr
        simp: add_session_Inr add_attempt_Inr set_defs)
qed

lemma record_attempt_sessions: "record_attempt e rec s = Inr (n, s') \<Longrightarrow> sessions s' = sessions s"
  by (erule record_attempt_Inr) (auto simp: add_attempt_Inr)

section \<open>Numbering\<close>

text \<open>
  Rows of a group carry the numbers 1, 2, ... in insertion order: the shape of session
  numbers within a run and attempt numbers within a session.
\<close>

definition numbered :: "('r \<Rightarrow> 'g) \<Rightarrow> ('r \<Rightarrow> int) \<Rightarrow> 'r list \<Rightarrow> bool" where
  "numbered grp num rows \<longleftrightarrow>
     (\<forall>g. map num (filter (\<lambda>r. grp r = g) rows) = [1..int (length (filter (\<lambda>r. grp r = g) rows))])"

lemma sql_max_upto: "0 \<le> n \<Longrightarrow> sql_max [1..n] = n"
proof (induction n rule: int_ge_induct)
  case base
  then show ?case by (simp add: sql_max_def)
next
  case (step i)
  have "fold max xs (x::int) = Max (set (x # xs))" for x xs
    by (rule Max.set_eq_fold [symmetric])
  then have max: "xs \<noteq> [] \<Longrightarrow> sql_max xs = Max (set xs)" for xs
    by (cases xs) (simp_all add: sql_max_def)
  have "Max {1..i + 1} = i + 1" using step by (intro Max_eqI) auto
  then show ?case using step by (subst max) auto
qed

lemma numbered_Nil [simp]: "numbered grp num []"
  by (simp add: numbered_def)

lemma numbered_append:
  assumes "numbered grp num rows"
    and "num r = sql_max (map num (filter (\<lambda>q. grp q = grp r) rows)) + 1"
  shows "numbered grp num (rows @ [r])"
proof -
  have "map num (filter (\<lambda>q. grp q = grp r) rows) =
      [1..int (length (filter (\<lambda>q. grp q = grp r) rows))]"
    using assms(1) by (simp add: numbered_def)
  with assms(2) have "num r = int (length (filter (\<lambda>q. grp q = grp r) rows)) + 1"
    by (simp add: sql_max_upto)
  then show ?thesis
    using assms(1) by (auto simp: numbered_def upto_rec2)
qed

lemma numbered_map:
  assumes "map (\<lambda>r. (grp r, num r)) rows' = map (\<lambda>r. (grp r, num r)) rows"
  shows "numbered grp num rows' = numbered grp num rows"
proof -
  have "map num (filter (\<lambda>r. grp r = g) rs) =
      map snd (filter (\<lambda>p. fst p = g) (map (\<lambda>r. (grp r, num r)) rs))" for g rs
    by (induction rs) auto
  moreover have "length (filter (\<lambda>r. grp r = g) rs) =
      length (filter (\<lambda>p. fst p = g) (map (\<lambda>r. (grp r, num r)) rs))" for g rs
    by (induction rs) auto
  ultimately show ?thesis by (simp only: numbered_def assms)
qed

section \<open>Invariants\<close>

definition sessions_numbered :: "db \<Rightarrow> bool" where
  "sessions_numbered s \<longleftrightarrow> distinct (map ses_id (sessions s)) \<and>
     numbered ses_run_id ses_number (sessions s) \<and> numbered att_session_id att_number (attempts s)"

definition one_running :: "db \<Rightarrow> bool" where
  "one_running s \<longleftrightarrow>
     (\<forall>v\<in>set (sessions s). \<forall>w\<in>set (sessions s). ses_run_id v = ses_run_id w \<and>
        ses_state v = S_RUNNING \<and> ses_state w = S_RUNNING \<longrightarrow> ses_id v = ses_id w)"

lemma one_runningI:
  "(\<And>v w. v \<in> set (sessions s) \<Longrightarrow> w \<in> set (sessions s) \<Longrightarrow> ses_run_id v = ses_run_id w \<Longrightarrow>
      ses_state v = S_RUNNING \<Longrightarrow> ses_state w = S_RUNNING \<Longrightarrow> ses_id v = ses_id w) \<Longrightarrow> one_running s"
  unfolding one_running_def by blast

lemma one_runningD:
  "one_running s \<Longrightarrow> v \<in> set (sessions s) \<Longrightarrow> w \<in> set (sessions s) \<Longrightarrow> ses_run_id v = ses_run_id w \<Longrightarrow>
     ses_state v = S_RUNNING \<Longrightarrow> ses_state w = S_RUNNING \<Longrightarrow> ses_id v = ses_id w"
  unfolding one_running_def by blast

lemma one_running_same: "sessions t = sessions s \<Longrightarrow> one_running t = one_running s"
  unfolding one_running_def by (simp only:)

lemma sessions_numbered_set:
  assumes "sessions t = row_set ses_id k f (sessions s)" and "attempts t = attempts s"
    and "\<And>v. ses_id (f v) = ses_id v" "\<And>v. ses_run_id (f v) = ses_run_id v"
      "\<And>v. ses_number (f v) = ses_number v"
  shows "sessions_numbered t = sessions_numbered s"
proof -
  have "numbered ses_run_id ses_number (sessions t) = numbered ses_run_id ses_number (sessions s)"
    using assms by (intro numbered_map) (simp add: map_row_set)
  then show ?thesis using assms by (simp add: sessions_numbered_def distinct_row_set)
qed

lemma session_step_numbered:
  assumes "session_step c s = Inr (r, s')" and "sessions_numbered s"
  shows "sessions_numbered s'"
  using assms(1)
proof (cases rule: session_step_cases)
  case (queue e request)
  then have "session_enqueue e request s = Inr (r, s')" by simp
  then show ?thesis
  proof (cases rule: session_enqueue_Inr)
    case (fresh run)
    with assms(2) show ?thesis
      by (auto simp: sessions_numbered_def add_session_Inr session_conflict_def new_session_def
          session_numbers_def intro!: numbered_append)
  qed (use assms(2) in simp)
next
  case (launch e sid)
  then have "session_start e sid s = Inr (r, s')" by simp
  then show ?thesis
  proof (cases rule: session_start_Inr)
    case (start v run)
    with assms(2) sessions_numbered_set [of s' sid _ s] show ?thesis
      by (simp add: set_session_def)
  qed (use assms(2) in simp)
next
  case (attempt e rec)
  then obtain n where "record_attempt e rec s = Inr (n, s')" by (auto simp: Inr_eq_bind_err)
  then show ?thesis
  proof (cases rule: record_attempt_Inr)
    case (fresh v)
    with assms(2) show ?thesis
      by (auto simp: sessions_numbered_def add_attempt_Inr new_attempt_def attempt_numbers_def
          intro!: numbered_append)
  qed (use assms(2) in simp)
next
  case (conclude e result)
  then obtain result' where "session_finish e result' s = Inr (r, s')" by (auto simp: Inr_eq_bind_err)
  then show ?thesis
  proof (cases rule: session_finish_Inr)
    case (finish v)
    with assms(2) sessions_numbered_set [of s' "vres_session_id result'" _ s] show ?thesis
      by (simp add: set_session_def finish_row_def)
  qed (use assms(2) in simp)
qed

text \<open>At most one session of a run is running, as far as this service is concerned.\<close>

lemma one_running_set:
  assumes "one_running s" and "sessions t = row_set ses_id k f (sessions s)"
    and "\<And>v. ses_id (f v) = ses_id v" "\<And>v. ses_run_id (f v) = ses_run_id v"
    and "\<And>v w. v \<in> set (sessions s) \<Longrightarrow> ses_id v = k \<Longrightarrow> ses_state (f v) = S_RUNNING \<Longrightarrow>
       w \<in> set (sessions s) \<Longrightarrow> ses_run_id w = ses_run_id v \<Longrightarrow> ses_state w = S_RUNNING \<Longrightarrow> ses_id w = k"
  shows "one_running t"
proof (rule one_runningI)
  fix v' w' assume mem: "v' \<in> set (sessions t)" "w' \<in> set (sessions t)"
    and run: "ses_run_id v' = ses_run_id w'" "ses_state v' = S_RUNNING" "ses_state w' = S_RUNNING"
  from mem obtain v w where v: "v \<in> set (sessions s)" "v' = (if ses_id v = k then f v else v)"
    and w: "w \<in> set (sessions s)" "w' = (if ses_id w = k then f w else w)"
    by (auto simp: assms(2) set_row_set)
  have runs: "ses_run_id v = ses_run_id w" and ids: "ses_id v' = ses_id v" "ses_id w' = ses_id w"
    using v(2) w(2) run(1) assms(3,4) by (auto split: if_splits)
  consider "ses_id v = k" "ses_id w = k" | "ses_id v = k" "ses_id w \<noteq> k" | "ses_id v \<noteq> k" "ses_id w = k"
    | "ses_id v \<noteq> k" "ses_id w \<noteq> k" by blast
  then show "ses_id v' = ses_id w'"
  proof cases
    case 2
    then have "ses_state (f v) = S_RUNNING" "ses_state w = S_RUNNING" using v(2) w(2) run by auto
    with 2 assms(5) [OF v(1) 2(1) _ w(1) runs [symmetric]] show ?thesis by blast
  next
    case 3
    then have "ses_state (f w) = S_RUNNING" "ses_state v = S_RUNNING" using v(2) w(2) run by auto
    with 3 assms(5) [OF w(1) 3(2) _ v(1) runs] show ?thesis by blast
  next
    case 4
    then have "ses_state v = S_RUNNING" "ses_state w = S_RUNNING" using v(2) w(2) run by auto
    with one_runningD [OF assms(1) v(1) w(1) runs] show ?thesis using ids by simp
  qed (use ids in simp)
qed

lemma session_step_one_running:
  assumes "session_step c s = Inr (r, s')" and "one_running s" and "sessions_numbered s"
  shows "one_running s'"
  using assms(1)
proof (cases rule: session_step_cases)
  case (queue e request)
  then have "session_enqueue e request s = Inr (r, s')" by simp
  then show ?thesis
  proof (cases rule: session_enqueue_Inr)
    case (fresh run)
    from fresh(4) have "sessions s' = sessions s @
        [new_session e request (sql_max (session_numbers (vsr_run_id request) s) + 1)]"
      by (simp add: add_session_Inr)
    then show ?thesis
      by (intro one_runningI) (auto simp: new_session_def intro: one_runningD [OF assms(2)])
  qed (use assms(2) in simp)
next
  case (launch e sid)
  then have "session_start e sid s = Inr (r, s')" by simp
  then show ?thesis
  proof (cases rule: session_start_Inr)
    case (start v run)
    have only: "x = v" if "x \<in> set (sessions s)" "ses_id x = sid" for x
      using start(1) assms(3) that by (metis get_session_def row_get_mem sessions_numbered_def option.inject)
    show ?thesis
      using start(5) only
      by (intro one_running_set [OF assms(2), where k = sid and
            f = "\<lambda>v. v\<lparr>ses_state := S_RUNNING, ses_updated_at := date_column e (now e)\<rparr>"])
        (auto simp: start(6) set_session_def)
  qed (use assms(2) in simp)
next
  case (attempt e rec)
  then obtain n where "record_attempt e rec s = Inr (n, s')" by (auto simp: Inr_eq_bind_err)
  then show ?thesis
    using assms(2) one_running_same [OF record_attempt_sessions] by blast
next
  case (conclude e result)
  then obtain result' where "session_finish e result' s = Inr (r, s')" by (auto simp: Inr_eq_bind_err)
  then show ?thesis
  proof (cases rule: session_finish_Inr)
    case (finish v)
    then show ?thesis
      by (intro one_running_set [OF assms(2), where k = "vres_session_id result'" and f = "finish_row e result'"])
        (auto simp: set_session_def finish_row_def elim: session_outcome_state.elims)
  qed (use assms(2) in simp)
qed

section \<open>Sessions only advance along the table\<close>

definition session_reaches :: "VariationSessionState \<Rightarrow> VariationSessionState \<Rightarrow> bool" where
  "session_reaches = (\<lambda>a b. b \<in> set (SESSION_TRANSITIONS a))\<^sup>*\<^sup>*"

definition session_moves :: "VariationSessionRow \<Rightarrow> VariationSessionRow \<Rightarrow> bool" where
  "session_moves v v' \<longleftrightarrow> ses_run_id v' = ses_run_id v \<and> ses_number v' = ses_number v \<and>
     ses_request v' = ses_request v \<and> session_reaches (ses_state v) (ses_state v') \<and>
     (ses_result v \<noteq> None \<longrightarrow> ses_result v' = ses_result v)"

definition sessions_advance :: "db \<Rightarrow> db \<Rightarrow> bool" where
  "sessions_advance = rows_advance get_session session_moves"

lemma session_reaches_refl [simp]: "session_reaches a a"
  by (simp add: session_reaches_def)

lemma session_reaches_step: "b \<in> set (SESSION_TRANSITIONS a) \<Longrightarrow> session_reaches a b"
  by (auto simp: session_reaches_def)

lemma session_reaches_terminal: "session_reaches a b \<Longrightarrow> session_terminal a \<Longrightarrow> b = a"
  unfolding session_reaches_def by (rule session_life.terminal_absorbing)

lemma session_moves_refl [simp]: "session_moves v v"
  by (simp add: session_moves_def)

lemma session_moves_trans: "session_moves a b \<Longrightarrow> session_moves b c \<Longrightarrow> session_moves a c"
  by (auto simp: session_moves_def session_reaches_def)

lemma sessions_advance_same: "sessions t = sessions s \<Longrightarrow> sessions_advance s t"
  by (simp add: sessions_advance_def rows_advance_same get_session_def)

lemma sessions_advance_refl [simp]: "sessions_advance s s"
  by (simp add: sessions_advance_same)

lemma sessions_advance_trans: "sessions_advance s t \<Longrightarrow> sessions_advance t u \<Longrightarrow> sessions_advance s u"
  unfolding sessions_advance_def
  by (rule rows_advance_trans [of session_moves]) (rule session_moves_trans)

lemma sessions_advance_set:
  assumes "sessions t = row_set ses_id k f (sessions s)" and "\<And>v. ses_id (f v) = ses_id v"
    and "\<And>v. get_session k s = Some v \<Longrightarrow> session_moves v (f v)"
  shows "sessions_advance s t"
  using assms by (auto simp: sessions_advance_def rows_advance_def get_session_def row_get_row_set)

lemma session_enqueue_advances:
  assumes "session_enqueue e request s = Inr (u, s')"
  shows "sessions_advance s s'"
  using assms
proof (cases rule: session_enqueue_Inr)
  case (fresh run)
  then show ?thesis
    unfolding sessions_advance_def by (intro session_table.advance_add [OF fresh(4)]) simp
qed simp

lemma session_start_advances:
  assumes "session_start e sid s = Inr (u, s')"
  shows "sessions_advance s s'"
  using assms
proof (cases rule: session_start_Inr)
  case (start v run)
  then show ?thesis
    by (intro sessions_advance_set [where k = sid and
          f = "\<lambda>v. v\<lparr>ses_state := S_RUNNING, ses_updated_at := date_column e (now e)\<rparr>"])
      (auto simp: set_session_def session_moves_def session_reaches_step)
qed simp

lemma session_finish_advances:
  assumes "session_finish e result s = Inr (u, s')"
  shows "sessions_advance s s'"
  using assms
proof (cases rule: session_finish_Inr)
  case (finish v)
  then show ?thesis
    by (intro sessions_advance_set [where k = "vres_session_id result" and f = "finish_row e result"])
      (auto simp: set_session_def session_moves_def session_reaches_step finish_row_def)
qed simp

lemma session_step_advances: "session_step c s = Inr (r, s') \<Longrightarrow> sessions_advance s s'"
  by (erule session_step_Inr)
    (auto simp: Inr_eq_bind_err intro: session_enqueue_advances [OF sym] session_start_advances [OF sym]
      session_finish_advances sessions_advance_same record_attempt_sessions)

section \<open>Results carry a usage\<close>

definition priced :: "db \<Rightarrow> bool" where
  "priced s \<longleftrightarrow> (\<forall>v\<in>set (sessions s). \<forall>r. ses_result v = Some r \<longrightarrow> 0 \<le> vres_usage r)"

lemma priced_same: "sessions t = sessions s \<Longrightarrow> priced t = priced s"
  by (simp add: priced_def)

lemma priced_set:
  "sessions t = row_set ses_id k f (sessions s) \<Longrightarrow> priced s \<Longrightarrow>
   (\<And>v r. v \<in> set (sessions s) \<Longrightarrow> ses_result (f v) = Some r \<Longrightarrow> ses_result v = Some r \<or> 0 \<le> vres_usage r) \<Longrightarrow> priced t"
  by (fastforce simp: priced_def row_set_def)

lemma session_step_priced:
  assumes "session_step c s = Inr (r, s')" and "priced s"
  shows "priced s'"
  using assms(1)
proof (cases rule: session_step_cases)
  case (queue e request)
  then have "session_enqueue e request s = Inr (r, s')" by simp
  then show ?thesis
    using assms(2) by (cases rule: session_enqueue_Inr) (auto simp: priced_def add_session_Inr new_session_def)
next
  case (launch e sid)
  then have "session_start e sid s = Inr (r, s')" by simp
  then show ?thesis
  proof (cases rule: session_start_Inr)
    case (start v run)
    then show ?thesis by (intro priced_set [OF _ assms(2)]) (auto simp: set_session_def)
  qed (use assms(2) in simp)
next
  case (attempt e rec)
  then show ?thesis using assms(2) priced_same [OF record_attempt_sessions] by (auto simp: Inr_eq_bind_err)
next
  case (conclude e result)
  then have usage: "0 \<le> vres_usage result" and "session_finish e result s = Inr (r, s')"
    by (auto simp: Inr_eq_bind_err bind_err_eq_Inr mk_session_result_def mk_usage_Inr proposal_requires_workspace_def split: if_splits)
  from this(2) show ?thesis
  proof (cases rule: session_finish_Inr)
    case (finish v)
    then show ?thesis using usage by (intro priced_set [OF _ assms(2)]) (auto simp: set_session_def finish_row_def)
  qed (use assms(2) in simp)
qed

interpretation session_log: monotone_service session_step well_behaved
  by unfold_locales (auto intro: well_behaved_trans session_step_behaves)

interpretation session_states: monotone_service session_step sessions_advance
  by unfold_locales (auto intro: sessions_advance_trans session_step_advances)

interpretation session_numbering: transactional session_step sessions_numbered
  by unfold_locales (auto intro: session_step_numbered)

interpretation session_exclusive: transactional session_step "\<lambda>s. one_running s \<and> sessions_numbered s"
  by unfold_locales (auto intro: session_step_numbered session_step_one_running)

section \<open>Properties\<close>

text \<open>
  Through any sequence of session calls a run has at most one running session.
\<close>

theorem one_session_running:
  assumes "one_running s" and "sessions_numbered s"
    and "get_session k (run_sessions session_step cs s) = Some v"
    and "get_session k' (run_sessions session_step cs s) = Some v'"
    and "ses_state v = S_RUNNING" and "ses_state v' = S_RUNNING" and "ses_run_id v = ses_run_id v'"
  shows "k = k'"
proof -
  have "one_running (run_sessions session_step cs s)"
    using session_exclusive.sessions_inv [of s cs] assms(1,2) by blast
  then show ?thesis
    using assms(3-) by (auto simp: get_session_def dest!: row_get_SomeD intro: one_runningD)
qed

text \<open>
  Session numbers of a run and attempt numbers of a session are 1, 2, 3, ... in the
  order of insertion, through any sequence of session calls: no number is skipped or reused.
\<close>

theorem session_numbers_gapless:
  assumes "sessions_numbered s"
  shows "session_numbers rid (run_sessions session_step cs s) =
      [1..int (length (session_numbers rid (run_sessions session_step cs s)))] \<and>
    attempt_numbers sid (run_sessions session_step cs s) =
      [1..int (length (attempt_numbers sid (run_sessions session_step cs s)))]"
  using session_numbering.sessions_inv [OF assms, of cs]
  by (auto simp: sessions_numbered_def numbered_def session_numbers_def attempt_numbers_def)

text \<open>
  A finished session is final: its result is returned unchanged after any later sequence
  of session calls, its terminal state never changes, and finishing it again with a result
  of another digest is refused without effect.
\<close>

theorem session_result_final:
  assumes "session_finish e result s = Inr (u, s')"
    and "get_session (vres_session_id result) s = Some v" and "ses_result v = None"
  shows "get_result (vres_session_id result) (run_sessions session_step cs s') = Inr (Some result) \<and>
    get_state (vres_session_id result) (run_sessions session_step cs s') =
      Inr (session_outcome_state (vres_outcome result)) \<and>
    (vres_session_id other = vres_session_id result \<and>
       canonical_digest e' (D_result other) \<noteq> canonical_digest e' (D_result result) \<longrightarrow>
     session_finish e' other (run_sessions session_step cs s') =
       Inl (SessionConflictError ''session already has a different result''))"
proof -
  from assms have "s' = set_session (vres_session_id result) (finish_row e result) s"
    by (elim session_finish_Inr) auto
  then have "get_session (vres_session_id result) s' = Some (finish_row e result v)"
    using assms(2) by (simp add: session_table.get_set finish_row_def)
  with session_states.sessions_le [of s' cs] obtain v' where
    v': "get_session (vres_session_id result) (run_sessions session_step cs s') = Some v'"
      "session_moves (finish_row e result v) v'"
    by (auto simp: sessions_advance_def dest: rows_advanceD)
  have "session_terminal (session_outcome_state (vres_outcome result))"
    by (cases "vres_outcome result") simp_all
  with v'(2) have "ses_state v' = session_outcome_state (vres_outcome result)" "ses_result v' = Some result"
    by (auto simp: session_moves_def finish_row_def dest: session_reaches_terminal)
  with v'(1) show ?thesis by (auto simp: get_result_def get_state_def session_finish_def)
qed

section \<open>Evaluations\<close>

definition demo_request :: "string \<Rightarrow> VariationSessionRequest" where
  "demo_request sid = \<lparr>vsr_session_id = sid, vsr_run_id = ''r'',
     champion = \<lparr>cr_candidate_id = ''seed-r'', cr_source_tree_digest = ''tree0'', cr_lineage_sequence = 0\<rparr>,
     lineage_index_digest = ''d'', initial_context_digest = ''d'', tool_capability_token = ''t'',
     development_evaluator_refs = [], vsr_budget_reservation_id = ''b'', random_seed = 0\<rparr>"

definition demo_result :: "string \<Rightarrow> session_outcome \<Rightarrow> VariationSessionResult" where
  "demo_result sid out = \<lparr>vres_session_id = sid, vres_outcome = out,
     proposed_workspace_digest = Some ''tree1'', proposed_patch_digest = None, rationale_artifact = None,
     vres_attempt_index_digest = ''d'', vres_usage = plain_usage 1\<rparr>"

definition demo_session_calls :: "(env \<times> session_call) list" where
  "demo_session_calls =
     [(call_at ''a'' 1, Enqueue_session (demo_request ''s1'')), (call_at ''b'' 2, Enqueue_session (demo_request ''s2'')),
      (call_at ''c'' 3, Start_session ''s1''), (call_at ''d'' 4, Start_session ''s2'')]"

definition demo_sessions :: db where
  "demo_sessions = run_sessions session_step demo_session_calls demo_db"

definition demo_session :: VariationSessionRow where
  "demo_session = (new_session (call_at ''a'' 1) (demo_request ''s1'') 1)
     \<lparr>ses_state := S_RUNNING, ses_updated_at := Naive 3000000\<rparr>"

lemma demo_sessions_start: "one_running demo_db" "sessions_numbered demo_db"
  by (simp_all add: one_running_def sessions_numbered_def demo_db_def empty_db_def)

lemma demo_session_row: "get_session ''s1'' (run_sessions session_step demo_session_calls demo_db) = Some demo_session"
  by code_simp

lemma demo_session_running: "ses_state demo_session = S_RUNNING"
  by code_simp

theorem one_session_running_witness:
  "get_session ''s2'' (run_sessions session_step demo_session_calls demo_db) \<noteq> Some demo_session"
  using one_session_running [OF demo_sessions_start demo_session_row _ demo_session_running demo_session_running,
      of "''s2''"] by auto

theorem session_numbers_gapless_witness: "session_numbers ''r'' demo_sessions = [1, 2]"
proof -
  have "length (session_numbers ''r'' demo_sessions) = 2" by code_simp
  with session_numbers_gapless [OF demo_sessions_start(2), of "''r''" demo_session_calls]
  show ?thesis by (simp add: demo_sessions_def upto_rec1)
qed

definition demo_finished :: db where
  "demo_finished = snd (in_session (session_finish (call_at ''f'' 5) (demo_result ''s1'' O_proposal_ready)) demo_sessions)"

lemma demo_finish: "session_finish (call_at ''f'' 5) (demo_result ''s1'' O_proposal_ready) demo_sessions =
    Inr ((), demo_finished)"
  by code_simp

lemma demo_finish_open: "get_session (vres_session_id (demo_result ''s1'' O_proposal_ready)) demo_sessions =
    Some demo_session" "ses_result demo_session = None"
  by code_simp+

theorem session_result_final_witness:
  "get_result ''s1'' (run_sessions session_step demo_session_calls demo_finished) =
     Inr (Some (demo_result ''s1'' O_proposal_ready))"
  using session_result_final [OF demo_finish demo_finish_open, of demo_session_calls]
  by (simp add: demo_result_def)

end
