(* ===== verification/RuntimeSvc.thy ===== *)
theory RuntimeSvc
  imports SessionSvc
begin

text \<open>
  Harness invocations and reconciliation cases (application/runtime\_service.py). An
  invocation envelope moves along its own small table. Opening a case parks the activity,
  blocks the run, parks the session and holds the budget in one block; resolving it moves
  all of them on together.
\<close>

section \<open>Invocations\<close>

definition runtime_append_event ::
  "env \<Rightarrow> py_datetime \<Rightarrow> nat \<Rightarrow> RunRow \<Rightarrow> string \<Rightarrow> string \<Rightarrow> jval \<Rightarrow> db \<Rightarrow> err + db" where
  "runtime_append_event = append_run_event"

definition invocation_row :: "env \<Rightarrow> HarnessInvocationRecord \<Rightarrow> HarnessInvocationRow" where
  "invocation_row e rec =
     \<lparr>inv_id = hi_invocation_id rec, inv_run_id = hi_run_id rec, inv_activity_id = hi_activity_id rec,
      inv_session_id = hi_session_id rec, inv_state = hi_state rec,
      inv_record_digest = canonical_digest e (D_invocation rec), inv_record = rec,
      inv_created_at = date_column e (now e), inv_updated_at = date_column e (now e)\<rparr>"

definition record_invocation :: "env \<Rightarrow> HarnessInvocationRecord \<Rightarrow> db \<Rightarrow> err + unit \<times> db" where
  "record_invocation e rec s =
     (if (case get_activity (hi_activity_id rec) s of None \<Rightarrow> True
          | Some activity \<Rightarrow> act_run_id activity \<noteq> hi_run_id rec)
      then Inl (RuntimeConflictError ''invocation activity is missing or belongs to another run'')
      else
        (case get_invocation_row (hi_invocation_id rec) s of
           Some existing \<Rightarrow>
             if inv_record_digest existing \<noteq> canonical_digest e (D_invocation rec)
             then Inl (RuntimeConflictError ''invocation_id has conflicting evidence'')
             else Inr ((), s)
         | None \<Rightarrow> bind_err (add_invocation (invocation_row e rec) s) (\<lambda>s. Inr ((), s))))"

fun invocation_allowed :: "invocation_state \<Rightarrow> invocation_state list" where
  "invocation_allowed I_started = [I_running, I_completed, I_failed, I_reconciliation_required]"
| "invocation_allowed I_running = [I_completed, I_failed, I_reconciliation_required]"
| "invocation_allowed I_completed = []"
| "invocation_allowed I_failed = []"
| "invocation_allowed I_reconciliation_required = []"

fun invocation_value :: "invocation_state \<Rightarrow> string" where
  "invocation_value I_started = ''started''"
| "invocation_value I_running = ''running''"
| "invocation_value I_completed = ''completed''"
| "invocation_value I_failed = ''failed''"
| "invocation_value I_reconciliation_required = ''reconciliation_required''"

definition replaced_row :: "env \<Rightarrow> HarnessInvocationRecord \<Rightarrow> HarnessInvocationRow \<Rightarrow> HarnessInvocationRow" where
  "replaced_row e rec r = r\<lparr>inv_state := hi_state rec, inv_record := rec,
     inv_record_digest := canonical_digest e (D_invocation rec),
     inv_updated_at := date_column e (now e)\<rparr>"

definition replace_invocation :: "env \<Rightarrow> HarnessInvocationRecord \<Rightarrow> db \<Rightarrow> err + unit \<times> db" where
  "replace_invocation e rec s =
     (case get_invocation_row (hi_invocation_id rec) s of
        None \<Rightarrow> Inl (LookupError (''invocation not found: '' @ hi_invocation_id rec))
      | Some row \<Rightarrow>
          if inv_run_id row \<noteq> hi_run_id rec \<or> inv_activity_id row \<noteq> hi_activity_id rec
          then Inl (RuntimeConflictError ''invocation identity fields cannot change'')
          else if hi_state rec \<noteq> hi_state (inv_record row) \<and>
            hi_state rec \<notin> set (invocation_allowed (hi_state (inv_record row)))
          then Inl (RuntimeConflictError (''invalid invocation transition '' @
            invocation_value (hi_state (inv_record row)) @ ''->'' @ invocation_value (hi_state rec)))
          else Inr ((), set_invocation (hi_invocation_id rec) (replaced_row e rec) s))"

definition get_invocation :: "string \<Rightarrow> db \<Rightarrow> err + HarnessInvocationRecord" where
  "get_invocation iid s = (case get_invocation_row iid s of
     None \<Rightarrow> Inl (LookupError (''invocation not found: '' @ iid)) | Some row \<Rightarrow> Inr (inv_record row))"

definition find_activity_invocation :: "string \<Rightarrow> db \<Rightarrow> HarnessInvocationRecord option" where
  "find_activity_invocation aid s =
     map_option inv_record (find (\<lambda>r. inv_activity_id r = aid) (invocations s))"

section \<open>Opening a case\<close>

text \<open>Python's \<open>x or y\<close> on optional strings.\<close>

definition or_else :: "string option \<Rightarrow> string option \<Rightarrow> string option" where
  "or_else x y = (if x = None \<or> x = Some [] then y else x)"

definition unlease_row :: "env \<Rightarrow> ActivityRow \<Rightarrow> ActivityRow" where
  "unlease_row e a = (if act_state a \<in> {Act_queued, Act_running}
     then a\<lparr>act_state := Act_reconciliation_required, act_lease_owner := None,
       act_lease_expires_at := None, act_updated_at := date_column e (now e)\<rparr> else a)"

definition await_session :: "env \<Rightarrow> VariationSessionRow \<Rightarrow> VariationSessionRow" where
  "await_session e v = (if ses_state v \<noteq> S_RECONCILIATION_REQUIRED
     then v\<lparr>ses_state := S_RECONCILIATION_REQUIRED, ses_updated_at := date_column e (now e)\<rparr> else v)"

definition check_session :: "string \<Rightarrow> string option \<Rightarrow> db \<Rightarrow> err + unit" where
  "check_session rid sid s =
     (case sid of None \<Rightarrow> Inr ()
      | Some k \<Rightarrow>
          (case get_session k s of
             None \<Rightarrow> Inl (RuntimeConflictError ''reconciliation session is missing'')
           | Some v \<Rightarrow>
               if ses_run_id v \<noteq> rid
               then Inl (RuntimeConflictError ''reconciliation session is missing'')
               else if ses_state v = S_RECONCILIATION_REQUIRED then Inr ()
               else require_transition (SessionL (ses_state v)) (SessionL S_RECONCILIATION_REQUIRED)))"

definition check_reservation :: "string \<Rightarrow> string option \<Rightarrow> db \<Rightarrow> err + unit" where
  "check_reservation rid k s =
     (case k of None \<Rightarrow> Inr ()
      | Some x \<Rightarrow>
          (case get_reservation x s of
             None \<Rightarrow> Inl (RuntimeConflictError ''reconciliation budget reservation is missing'')
           | Some r \<Rightarrow>
               if res_run_id r \<noteq> rid
               then Inl (RuntimeConflictError ''reconciliation budget reservation is missing'')
               else if res_state r \<notin> {Reserved, Held}
               then Inl (RuntimeConflictError ''budget reservation is not active'')
               else Inr ()))"

definition open_body ::
  "env \<Rightarrow> string \<Rightarrow> string \<Rightarrow> string \<Rightarrow> string \<Rightarrow> string list \<Rightarrow> ActivityRow \<Rightarrow> RunRow \<Rightarrow> string option \<Rightarrow>
     string option \<Rightarrow> db \<Rightarrow> err + ReconciliationCaseRecord \<times> db" where
  "open_body e rid aid reason actor evidence activity run sid rsv s =
     bind_err (if run_state run = R_BLOCKED_RECONCILIATION then Inr ()
       else require_transition (RunL (run_state run)) (RunL R_BLOCKED_RECONCILIATION)) (\<lambda>_.
     bind_err (check_session rid sid s) (\<lambda>_.
     bind_err (check_reservation rid rsv s) (\<lambda>_.
     bind_err (mk_reconciliation ((open_case e 0 activity reason evidence)
       \<lparr>rc_session_id := sid, rc_budget_reservation_id := rsv\<rparr>)) (\<lambda>rec.
     bind_err (add_reconciliation (case_row e rec)
       (opt_write set_reservation rsv hold_reserved
         (opt_write set_session sid (await_session e)
           (set_run rid block_run (set_activity aid (unlease_row e) s))))) (\<lambda>s.
     bind_err (runtime_append_event e (now e) 1 run ''reconciliation.opened'' actor
       (JObj [(''activity_id'', JStr aid),
          (''reconciliation_id'', JStr (rc_reconciliation_id rec))]) s) (\<lambda>s.
     Inr (rec, s)))))))"

definition open_reconciliation ::
  "env \<Rightarrow> string \<Rightarrow> string \<Rightarrow> string \<Rightarrow> string \<Rightarrow> string option \<Rightarrow> string list \<Rightarrow> string option \<Rightarrow> db \<Rightarrow>
     err + ReconciliationCaseRecord \<times> db" where
  "open_reconciliation e rid aid reason actor session evidence reservation s =
     (case find (\<lambda>c. rec_activity_id c = aid \<and> rec_state c = Open) (reconciliations s) of
        Some existing \<Rightarrow> Inr (rec_record existing, s)
      | None \<Rightarrow>
          (case (get_activity aid s, get_run rid s) of
             (Some activity, Some run) \<Rightarrow>
               if act_run_id activity \<noteq> rid
               then Inl (RuntimeConflictError ''reconciliation target is missing'')
               else if act_session_id activity \<noteq> None \<and> act_session_id activity \<noteq> session
               then Inl (RuntimeConflictError ''activity belongs to another session'')
               else open_body e rid aid reason actor evidence activity run
                 (or_else session (act_session_id activity))
                 (or_else reservation (act_reservation_id activity)) s
           | _ \<Rightarrow> Inl (RuntimeConflictError ''reconciliation target is missing'')))"

section \<open>Resolving a case\<close>

definition resolution_of :: "string \<Rightarrow> resolution option" where
  "resolution_of x =
     (if x = ''retry'' then Some Retry else if x = ''accept_result'' then Some Accept_result
      else if x = ''cancel'' then Some Cancel else if x = ''fail'' then Some Fail else None)"

fun run_target :: "resolution \<Rightarrow> RunState" where
  "run_target Retry = R_RUNNING"
| "run_target Accept_result = R_RUNNING"
| "run_target Cancel = R_CANCELLED"
| "run_target Fail = R_FAILED"

fun session_target :: "resolution \<Rightarrow> VariationSessionState" where
  "session_target Retry = S_RUNNING"
| "session_target Accept_result = S_RUNNING"
| "session_target Cancel = S_CANCELLED"
| "session_target Fail = S_FAILED"

fun resolve_activity_state :: "resolution \<Rightarrow> activity_state" where
  "resolve_activity_state Retry = Act_queued"
| "resolve_activity_state Accept_result = Act_completed"
| "resolve_activity_state Cancel = Act_cancelled"
| "resolve_activity_state Fail = Act_failed"

definition resolved_activity :: "env \<Rightarrow> resolution \<Rightarrow> string option \<Rightarrow> ActivityRow \<Rightarrow> ActivityRow" where
  "resolved_activity e res result a =
     (if res = Accept_result then a\<lparr>act_result_digest := result\<rparr> else a)
       \<lparr>act_state := resolve_activity_state res, act_error := None,
        act_updated_at := date_column e (now e)\<rparr>"

definition resolve_session ::
  "env \<Rightarrow> resolution \<Rightarrow> string option \<Rightarrow> db \<Rightarrow> err + db" where
  "resolve_session e res sid s =
     (case sid of None \<Rightarrow> Inr s
      | Some k \<Rightarrow>
          (case get_session k s of
             None \<Rightarrow> Inl (RuntimeConflictError ''reconciliation session disappeared'')
           | Some v \<Rightarrow>
               bind_err (require_transition (SessionL (ses_state v)) (SessionL (session_target res))) (\<lambda>_.
               Inr (set_session k (\<lambda>v. v\<lparr>ses_state := session_target res,
                 ses_updated_at := date_column e (now e)\<rparr>) s))))"

definition resolve_budget ::
  "env \<Rightarrow> resolution \<Rightarrow> string \<Rightarrow> string option \<Rightarrow> db \<Rightarrow> err + db" where
  "resolve_budget e res rid rsv s =
     (case rsv of None \<Rightarrow> Inr s
      | Some k \<Rightarrow>
          (case get_reservation k s of
             None \<Rightarrow> Inl (RuntimeConflictError ''reconciliation budget disappeared'')
           | Some reservation \<Rightarrow>
               if res = Retry then Inr (set_reservation k (\<lambda>r. r\<lparr>res_state := Reserved\<rparr>) s)
               else if res = Accept_result then Inr s
               else
                 (case get_ledger rid s of
                    None \<Rightarrow> Inl (RuntimeConflictError ''reconciliation budget ledger disappeared'')
                  | Some ledger \<Rightarrow>
                      bind_err (reconcile_usage (led_used ledger) (led_reserved ledger)
                        (res_estimated reservation) usage_zero) (\<lambda>(_, remaining).
                      Inr (set_reservation k (\<lambda>r. r\<lparr>res_state := Released,
                             res_reconciled_at := Some (date_column e (now e))\<rparr>)
                           (set_ledger rid (\<lambda>l. l\<lparr>led_reserved := remaining,
                             led_revision := led_revision l + 1\<rparr>) s))))))"

definition resolved_record ::
  "env \<Rightarrow> resolution \<Rightarrow> string \<Rightarrow> ReconciliationCaseRecord \<Rightarrow> ReconciliationCaseRecord" where
  "resolved_record e res note prior = prior\<lparr>rc_state := Resolved, rc_resolution := Some res,
     rc_resolution_note := Some note, rc_resolved_at := Some (now e)\<rparr>"

definition close_case :: "env \<Rightarrow> ReconciliationCaseRecord \<Rightarrow> ReconciliationCaseRow \<Rightarrow> ReconciliationCaseRow" where
  "close_case e rec c = c\<lparr>rec_state := Resolved, rec_record := rec,
     rec_record_digest := canonical_digest e (D_reconciliation rec),
     rec_updated_at := date_column e (now e)\<rparr>"

definition resolve_reconciliation ::
  "env \<Rightarrow> string \<Rightarrow> string \<Rightarrow> string \<Rightarrow> string \<Rightarrow> string option \<Rightarrow> db \<Rightarrow>
     err + ReconciliationCaseRecord \<times> db" where
  "resolve_reconciliation e cid resolution note actor result s =
     (case resolution_of resolution of
        None \<Rightarrow> Inl (ValueError ''unknown reconciliation resolution'')
      | Some res \<Rightarrow>
          (case get_reconciliation cid s of
             None \<Rightarrow> Inl (LookupError (''reconciliation not found: '' @ cid))
           | Some row \<Rightarrow>
               let prior = rec_record row in
               if rc_state prior = Resolved then
                 if rc_resolution prior \<noteq> Some res
                 then Inl (RuntimeConflictError ''reconciliation already resolved differently'')
                 else Inr (prior, s)
               else
                 (case (get_activity (rc_activity_id prior) s, get_run (rc_run_id prior) s) of
                    (Some activity, Some run) \<Rightarrow>
                      if res = Accept_result \<and> result = None
                      then Inl (ValueError ''accept_result requires result_digest'')
                      else
                        bind_err (require_transition (RunL (run_state run)) (RunL (run_target res))) (\<lambda>_.
                        bind_err (resolve_session e res (rc_session_id prior)
                          (set_run (rc_run_id prior) (\<lambda>r. r\<lparr>run_state := run_target res\<rparr>)
                            (set_activity (rc_activity_id prior) (resolved_activity e res result) s))) (\<lambda>s.
                        bind_err (resolve_budget e res (rc_run_id prior) (rc_budget_reservation_id prior) s) (\<lambda>s.
                        bind_err (runtime_append_event e (now e) 0 run ''reconciliation.resolved'' actor
                          (JObj [(''reconciliation_id'', JStr cid), (''resolution'', JStr resolution)])
                          (set_reconciliation cid (close_case e (resolved_record e res note prior)) s)) (\<lambda>s.
                        Inr (resolved_record e res note prior, s)))))
                  | _ \<Rightarrow> Inl (RuntimeConflictError ''reconciliation target disappeared''))))"

section \<open>The service as a whole\<close>

datatype runtime_call =
    Record_invocation HarnessInvocationRecord
  | Replace_invocation HarnessInvocationRecord
  | Open_reconciliation string string string string "string option" "string list" "string option"
  | Resolve_reconciliation string string string string "string option"

fun runtime_step :: "env \<times> runtime_call \<Rightarrow> db \<Rightarrow> err + unit \<times> db" where
  "runtime_step (e, Record_invocation rec) s = record_invocation e rec s"
| "runtime_step (e, Replace_invocation rec) s = replace_invocation e rec s"
| "runtime_step (e, Open_reconciliation rid aid reason actor session evidence reservation) s =
     bind_err (open_reconciliation e rid aid reason actor session evidence reservation s) (\<lambda>(_, s). Inr ((), s))"
| "runtime_step (e, Resolve_reconciliation cid resolution note actor result) s =
     bind_err (resolve_reconciliation e cid resolution note actor result s) (\<lambda>(_, s). Inr ((), s))"

fun_cases runtime_step_Inr: "runtime_step c s = Inr x"

lemmas runtime_step_cases =
  runtime_step_Inr [consumes 1, case_names invoke replace open_case resolve]

section \<open>What a successful call did\<close>

lemma find_SomeD: "find P xs = Some x \<Longrightarrow> x \<in> set xs \<and> P x"
  by (induction xs) (auto split: if_splits)

lemma open_body_Inr:
  assumes "open_body e rid aid reason actor evidence a run sid rsv s = Inr (x, s')"
  obtains t where "run_state run = R_BLOCKED_RECONCILIATION \<or>
         R_BLOCKED_RECONCILIATION \<in> set (RUN_TRANSITIONS (run_state run))"
      "check_session rid sid s = Inr ()" "check_reservation rid rsv s = Inr ()"
      "mk_reconciliation ((open_case e 0 a reason evidence)
         \<lparr>rc_session_id := sid, rc_budget_reservation_id := rsv\<rparr>) = Inr x"
      "add_reconciliation (case_row e x)
         (opt_write set_reservation rsv hold_reserved
           (opt_write set_session sid (await_session e)
             (set_run rid block_run (set_activity aid (unlease_row e) s)))) = Inr t"
      "append_run_event e (now e) 1 run ''reconciliation.opened'' actor
         (JObj [(''activity_id'', JStr aid), (''reconciliation_id'', JStr (rc_reconciliation_id x))]) t = Inr s'"
  using assms
  by (auto simp: open_body_def bind_err_eq_Inr runtime_append_event_def simp del: RUN_TRANSITIONS.simps
      split: if_splits)

lemma open_reconciliation_Inr:
  assumes "open_reconciliation e rid aid reason actor session evidence reservation s = Inr (x, s')"
  obtains (existing) c where "c \<in> set (reconciliations s)" "rec_activity_id c = aid" "rec_state c = Open"
      "x = rec_record c" "s' = s"
  | (opened) a run sid rsv t where "get_activity aid s = Some a" "get_run rid s = Some run"
      "act_run_id a = rid" "act_session_id a = None \<or> act_session_id a = session"
      "sid = or_else session (act_session_id a)" "rsv = or_else reservation (act_reservation_id a)"
      "run_state run = R_BLOCKED_RECONCILIATION \<or>
         R_BLOCKED_RECONCILIATION \<in> set (RUN_TRANSITIONS (run_state run))"
      "check_session rid sid s = Inr ()" "check_reservation rid rsv s = Inr ()"
      "mk_reconciliation ((open_case e 0 a reason evidence)
         \<lparr>rc_session_id := sid, rc_budget_reservation_id := rsv\<rparr>) = Inr x"
      "add_reconciliation (case_row e x)
         (opt_write set_reservation rsv hold_reserved
           (opt_write set_session sid (await_session e)
             (set_run rid block_run (set_activity aid (unlease_row e) s)))) = Inr t"
      "append_run_event e (now e) 1 run ''reconciliation.opened'' actor
         (JObj [(''activity_id'', JStr aid), (''reconciliation_id'', JStr (rc_reconciliation_id x))]) t = Inr s'"
proof (cases "find (\<lambda>c. rec_activity_id c = aid \<and> rec_state c = Open) (reconciliations s)")
  case (Some c)
  then have "c \<in> set (reconciliations s) \<and> rec_activity_id c = aid \<and> rec_state c = Open"
    by (rule find_SomeD)
  with Some assms show ?thesis
    by (intro existing [of c]) (simp_all add: open_reconciliation_def)
next
  case None
  from assms None obtain a run where a: "get_activity aid s = Some a" "get_run rid s = Some run"
    by (auto simp: open_reconciliation_def split: option.splits)
  with assms None have ctx: "act_run_id a = rid" "act_session_id a = None \<or> act_session_id a = session"
    and body: "open_body e rid aid reason actor evidence a run (or_else session (act_session_id a))
      (or_else reservation (act_reservation_id a)) s = Inr (x, s')"
    by (auto simp: open_reconciliation_def split: if_splits)
  from body show ?thesis
    by (rule open_body_Inr) (rule opened [OF a ctx refl refl])
qed

lemma resolve_session_Inr:
  assumes "resolve_session e res sid s = Inr t"
  shows "t = opt_write set_session sid (\<lambda>v. v\<lparr>ses_state := session_target res,
      ses_updated_at := date_column e (now e)\<rparr>) s"
    and "sid = Some k \<Longrightarrow> get_session k s = Some v \<Longrightarrow>
      session_target res \<in> set (SESSION_TRANSITIONS (ses_state v))"
  using assms by (auto simp: resolve_session_def opt_write_def raise_simps split: option.splits)

lemma resolve_budget_frame:
  assumes "resolve_budget e res rid rsv s = Inr t"
  shows "runs t = runs s" "events t = events s" "outbox t = outbox s" "experiments t = experiments s"
    "activities t = activities s" "sessions t = sessions s" "attempts t = attempts s"
  using assms
  by (auto simp: resolve_budget_def raise_simps set_defs split: option.splits if_splits prod.splits)

lemma resolve_budget_reconciliations:
  "resolve_budget e res rid rsv s = Inr t \<Longrightarrow> reconciliations t = reconciliations s"
  by (auto simp: resolve_budget_def raise_simps set_defs split: option.splits if_splits prod.splits)

lemma resolve_reconciliation_Inr:
  assumes "resolve_reconciliation e cid resolution note actor result s = Inr (x, s')"
  obtains (replay) row res where "resolution_of resolution = Some res" "get_reconciliation cid s = Some row"
      "rc_state (rec_record row) = Resolved" "rc_resolution (rec_record row) = Some res"
      "x = rec_record row" "s' = s"
  | (settle) res row prior a run t u where "resolution_of resolution = Some res"
      "get_reconciliation cid s = Some row" "prior = rec_record row" "rc_state prior = Open"
      "get_activity (rc_activity_id prior) s = Some a" "get_run (rc_run_id prior) s = Some run"
      "res = Accept_result \<longrightarrow> result \<noteq> None"
      "run_target res \<in> set (RUN_TRANSITIONS (run_state run))"
      "resolve_session e res (rc_session_id prior)
         (set_run (rc_run_id prior) (\<lambda>r. r\<lparr>run_state := run_target res\<rparr>)
           (set_activity (rc_activity_id prior) (resolved_activity e res result) s)) = Inr t"
      "resolve_budget e res (rc_run_id prior) (rc_budget_reservation_id prior) t = Inr u"
      "append_run_event e (now e) 0 run ''reconciliation.resolved'' actor
         (JObj [(''reconciliation_id'', JStr cid), (''resolution'', JStr resolution)])
         (set_reconciliation cid (close_case e (resolved_record e res note prior)) u) = Inr s'"
      "x = resolved_record e res note prior"
proof -
  from assms obtain res row where row: "resolution_of resolution = Some res"
      "get_reconciliation cid s = Some row"
    by (auto simp: resolve_reconciliation_def split: option.splits)
  show ?thesis
  proof (cases "rc_state (rec_record row)")
    case Resolved
    with assms row replay [OF row] show ?thesis
      by (auto simp: resolve_reconciliation_def Let_def split: if_splits)
  next
    case Open
    from assms row Open obtain a run where a: "get_activity (rc_activity_id (rec_record row)) s = Some a"
        "get_run (rc_run_id (rec_record row)) s = Some run"
      by (auto simp: resolve_reconciliation_def Let_def split: option.splits)
    from assms row Open a settle [OF row refl Open a] show ?thesis
      by (auto simp: resolve_reconciliation_def Let_def raise_simps runtime_append_event_def
          split: if_splits)
  qed
qed

section \<open>Every call behaves\<close>

lemma invocation_behaves:
  "record_invocation e rec s = Inr (u, s') \<Longrightarrow> well_behaved s s'"
  "replace_invocation e rec s = Inr (u, s') \<Longrightarrow> well_behaved s s'"
  by (auto simp: record_invocation_def replace_invocation_def raise_simps add_invocation_Inr
      set_invocation_def split: option.splits if_splits intro: well_behaved_frame)

lemma open_reconciliation_behaves:
  assumes "open_reconciliation e rid aid reason actor session evidence reservation s = Inr (x, s')"
  shows "well_behaved s s'"
  using assms
proof (cases rule: open_reconciliation_Inr)
  case (opened a run sid rsv t)
  let ?u = "opt_write set_reservation rsv hold_reserved (opt_write set_session sid (await_session e)
     (set_run rid block_run (set_activity aid (unlease_row e) s)))"
  have t: "t = ?u\<lparr>reconciliations := reconciliations ?u @ [case_row e x]\<rparr>"
    using opened(11) by (simp add: add_reconciliation_Inr)
  have "ledger_inv t" if "ledger_inv s"
    using ledger_inv_hold [OF _ _ that, of "opt_write set_session sid (await_session e)
        (set_run rid block_run (set_activity aid (unlease_row e) s))" rsv]
    by (simp add: t ledger_inv_def set_run_def set_activity_def)
  then show ?thesis
    using opened(7)
    by (intro well_behaved_append_set [OF opened(12,2), where f = block_run])
      (auto simp: t set_run_def set_activity_def run_reaches_step)
qed simp

lemma resolve_reconciliation_log:
  assumes "resolve_reconciliation e cid resolution note actor result s = Inr (x, s')"
  shows "log_behaved s s'"
  using assms
proof (cases rule: resolve_reconciliation_Inr)
  case (settle res row prior a run t u)
  show ?thesis
    using settle(8) resolve_session_Inr(1) [OF settle(9)]
    by (intro log_behaved_append_set [OF settle(11,6), where f = "\<lambda>r. r\<lparr>run_state := run_target res\<rparr>"])
      (auto simp: resolve_budget_frame [OF settle(10)] set_reconciliation_def set_run_def set_activity_def
        run_reaches_step)
qed simp

text \<open>
  Resolving keeps the accounts when the case still holds an active reservation of its run.
\<close>

definition budget_attached :: "db \<Rightarrow> ReconciliationCaseRecord \<Rightarrow> bool" where
  "budget_attached s c \<longleftrightarrow>
     (case rc_budget_reservation_id c of None \<Rightarrow> True
      | Some k \<Rightarrow> (case get_reservation k s of None \<Rightarrow> True
          | Some r \<Rightarrow> active r \<and> res_run_id r = rc_run_id c))"

lemma ledger_ok_release:
  assumes ok: "ledger_ok ls rs" and r: "row_get res_id k rs = Some r" "active r"
    and l: "row_get led_run_id (res_run_id r) ls = Some l"
    and f: "\<And>x. res_id (f x) = res_id x" "\<And>x. res_run_id (f x) = res_run_id x"
      "\<And>x. res_estimated (f x) = res_estimated x" "\<And>x. res_state (f x) = Released"
    and g: "\<And>x. led_run_id (g x) = led_run_id x" "\<And>x. led_limit (g x) = led_limit x"
      "\<And>x. led_used (g x) = led_used x" "led_reserved (g l) = led_reserved l - res_estimated r"
  shows "ledger_ok (row_set led_run_id (res_run_id r) g ls) (row_set res_id k f rs)"
proof -
  have l': "account_ok rs l" "led_run_id l = res_run_id r" using ledger_okD(4) [OF ok l] by auto
  have "0 \<le> res_estimated r" using ledger_okD(3) [OF ok r(1)] .
  then have "led_used l + (led_reserved l - res_estimated r) \<le> led_limit l" if "\<not> overrun (res_run_id r) rs"
    using l' that by (intro released_within) (auto simp only: account_ok_def)
  moreover have "overrun (res_run_id r) (row_set res_id k f rs) = overrun (res_run_id r) rs"
    using r f by (intro overrun_row_set [OF ledger_okD(2) [OF ok]]) (auto simp: active_def)
  ultimately show ?thesis
    using ok r l f g
    by (intro ledger_ok_move) (auto simp: reserved_share_def used_share_def active_def settled_def)
qed

lemma resolve_budget_ledger:
  assumes "resolve_budget e res rid rsv s = Inr t" and "ledger_inv s"
    and "\<And>k r. rsv = Some k \<Longrightarrow> get_reservation k s = Some r \<Longrightarrow> active r \<and> res_run_id r = rid"
  shows "ledger_inv t"
proof (cases rsv)
  case None
  with assms(1,2) show ?thesis by (simp add: resolve_budget_def)
next
  case (Some k)
  with assms(1) obtain r where r: "get_reservation k s = Some r"
    by (auto simp: resolve_budget_def split: option.splits)
  with assms(3) Some have act: "active r" "res_run_id r = rid" by auto
  from assms(2) have ok: "ledger_ok (ledgers s) (reservations s)" by (simp add: ledger_inv_def)
  consider "res = Retry" | "res = Accept_result" | "res \<noteq> Retry" "res \<noteq> Accept_result" by blast
  then show ?thesis
  proof cases
    case 1
    with assms(1) Some r have "t = set_reservation k (\<lambda>r. r\<lparr>res_state := Reserved\<rparr>) s"
      by (simp add: resolve_budget_def)
    then show ?thesis
      using ok r act by (auto simp: ledger_inv_def set_defs get_defs active_def settled_def intro!: ledger_ok_idle)
  next
    case 2
    with assms(1,2) Some r show ?thesis by (simp add: resolve_budget_def)
  next
    case 3
    with assms(1) Some r obtain l where l: "get_ledger rid s = Some l" and
      t: "t = set_reservation k (\<lambda>r. r\<lparr>res_state := Released, res_reconciled_at := Some (date_column e (now e))\<rparr>)
        (set_ledger rid (\<lambda>l'. l'\<lparr>led_reserved := led_reserved l - res_estimated r,
          led_revision := led_revision l' + 1\<rparr>) s)"
      by (auto simp: resolve_budget_def raise_simps reconcile_usage_Inr split: prod.splits)
    show ?thesis
      using ok r act l unfolding t act(2) [symmetric]
      by (auto simp: ledger_inv_def set_defs get_defs intro!: ledger_ok_release)
  qed
qed

lemma resolve_reconciliation_behaves:
  assumes "resolve_reconciliation e cid resolution note actor result s = Inr (x, s')"
    and att: "\<And>row. get_reconciliation cid s = Some row \<Longrightarrow> budget_attached s (rec_record row)"
  shows "well_behaved s s'"
  using assms(1)
proof (cases rule: resolve_reconciliation_Inr)
  case (settle res row prior a run t u)
  have t: "ledgers t = ledgers s" "reservations t = reservations s" "experiments t = experiments s"
    using resolve_session_Inr(1) [OF settle(9)] by (simp_all add: set_run_def set_activity_def)
  have "ledger_inv u" if "ledger_inv s"
  proof (rule resolve_budget_ledger [OF settle(10)])
    show "ledger_inv t" using that t by (simp add: ledger_inv_def)
    show "active r \<and> res_run_id r = rc_run_id prior"
      if "rc_budget_reservation_id prior = Some k" "get_reservation k t = Some r" for k r
      using that att [OF settle(2)] settle(3) t(2) by (simp add: budget_attached_def get_reservation_def)
  qed
  then have "ledger_inv s'" if "ledger_inv s"
    using that append_run_event_ledger [OF settle(11)] by (simp add: ledger_inv_def set_reconciliation_def)
  moreover have "experiments s' = experiments s"
    using append_run_event_runs(4) [OF settle(11)] resolve_budget_frame(4) [OF settle(10)] t(3)
    by (simp add: set_reconciliation_def)
  ultimately show ?thesis
    using resolve_reconciliation_log [OF assms(1)] by (simp add: well_behaved_def specs_inv_def)
qed simp

section \<open>Leases and sessions advance\<close>

lemma opt_write_tables:
  "activities (opt_write set_session k f s) = activities s"
  "attempts (opt_write set_session k f s) = attempts s"
  "attempts (opt_write set_reservation k g s) = attempts s"
  "reconciliations (opt_write set_session k f s) = reconciliations s"
  "reconciliations (opt_write set_reservation k g s) = reconciliations s"
  by (simp_all add: opt_write_def set_defs split: option.split)

lemma sessions_advance_opt:
  assumes "sessions t = sessions (opt_write set_session k f s)" and "\<And>v. ses_id (f v) = ses_id v"
    and "\<And>x v. k = Some x \<Longrightarrow> get_session x s = Some v \<Longrightarrow> session_moves v (f v)"
  shows "sessions_advance s t"
proof (cases k)
  case None
  with assms(1) show ?thesis by (simp add: opt_write_def sessions_advance_same)
next
  case (Some x)
  with assms show ?thesis
    by (intro sessions_advance_set [where k = x and f = f]) (auto simp: opt_write_def set_session_def)
qed

lemma check_session_Inr:
  "check_session rid sid s = Inr () \<Longrightarrow> sid = Some k \<Longrightarrow> get_session k s = Some v \<Longrightarrow>
     ses_run_id v = rid \<and> session_moves v (await_session e v)"
  by (auto simp: check_session_def await_session_def session_moves_def session_reaches_step
      split: if_splits)

lemma open_reconciliation_sessions:
  assumes "open_reconciliation e rid aid reason actor session evidence reservation s = Inr (x, s')"
  obtains sid where "check_session rid sid s = Inr ()" "attempts s' = attempts s"
    "sessions s' = sessions (opt_write set_session sid (await_session e) s)"
  using assms
proof (cases rule: open_reconciliation_Inr)
  case (existing c)
  then show ?thesis using that [of None] by (simp add: check_session_def opt_write_def)
next
  case (opened a run sid rsv t)
  then have "sessions s' = sessions (opt_write set_session sid (await_session e) s)" "attempts s' = attempts s"
    using append_run_event_Inr(1) [OF opened(12)]
    by (auto simp: add_reconciliation_Inr opt_write_def set_defs split: option.splits)
  with opened(8) that show ?thesis by blast
qed

lemma open_reconciliation_advances:
  assumes "open_reconciliation e rid aid reason actor session evidence reservation s = Inr (x, s')"
  shows "leases_advance s s'" "sessions_advance s s'"
proof -
  show "leases_advance s s'"
    using assms
  proof (cases rule: open_reconciliation_Inr)
    case (opened a run sid rsv t)
    then have "activities s' = row_set act_id aid (unlease_row e) (activities s)"
      using append_run_event_activities [OF opened(12)] by (auto simp: add_reconciliation_Inr set_defs)
    then show ?thesis
      by (rule leases_advance_set) (auto simp: unlease_row_def lease_moves_def)
  qed (simp add: leases_advance_same)
  from assms show "sessions_advance s s'"
  proof (cases rule: open_reconciliation_sessions)
    case (1 sid)
    then show ?thesis
      by (intro sessions_advance_opt [where k = sid and f = "await_session e"])
        (auto dest: check_session_Inr simp: await_session_def)
  qed
qed

lemma resolve_reconciliation_sessions:
  assumes "resolve_reconciliation e cid resolution note actor result s = Inr (x, s')"
  obtains sid res where "attempts s' = attempts s"
    "sessions s' = sessions (opt_write set_session sid (\<lambda>v. v\<lparr>ses_state := session_target res,
       ses_updated_at := date_column e (now e)\<rparr>) s)"
    "\<forall>k v. sid = Some k \<and> get_session k s = Some v \<longrightarrow>
       session_target res \<in> set (SESSION_TRANSITIONS (ses_state v))"
  using assms
proof (cases rule: resolve_reconciliation_Inr)
  case (replay row res)
  then show ?thesis using that [of None] by (simp add: opt_write_def)
next
  case (settle res row prior a run t u)
  have "sessions s' = sessions (opt_write set_session (rc_session_id prior) (\<lambda>v. v\<lparr>ses_state :=
      session_target res, ses_updated_at := date_column e (now e)\<rparr>) s)" "attempts s' = attempts s"
    using append_run_event_Inr(1) [OF settle(11)] resolve_budget_frame(6,7) [OF settle(10)]
      resolve_session_Inr(1) [OF settle(9)]
    by (auto simp: opt_write_def set_defs split: option.splits)
  moreover have "session_target res \<in> set (SESSION_TRANSITIONS (ses_state v))"
    if "rc_session_id prior = Some k" "get_session k s = Some v" for k v
    using resolve_session_Inr(2) [OF settle(9) that(1)] that(2) by (simp add: get_session_def set_defs)
  ultimately show ?thesis using that by blast
qed

lemma resolve_reconciliation_advances:
  assumes "resolve_reconciliation e cid resolution note actor result s = Inr (x, s')"
  shows "leases_advance s s'" "sessions_advance s s'"
proof -
  show "leases_advance s s'"
    using assms
  proof (cases rule: resolve_reconciliation_Inr)
    case (settle res row prior a run t u)
    have "activities s' = row_set act_id (rc_activity_id prior) (resolved_activity e res result) (activities s)"
      using append_run_event_activities [OF settle(11)] resolve_budget_frame(5) [OF settle(10)]
        resolve_session_Inr(1) [OF settle(9)] by (simp add: set_defs)
    then show ?thesis
      by (rule leases_advance_set) (auto simp: resolved_activity_def lease_moves_def)
  qed (simp add: leases_advance_same)
  from assms show "sessions_advance s s'"
  proof (cases rule: resolve_reconciliation_sessions)
    case (1 sid res)
    then show ?thesis
      by (intro sessions_advance_opt [where k = sid and f = "\<lambda>v. v\<lparr>ses_state := session_target res,
            ses_updated_at := date_column e (now e)\<rparr>"])
        (auto simp: session_moves_def session_reaches_step)
  qed
qed

lemma sessions_numbered_opt:
  assumes "sessions t = sessions (opt_write set_session k f s)" and "attempts t = attempts s"
    and "\<And>v. ses_id (f v) = ses_id v" "\<And>v. ses_run_id (f v) = ses_run_id v"
      "\<And>v. ses_number (f v) = ses_number v"
  shows "sessions_numbered t = sessions_numbered s"
proof (cases k)
  case None
  with assms(1,2) show ?thesis by (simp add: opt_write_def sessions_numbered_def)
next
  case (Some x)
  with assms show ?thesis
    by (intro sessions_numbered_set [where k = x and f = f]) (auto simp: opt_write_def set_session_def)
qed

lemma runtime_step_numbered:
  assumes "runtime_step c s = Inr (r, s')"
  shows "sessions_numbered s' = sessions_numbered s"
  using assms
proof (cases rule: runtime_step_cases)
  case (invoke e rec)
  then show ?thesis
    by (auto simp: record_invocation_def raise_simps add_invocation_Inr sessions_numbered_def
        split: option.splits if_splits dest!: sym [of "Inr _"])
next
  case (replace e rec)
  then show ?thesis
    by (auto simp: replace_invocation_def set_invocation_def sessions_numbered_def
        split: option.splits if_splits)
next
  case (open_case e rid aid reason actor session evidence reservation)
  then obtain x where "open_reconciliation e rid aid reason actor session evidence reservation s = Inr (x, s')"
    by (auto simp: Inr_eq_bind_err)
  then show ?thesis
  proof (cases rule: open_reconciliation_sessions)
    case (1 sid)
    then show ?thesis
      by (intro sessions_numbered_opt [where k = sid and f = "await_session e"])
        (auto simp: await_session_def)
  qed
next
  case (resolve e cid resolution nt actor result)
  then obtain x where "resolve_reconciliation e cid resolution nt actor result s = Inr (x, s')"
    by (auto simp: Inr_eq_bind_err)
  then show ?thesis
  proof (cases rule: resolve_reconciliation_sessions)
    case (1 sid res)
    then show ?thesis
      by (intro sessions_numbered_opt [where k = sid and f = "\<lambda>v. v\<lparr>ses_state := session_target res,
            ses_updated_at := date_column e (now e)\<rparr>"]) auto
  qed
qed

lemma runtime_step_log: "runtime_step c s = Inr (r, s') \<Longrightarrow> log_behaved s s'"
  by (erule runtime_step_Inr)
    (auto simp: Inr_eq_bind_err intro: well_behaved_log invocation_behaves [OF sym]
      open_reconciliation_behaves resolve_reconciliation_log)

interpretation runtime_log: monotone_service runtime_step log_behaved
  by unfold_locales (auto intro: log_behaved_trans runtime_step_log)

interpretation runtime_numbering: transactional runtime_step sessions_numbered
  by unfold_locales (auto simp: runtime_step_numbered)

section \<open>Properties\<close>

lemma mk_reconciliation_fields:
  assumes "mk_reconciliation r = Inr x"
  shows "rc_reconciliation_id x = rc_reconciliation_id r" "rc_run_id x = rc_run_id r"
    "rc_activity_id x = rc_activity_id r" "rc_session_id x = rc_session_id r"
    "rc_budget_reservation_id x = rc_budget_reservation_id r" "rc_state x = rc_state r"
  using assms by (auto simp: mk_reconciliation_def raise_simps validate_resolution_def split: if_splits)

text \<open>What opening a new case leaves behind.\<close>

lemma opened_state:
  assumes "open_reconciliation e rid aid reason actor session evidence reservation s = Inr (x, s')"
    and "find (\<lambda>c. rec_activity_id c = aid \<and> rec_state c = Open) (reconciliations s) = None"
  obtains a run where "get_activity aid s = Some a" "get_run rid s = Some run" "act_run_id a = rid"
    "get_activity aid s' = Some (unlease_row e a)"
    "get_run rid s' = Some (advance_run e (now e) (block_run run))"
    "get_reconciliation (rc_reconciliation_id x) s' = Some (case_row e x)"
    "rc_activity_id x = aid" "rc_run_id x = rid" "rc_state x = Open" "ledgers s' = ledgers s"
    "\<And>k. rc_session_id x = Some k \<Longrightarrow> get_session k s' = map_option (await_session e) (get_session k s)"
    "\<And>k. rc_budget_reservation_id x = Some k \<Longrightarrow>
       get_reservation k s' = map_option hold_reserved (get_reservation k s) \<and>
       (\<exists>r. get_reservation k s = Some r \<and> active r \<and> res_run_id r = rid)"
  using assms(1)
proof (cases rule: open_reconciliation_Inr)
  case (existing c)
  with assms(2) show ?thesis by (auto simp: find_None_iff)
next
  case (opened a run sid rsv t)
  note eff = append_run_event_Inr(1) [OF opened(12)]
  let ?u = "opt_write set_reservation rsv hold_reserved (opt_write set_session sid (await_session e)
     (set_run rid block_run (set_activity aid (unlease_row e) s)))"
  have t: "t = ?u\<lparr>reconciliations := reconciliations ?u @ [case_row e x]\<rparr>"
    using opened(11) by (simp add: add_reconciliation_Inr)
  have ids: "run_id run = rid" "act_id a = aid"
    using run_table.get_key [OF opened(2)] activity_table.get_key [OF opened(1)] by auto
  have x: "rc_activity_id x = aid" "rc_run_id x = rid" "rc_state x = Open" "rc_session_id x = sid"
    "rc_budget_reservation_id x = rsv"
    using mk_reconciliation_fields [OF opened(10)] opened(3) ids by (simp_all add: open_case_def)
  have "get_activity aid s' = Some (unlease_row e a)"
    using opened(1) by (simp add: eff t get_activity_def set_defs row_get_row_set unlease_row_def)
  moreover have "get_run rid s' = Some (advance_run e (now e) (block_run run))"
    using opened(2) ids by (simp add: eff t get_run_def set_defs row_get_row_set)
  moreover have "get_reconciliation (rc_reconciliation_id x) s' = Some (case_row e x)"
    using reconciliation_table.get_after_add [OF opened(11)]
    by (simp add: eff get_reconciliation_def case_row_def)
  moreover have "get_session k s' = map_option (await_session e) (get_session k s)" if "sid = Some k" for k
    using that by (simp add: eff t get_session_def opt_write_def set_defs row_get_row_set await_session_def
        split: option.split)
  moreover have "get_reservation k s' = map_option hold_reserved (get_reservation k s)" if "rsv = Some k" for k
    using that by (simp add: eff t get_reservation_def opt_write_def set_defs row_get_row_set split: option.split)
  moreover have "\<exists>r. get_reservation k s = Some r \<and> active r \<and> res_run_id r = rid" if "rsv = Some k" for k
    using opened(9) that by (auto simp: check_reservation_def active_def split: option.splits if_splits)
  moreover have "ledgers s' = ledgers s" by (simp add: eff t set_defs)
  ultimately show ?thesis using opened(1,2,3) x that [of a run] by blast
qed


text \<open>
  A resolution is decided once: after a case was resolved, resolving it the same way
  returns the recorded case and changes nothing, and any other known resolution is refused.
\<close>

theorem resolution_final:
  assumes "resolve_reconciliation e cid resolution note actor result s = Inr (c, s')"
  shows "resolve_reconciliation e' cid resolution note' actor' result' s' = Inr (c, s') \<and>
    (resolution_of other \<noteq> None \<and> resolution_of other \<noteq> resolution_of resolution \<longrightarrow>
       resolve_reconciliation e' cid other note' actor' result' s' =
         Inl (RuntimeConflictError ''reconciliation already resolved differently''))"
proof -
  obtain row res where "get_reconciliation cid s' = Some row" "rec_record row = c" "rc_state c = Resolved"
    "rc_resolution c = Some res" "resolution_of resolution = Some res"
    using assms
  proof (cases rule: resolve_reconciliation_Inr)
    case (replay row res)
    then show ?thesis using that by blast
  next
    case (settle res row prior a run t u)
    have "get_reconciliation cid u = Some row"
      using settle(2) resolve_session_Inr(1) [OF settle(9)] resolve_budget_reconciliations [OF settle(10)]
      by (simp add: get_reconciliation_def opt_write_tables set_defs)
    then have "get_reconciliation cid s' = Some (close_case e c row)"
      using append_run_event_Inr(1) [OF settle(11)] settle(12)
      by (simp add: get_reconciliation_def set_reconciliation_def row_get_row_set close_case_def)
    then show ?thesis
      by (rule that) (use settle(1,12) in \<open>simp_all add: close_case_def resolved_record_def\<close>)
  qed
  then show ?thesis by (auto simp: resolve_reconciliation_def Let_def)
qed

text \<open>
  Resolving keeps the accounts, as long as the reservation recorded in the case is still
  an active one of the case's run: whatever the resolution, the ledger invariant holds
  after it when it held before.
\<close>

theorem resolve_keeps_accounts:
  assumes "resolve_reconciliation e cid resolution note actor result s = Inr (c, s')"
    and "ledger_inv s" and "specs_inv s"
    and "get_reconciliation cid s = Some row" and "budget_attached s (rec_record row)"
  shows "ledger_inv s'"
  using resolve_reconciliation_behaves [OF assms(1)] assms(2-) by (auto simp: well_behaved_def)

section \<open>Evaluations\<close>

text \<open>A reserved, claimed activity whose case is opened and resolved.\<close>

definition demo_held :: db where
  "demo_held =
     (let s0 = run_sessions budget_step [(call_at ''a'' 1, Reserve ''r'' ''k'' (plain_usage 2) ''op'')] demo_db;
          s1 = run_sessions activity_step [(call_at ''b'' 2, Enqueue ''r'' ''k'' ''in'' ''op'' None (Some ''a'')),
            (call_at ''c'' 3, Claim ''w1'' 30 None)] s0
      in s1)"

definition demo_case :: ReconciliationCaseRecord where
  "demo_case = \<lparr>rc_reconciliation_id = ''d'', rc_run_id = ''r'', rc_activity_id = ''b'', rc_session_id = None,
     rc_reason = ''lost'', rc_evidence_digests = [], rc_budget_reservation_id = Some ''a'', rc_state = Open,
     rc_resolution = None, rc_resolution_note = None, rc_opened_at = Aware 4000000 0, rc_resolved_at = None\<rparr>"

definition demo_opened :: db where
  "demo_opened = snd (in_session (open_reconciliation (call_at ''d'' 4) ''r'' ''b'' ''lost'' ''op'' None [] None) demo_held)"

definition demo_retried :: db where
  "demo_retried = snd (in_session (resolve_reconciliation (call_at ''f'' 5) ''d'' ''retry'' ''n'' ''op'' None) demo_opened)"

lemma demo_open: "open_reconciliation (call_at ''d'' 4) ''r'' ''b'' ''lost'' ''op'' None [] None demo_held =
    Inr (demo_case, demo_opened)"
  by code_simp

lemma demo_no_case: "find (\<lambda>c. rec_activity_id c = ''b'' \<and> rec_state c = Open) (reconciliations demo_held) = None"
  by code_simp

lemma demo_retry: "resolve_reconciliation (call_at ''f'' 5) (rc_reconciliation_id demo_case) ''retry'' ''n'' ''op'' None
    demo_opened = Inr (resolved_record (call_at ''f'' 5) Retry ''n'' demo_case, demo_retried)"
  by code_simp


theorem resolution_final_witness:
  "resolve_reconciliation (call_at ''g'' 6) (rc_reconciliation_id demo_case) ''retry'' ''m'' ''x'' None demo_retried =
    Inr (resolved_record (call_at ''f'' 5) Retry ''n'' demo_case, demo_retried)"
  using resolution_final [OF demo_retry] by blast

lemma demo_opened_accounts: "ledger_inv demo_opened" "specs_inv demo_opened"
  "budget_attached demo_opened (rec_record (case_row (call_at ''d'' 4) demo_case))"
  by code_simp+

lemma demo_case_row: "get_reconciliation (rc_reconciliation_id demo_case) demo_opened =
    Some (case_row (call_at ''d'' 4) demo_case)"
  by code_simp

theorem resolve_keeps_accounts_witness: "ledger_inv demo_retried"
  using resolve_keeps_accounts [OF demo_retry demo_opened_accounts(1,2) demo_case_row demo_opened_accounts(3)] .

end
