(* ===== verification/TerminalBudget.thy ===== *)
theory TerminalBudget
  imports RuntimeSvc
begin

text \<open>
  Settlement of a durable variation result that exhausts the run budget
  (application/terminal\_budget\_service.py): one block charges the actual usage, marks the
  reservation exceeded, completes the activity, blocks the candidate with a policy denial,
  cancels its evaluation, fails the run and closes the activity's open cases.
\<close>

section \<open>Operations\<close>

definition terminal_append_event ::
  "env \<Rightarrow> py_datetime \<Rightarrow> nat \<Rightarrow> RunRow \<Rightarrow> string \<Rightarrow> string \<Rightarrow> jval \<Rightarrow> db \<Rightarrow> err + db" where
  "terminal_append_event = append_run_event"

definition fail_record :: "env \<Rightarrow> ReconciliationCaseRecord \<Rightarrow> ReconciliationCaseRecord" where
  "fail_record e prior = prior\<lparr>rc_state := Resolved, rc_resolution := Some Fail,
     rc_resolution_note := Some ''durable result exhausted the immutable run budget'',
     rc_resolved_at := Some (now e)\<rparr>"

definition terminal_resolve_reconciliation :: "env \<Rightarrow> ReconciliationCaseRow \<Rightarrow> ReconciliationCaseRow" where
  "terminal_resolve_reconciliation e row = close_case e (fail_record e (rec_record row)) row"

definition open_case_of :: "string \<Rightarrow> string \<Rightarrow> ReconciliationCaseRow \<Rightarrow> bool" where
  "open_case_of rid aid c \<longleftrightarrow> rec_run_id c = rid \<and> rec_activity_id c = aid \<and> rec_state c = Open"

definition resolve_open_cases :: "env \<Rightarrow> string \<Rightarrow> string \<Rightarrow> db \<Rightarrow> db" where
  "resolve_open_cases e rid aid s = s\<lparr>reconciliations := map (\<lambda>c. if open_case_of rid aid c
     then terminal_resolve_reconciliation e c else c) (reconciliations s)\<rparr>"

definition evaluation_key :: "string \<Rightarrow> string" where
  "evaluation_key cid = ''evaluate:'' @ cid"

definition cancel_evaluation_activity :: "env \<Rightarrow> ActivityRow \<Rightarrow> ActivityRow" where
  "cancel_evaluation_activity e a = (if act_state a = Act_queued
     then a\<lparr>act_state := Act_cancelled,
       act_error := Some (JObj [(''reason'', JStr ''run_budget_exhausted'')]),
       act_updated_at := date_column e (now e)\<rparr> else a)"

definition release_evaluation :: "env \<Rightarrow> BudgetReservationRow \<Rightarrow> BudgetReservationRow" where
  "release_evaluation e r = r\<lparr>res_state := Released, res_actual := Some usage_zero,
     res_reconciled_at := Some (date_column e (now e))\<rparr>"

text \<open>The evaluation activity: none, or one that is queued or already cancelled.\<close>

definition cancel_activity ::
  "env \<Rightarrow> CandidateRow \<Rightarrow> BudgetReservationRow option \<Rightarrow> db \<Rightarrow> err + db" where
  "cancel_activity e candidate evaluation_reservation s =
     (case find_activity (cand_run_id candidate) (evaluation_key (cand_id candidate)) s of
        None \<Rightarrow> Inr s
      | Some activity \<Rightarrow>
          if act_state activity \<notin> {Act_queued, Act_cancelled}
          then Inl (TerminalBudgetConflictError (''cannot cancel evaluation activity in state '' @
            activity_state_name (act_state activity)))
          else if (case evaluation_reservation of None \<Rightarrow> False
                   | Some r \<Rightarrow> act_reservation_id activity \<noteq> Some (res_id r))
          then Inl (TerminalBudgetConflictError ''evaluation activity has a different budget reservation'')
          else if evaluation_reservation = None \<and> act_reservation_id activity \<noteq> None
          then Inl (TerminalBudgetConflictError ''evaluation budget reservation is missing'')
          else Inr (set_activity (act_id activity) (cancel_evaluation_activity e) s))"

definition cancel_evaluation ::
  "env \<Rightarrow> CandidateRow \<Rightarrow> BudgetReservationRow option \<Rightarrow> UsageRecord \<Rightarrow> db \<Rightarrow> err + UsageRecord \<times> db" where
  "cancel_evaluation e candidate evaluation_reservation reserved s =
     bind_err (cancel_activity e candidate evaluation_reservation s) (\<lambda>s.
     case evaluation_reservation of
       None \<Rightarrow> Inr (reserved, s)
     | Some r \<Rightarrow>
         if res_state r = Released then Inr (reserved, s)
         else if res_state r \<notin> {Reserved, Held}
         then Inl (TerminalBudgetConflictError ''evaluation budget reservation is not releasable'')
         else
           bind_err (reconcile_usage usage_zero reserved (res_estimated r) usage_zero) (\<lambda>(_, remaining).
           Inr (remaining, set_reservation (res_id r) (release_evaluation e) s)))"

definition budget_reason :: "string \<Rightarrow> string" where
  "budget_reason name =
     (if name = ''model_input_tokens'' then ''model_input_token_budget_exceeded''
      else if name = ''model_output_tokens'' then ''model_output_token_budget_exceeded''
      else name @ ''_budget_exceeded'')"

definition budget_denial ::
  "env \<Rightarrow> string \<Rightarrow> CandidateRow \<Rightarrow> UsageRecord \<Rightarrow> BudgetSpec \<Rightarrow> string list \<Rightarrow> string \<Rightarrow> PolicyDecision" where
  "budget_denial e rid candidate actual limit dims bundle =
     \<lparr>pd_decision_id = uuid5 e (''avo:policy:budget-exhausted:'' @ cand_id candidate),
      policy_engine_id = ''avo-terminal-budget-v1'', pd_policy_bundle_digest = bundle,
      pd_action = ''candidate.evaluate'',
      pd_resource = ''run/'' @ rid @ ''/candidate/'' @ cand_id candidate,
      pd_input_digest = canonical_digest e (D_budget_input actual (cand_manifest_digest candidate) limit),
      pd_outcome = P_deny, pd_reason_codes = map budget_reason dims, obligations = [],
      pd_decided_at = now e\<rparr>"

definition record_policy_denial ::
  "env \<Rightarrow> string \<Rightarrow> CandidateRow \<Rightarrow> UsageRecord \<Rightarrow> BudgetSpec \<Rightarrow> string list \<Rightarrow> string \<Rightarrow> db \<Rightarrow> err + db" where
  "record_policy_denial e rid candidate actual limit dims bundle s =
     (let decision = budget_denial e rid candidate actual limit dims bundle;
          digest = canonical_digest e (D_policy decision)
      in case get_policy_decision (pd_decision_id decision) s of
           Some existing \<Rightarrow>
             if pol_decision_digest existing \<noteq> digest
             then Inl (TerminalBudgetConflictError ''budget policy decision conflicts'') else Inr s
         | None \<Rightarrow> add_policy_decision \<lparr>pol_id = pd_decision_id decision, pol_run_id = rid,
             pol_candidate_id = Some (cand_id candidate), pol_decision_digest = digest,
             pol_decision = decision, pol_created_at = date_column e (now e)\<rparr> s)"

fun candidate_row_value :: "candidate_row_state \<Rightarrow> string" where
  "candidate_row_value Seed = ''seed''"
| "candidate_row_value (In_state st) = candidate_value st"

text \<open>What happens to the candidate of the session, if it produced one.\<close>

definition block_candidate ::
  "env \<Rightarrow> string \<Rightarrow> CandidateRow option \<Rightarrow> BudgetReservationRow option \<Rightarrow> UsageRecord \<Rightarrow> BudgetSpec \<Rightarrow>
     string list \<Rightarrow> string \<Rightarrow> UsageRecord \<Rightarrow> db \<Rightarrow> err + UsageRecord \<times> db" where
  "block_candidate e rid candidate evaluation_reservation actual limit dims bundle remaining s =
     (case candidate of
        None \<Rightarrow> Inr (remaining, s)
      | Some c \<Rightarrow>
          if cand_state c \<notin> {In_state C_STAGED, In_state C_POLICY_BLOCKED}
          then Inl (TerminalBudgetConflictError (''cannot budget-block candidate in state '' @
            candidate_row_value (cand_state c)))
          else
            bind_err (if cand_state c = In_state C_STAGED
              then require_transition (CandidateL C_STAGED) (CandidateL C_POLICY_BLOCKED) else Inr ()) (\<lambda>_.
            bind_err (cancel_evaluation e c evaluation_reservation remaining
              (set_candidate (cand_id c) (\<lambda>c. c\<lparr>cand_state := In_state C_POLICY_BLOCKED\<rparr>) s)) (\<lambda>(remaining, s).
            bind_err (record_policy_denial e rid c actual limit dims bundle s) (\<lambda>s.
            Inr (remaining, s)))))"

definition exceeded_row :: "env \<Rightarrow> UsageRecord \<Rightarrow> BudgetReservationRow \<Rightarrow> BudgetReservationRow" where
  "exceeded_row e actual r = r\<lparr>res_state := Exceeded, res_actual := Some actual,
     res_reconciled_at := Some (date_column e (now e))\<rparr>"

definition settled_activity :: "env \<Rightarrow> string \<Rightarrow> ActivityRow \<Rightarrow> ActivityRow" where
  "settled_activity e result a = a\<lparr>act_state := Act_completed, act_result_digest := Some result,
     act_error := None, act_lease_owner := None, act_lease_expires_at := None,
     act_updated_at := date_column e (now e)\<rparr>"

definition session_candidates :: "string \<Rightarrow> ActivityRow \<Rightarrow> db \<Rightarrow> CandidateRow list" where
  "session_candidates rid a s =
     filter (\<lambda>c. cand_run_id c = rid \<and> cand_session_id c = act_session_id a) (candidates s)"

definition evaluation_reservation_of :: "string \<Rightarrow> CandidateRow option \<Rightarrow> db \<Rightarrow> BudgetReservationRow option" where
  "evaluation_reservation_of rid candidate s =
     (case candidate of None \<Rightarrow> None | Some c \<Rightarrow> find_reservation rid (evaluation_key (cand_id c)) s)"

definition unreserved_evaluation ::
  "CandidateRow option \<Rightarrow> BudgetReservationRow option \<Rightarrow> UsageRecord \<Rightarrow> UsageRecord" where
  "unreserved_evaluation candidate evaluation_reservation required_evaluation =
     (if candidate \<noteq> None \<and>
         (case evaluation_reservation of None \<Rightarrow> True | Some r \<Rightarrow> res_state r \<notin> {Reserved, Held})
      then required_evaluation else usage_zero)"

text \<open>The first settlement of an active reservation.\<close>

definition settle_active ::
  "env \<Rightarrow> RunRow \<Rightarrow> ActivityRow \<Rightarrow> BudgetReservationRow \<Rightarrow> BudgetLedgerRow \<Rightarrow> string \<Rightarrow> UsageRecord \<Rightarrow>
     UsageRecord \<Rightarrow> string \<Rightarrow> string \<Rightarrow> db \<Rightarrow> err + unit \<times> db" where
  "settle_active e run activity reservation ledger result actual required_evaluation bundle actor s =
     (let rid = run_id run; aid = act_id activity; limit = led_limit ledger in
      bind_err (reconcile_usage (led_used ledger) (led_reserved ledger)
        (res_estimated reservation) actual) (\<lambda>(settled_used, remaining).
      if 1 < length (session_candidates rid activity s)
      then Inl (TerminalBudgetConflictError ''variation session produced multiple candidates'')
      else
        let candidate = (case session_candidates rid activity s of [] \<Rightarrow> None | c # _ \<Rightarrow> Some c);
            evaluation_reservation = evaluation_reservation_of rid candidate s;
            projected = usage_plus (usage_plus settled_used remaining)
              (unreserved_evaluation candidate evaluation_reservation required_evaluation);
            dims = exceeded_names projected limit
        in if fits_within projected limit
           then Inl (TerminalBudgetConflictError ''usage does not exhaust the run budget'')
           else
             bind_err (block_candidate e rid candidate evaluation_reservation actual limit dims bundle
               remaining s) (\<lambda>(remaining, s).
             bind_err (if run_state run = R_FAILED then Inr ()
               else require_transition (RunL (run_state run)) (RunL R_FAILED)) (\<lambda>_.
             bind_err (terminal_append_event e (now e) 0 run ''campaign.budget_exhausted'' actor
               (JObj [(''activity_id'', JStr aid), (''candidate_id'', json_opt (map_option cand_id candidate)),
                  (''exceeded_dimensions'', JList (map JStr dims)),
                  (''reservation_id'', JStr (res_id reservation)), (''result_digest'', JStr result)])
               (resolve_open_cases e rid aid
                 (set_run rid (\<lambda>r. r\<lparr>run_state := R_FAILED\<rparr>)
                 (set_activity aid (settled_activity e result)
                 (set_reservation (res_id reservation) (exceeded_row e actual)
                 (set_ledger rid (\<lambda>l. l\<lparr>led_used := settled_used, led_reserved := remaining,
                    led_revision := led_revision l + 1\<rparr>) s)))))) (\<lambda>s.
             Inr ((), s))))))"

text \<open>The repeated settlement of an already exceeded reservation.\<close>

definition settle_again ::
  "env \<Rightarrow> RunRow \<Rightarrow> ActivityRow \<Rightarrow> BudgetReservationRow \<Rightarrow> UsageRecord \<Rightarrow> string \<Rightarrow> db \<Rightarrow> err + unit \<times> db" where
  "settle_again e run activity reservation actual actor s =
     (case res_actual reservation of
        None \<Rightarrow> Inl (ValueError ''Field required'')
      | Some prior_actual \<Rightarrow>
          if prior_actual \<noteq> actual
          then Inl (TerminalBudgetConflictError ''exceeded reservation has different actual usage'')
          else if run_state run \<noteq> R_FAILED \<or> act_state activity \<noteq> Act_completed
          then Inl (TerminalBudgetConflictError ''terminal budget settlement is incomplete'')
          else if \<not> list_ex (open_case_of (run_id run) (act_id activity)) (reconciliations s)
          then Inr ((), s)
          else
            bind_err (terminal_append_event e (now e) 0 run ''reconciliation.resolved'' actor
              (JObj [(''activity_id'', JStr (act_id activity)), (''resolution'', JStr ''fail'')])
              (resolve_open_cases e (run_id run) (act_id activity) s)) (\<lambda>s. Inr ((), s)))"

definition settle_exhausted_variation ::
  "env \<Rightarrow> string \<Rightarrow> string \<Rightarrow> string \<Rightarrow> string \<Rightarrow> UsageRecord \<Rightarrow> UsageRecord \<Rightarrow> string \<Rightarrow> string \<Rightarrow>
     int option \<Rightarrow> db \<Rightarrow> err + unit \<times> db" where
  "settle_exhausted_variation e rid aid rsv result actual required_evaluation bundle actor epoch s =
     (case (get_run rid s, get_activity aid s, get_reservation rsv s, get_ledger rid s) of
        (Some run, Some activity, Some reservation, Some ledger) \<Rightarrow>
          if act_run_id activity \<noteq> rid \<or> res_run_id reservation \<noteq> rid
          then Inl (TerminalBudgetConflictError ''terminal budget context crosses run boundaries'')
          else if act_reservation_id activity \<noteq> Some rsv
          then Inl (TerminalBudgetConflictError ''activity has a different budget reservation'')
          else if act_state activity = Act_running \<and>
            (case epoch of None \<Rightarrow> False | Some n \<Rightarrow> act_lease_epoch activity \<noteq> n)
          then Inl (TerminalBudgetConflictError ''stale activity lease epoch'')
          else if act_state activity \<notin> {Act_running, Act_reconciliation_required, Act_completed}
          then Inl (TerminalBudgetConflictError (''cannot terminally settle activity in state '' @
            activity_state_name (act_state activity)))
          else if act_state activity = Act_completed \<and> act_result_digest activity \<noteq> Some result
          then Inl (TerminalBudgetConflictError ''activity completed with another result'')
          else if res_state reservation = Exceeded
          then settle_again e run activity reservation actual actor s
          else if res_state reservation \<notin> {Reserved, Held}
          then Inl (TerminalBudgetConflictError (''cannot terminally settle reservation in state '' @
            state_name (res_state reservation)))
          else settle_active e run activity reservation ledger result actual required_evaluation bundle actor s
      | _ \<Rightarrow> Inl (LookupError ''terminal budget settlement context is incomplete''))"

section \<open>What a successful call did\<close>

lemma cancel_activity_Inr:
  assumes "cancel_activity e c ev s = Inr t"
  shows "t = s \<or> (\<exists>k. t = set_activity k (cancel_evaluation_activity e) s)"
  using assms by (auto simp: cancel_activity_def split: option.splits if_splits)

lemma cancel_evaluation_Inr:
  assumes "cancel_evaluation e c ev reserved s = Inr (remaining, t)"
  obtains (keep) u where "cancel_activity e c ev s = Inr u" "t = u" "remaining = reserved"
      "\<forall>r. ev = Some r \<longrightarrow> res_state r = Released"
  | (free) u r where "cancel_activity e c ev s = Inr u" "ev = Some r" "active r"
      "res_estimated r \<le> reserved" "remaining = reserved - res_estimated r"
      "t = set_reservation (res_id r) (release_evaluation e) u"
  using assms
  by (cases ev)
    (auto simp: cancel_evaluation_def raise_simps reconcile_usage_Inr active_def
      split: if_splits prod.splits)

lemma record_policy_denial_Inr:
  assumes "record_policy_denial e rid c actual limit dims bundle s = Inr t"
  shows "\<exists>rows. t = s\<lparr>policy_decisions := policy_decisions s @ rows\<rparr>"
proof (cases "get_policy_decision (pd_decision_id (budget_denial e rid c actual limit dims bundle)) s")
  case None
  with assms show ?thesis by (auto simp: record_policy_denial_def Let_def add_policy_decision_Inr)
next
  case (Some x)
  with assms have "t = s\<lparr>policy_decisions := policy_decisions s @ []\<rparr>"
    by (auto simp: record_policy_denial_def Let_def split: if_splits)
  then show ?thesis by blast
qed

text \<open>
  The candidate part touches candidates, policy decisions, the evaluation activity and the
  evaluation reservation, nothing else.
\<close>

lemma block_candidate_Inr:
  assumes "block_candidate e rid candidate ev actual limit dims bundle reserved s = Inr (remaining, t)"
  shows "\<exists>cs ps as rs. t = s\<lparr>candidates := cs, policy_decisions := ps, activities := as, reservations := rs\<rparr> \<and>
      (as = activities s \<or> (\<exists>k. as = row_set act_id k (cancel_evaluation_activity e) (activities s))) \<and>
      (rs = reservations s \<and> remaining = reserved \<or>
       (\<exists>r. ev = Some r \<and> candidate \<noteq> None \<and> active r \<and> res_estimated r \<le> reserved \<and>
          remaining = reserved - res_estimated r \<and>
          rs = row_set res_id (res_id r) (release_evaluation e) (reservations s)))"
proof (cases candidate)
  case None
  with assms have "t = s\<lparr>candidates := candidates s, policy_decisions := policy_decisions s,
      activities := activities s, reservations := reservations s\<rparr>" "remaining = reserved"
    by (simp_all add: block_candidate_def)
  then show ?thesis by blast
next
  case (Some c)
  let ?s = "set_candidate (cand_id c) (\<lambda>c. c\<lparr>cand_state := In_state C_POLICY_BLOCKED\<rparr>) s"
  from assms Some obtain u where u: "cancel_evaluation e c ev reserved ?s = Inr (remaining, u)"
    and t: "record_policy_denial e rid c actual limit dims bundle u = Inr t"
    by (auto simp: block_candidate_def raise_simps split: if_splits prod.splits)
  from record_policy_denial_Inr [OF t] obtain ps where ps: "t = u\<lparr>policy_decisions := ps\<rparr>" by blast
  obtain v as where v: "cancel_activity e c ev ?s = Inr v" "v = ?s\<lparr>activities := as\<rparr>"
    "as = activities s \<or> (\<exists>k. as = row_set act_id k (cancel_evaluation_activity e) (activities s))"
  proof -
    from u obtain w where w: "cancel_activity e c ev ?s = Inr w"
      by (auto simp: cancel_evaluation_def raise_simps)
    from cancel_activity_Inr [OF w] have "w = ?s\<lparr>activities := activities w\<rparr>"
      "activities w = activities s \<or> (\<exists>k. activities w = row_set act_id k (cancel_evaluation_activity e) (activities s))"
      by (auto simp: set_activity_def set_candidate_def)
    with w that show ?thesis by blast
  qed
  from u show ?thesis
  proof (cases rule: cancel_evaluation_Inr)
    case (keep w)
    with v(1,2) ps have "t = s\<lparr>candidates := candidates ?s, policy_decisions := ps, activities := as,
        reservations := reservations s\<rparr>" by (auto simp: set_candidate_def)
    with v(3) keep(3) show ?thesis by blast
  next
    case (free w r)
    with v(1,2) ps have "t = s\<lparr>candidates := candidates ?s, policy_decisions := ps, activities := as,
        reservations := row_set res_id (res_id r) (release_evaluation e) (reservations s)\<rparr>"
      by (auto simp: set_candidate_def set_reservation_def)
    with v(3) free Some show ?thesis by blast
  qed
qed

definition failed_run :: "RunRow \<Rightarrow> RunRow" where
  "failed_run r = r\<lparr>run_state := R_FAILED\<rparr>"

definition charged :: "UsageRecord \<Rightarrow> UsageRecord \<Rightarrow> BudgetLedgerRow \<Rightarrow> BudgetLedgerRow" where
  "charged used reserved l = l\<lparr>led_used := used, led_reserved := reserved, led_revision := led_revision l + 1\<rparr>"

lemma settle_active_Inr:
  assumes "settle_active e run a r l result actual req bundle actor s = Inr (u, s')"
  obtains candidate ev remaining t p dims where
    "candidate = (case session_candidates (run_id run) a s of [] \<Rightarrow> None | c # _ \<Rightarrow> Some c)"
    "length (session_candidates (run_id run) a s) \<le> 1"
    "ev = evaluation_reservation_of (run_id run) candidate s"
    "res_estimated r \<le> led_reserved l"
    "\<not> led_used l + actual + (led_reserved l - res_estimated r) + unreserved_evaluation candidate ev req
       \<le> led_limit l"
    "dims = exceeded_names (led_used l + actual + (led_reserved l - res_estimated r) +
       unreserved_evaluation candidate ev req) (led_limit l)"
    "block_candidate e (run_id run) candidate ev actual (led_limit l) dims bundle
       (led_reserved l - res_estimated r) s = Inr (remaining, t)"
    "run_state run = R_FAILED \<or> R_FAILED \<in> set (RUN_TRANSITIONS (run_state run))"
    "append_run_event e (now e) 0 run ''campaign.budget_exhausted'' actor p
       (resolve_open_cases e (run_id run) (act_id a)
         (set_run (run_id run) failed_run
         (set_activity (act_id a) (settled_activity e result)
         (set_reservation (res_id r) (exceeded_row e actual)
         (set_ledger (run_id run) (charged (led_used l + actual) remaining) t))))) = Inr s'"
  using assms
  by (auto simp: settle_active_def Let_def bind_err_eq_Inr if_raise_eq_Inr reconcile_usage_Inr
      terminal_append_event_def failed_run_def [abs_def] charged_def [abs_def] simp del: RUN_TRANSITIONS.simps
      split: if_splits prod.splits)

lemma settle_again_Inr:
  assumes "settle_again e run a r actual actor s = Inr (u, s')"
  obtains (idle) "res_actual r = Some actual" "run_state run = R_FAILED" "act_state a = Act_completed" "s' = s"
  | (close) p where "res_actual r = Some actual" "run_state run = R_FAILED" "act_state a = Act_completed"
      "append_run_event e (now e) 0 run ''reconciliation.resolved'' actor p
         (resolve_open_cases e (run_id run) (act_id a) s) = Inr s'"
  using assms
  by (auto simp: settle_again_def raise_simps terminal_append_event_def split: if_splits)

lemma settle_exhausted_Inr:
  assumes "settle_exhausted_variation e rid aid rsv result actual req bundle actor epoch s = Inr (u, s')"
  obtains run a r l where "get_run rid s = Some run" "get_activity aid s = Some a"
    "get_reservation rsv s = Some r" "get_ledger rid s = Some l" "act_run_id a = rid" "res_run_id r = rid"
    "act_reservation_id a = Some rsv"
    "act_state a \<in> {Act_running, Act_reconciliation_required, Act_completed}"
    "act_state a = Act_completed \<longrightarrow> act_result_digest a = Some result"
    "res_state r = Exceeded \<and> settle_again e run a r actual actor s = Inr (u, s') \<or>
     active r \<and> settle_active e run a r l result actual req bundle actor s = Inr (u, s')"
proof -
  from assms obtain run a r l where g: "get_run rid s = Some run" "get_activity aid s = Some a"
    "get_reservation rsv s = Some r" "get_ledger rid s = Some l"
    by (auto simp: settle_exhausted_variation_def split: option.splits)
  from assms g that [OF g] show ?thesis
    by (auto simp: settle_exhausted_variation_def active_def split: if_splits)
qed

section \<open>Every settlement behaves\<close>

lemma failed_run_simps [simp]:
  "run_id (failed_run r) = run_id r" "run_revision (failed_run r) = run_revision r"
  "run_event_sequence (failed_run r) = run_event_sequence r"
  "run_experiment_id (failed_run r) = run_experiment_id r"
  "run_champion_id (failed_run r) = run_champion_id r" "run_state (failed_run r) = R_FAILED"
  by (simp_all add: failed_run_def)

lemma resolve_open_cases_frame [simp]:
  "runs (resolve_open_cases e rid aid s) = runs s" "events (resolve_open_cases e rid aid s) = events s"
  "outbox (resolve_open_cases e rid aid s) = outbox s"
  "experiments (resolve_open_cases e rid aid s) = experiments s"
  "ledgers (resolve_open_cases e rid aid s) = ledgers s"
  "reservations (resolve_open_cases e rid aid s) = reservations s"
  "activities (resolve_open_cases e rid aid s) = activities s"
  "sessions (resolve_open_cases e rid aid s) = sessions s"
  "attempts (resolve_open_cases e rid aid s) = attempts s"
  by (simp_all add: resolve_open_cases_def)

lemma settle_active_log:
  assumes "settle_active e run a r l result actual req bundle actor s = Inr (u, s')"
    and run: "get_run k s = Some run"
  shows "log_behaved s s'"
  using assms(1)
proof (cases rule: settle_active_Inr)
  case (1 candidate ev remaining t p dims)
  from block_candidate_Inr [OF 1(7)] have t: "runs t = runs s" "events t = events s"
    "outbox t = outbox s" "experiments t = experiments s" by auto
  have "run_id run = k" using run by (rule run_table.get_key)
  then show ?thesis
    using 1(8) t
    by (intro log_behaved_append_set [OF 1(9) run, where f = failed_run])
      (auto simp: set_defs run_reaches_step)
qed

lemma settle_again_behaves:
  assumes "settle_again e run a r actual actor s = Inr (u, s')" and run: "get_run k s = Some run"
  shows "well_behaved s s'"
  using assms(1)
proof (cases rule: settle_again_Inr)
  case (close p)
  show ?thesis by (rule well_behaved_append [OF close(4) run]) simp_all
qed simp

lemma settle_exhausted_log:
  assumes "settle_exhausted_variation e rid aid rsv result actual req bundle actor epoch s = Inr (u, s')"
  shows "log_behaved s s'"
  using assms
  by (rule settle_exhausted_Inr)
    (auto intro: settle_active_log well_behaved_log settle_again_behaves)

lemma row_set_row_set:
  "(\<And>r. key (f r) = key r) \<Longrightarrow> row_set key k g (row_set key k f t) = row_set key k (\<lambda>r. g (f r)) t"
  by (simp add: row_set_def)

lemma exceed_ledger:
  assumes ok: "ledger_ok ls rs" and r: "row_get res_id k rs = Some r" "active r" "res_run_id r = q"
    and l: "row_get led_run_id q ls = Some l"
  shows "ledger_ok (row_set led_run_id q (charged (led_used l + actual) (led_reserved l - res_estimated r)) ls)
    (row_set res_id k (exceeded_row e actual) rs)"
proof (rule ledger_ok_move [OF ok r(1,3) l])
  show "led_used (charged (led_used l + actual) (led_reserved l - res_estimated r) l) +
      led_reserved (charged (led_used l + actual) (led_reserved l - res_estimated r) l) \<le> led_limit l"
    if "\<not> overrun q (row_set res_id k (exceeded_row e actual) rs)"
    using that r row_get_SomeD [OF r(1)] unfolding overrun_def bex_row_set
    by (auto simp: exceeded_row_def)
qed (use r in \<open>auto simp: exceeded_row_def charged_def reserved_share_def used_share_def active_def
      settled_def\<close>)

lemma exceed_after_release:
  assumes ok: "ledger_ok ls rs" and r: "row_get res_id k rs = Some r" "active r" "res_run_id r = q"
    and l: "row_get led_run_id q ls = Some l"
    and v: "row_get res_id k' rs = Some v" "active v" "res_run_id v = q" "k' \<noteq> k"
  shows "ledger_ok
    (row_set led_run_id q (charged (led_used l + actual) (led_reserved l - res_estimated r - res_estimated v)) ls)
    (row_set res_id k (exceeded_row e actual) (row_set res_id k' (release_evaluation e) rs))"
proof -
  let ?g = "\<lambda>l'. l'\<lparr>led_reserved := led_reserved l - res_estimated v\<rparr>"
    and ?rs = "row_set res_id k' (release_evaluation e) rs"
  have ok': "ledger_ok (row_set led_run_id q ?g ls) ?rs"
    using ledger_ok_release [OF ok v(1,2), of l "release_evaluation e" ?g] v(3) l
    by (simp add: release_evaluation_def)
  have r': "row_get res_id k ?rs = Some r"
    using r v(4) by (simp add: row_get_row_set release_evaluation_def)
  have l': "row_get led_run_id q (row_set led_run_id q ?g ls) = Some (?g l)"
    using l by (simp add: row_get_row_set)
  have "row_set led_run_id q (charged (led_used l + actual) (led_reserved (?g l) - res_estimated r))
      (row_set led_run_id q ?g ls) =
    row_set led_run_id q (charged (led_used l + actual) (led_reserved l - res_estimated r - res_estimated v)) ls"
    by (simp add: row_set_row_set charged_def [abs_def] diff_right_commute)
  with exceed_ledger [OF ok' r' r(2,3) l', of actual e] show ?thesis by simp
qed

lemma settle_active_ledger:
  assumes "settle_active e run a r l result actual req bundle actor s = Inr (u, s')"
    and "ledger_inv s" and run: "get_run rid s = Some run" and "get_reservation rsv s = Some r" "active r"
      "res_run_id r = rid" "get_ledger rid s = Some l"
    and other: "\<And>c. c \<in> set (session_candidates rid a s) \<Longrightarrow> res_activity_key r \<noteq> evaluation_key (cand_id c)"
  shows "ledger_inv s'"
  using assms(1)
proof (cases rule: settle_active_Inr)
  case (1 candidate ev remaining t p dims)
  have rid: "run_id run = rid" and rsv: "res_id r = rsv"
    using run_table.get_key [OF run] reservation_table.get_key [OF assms(4)] by auto
  from assms(2,4,7) have ok: "ledger_ok (ledgers s) (reservations s)"
    and r: "row_get res_id rsv (reservations s) = Some r" and l: "row_get led_run_id rid (ledgers s) = Some l"
    by (simp_all add: ledger_inv_def get_reservation_def get_ledger_def)
  obtain rs where t: "ledgers t = ledgers s" "reservations t = rs"
    and rs: "rs = reservations s \<and> remaining = led_reserved l - res_estimated r \<or>
       (\<exists>v. ev = Some v \<and> candidate \<noteq> None \<and> active v \<and> remaining = led_reserved l - res_estimated r - res_estimated v \<and>
          rs = row_set res_id (res_id v) (release_evaluation e) (reservations s))"
    using block_candidate_Inr [OF 1(7)] by fastforce
  have "ledger_ok (row_set led_run_id rid (charged (led_used l + actual) remaining) (ledgers s))
      (row_set res_id rsv (exceeded_row e actual) rs)"
    using rs
  proof (elim disjE exE conjE)
    assume "rs = reservations s" "remaining = led_reserved l - res_estimated r"
    then show ?thesis using exceed_ledger [OF ok r assms(5,6) l] by simp
  next
    fix v assume v: "ev = Some v" "candidate \<noteq> None" "active v"
      "remaining = led_reserved l - res_estimated r - res_estimated v"
      "rs = row_set res_id (res_id v) (release_evaluation e) (reservations s)"
    then obtain c where c: "candidate = Some c" by blast
    with 1(1) rid have mem: "c \<in> set (session_candidates rid a s)" by (auto split: list.splits)
    from v(1) c 1(3) rid have find: "find_reservation rid (evaluation_key (cand_id c)) s = Some v"
      by (simp add: evaluation_reservation_of_def)
    note key = find_reservation_mem [OF find]
    have "v \<in> set (reservations s)" using find by (auto simp: find_reservation_def dest: find_SomeD)
    then have v': "row_get res_id (res_id v) (reservations s) = Some v"
      using ledger_okD(2) [OF ok] by (simp add: row_get_mem)
    have ne: "res_id v \<noteq> rsv" using other [OF mem] key v' r by auto
    show ?thesis
      using exceed_after_release [OF ok r assms(5,6) l v' v(3) _ ne] key v(4,5) by simp
  qed
  then show ?thesis
    unfolding append_run_event_ledger [OF 1(9)]
    using t rid rsv by (simp add: ledger_inv_def set_defs)
qed

lemma settle_exhausted_behaves:
  assumes "settle_exhausted_variation e rid aid rsv result actual req bundle actor epoch s = Inr (u, s')"
    and other: "\<And>a r c. get_activity aid s = Some a \<Longrightarrow> get_reservation rsv s = Some r \<Longrightarrow>
      c \<in> set (session_candidates rid a s) \<Longrightarrow> res_activity_key r \<noteq> evaluation_key (cand_id c)"
  shows "well_behaved s s'"
  using assms(1)
proof (cases rule: settle_exhausted_Inr)
  case (1 run a r l)
  from 1(10) show ?thesis
  proof
    assume "res_state r = Exceeded \<and> settle_again e run a r actual actor s = Inr (u, s')"
    with 1(1) show ?thesis by (auto intro: settle_again_behaves)
  next
    assume act: "active r \<and> settle_active e run a r l result actual req bundle actor s = Inr (u, s')"
    then have "ledger_inv s'" if "ledger_inv s"
      using settle_active_ledger [OF _ that 1(1) 1(3) _ 1(6) 1(4)] other [OF 1(2,3)] by blast
    moreover have "experiments s' = experiments s"
      using conjunct2 [OF act]
    proof (cases rule: settle_active_Inr)
      case (1 candidate ev remaining t p dims)
      from block_candidate_Inr [OF 1(7)] append_run_event_runs(4) [OF 1(9)] show ?thesis
        by (auto simp: set_defs)
    qed
    ultimately show ?thesis
      using settle_active_log [OF conjunct2 [OF act] 1(1)] by (simp add: well_behaved_def specs_inv_def)
  qed
qed

lemma settle_exhausted_advances:
  assumes "settle_exhausted_variation e rid aid rsv result actual req bundle actor epoch s = Inr (u, s')"
  shows "leases_advance s s'" "sessions s' = sessions s" "attempts s' = attempts s"
proof -
  have "leases_advance s s' \<and> sessions s' = sessions s \<and> attempts s' = attempts s"
    using assms
  proof (cases rule: settle_exhausted_Inr)
    case (1 run a r l)
    from 1(10) show ?thesis
    proof (elim disjE conjE)
      assume "settle_again e run a r actual actor s = Inr (u, s')"
      then show ?thesis
        by (cases rule: settle_again_Inr) (auto simp: leases_advance_same dest!: append_run_event_Inr(1))
    next
      assume "settle_active e run a r l result actual req bundle actor s = Inr (u, s')"
      then show ?thesis
      proof (cases rule: settle_active_Inr)
        case (1 candidate ev remaining t p dims)
        from block_candidate_Inr [OF 1(7)] have t: "sessions t = sessions s" "attempts t = attempts s"
          and as: "activities t = activities s \<or> (\<exists>k. activities t =
            row_set act_id k (cancel_evaluation_activity e) (activities s))" by auto
        have "leases_advance s t"
          using as by (auto intro: leases_advance_same leases_advance_set
              simp: cancel_evaluation_activity_def lease_moves_def)
        moreover have "leases_advance t s'"
          using append_run_event_activities [OF 1(9)]
          by (intro leases_advance_set [where k = "act_id a" and f = "settled_activity e result"])
            (auto simp: set_defs settled_activity_def lease_moves_def)
        ultimately show ?thesis
          using t append_run_event_Inr(1) [OF 1(9)] by (auto simp: set_defs intro: leases_advance_trans)
      qed
    qed
  qed
  then show "leases_advance s s'" "sessions s' = sessions s" "attempts s' = attempts s" by auto
qed

section \<open>Properties\<close>

lemma cancel_evaluation_activity_simps [simp]:
  "act_id (cancel_evaluation_activity e a) = act_id a"
  "act_run_id (cancel_evaluation_activity e a) = act_run_id a"
  "act_reservation_id (cancel_evaluation_activity e a) = act_reservation_id a"
  by (simp_all add: cancel_evaluation_activity_def)

lemma release_evaluation_simps [simp]:
  "res_id (release_evaluation e r) = res_id r" "res_run_id (release_evaluation e r) = res_run_id r"
  by (simp_all add: release_evaluation_def)

lemma closes_open_case [simp]: "\<not> open_case_of rid aid (terminal_resolve_reconciliation e c)"
  unfolding open_case_of_def terminal_resolve_reconciliation_def close_case_def by simp

text \<open>The rows after a settlement.\<close>

lemma settled_rows:
  assumes "settle_exhausted_variation e rid aid rsv result actual req bundle actor epoch s = Inr (u, s')"
    and "get_reservation rsv s = Some r" and "active r"
  obtains run a l a1 r1 extra where "get_run rid s = Some run" "get_activity aid s = Some a"
    "get_ledger rid s = Some l" "extra \<in> {usage_zero, req}"
    "\<not> led_used l + actual + (led_reserved l - res_estimated r) + extra \<le> led_limit l"
    "get_run rid s' = Some (advance_run e (now e) (failed_run run))"
    "get_activity aid s' = Some (settled_activity e result a1)" "act_id a1 = aid" "act_run_id a1 = rid"
    "act_reservation_id a1 = Some rsv"
    "get_reservation rsv s' = Some (exceeded_row e actual r1)" "res_run_id r1 = rid"
    "get_ledger rid s' \<noteq> None" "map_option led_used (get_ledger rid s') = Some (led_used l + actual)"
    "\<forall>c\<in>set (reconciliations s'). \<not> open_case_of rid aid c"
  using assms(1)
proof (cases rule: settle_exhausted_Inr)
  case (1 run a r0 l)
  from 1(3) assms(2) have r0: "r0 = r" by simp
  have ids: "run_id run = rid" "act_id a = aid" "res_id r = rsv"
    using run_table.get_key [OF 1(1)] activity_table.get_key [OF 1(2)] reservation_table.get_key [OF assms(2)]
    by auto
  from 1(10) assms(3) r0 have "settle_active e run a r l result actual req bundle actor s = Inr (u, s')"
    by (auto simp: active_def)
  then show ?thesis
  proof (cases rule: settle_active_Inr)
    case settled: (1 candidate ev remaining t p dims)
    note eff = append_run_event_Inr(1) [OF settled(9), unfolded ids]
    from block_candidate_Inr [OF settled(7)] obtain cs ps as rs where
      t: "t = s\<lparr>candidates := cs, policy_decisions := ps, activities := as, reservations := rs\<rparr>"
      and as: "as = activities s \<or> (\<exists>k. as = row_set act_id k (cancel_evaluation_activity e) (activities s))"
      and rs: "rs = reservations s \<or> (\<exists>k. rs = row_set res_id k (release_evaluation e) (reservations s))"
      by blast
    have "row_get act_id aid as \<in> {Some a, Some (cancel_evaluation_activity e a)}"
      using as 1(2) by (auto simp: get_activity_def row_get_row_set)
    then obtain a1 where a1: "row_get act_id aid as = Some a1" "act_id a1 = aid" "act_run_id a1 = rid"
      "act_reservation_id a1 = Some rsv"
      using 1(5,7) ids(2) by auto
    have "row_get res_id rsv rs \<in> {Some r, Some (release_evaluation e r)}"
      using rs assms(2) by (auto simp: get_reservation_def row_get_row_set)
    then obtain r1 where r1: "row_get res_id rsv rs = Some r1" "res_run_id r1 = rid"
      using 1(6) r0 by auto
    show ?thesis
    proof (rule that [OF 1(1,2,4) _ settled(5)])
      show "unreserved_evaluation candidate ev req \<in> {usage_zero, req}"
        by (simp add: unreserved_evaluation_def)
      show "get_activity aid s' = Some (settled_activity e result a1)"
        using a1(1) by (simp add: eff t set_defs get_activity_def row_get_row_set settled_activity_def)
      show "get_reservation rsv s' = Some (exceeded_row e actual r1)"
        using r1(1) by (simp add: eff t set_defs get_reservation_def row_get_row_set exceeded_row_def)
      show "get_run rid s' = Some (advance_run e (now e) (failed_run run))"
        using 1(1) by (simp add: eff t set_defs get_run_def row_get_row_set)
      show "\<forall>c\<in>set (reconciliations s'). \<not> open_case_of rid aid c"
        unfolding eff t by (auto simp: set_defs resolve_open_cases_def)
    qed (use 1(4) a1 r1 in \<open>simp_all add: eff t set_defs get_ledger_def row_get_row_set charged_def\<close>)
  qed
qed

text \<open>
  C25. The settlement of an exhausted variation is one atomic outcome: on success the usage
  really exceeded the limit in the projection, the run is failed one revision later, the
  activity is completed with the durable result and holds no lease, the reservation is
  exceeded with the actual usage, the ledger has charged it, and no open case of the
  activity remains.
\<close>

theorem terminal_settlement:
  assumes "settle_exhausted_variation e rid aid rsv result actual req bundle actor epoch s = Inr (u, s')"
    and "get_reservation rsv s = Some r" and "active r"
  shows "\<exists>run l a' r'. get_run rid s = Some run \<and> get_ledger rid s = Some l \<and>
    (\<exists>extra \<in> {usage_zero, req}. \<not> fits_within (usage_plus (usage_plus (usage_plus (led_used l) actual)
       (led_reserved l - res_estimated r)) extra) (led_limit l)) \<and>
    get_run rid s' = Some (advance_run e (now e) (failed_run run)) \<and>
    get_activity aid s' = Some a' \<and> act_state a' = Act_completed \<and> act_result_digest a' = Some result \<and>
    act_lease_owner a' = None \<and>
    get_reservation rsv s' = Some r' \<and> res_state r' = Exceeded \<and> res_actual r' = Some actual \<and>
    map_option led_used (get_ledger rid s') = Some (led_used l + actual) \<and>
    (\<forall>c\<in>set (reconciliations s'). \<not> (rec_run_id c = rid \<and> rec_activity_id c = aid \<and> rec_state c = Open))"
  using assms
  by (rule settled_rows) (auto simp: settled_activity_def exceeded_row_def open_case_of_def)

text \<open>
  Settling twice is safe: after a settlement, the same result and usage settle again
  without a change, whatever the clock, the actor and the presented lease epoch.
\<close>

theorem terminal_settlement_retry:
  assumes "settle_exhausted_variation e rid aid rsv result actual req bundle actor epoch s = Inr (u, s')"
    and "get_reservation rsv s = Some r" and "active r"
  shows "settle_exhausted_variation e' rid aid rsv result actual req' bundle' actor' epoch' s' = Inr ((), s')"
  using assms
proof (rule settled_rows)
  fix run a l a1 r1 assume g: "get_run rid s = Some run" "get_run rid s' = Some (advance_run e (now e) (failed_run run))"
    "get_activity aid s' = Some (settled_activity e result a1)" "act_id a1 = aid" "act_run_id a1 = rid"
    "act_reservation_id a1 = Some rsv" "get_reservation rsv s' = Some (exceeded_row e actual r1)"
    "res_run_id r1 = rid" "get_ledger rid s' \<noteq> None" "\<forall>c\<in>set (reconciliations s'). \<not> open_case_of rid aid c"
  have "run_id run = rid" using g(1) by (rule run_table.get_key)
  with g show ?thesis
    by (auto simp: settle_exhausted_variation_def settle_again_def settled_activity_def exceeded_row_def
        list_ex_iff)
qed

section \<open>Evaluations\<close>

definition demo_terminal :: db where
  "demo_terminal = snd (in_session (settle_exhausted_variation (call_at ''d'' 4) ''r'' ''b'' ''a'' ''out''
     (plain_usage 11) (plain_usage 1) ''bundle'' ''op'' (Some 1)) demo_held)"

lemma demo_settled: "settle_exhausted_variation (call_at ''d'' 4) ''r'' ''b'' ''a'' ''out''
    (plain_usage 11) (plain_usage 1) ''bundle'' ''op'' (Some 1)
    demo_held = Inr ((), demo_terminal)"
  by code_simp

definition demo_held_reservation :: BudgetReservationRow where
  "demo_held_reservation = \<lparr>res_id = ''a'', res_run_id = ''r'', res_activity_key = ''k'',
     res_state = Reserved, res_estimated = plain_usage 2, res_actual = None,
     res_created_at = Naive 1000000, res_reconciled_at = None\<rparr>"

lemma demo_held_row: "get_reservation ''a'' demo_held = Some demo_held_reservation"
  "active demo_held_reservation"
  by code_simp+

theorem terminal_settlement_witness:
  "\<exists>a'. get_activity ''b'' demo_terminal = Some a' \<and> act_state a' = Act_completed \<and>
    act_result_digest a' = Some ''out''"
  using terminal_settlement [OF demo_settled demo_held_row] by blast

theorem terminal_settlement_retry_witness:
  "settle_exhausted_variation (call_at ''z'' 9) ''r'' ''b'' ''a'' ''out'' (plain_usage 11) (plain_usage 1) ''bundle'' ''op''
    None demo_terminal = Inr ((), demo_terminal)"
  using terminal_settlement_retry [OF demo_settled demo_held_row] .

end
