(* ===== verification/Admission.thy ===== *)
theory Admission
  imports Complex_Main Contracts
begin

text \<open>
  The deterministic comparison rule and the admissibility of an evaluation
  (domain/admission.py).
\<close>

section \<open>Comparison\<close>

definition trial_pairs :: "EvaluationRecord \<Rightarrow> (int \<times> int) list" where
  "trial_pairs r = map (\<lambda>t. (trial_index t, seed t)) (trial_records r)"

definition separated ::
  "direction \<Rightarrow> decimal \<Rightarrow> UncertaintyRecord \<Rightarrow> UncertaintyRecord \<Rightarrow> bool" where
  "separated d effect incumbent candidate = (case d of
     Maximize \<Rightarrow> decimal_le (decimal_add (upper incumbent) effect) (lower candidate)
   | Minimize \<Rightarrow> decimal_le (upper candidate) (decimal_sub (lower incumbent) effect))"

definition point_improved :: "direction \<Rightarrow> decimal \<Rightarrow> decimal \<Rightarrow> decimal \<Rightarrow> bool" where
  "point_improved d effect incumbent candidate = (case d of
     Maximize \<Rightarrow> decimal_le (decimal_add incumbent effect) candidate
   | Minimize \<Rightarrow> decimal_le candidate (decimal_sub incumbent effect))"

definition compare_evaluations ::
  "EvaluationRecord \<Rightarrow> EvaluationRecord \<Rightarrow> string \<Rightarrow> direction \<Rightarrow> decimal \<Rightarrow> err + ComparisonRecord" where
  "compare_evaluations incumbent candidate metric d effect =
     (if decimal_negative effect
      then Inl (ComparisonInputError ''minimum_effect cannot be negative'')
      else if hardware_class incumbent \<noteq> hardware_class candidate
      then Inl (ComparisonInputError ''paired evaluations require the same hardware class'')
      else if trial_pairs incumbent = [] \<or> trial_pairs incumbent \<noteq> trial_pairs candidate
      then Inl (ComparisonInputError ''paired evaluations require identical trial indices and seeds'')
      else
        (case (map_of (aggregate_metrics incumbent) metric, map_of (aggregate_metrics candidate) metric,
               map_of (uncertainty incumbent) metric, map_of (uncertainty candidate) metric) of
           (Some iv, Some cv, Some ii, Some ci) \<Rightarrow>
             Inr \<lparr>cmp_metric = metric, cmp_direction = d, incumbent_value = iv,
                  cmp_candidate_value = cv, minimum_effect = effect,
                  conclusion =
                    (if separated d effect ii ci then Improved
                     else if point_improved d effect iv cv then Within_noise
                     else Not_improved)\<rparr>
         | _ \<Rightarrow> Inl (ComparisonInputError (''metric lacks aggregate or uncertainty: '' @ metric))))"

definition hard_constraints :: "EvaluationRecord \<Rightarrow> ConstraintResult list" where
  "hard_constraints r = filter (\<lambda>c. severity c = Hard) (constraints r)"

definition evaluation_is_admissible :: "EvaluationRecord \<Rightarrow> bool" where
  "evaluation_is_admissible r \<longleftrightarrow>
     evaluator_tier r = T_admission \<and> er_outcome r = E_PASSED \<and> trial_records r \<noteq> [] \<and>
     hard_constraints r \<noteq> [] \<and> list_all passed (hard_constraints r)"

section \<open>The order of decimals\<close>

text \<open>The exact value of a decimal as a rational, to state what a comparison means.\<close>

definition decimal_value :: "decimal \<Rightarrow> rat" where
  "decimal_value a = of_int (coefficient a) * 10 powi exponent a"

lemma decimal_align_value:
  assumes "e \<le> exponent a"
  shows "of_int (decimal_align a e) * 10 powi e = decimal_value a"
proof -
  have "(10::rat) ^ nat (exponent a - e) * 10 powi e = 10 powi exponent a"
    using assms by (simp add: power_int_add [symmetric] power_int_of_nat [symmetric] del: power_int_of_nat)
  then show ?thesis by (simp add: decimal_align_def decimal_value_def)
qed

lemma decimal_le_value: "decimal_le a b \<longleftrightarrow> decimal_value a \<le> decimal_value b"
proof -
  let ?e = "min (exponent a) (exponent b)"
  have "decimal_value a \<le> decimal_value b \<longleftrightarrow>
      (of_int (decimal_align a ?e) :: rat) * 10 powi ?e \<le> of_int (decimal_align b ?e) * 10 powi ?e"
    by (simp add: decimal_align_value)
  also have "\<dots> \<longleftrightarrow> (of_int (decimal_align a ?e) :: rat) \<le> of_int (decimal_align b ?e)"
    by (rule mult_le_cancel_right_pos) simp
  finally show ?thesis by (simp add: decimal_le_def Let_def)
qed

text \<open>
  The default context rounds to 28 digits; a sum whose coefficient fits is exact.
\<close>

definition sum_fits :: "decimal \<Rightarrow> decimal \<Rightarrow> bool" where
  "sum_fits a b \<longleftrightarrow>
     (let e = min (exponent a) (exponent b)
      in ndigits (nat \<bar>decimal_align a e + decimal_align b e\<bar>) \<le> decimal_prec)"

lemma decimal_add_value:
  assumes "sum_fits a b"
  shows "decimal_value (decimal_add a b) = decimal_value a + decimal_value b"
proof -
  let ?e = "min (exponent a) (exponent b)"
  have "decimal_add a b = Dec (decimal_align a ?e + decimal_align b ?e) ?e"
    using assms by (simp add: decimal_add_def decimal_fix_def sum_fits_def Let_def)
  then have "decimal_value (decimal_add a b) =
      of_int (decimal_align a ?e) * 10 powi ?e + of_int (decimal_align b ?e) * 10 powi ?e"
    by (simp add: decimal_value_def distrib_right)
  then show ?thesis by (simp add: decimal_align_value)
qed

lemma decimal_neg_value [simp]: "decimal_value (decimal_neg a) = - decimal_value a"
  by (simp add: decimal_value_def decimal_neg_def)

section \<open>Properties\<close>

text \<open>
  A comparison only concludes improvement when there is one: for intervals that contain
  their point values and sums within the precision of the context, a result \<open>improved\<close>
  means that the candidate's exact value beats the incumbent's by at least the minimum
  effect in the direction asked for, and that the inputs were paired on the same hardware
  class and the same trials.
\<close>

theorem improved_is_real:
  assumes "compare_evaluations incumbent candidate metric d effect = Inr c" and "conclusion c = Improved"
    and "map_of (uncertainty incumbent) metric = Some ii" and "map_of (uncertainty candidate) metric = Some ci"
    and "decimal_le (lower ii) (incumbent_value c)" and "decimal_le (incumbent_value c) (upper ii)"
    and "decimal_le (lower ci) (cmp_candidate_value c)" and "decimal_le (cmp_candidate_value c) (upper ci)"
    and "sum_fits (upper ii) effect" and "sum_fits (lower ii) (decimal_neg effect)"
  shows "hardware_class candidate = hardware_class incumbent \<and> trial_pairs candidate = trial_pairs incumbent \<and>
    trial_pairs incumbent \<noteq> [] \<and>
    (case d of
       Maximize \<Rightarrow> decimal_value (incumbent_value c) + decimal_value effect \<le> decimal_value (cmp_candidate_value c)
     | Minimize \<Rightarrow> decimal_value (cmp_candidate_value c) \<le> decimal_value (incumbent_value c) - decimal_value effect)"
proof -
  have inputs: "hardware_class candidate = hardware_class incumbent" "trial_pairs candidate = trial_pairs incumbent"
    "trial_pairs incumbent \<noteq> []" "separated d effect ii ci"
    using assms(1-4) by (auto simp: compare_evaluations_def split: if_splits option.splits)
  have "case d of
       Maximize \<Rightarrow> decimal_value (incumbent_value c) + decimal_value effect \<le> decimal_value (cmp_candidate_value c)
     | Minimize \<Rightarrow> decimal_value (cmp_candidate_value c) \<le> decimal_value (incumbent_value c) - decimal_value effect"
    using inputs(4) assms(5-)
    by (cases d) (auto simp: separated_def decimal_sub_def decimal_le_value decimal_add_value)
  with inputs show ?thesis by blast
qed

text \<open>
  The three conclusions are decided in order: separated intervals give \<open>improved\<close>, else
  a better point value gives \<open>within_noise\<close>, else \<open>not_improved\<close>; unpaired or incomplete
  inputs raise \<open>ComparisonInputError\<close> and nothing else can happen.
\<close>

theorem compare_outcomes:
  "case compare_evaluations incumbent candidate metric d effect of
     Inl x \<Rightarrow> (\<exists>msg. x = ComparisonInputError msg) \<and>
       (decimal_negative effect \<or> hardware_class incumbent \<noteq> hardware_class candidate \<or>
        trial_pairs incumbent = [] \<or> trial_pairs incumbent \<noteq> trial_pairs candidate \<or>
        metric \<notin> fst ` set (aggregate_metrics incumbent) \<inter> fst ` set (aggregate_metrics candidate) \<inter>
          fst ` set (uncertainty incumbent) \<inter> fst ` set (uncertainty candidate))
   | Inr c \<Rightarrow> (\<exists>ii ci. map_of (uncertainty incumbent) metric = Some ii \<and>
       map_of (uncertainty candidate) metric = Some ci \<and>
       (conclusion c = Improved \<longleftrightarrow> separated d effect ii ci) \<and>
       (conclusion c = Within_noise \<longleftrightarrow>
          \<not> separated d effect ii ci \<and> point_improved d effect (incumbent_value c) (cmp_candidate_value c)))"
  by (auto simp: compare_evaluations_def map_of_eq_None_iff split: if_splits option.splits)

definition demo_record :: "int \<Rightarrow> EvaluationRecord" where
  "demo_record v = \<lparr>er_evaluation_id = ''ev'', er_candidate_id = ''c1'',
     evaluator_ref = \<lparr>component_id = ''e'', component_version = ''1'', package_digest = ''d'',
       capability_manifest_digest = ''d''\<rparr>, evaluator_tier = T_admission,
     evaluator_profile_digest = ''d'', execution_image_digest = ''d'', hardware_class = ''cpu'',
     input_artifact_digests = [], trial_records = [\<lparr>trial_index = 0, seed = 7, tr_metrics = [],
       workload_time_ms = Dec 1 0, sandbox_setup_time_ms = Dec 0 0, queue_time_ms = Dec 0 0,
       host_overhead_time_ms = Dec 0 0\<rparr>],
     aggregate_metrics = [(''m'', Dec v 0)],
     uncertainty = [(''m'', \<lparr>ur_method = ''b'', lower = Dec (v - 1) 0, upper = Dec (v + 1) 0,
       confidence_level = Dec 95 (- 2)\<rparr>)],
     constraints = [\<lparr>con_name = ''k'', passed = True, severity = Hard, con_evidence_digest = None\<rparr>],
     er_outcome = E_PASSED, evidence_artifacts = [], er_started_at = Aware 0 0, er_completed_at = Aware 1 0\<rparr>"

theorem improved_is_real_witness:
  "decimal_value (Dec 10 0) + decimal_value (Dec 5 (- 1)) \<le> decimal_value (Dec 20 0)"
proof -
  have "compare_evaluations (demo_record 10) (demo_record 20) ''m'' Maximize (Dec 5 (- 1)) =
      Inr \<lparr>cmp_metric = ''m'', cmp_direction = Maximize, incumbent_value = Dec 10 0,
        cmp_candidate_value = Dec 20 0, minimum_effect = Dec 5 (- 1), conclusion = Improved\<rparr>" (is "_ = Inr ?c")
    by code_simp
  moreover have "sum_fits (Dec 11 0) (Dec 5 (- 1))" "sum_fits (Dec 9 0) (decimal_neg (Dec 5 (- 1)))"
    by code_simp+
  ultimately show ?thesis
    using improved_is_real [of "demo_record 10" "demo_record 20" "''m''" Maximize "Dec 5 (- 1)" ?c]
    by (simp add: demo_record_def decimal_le_def decimal_align_def)
qed

theorem compare_outcomes_witness:
  "\<exists>ii ci. map_of (uncertainty (demo_record 10)) ''m'' = Some ii \<and>
     map_of (uncertainty (demo_record 11)) ''m'' = Some ci \<and> \<not> separated Maximize (Dec 5 (- 1)) ii ci \<and>
     point_improved Maximize (Dec 5 (- 1)) (Dec 10 0) (Dec 11 0)"
proof -
  have "compare_evaluations (demo_record 10) (demo_record 11) ''m'' Maximize (Dec 5 (- 1)) =
      Inr \<lparr>cmp_metric = ''m'', cmp_direction = Maximize, incumbent_value = Dec 10 0,
        cmp_candidate_value = Dec 11 0, minimum_effect = Dec 5 (- 1), conclusion = Within_noise\<rparr>"
    by code_simp
  with compare_outcomes [where incumbent = "demo_record 10" and candidate = "demo_record 11"
      and metric = "''m''" and d = Maximize and effect = "Dec 5 (- 1)"]
  show ?thesis by auto
qed

end
