(* ===== verification/EvidenceSvc.thy ===== *)
theory EvidenceSvc
  imports TerminalBudget Admission
begin

text \<open>
  Candidate evidence and admission (application/evidence\_service.py): staging, evaluation
  and policy records, and the commit of an admission decision, which appends the admitted
  candidate to the run's lineage under a compare-and-swap on champion and revision.
\<close>

section \<open>Evidence\<close>

definition staged_row :: "env \<Rightarrow> CandidateManifest \<Rightarrow> CandidateRow" where
  "staged_row e m = \<lparr>cand_id = cm_candidate_id m, cand_run_id = cm_run_id m,
     cand_session_id = Some (cm_session_id m), cand_state = In_state C_STAGED,
     cand_source_tree_digest = cm_source_tree_digest m,
     cand_manifest_digest = canonical_digest e (D_manifest m), cand_manifest = Manifest m,
     cand_created_at = date_column e (cm_created_at m)\<rparr>"

definition stage_candidate :: "env \<Rightarrow> CandidateManifest \<Rightarrow> db \<Rightarrow> err + string \<times> db" where
  "stage_candidate e manifest s =
     (let digest = canonical_digest e (D_manifest manifest) in
      case get_candidate_row (cm_candidate_id manifest) s of
        Some existing \<Rightarrow>
          if cand_manifest_digest existing \<noteq> digest
          then Inl (EvidenceConflictError ''candidate_id already has different evidence'')
          else Inr (digest, s)
      | None \<Rightarrow>
          (case get_run (cm_run_id manifest) s of
             None \<Rightarrow> Inl (InvalidAdmissionError ''candidate run does not exist'')
           | Some run \<Rightarrow>
               if (case run_champion_id run of None \<Rightarrow> True | Some c \<Rightarrow> c \<notin> set (parent_candidate_ids manifest))
               then Inl (InvalidAdmissionError ''candidate does not descend from current champion'')
               else
                 bind_err (add_candidate (staged_row e manifest) s) (\<lambda>s.
                 Inr (digest, s))))"

definition decode_manifest :: "candidate_manifest \<Rightarrow> err + CandidateManifest" where
  "decode_manifest m = (case m of Manifest x \<Rightarrow> Inr x | Seed_manifest _ \<Rightarrow> Inl (ValueError ''Field required''))"

definition get_candidate :: "string \<Rightarrow> db \<Rightarrow> err + CandidateManifest" where
  "get_candidate cid s = (case get_candidate_row cid s of
     None \<Rightarrow> Inl (LookupError (''candidate not found: '' @ cid))
   | Some row \<Rightarrow> decode_manifest (cand_manifest row))"

definition get_session_candidate :: "string \<Rightarrow> db \<Rightarrow> err + CandidateManifest option" where
  "get_session_candidate sid s =
     (case filter (\<lambda>c. cand_session_id c = Some sid) (candidates s) of
        [] \<Rightarrow> Inr None
      | [row] \<Rightarrow> bind_err (decode_manifest (cand_manifest row)) (\<lambda>m. Inr (Some m))
      | _ \<Rightarrow> Inl (EvidenceConflictError ''variation session has multiple candidates''))"

definition list_evaluations :: "string \<Rightarrow> db \<Rightarrow> (string \<times> EvaluationRecord) list" where
  "list_evaluations cid s = foldr insert_key
     (map (\<lambda>r. (evl_evaluator_key r, evl_record r)) (filter (\<lambda>r. evl_candidate_id r = cid) (evaluations s))) []"

definition get_admission :: "string \<Rightarrow> db \<Rightarrow> AdmissionDecision option" where
  "get_admission cid s = map_option adm_decision (find (\<lambda>a. adm_candidate_id a = cid) (admissions s))"

definition find_evaluation :: "string \<Rightarrow> string \<Rightarrow> db \<Rightarrow> EvaluationRow option" where
  "find_evaluation cid key s =
     find (\<lambda>r. evl_candidate_id r = cid \<and> evl_evaluator_key r = key) (evaluations s)"

definition evaluation_row :: "env \<Rightarrow> EvaluationRecord \<Rightarrow> string \<Rightarrow> EvaluationRow" where
  "evaluation_row e rec key =
     \<lparr>evl_id = er_evaluation_id rec, evl_candidate_id = er_candidate_id rec, evl_evaluator_key = key,
      evl_tier = evaluator_tier rec, evl_state = er_outcome rec,
      evl_record_digest = canonical_digest e (D_evaluation rec), evl_record = rec,
      evl_created_at = date_column e (er_completed_at rec)\<rparr>"

definition record_evaluation :: "env \<Rightarrow> EvaluationRecord \<Rightarrow> string \<Rightarrow> db \<Rightarrow> err + string \<times> db" where
  "record_evaluation e rec key s =
     (let digest = canonical_digest e (D_evaluation rec) in
      case get_candidate_row (er_candidate_id rec) s of
        None \<Rightarrow> Inl (InvalidAdmissionError ''evaluation candidate does not exist'')
      | Some candidate \<Rightarrow>
          (case find_evaluation (er_candidate_id rec) key s of
             Some existing \<Rightarrow>
               if evl_record_digest existing \<noteq> digest
               then Inl (EvidenceConflictError ''evaluation activity returned different evidence'')
               else Inr (digest, s)
           | None \<Rightarrow>
               bind_err (add_evaluation (evaluation_row e rec key) s) (\<lambda>s.
               Inr (digest, set_candidate (er_candidate_id rec)
                 (\<lambda>c. c\<lparr>cand_state := In_state C_EVALUATING\<rparr>) s))))"

definition record_policy_decision ::
  "env \<Rightarrow> string \<Rightarrow> PolicyDecision \<Rightarrow> string option \<Rightarrow> db \<Rightarrow> err + string \<times> db" where
  "record_policy_decision e rid decision cid s =
     (let digest = canonical_digest e (D_policy decision) in
      case get_policy_decision (pd_decision_id decision) s of
        Some existing \<Rightarrow>
          if pol_decision_digest existing \<noteq> digest
          then Inl (EvidenceConflictError ''policy decision ID has different evidence'')
          else Inr (digest, s)
      | None \<Rightarrow>
          bind_err (add_policy_decision \<lparr>pol_id = pd_decision_id decision, pol_run_id = rid,
            pol_candidate_id = cid, pol_decision_digest = digest, pol_decision = decision,
            pol_created_at = date_column e (pd_decided_at decision)\<rparr> s) (\<lambda>s.
          Inr (digest, s)))"

section \<open>Admission\<close>

definition referenced_evaluations :: "AdmissionDecision \<Rightarrow> db \<Rightarrow> EvaluationRow list" where
  "referenced_evaluations d s = filter (\<lambda>r. evl_id r \<in> set (evaluation_ids d)) (evaluations s)"

definition validate_decision_evidence :: "AdmissionDecision \<Rightarrow> db \<Rightarrow> err + unit" where
  "validate_decision_evidence d s =
     (let policies = filter (\<lambda>p. pol_id p \<in> set (policy_decision_ids d)) (policy_decisions s);
          evals = referenced_evaluations d s
      in if set (map pol_id policies) \<noteq> set (policy_decision_ids d)
         then Inl (InvalidAdmissionError ''admission references missing policy decisions'')
         else if set (map evl_id evals) \<noteq> set (evaluation_ids d)
         then Inl (InvalidAdmissionError ''admission references missing evaluations'')
         else if list_ex (\<lambda>r. evl_candidate_id r \<noteq> ad_candidate_id d) evals
         then Inl (InvalidAdmissionError ''evaluation belongs to another candidate'')
         else if ad_outcome d = A_admit \<and> \<not> list_ex (\<lambda>r. evaluation_is_admissible (evl_record r)) evals
         then Inl (InvalidAdmissionError ''admission lacks a passing authoritative evaluation'')
         else Inr ())"

fun outcome_state :: "admission_outcome \<Rightarrow> CandidateState" where
  "outcome_state A_admit = C_ADMITTED"
| "outcome_state A_reject = C_REJECTED"
| "outcome_state A_quarantine = C_QUARANTINED"
| "outcome_state A_review_required = C_REVIEW_REQUIRED"

definition admission_row :: "env \<Rightarrow> string \<Rightarrow> AdmissionDecision \<Rightarrow> AdmissionRow" where
  "admission_row e rid d = \<lparr>adm_id = ad_admission_id d, adm_run_id = rid,
     adm_candidate_id = ad_candidate_id d, adm_outcome = ad_outcome d,
     adm_decision_digest = canonical_digest e (D_admission d), adm_decision = d,
     adm_created_at = date_column e (ad_decided_at d)\<rparr>"

text \<open>\<open>coalesce(max(sequence), -1) + 1\<close> over the run's lineage.\<close>

definition next_lineage :: "string \<Rightarrow> db \<Rightarrow> int" where
  "next_lineage rid s =
     (case map lin_sequence (filter (\<lambda>l. lin_run_id l = rid) (lineage s)) of
        [] \<Rightarrow> -1 | x # xs \<Rightarrow> fold max xs x) + 1"

definition review_approved :: "AdmissionDecision \<Rightarrow> db \<Rightarrow> bool" where
  "review_approved d s = list_ex (\<lambda>q. rvq_candidate_id q = ad_candidate_id d \<and>
     rvq_action q = ''candidate.admit'' \<and> rvq_state q = V_APPROVED) (review_requests s)"

definition crowned :: "env \<Rightarrow> RunRow \<Rightarrow> string \<Rightarrow> RunRow \<Rightarrow> RunRow" where
  "crowned e run cid r = r\<lparr>run_champion_id := Some cid, run_revision := run_revision run + 1,
     run_event_sequence := run_event_sequence run + 1, run_updated_at := date_column e (now e)\<rparr>"

definition lineage_row :: "env \<Rightarrow> string \<Rightarrow> AdmissionDecision \<Rightarrow> CandidateRow \<Rightarrow> int \<Rightarrow> LineageRow" where
  "lineage_row e rid d candidate n = \<lparr>lin_id = uuid4 e 0, lin_run_id = rid, lin_sequence = n,
     lin_candidate_id = ad_candidate_id d, lin_source_tree_digest = cand_source_tree_digest candidate,
     lin_admission_id = Some (ad_admission_id d), lin_committed_at = date_column e (now e)\<rparr>"

definition evidence_append_event ::
  "env \<Rightarrow> string \<Rightarrow> int \<Rightarrow> AdmissionDecision \<Rightarrow> int \<Rightarrow> db \<Rightarrow> err + db" where
  "evidence_append_event e rid sequence d n =
     append_event e (now e) 1 rid sequence ''candidate.admitted'' (actor_id (decided_by d))
       (JObj [(''admission_id'', JStr (ad_admission_id d)), (''candidate_id'', JStr (ad_candidate_id d)),
          (''lineage_sequence'', JInt n)])"

text \<open>
  The last part of an admission, on the state that holds the admission row and the
  candidate's new state: the compare-and-swap, the lineage entry and the event.
\<close>

definition append_lineage ::
  "env \<Rightarrow> RunRow \<Rightarrow> CandidateRow \<Rightarrow> AdmissionDecision \<Rightarrow> db \<Rightarrow> err + int \<times> db" where
  "append_lineage e run candidate d s =
     (let rid = run_id run; n = next_lineage rid s in
      if length (filter (\<lambda>r. run_id r = rid \<and> run_revision r = run_revision run \<and>
           run_champion_id r = Some (expected_champion_id d) \<and> run_state r = R_RUNNING) (runs s)) \<noteq> 1
      then Inl (EvidenceConflictError ''admission compare-and-swap failed'')
      else
        bind_err (add_lineage (lineage_row e rid d candidate n)
          (set_run rid (crowned e run (ad_candidate_id d)) s)) (\<lambda>s.
        bind_err (evidence_append_event e rid (run_event_sequence run + 1) d n s) (\<lambda>s.
        Inr (n, s))))"

definition record_decision :: "env \<Rightarrow> string \<Rightarrow> AdmissionDecision \<Rightarrow> db \<Rightarrow> err + db" where
  "record_decision e rid d s =
     bind_err (add_admission (admission_row e rid d) s) (\<lambda>s.
     Inr (set_candidate (ad_candidate_id d)
       (\<lambda>c. c\<lparr>cand_state := In_state (outcome_state (ad_outcome d))\<rparr>) s))"

text \<open>
  The pending rows reach the database at the first query, update or commit after them, so a
  constraint they violate is only seen there.
\<close>

definition decide_admission ::
  "env \<Rightarrow> RunRow \<Rightarrow> CandidateRow \<Rightarrow> AdmissionDecision \<Rightarrow> db \<Rightarrow> err + int option \<times> db" where
  "decide_admission e run candidate d s =
     (let decided = record_decision e (run_id run) d s
      in if ad_outcome d \<noteq> A_admit then bind_err decided (\<lambda>s. Inr (None, s))
         else if conclusion (comparison d) \<noteq> Improved
         then Inl (InvalidAdmissionError ''admission requires a proven improvement'')
         else
           bind_err (if cand_state candidate = In_state C_REVIEW_REQUIRED
             then bind_err decided (\<lambda>s. if \<not> review_approved d s
               then Inl (InvalidAdmissionError ''required human review is not approved'') else Inr ())
             else Inr ()) (\<lambda>_.
           if run_state run \<noteq> R_RUNNING
           then Inl (InvalidAdmissionError ''only a running run may admit a candidate'')
           else bind_err decided (\<lambda>s. bind_err (append_lineage e run candidate d s) (\<lambda>(n, s).
             Inr (Some n, s)))))"

definition admission_body ::
  "env \<Rightarrow> string \<Rightarrow> AdmissionDecision \<Rightarrow> db \<Rightarrow> err + int option \<times> db" where
  "admission_body e rid d s =
     (case get_admission_row (ad_admission_id d) s of
        Some existing \<Rightarrow>
          if adm_decision_digest existing \<noteq> canonical_digest e (D_admission d)
          then Inl (EvidenceConflictError ''admission ID has different evidence'')
          else Inr (map_option lin_sequence
            (find (\<lambda>l. lin_admission_id l = Some (ad_admission_id d)) (lineage s)), s)
      | None \<Rightarrow>
          (case (get_run rid s, get_candidate_row (ad_candidate_id d) s) of
             (Some run, Some candidate) \<Rightarrow>
               if cand_run_id candidate \<noteq> rid
               then Inl (InvalidAdmissionError ''run or candidate does not exist'')
               else
                 bind_err (validate_decision_evidence d s) (\<lambda>_.
                 if run_state run \<in> {R_CANCELLING, R_CANCELLED}
                 then Inl (InvalidAdmissionError ''cancellation fence prevents admission'')
                 else if run_champion_id run \<noteq> Some (expected_champion_id d)
                 then Inl (EvidenceConflictError ''champion changed before admission'')
                 else decide_admission e run candidate d s)
           | _ \<Rightarrow> Inl (InvalidAdmissionError ''run or candidate does not exist'')))"

text \<open>An integrity error anywhere in the block is reported as conflicting evidence.\<close>

definition commit_admission ::
  "env \<Rightarrow> string \<Rightarrow> AdmissionDecision \<Rightarrow> db \<Rightarrow> err + int option \<times> db" where
  "commit_admission e rid d s =
     (case admission_body e rid d s of
        Inl (IntegrityError _) \<Rightarrow> Inl (EvidenceConflictError ''duplicate admission or lineage evidence'')
      | r \<Rightarrow> r)"

section \<open>The service as a whole\<close>

datatype evidence_call =
    Stage CandidateManifest
  | Record_evaluation EvaluationRecord string
  | Record_policy string PolicyDecision "string option"
  | Commit_admission string AdmissionDecision

text \<open>The constructor of the record refuses evidence artifacts of negative size.\<close>

definition mk_evaluation_record :: "EvaluationRecord \<Rightarrow> err + EvaluationRecord" where
  "mk_evaluation_record r =
     (if list_all (\<lambda>a. 0 \<le> ar_size_bytes a) (evidence_artifacts r) then Inr r
      else Inl (ValueError ''Input should be greater than or equal to 0''))"

lemma mk_evaluation_record_Inr [simp]:
  "mk_evaluation_record r = Inr q \<longleftrightarrow> q = r \<and> list_all (\<lambda>a. 0 \<le> ar_size_bytes a) (evidence_artifacts r)"
  by (auto simp: mk_evaluation_record_def)

fun evidence_step :: "env \<times> evidence_call \<Rightarrow> db \<Rightarrow> err + unit \<times> db" where
  "evidence_step (e, Stage m) s = bind_err (stage_candidate e m s) (\<lambda>(_, s). Inr ((), s))"
| "evidence_step (e, Record_evaluation rec key) s =
     bind_err (mk_evaluation_record rec) (\<lambda>rec.
     bind_err (record_evaluation e rec key s) (\<lambda>(_, s). Inr ((), s)))"
| "evidence_step (e, Record_policy rid d cid) s =
     bind_err (record_policy_decision e rid d cid s) (\<lambda>(_, s). Inr ((), s))"
| "evidence_step (e, Commit_admission rid d) s = bind_err (commit_admission e rid d s) (\<lambda>(_, s). Inr ((), s))"

fun_cases evidence_step_Inr: "evidence_step c s = Inr x"

lemma evidence_step_cases [consumes 1, case_names stage evaluation policy admission]:
  assumes "evidence_step c s = Inr (r, s')"
  obtains e m x where "stage_candidate e m s = Inr (x, s')"
  | e rec key x where "record_evaluation e rec key s = Inr (x, s')"
      "list_all (\<lambda>a. 0 \<le> ar_size_bytes a) (evidence_artifacts rec)"
  | e rid d cid x where "record_policy_decision e rid d cid s = Inr (x, s')"
  | e rid d x where "commit_admission e rid d s = Inr (x, s')"
  using assms by (rule evidence_step_Inr) (auto simp: Inr_eq_bind_err bind_err_eq_Inr)

section \<open>What a successful call did\<close>

lemma stage_candidate_Inr:
  assumes "stage_candidate e m s = Inr (d, s')"
  obtains (existing) "s' = s"
  | (new) run c where "get_run (cm_run_id m) s = Some run" "run_champion_id run = Some c"
      "c \<in> set (parent_candidate_ids m)"
      "s' = s\<lparr>candidates := candidates s @ [staged_row e m]\<rparr>"
proof (cases "get_candidate_row (cm_candidate_id m) s")
  case None
  with assms obtain run where run: "get_run (cm_run_id m) s = Some run"
    by (auto simp: stage_candidate_def Let_def split: option.splits)
  from assms None run obtain c where "run_champion_id run = Some c" "c \<in> set (parent_candidate_ids m)"
    by (auto simp: stage_candidate_def Let_def split: option.splits if_splits)
  with assms None run that(2) [OF run] show ?thesis
    by (simp add: stage_candidate_def Let_def bind_err_eq_Inr add_candidate_Inr)
next
  case (Some row)
  with assms that(1) show ?thesis by (simp add: stage_candidate_def Let_def split: if_splits)
qed

lemma record_evaluation_Inr:
  assumes "record_evaluation e rec key s = Inr (d, s')"
  obtains (existing) "s' = s"
  | (new) "get_candidate_row (er_candidate_id rec) s \<noteq> None"
      "s' = s\<lparr>evaluations := evaluations s @ [evaluation_row e rec key],
         candidates := row_set cand_id (er_candidate_id rec) (\<lambda>c. c\<lparr>cand_state := In_state C_EVALUATING\<rparr>)
           (candidates s)\<rparr>"
  using assms
  by (auto simp: record_evaluation_def Let_def bind_err_eq_Inr add_evaluation_Inr set_candidate_def
      split: option.splits if_splits)

lemma record_policy_decision_Inr:
  assumes "record_policy_decision e rid d cid s = Inr (dg, s')"
  shows "s' = s \<or> (\<exists>row. s' = s\<lparr>policy_decisions := policy_decisions s @ [row]\<rparr>)"
  using assms
  by (auto simp: record_policy_decision_def Let_def bind_err_eq_Inr add_policy_decision_Inr
      split: option.splits if_splits)

text \<open>The state in which a decision is recorded, before the lineage is touched.\<close>

definition decided_db :: "env \<Rightarrow> string \<Rightarrow> AdmissionDecision \<Rightarrow> db \<Rightarrow> db" where
  "decided_db e rid d s = s\<lparr>admissions := admissions s @ [admission_row e rid d],
     candidates := row_set cand_id (ad_candidate_id d)
       (\<lambda>c. c\<lparr>cand_state := In_state (outcome_state (ad_outcome d))\<rparr>) (candidates s)\<rparr>"

definition admitted_event :: "env \<Rightarrow> RunRow \<Rightarrow> AdmissionDecision \<Rightarrow> int \<Rightarrow> EventRow" where
  "admitted_event e run d n = event_row e (now e) 1 (run_id run) (run_event_sequence run + 1) ''candidate.admitted''
     (actor_id (decided_by d))
     (JObj [(''admission_id'', JStr (ad_admission_id d)), (''candidate_id'', JStr (ad_candidate_id d)),
       (''lineage_sequence'', JInt n)])"

definition admitted_outbox :: "env \<Rightarrow> AdmissionDecision \<Rightarrow> int \<Rightarrow> OutboxRow" where
  "admitted_outbox e d n = outbox_row e (now e) 1
     (JObj [(''admission_id'', JStr (ad_admission_id d)), (''candidate_id'', JStr (ad_candidate_id d)),
       (''lineage_sequence'', JInt n)])"

lemma append_lineage_Inr:
  assumes "append_lineage e run c d s = Inr (n, s')"
  shows "n = next_lineage (run_id run) s"
    and "\<forall>q\<in>set (lineage s). \<not> lineage_conflict (lineage_row e (run_id run) d c n) q"
    and "\<forall>q\<in>set (events s). ev_id q \<noteq> uuid4 e 1"
    and "s' = s\<lparr>runs := row_set run_id (run_id run) (crowned e run (ad_candidate_id d)) (runs s),
      lineage := lineage s @ [lineage_row e (run_id run) d c n],
      events := events s @ [admitted_event e run d n], outbox := outbox s @ [admitted_outbox e d n]\<rparr>"
  using assms
  by (auto simp: append_lineage_def Let_def bind_err_eq_Inr add_lineage_Inr evidence_append_event_def
      append_event_Inr set_run_def admitted_event_def admitted_outbox_def split: if_splits)

lemma record_decision_Inr:
  "record_decision e rid d s = Inr t \<longleftrightarrow>
   get_run rid s \<noteq> None \<and> get_candidate_row (ad_candidate_id d) s \<noteq> None \<and>
   (\<forall>q\<in>set (admissions s). \<not> admission_conflict (admission_row e rid d) q) \<and> t = decided_db e rid d s"
  by (auto simp: record_decision_def bind_err_eq_Inr add_admission_Inr decided_db_def set_candidate_def
      admission_row_def)

lemma review_approved_decided [simp]: "review_approved d (decided_db e rid d' s) = review_approved d s"
  by (simp add: review_approved_def decided_db_def)

lemma next_lineage_decided [simp]: "next_lineage k (decided_db e rid d s) = next_lineage k s"
  by (simp add: next_lineage_def decided_db_def)

lemma decide_admission_Inr:
  assumes "decide_admission e run c d s = Inr (n, s')"
  obtains (recorded) "ad_outcome d \<noteq> A_admit" "n = None" "s' = decided_db e (run_id run) d s"
      "\<forall>q\<in>set (admissions s). \<not> admission_conflict (admission_row e (run_id run) d) q"
  | (admitted) m where "ad_outcome d = A_admit" "n = Some m" "conclusion (comparison d) = Improved"
      "cand_state c = In_state C_REVIEW_REQUIRED \<longrightarrow> review_approved d s" "run_state run = R_RUNNING"
      "\<forall>q\<in>set (admissions s). \<not> admission_conflict (admission_row e (run_id run) d) q"
      "append_lineage e run c d (decided_db e (run_id run) d s) = Inr (m, s')"
  using assms unfolding decide_admission_def Let_def
  by (auto simp: bind_err_eq_Inr record_decision_Inr split: if_splits)

lemma commit_admission_Inr:
  assumes "commit_admission e rid d s = Inr (n, s')"
  obtains (replay) row where "get_admission_row (ad_admission_id d) s = Some row"
      "adm_decision_digest row = canonical_digest e (D_admission d)"
      "n = map_option lin_sequence (find (\<lambda>l. lin_admission_id l = Some (ad_admission_id d)) (lineage s))" "s' = s"
  | (decide) run c where "get_admission_row (ad_admission_id d) s = None"
      "get_run rid s = Some run" "get_candidate_row (ad_candidate_id d) s = Some c" "cand_run_id c = rid"
      "validate_decision_evidence d s = Inr ()" "run_state run \<notin> {R_CANCELLING, R_CANCELLED}"
      "run_champion_id run = Some (expected_champion_id d)" "decide_admission e run c d s = Inr (n, s')"
proof -
  from assms have body: "admission_body e rid d s = Inr (n, s')"
  proof (cases "admission_body e rid d s")
    case (Inl x)
    with assms show ?thesis by (cases x) (simp_all add: commit_admission_def)
  next
    case (Inr y)
    with assms show ?thesis by (simp add: commit_admission_def)
  qed
  show ?thesis
  proof (cases "get_admission_row (ad_admission_id d) s")
    case None
    with body obtain run c where rc: "get_run rid s = Some run" "get_candidate_row (ad_candidate_id d) s = Some c"
      by (auto simp: admission_body_def split: option.splits)
    with body None that(2) [OF None rc] show ?thesis
      by (simp add: admission_body_def bind_err_eq_Inr split: if_splits)
  next
    case (Some row)
    with body have "adm_decision_digest row = canonical_digest e (D_admission d)"
      "n = map_option lin_sequence (find (\<lambda>l. lin_admission_id l = Some (ad_admission_id d)) (lineage s))"
      "s' = s"
      by (auto simp: admission_body_def split: if_splits)
    with Some show ?thesis by (rule that(1))
  qed
qed

lemma validate_decision_evidence_Inr:
  assumes "validate_decision_evidence d s = Inr ()"
  shows "set (policy_decision_ids d) \<subseteq> pol_id ` set (policy_decisions s)"
    and "set (evaluation_ids d) \<subseteq> evl_id ` set (evaluations s)"
    and "\<forall>r\<in>set (evaluations s). evl_id r \<in> set (evaluation_ids d) \<longrightarrow> evl_candidate_id r = ad_candidate_id d"
    and "ad_outcome d = A_admit \<longrightarrow> (\<exists>r\<in>set (evaluations s). evl_id r \<in> set (evaluation_ids d) \<and>
      evl_candidate_id r = ad_candidate_id d \<and> evaluation_is_admissible (evl_record r))"
  using assms
  by (auto simp: validate_decision_evidence_def Let_def referenced_evaluations_def list_ex_iff
      split: if_splits)

section \<open>Every evidence call behaves\<close>

lemma crowned_simps [simp]:
  "run_id (crowned e run c r) = run_id r" "run_champion_id (crowned e run c r) = Some c"
  "run_revision (crowned e run c r) = run_revision run + 1"
  "run_event_sequence (crowned e run c r) = run_event_sequence run + 1"
  "run_state (crowned e run c r) = run_state r" "run_experiment_id (crowned e run c r) = run_experiment_id r"
  by (simp_all add: crowned_def)

lemma admitted_event_simps [simp]:
  "ev_id (admitted_event e run d n) = uuid4 e 1" "ev_run_id (admitted_event e run d n) = run_id run"
  "ev_sequence (admitted_event e run d n) = run_event_sequence run + 1"
  "ob_event_id (admitted_outbox e d n) = uuid4 e 1"
  "ob_payload (admitted_outbox e d n) = ev_payload (admitted_event e run d n)"
  by (simp_all add: admitted_event_def admitted_outbox_def)

lemma decided_db_frame [simp]:
  "runs (decided_db e rid d s) = runs s" "events (decided_db e rid d s) = events s"
  "outbox (decided_db e rid d s) = outbox s" "experiments (decided_db e rid d s) = experiments s"
  "ledgers (decided_db e rid d s) = ledgers s" "reservations (decided_db e rid d s) = reservations s"
  "activities (decided_db e rid d s) = activities s" "sessions (decided_db e rid d s) = sessions s"
  "attempts (decided_db e rid d s) = attempts s" "lineage (decided_db e rid d s) = lineage s"
  "evaluations (decided_db e rid d s) = evaluations s"
  "policy_decisions (decided_db e rid d s) = policy_decisions s"
  "admissions (decided_db e rid d s) = admissions s @ [admission_row e rid d]"
  by (simp_all add: decided_db_def)

lemma append_lineage_log:
  assumes app: "append_lineage e run c d t = Inr (n, s')" and inv: "log_inv s"
    and cur: "get_run rid s = Some run"
    and same: "runs t = runs s" "events t = events s" "outbox t = outbox s"
  shows "log_inv s'"
proof -
  note eff = append_lineage_Inr [OF app]
  from cur have rid: "run_id run = rid" by (rule run_table.get_key)
  have dist: "distinct (map run_id (runs s))"
    using inv by (auto simp: log_inv_def dest: log_ok_distinct)
  have "row_set run_id rid (crowned e run (ad_candidate_id d)) (runs s) =
      row_set run_id rid (\<lambda>r. (crowned e run (ad_candidate_id d) r)\<lparr>run_revision := run_revision r + 1,
        run_event_sequence := run_event_sequence r + 1\<rparr>) (runs s)"
    using cur dist by (auto simp: row_set_def get_run_def dest: row_get_mem [of run_id])
  then show ?thesis
    using inv cur eff(3) rid same
    by (auto simp: log_inv_def eff(4) get_run_def intro!: log_ok_append)
qed

lemma commit_admission_behaves:
  assumes "commit_admission e rid d s = Inr (n, s')"
  shows "well_behaved s s'"
  using assms
proof (cases rule: commit_admission_Inr)
  case (decide run c)
  have rid: "run_id run = rid" using decide(2) by (rule run_table.get_key)
  from decide(8) show ?thesis
  proof (cases rule: decide_admission_Inr)
    case recorded
    then show ?thesis by (auto intro: well_behaved_frame)
  next
    case (admitted m)
    note eff = append_lineage_Inr [OF admitted(7)]
    have "run_advances s s'"
      by (rule run_advances_set [where k = rid and f = "crowned e run (ad_candidate_id d)"])
        (use decide(2) rid in \<open>auto simp: eff(4) run_moves_def\<close>)
    then show ?thesis
      using append_lineage_log [OF admitted(7) _ decide(2)]
      by (auto simp: well_behaved_def log_behaved_def core_inv_def eff(4) log_extends_def specs_inv_def
          ledger_inv_def)
  qed
qed simp

lemma evidence_step_behaves:
  assumes "evidence_step c s = Inr (r, s')"
  shows "well_behaved s s'"
  using assms
  by (cases rule: evidence_step_cases)
    (auto elim!: stage_candidate_Inr record_evaluation_Inr
      dest!: record_policy_decision_Inr intro: well_behaved_frame commit_admission_behaves)

lemma commit_admission_frame:
  assumes "commit_admission e rid d s = Inr (n, s')"
  shows "activities s' = activities s \<and> sessions s' = sessions s \<and> attempts s' = attempts s \<and>
    evaluations s' = evaluations s"
  using assms
  by (auto elim!: commit_admission_Inr decide_admission_Inr dest!: append_lineage_Inr(4))

lemma evidence_step_frame:
  assumes "evidence_step c s = Inr (r, s')"
  shows "activities s' = activities s" "sessions s' = sessions s" "attempts s' = attempts s"
  using assms
  by (cases rule: evidence_step_cases; auto elim!: stage_candidate_Inr record_evaluation_Inr
      dest!: record_policy_decision_Inr commit_admission_frame)+

text \<open>
  Evidence is immutable: evaluations, policy decisions, admissions and lineage entries are
  only ever added.
\<close>

definition evidence_extends :: "db \<Rightarrow> db \<Rightarrow> bool" where
  "evidence_extends s s' \<longleftrightarrow>
     prefix (evaluations s) (evaluations s') \<and> prefix (policy_decisions s) (policy_decisions s') \<and>
     prefix (admissions s) (admissions s') \<and> prefix (lineage s) (lineage s')"

lemma evidence_extends_refl [simp]: "evidence_extends s s"
  by (simp add: evidence_extends_def)

lemma evidence_extends_trans: "evidence_extends s t \<Longrightarrow> evidence_extends t u \<Longrightarrow> evidence_extends s u"
  by (auto simp: evidence_extends_def intro: prefix_order.trans)

lemma commit_admission_extends:
  assumes "commit_admission e rid d s = Inr (n, s')"
  shows "evidence_extends s s'"
  using assms
proof (cases rule: commit_admission_Inr)
  case (decide run c)
  from decide(8) show ?thesis
    by (cases rule: decide_admission_Inr) (auto simp: evidence_extends_def dest!: append_lineage_Inr(4))
qed simp

lemma evidence_step_extends:
  assumes "evidence_step c s = Inr (r, s')"
  shows "evidence_extends s s'"
  using assms
  by (cases rule: evidence_step_cases)
    (auto simp: evidence_extends_def [where s' = "_\<lparr>candidates := _\<rparr>"]
      evidence_extends_def [where s' = "_\<lparr>policy_decisions := _\<rparr>"]
      evidence_extends_def [where s' = "_\<lparr>evaluations := _, candidates := _\<rparr>"]
      elim!: stage_candidate_Inr record_evaluation_Inr
      dest!: record_policy_decision_Inr intro: commit_admission_extends)

interpretation evidence_log: transactional evidence_step core_inv
  by unfold_locales (auto dest!: evidence_step_behaves simp: well_behaved_def log_behaved_def)

interpretation evidence_record: monotone_service evidence_step evidence_extends
  by unfold_locales (auto intro: evidence_extends_trans evidence_step_extends)

section \<open>The lineage of a run\<close>

text \<open>
  An entry is backed when it follows its predecessor by one, and an admit decision for its
  candidate and run is on record that expected the predecessor as champion, that found an
  improvement, and that cites an admissible evaluation of this candidate.
\<close>

definition backed :: "AdmissionRow list \<Rightarrow> EvaluationRow list \<Rightarrow> LineageRow \<Rightarrow> LineageRow \<Rightarrow> bool" where
  "backed as es p l \<longleftrightarrow> lin_sequence l = lin_sequence p + 1 \<and>
     (\<exists>a\<in>set as. lin_admission_id l = Some (adm_id a) \<and> adm_outcome a = A_admit \<and>
        adm_run_id a = lin_run_id l \<and> adm_candidate_id a = lin_candidate_id l \<and>
        expected_champion_id (adm_decision a) = lin_candidate_id p \<and>
        conclusion (comparison (adm_decision a)) = Improved \<and>
        (\<exists>v\<in>set es. evl_id v \<in> set (evaluation_ids (adm_decision a)) \<and>
           evl_candidate_id v = lin_candidate_id l \<and> evaluation_is_admissible (evl_record v)))"

definition run_lineage :: "string \<Rightarrow> LineageRow list \<Rightarrow> LineageRow list" where
  "run_lineage k ls = filter (\<lambda>l. lin_run_id l = k) ls"

definition dynasty :: "AdmissionRow list \<Rightarrow> EvaluationRow list \<Rightarrow> RunRow \<Rightarrow> LineageRow list \<Rightarrow> bool" where
  "dynasty as es r ls \<longleftrightarrow> ls \<noteq> [] \<and> lin_sequence (hd ls) = 0 \<and> lin_admission_id (hd ls) = None \<and>
     successively (backed as es) ls \<and> run_champion_id r = Some (lin_candidate_id (last ls))"

definition lineage_ok ::
  "RunRow list \<Rightarrow> LineageRow list \<Rightarrow> AdmissionRow list \<Rightarrow> EvaluationRow list \<Rightarrow> bool" where
  "lineage_ok rs ls as es \<longleftrightarrow>
     (\<forall>r\<in>set rs. dynasty as es r (run_lineage (run_id r) ls)) \<and>
     (\<forall>l\<in>set ls. \<exists>r\<in>set rs. run_id r = lin_run_id l)"

definition lineage_inv :: "db \<Rightarrow> bool" where
  "lineage_inv s \<longleftrightarrow> lineage_ok (runs s) (lineage s) (admissions s) (evaluations s)"

lemma run_lineage_append: "run_lineage k (ls @ ms) = run_lineage k ls @ run_lineage k ms"
  by (simp add: run_lineage_def)

lemma backed_mono:
  "backed as es p l \<Longrightarrow> set as \<subseteq> set as' \<Longrightarrow> set es \<subseteq> set es' \<Longrightarrow> backed as' es' p l"
  unfolding backed_def by blast

lemma dynasty_mono:
  assumes "dynasty as es r ls" and "set as \<subseteq> set as'" and "set es \<subseteq> set es'"
    and "run_champion_id r' = run_champion_id r"
  shows "dynasty as' es' r' ls"
  using assms successively_mono [of "backed as es" ls "backed as' es'"] backed_mono
  by (auto simp: dynasty_def)

text \<open>What a call that is neither a creation nor an admission leaves of the lineage.\<close>

definition champions :: "RunRow list \<Rightarrow> (string \<times> string option) list" where
  "champions rs = map (\<lambda>r. (run_id r, run_champion_id r)) rs"

definition keeps_lineage :: "db \<Rightarrow> db \<Rightarrow> bool" where
  "keeps_lineage s s' \<longleftrightarrow> champions (runs s') = champions (runs s) \<and> lineage s' = lineage s \<and>
     prefix (admissions s) (admissions s') \<and> prefix (evaluations s) (evaluations s') \<and>
     prefix (policy_decisions s) (policy_decisions s')"

lemma lineage_ok_mono:
  assumes "lineage_ok rs ls as es" and "champions rs' = champions rs"
    and "set as \<subseteq> set as'" and "set es \<subseteq> set es'"
  shows "lineage_ok rs' ls as' es'"
proof -
  have img: "(\<lambda>r. (run_id r, run_champion_id r)) ` set rs' = (\<lambda>r. (run_id r, run_champion_id r)) ` set rs"
    using arg_cong [OF assms(2), of set] by (simp add: champions_def)
  have "\<exists>r\<in>set rs. run_id r = run_id r' \<and> run_champion_id r' = run_champion_id r" if "r' \<in> set rs'" for r'
    using img that by (auto simp: set_eq_iff image_iff) metis
  moreover have "\<exists>r'\<in>set rs'. run_id r' = run_id r" if "r \<in> set rs" for r
    using img that by (auto simp: set_eq_iff image_iff) (metis fst_conv)
  ultimately show ?thesis
    using assms(1,3,4) dynasty_mono unfolding lineage_ok_def by metis
qed

lemma keeps_lineage_inv: "keeps_lineage s s' \<Longrightarrow> lineage_inv s \<Longrightarrow> lineage_inv s'"
  unfolding lineage_inv_def
  by (rule lineage_ok_mono) (auto simp: keeps_lineage_def dest: set_mono_prefix)

lemma keeps_lineage_extends: "keeps_lineage s s' \<Longrightarrow> evidence_extends s s'"
  by (simp add: keeps_lineage_def evidence_extends_def)

lemma keeps_lineage_refl [simp]: "keeps_lineage s s"
  by (simp add: keeps_lineage_def)

lemma champions_row_set:
  "(\<And>r. run_id (f r) = run_id r) \<Longrightarrow> (\<And>r. run_champion_id (f r) = run_champion_id r) \<Longrightarrow>
     champions (row_set run_id k f rs) = champions rs"
  by (simp add: champions_def map_row_set)

lemma next_lineage_last:
  assumes "successively (\<lambda>p l. lin_sequence l = lin_sequence p + 1) ls" and "ls \<noteq> []"
  shows "fold max (map lin_sequence (tl ls)) (lin_sequence (hd ls)) = lin_sequence (last ls)"
  using assms
proof (induction ls rule: induct_list012)
  case (3 x y zs)
  then show ?case by (simp add: max_def)
qed simp_all

lemma dynasty_next:
  assumes "dynasty as es r (run_lineage rid (lineage s))"
  shows "next_lineage rid s = lin_sequence (last (run_lineage rid (lineage s))) + 1"
proof -
  let ?ls = "run_lineage rid (lineage s)"
  from assms have "?ls \<noteq> []" "successively (\<lambda>p l. lin_sequence l = lin_sequence p + 1) ?ls"
    by (auto simp: dynasty_def backed_def elim: successively_mono)
  with next_lineage_last [of ?ls] show ?thesis
    by (cases ?ls) (auto simp: next_lineage_def run_lineage_def)
qed

text \<open>The numbers of a dynasty count from zero.\<close>

lemma dynasty_numbers:
  assumes "dynasty as es r ls"
  shows "map lin_sequence ls = [0..int (length ls) - 1]"
proof -
  have "map lin_sequence ms = [lin_sequence (hd ms)..lin_sequence (hd ms) + int (length ms) - 1]"
    if "ms \<noteq> []" "successively (\<lambda>p l. lin_sequence l = lin_sequence p + 1) ms" for ms
    using that
  proof (induction ms rule: induct_list012)
    case (3 x y zs)
    then show ?case by (simp add: upto_rec1 [of "lin_sequence x"] algebra_simps)
  qed simp_all
  moreover from assms have "ls \<noteq> []" "successively (\<lambda>p l. lin_sequence l = lin_sequence p + 1) ls"
    "lin_sequence (hd ls) = 0"
    by (auto simp: dynasty_def backed_def elim: successively_mono)
  ultimately show ?thesis by fastforce
qed

lemma lineage_ok_new_run:
  assumes "lineage_ok rs ls as es" and "\<forall>q\<in>set rs. run_id q \<noteq> run_id r"
    and "lin_run_id l = run_id r" and "lin_sequence l = 0" and "lin_admission_id l = None"
    and "run_champion_id r = Some (lin_candidate_id l)"
  shows "lineage_ok (rs @ [r]) (ls @ [l]) as es"
proof -
  have "run_lineage (run_id r) ls = []"
    using assms(1,2) by (force simp: lineage_ok_def run_lineage_def filter_empty_conv)
  moreover have "run_lineage (run_id q) (ls @ [l]) = run_lineage (run_id q) ls" if "q \<in> set rs" for q
    using assms(2,3) that by (auto simp: run_lineage_def)
  ultimately show ?thesis
    using assms by (auto simp: lineage_ok_def run_lineage_append run_lineage_def [of _ "[l]"] dynasty_def)
qed

lemma create_run_lineage:
  assumes "create_run e xid actor given prepare key s = Inr (rid, s')" and "lineage_inv s"
  shows "lineage_inv s'"
  using assms(1)
proof (cases rule: create_run_Inr)
  case (fresh i x t rows)
  have "\<forall>q\<in>set (runs s). run_id q \<noteq> rid"
    using fresh(2) by (simp add: get_run_def row_get_None)
  then show ?thesis
    using assms(2) insert_run_Inr(1) [OF fresh(3)] fresh(4)
    by (auto simp: lineage_inv_def first_run_def new_run_def seed_lineage_def Let_def intro!: lineage_ok_new_run)
qed (use assms(2) in simp)

lemma lineage_ok_grow:
  assumes ok: "lineage_ok rs ls as es" and mem: "run \<in> set rs" "run_id run = k"
    and l: "lin_run_id l = k" and f: "\<And>r. run_id (f r) = run_id r"
    and grown: "\<And>r. dynasty as es (f r) (run_lineage k ls @ [l])"
  shows "lineage_ok (row_set run_id k f rs) (ls @ [l]) as es"
proof -
  have "dynasty as es (if run_id r = k then f r else r) (run_lineage (run_id r) (ls @ [l]))" if "r \<in> set rs" for r
    using that ok l grown by (simp add: lineage_ok_def run_lineage_def)
  moreover have "\<exists>r\<in>set rs. run_id r = lin_run_id m" if "m \<in> set (ls @ [l])" for m
    using that ok mem l by (auto simp: lineage_ok_def)
  ultimately show ?thesis
    unfolding lineage_ok_def ball_row_set bex_row_set by (simp add: f if_distrib [of run_id] cong: if_cong)
qed

lemma append_lineage_keeps:
  assumes app: "append_lineage e run c d t = Inr (n, s')" and inv: "lineage_inv s"
    and cur: "get_run rid s = Some run" and champ: "run_champion_id run = Some (expected_champion_id d)"
    and t: "t = decided_db e rid d s" and d: "ad_outcome d = A_admit" "conclusion (comparison d) = Improved"
    and ev: "validate_decision_evidence d s = Inr ()"
  shows "lineage_inv s'"
proof -
  note eff = append_lineage_Inr [OF app]
  let ?l = "lineage_row e rid d c n" and ?as = "admissions s @ [admission_row e rid d]"
    and ?ls = "run_lineage rid (lineage s)"
  from cur have rid: "run_id run = rid" and mem: "run \<in> set (runs s)"
    by (auto simp: get_run_def dest: row_get_SomeD)
  have ok: "lineage_ok (runs s) (lineage s) ?as (evaluations s)"
    using inv unfolding lineage_inv_def by (rule lineage_ok_mono) auto
  then have dyn: "dynasty ?as (evaluations s) run ?ls" using mem rid by (auto simp: lineage_ok_def)
  have "n = lin_sequence (last ?ls) + 1" using eff(1) rid dynasty_next [OF dyn] t by simp
  then have "backed ?as (evaluations s) (last ?ls) ?l"
    using validate_decision_evidence_Inr(4) [OF ev] d champ dyn
    by (auto simp: backed_def lineage_row_def admission_row_def dynasty_def)
  then have grown: "dynasty ?as (evaluations s) (crowned e run (ad_candidate_id d) r) (?ls @ [?l])" for r
    using dyn by (simp add: dynasty_def successively_append_iff lineage_row_def)
  have "lineage_ok (row_set run_id rid (crowned e run (ad_candidate_id d)) (runs s)) (lineage s @ [?l]) ?as
      (evaluations s)"
    by (rule lineage_ok_grow [OF ok mem rid _ _ grown]) (simp_all add: lineage_row_def)
  then show ?thesis by (simp add: lineage_inv_def eff(4) t rid)
qed

lemma commit_admission_lineage:
  assumes "commit_admission e rid d s = Inr (n, s')" and "lineage_inv s"
  shows "lineage_inv s'"
  using assms(1)
proof (cases rule: commit_admission_Inr)
  case (decide run c)
  have rid: "run_id run = rid" using decide(2) by (rule run_table.get_key)
  from decide(8) show ?thesis
  proof (cases rule: decide_admission_Inr)
    case recorded
    then have "keeps_lineage s s'" by (simp add: keeps_lineage_def)
    then show ?thesis using assms(2) by (rule keeps_lineage_inv)
  next
    case (admitted m)
    show ?thesis
      by (rule append_lineage_keeps [OF admitted(7) assms(2) decide(2,7)]) (use admitted decide rid in simp_all)
  qed
qed (use assms(2) in simp)

lemma evidence_step_parts:
  assumes "evidence_step c s = Inr (r, s')"
  obtains (keeps) "keeps_lineage s s'" | (commit) e rid d n where "commit_admission e rid d s = Inr (n, s')"
  using assms
  by (cases rule: evidence_step_cases)
    (auto simp: keeps_lineage_def [where s' = "_\<lparr>candidates := _\<rparr>"]
      keeps_lineage_def [where s' = "_\<lparr>policy_decisions := _\<rparr>"]
      keeps_lineage_def [where s' = "_\<lparr>evaluations := _, candidates := _\<rparr>"]
      elim!: stage_candidate_Inr record_evaluation_Inr dest!: record_policy_decision_Inr)

lemma evidence_step_lineage:
  assumes "evidence_step c s = Inr (r, s')" and "lineage_inv s"
  shows "lineage_inv s'"
  using assms(1)
  by (cases rule: evidence_step_parts) (auto intro: keeps_lineage_inv commit_admission_lineage assms(2))

interpretation evidence_lineage: transactional evidence_step lineage_inv
  by unfold_locales (rule evidence_step_lineage)

section \<open>Properties\<close>

lemma admitted_cases:
  assumes "commit_admission e rid d s = Inr (Some n, s')" and "get_admission_row (ad_admission_id d) s = None"
  obtains run c where "get_run rid s = Some run" "get_candidate_row (ad_candidate_id d) s = Some c"
    "cand_run_id c = rid" "validate_decision_evidence d s = Inr ()"
    "run_champion_id run = Some (expected_champion_id d)" "ad_outcome d = A_admit"
    "conclusion (comparison d) = Improved"
    "cand_state c = In_state C_REVIEW_REQUIRED \<longrightarrow> review_approved d s" "run_state run = R_RUNNING"
    "append_lineage e run c d (decided_db e rid d s) = Inr (n, s')" "run_id run = rid"
  using assms(1)
proof (cases rule: commit_admission_Inr)
  case (replay row)
  with assms(2) show ?thesis by simp
next
  case (decide run c)
  have rid: "run_id run = rid" using decide(2) by (rule run_table.get_key)
  from decide(8) show ?thesis
  proof (cases rule: decide_admission_Inr)
    case (admitted m)
    show ?thesis
      by (rule that [OF decide(2,3,4,5,7) admitted(1,3,4,5) _ rid]) (use admitted(2,7) rid in simp)
  qed simp
qed


text \<open>
  A cancelling or cancelled run admits and records nothing: the fence answers before any
  decision is written.
\<close>

theorem admission_cancellation_fence:
  assumes "get_run rid s = Some run" and "run_state run \<in> {R_CANCELLING, R_CANCELLED}"
    and "get_admission_row (ad_admission_id d) s = None"
    and "get_candidate_row (ad_candidate_id d) s = Some c" and "cand_run_id c = rid"
    and "validate_decision_evidence d s = Inr ()"
  shows "in_session (commit_admission e rid d) s =
    (Inl (InvalidAdmissionError ''cancellation fence prevents admission''), s)"
  using assms by (auto simp: in_session_def commit_admission_def admission_body_def)

lemma lineage_admission_mem:
  assumes "lineage_inv s" and "l \<in> set (lineage s)" and "lin_admission_id l = Some k"
  shows "get_admission_row k s \<noteq> None"
proof -
  let ?ls = "run_lineage (lin_run_id l) (lineage s)"
  from assms(1,2) obtain r where "r \<in> set (runs s)" "dynasty (admissions s) (evaluations s) r ?ls"
    unfolding lineage_inv_def lineage_ok_def by metis
  then have ls: "?ls = hd ?ls # tl ?ls" "lin_admission_id (hd ?ls) = None"
    "successively (backed (admissions s) (evaluations s)) (hd ?ls # tl ?ls)"
    by (auto simp: dynasty_def)
  have later: "\<exists>p. backed (admissions s) (evaluations s) p l"
    if "successively (backed (admissions s) (evaluations s)) (x # ms)" "l \<in> set ms" for x ms
    using that by (induction ms arbitrary: x) auto
  have "l \<in> set ?ls" using assms(2) by (simp add: run_lineage_def)
  moreover have "l \<noteq> hd ?ls" using ls(2) assms(3) by auto
  ultimately have "l \<in> set (tl ?ls)" using ls(1) by (metis set_ConsD)
  from later [OF ls(3) this] assms(3) show ?thesis
    by (auto simp: backed_def get_admission_row_def row_get_None)
qed

text \<open>
  Committing a decision is idempotent: the same decision again, at any later clock,
  returns the lineage number of the first commit and changes nothing.
\<close>

theorem admission_replay:
  assumes "commit_admission e rid d s = Inr (n, s')" and "lineage_inv s"
    and "canonical_digest e' = canonical_digest e"
  shows "commit_admission e' rid' d s' = Inr (n, s')"
  using assms(1)
proof (cases rule: commit_admission_Inr)
  case (replay row)
  then show ?thesis using assms(3) by (simp add: commit_admission_def admission_body_def)
next
  case (decide run c)
  have none: "find (\<lambda>l. lin_admission_id l = Some (ad_admission_id d)) (lineage s) = None"
    using lineage_admission_mem [OF assms(2)] decide(1) by (meson find_None_iff)
  have row: "adm_decision_digest (admission_row e k d) = canonical_digest e' (D_admission d)"
    "adm_id (admission_row e k d) = ad_admission_id d" for k
    using assms(3) by (simp_all add: admission_row_def)
  from decide(8) show ?thesis
  proof (cases rule: decide_admission_Inr)
    case recorded
    then show ?thesis
      using decide(1) none row
      by (simp add: commit_admission_def admission_body_def get_admission_row_def row_get_append row_get_Cons)
  next
    case (admitted m)
    then show ?thesis
      using decide(1) none row
      by (simp add: commit_admission_def admission_body_def get_admission_row_def row_get_append row_get_Cons
          append_lineage_Inr(4) [OF admitted(7)] find_append lineage_row_def)
  qed
qed


section \<open>Evaluations\<close>

text \<open>
  A running run with its seed and one staged candidate, whose passing evaluation is on record.
\<close>

definition demo_candidate :: "string \<Rightarrow> candidate_row_state \<Rightarrow> CandidateRow" where
  "demo_candidate k st = \<lparr>cand_id = k, cand_run_id = ''r'', cand_session_id = None, cand_state = st,
     cand_source_tree_digest = ''tree-'' @ k, cand_manifest_digest = ''digest'',
     cand_manifest = Seed_manifest JNull, cand_created_at = Naive 0\<rparr>"

definition demo_seed_lineage :: LineageRow where
  "demo_seed_lineage = \<lparr>lin_id = ''l0'', lin_run_id = ''r'', lin_sequence = 0, lin_candidate_id = ''seed-r'',
     lin_source_tree_digest = ''tree-seed'', lin_admission_id = None, lin_committed_at = Naive 0\<rparr>"

definition demo_arena :: "CandidateState \<Rightarrow> db" where
  "demo_arena st = demo_db\<lparr>candidates := [demo_candidate ''seed-r'' Seed, demo_candidate ''c1'' (In_state st),
       demo_candidate ''c2'' (In_state st)],
     lineage := [demo_seed_lineage], evaluations := [evaluation_row (call_at ''v'' 1) (demo_record 20) ''k'']\<rparr>"

definition demo_decision :: "string \<Rightarrow> string \<Rightarrow> admission_outcome \<Rightarrow> AdmissionDecision" where
  "demo_decision k cid outcome = \<lparr>ad_admission_id = k, ad_candidate_id = cid, expected_champion_id = ''seed-r'',
     evaluation_ids = [''ev''], policy_decision_ids = [], ad_outcome = outcome, ad_reason_codes = [],
     comparison = \<lparr>cmp_metric = ''m'', cmp_direction = Maximize, incumbent_value = Dec 10 0,
       cmp_candidate_value = Dec 20 0, minimum_effect = Dec 1 0, conclusion = Improved\<rparr>,
     decided_by = \<lparr>actor_type = ''system'', actor_id = ''gate''\<rparr>, ad_decided_at = Aware 2 0\<rparr>"

definition demo_crowned :: db where
  "demo_crowned = snd (in_session (commit_admission (call_at ''m'' 3) ''r'' (demo_decision ''a1'' ''c1'' A_admit))
     (demo_arena C_EVALUATING))"

lemma demo_admission:
  "commit_admission (call_at ''m'' 3) ''r'' (demo_decision ''a1'' ''c1'' A_admit) (demo_arena C_EVALUATING) =
     Inr (Some 1, demo_crowned)"
  by code_simp

lemma demo_arena_lineage: "lineage_inv (demo_arena st)"
  by (simp add: lineage_inv_def lineage_ok_def dynasty_def run_lineage_def demo_arena_def demo_db_def
      empty_db_def demo_seed_lineage_def demo_run_def)

lemma demo_fresh_admission:
  "get_admission_row (ad_admission_id (demo_decision ''a1'' ''c1'' A_admit)) (demo_arena C_EVALUATING) = None"
  by (simp add: get_admission_row_def demo_arena_def demo_db_def empty_db_def)


definition demo_cancelling :: db where
  "demo_cancelling = set_run ''r'' (\<lambda>r. r\<lparr>run_state := R_CANCELLING\<rparr>) (demo_arena C_EVALUATING)"

theorem admission_cancellation_fence_witness:
  "in_session (commit_admission (call_at ''m'' 3) ''r'' (demo_decision ''a1'' ''c1'' A_admit)) demo_cancelling =
     (Inl (InvalidAdmissionError ''cancellation fence prevents admission''), demo_cancelling)"
proof (rule admission_cancellation_fence)
  show "get_run ''r'' demo_cancelling = Some (demo_run\<lparr>run_state := R_CANCELLING\<rparr>)" by code_simp
  show "get_candidate_row (ad_candidate_id (demo_decision ''a1'' ''c1'' A_admit)) demo_cancelling =
      Some (demo_candidate ''c1'' (In_state C_EVALUATING))" by code_simp
  show "get_admission_row (ad_admission_id (demo_decision ''a1'' ''c1'' A_admit)) demo_cancelling = None"
    by code_simp
  show "validate_decision_evidence (demo_decision ''a1'' ''c1'' A_admit) demo_cancelling = Inr ()" by code_simp
qed (simp_all add: demo_candidate_def)

theorem admission_replay_witness:
  "commit_admission (call_at ''z'' 9) ''r'' (demo_decision ''a1'' ''c1'' A_admit) demo_crowned =
     Inr (Some 1, demo_crowned)"
  by (rule admission_replay [OF demo_admission demo_arena_lineage]) (simp add: call_at_def)


definition demo_second_record :: EvaluationRecord where
  "demo_second_record = (demo_record 20)\<lparr>er_evaluation_id := ''ev2'', er_outcome := E_FAILED\<rparr>"

text \<open>
  The human review gate can be passed without a review: a candidate that waits for its
  review cannot be admitted, but recording one more evaluation of it, whatever its outcome,
  resets its state to evaluating, and the same admission then succeeds with no approved
  review on record.
\<close>

theorem review_gate_bypass:
  "let d = demo_decision ''a1'' ''c1'' A_admit; waiting = demo_arena C_REVIEW_REQUIRED;
       reset = snd (in_session (record_evaluation (call_at ''w'' 2) demo_second_record ''k2'') waiting);
       (result, final) = in_session (commit_admission (call_at ''m'' 3) ''r'' d) reset
   in commit_admission (call_at ''m'' 3) ''r'' d waiting =
        Inl (InvalidAdmissionError ''required human review is not approved'') \<and>
      \<not> review_approved d final \<and> result = Inr (Some 1) \<and>
      map_option run_champion_id (get_run ''r'' final) = Some (Some ''c1'') \<and>
      \<not> can_transition (CandidateL C_REVIEW_REQUIRED) (CandidateL C_EVALUATING)"
  by code_simp

end
