(* ===== verification/ReviewSvc.thy ===== *)
theory ReviewSvc
  imports EvidenceSvc
begin

text \<open>
  Role-gated human review (application/review\_service.py, contracts/review.py): a request
  is opened for a candidate that awaits review, each eligible reviewer decides at most
  once, one rejection closes the request and enough approvals approve it.
\<close>

section \<open>The request contract\<close>

definition check_review_fields :: "ReviewRequest \<Rightarrow> err + unit" where
  "check_review_fields r =
     (if rq_eligible_roles r = [] then Inl (ValueError ''List should have at least 1 item after validation'')
      else if \<not> (1 \<le> rq_approvals_required r \<and> rq_approvals_required r \<le> 2)
      then Inl (ValueError ''approvals_required out of range'')
      else bind_err (require_aware_datetime (rq_expires_at r)) (\<lambda>_.
        bind_err (require_aware_datetime (rq_created_at r)) (\<lambda>_. Inr ())))"

definition mk_review_request :: "ReviewRequest \<Rightarrow> err + ReviewRequest" where
  "mk_review_request r =
     bind_err (non_empty_string (rq_review_id r)) (\<lambda>k.
     bind_err (non_empty_string (rq_run_id r)) (\<lambda>rid.
     bind_err (non_empty_string (rq_candidate_id r)) (\<lambda>cid.
     bind_err (non_empty_string (rq_action r)) (\<lambda>action.
     bind_err (non_empty_string (rq_proposer_id r)) (\<lambda>proposer.
     bind_err (map_err non_empty_string (rq_eligible_roles r)) (\<lambda>roles.
     bind_err (map_err sha256_digest (rq_required_evidence_digests r)) (\<lambda>digests.
     bind_err (check_review_fields r) (\<lambda>_.
     Inr (r\<lparr>rq_review_id := k, rq_run_id := rid, rq_candidate_id := cid, rq_action := action,
       rq_proposer_id := proposer, rq_eligible_roles := roles,
       rq_required_evidence_digests := digests\<rparr>)))))))))"

section \<open>Rows and requests\<close>

fun as_utc :: "py_datetime \<Rightarrow> py_datetime" where
  "as_utc (Naive w) = Aware w 0"
| "as_utc (Aware w off) = Aware (w - off) 0"

definition request_from_row :: "ReviewRequestRow \<Rightarrow> ReviewRequest" where
  "request_from_row row =
     \<lparr>rq_review_id = rvq_id row, rq_run_id = rvq_run_id row, rq_candidate_id = rvq_candidate_id row,
      rq_action = rvq_action row, rq_proposer_id = rvq_proposer_id row,
      rq_eligible_roles = rvq_eligible_roles row, rq_approvals_required = rvq_approvals_required row,
      rq_proposer_may_review = rvq_proposer_may_review row,
      rq_required_evidence_digests = rvq_required_evidence row,
      rq_expires_at = as_utc (rvq_expires_at row), rq_created_at = as_utc (rvq_created_at row)\<rparr>"

definition review_row :: "env \<Rightarrow> ReviewRequest \<Rightarrow> ReviewRequestRow" where
  "review_row e r =
     \<lparr>rvq_id = rq_review_id r, rvq_run_id = rq_run_id r, rvq_candidate_id = rq_candidate_id r,
      rvq_action = rq_action r, rvq_proposer_id = rq_proposer_id r,
      rvq_eligible_roles = rq_eligible_roles r, rvq_approvals_required = rq_approvals_required r,
      rvq_proposer_may_review = rq_proposer_may_review r,
      rvq_required_evidence = rq_required_evidence_digests r, rvq_state = V_PENDING,
      rvq_expires_at = date_column e (rq_expires_at r), rvq_created_at = date_column e (rq_created_at r)\<rparr>"

definition review_create :: "env \<Rightarrow> ReviewRequest \<Rightarrow> db \<Rightarrow> err + unit \<times> db" where
  "review_create e request s =
     (case get_review_request (rq_review_id request) s of
        Some prior \<Rightarrow>
          if request_from_row prior \<noteq> request
          then Inl (ReviewConflictError ''review_id has another request'')
          else Inr ((), s)
      | None \<Rightarrow>
          (case get_candidate_row (rq_candidate_id request) s of
             None \<Rightarrow> Inl (ReviewAuthorizationError ''review candidate does not exist'')
           | Some candidate \<Rightarrow>
               if cand_run_id candidate \<noteq> rq_run_id request
               then Inl (ReviewAuthorizationError ''review candidate does not exist'')
               else if cand_state candidate \<noteq> In_state C_REVIEW_REQUIRED
               then Inl (ReviewAuthorizationError ''candidate is not awaiting review'')
               else bind_err (add_review_request (review_row e request) s) (\<lambda>s. Inr ((), s))))"

section \<open>Decisions\<close>

definition decisions_of :: "string \<Rightarrow> ReviewDecisionRow list \<Rightarrow> ReviewDecisionRow list" where
  "decisions_of k ds = filter (\<lambda>d. rvd_review_id d = k) ds"

definition approvals_of :: "string \<Rightarrow> db \<Rightarrow> int" where
  "approvals_of k s =
     int (length (filter (\<lambda>d. rvd_review_id d = k \<and> rvd_outcome d = RV_approve) (review_decisions s)))"

definition review_status :: "ReviewRequestRow \<Rightarrow> db \<Rightarrow> err + ReviewStatus" where
  "review_status request s =
     (if rvq_state request \<notin> {V_PENDING, V_APPROVED, V_REJECTED, V_EXPIRED}
      then Inl (ValueError ''state is not a literal of ReviewStatus'')
      else if \<not> (1 \<le> rvq_approvals_required request \<and> rvq_approvals_required request \<le> 2)
      then Inl (ValueError ''approvals_required out of range'')
      else Inr \<lparr>rs_review_id = rvq_id request, rs_state = rvq_state request,
        rs_approvals = approvals_of (rvq_id request) s,
        rs_approvals_required = rvq_approvals_required request\<rparr>)"

text \<open>The status of a request as it is stored after the writes of the block.\<close>

definition stored_status :: "string \<Rightarrow> db \<Rightarrow> err + ReviewStatus \<times> db" where
  "stored_status k s = (case get_review_request k s of
     None \<Rightarrow> Inl (ReviewAuthorizationError ''review request does not exist'')
   | Some request \<Rightarrow> bind_err (review_status request s) (\<lambda>st. Inr (st, s)))"

definition decision_scope :: "ReviewDecision \<Rightarrow> string" where
  "decision_scope d = ''reviews.'' @ rd_review_id d @ ''.decisions''"

definition review_record_idempotency ::
  "env \<Rightarrow> string option \<Rightarrow> string option \<Rightarrow> ReviewDecision \<Rightarrow> db \<Rightarrow> err + db" where
  "review_record_idempotency e actor key d s = (case (actor, key) of
     (Some a, Some k) \<Rightarrow> add_idempotency (idempotency_row e 0 a (decision_scope d) k
       (canonical_digest e (D_review d)) (rd_decision_id d)) s
   | _ \<Rightarrow> Inr s)"

definition find_review_idempotency ::
  "string option \<Rightarrow> string option \<Rightarrow> ReviewDecision \<Rightarrow> db \<Rightarrow> IdempotencyRow option" where
  "find_review_idempotency actor key d s = (case (actor, key) of
     (Some a, Some k) \<Rightarrow> find_idempotency a (decision_scope d) k s
   | _ \<Rightarrow> None)"

definition decision_row :: "env \<Rightarrow> ReviewDecision \<Rightarrow> ReviewDecisionRow" where
  "decision_row e d =
     \<lparr>rvd_id = rd_decision_id d, rvd_review_id = rd_review_id d, rvd_reviewer_id = actor_id (reviewer d),
      rvd_outcome = rd_outcome d, rvd_decision_digest = canonical_digest e (D_review d), rvd_decision = d,
      rvd_created_at = date_column e (rd_decided_at d)\<rparr>"

text \<open>Who may decide, and on which evidence.\<close>

definition authorize_decision :: "ReviewRequestRow \<Rightarrow> ReviewDecision \<Rightarrow> err + unit" where
  "authorize_decision request d =
     (if reviewer_role d \<notin> set (rvq_eligible_roles request)
      then Inl (ReviewAuthorizationError ''reviewer role is not eligible'')
      else if actor_id (reviewer d) = rvq_proposer_id request \<and> \<not> rvq_proposer_may_review request
      then Inl (ReviewAuthorizationError ''proposer cannot review this action'')
      else if \<not> set (rvq_required_evidence request) \<subseteq> set (rd_evidence_digests d)
      then Inl (ReviewAuthorizationError ''required review evidence is missing'')
      else Inr ())"

definition verdict :: "ReviewRequestRow \<Rightarrow> ReviewDecision \<Rightarrow> db \<Rightarrow> ReviewState" where
  "verdict request d s =
     (if rd_outcome d = RV_reject then V_REJECTED
      else if rvq_approvals_required request \<le> approvals_of (rvq_id request) s then V_APPROVED
      else rvq_state request)"

definition record_verdict :: "env \<Rightarrow> ReviewRequestRow \<Rightarrow> ReviewDecision \<Rightarrow> db \<Rightarrow> err + db" where
  "record_verdict e request d s =
     bind_err (add_review_decision (decision_row e d) s) (\<lambda>s.
     Inr (set_review_request (rvq_id request) (\<lambda>q. q\<lparr>rvq_state := verdict request d s\<rparr>) s))"

text \<open>
  A first decision of a reviewer. An expired request is marked before the exception, which
  rolls the mark back.
\<close>

definition decide_review ::
  "env \<Rightarrow> ReviewRequestRow \<Rightarrow> ReviewDecision \<Rightarrow> string option \<Rightarrow> string option \<Rightarrow> db \<Rightarrow>
     err + ReviewStatus \<times> db" where
  "decide_review e request d actor key s =
     (if rvq_state request \<noteq> V_PENDING
      then Inl (ReviewAuthorizationError (''review is already '' @ state_value (ReviewL (rvq_state request))))
      else
        bind_err (dt_less (now e) (as_utc (rvq_expires_at request))) (\<lambda>live.
        if \<not> live then Inl (ReviewAuthorizationError ''review request expired'')
        else
          bind_err (authorize_decision request d) (\<lambda>_.
          bind_err (record_verdict e request d s) (\<lambda>s.
          bind_err (review_record_idempotency e actor key d s) (\<lambda>s.
          stored_status (rvq_id request) s)))))"

definition submit_body ::
  "env \<Rightarrow> ReviewDecision \<Rightarrow> string option \<Rightarrow> string option \<Rightarrow> db \<Rightarrow> err + ReviewStatus \<times> db" where
  "submit_body e d actor key s =
     (let digest = canonical_digest e (D_review d) in
      case get_review_request (rd_review_id d) s of
        None \<Rightarrow> Inl (ReviewAuthorizationError ''review request does not exist'')
      | Some request \<Rightarrow>
          (case find_review_idempotency actor key d s of
             Some idempotent \<Rightarrow>
               if idem_request_digest idempotent \<noteq> digest
               then Inl (ReviewConflictError
                 ''idempotency key was already used for a different review decision'')
               else stored_status (rd_review_id d) s
           | None \<Rightarrow>
               (case get_review_decision (rd_decision_id d) s of
                  Some prior \<Rightarrow>
                    if rvd_decision_digest prior \<noteq> digest
                    then Inl (ReviewConflictError ''review decision ID has other evidence'')
                    else
                      bind_err (review_record_idempotency e actor key d s) (\<lambda>s.
                      stored_status (rd_review_id d) s)
                | None \<Rightarrow> decide_review e request d actor key s)))"

definition review_submit ::
  "env \<Rightarrow> ReviewDecision \<Rightarrow> string option \<Rightarrow> string option \<Rightarrow> db \<Rightarrow> err + ReviewStatus \<times> db" where
  "review_submit e d actor key s =
     (case submit_body e d actor key s of
        Inl (IntegrityError _) \<Rightarrow> Inl (ReviewConflictError ''reviewer has already decided'')
      | r \<Rightarrow> r)"

section \<open>The service as a whole\<close>

datatype review_call =
    Create_review ReviewRequest
  | Submit_review ReviewDecision "string option" "string option"

fun review_step :: "env \<times> review_call \<Rightarrow> db \<Rightarrow> err + unit \<times> db" where
  "review_step (e, Create_review r) s = bind_err (mk_review_request r) (\<lambda>r. review_create e r s)"
| "review_step (e, Submit_review d actor key) s =
     bind_err (review_submit e d actor key s) (\<lambda>(_, s). Inr ((), s))"

fun_cases review_step_Inr: "review_step c s = Inr x"

lemmas review_step_cases = review_step_Inr [consumes 1, case_names create submit]

section \<open>What a successful call did\<close>

lemma mk_review_request_bounds:
  assumes "mk_review_request r = Inr q"
  shows "1 \<le> rq_approvals_required q" "rq_approvals_required q \<le> 2"
  using assms
  by (auto simp: mk_review_request_def check_review_fields_def bind_err_eq_Inr split: if_splits)

lemma review_create_Inr:
  assumes "review_create e r s = Inr (u, s')"
  obtains (existing) "s' = s" "get_review_request (rq_review_id r) s \<noteq> None"
  | (new) c where "get_review_request (rq_review_id r) s = None"
      "get_candidate_row (rq_candidate_id r) s = Some c" "cand_run_id c = rq_run_id r"
      "cand_state c = In_state C_REVIEW_REQUIRED"
      "s' = s\<lparr>review_requests := review_requests s @ [review_row e r]\<rparr>"
proof (cases "get_review_request (rq_review_id r) s")
  case None
  with assms obtain c where c: "get_candidate_row (rq_candidate_id r) s = Some c"
    by (auto simp: review_create_def split: option.splits)
  with assms None that(2) [OF None c] show ?thesis
    by (simp add: review_create_def bind_err_eq_Inr add_review_request_Inr split: if_splits)
next
  case (Some q)
  with assms that(1) show ?thesis by (simp add: review_create_def split: if_splits)
qed

lemma review_record_idempotency_Inr:
  "review_record_idempotency e actor key d s = Inr t \<Longrightarrow> \<exists>rows. t = s\<lparr>idempotency := rows\<rparr>"
  by (cases "(actor, key)")
    (auto simp: review_record_idempotency_def add_idempotency_Inr split: option.splits
      intro: exI [of _ "idempotency s"])

lemma stored_status_Inr:
  assumes "stored_status k s = Inr (st, s')"
  shows "s' = s"
  using assms by (auto simp: stored_status_def bind_err_eq_Inr split: option.splits)

definition decided_review :: "env \<Rightarrow> ReviewRequestRow \<Rightarrow> ReviewDecision \<Rightarrow> db \<Rightarrow> db" where
  "decided_review e q d s = s\<lparr>review_decisions := review_decisions s @ [decision_row e d],
     review_requests := row_set rvq_id (rvq_id q)
       (\<lambda>r. r\<lparr>rvq_state := verdict q d (s\<lparr>review_decisions := review_decisions s @ [decision_row e d]\<rparr>)\<rparr>)
       (review_requests s)\<rparr>"

lemma authorize_decision_Inr:
  "authorize_decision q d = Inr u \<longleftrightarrow> reviewer_role d \<in> set (rvq_eligible_roles q) \<and>
     (actor_id (reviewer d) = rvq_proposer_id q \<longrightarrow> rvq_proposer_may_review q) \<and>
     set (rvq_required_evidence q) \<subseteq> set (rd_evidence_digests d)"
  by (auto simp: authorize_decision_def)

lemma record_verdict_Inr:
  assumes "record_verdict e q d s = Inr t"
  shows "t = decided_review e q d s"
    and "\<forall>r\<in>set (review_decisions s). \<not> review_decision_conflict (decision_row e d) r"
    and "get_review_request (rd_review_id d) s \<noteq> None"
  using assms
  by (auto simp: record_verdict_def bind_err_eq_Inr add_review_decision_Inr decided_review_def
      set_review_request_def decision_row_def)

lemma decide_review_Inr:
  assumes "decide_review e q d actor key s = Inr (st, s')"
  obtains rows where "rvq_state q = V_PENDING"
    "dt_less (now e) (as_utc (rvq_expires_at q)) = Inr True" "authorize_decision q d = Inr ()"
    "record_verdict e q d s = Inr (decided_review e q d s)"
    "review_record_idempotency e actor key d (decided_review e q d s) = Inr s'"
    "s' = (decided_review e q d s)\<lparr>idempotency := rows\<rparr>" "stored_status (rvq_id q) s' = Inr (st, s')"
proof -
  from assms obtain t u where "rvq_state q = V_PENDING"
    "dt_less (now e) (as_utc (rvq_expires_at q)) = Inr True" "authorize_decision q d = Inr ()"
    "record_verdict e q d s = Inr t" "review_record_idempotency e actor key d t = Inr u"
    "stored_status (rvq_id q) u = Inr (st, s')"
    by (auto simp: decide_review_def bind_err_eq_Inr split: if_splits)
  with that record_verdict_Inr(1) stored_status_Inr review_record_idempotency_Inr show ?thesis
    by blast
qed

lemma review_submit_Inr:
  assumes "review_submit e d actor key s = Inr (st, s')"
  obtains (replay) r where "find_review_idempotency actor key d s = Some r"
      "idem_request_digest r = canonical_digest e (D_review d)"
      "stored_status (rd_review_id d) s = Inr (st, s')" "s' = s"
  | (known) p rows where "find_review_idempotency actor key d s = None"
      "get_review_decision (rd_decision_id d) s = Some p"
      "rvd_decision_digest p = canonical_digest e (D_review d)"
      "review_record_idempotency e actor key d s = Inr s'" "s' = s\<lparr>idempotency := rows\<rparr>"
      "stored_status (rd_review_id d) s' = Inr (st, s')"
  | (decide) q where "find_review_idempotency actor key d s = None"
      "get_review_decision (rd_decision_id d) s = None"
      "get_review_request (rd_review_id d) s = Some q" "decide_review e q d actor key s = Inr (st, s')"
proof -
  have body: "submit_body e d actor key s = Inr (st, s')"
  proof (cases "submit_body e d actor key s")
    case (Inl x)
    with assms show ?thesis by (cases x) (simp_all add: review_submit_def)
  next
    case (Inr y)
    with assms show ?thesis by (simp add: review_submit_def)
  qed
  then obtain q where q: "get_review_request (rd_review_id d) s = Some q"
    by (auto simp: submit_body_def Let_def split: option.splits)
  show ?thesis
  proof (cases "find_review_idempotency actor key d s")
    case (Some r)
    with body q have "idem_request_digest r = canonical_digest e (D_review d)"
      "stored_status (rd_review_id d) s = Inr (st, s')"
      by (auto simp: submit_body_def Let_def split: if_splits)
    with Some stored_status_Inr show ?thesis by (blast intro: that(1))
  next
    case none: None
    show ?thesis
    proof (cases "get_review_decision (rd_decision_id d) s")
      case None
      with none q body show ?thesis by (intro that(3) [OF none None q]) (simp add: submit_body_def Let_def)
    next
      case (Some p)
      with none q body obtain t where "rvd_decision_digest p = canonical_digest e (D_review d)"
        "review_record_idempotency e actor key d s = Inr t" "stored_status (rd_review_id d) t = Inr (st, s')"
        by (auto simp: submit_body_def Let_def bind_err_eq_Inr split: if_splits)
      with none Some stored_status_Inr review_record_idempotency_Inr show ?thesis
        by (blast intro: that(2))
    qed
  qed
qed

section \<open>The review invariant\<close>

definition lawful :: "ReviewRequestRow \<Rightarrow> ReviewDecisionRow \<Rightarrow> bool" where
  "lawful q d \<longleftrightarrow> authorize_decision q (rvd_decision d) = Inr () \<and>
     rvd_reviewer_id d = actor_id (reviewer (rvd_decision d)) \<and> rvd_outcome d = rd_outcome (rvd_decision d)"

definition approved_by :: "ReviewDecisionRow list \<Rightarrow> bool" where
  "approved_by ds \<longleftrightarrow> list_all (\<lambda>d. rvd_outcome d = RV_approve) ds"

definition tally :: "ReviewRequestRow \<Rightarrow> ReviewDecisionRow list \<Rightarrow> bool" where
  "tally q ds \<longleftrightarrow> (case rvq_state q of
     V_PENDING \<Rightarrow> approved_by ds \<and> int (length ds) < rvq_approvals_required q
   | V_APPROVED \<Rightarrow> approved_by ds \<and> int (length ds) = rvq_approvals_required q
   | V_REJECTED \<Rightarrow> (\<exists>us d. ds = us @ [d] \<and> approved_by us \<and> rvd_outcome d = RV_reject)
   | _ \<Rightarrow> False)"

definition request_sound :: "ReviewRequestRow \<Rightarrow> ReviewDecisionRow list \<Rightarrow> bool" where
  "request_sound q ds \<longleftrightarrow> 1 \<le> rvq_approvals_required q \<and> rvq_approvals_required q \<le> 2 \<and>
     distinct (map rvd_reviewer_id ds) \<and> list_all (lawful q) ds \<and> tally q ds"

definition review_inv :: "db \<Rightarrow> bool" where
  "review_inv s \<longleftrightarrow> distinct (map rvq_id (review_requests s)) \<and>
     (\<forall>q\<in>set (review_requests s). request_sound q (decisions_of (rvq_id q) (review_decisions s))) \<and>
     (\<forall>d\<in>set (review_decisions s). get_review_request (rvd_review_id d) s \<noteq> None)"

lemma decisions_of_append: "decisions_of k (ds @ es) = decisions_of k ds @ decisions_of k es"
  by (simp add: decisions_of_def)

lemma review_inv_frame:
  "review_requests t = review_requests s \<Longrightarrow> review_decisions t = review_decisions s \<Longrightarrow>
     review_inv t = review_inv s"
  by (simp add: review_inv_def get_review_request_def)

lemma lawful_state [simp]: "lawful (q\<lparr>rvq_state := st\<rparr>) = lawful q"
  by (simp add: lawful_def [abs_def] authorize_decision_def)

lemma decision_row_lawful: "authorize_decision q d = Inr () \<Longrightarrow> lawful q (decision_row e d)"
  by (simp add: lawful_def decision_row_def)

lemma review_create_sound:
  assumes "review_create e r s = Inr (u, s')" and "review_inv s"
    and "1 \<le> rq_approvals_required r" "rq_approvals_required r \<le> 2"
  shows "review_inv s'"
  using assms(1)
proof (cases rule: review_create_Inr)
  case (new c)
  have fresh: "\<forall>q\<in>set (review_requests s). rvq_id q \<noteq> rq_review_id r"
    using new(1) by (simp add: get_review_request_def row_get_None)
  then have "decisions_of (rq_review_id r) (review_decisions s) = []"
    using assms(2) by (force simp: review_inv_def decisions_of_def filter_empty_conv get_review_request_def
        row_get_None)
  then have "request_sound (review_row e r) (decisions_of (rvq_id (review_row e r)) (review_decisions s))"
    using assms(3,4) by (simp add: request_sound_def review_row_def tally_def approved_by_def)
  then show ?thesis
    using assms(2) new(5) fresh
    by (auto simp: review_inv_def review_row_def get_review_request_def row_get_append split: option.splits)
qed (use assms(2) in simp)

lemma approvals_pending:
  assumes "approved_by (decisions_of k (review_decisions s))" and "rvd_review_id d = k"
    and "rvd_outcome d = RV_approve"
  shows "approvals_of k (s\<lparr>review_decisions := review_decisions s @ [d]\<rparr>) =
    int (length (decisions_of k (review_decisions s))) + 1"
proof -
  have "filter (\<lambda>d. rvd_review_id d = k \<and> rvd_outcome d = RV_approve) (review_decisions s) =
      decisions_of k (review_decisions s)"
    using assms(1) unfolding decisions_of_def approved_by_def list_all_iff by (intro filter_cong) auto
  then show ?thesis using assms(2,3) by (simp add: approvals_of_def)
qed

lemma verdict_sound:
  assumes sound: "request_sound q ds" and "rvq_state q = V_PENDING" and "authorize_decision q d = Inr ()"
    and new: "rvd_reviewer_id (decision_row e d) \<notin> rvd_reviewer_id ` set ds"
    and ds: "ds = decisions_of (rvq_id q) (review_decisions s)" and id: "rd_review_id d = rvq_id q"
  shows "request_sound (q\<lparr>rvq_state := verdict q d (s\<lparr>review_decisions := review_decisions s @ [decision_row e d]\<rparr>)\<rparr>)
    (ds @ [decision_row e d])"
proof -
  let ?r = "decision_row e d"
  have all: "approved_by ds" "int (length ds) < rvq_approvals_required q"
    using sound assms(2) by (auto simp: request_sound_def tally_def)
  have r: "rvd_review_id ?r = rvq_id q" "rvd_outcome ?r = rd_outcome d"
    by (simp_all add: decision_row_def id)
  have "tally (q\<lparr>rvq_state := verdict q d (s\<lparr>review_decisions := review_decisions s @ [?r]\<rparr>)\<rparr>) (ds @ [?r])"
  proof (cases "rd_outcome d")
    case RV_reject
    with all r show ?thesis by (simp add: tally_def verdict_def)
  next
    case RV_approve
    with approvals_pending [OF all(1) [unfolded ds] r(1)] r all ds assms(2) show ?thesis
      by (auto simp: tally_def verdict_def approved_by_def)
  qed
  then show ?thesis
    using sound new decision_row_lawful [OF assms(3)] by (auto simp: request_sound_def)
qed

lemma decided_review_sound:
  assumes inv: "review_inv s" and q: "get_review_request (rd_review_id d) s = Some q"
    and "rvq_state q = V_PENDING" "authorize_decision q d = Inr ()"
    and rec: "record_verdict e q d s = Inr t"
  shows "review_inv (decided_review e q d s)"
proof -
  let ?ds = "decisions_of (rvq_id q) (review_decisions s)" and ?r = "decision_row e d"
  let ?v = "verdict q d (s\<lparr>review_decisions := review_decisions s @ [?r]\<rparr>)"
  have id: "rd_review_id d = rvq_id q" using review_table.get_key [OF q] by simp
  have mem: "q \<in> set (review_requests s)" using q by (auto simp: get_review_request_def dest: row_get_SomeD)
  have dist: "distinct (map rvq_id (review_requests s))" using inv by (simp add: review_inv_def)
  have only: "p = q" if "p \<in> set (review_requests s)" "rvq_id p = rvq_id q" for p
    using row_get_mem [OF dist that(1)] row_get_mem [OF dist mem] that(2) by (metis option.inject)
  have "rvd_reviewer_id ?r \<notin> rvd_reviewer_id ` set ?ds"
    using record_verdict_Inr(2) [OF rec] id
    by (auto simp: review_decision_conflict_def decisions_of_def decision_row_def)
  from verdict_sound [OF _ assms(3,4) this refl id] mem inv
  have grown: "request_sound (q\<lparr>rvq_state := ?v\<rparr>) (?ds @ [?r])" by (auto simp: review_inv_def)
  have "request_sound (if rvq_id p = rvq_id q then p\<lparr>rvq_state := ?v\<rparr> else p)
      (decisions_of (rvq_id p) (review_decisions s @ [?r]))" if p: "p \<in> set (review_requests s)" for p
  proof (cases "rvq_id p = rvq_id q")
    case True
    with only p have "p = q" by simp
    with grown show ?thesis by (simp add: decisions_of_append decisions_of_def decision_row_def id)
  next
    case False
    then show ?thesis
      using inv p by (simp add: review_inv_def decisions_of_append decisions_of_def decision_row_def id)
  qed
  moreover have "get_review_request (rvd_review_id r) (decided_review e q d s) \<noteq> None"
    if "r \<in> set (review_decisions s @ [?r])" for r
    using that inv q
    by (auto simp: review_inv_def get_review_request_def decided_review_def row_get_row_set decision_row_def
        split: if_splits)
  ultimately show ?thesis
    using dist unfolding review_inv_def decided_review_def
    by (simp add: distinct_row_set ball_row_set if_distrib [of rvq_id] cong: if_cong)
qed

lemma review_submit_sound:
  assumes "review_submit e d actor key s = Inr (st, s')" and "review_inv s"
  shows "review_inv s'"
  using assms(1)
proof (cases rule: review_submit_Inr)
  case (decide q)
  from decide(4) show ?thesis
    by (cases rule: decide_review_Inr)
      (use decided_review_sound [OF assms(2) decide(3)] in \<open>auto simp: review_inv_def get_review_request_def\<close>)
qed (use assms(2) in \<open>auto simp: review_inv_def get_review_request_def\<close>)

lemma review_step_sound:
  assumes "review_step c s = Inr (r, s')" and "review_inv s"
  shows "review_inv s'"
  using assms(1)
  by (cases rule: review_step_cases)
    (auto simp: Inr_eq_bind_err intro: review_submit_sound [OF _ assms(2)] review_create_sound [OF _ assms(2)]
      mk_review_request_bounds)

interpretation review_quorums: transactional review_step review_inv
  by unfold_locales (rule review_step_sound)

section \<open>Requests only advance, and nothing else is touched\<close>

definition review_moves :: "ReviewRequestRow \<Rightarrow> ReviewRequestRow \<Rightarrow> bool" where
  "review_moves q q' \<longleftrightarrow> (\<exists>st. q' = q\<lparr>rvq_state := st\<rparr> \<and>
     (st = rvq_state q \<or> st \<in> set (REVIEW_TRANSITIONS (rvq_state q))))"

definition reviews_advance :: "db \<Rightarrow> db \<Rightarrow> bool" where
  "reviews_advance s s' \<longleftrightarrow> rows_advance get_review_request review_moves s s' \<and>
     prefix (review_decisions s) (review_decisions s')"

lemma review_moves_refl [simp]: "review_moves q q"
  unfolding review_moves_def by (rule exI [of _ "rvq_state q"]) simp

lemma review_moves_state:
  "st = rvq_state q \<or> st \<in> set (REVIEW_TRANSITIONS (rvq_state q)) \<Longrightarrow> review_moves q (q\<lparr>rvq_state := st\<rparr>)"
  unfolding review_moves_def by blast

lemma review_moves_trans: "review_moves a b \<Longrightarrow> review_moves b c \<Longrightarrow> review_moves a c"
  unfolding review_moves_def by (cases "rvq_state a") auto

lemma reviews_advance_same:
  "review_requests t = review_requests s \<Longrightarrow> review_decisions t = review_decisions s \<Longrightarrow> reviews_advance s t"
  by (simp add: reviews_advance_def rows_advance_same get_review_request_def)

lemma reviews_advance_trans: "reviews_advance s t \<Longrightarrow> reviews_advance t u \<Longrightarrow> reviews_advance s u"
  unfolding reviews_advance_def
  by (blast intro: rows_advance_trans review_moves_trans prefix_order.trans)

lemma review_create_advance:
  assumes "review_create e r s = Inr (u, s')"
  shows "reviews_advance s s'"
  using assms
proof (cases rule: review_create_Inr)
  case (new c)
  then show ?thesis
    by (auto simp: reviews_advance_def rows_advance_def get_review_request_def row_get_append)
qed (simp add: reviews_advance_same)

lemma decided_review_advance:
  assumes "get_review_request k s = Some q" and "rvq_state q = V_PENDING"
  shows "reviews_advance s (decided_review e q d s)"
proof -
  have "rvq_id q = k" using assms(1) by (rule review_table.get_key)
  moreover have "review_moves q (q\<lparr>rvq_state := verdict q d t\<rparr>)" for t
    using assms(2) by (intro review_moves_state) (simp add: verdict_def)
  ultimately show ?thesis
    using assms(1)
    by (auto simp: reviews_advance_def rows_advance_def get_review_request_def decided_review_def row_get_row_set)
qed

lemma review_submit_advance:
  assumes "review_submit e d actor key s = Inr (st, s')"
  shows "reviews_advance s s'"
  using assms
proof (cases rule: review_submit_Inr)
  case (decide q)
  from decide(4) show ?thesis
  proof (cases rule: decide_review_Inr)
    case (1 rows)
    then show ?thesis
      using decided_review_advance [OF decide(3) 1(1), of e d]
      by (simp add: reviews_advance_def rows_advance_def get_review_request_def)
  qed
qed (simp_all add: reviews_advance_same)

lemma review_step_advance:
  assumes "review_step c s = Inr (r, s')"
  shows "reviews_advance s s'"
  using assms
  by (cases rule: review_step_cases)
    (auto simp: Inr_eq_bind_err intro: review_submit_advance review_create_advance)

interpretation review_states: monotone_service review_step reviews_advance
  by unfold_locales
    (auto simp: reviews_advance_same intro: reviews_advance_trans review_step_advance)

lemma review_step_frame:
  assumes "review_step c s = Inr (r, s')"
  shows "s' = s\<lparr>review_requests := review_requests s', review_decisions := review_decisions s',
    idempotency := idempotency s'\<rparr>"
  using assms
proof (cases rule: review_step_cases)
  case (create e q)
  then obtain q' where "review_create e q' s = Inr (r, s')" by (auto simp: Inr_eq_bind_err)
  then show ?thesis by (cases rule: review_create_Inr) simp_all
next
  case (submit e d actor key)
  then obtain st where "review_submit e d actor key s = Inr (st, s')" by (auto simp: Inr_eq_bind_err)
  then show ?thesis
  proof (cases rule: review_submit_Inr)
    case (decide q)
    from decide(4) show ?thesis by (cases rule: decide_review_Inr) (simp add: decided_review_def)
  qed simp_all
qed

section \<open>Properties\<close>

lemma no_reviews: "review_requests s = [] \<Longrightarrow> review_decisions s = [] \<Longrightarrow> review_inv s"
  by (simp add: review_inv_def)

text \<open>
  An approved review has its quorum: through any sequence of review calls on a database
  without reviews, a request in
  state approved has exactly as many decisions as approvals it requires, at least one, all
  approving, by pairwise distinct reviewers, each in an eligible role, on the required
  evidence, and none by the proposer unless the request allows it.
\<close>

theorem review_quorum:
  assumes "review_requests s = []" "review_decisions s = []"
    and "get_review_request k (run_sessions review_step cs s) = Some q" and "rvq_state q = V_APPROVED"
  shows "let ds = decisions_of k (review_decisions (run_sessions review_step cs s)) in
    int (length ds) = rvq_approvals_required q \<and> ds \<noteq> [] \<and> distinct (map rvd_reviewer_id ds) \<and>
    (\<forall>d\<in>set ds. rvd_outcome d = RV_approve \<and>
       reviewer_role (rvd_decision d) \<in> set (rvq_eligible_roles q) \<and>
       set (rvq_required_evidence q) \<subseteq> set (rd_evidence_digests (rvd_decision d)) \<and>
       (rvd_reviewer_id d = rvq_proposer_id q \<longrightarrow> rvq_proposer_may_review q))"
proof -
  let ?s = "run_sessions review_step cs s"
  have "review_inv ?s" by (rule review_quorums.sessions_inv [OF no_reviews [OF assms(1,2)]])
  moreover have "q \<in> set (review_requests ?s)" "rvq_id q = k"
    using assms(3) by (auto simp: get_review_request_def dest: row_get_SomeD)
  ultimately have "request_sound q (decisions_of k (review_decisions ?s))" by (auto simp: review_inv_def)
  with assms(4) show ?thesis
    by (auto simp: request_sound_def tally_def approved_by_def list_all_iff lawful_def authorize_decision_Inr)
qed

text \<open>
  A decided review stays decided: once a request is approved or rejected, no later
  sequence of review calls changes the request row in any attribute, and decisions are
  never removed or rewritten.
\<close>

theorem review_verdict_final:
  assumes "get_review_request k s = Some q" and "rvq_state q \<in> {V_APPROVED, V_REJECTED}"
  shows "get_review_request k (run_sessions review_step cs s) = Some q \<and>
    prefix (review_decisions s) (review_decisions (run_sessions review_step cs s))"
proof -
  have adv: "reviews_advance s (run_sessions review_step cs s)" by (rule review_states.sessions_le)
  then obtain q' where "get_review_request k (run_sessions review_step cs s) = Some q'" "review_moves q q'"
    using assms(1) by (auto simp: reviews_advance_def dest: rows_advanceD)
  moreover have "q' = q" using \<open>review_moves q q'\<close> assms(2) by (auto simp: review_moves_def)
  ultimately show ?thesis using adv by (simp add: reviews_advance_def)
qed

text \<open>
  An expired review is never recorded as expired: the deadline refuses the decision with
  an exception that also rolls the new state back, so the request stays pending, and no
  sequence of review calls from a sound state ever stores the state expired.
\<close>

theorem review_expiry_not_recorded:
  assumes "get_review_request (rd_review_id d) s = Some q" and "rvq_state q = V_PENDING"
    and "dt_less (now e) (as_utc (rvq_expires_at q)) = Inr False"
    and "find_review_idempotency actor key d s = None" and "get_review_decision (rd_decision_id d) s = None"
  shows "in_session (review_submit e d actor key) s = (Inl (ReviewAuthorizationError ''review request expired''), s) \<and>
    (\<forall>cs. review_inv s \<longrightarrow> (\<forall>p\<in>set (review_requests (run_sessions review_step cs s)). rvq_state p \<noteq> V_EXPIRED))"
proof -
  have "rvq_state p \<noteq> V_EXPIRED" if "p \<in> set (review_requests (run_sessions review_step cs s))" "review_inv s" for p cs
    using that(1) review_quorums.sessions_inv [OF that(2), of cs]
    by (auto simp: review_inv_def request_sound_def tally_def)
  then show ?thesis
    using assms by (auto simp: in_session_def review_submit_def submit_body_def decide_review_def Let_def)
qed

lemma find_review_idempotency_add:
  assumes "review_record_idempotency e actor key d s = Inr t" and "find_review_idempotency actor key d s = None"
  shows "case (actor, key) of
     (Some a, Some k) \<Rightarrow> (\<exists>r. find_review_idempotency actor key d t = Some r \<and>
        idem_request_digest r = canonical_digest e (D_review d))
   | _ \<Rightarrow> t = s"
  using assms
  by (auto simp: review_record_idempotency_def find_review_idempotency_def find_idempotency_def
      add_idempotency_Inr find_append idempotency_row_def split: option.splits)

lemma submit_again:
  assumes "get_review_decision (rd_decision_id d) s = Some p"
    and "rvd_decision_digest p = canonical_digest e (D_review d)"
    and "case (actor, key) of
     (Some a, Some k) \<Rightarrow> (\<exists>r. find_review_idempotency actor key d s = Some r \<and>
        idem_request_digest r = canonical_digest e (D_review d))
     | _ \<Rightarrow> True"
    and "stored_status (rd_review_id d) s = Inr (st, s)"
  shows "review_submit e d actor key s = Inr (st, s)"
proof -
  obtain q where "get_review_request (rd_review_id d) s = Some q"
    using assms(4) by (auto simp: stored_status_def split: option.splits)
  with assms show ?thesis
    by (auto simp: review_submit_def submit_body_def Let_def review_record_idempotency_def
        find_review_idempotency_def split: option.splits)
qed

text \<open>
  Submitting the same decision again, with the same actor and key or with neither,
  returns the status of the first submission and changes nothing, also after the verdict.
\<close>

theorem review_submit_retry:
  assumes "review_submit e d actor key s = Inr (st, s')" and "find_review_idempotency actor key d s = None"
    and "canonical_digest e' = canonical_digest e"
  shows "review_submit e' d actor key s' = Inr (st, s')"
  using assms(1)
proof (cases rule: review_submit_Inr)
  case (replay r)
  with assms(2) show ?thesis by simp
next
  case (known p rows)
  have "get_review_decision (rd_decision_id d) s' = Some p"
    using known(2,5) by (simp add: get_review_decision_def)
  then show ?thesis
    using known find_review_idempotency_add [OF known(4,1)] assms(3)
    by (intro submit_again [where p = p]) (auto split: option.splits)
next
  case (decide q)
  from decide(3) have id: "rvq_id q = rd_review_id d" by (rule review_table.get_key)
  from decide(4) show ?thesis
  proof (cases rule: decide_review_Inr)
    case (1 rows)
    have "find_review_idempotency actor key d (decided_review e q d s) = None"
      using decide(1)
      by (auto simp: find_review_idempotency_def find_idempotency_def decided_review_def split: option.splits)
    note idem = find_review_idempotency_add [OF 1(5) this]
    have "get_review_decision (rd_decision_id d) s' = Some (decision_row e d)"
      using decide(2) 1(6)
      by (simp add: get_review_decision_def decided_review_def row_get_append row_get_Cons decision_row_def)
    then show ?thesis
      using 1(7) id assms(3) idem
      by (intro submit_again [where p = "decision_row e d"])
        (auto simp: decision_row_def split: option.splits)
  qed
qed

text \<open>
  Repeating the creation of a review request is accepted without a change exactly when
  both its timestamps were given in UTC: the date column forgets the offset, so a request
  with another offset comes back shifted and its retry is refused as a conflict.
\<close>

theorem review_create_retry:
  assumes "review_create e r s = Inr (u, s')" and "get_review_request (rq_review_id r) s = None"
    and "drops_tzinfo e" and "rq_expires_at r = Aware x p" and "rq_created_at r = Aware c z"
  shows "review_create e' r s' =
    (if p = 0 \<and> z = 0 then Inr ((), s') else Inl (ReviewConflictError ''review_id has another request''))"
  using assms(1)
proof (cases rule: review_create_Inr)
  case (new cand)
  have "get_review_request (rq_review_id r) s' = Some (review_row e r)"
    using new(1,5) by (simp add: get_review_request_def row_get_append row_get_Cons review_row_def)
  moreover have "request_from_row (review_row e r) = r \<longleftrightarrow> p = 0 \<and> z = 0"
    using assms(3-5) by (cases r) (auto simp: request_from_row_def review_row_def drops_tzinfo_def)
  ultimately show ?thesis by (auto simp: review_create_def)
next
  case existing
  with assms(2) show ?thesis by simp
qed

section \<open>Evaluations\<close>

definition demo_review :: ReviewRequest where
  "demo_review = \<lparr>rq_review_id = ''rv'', rq_run_id = ''r'', rq_candidate_id = ''c1'',
     rq_action = ''candidate.admit'', rq_proposer_id = ''bot'', rq_eligible_roles = [''lead''],
     rq_approvals_required = 1, rq_proposer_may_review = False, rq_required_evidence_digests = [],
     rq_expires_at = Aware 60000000 0, rq_created_at = Aware 0 0\<rparr>"

definition demo_verdict :: "string \<Rightarrow> string \<Rightarrow> ReviewDecision" where
  "demo_verdict k who = \<lparr>rd_decision_id = k, rd_review_id = ''rv'',
     reviewer = \<lparr>actor_type = ''human'', actor_id = who\<rparr>, reviewer_role = ''lead'', rd_outcome = RV_approve,
     rd_evidence_digests = [], rationale = ''ok'', signature_digest = ''d'', rd_decided_at = Aware 1 0\<rparr>"

definition demo_requested :: db where
  "demo_requested = snd (in_session (review_create (call_at ''q'' 1) demo_review) (demo_arena C_REVIEW_REQUIRED))"

definition demo_approved :: db where
  "demo_approved = snd (in_session (review_submit (call_at ''s'' 2) (demo_verdict ''d1'' ''ann'') (Some ''ann'')
     (Some ''key'')) demo_requested)"

definition demo_request_row :: "ReviewState \<Rightarrow> ReviewRequestRow" where
  "demo_request_row st = (review_row (call_at ''q'' 1) demo_review)\<lparr>rvq_state := st\<rparr>"

lemma demo_created: "review_create (call_at ''q'' 1) demo_review (demo_arena C_REVIEW_REQUIRED) = Inr ((), demo_requested)"
  by code_simp

lemma demo_submitted:
  "review_submit (call_at ''s'' 2) (demo_verdict ''d1'' ''ann'') (Some ''ann'') (Some ''key'') demo_requested =
     Inr (\<lparr>rs_review_id = ''rv'', rs_state = V_APPROVED, rs_approvals = 1, rs_approvals_required = 1\<rparr>, demo_approved)"
  by code_simp

lemma demo_approved_row: "get_review_request ''rv'' demo_approved = Some (demo_request_row V_APPROVED)"
  by code_simp

definition demo_review_calls :: "(env \<times> review_call) list" where
  "demo_review_calls = [(call_at ''q'' 1, Create_review demo_review),
     (call_at ''s'' 2, Submit_review (demo_verdict ''d1'' ''ann'') (Some ''ann'') (Some ''key''))]"

theorem review_quorum_witness:
  "int (length (decisions_of ''rv'' (review_decisions
     (run_sessions review_step demo_review_calls (demo_arena C_REVIEW_REQUIRED))))) = 1"
proof -
  have "get_review_request ''rv'' (run_sessions review_step demo_review_calls (demo_arena C_REVIEW_REQUIRED)) =
      Some (demo_request_row V_APPROVED)" by code_simp
  moreover have "rvq_approvals_required (demo_request_row V_APPROVED) = 1" by code_simp
  ultimately show ?thesis
    using review_quorum [of "demo_arena C_REVIEW_REQUIRED" "''rv''" demo_review_calls "demo_request_row V_APPROVED"]
    by (simp add: demo_arena_def demo_db_def empty_db_def demo_request_row_def Let_def)
qed

theorem review_verdict_final_witness:
  "get_review_request ''rv'' (run_sessions review_step
     [(call_at ''t'' 3, Submit_review (demo_verdict ''d2'' ''eve'') None None)] demo_approved) =
   Some (demo_request_row V_APPROVED)"
  by (rule conjunct1 [OF review_verdict_final [OF demo_approved_row]]) (simp add: demo_request_row_def)

theorem review_expiry_not_recorded_witness:
  "in_session (review_submit (call_at ''s'' 61) (demo_verdict ''d1'' ''ann'') None None) demo_requested =
     (Inl (ReviewAuthorizationError ''review request expired''), demo_requested)"
proof -
  have "get_review_request (rd_review_id (demo_verdict ''d1'' ''ann'')) demo_requested = Some (demo_request_row V_PENDING)"
    "dt_less (now (call_at ''s'' 61)) (as_utc (rvq_expires_at (demo_request_row V_PENDING))) = Inr False"
    "find_review_idempotency None None (demo_verdict ''d1'' ''ann'') demo_requested = None"
    "get_review_decision (rd_decision_id (demo_verdict ''d1'' ''ann'')) demo_requested = None"
    by code_simp+
  with review_expiry_not_recorded [of "demo_verdict ''d1'' ''ann''" demo_requested "demo_request_row V_PENDING"
      "call_at ''s'' 61" None None]
  show ?thesis by (simp add: demo_request_row_def)
qed

theorem review_submit_retry_witness:
  "\<exists>st. review_submit (call_at ''z'' 99) (demo_verdict ''d1'' ''ann'') (Some ''ann'') (Some ''key'') demo_approved =
     Inr (st, demo_approved)"
proof -
  have "find_review_idempotency (Some ''ann'') (Some ''key'') (demo_verdict ''d1'' ''ann'') demo_requested = None"
    by code_simp
  from review_submit_retry [OF demo_submitted this, of "call_at ''z'' 99"] show ?thesis by (simp add: call_at_def)
qed

theorem review_create_retry_witness:
  "review_create (call_at ''z'' 99) demo_review demo_requested = Inr ((), demo_requested)"
proof -
  have "get_review_request (rq_review_id demo_review) (demo_arena C_REVIEW_REQUIRED) = None" by code_simp
  from review_create_retry [OF demo_created this call_at_drops_tzinfo, of 60000000 0 0 0 "call_at ''z'' 99"]
  show ?thesis by (simp add: demo_review_def)
qed

end
