(* ===== verification/InvocationSvc.thy ===== *)
theory InvocationSvc
  imports Fixtures
begin

text \<open>
  Tool and model invocation records (application/invocation_service.py). A record is written
  once under its identifier; a repeat with the same content is accepted and changes nothing, a
  repeat with other content is refused.
\<close>

definition tool_invocation_row :: "env \<Rightarrow> string \<Rightarrow> ToolInvocationRecord \<Rightarrow> ToolInvocationRow" where
  "tool_invocation_row e rid rec =
     \<lparr>tin_id = ti_invocation_id rec, tin_run_id = rid, tin_session_id = ti_session_id rec,
      tin_record_digest = canonical_digest e (D_tool rec), tin_record = rec,
      tin_created_at = date_column e (ti_completed_at rec)\<rparr>"

definition record_tool :: "env \<Rightarrow> string \<Rightarrow> ToolInvocationRecord \<Rightarrow> db \<Rightarrow> err + string \<times> db" where
  "record_tool e rid rec s =
     (let digest = canonical_digest e (D_tool rec) in
      case get_tool_invocation (ti_invocation_id rec) s of
        Some prior \<Rightarrow>
          if tin_record_digest prior \<noteq> digest
          then Inl (InvocationConflictError ''tool invocation has conflicting evidence'')
          else Inr (digest, s)
      | None \<Rightarrow> bind_err (add_tool_invocation (tool_invocation_row e rid rec) s) (\<lambda>s. Inr (digest, s)))"

definition model_invocation_row :: "env \<Rightarrow> string \<Rightarrow> ModelInvocationRecord \<Rightarrow> ModelInvocationRow" where
  "model_invocation_row e rid rec =
     \<lparr>min_id = mi_invocation_id rec, min_run_id = rid, min_session_id = mi_session_id rec,
      min_record_digest = canonical_digest e (D_model rec), min_record = rec,
      min_created_at = date_column e (mi_completed_at rec)\<rparr>"

definition record_model :: "env \<Rightarrow> string \<Rightarrow> ModelInvocationRecord \<Rightarrow> db \<Rightarrow> err + string \<times> db" where
  "record_model e rid rec s =
     (let digest = canonical_digest e (D_model rec) in
      case get_model_invocation (mi_invocation_id rec) s of
        Some prior \<Rightarrow>
          if min_record_digest prior \<noteq> digest
          then Inl (InvocationConflictError ''model invocation has conflicting evidence'')
          else Inr (digest, s)
      | None \<Rightarrow> bind_err (add_model_invocation (model_invocation_row e rid rec) s) (\<lambda>s. Inr (digest, s)))"

datatype invocation_call =
    Record_tool string ToolInvocationRecord
  | Record_model string ModelInvocationRecord

fun invocation_step :: "env \<times> invocation_call \<Rightarrow> db \<Rightarrow> err + string \<times> db" where
  "invocation_step (e, Record_tool rid rec) s = record_tool e rid rec s"
| "invocation_step (e, Record_model rid rec) s = record_model e rid rec s"

lemma record_tool_Inr:
  assumes "record_tool e rid rec s = Inr (d, s')"
  obtains (again) p where "get_tool_invocation (ti_invocation_id rec) s = Some p"
      "tin_record_digest p = d" "s' = s"
  | (fresh) "get_tool_invocation (ti_invocation_id rec) s = None"
      "add_tool_invocation (tool_invocation_row e rid rec) s = Inr s'"
  using assms by (auto simp: record_tool_def Let_def bind_err_eq_Inr split: option.splits if_splits)

lemma record_model_Inr:
  assumes "record_model e rid rec s = Inr (d, s')"
  obtains (again) p where "get_model_invocation (mi_invocation_id rec) s = Some p"
      "min_record_digest p = d" "s' = s"
  | (fresh) "get_model_invocation (mi_invocation_id rec) s = None"
      "add_model_invocation (model_invocation_row e rid rec) s = Inr s'"
  using assms by (auto simp: record_model_def Let_def bind_err_eq_Inr split: option.splits if_splits)

text \<open>The service touches its own two tables, and these only grow at the end.\<close>

lemma invocation_step_tables:
  assumes "invocation_step c s = Inr (d, s')"
  shows "\<exists>ts ms. s' = s\<lparr>tool_invocations := tool_invocations s @ ts,
    model_invocations := model_invocations s @ ms\<rparr>"
proof (cases c)
  case (Pair e k)
  show ?thesis
  proof (cases k)
    case (Record_tool rid rec)
    with Pair assms have "record_tool e rid rec s = Inr (d, s')" by simp
    then show ?thesis
    proof (cases rule: record_tool_Inr)
      case (again p)
      then show ?thesis by (auto intro!: exI [of _ "[]"])
    next
      case fresh
      then show ?thesis by (intro exI [of _ "[tool_invocation_row e rid rec]"] exI [of _ "[]"]) (simp add: add_tool_invocation_Inr)
    qed
  next
    case (Record_model rid rec)
    with Pair assms have "record_model e rid rec s = Inr (d, s')" by simp
    then show ?thesis
    proof (cases rule: record_model_Inr)
      case (again p)
      then show ?thesis by (auto intro!: exI [of _ "[]"])
    next
      case fresh
      then show ?thesis by (intro exI [of _ "[]"] exI [of _ "[model_invocation_row e rid rec]"]) (simp add: add_model_invocation_Inr)
    qed
  qed
qed

end
