(* ===== verification/Artifacts.thy ===== *)
theory Artifacts
  imports RunSvc
begin

text \<open>
  The content-addressed artifact store (FilesystemArtifactStore in
  adapters/artifacts/filesystem.py) and the service that commits references to it and
  collects what nothing refers to (application/artifact_service.py). File contents are byte
  strings; the SHA-256 function is the parameter \<open>hash\<close>, of which only the form of the
  hexadecimal digest is assumed. An operation that raises may leave files behind, so the
  store operations return the outcome and the store together.
\<close>

section \<open>The object store\<close>

type_synonym bytes = string

record object_store =
  objects :: "string \<rightharpoonup> bytes"
  temporaries :: "(string \<times> bytes) list"

text \<open>
  What other processes do to the store before an attempt to install an object, and whether
  the operating system refuses to read the existing object or to rename the new one.
\<close>

record race =
  others :: "nat \<Rightarrow> object_store \<Rightarrow> object_store"
  unreadable :: "nat \<Rightarrow> bool"
  refused :: "nat \<Rightarrow> bool"

definition alone :: race where
  "alone = \<lparr>others = (\<lambda>i fs. fs), unreadable = (\<lambda>i. False), refused = (\<lambda>i. False)\<rparr>"

definition removeprefix :: "string \<Rightarrow> string \<Rightarrow> string" where
  "removeprefix p x = (if take (length p) x = p then drop (length p) x else x)"

definition path_for_hex :: "string \<Rightarrow> err + string" where
  "path_for_hex hex_digest =
     (if length hex_digest \<noteq> 64 \<or> list_ex (\<lambda>c. c \<notin> set ''0123456789abcdef'') hex_digest
      then Inl (ValueError ''invalid SHA-256 digest'')
      else Inr (take 2 hex_digest @ ''/'' @ drop 2 hex_digest))"

definition path_for_digest :: "string \<Rightarrow> err + string" where
  "path_for_digest digest = path_for_hex (removeprefix ''sha256:'' digest)"

definition unlink_temporary :: "string \<Rightarrow> object_store \<Rightarrow> object_store" where
  "unlink_temporary name fs = fs\<lparr>temporaries := filter (\<lambda>(n, _). n \<noteq> name) (temporaries fs)\<rparr>"

definition max_install_race_attempts :: nat where
  "max_install_race_attempts = 8"

text \<open>
  One attempt per unit of the first argument: an object that is already there is verified
  and reused, a missing one is installed by renaming the temporary file.
\<close>

fun install_or_reuse ::
  "nat \<Rightarrow> (bytes \<Rightarrow> string) \<Rightarrow> race \<Rightarrow> string \<Rightarrow> string \<Rightarrow> string \<Rightarrow> string \<Rightarrow> err option \<Rightarrow> object_store \<Rightarrow>
     (err + unit) \<times> object_store" where
  "install_or_reuse 0 hash world destination temporary hex_digest digest last_error fs =
     (Inl (case last_error of Some x \<Rightarrow> x
        | None \<Rightarrow> ArtifactIntegrityError (''object could not be installed: '' @ digest)), fs)"
| "install_or_reuse (Suc n) hash world destination temporary hex_digest digest last_error fs =
     (let fs = others world n fs in
      case objects fs destination of
        Some content \<Rightarrow>
          if unreadable world n
          then install_or_reuse n hash world destination temporary hex_digest digest
            (Some (OSError destination)) fs
          else if hash content = hex_digest
          then (Inr (), unlink_temporary temporary fs)
          else install_or_reuse n hash world destination temporary hex_digest digest
            (Some (ArtifactIntegrityError (''existing object failed verification: '' @ digest))) fs
      | None \<Rightarrow>
          if refused world n
          then install_or_reuse n hash world destination temporary hex_digest digest
            (Some (OSError destination)) fs
          else
            (case map_of (temporaries fs) temporary of
               None \<Rightarrow> (Inl (OSError temporary), fs)
             | Some content \<Rightarrow>
                 (Inr (), unlink_temporary temporary (fs\<lparr>objects := (objects fs)(destination \<mapsto> content)\<rparr>))))"

definition mk_artifact_ref :: "ArtifactRef \<Rightarrow> err + ArtifactRef" where
  "mk_artifact_ref r =
     bind_err (sha256_digest (ar_digest r)) (\<lambda>d.
     if ar_size_bytes r < 0 then Inl (ValueError ''Input should be greater than or equal to 0'')
     else
       bind_err (non_empty_string (ar_media_type r)) (\<lambda>media.
       bind_err (non_empty_string (ar_role r)) (\<lambda>role.
       bind_err (require_aware_datetime (ar_created_at r)) (\<lambda>created.
       Inr \<lparr>ar_digest = d, ar_size_bytes = ar_size_bytes r, ar_media_type = media,
         ar_role = role, ar_created_at = created\<rparr>))))"

definition store_put_bytes ::
  "(bytes \<Rightarrow> string) \<Rightarrow> race \<Rightarrow> env \<Rightarrow> bytes \<Rightarrow> string \<Rightarrow> string \<Rightarrow> int \<Rightarrow> object_store \<Rightarrow>
     (err + ArtifactRef) \<times> object_store" where
  "store_put_bytes hash world e data media_type role max_bytes fs =
     (if int (length data) > max_bytes
      then (Inl (ArtifactTooLargeError (''artifact exceeds '' @ show_int max_bytes @ '' bytes'')), fs)
      else
        let hex_digest = hash data; digest = ''sha256:'' @ hex_digest in
        case path_for_hex hex_digest of
          Inl x \<Rightarrow> (Inl x, fs)
        | Inr destination \<Rightarrow>
            let temporary = uuid4 e 0 @ ''.partial'' in
            if map_of (temporaries fs) temporary \<noteq> None
            then (Inl (OSError temporary), unlink_temporary temporary fs)
            else
              (case install_or_reuse max_install_race_attempts hash world destination temporary
                  hex_digest digest None (fs\<lparr>temporaries := (temporary, data) # temporaries fs\<rparr>) of
                 (Inl x, fs) \<Rightarrow> (Inl x, unlink_temporary temporary fs)
               | (Inr _, fs) \<Rightarrow>
                   (mk_artifact_ref \<lparr>ar_digest = digest, ar_size_bytes = int (length data),
                      ar_media_type = media_type, ar_role = role, ar_created_at = now e\<rparr>,
                    unlink_temporary temporary fs)))"

definition read_bytes ::
  "(bytes \<Rightarrow> string) \<Rightarrow> bool \<Rightarrow> ArtifactRef \<Rightarrow> object_store \<Rightarrow> err + bytes" where
  "read_bytes hash verify reference fs =
     (let hex_digest = removeprefix ''sha256:'' (ar_digest reference) in
      bind_err (path_for_hex hex_digest) (\<lambda>path.
      case objects fs path of
        None \<Rightarrow> Inl (OSError path)
      | Some data \<Rightarrow>
          if int (length data) \<noteq> ar_size_bytes reference
          then Inl (ArtifactIntegrityError (''artifact size mismatch: '' @ ar_digest reference))
          else if verify \<and> hash data \<noteq> hex_digest
          then Inl (ArtifactIntegrityError (''artifact digest mismatch: '' @ ar_digest reference))
          else Inr data))"

definition store_exists :: "string \<Rightarrow> object_store \<Rightarrow> err + bool" where
  "store_exists digest fs = bind_err (path_for_digest digest) (\<lambda>path. Inr (objects fs path \<noteq> None))"

definition store_delete :: "string \<Rightarrow> object_store \<Rightarrow> err + bool \<times> object_store" where
  "store_delete digest fs =
     bind_err (path_for_digest digest) (\<lambda>path.
     if objects fs path = None then Inr (False, fs)
     else Inr (True, fs\<lparr>objects := (objects fs)(path := None)\<rparr>))"

definition is_partial :: "string \<Rightarrow> bool" where
  "is_partial name \<longleftrightarrow> suffix ''.partial'' name"

definition cleanup_temporary :: "object_store \<Rightarrow> nat \<times> object_store" where
  "cleanup_temporary fs =
     (length (filter (\<lambda>(n, _). is_partial n) (temporaries fs)),
      fs\<lparr>temporaries := filter (\<lambda>(n, _). \<not> is_partial n) (temporaries fs)\<rparr>)"

section \<open>The service\<close>

record artifact_call =
  ac_data :: bytes
  ac_run_id :: string
  ac_owner_type :: string
  ac_owner_id :: string
  ac_media_type :: string
  ac_role :: string
  ac_retention_class :: string
  ac_max_bytes :: int
  ac_actor_id :: string

definition artifact_append_event ::
  "env \<Rightarrow> nat \<Rightarrow> RunRow \<Rightarrow> string \<Rightarrow> string \<Rightarrow> string \<Rightarrow> string \<Rightarrow> db \<Rightarrow> err + db" where
  "artifact_append_event e i run actor digest owner_type owner_id s =
     append_run_event e (now e) i run ''artifact.committed'' actor
       (JObj [(''digest'', JStr digest), (''owner_id'', JStr owner_id),
          (''owner_type'', JStr owner_type)]) s"

definition metadata_row :: "env \<Rightarrow> ArtifactRef \<Rightarrow> ArtifactMetadataRow" where
  "metadata_row e r = \<lparr>am_digest = ar_digest r, am_size_bytes = ar_size_bytes r,
     am_media_type = ar_media_type r, am_role = ar_role r,
     am_created_at = date_column e (ar_created_at r), am_verified_at = date_column e (ar_created_at r)\<rparr>"

definition reference_row :: "env \<Rightarrow> artifact_call \<Rightarrow> string \<Rightarrow> ArtifactReferenceRow" where
  "reference_row e c digest = \<lparr>ref_id = uuid4 e 1, ref_digest = digest, ref_run_id = ac_run_id c,
     ref_owner_type = ac_owner_type c, ref_owner_id = ac_owner_id c, ref_role = ac_role c,
     ref_retention_class = ac_retention_class c, ref_created_at = date_column e (now e)\<rparr>"

definition ensure_metadata :: "env \<Rightarrow> ArtifactRef \<Rightarrow> db \<Rightarrow> err + db" where
  "ensure_metadata e r s =
     (case get_artifact_metadata (ar_digest r) s of
        None \<Rightarrow> add_artifact_metadata (metadata_row e r) s
      | Some m \<Rightarrow>
          if am_size_bytes m \<noteq> ar_size_bytes r \<or> am_media_type m \<noteq> ar_media_type r
          then Inl (ArtifactMetadataConflict ''digest has incompatible metadata'')
          else Inr s)"

definition same_reference :: "artifact_call \<Rightarrow> string \<Rightarrow> ArtifactReferenceRow \<Rightarrow> bool" where
  "same_reference c digest q \<longleftrightarrow> ref_digest q = digest \<and> ref_owner_type q = ac_owner_type c \<and>
     ref_owner_id q = ac_owner_id c \<and> ref_role q = ac_role c"

text \<open>The session block of \<open>ArtifactService.put_bytes\<close>, after the bytes are stored.\<close>

definition register_artifact ::
  "env \<Rightarrow> artifact_call \<Rightarrow> ArtifactRef \<Rightarrow> db \<Rightarrow> err + ArtifactRef \<times> db" where
  "register_artifact e c r s =
     (case get_run (ac_run_id c) s of
        None \<Rightarrow> Inl (LookupError (''run not found: '' @ ac_run_id c))
      | Some run \<Rightarrow>
          bind_err (ensure_metadata e r s) (\<lambda>s.
          case find (same_reference c (ar_digest r)) (artifact_references s) of
            Some _ \<Rightarrow> Inr (r, s)
          | None \<Rightarrow>
              bind_err (add_artifact_reference (reference_row e c (ar_digest r)) s) (\<lambda>s.
              bind_err (artifact_append_event e 2 run (ac_actor_id c) (ar_digest r)
                (ac_owner_type c) (ac_owner_id c) s) (\<lambda>s.
              Inr (r, s)))))"

definition artifact_put_bytes ::
  "(bytes \<Rightarrow> string) \<Rightarrow> race \<Rightarrow> env \<Rightarrow> artifact_call \<Rightarrow> db \<times> object_store \<Rightarrow>
     (err + ArtifactRef) \<times> db \<times> object_store" where
  "artifact_put_bytes hash world e c st =
     (case store_put_bytes hash world e (ac_data c) (ac_media_type c) (ac_role c) (ac_max_bytes c)
        (snd st) of
        (Inl x, fs) \<Rightarrow> (Inl x, fst st, fs)
      | (Inr r, fs) \<Rightarrow>
          (case in_session (register_artifact e c r) (fst st) of (res, s) \<Rightarrow> (res, s, fs)))"

definition collectable :: "py_datetime \<Rightarrow> db \<Rightarrow> ArtifactMetadataRow \<Rightarrow> bool" where
  "collectable cutoff s m \<longleftrightarrow> wall (am_created_at m) < wall cutoff \<and>
     \<not> list_ex (\<lambda>q. ref_digest q = am_digest m) (artifact_references s)"

fun delete_all :: "string list \<Rightarrow> object_store \<Rightarrow> (err + (string \<times> bool) list) \<times> object_store" where
  "delete_all [] fs = (Inr [], fs)"
| "delete_all (d # ds) fs =
     (case store_delete d fs of
        Inl x \<Rightarrow> (Inl x, fs)
      | Inr (removed, fs) \<Rightarrow>
          (case delete_all ds fs of (Inl x, fs) \<Rightarrow> (Inl x, fs)
           | (Inr rs, fs) \<Rightarrow> (Inr ((d, removed) # rs), fs)))"

definition tombstone_row :: "env \<Rightarrow> nat \<Rightarrow> string \<Rightarrow> string \<Rightarrow> bool \<Rightarrow> DeletionTombstoneRow" where
  "tombstone_row e i reason digest removed = \<lparr>tomb_id = uuid4 e i, tomb_digest = digest,
     tomb_outcome = (if removed then ''removed'' else ''already_absent''), tomb_reason = reason,
     tomb_created_at = date_column e (now e)\<rparr>"

definition delete_metadata :: "string \<Rightarrow> db \<Rightarrow> err + db" where
  "delete_metadata digest s =
     (if list_ex (\<lambda>q. ref_digest q = digest) (artifact_references s)
      then Inl (IntegrityError ''artifact_metadata'')
      else Inr (s\<lparr>artifact_metadata := filter (\<lambda>m. am_digest m \<noteq> digest) (artifact_metadata s)\<rparr>))"

fun bury_all :: "env \<Rightarrow> nat \<Rightarrow> string \<Rightarrow> (string \<times> bool) list \<Rightarrow> db \<Rightarrow> err + db" where
  "bury_all e i reason [] s = Inr s"
| "bury_all e i reason ((d, removed) # rs) s =
     bind_err (add_tombstone (tombstone_row e i reason d removed) s) (\<lambda>s.
     bind_err (delete_metadata d s) (bury_all e (Suc i) reason rs))"

definition collect_unreferenced ::
  "env \<Rightarrow> int \<Rightarrow> string \<Rightarrow> db \<times> object_store \<Rightarrow> (err + string list) \<times> db \<times> object_store" where
  "collect_unreferenced e grace reason st =
     (let s = fst st; cutoff = dt_add (now e) (- seconds grace);
          candidates = map am_digest (filter (collectable cutoff s) (artifact_metadata s))
      in case delete_all candidates (snd st) of
           (Inl x, fs) \<Rightarrow> (Inl x, s, fs)
         | (Inr removed, fs) \<Rightarrow>
             (case bury_all e 0 reason removed s of
                Inl x \<Rightarrow> (Inl x, s, fs)
              | Inr s' \<Rightarrow> (Inr candidates, s', fs)))"

section \<open>Paths and installation\<close>

definition hex_hash :: "(bytes \<Rightarrow> string) \<Rightarrow> bool" where
  "hex_hash hash \<longleftrightarrow> (\<forall>d. length (hash d) = 64 \<and> list_all (\<lambda>c. c \<in> set ''0123456789abcdef'') (hash d))"

definition collision_free :: "(bytes \<Rightarrow> string) \<Rightarrow> bytes \<Rightarrow> bool" where
  "collision_free hash data \<longleftrightarrow> (\<forall>b. hash b = hash data \<longrightarrow> b = data)"

text \<open>Other processes leave the temporary file of this call alone; nobody else is at work.\<close>

definition spares :: "string \<Rightarrow> race \<Rightarrow> bool" where
  "spares tmp world \<longleftrightarrow> (\<forall>i fs. map_of (temporaries (others world i fs)) tmp = map_of (temporaries fs) tmp)"

definition quiet :: "race \<Rightarrow> bool" where
  "quiet world \<longleftrightarrow> (\<forall>i fs. others world i fs = fs)"

lemma path_for_hex_Inr:
  "path_for_hex h = Inr p \<longleftrightarrow>
     length h = 64 \<and> list_all (\<lambda>c. c \<in> set ''0123456789abcdef'') h \<and> p = take 2 h @ ''/'' @ drop 2 h"
  by (auto simp: path_for_hex_def list_all_iff list_ex_iff)

lemma hash_path:
  "hex_hash hash \<Longrightarrow> path_for_hex (hash d) = Inr (take 2 (hash d) @ ''/'' @ drop 2 (hash d))"
  by (simp add: path_for_hex_Inr hex_hash_def)

lemma path_for_hex_inj: "path_for_hex a = Inr p \<Longrightarrow> path_for_hex b = Inr p \<Longrightarrow> a = b"
proof -
  assume "path_for_hex a = Inr p" and "path_for_hex b = Inr p"
  then have len: "length a = 64" "length b = 64"
    and eq: "take 2 a @ ''/'' @ drop 2 a = take 2 b @ ''/'' @ drop 2 b"
    by (auto simp: path_for_hex_Inr)
  from eq len have "take 2 a = take 2 b \<and> ''/'' @ drop 2 a = ''/'' @ drop 2 b"
    by (subst (asm) append_eq_append_conv) auto
  then show "a = b" by (metis append_take_drop_id same_append_eq)
qed

lemma removeprefix_sha [simp]: "removeprefix ''sha256:'' (''sha256:'' @ h) = h"
  by (simp add: removeprefix_def)

lemma removeprefix_chars [simp]:
  "removeprefix ''sha256:'' (CHR ''s'' # CHR ''h'' # CHR ''a'' # CHR ''2'' # CHR ''5'' # CHR ''6'' # CHR '':'' # h) = h"
  by (simp add: removeprefix_def)

lemma is_sha256_split: "is_sha256 x \<Longrightarrow> x = ''sha256:'' @ removeprefix ''sha256:'' x"
proof -
  assume "is_sha256 x"
  then have t: "take 7 x = ''sha256:''" by (simp add: is_sha256_def)
  have seven: "length ''sha256:'' = 7" by simp
  have "removeprefix ''sha256:'' x = drop 7 x" unfolding removeprefix_def seven t by simp
  then show ?thesis using append_take_drop_id [of 7 x] t by metis
qed

lemma is_sha256_hash: "hex_hash hash \<Longrightarrow> is_sha256 (''sha256:'' @ hash d)"
  by (simp add: hex_hash_def is_sha256_def)

lemma hex_not_space: "c \<in> set ''0123456789abcdef'' \<Longrightarrow> \<not> white_space c"
  by (auto simp: white_space_def)

lemma strip_digest: "hex_hash hash \<Longrightarrow> strip (''sha256:'' @ hash d) = ''sha256:'' @ hash d"
proof -
  assume ok: "hex_hash hash"
  then have "length (hash d) = 64" and hex: "list_all (\<lambda>c. c \<in> set ''0123456789abcdef'') (hash d)"
    by (auto simp: hex_hash_def)
  then have "hash d \<noteq> []" by auto
  then obtain c cs where rev: "rev (hash d) = c # cs" by (cases "rev (hash d)") auto
  then have h: "hash d = rev cs @ [c]" by (metis rev.simps(2) rev_rev_ident)
  then have "c \<in> set (hash d)" by simp
  then have "\<not> white_space c" using hex hex_not_space by (auto simp: list_all_iff)
  moreover have "\<not> white_space (CHR ''s'')" by (simp add: white_space_def)
  ultimately show ?thesis by (simp add: strip_def h)
qed

lemma mk_artifact_ref_Inr:
  assumes "mk_artifact_ref r = Inr r'"
  shows "ar_digest r' = strip (ar_digest r)" and "ar_size_bytes r' = ar_size_bytes r"
  using assms
  by (auto simp: mk_artifact_ref_def bind_err_eq_Inr sha256_digest_def split: if_splits)

lemma unlink_objects [simp]: "objects (unlink_temporary n fs) = objects fs"
  by (simp add: unlink_temporary_def)

text \<open>Under any race an installation that succeeds leaves an object with the right digest.\<close>

lemma install_content:
  assumes "install_or_reuse n hash world dst tmp hex digest le fs = (Inr (), fs')"
    and "spares tmp world" and "map_of (temporaries fs) tmp = Some data" and "hash data = hex"
  shows "\<exists>b. objects fs' dst = Some b \<and> hash b = hex"
  using assms
proof (induction n arbitrary: le fs)
  case (Suc n)
  from Suc.prems(2,3) have tmp: "map_of (temporaries (others world n fs)) tmp = Some data"
    by (simp add: spares_def)
  note again = Suc.IH [OF _ Suc.prems(2) tmp Suc.prems(4)]
  show ?case
    using Suc.prems(1) tmp
    by (auto simp: Let_def Suc.prems(4) split: option.splits if_splits dest: again)
qed simp

text \<open>Alone, it adds the object or changes no object at all.\<close>

lemma install_quiet:
  assumes "install_or_reuse n hash world dst tmp hex digest le fs = (r, fs')"
    and "quiet world" and "map_of (temporaries fs) tmp = Some data"
  shows "objects fs' = objects fs \<or> objects fs dst = None \<and> objects fs' = (objects fs)(dst \<mapsto> data)"
  using assms
proof (induction n arbitrary: le)
  case (Suc n)
  then have "others world n fs = fs" by (simp add: quiet_def)
  then show ?case
    using Suc.prems by (auto simp: Let_def split: option.splits if_splits dest: Suc.IH)
qed simp

section \<open>The bytes that were put are read back\<close>

lemma store_put_Inr:
  assumes "store_put_bytes hash world e data media role limit fs = (Inr r, fs')"
  obtains dst fs1 where "int (length data) \<le> limit" "path_for_hex (hash data) = Inr dst"
    "install_or_reuse max_install_race_attempts hash world dst (uuid4 e 0 @ ''.partial'')
       (hash data) (''sha256:'' @ hash data) None
       (fs\<lparr>temporaries := (uuid4 e 0 @ ''.partial'', data) # temporaries fs\<rparr>) = (Inr (), fs1)"
    "mk_artifact_ref \<lparr>ar_digest = ''sha256:'' @ hash data, ar_size_bytes = int (length data),
       ar_media_type = media, ar_role = role, ar_created_at = now e\<rparr> = Inr r"
    "objects fs' = objects fs1"
  using assms
  by (auto simp: store_put_bytes_def Let_def split: if_splits sum.splits prod.splits)

lemma store_put_objects:
  assumes "store_put_bytes hash world e data media role limit fs = (res, fs')" and "quiet world"
  shows "objects fs' = objects fs \<or> (\<exists>dst. path_for_hex (hash data) = Inr dst \<and>
    objects fs dst = None \<and> objects fs' = (objects fs)(dst \<mapsto> data))"
proof -
  let ?tmp = "uuid4 e 0 @ ''.partial''"
  let ?fs = "fs\<lparr>temporaries := (?tmp, data) # temporaries fs\<rparr>"
  have tmp: "map_of (temporaries ?fs) ?tmp = Some data" by simp
  show ?thesis
    using assms install_quiet [OF _ assms(2) tmp]
    by (fastforce simp: store_put_bytes_def Let_def split: if_splits sum.splits prod.splits)
qed

definition put_ok :: "(bytes \<Rightarrow> string) \<Rightarrow> bytes \<Rightarrow> ArtifactRef \<Rightarrow> object_store \<Rightarrow> bool" where
  "put_ok hash data r fs \<longleftrightarrow> ar_digest r = ''sha256:'' @ hash data \<and>
     ar_size_bytes r = int (length data) \<and>
     (\<exists>p b. path_for_hex (hash data) = Inr p \<and> objects fs p = Some b \<and> hash b = hash data)"

lemma store_put_ok:
  assumes put: "store_put_bytes hash world e data media role limit fs = (Inr r, fs')"
    and hash: "hex_hash hash" and world: "spares (uuid4 e 0 @ ''.partial'') world"
  shows "put_ok hash data r fs'"
proof -
  obtain dst fs1 where path: "path_for_hex (hash data) = Inr dst"
    and inst: "install_or_reuse max_install_race_attempts hash world dst (uuid4 e 0 @ ''.partial'')
       (hash data) (''sha256:'' @ hash data) None
       (fs\<lparr>temporaries := (uuid4 e 0 @ ''.partial'', data) # temporaries fs\<rparr>) = (Inr (), fs1)"
    and mk: "mk_artifact_ref \<lparr>ar_digest = ''sha256:'' @ hash data, ar_size_bytes = int (length data),
       ar_media_type = media, ar_role = role, ar_created_at = now e\<rparr> = Inr r"
    and same: "objects fs' = objects fs1"
    using put by (rule store_put_Inr)
  have "\<exists>b. objects fs1 dst = Some b \<and> hash b = hash data"
    by (rule install_content [OF inst world]) simp_all
  then show ?thesis
    using mk_artifact_ref_Inr [OF mk] strip_digest [OF hash, of data] path same
    by (auto simp: put_ok_def)
qed


section \<open>References stay durable\<close>

text \<open>
  Every reference of the database has its metadata and a stored object whose hash is the
  digest it names.
\<close>

definition kept :: "(bytes \<Rightarrow> string) \<Rightarrow> object_store \<Rightarrow> string \<Rightarrow> bool" where
  "kept hash fs digest \<longleftrightarrow> (\<exists>p b. path_for_digest digest = Inr p \<and> objects fs p = Some b \<and>
     ''sha256:'' @ hash b = digest)"

definition durable :: "(bytes \<Rightarrow> string) \<Rightarrow> db \<times> object_store \<Rightarrow> bool" where
  "durable hash st \<longleftrightarrow>
     (\<forall>m\<in>set (artifact_metadata (fst st)). is_sha256 (am_digest m)) \<and>
     (\<forall>q\<in>set (artifact_references (fst st)).
        (\<exists>m\<in>set (artifact_metadata (fst st)). am_digest m = ref_digest q) \<and>
        kept hash (snd st) (ref_digest q))"

datatype artifact_op = PutArtifact env artifact_call | CollectArtifacts env int string | CleanupTemporary

fun artifact_step ::
  "(bytes \<Rightarrow> string) \<Rightarrow> race \<Rightarrow> artifact_op \<Rightarrow> db \<times> object_store \<Rightarrow> db \<times> object_store" where
  "artifact_step hash world (PutArtifact e c) st = snd (artifact_put_bytes hash world e c st)"
| "artifact_step hash world (CollectArtifacts e grace reason) st =
     snd (collect_unreferenced e grace reason st)"
| "artifact_step hash world CleanupTemporary st = (fst st, snd (cleanup_temporary (snd st)))"

lemma kept_mono:
  "kept hash fs d \<Longrightarrow> (\<And>p b. objects fs p = Some b \<Longrightarrow> objects fs' p = Some b) \<Longrightarrow> kept hash fs' d"
  by (fastforce simp: kept_def)

lemma store_put_grows:
  assumes "store_put_bytes hash world e data media role limit fs = (res, fs')" and "quiet world"
    and "objects fs p = Some b"
  shows "objects fs' p = Some b"
  using store_put_objects [OF assms(1,2)] assms(3) by auto

lemma put_ok_kept: "put_ok hash data r fs \<Longrightarrow> kept hash fs (ar_digest r)"
  by (auto simp: put_ok_def kept_def path_for_digest_def)

lemma ensure_metadata_Inr:
  assumes "ensure_metadata e r s = Inr s'"
  shows "runs s' = runs s" "events s' = events s" "outbox s' = outbox s"
    "artifact_references s' = artifact_references s"
    "set (artifact_metadata s) \<subseteq> set (artifact_metadata s')"
    "\<forall>m\<in>set (artifact_metadata s'). m \<in> set (artifact_metadata s) \<or> am_digest m = ar_digest r"
    "\<exists>m\<in>set (artifact_metadata s'). am_digest m = ar_digest r"
  using assms
  by (auto simp: ensure_metadata_def add_artifact_metadata_def row_add_def bind_err_eq_Inr
      metadata_row_def get_artifact_metadata_def split: option.splits if_splits dest: row_get_SomeD)

lemma append_run_event_artifacts:
  assumes "append_run_event e w i run ty actor payload s = Inr s'"
  shows "artifact_references s' = artifact_references s" "artifact_metadata s' = artifact_metadata s"
    "tombstones s' = tombstones s"
  using assms
  by (auto simp: append_run_event_def append_event_def add_event_def add_outbox_def row_add_def
      bind_err_eq_Inr set_run_def split: if_splits)

lemma register_artifact_result: "register_artifact e c r s = Inr (r', s') \<Longrightarrow> r' = r"
  by (auto simp: register_artifact_def bind_err_eq_Inr split: option.splits)

lemma find_reference:
  "find (same_reference c d) qs = Some q \<Longrightarrow> q \<in> set qs \<and> same_reference c d q"
  by (auto simp: find_Some_iff)

lemma register_artifact_Inr:
  assumes reg: "register_artifact e c r s = Inr (r', s')"
  obtains (known) run q where "get_run (ac_run_id c) s = Some run" "ensure_metadata e r s = Inr s'"
      "q \<in> set (artifact_references s')" "same_reference c (ar_digest r) q"
    | (fresh) run s1 s2 where "get_run (ac_run_id c) s = Some run" "ensure_metadata e r s = Inr s1"
      "find (same_reference c (ar_digest r)) (artifact_references s1) = None"
      "add_artifact_reference (reference_row e c (ar_digest r)) s1 = Inr s2"
      "artifact_append_event e 2 run (ac_actor_id c) (ar_digest r) (ac_owner_type c)
         (ac_owner_id c) s2 = Inr s'"
proof (cases "get_run (ac_run_id c) s")
  case (Some run)
  with reg obtain s1 where ens: "ensure_metadata e r s = Inr s1"
    by (auto simp: register_artifact_def bind_err_eq_Inr)
  show ?thesis
  proof (cases "find (same_reference c (ar_digest r)) (artifact_references s1)")
    case None
    with reg Some ens show ?thesis by (auto simp: register_artifact_def bind_err_eq_Inr intro: fresh)
  next
    case (Some q)
    with reg \<open>get_run (ac_run_id c) s = Some run\<close> ens have "s' = s1"
      by (simp add: register_artifact_def)
    with Some ens \<open>get_run (ac_run_id c) s = Some run\<close> find_reference [OF Some] show ?thesis
      by (auto intro: known)
  qed
qed (use reg in \<open>simp add: register_artifact_def\<close>)

lemma add_reference_artifacts:
  assumes "add_artifact_reference q s = Inr s1"
    and "artifact_append_event e i run actor digest owner_type owner_id s1 = Inr s'"
  shows "artifact_references s' = artifact_references s @ [q]"
    and "artifact_metadata s' = artifact_metadata s"
  using assms append_run_event_artifacts
  by (auto simp: artifact_append_event_def add_artifact_reference_def row_add_def bind_err_eq_Inr
      split: if_splits)

lemma register_durable:
  assumes reg: "register_artifact e c r s = Inr (r', s')" and ok: "durable hash (s, fs)"
    and new: "kept hash fs (ar_digest r)" "is_sha256 (ar_digest r)"
  shows "durable hash (s', fs)"
proof -
  have ens: "durable hash (s1, fs)" if "ensure_metadata e r s = Inr s1" for s1
    using ok new ensure_metadata_Inr(4-6) [OF that] by (fastforce simp: durable_def)
  from reg show ?thesis
  proof (cases rule: register_artifact_Inr)
    case (fresh run s1 s2)
    then show ?thesis
      using ens [OF fresh(2)] ensure_metadata_Inr(7) [OF fresh(2)] new
      by (auto simp: durable_def reference_row_def add_reference_artifacts [OF fresh(4,5)])
  qed (rule ens)
qed

lemma artifact_put_durable:
  assumes ok: "durable hash st" and hash: "hex_hash hash" and world: "quiet world"
  shows "durable hash (snd (artifact_put_bytes hash world e c st))"
proof -
  obtain s fs where st: "st = (s, fs)" by (cases st)
  obtain res fs' where put: "store_put_bytes hash world e (ac_data c) (ac_media_type c) (ac_role c)
    (ac_max_bytes c) fs = (res, fs')" by fastforce
  note grows = store_put_grows [OF put world]
  have mono: "kept hash fs d \<Longrightarrow> kept hash fs' d" for d by (erule kept_mono) (rule grows)
  have stays: "durable hash (s, fs')" using ok mono by (auto simp: durable_def st)
  show ?thesis
  proof (cases "\<exists>r s'. res = Inr r \<and> register_artifact e c r s = Inr (r, s')")
    case True
    then obtain r s' where res: "res = Inr r" and reg: "register_artifact e c r s = Inr (r, s')"
      by blast
    have stored: "put_ok hash (ac_data c) r fs'"
      using put res hash world by (auto intro!: store_put_ok simp: spares_def quiet_def)
    then have new: "kept hash fs' (ar_digest r)" by (rule put_ok_kept)
    from stored have "ar_digest r = ''sha256:'' @ hash (ac_data c)" by (simp add: put_ok_def)
    then have sha: "is_sha256 (ar_digest r)" using is_sha256_hash [OF hash] by simp
    have "durable hash (s', fs')"
      using register_durable [OF reg stays new sha] .
    then show ?thesis using put res reg by (simp add: artifact_put_bytes_def st in_session_def)
  next
    case False
    then show ?thesis
      using stays put
      by (auto simp: artifact_put_bytes_def st in_session_def split: sum.splits prod.splits
          dest: register_artifact_result)
  qed
qed

text \<open>
  The collection: what it deletes is unreferenced, so no object that a reference needs goes
  away, whether the transaction commits or not.
\<close>

lemma store_delete_Inr:
  assumes "store_delete d fs = Inr (b, fs')"
  obtains p where "path_for_digest d = Inr p" "objects fs' = (objects fs)(p := None)"
    "b = (objects fs p \<noteq> None)" "temporaries fs' = temporaries fs"
  using assms by (auto simp: store_delete_def bind_err_eq_Inr fun_upd_idem split: if_splits)

lemma delete_all_other:
  assumes "delete_all ds fs = (res, fs')" and "\<forall>d\<in>set ds. path_for_digest d \<noteq> Inr p"
  shows "objects fs' p = objects fs p"
  using assms
proof (induction ds arbitrary: fs res)
  case (Cons d ds)
  show ?case
  proof (cases "store_delete d fs")
    case (Inr a)
    obtain b fs1 where a: "a = (b, fs1)" by (cases a)
    from Inr a have "objects fs1 p = objects fs p"
      using Cons.prems(2) by (auto elim!: store_delete_Inr)
    moreover obtain res1 where rest: "delete_all ds fs1 = (res1, fs')"
      using Cons.prems(1) Inr a by (auto split: sum.splits prod.splits)
    ultimately show ?thesis using Cons.IH [OF rest] Cons.prems(2) by simp
  qed (use Cons.prems in simp)
qed simp

lemma path_for_digest_inj:
  assumes "path_for_digest a = Inr p" "path_for_digest b = Inr p" "is_sha256 a" "is_sha256 b"
  shows "a = b"
proof -
  have "removeprefix ''sha256:'' a = removeprefix ''sha256:'' b"
    using assms(1,2) by (auto simp: path_for_digest_def intro: path_for_hex_inj)
  then show ?thesis using is_sha256_split [OF assms(3)] is_sha256_split [OF assms(4)] by metis
qed

lemma bury_all_Inr:
  "bury_all e i reason rs s = Inr s' \<Longrightarrow>
     artifact_references s' = artifact_references s \<and>
     artifact_metadata s' = filter (\<lambda>m. am_digest m \<notin> fst ` set rs) (artifact_metadata s) \<and>
     map tomb_digest (tombstones s') = map tomb_digest (tombstones s) @ map fst rs \<and>
     runs s' = runs s \<and> events s' = events s \<and> outbox s' = outbox s"
proof (induction rs arbitrary: i s)
  case (Cons x rs)
  obtain d b where x: "x = (d, b)" by (cases x)
  from Cons.prems obtain s1 where s1: "bury_all e (Suc i) reason rs s1 = Inr s'"
    and eqs: "artifact_references s1 = artifact_references s"
      "artifact_metadata s1 = filter (\<lambda>m. am_digest m \<noteq> d) (artifact_metadata s)"
      "tombstones s1 = tombstones s @ [tombstone_row e i reason d b]"
      "runs s1 = runs s" "events s1 = events s" "outbox s1 = outbox s"
    by (auto simp: x bind_err_eq_Inr delete_metadata_def add_tombstone_def row_add_def split: if_splits)
  show ?case
    using Cons.IH [OF s1] eqs by (auto simp: x tombstone_row_def conj_commute intro!: filter_cong)
qed simp

lemma delete_all_digests: "delete_all ds fs = (Inr rs, fs') \<Longrightarrow> map fst rs = ds"
  by (induction ds arbitrary: fs rs) (auto split: sum.splits prod.splits)

lemma collect_kept:
  assumes ok: "durable hash (s, fs)" and q: "q \<in> set (artifact_references s)"
    and del: "delete_all (map am_digest (filter (collectable cutoff s) (artifact_metadata s))) fs = (res, fs')"
  shows "kept hash fs' (ref_digest q)"
proof -
  obtain p b where p: "path_for_digest (ref_digest q) = Inr p" "objects fs p = Some b"
    "''sha256:'' @ hash b = ref_digest q"
    using ok q by (auto simp: durable_def kept_def)
  have sha: "is_sha256 (ref_digest q)" using ok q by (force simp: durable_def)
  have "objects fs' p = objects fs p"
  proof (rule delete_all_other [OF del], rule ballI, rule notI)
    fix d
    assume d: "d \<in> set (map am_digest (filter (collectable cutoff s) (artifact_metadata s)))"
      and same: "path_for_digest d = Inr p"
    from d have "is_sha256 d" and "\<forall>r\<in>set (artifact_references s). ref_digest r \<noteq> d"
      using ok by (auto simp: durable_def collectable_def list_ex_iff)
    then show False using path_for_digest_inj [OF same p(1)] sha q by auto
  qed
  then show ?thesis using p by (auto simp: kept_def)
qed

lemma collect_durable:
  assumes ok: "durable hash (s, fs)"
  shows "durable hash (snd (collect_unreferenced e grace reason (s, fs)))"
proof -
  define cutoff where "cutoff = dt_add (now e) (- seconds grace)"
  define ds where "ds = map am_digest (filter (collectable cutoff s) (artifact_metadata s))"
  obtain res fs' where del: "delete_all ds fs = (res, fs')" by fastforce
  have kept: "kept hash fs' (ref_digest q)" if "q \<in> set (artifact_references s)" for q
    using collect_kept [OF ok that del [unfolded ds_def]] .
  then have stays: "durable hash (s, fs')" using ok by (auto simp: durable_def)
  show ?thesis
  proof (cases "\<exists>rs s'. res = Inr rs \<and> bury_all e 0 reason rs s = Inr s'")
    case True
    then obtain rs s' where res: "res = Inr rs" and bury: "bury_all e 0 reason rs s = Inr s'" by blast
    have free: "d \<notin> fst ` set rs" if "q \<in> set (artifact_references s)" "ref_digest q = d" for q d
    proof -
      have "fst ` set rs = set ds" using delete_all_digests [of ds fs rs fs'] del res
        by (metis list.set_map)
      then show ?thesis using that by (auto simp: ds_def collectable_def list_ex_iff)
    qed
    have refs: "artifact_references s' = artifact_references s"
      and meta: "artifact_metadata s' = filter (\<lambda>m. am_digest m \<notin> fst ` set rs) (artifact_metadata s)"
      using bury_all_Inr [OF bury] by blast+
    have "\<exists>m\<in>set (artifact_metadata s'). am_digest m = ref_digest q"
      if q: "q \<in> set (artifact_references s)" for q
      using stays q free [OF q refl] unfolding meta by (force simp: durable_def)
    then have "durable hash (s', fs')" using stays by (simp add: durable_def refs) (simp add: meta)
    then show ?thesis using del res bury
      by (simp add: collect_unreferenced_def Let_def ds_def cutoff_def)
  next
    case False
    then show ?thesis using stays del
      by (auto simp: collect_unreferenced_def Let_def ds_def cutoff_def split: sum.splits)
  qed
qed

lemma artifact_step_durable:
  assumes ok: "durable hash st" and "hex_hash hash" and "quiet world"
  shows "durable hash (artifact_step hash world c st)"
proof (cases c)
  case (PutArtifact e a)
  then show ?thesis using artifact_put_durable [OF assms] by simp
next
  case (CollectArtifacts e grace reason)
  then show ?thesis using collect_durable [of hash "fst st" "snd st"] ok by simp
next
  case CleanupTemporary
  have "kept hash (snd (cleanup_temporary fs)) d = kept hash fs d" for fs d
    by (simp add: kept_def cleanup_temporary_def)
  with CleanupTemporary show ?thesis using ok by (simp add: durable_def)
qed

text \<open>
  C33. Through any sequence of puts, collections and cleanups, failed ones included, every
  artifact reference in the database keeps its metadata row and a stored object whose
  SHA-256 digest is the digest it names: the collection only removes what nothing refers to.
  The operations run one after the other.
\<close>

theorem references_stay_durable:
  assumes "hex_hash hash" and "quiet world" and "durable hash (s, fs)"
    and "fold (artifact_step hash world) ops (s, fs) = (s', fs')"
    and "q \<in> set (artifact_references s')"
  shows "(\<exists>m\<in>set (artifact_metadata s'). am_digest m = ref_digest q) \<and>
    (\<exists>p b. path_for_digest (ref_digest q) = Inr p \<and> objects fs' p = Some b \<and>
       ''sha256:'' @ hash b = ref_digest q)"
proof -
  have "durable hash (fold (artifact_step hash world) ops st)" if "durable hash st" for st
    using that by (induction ops arbitrary: st) (auto simp: artifact_step_durable assms(1,2))
  from this [OF assms(3)] have "durable hash (s', fs')" using assms(4) by simp
  then show ?thesis using assms(5) by (auto simp: durable_def kept_def)
qed

lemma delete_all_none:
  assumes "delete_all ds fs = (res, fs')" and "objects fs p = None"
  shows "objects fs' p = None"
  using assms
proof (induction ds arbitrary: fs res)
  case (Cons d ds)
  show ?case
  proof (cases "store_delete d fs")
    case (Inr a)
    obtain b fs1 where a: "a = (b, fs1)" by (cases a)
    from Inr a have "objects fs1 p = None" using Cons.prems(2) by (auto elim!: store_delete_Inr split: if_splits)
    moreover obtain res1 where "delete_all ds fs1 = (res1, fs')"
      using Cons.prems(1) Inr a by (auto split: sum.splits prod.splits)
    ultimately show ?thesis using Cons.IH by blast
  qed (use Cons.prems in simp)
qed simp

lemma delete_all_gone:
  assumes "delete_all ds fs = (Inr rs, fs')" and "d \<in> set ds" and "path_for_digest d = Inr p"
  shows "objects fs' p = None"
  using assms
proof (induction ds arbitrary: fs rs)
  case (Cons x ds)
  from Cons.prems(1) obtain b fs1 rs1 where x: "store_delete x fs = Inr (b, fs1)"
    and rest: "delete_all ds fs1 = (Inr rs1, fs')"
    by (auto split: sum.splits prod.splits)
  show ?case
  proof (cases "d \<in> set ds")
    case False
    then have "objects fs1 p = None" using x Cons.prems by (auto elim!: store_delete_Inr)
    then show ?thesis by (rule delete_all_none [OF rest])
  qed (rule Cons.IH [OF rest _ Cons.prems(3)])
qed simp

lemma delete_all_paths:
  "delete_all ds fs = (Inr rs, fs') \<Longrightarrow> d \<in> set ds \<Longrightarrow> \<exists>p. path_for_digest d = Inr p"
proof (induction ds arbitrary: fs rs)
  case (Cons x ds)
  then show ?case by (auto elim!: store_delete_Inr split: sum.splits prod.splits)
qed simp

text \<open>
  What a collection that succeeds does: it returns exactly the digests of the metadata
  rows that are older than the grace period and have no reference; afterwards these have
  neither object nor metadata but a tombstone each, every other metadata row, every
  reference and every object at another path is as it was.
\<close>

theorem collection_effect:
  assumes "collect_unreferenced e grace reason (s, fs) = (Inr removed, s', fs')"
  shows "removed = map am_digest (filter (\<lambda>m. wall (am_created_at m) < utcnow e - seconds grace \<and>
      (\<forall>q\<in>set (artifact_references s). ref_digest q \<noteq> am_digest m)) (artifact_metadata s)) \<and>
    artifact_metadata s' = filter (\<lambda>m. am_digest m \<notin> set removed) (artifact_metadata s) \<and>
    artifact_references s' = artifact_references s \<and>
    map tomb_digest (tombstones s') = map tomb_digest (tombstones s) @ removed \<and>
    (\<forall>d\<in>set removed. store_exists d fs' = Inr False) \<and>
    (\<forall>p. (\<forall>d\<in>set removed. path_for_digest d \<noteq> Inr p) \<longrightarrow> objects fs' p = objects fs p)"
proof -
  define cutoff where "cutoff = dt_add (now e) (- seconds grace)"
  define ds where "ds = map am_digest (filter (collectable cutoff s) (artifact_metadata s))"
  obtain rs where del: "delete_all ds fs = (Inr rs, fs')" and bury: "bury_all e 0 reason rs s = Inr s'"
    and removed: "removed = ds"
    using assms
    by (auto simp: collect_unreferenced_def Let_def ds_def cutoff_def split: sum.splits prod.splits)
  have cut: "wall cutoff = utcnow e - seconds grace" by (simp add: cutoff_def now_def)
  have fst: "map fst rs = ds" by (rule delete_all_digests [OF del])
  then have set: "fst ` set rs = set ds" by (metis list.set_map)
  have gone: "store_exists d fs' = Inr False" if "d \<in> set ds" for d
  proof -
    have "\<exists>p. path_for_digest d = Inr p" using del that by (rule delete_all_paths)
    then show ?thesis using delete_all_gone [OF del that] by (auto simp: store_exists_def)
  qed
  have "removed = map am_digest (filter (\<lambda>m. wall (am_created_at m) < utcnow e - seconds grace \<and>
      (\<forall>q\<in>set (artifact_references s). ref_digest q \<noteq> am_digest m)) (artifact_metadata s))"
    by (simp add: removed ds_def collectable_def [abs_def] list_ex_iff cut)
  then show ?thesis
    using bury_all_Inr [OF bury] gone delete_all_other [OF del] by (simp add: removed fst set)
qed

text \<open>
  The service inserts a metadata row only together with a reference to it, and never deletes
  a reference.
\<close>

definition all_referenced :: "db \<Rightarrow> bool" where
  "all_referenced s \<longleftrightarrow>
     (\<forall>m\<in>set (artifact_metadata s). \<exists>q\<in>set (artifact_references s). ref_digest q = am_digest m)"

lemma register_all_referenced:
  assumes reg: "register_artifact e c r s = Inr (r', s')" and ok: "all_referenced s"
  shows "all_referenced s'"
  using reg
proof (cases rule: register_artifact_Inr)
  case (known run q)
  then show ?thesis
    using ok ensure_metadata_Inr(4,6) [OF known(2)]
    by (fastforce simp: all_referenced_def same_reference_def)
next
  case (fresh run s1 s2)
  then show ?thesis
    using ok ensure_metadata_Inr(4,6) [OF fresh(2)]
    by (fastforce simp: all_referenced_def reference_row_def add_reference_artifacts [OF fresh(4,5)])
qed

lemma collect_nothing:
  assumes "all_referenced s"
  shows "collect_unreferenced e grace reason (s, fs) = (Inr [], s, fs)"
proof -
  have "filter (collectable cutoff s) (artifact_metadata s) = []" for cutoff
    using assms by (force simp: all_referenced_def filter_empty_conv collectable_def list_ex_iff)
  then show ?thesis by (simp add: collect_unreferenced_def Let_def)
qed

text \<open>
  The collector never finds anything the service has left behind: in every state that
  puts, collections and cleanups reach from a database without artifacts, a collection
  removes no row and no object, because a metadata row always has a reference and the bytes
  of a put whose transaction failed have no metadata row.
\<close>

theorem collection_finds_nothing:
  assumes "artifact_metadata s = []"
    and "fold (artifact_step hash world) ops (s, fs) = (s', fs')"
  shows "collect_unreferenced e grace reason (s', fs') = (Inr [], s', fs')"
proof -
  have step: "all_referenced (fst (artifact_step hash world c st))" if ok: "all_referenced (fst st)" for c st
  proof (cases c)
    case (PutArtifact e a)
    then show ?thesis
      using ok register_all_referenced
      by (auto simp: artifact_put_bytes_def in_session_def split: sum.splits prod.splits)
  next
    case (CollectArtifacts e grace reason)
    then show ?thesis using ok collect_nothing [of "fst st" e grace reason "snd st"] by simp
  next
    case CleanupTemporary
    then show ?thesis using ok by simp
  qed
  have "all_referenced (fst (fold (artifact_step hash world) ops st))" if "all_referenced (fst st)" for st
    using that by (induction ops arbitrary: st) (auto simp: step)
  from this [of "(s, fs)"] have "all_referenced s'" using assms by (simp add: all_referenced_def)
  then show ?thesis by (rule collect_nothing)
qed

section \<open>Witnesses\<close>

definition demo_hash :: "bytes \<Rightarrow> string" where
  "demo_hash d = replicate 64 (if d = ''data'' then CHR ''a'' else CHR ''b'')"

definition demo_store :: object_store where
  "demo_store = \<lparr>objects = Map.empty, temporaries = []\<rparr>"

definition demo_artifact :: artifact_call where
  "demo_artifact = \<lparr>ac_data = ''data'', ac_run_id = ''r'', ac_owner_type = ''session'',
     ac_owner_id = ''s1'', ac_media_type = ''text/plain'', ac_role = ''stream'',
     ac_retention_class = ''run'', ac_max_bytes = 10, ac_actor_id = ''op''\<rparr>"

lemma demo_hash_hex: "hex_hash demo_hash"
  by (simp add: hex_hash_def demo_hash_def list_all_iff)

lemma demo_hash_free: "collision_free demo_hash ''data''"
  by (auto simp: collision_free_def demo_hash_def)

lemma alone_quiet: "quiet alone"
  by (simp add: quiet_def alone_def)

definition demo_stored :: "(err + ArtifactRef) \<times> object_store" where
  "demo_stored = store_put_bytes demo_hash alone (call_at ''p'' 5) ''data'' ''text/plain'' ''stream'' 10 demo_store"

lemma demo_stored_ok: "isl (fst demo_stored) = False"
  by code_simp


text \<open>
  An old object that nothing refers to, put into the tables as the integration test does,
  beside a put of the service.
\<close>

definition demo_orphan :: "db \<times> object_store" where
  "demo_orphan =
     (demo_db\<lparr>artifact_metadata := [\<lparr>am_digest = ''sha256:'' @ demo_hash ''old'', am_size_bytes = 3,
        am_media_type = ''text/plain'', am_role = ''log'', am_created_at = Naive 0, am_verified_at = Naive 0\<rparr>]\<rparr>,
      demo_store\<lparr>objects := [take 2 (demo_hash ''old'') @ ''/'' @ drop 2 (demo_hash ''old'') \<mapsto> ''old'']\<rparr>)"

definition demo_ops :: "artifact_op list" where
  "demo_ops = [PutArtifact (call_at ''p'' 5) demo_artifact, CollectArtifacts (call_at ''q'' 90) 60 ''retention'',
     CleanupTemporary]"

definition demo_kept :: "db \<times> object_store" where
  "demo_kept = fold (artifact_step demo_hash alone) demo_ops demo_orphan"

lemma demo_kept_rows:
  "map ref_digest (artifact_references (fst demo_kept)) = [''sha256:'' @ demo_hash ''data'']"
  "map am_digest (artifact_metadata (fst demo_kept)) = [''sha256:'' @ demo_hash ''data'']"
  "map tomb_digest (tombstones (fst demo_kept)) = [''sha256:'' @ demo_hash ''old'']"
  by code_simp+

lemma demo_orphan_durable: "durable demo_hash demo_orphan"
proof -
  have "is_sha256 (''sha256:'' @ demo_hash ''old'')" by code_simp
  then show ?thesis by (simp add: durable_def demo_orphan_def demo_db_def empty_db_def)
qed

theorem references_stay_durable_witness:
  "\<exists>q\<in>set (artifact_references (fst demo_kept)).
     (\<exists>p b. path_for_digest (ref_digest q) = Inr p \<and> objects (snd demo_kept) p = Some b \<and>
       ''sha256:'' @ demo_hash b = ref_digest q)"
proof -
  obtain q where q: "q \<in> set (artifact_references (fst demo_kept))"
    using demo_kept_rows(1) by (cases "artifact_references (fst demo_kept)") auto
  show ?thesis
    using references_stay_durable [OF demo_hash_hex alone_quiet, of "fst demo_orphan" "snd demo_orphan"
        demo_ops "fst demo_kept" "snd demo_kept" q] demo_orphan_durable q
    by (auto simp: demo_kept_def)
qed

definition demo_collected :: "(err + string list) \<times> db \<times> object_store" where
  "demo_collected = collect_unreferenced (call_at ''q'' 90) 60 ''retention'' demo_orphan"

lemma demo_collected_fst: "fst demo_collected = Inr [''sha256:'' @ demo_hash ''old'']"
  by code_simp

theorem collection_effect_witness:
  "artifact_metadata (fst (snd demo_collected)) = [] \<and>
   store_exists (''sha256:'' @ demo_hash ''old'') (snd (snd demo_collected)) = Inr False"
proof -
  have "collect_unreferenced (call_at ''q'' 90) 60 ''retention'' (fst demo_orphan, snd demo_orphan) =
    (Inr [''sha256:'' @ demo_hash ''old''], fst (snd demo_collected), snd (snd demo_collected))"
    using demo_collected_fst by (simp add: demo_collected_def prod_eq_iff)
  from collection_effect [OF this] show ?thesis by (simp add: demo_orphan_def)
qed

text \<open>A put for a run that does not exist leaves its bytes in the store without a row.\<close>

definition demo_failed :: "(err + ArtifactRef) \<times> db \<times> object_store" where
  "demo_failed = artifact_put_bytes demo_hash alone (call_at ''p'' 5) (demo_artifact\<lparr>ac_run_id := ''none''\<rparr>)
     (demo_db, demo_store)"

lemma demo_failed_eqs:
  "fst demo_failed = Inl (LookupError ''run not found: none'')"
  "store_exists (''sha256:'' @ demo_hash ''data'') (snd (snd demo_failed)) = Inr True"
  by code_simp+

theorem collection_finds_nothing_witness:
  "fst demo_failed = Inl (LookupError ''run not found: none'') \<and>
   store_exists (''sha256:'' @ demo_hash ''data'') (snd (snd demo_failed)) = Inr True \<and>
   collect_unreferenced (call_at ''q'' 90) 60 ''retention'' (snd demo_failed) = (Inr [], snd demo_failed)"
proof -
  have "fold (artifact_step demo_hash alone)
    [PutArtifact (call_at ''p'' 5) (demo_artifact\<lparr>ac_run_id := ''none''\<rparr>)] (demo_db, demo_store) =
    (fst (snd demo_failed), snd (snd demo_failed))"
    by (simp add: demo_failed_def)
  moreover have "artifact_metadata demo_db = []" by (simp add: demo_db_def empty_db_def)
  ultimately show ?thesis using collection_finds_nothing demo_failed_eqs by fastforce
qed

end
