(* ===== verification/Orchestration.thy ===== *)
theory Orchestration
  imports ReviewSvc InvocationSvc Artifacts
begin

text \<open>
  The services together, over the one database they share. A system call is a call of any
  service; a run of the system is a sequence of such calls, each its own session block. The
  facts here relate each service to the tables it does not own, so that the invariants and
  the monotone relations of all services hold along every run.
\<close>

section \<open>Calls of the system\<close>

datatype settle_call = Settle_exhausted string string string string UsageRecord UsageRecord string string
  "int option"

fun settle_step :: "env \<times> settle_call \<Rightarrow> db \<Rightarrow> err + unit \<times> db" where
  "settle_step (e, Settle_exhausted rid aid rsv result actual req pkg actor epoch) s =
     bind_err (mk_usage actual) (\<lambda>actual. bind_err (mk_usage req) (\<lambda>req.
     settle_exhausted_variation e rid aid rsv result actual req pkg actor epoch s))"

text \<open>The session blocks of the artifact service: a reference is committed, deletions are recorded.\<close>

datatype artifact_db_call = Register_artifact artifact_call ArtifactRef | Bury string "(string \<times> bool) list"

fun artifact_db_step :: "env \<times> artifact_db_call \<Rightarrow> db \<Rightarrow> err + unit \<times> db" where
  "artifact_db_step (e, Register_artifact c r) s = bind_err (register_artifact e c r s) (\<lambda>(_, s). Inr ((), s))"
| "artifact_db_step (e, Bury reason removed) s = bind_err (bury_all e 0 reason removed s) (\<lambda>s. Inr ((), s))"

fun_cases artifact_db_step_Inr: "artifact_db_step c s = Inr x"

datatype system_call =
    Run_call run_call
  | Budget_call budget_call
  | Activity_call activity_call
  | Session_call session_call
  | Runtime_call runtime_call
  | Settle_call settle_call
  | Evidence_call evidence_call
  | Review_call review_call
  | Invocation_call invocation_call
  | Artifact_call artifact_db_call

definition forget :: "err + 'a \<times> db \<Rightarrow> err + unit \<times> db" where
  "forget m = bind_err m (\<lambda>(_, s). Inr ((), s))"

fun system_step :: "env \<times> system_call \<Rightarrow> db \<Rightarrow> err + unit \<times> db" where
  "system_step (e, Run_call c) s = forget (run_step (e, c) s)"
| "system_step (e, Budget_call c) s = forget (budget_step (e, c) s)"
| "system_step (e, Activity_call c) s = activity_step (e, c) s"
| "system_step (e, Session_call c) s = session_step (e, c) s"
| "system_step (e, Runtime_call c) s = runtime_step (e, c) s"
| "system_step (e, Settle_call c) s = settle_step (e, c) s"
| "system_step (e, Evidence_call c) s = evidence_step (e, c) s"
| "system_step (e, Review_call c) s = review_step (e, c) s"
| "system_step (e, Invocation_call c) s = forget (invocation_step (e, c) s)"
| "system_step (e, Artifact_call c) s = artifact_db_step (e, c) s"

lemma forget_Inr: "forget m = Inr (u, s') \<longleftrightarrow> (\<exists>x. m = Inr (x, s'))"
  by (auto simp: forget_def bind_err_eq_Inr)

lemma system_step_Inr:
  assumes "system_step c s = Inr (u, s')"
  obtains (run) e d x where "c = (e, Run_call d)" "run_step (e, d) s = Inr (x, s')"
  | (budget) e d x where "c = (e, Budget_call d)" "budget_step (e, d) s = Inr (x, s')"
  | (activity) e d where "c = (e, Activity_call d)" "activity_step (e, d) s = Inr (u, s')"
  | (session) e d where "c = (e, Session_call d)" "session_step (e, d) s = Inr (u, s')"
  | (runtime) e d where "c = (e, Runtime_call d)" "runtime_step (e, d) s = Inr (u, s')"
  | (settle) e rid aid rsv result actual req pkg actor epoch where
      "c = (e, Settle_call (Settle_exhausted rid aid rsv result actual req pkg actor epoch))"
      "settle_exhausted_variation e rid aid rsv result actual req pkg actor epoch s = Inr (u, s')"
  | (evidence) e d where "c = (e, Evidence_call d)" "evidence_step (e, d) s = Inr (u, s')"
  | (review) e d where "c = (e, Review_call d)" "review_step (e, d) s = Inr (u, s')"
  | (invocation) e d x where "c = (e, Invocation_call d)" "invocation_step (e, d) s = Inr (x, s')"
  | (artifact) e d where "c = (e, Artifact_call d)" "artifact_db_step (e, d) s = Inr (u, s')"
proof (cases c)
  case (Pair e d)
  show ?thesis
  proof (cases d)
    case (Settle_call x)
    show ?thesis
    proof (cases x)
      case (Settle_exhausted rid aid rsv result actual req pkg actor epoch)
      with Pair Settle_call assms show ?thesis
        by (intro settle [of e rid aid rsv result actual req pkg actor epoch])
          (auto simp: bind_err_eq_Inr mk_usage_Inr)
    qed
  qed (use Pair assms that in \<open>auto simp: forget_Inr\<close>)
qed

section \<open>What the execution services leave alone\<close>

definition apart :: "db \<Rightarrow> db \<Rightarrow> bool" where
  "apart s t \<longleftrightarrow> champions (runs t) = champions (runs s) \<and> lineage t = lineage s \<and>
     admissions t = admissions s \<and> evaluations t = evaluations s \<and>
     prefix (policy_decisions s) (policy_decisions t) \<and>
     review_requests t = review_requests s \<and> review_decisions t = review_decisions s"

lemma apart_keeps: "apart s t \<Longrightarrow> keeps_lineage s t"
  by (simp add: apart_def keeps_lineage_def)

lemma apart_refl [simp]: "apart s s"
  by (simp add: apart_def)

lemma apart_frame:
  "runs t = runs s \<Longrightarrow> lineage t = lineage s \<Longrightarrow> admissions t = admissions s \<Longrightarrow>
   evaluations t = evaluations s \<Longrightarrow> policy_decisions t = policy_decisions s \<Longrightarrow>
   review_requests t = review_requests s \<Longrightarrow> review_decisions t = review_decisions s \<Longrightarrow> apart s t"
  by (simp add: apart_def)

lemma apart_append:
  assumes "append_run_event e w i run ty ac p t = Inr s'" and "apart s t"
  shows "apart s s'"
  using assms(2) append_run_event_Inr(1) [OF assms(1)] by (simp add: apart_def champions_row_set)

lemma apart_set_run:
  assumes "apart s t" and "\<And>r. run_id (f r) = run_id r" and "\<And>r. run_champion_id (f r) = run_champion_id r"
  shows "apart s (set_run k f t)"
  using assms by (simp add: apart_def set_run_def champions_row_set)

lemma apart_writes [simp]:
  "apart s (set_ledger k f1 t) = apart s t" "apart s (set_reservation k f2 t) = apart s t"
  "apart s (set_activity k f3 t) = apart s t" "apart s (set_session k f4 t) = apart s t"
  "apart s (set_candidate k f5 t) = apart s t" "apart s (set_invocation k f6 t) = apart s t"
  "apart s (set_reconciliation k f7 t) = apart s t"
  "apart s (opt_write set_session k' f4 t) = apart s t" "apart s (opt_write set_reservation k' f2 t) = apart s t"
  by (simp_all add: apart_def set_defs opt_write_def split: option.split)

lemma apart_inserts:
  "add_reservation r s = Inr t \<Longrightarrow> apart q s \<Longrightarrow> apart q t" "add_activity a s = Inr t \<Longrightarrow> apart q s \<Longrightarrow> apart q t"
  "add_session v s = Inr t \<Longrightarrow> apart q s \<Longrightarrow> apart q t" "add_attempt b s = Inr t \<Longrightarrow> apart q s \<Longrightarrow> apart q t"
  "add_invocation i s = Inr t \<Longrightarrow> apart q s \<Longrightarrow> apart q t"
  "add_reconciliation c s = Inr t \<Longrightarrow> apart q s \<Longrightarrow> apart q t"
  by (auto simp: add_Inr apart_def)

lemma budget_apart:
  "budget_reserve e rid key est actor s = Inr (x, s') \<Longrightarrow> apart s s'"
  "budget_complete e rsv act actor s = Inr (u, s') \<Longrightarrow> apart s s'"
  "budget_observe e rsv act actor s = Inr (u, s') \<Longrightarrow> apart s s'"
  "budget_hold e rsv actor s = Inr (u, s') \<Longrightarrow> apart s s'"
  "budget_release e rsv actor s = Inr (u, s') \<Longrightarrow> apart s s'"
  by (auto elim!: budget_reserve_Inr budget_complete_Inr budget_observe_Inr budget_hold_Inr budget_release_Inr
      apart_append intro!: apart_frame simp: set_defs)

lemma budget_step_apart: "budget_step c s = Inr (x, s') \<Longrightarrow> apart s s'"
  by (erule budget_step_Inr) (auto simp: Inr_eq_bind_err bind_err_eq_Inr intro: budget_apart)

lemma mark_reconciliation_apart:
  assumes "mark_reconciliation_required e aid actor error epoch s = Inr (u, s')"
  shows "apart s s'"
  using assms
proof (cases rule: mark_reconciliation_Inr)
  case (1 a run rec t)
  have "apart s t" by (rule apart_inserts(6) [OF 1(7)]) (simp add: apart_set_run)
  then show ?thesis by (intro apart_append [OF 1(8)]) simp
qed

lemma activity_apart:
  "activity_enqueue e rid key input actor session reservation s = Inr (y, s') \<Longrightarrow> apart s s'"
  "claim_next e worker secs at_time s = Inr (z, s') \<Longrightarrow> apart s s'"
  "activity_complete e aid worker epoch result s = Inr (u, s') \<Longrightarrow> apart s s'"
  "heartbeat e aid worker epoch secs at_time s = Inr (w, s') \<Longrightarrow> apart s s'"
  by (auto elim!: activity_enqueue_Inr claim_next_Inr activity_complete_Inr heartbeat_Inr
      dest: apart_inserts(2) [OF _ apart_refl] intro: apart_append)

lemma activity_step_apart: "activity_step c s = Inr (x, s') \<Longrightarrow> apart s s'"
  by (erule activity_step_Inr)
    (auto simp: Inr_eq_bind_err intro: mark_reconciliation_apart [OF sym] activity_apart activity_apart(3) [OF sym])

lemma session_apart:
  "session_enqueue e request s = Inr (u, s') \<Longrightarrow> apart s s'" "session_start e sid s = Inr (u, s') \<Longrightarrow> apart s s'"
  "record_attempt e rec s = Inr (n, s') \<Longrightarrow> apart s s'" "session_finish e result s = Inr (u, s') \<Longrightarrow> apart s s'"
  by (auto elim!: session_enqueue_Inr session_start_Inr record_attempt_Inr session_finish_Inr
      dest: apart_inserts(3) [OF _ apart_refl] apart_inserts(4) [OF _ apart_refl])

lemma session_step_apart: "session_step c s = Inr (x, s') \<Longrightarrow> apart s s'"
  by (erule session_step_Inr)
    (auto simp: Inr_eq_bind_err intro: session_apart session_apart(1,2) [OF sym])

lemma invocation_apart:
  "record_invocation e rec s = Inr (u, s') \<Longrightarrow> apart s s'" "replace_invocation e rec s = Inr (u, s') \<Longrightarrow> apart s s'"
  by (auto simp: record_invocation_def replace_invocation_def raise_simps
      split: option.splits if_splits dest: apart_inserts(5) [OF _ apart_refl])

lemma open_reconciliation_apart:
  assumes "open_reconciliation e rid aid reason actor session evidence reservation s = Inr (x, s')"
  shows "apart s s'"
  using assms
proof (cases rule: open_reconciliation_Inr)
  case (opened a run sid rsv t)
  have "apart s t" by (rule apart_inserts(6) [OF opened(11)]) (simp add: apart_set_run)
  then show ?thesis by (rule apart_append [OF opened(12)])
qed simp

lemma resolve_budget_apart: "resolve_budget e res rid rsv t = Inr u \<Longrightarrow> apart s t \<Longrightarrow> apart s u"
  by (auto simp: resolve_budget_def raise_simps split: option.splits if_splits prod.splits)

lemma resolve_reconciliation_apart:
  assumes "resolve_reconciliation e cid resolution note actor result s = Inr (x, s')"
  shows "apart s s'"
  using assms
proof (cases rule: resolve_reconciliation_Inr)
  case (settle res row prior a run t u)
  have "apart s t" unfolding resolve_session_Inr(1) [OF settle(9)] by (simp add: apart_set_run)
  with settle(10) have "apart s u" by (rule resolve_budget_apart)
  then show ?thesis by (intro apart_append [OF settle(11)]) simp
qed simp

lemma runtime_step_apart: "runtime_step c s = Inr (x, s') \<Longrightarrow> apart s s'"
  by (erule runtime_step_Inr)
    (auto simp: Inr_eq_bind_err intro: invocation_apart [OF sym] open_reconciliation_apart
      resolve_reconciliation_apart)

lemma cancel_evaluation_apart:
  assumes "cancel_evaluation e c ev reserved s = Inr (remaining, t)" and "apart q s"
  shows "apart q t"
proof -
  have "apart q u" if "cancel_activity e c ev s = Inr u" for u
    using cancel_activity_Inr [OF that] assms(2) by auto
  with assms(1) show ?thesis by (cases rule: cancel_evaluation_Inr) auto
qed

lemma block_candidate_apart:
  assumes "block_candidate e rid candidate ev actual limit dims pkg reserved s = Inr (remaining, t)"
  shows "apart s t"
proof (cases candidate)
  case None
  with assms show ?thesis by (simp add: block_candidate_def)
next
  case (Some c)
  with assms obtain u where u: "cancel_evaluation e c ev reserved
      (set_candidate (cand_id c) (\<lambda>c. c\<lparr>cand_state := In_state C_POLICY_BLOCKED\<rparr>) s) = Inr (remaining, u)"
    and t: "record_policy_denial e rid c actual limit dims pkg u = Inr t"
    by (auto simp: block_candidate_def raise_simps split: if_splits prod.splits)
  have "apart s u" by (rule cancel_evaluation_apart [OF u]) simp
  with record_policy_denial_Inr [OF t] show ?thesis by (auto simp: apart_def)
qed

lemma settle_apart:
  assumes "settle_exhausted_variation e rid aid rsv result actual req pkg actor epoch s = Inr (u, s')"
  shows "apart s s'"
  using assms
proof (cases rule: settle_exhausted_Inr)
  case (1 run a r l)
  have resolve: "apart s (resolve_open_cases e k k' t) = apart s t" for k k' t
    by (simp add: resolve_open_cases_def apart_def)
  from 1(10) show ?thesis
  proof (elim disjE conjE)
    assume "settle_again e run a r actual actor s = Inr (u, s')"
    then show ?thesis
      by (cases rule: settle_again_Inr) (auto simp: resolve elim: apart_append)
  next
    assume "settle_active e run a r l result actual req pkg actor s = Inr (u, s')"
    then show ?thesis
    proof (cases rule: settle_active_Inr)
      case settled: (1 candidate ev remaining t p dims)
      have "apart s t" using block_candidate_apart [OF settled(7)] .
      then show ?thesis by (intro apart_append [OF settled(9)]) (simp add: resolve apart_set_run)
    qed
  qed
qed

lemma invocation_step_apart: "invocation_step c s = Inr (x, s') \<Longrightarrow> apart s s'"
  by (auto dest!: invocation_step_tables intro: apart_frame)

lemma ensure_metadata_table:
  assumes "ensure_metadata e r s = Inr s'"
  shows "\<exists>ms. s' = s\<lparr>artifact_metadata := ms\<rparr>"
proof -
  have "\<exists>ms. s = s\<lparr>artifact_metadata := ms\<rparr>" by (rule exI [of _ "artifact_metadata s"]) simp
  with assms show ?thesis
    by (auto simp: ensure_metadata_def add_artifact_metadata_Inr split: option.splits if_splits)
qed

lemma register_artifact_tables:
  assumes "register_artifact e c r s = Inr (r', s')"
  obtains (quiet) ms where "s' = s\<lparr>artifact_metadata := ms\<rparr>"
  | (event) run ms rs p where "get_run (ac_run_id c) s = Some run"
      "append_run_event e (now e) 2 run ''artifact.committed'' (ac_actor_id c) p
         (s\<lparr>artifact_metadata := ms, artifact_references := rs\<rparr>) = Inr s'"
  using assms
proof (cases rule: register_artifact_Inr)
  case (known run q)
  then show ?thesis using ensure_metadata_table quiet by blast
next
  case (fresh run s1 s2)
  from ensure_metadata_table [OF fresh(2)] obtain ms where "s1 = s\<lparr>artifact_metadata := ms\<rparr>" by blast
  with fresh(4) obtain rs where "s2 = s\<lparr>artifact_metadata := ms, artifact_references := rs\<rparr>"
    by (auto simp: add_artifact_reference_Inr)
  with fresh(1,5) event show ?thesis by (simp add: artifact_append_event_def)
qed

lemma bury_all_tables:
  "bury_all e i reason rs s = Inr s' \<Longrightarrow> \<exists>ms ts. s' = s\<lparr>tombstones := ts, artifact_metadata := ms\<rparr>"
proof (induction rs arbitrary: i s)
  case Nil
  then have "s' = s\<lparr>tombstones := tombstones s, artifact_metadata := artifact_metadata s\<rparr>" by simp
  then show ?case by blast
next
  case (Cons x rs)
  obtain d b where "x = (d, b)" by (cases x)
  with Cons.prems obtain ms ts where "bury_all e (Suc i) reason rs (s\<lparr>tombstones := ts, artifact_metadata := ms\<rparr>) = Inr s'"
    by (auto simp: bind_err_eq_Inr delete_metadata_def add_tombstone_Inr split: if_splits)
  from Cons.IH [OF this] show ?case by auto
qed

lemma artifact_step_apart: "artifact_db_step c s = Inr (u, s') \<Longrightarrow> apart s s'"
  by (erule artifact_db_step_Inr)
    (auto simp: Inr_eq_bind_err dest!: bury_all_tables elim!: register_artifact_tables apart_append
      intro: apart_frame)

lemma artifact_step_behaves: "artifact_db_step c s = Inr (u, s') \<Longrightarrow> well_behaved s s'"
  by (erule artifact_db_step_Inr)
    (auto simp: Inr_eq_bind_err dest!: bury_all_tables elim!: register_artifact_tables
      intro: well_behaved_frame well_behaved_append)

section \<open>The run service and the tables of the others\<close>

lemma transition_apart:
  assumes "transition e rid target actor expected reason key scope s = Inr (r, s')"
  shows "apart s s'"
  using assms
proof (cases rule: transition_Inr)
  case (move current t rows)
  then show ?thesis
    unfolding commit_transition_Inr(1) [OF move(4)] by (simp add: apart_def champions_row_set moved_run_def)
qed simp

lemma settle_control_apart: "settle_control_request e rid actor s = Inr (r, s') \<Longrightarrow> apart s s'"
  by (auto simp: settle_control_request_def raise_simps split: if_splits intro: transition_apart)

lemma create_experiment_apart: "create_experiment e spec actor key s = Inr (d, s') \<Longrightarrow> apart s s'"
  by (drule create_experiment_Inr) (auto intro: apart_frame)

lemma run_step_parts:
  assumes "run_step c s = Inr (x, s')"
  shows "apart s s' \<or> (\<exists>e xid actor given prep key. create_run e xid actor given prep key s = Inr (x, s'))"
  using assms
  by (rule run_step_Inr)
    (auto simp: Inr_eq_bind_err bind_err_eq_Inr dest: transition_apart settle_control_apart create_experiment_apart
      dest!: sym [of "Inr _" "create_run _ _ _ _ _ _ _"])

lemma create_run_evidence:
  assumes "create_run e xid actor given prep key s = Inr (x, s')"
  shows "evidence_extends s s'" "review_requests s' = review_requests s" "review_decisions s' = review_decisions s"
proof -
  have "evidence_extends s s' \<and> review_requests s' = review_requests s \<and> review_decisions s' = review_decisions s"
    using assms
  proof (cases rule: create_run_Inr)
    case (fresh i y t rows)
    then show ?thesis using insert_run_Inr(1) [OF fresh(3)] by (simp add: evidence_extends_def)
  qed simp
  then show "evidence_extends s s'" "review_requests s' = review_requests s" "review_decisions s' = review_decisions s"
    by auto
qed

section \<open>Activities and sessions under the other services\<close>

definition idle :: "db \<Rightarrow> db \<Rightarrow> bool" where
  "idle s t \<longleftrightarrow> activities t = activities s \<and> sessions t = sessions s \<and> attempts t = attempts s"

lemma idle_append: "append_run_event e w i run ty ac p t = Inr s' \<Longrightarrow> idle s t \<Longrightarrow> idle s s'"
  by (drule append_run_event_Inr(1)) (simp add: idle_def)

lemma idle_refl [simp]: "idle s s"
  by (simp add: idle_def)

lemma idle_frame: "activities t = activities s \<Longrightarrow> sessions t = sessions s \<Longrightarrow> attempts t = attempts s \<Longrightarrow> idle s t"
  by (simp add: idle_def)

lemma idle_budget:
  "budget_reserve e rid key est actor s = Inr (x, s') \<Longrightarrow> idle s s'"
  "budget_complete e rsv act actor s = Inr (u, s') \<Longrightarrow> idle s s'"
  "budget_observe e rsv act actor s = Inr (u, s') \<Longrightarrow> idle s s'"
  "budget_hold e rsv actor s = Inr (u, s') \<Longrightarrow> idle s s'"
  "budget_release e rsv actor s = Inr (u, s') \<Longrightarrow> idle s s'"
  by (auto elim!: budget_reserve_Inr budget_complete_Inr budget_observe_Inr budget_hold_Inr budget_release_Inr
      idle_append intro!: idle_frame simp: set_defs)

lemma budget_step_idle: "budget_step c s = Inr (x, s') \<Longrightarrow> idle s s'"
  by (erule budget_step_Inr) (auto simp: Inr_eq_bind_err bind_err_eq_Inr intro: idle_budget)

lemma transition_idle:
  assumes "transition e rid target actor expected reason key scope s = Inr (r, s')"
  shows "idle s s'"
  using assms
proof (cases rule: transition_Inr)
  case (move current t rows)
  then show ?thesis unfolding commit_transition_Inr(1) [OF move(4)] by (simp add: idle_def)
qed simp

lemma create_run_idle:
  assumes "create_run e xid actor given prep key s = Inr (x, s')"
  shows "idle s s'"
  using assms
proof (cases rule: create_run_Inr)
  case (fresh i y t rows)
  then show ?thesis using insert_run_Inr(1) [OF fresh(3)] by (simp add: idle_def)
qed simp

lemma settle_control_idle: "settle_control_request e rid actor s = Inr (r, s') \<Longrightarrow> idle s s'"
  by (auto simp: settle_control_request_def raise_simps split: if_splits intro: transition_idle)

lemma create_experiment_idle: "create_experiment e spec actor key s = Inr (d, s') \<Longrightarrow> idle s s'"
  by (drule create_experiment_Inr) (auto simp: idle_def)

lemma run_step_idle: "run_step c s = Inr (x, s') \<Longrightarrow> idle s s'"
  by (erule run_step_Inr)
    (auto simp: Inr_eq_bind_err bind_err_eq_Inr
      intro: transition_idle settle_control_idle create_experiment_idle create_run_idle dest: sym)

lemma idle_leases: "idle s t \<Longrightarrow> leases_advance s t"
  by (simp add: idle_def leases_advance_same)

lemma idle_sessions: "idle s t \<Longrightarrow> sessions_advance s t"
  by (simp add: idle_def sessions_advance_same)

lemma idle_numbered: "idle s t \<Longrightarrow> sessions_numbered t = sessions_numbered s"
  by (simp add: idle_def sessions_numbered_def)

lemma evidence_step_idle: "evidence_step c s = Inr (r, s') \<Longrightarrow> idle s s'"
  by (simp add: idle_def evidence_step_frame)

lemma review_step_tables:
  assumes "review_step c s = Inr (r, s')"
  obtains qs ds rows where "s' = s\<lparr>review_requests := qs, review_decisions := ds, idempotency := rows\<rparr>"
  using review_step_frame [OF assms] by blast

lemma review_step_idle: "review_step c s = Inr (r, s') \<Longrightarrow> idle s s'"
  by (erule review_step_tables) (simp add: idle_def)

lemma invocation_step_idle: "invocation_step c s = Inr (x, s') \<Longrightarrow> idle s s'"
  by (auto dest!: invocation_step_tables intro: idle_frame)

lemma artifact_step_idle: "artifact_db_step c s = Inr (u, s') \<Longrightarrow> idle s s'"
  by (erule artifact_db_step_Inr)
    (auto simp: Inr_eq_bind_err dest!: bury_all_tables elim!: register_artifact_tables idle_append
      intro: idle_frame)

lemma invocation_step_log: "invocation_step c s = Inr (x, s') \<Longrightarrow> log_behaved s s'"
  by (auto dest!: invocation_step_tables simp: log_behaved_def core_inv_def log_inv_def specs_inv_def
      run_advances_def rows_advance_def get_run_def log_extends_def intro: run_moves_refl)

lemma review_step_behaves: "review_step c s = Inr (r, s') \<Longrightarrow> well_behaved s s'"
  by (erule review_step_tables) (simp add: well_behaved_frame)

lemma review_step_keeps: "review_step c s = Inr (r, s') \<Longrightarrow> keeps_lineage s s'"
  by (erule review_step_tables) (simp add: keeps_lineage_def)

lemma evidence_step_reviews:
  "evidence_step c s = Inr (r, s') \<Longrightarrow> review_requests s' = review_requests s \<and> review_decisions s' = review_decisions s"
  by (erule evidence_step_cases)
    (auto simp: decided_db_def elim!: stage_candidate_Inr record_evaluation_Inr commit_admission_Inr
      decide_admission_Inr dest!: record_policy_decision_Inr append_lineage_Inr(4))

lemma mark_reconciliation_rows:
  assumes "mark_reconciliation_required e aid actor error epoch s = Inr (u, s')"
  shows "\<exists>k. sessions s' = sessions (opt_write set_session k (park_session e) s) \<and> attempts s' = attempts s"
  using assms
proof (cases rule: mark_reconciliation_Inr)
  case (1 a run rec t)
  have "sessions s' = sessions (opt_write set_session (act_session_id a) (park_session e) s)" "attempts s' = attempts s"
    using append_run_event_Inr(1) [OF 1(8)] 1(7)
    by (auto simp: add_reconciliation_Inr opt_write_def set_defs split: option.splits)
  then show ?thesis by blast
qed

lemma mark_reconciliation_sessions:
  assumes "mark_reconciliation_required e aid actor error epoch s = Inr (u, s')"
  shows "sessions_advance s s' \<and> sessions_numbered s' = sessions_numbered s"
proof -
  from mark_reconciliation_rows [OF assms] obtain k where
    "sessions s' = sessions (opt_write set_session k (park_session e) s)" "attempts s' = attempts s" by blast
  moreover have "ses_id (park_session e v) = ses_id v" "ses_run_id (park_session e v) = ses_run_id v"
    "ses_number (park_session e v) = ses_number v" "session_moves v (park_session e v)" for v
    by (simp_all add: park_session_def session_moves_def session_reaches_step)
  ultimately show ?thesis
    by (simp add: sessions_advance_opt [where k = k and f = "park_session e"]
        sessions_numbered_opt [where k = k and f = "park_session e"])
qed

lemma activity_sessions:
  "activity_enqueue e rid key input actor session reservation s = Inr (y, s') \<Longrightarrow> sessions s' = sessions s \<and> attempts s' = attempts s"
  "claim_next e worker secs at_time s = Inr (z, s') \<Longrightarrow> sessions s' = sessions s \<and> attempts s' = attempts s"
  "activity_complete e aid worker epoch result s = Inr (u, s') \<Longrightarrow> sessions s' = sessions s \<and> attempts s' = attempts s"
  "heartbeat e aid worker epoch secs at_time s = Inr (w, s') \<Longrightarrow> sessions s' = sessions s \<and> attempts s' = attempts s"
  by (auto elim!: activity_enqueue_Inr claim_next_Inr activity_complete_Inr heartbeat_Inr
      dest!: append_run_event_Inr(1) simp: add_activity_Inr set_defs)

lemma same_sessions:
  "sessions s' = sessions s \<and> attempts s' = attempts s \<Longrightarrow> sessions_advance s s' \<and> sessions_numbered s' = sessions_numbered s"
  by (simp add: sessions_advance_same sessions_numbered_def)

lemma activity_step_sessions:
  "activity_step c s = Inr (x, s') \<Longrightarrow> sessions_advance s s' \<and> sessions_numbered s' = sessions_numbered s"
  by (erule activity_step_Inr)
    (simp_all add: Inr_eq_bind_err split_beta, (blast dest: sym activity_sessions [THEN same_sessions] mark_reconciliation_sessions)+)

lemma runtime_step_advances: "runtime_step c s = Inr (x, s') \<Longrightarrow> leases_advance s s' \<and> sessions_advance s s'"
proof (erule runtime_step_cases, goal_cases)
  case (1 e rec)
  then show ?case
    by (auto simp: record_invocation_def raise_simps add_invocation_Inr leases_advance_same sessions_advance_same
        split: option.splits if_splits dest!: sym [of "Inr _"])
next
  case (2 e rec)
  then show ?case
    by (auto simp: replace_invocation_def set_invocation_def leases_advance_same sessions_advance_same
        split: option.splits if_splits)
qed (auto simp: Inr_eq_bind_err intro: open_reconciliation_advances resolve_reconciliation_advances)

section \<open>Every call of the system\<close>

text \<open>
  What one committed call guarantees, whichever service it belongs to: the log, the states of
  the runs, the leases, the sessions, the evidence and the reviews only move forward.
\<close>

definition system_le :: "db \<Rightarrow> db \<Rightarrow> bool" where
  "system_le s s' \<longleftrightarrow> run_advances s s' \<and> log_extends s s' \<and> leases_advance s s' \<and> sessions_advance s s' \<and>
     evidence_extends s s' \<and> reviews_advance s s'"

text \<open>What holds in every state that the system reaches.\<close>

definition system_inv :: "db \<Rightarrow> bool" where
  "system_inv s \<longleftrightarrow> core_inv s \<and> lineage_inv s \<and> sessions_numbered s \<and> review_inv s"

lemmas [behaves] = run_step_behaves budget_step_behaves activity_step_behaves session_step_behaves
  evidence_step_behaves review_step_behaves artifact_step_behaves

lemmas [leaves_alone] = budget_step_apart activity_step_apart session_step_apart runtime_step_apart settle_apart
  invocation_step_apart artifact_step_apart

lemma system_step_log:
  assumes "system_step c s = Inr (u, s')"
  shows "log_behaved s s'"
  using assms
  by (cases rule: system_step_Inr)
    (auto intro: well_behaved_log behaves runtime_step_log settle_exhausted_log invocation_step_log)

lemma system_step_sessions:
  assumes "system_step c s = Inr (u, s')"
  shows "leases_advance s s' \<and> sessions_advance s s' \<and> (sessions_numbered s \<longrightarrow> sessions_numbered s')"
  using assms
proof (cases rule: system_step_Inr)
  case (activity e d)
  then show ?thesis using activity_step_sessions activities_leases activity_step_advances by blast
next
  case (session e d)
  then have "activities s' = activities s"
    by (auto elim!: session_step_Inr simp: Inr_eq_bind_err
        elim!: session_enqueue_Inr [OF sym] session_start_Inr [OF sym] record_attempt_Inr session_finish_Inr
        simp: add_session_Inr add_attempt_Inr set_defs)
  with session show ?thesis by (auto simp: leases_advance_same session_step_advances session_step_numbered)
next
  case (runtime e d)
  then show ?thesis using runtime_step_advances runtime_step_numbered by blast
next
  case (settle e rid aid rsv result actual req pkg actor epoch)
  from settle_exhausted_advances [OF settle(2)] show ?thesis
    by (simp add: sessions_advance_same sessions_numbered_def)
next
  case (run e d x)
  then show ?thesis using run_step_idle idle_leases idle_sessions idle_numbered by blast
next
  case (budget e d x)
  then show ?thesis using budget_step_idle idle_leases idle_sessions idle_numbered by blast
next
  case (evidence e d)
  then show ?thesis using evidence_step_idle idle_leases idle_sessions idle_numbered by blast
next
  case (review e d)
  then show ?thesis using review_step_idle idle_leases idle_sessions idle_numbered by blast
next
  case (invocation e d x)
  then show ?thesis using invocation_step_idle idle_leases idle_sessions idle_numbered by blast
next
  case (artifact e d)
  then show ?thesis using artifact_step_idle idle_leases idle_sessions idle_numbered by blast
qed

lemma system_step_parts:
  assumes "system_step c s = Inr (u, s')"
  shows "apart s s' \<or> (\<exists>e xid actor given prep key x. create_run e xid actor given prep key s = Inr (x, s')) \<or>
    (\<exists>d. evidence_step d s = Inr (u, s')) \<or> (\<exists>d. review_step d s = Inr (u, s'))"
  using assms
proof (cases rule: system_step_Inr)
  case (run e d x)
  then show ?thesis using run_step_parts [OF run(2)] by metis
qed (auto dest: leaves_alone)

lemma apart_reviews: "apart s t \<Longrightarrow> review_inv t = review_inv s \<and> reviews_advance s t"
  using review_inv_frame [of t s] by (simp add: apart_def reviews_advance_same)

lemma system_step_evidence:
  assumes "system_step c s = Inr (u, s')"
  shows "evidence_extends s s' \<and> reviews_advance s s' \<and> (lineage_inv s \<longrightarrow> lineage_inv s') \<and>
    (review_inv s \<longrightarrow> review_inv s')"
  using system_step_parts [OF assms]
proof (elim disjE exE)
  assume "apart s s'"
  then show ?thesis
    by (auto simp: apart_reviews intro: keeps_lineage_inv keeps_lineage_extends apart_keeps)
next
  fix e xid actor given prep key x assume "create_run e xid actor given prep key s = Inr (x, s')"
  from create_run_evidence [OF this] create_run_lineage [OF this] show ?thesis
    using review_inv_frame [of s' s] by (simp add: reviews_advance_same)
next
  fix d assume "evidence_step d s = Inr (u, s')"
  from evidence_step_reviews [OF this] evidence_step_extends [OF this] evidence_step_lineage [OF this]
  show ?thesis using review_inv_frame [of s' s] by (simp add: reviews_advance_same)
next
  fix d assume "review_step d s = Inr (u, s')"
  from review_step_keeps [OF this] review_step_sound [OF this] review_step_advance [OF this] show ?thesis
    by (auto intro: keeps_lineage_inv keeps_lineage_extends)
qed

lemma system_step_inv: "system_step c s = Inr (u, s') \<Longrightarrow> system_inv s \<Longrightarrow> system_inv s'"
  using system_step_log [of c s u s'] system_step_sessions [of c s u s'] system_step_evidence [of c s u s']
  by (simp add: system_inv_def log_behaved_def)

lemma system_step_le: "system_step c s = Inr (u, s') \<Longrightarrow> system_le s s'"
  using system_step_log [of c s u s'] system_step_sessions [of c s u s'] system_step_evidence [of c s u s']
  by (simp add: system_le_def log_behaved_def)

lemma system_le_trans: "system_le s t \<Longrightarrow> system_le t u \<Longrightarrow> system_le s u"
  unfolding system_le_def
  by (blast intro: run_advances_trans log_extends_trans leases_advance_trans sessions_advance_trans
      evidence_extends_trans reviews_advance_trans)

lemma system_le_refl [simp]: "system_le s s"
  by (simp add: system_le_def leases_advance_same sessions_advance_same reviews_advance_same)

interpretation system: transactional system_step system_inv
  by unfold_locales (rule system_step_inv)

interpretation system_history: monotone_service system_step system_le
  by unfold_locales (auto intro: system_le_trans system_step_le)

lemma system_inv_empty: "system_inv empty_db"
  by (simp add: system_inv_def core_inv_def log_inv_def log_ok_empty specs_inv_def lineage_inv_def lineage_ok_def
      sessions_numbered_def numbered_def review_inv_def empty_db_def)

text \<open>The states reached from the empty database, and the order between a state and a later one.\<close>

inductive reachable :: "db \<Rightarrow> bool" where
  start: "reachable empty_db"
| call: "reachable s \<Longrightarrow> system_step c s = Inr (u, s') \<Longrightarrow> reachable s'"

lemma reachable_inv: "reachable s \<Longrightarrow> system_inv s"
  by (induction rule: reachable.induct) (auto intro: system_inv_empty system_step_inv)

lemma reachable_sessions: "reachable s \<Longrightarrow> reachable (run_sessions system_step cs s)"
proof (induction cs arbitrary: s)
  case (Cons c cs)
  have "reachable (snd (in_session (system_step c) s))"
    using Cons.prems by (auto simp: in_session_def intro: reachable.call split: sum.splits)
  then show ?case by (simp add: Cons.IH)
qed simp

section \<open>Recorded amounts are amounts\<close>

text \<open>Evidence artifacts have sizes and session results a usage, in every state of the system.\<close>

definition sized :: "db \<Rightarrow> bool" where
  "sized s \<longleftrightarrow> (\<forall>v\<in>set (evaluations s). list_all (\<lambda>a. 0 \<le> ar_size_bytes a) (evidence_artifacts (evl_record v))) \<and>
     priced s"

lemma sized_evaluations: "evaluations t = evaluations s \<Longrightarrow> sized s \<Longrightarrow> priced t \<Longrightarrow> sized t"
  by (simp add: sized_def)

lemma evidence_step_sized:
  assumes "evidence_step c s = Inr (u, s')" and "sized s" and "priced s'"
  shows "sized s'"
  using assms
  by (cases rule: evidence_step_cases)
    (auto simp: sized_def evaluation_row_def elim!: stage_candidate_Inr record_evaluation_Inr
      dest!: record_policy_decision_Inr commit_admission_frame)

lemma create_run_evaluations: "create_run e xid actor given prep key s = Inr (x, s') \<Longrightarrow> evaluations s' = evaluations s"
  by (erule create_run_Inr) (auto dest!: insert_run_Inr(1))

lemma priced_opt:
  assumes "sessions t = sessions (opt_write set_session k f s)" and "\<And>v. ses_result (f v) = ses_result v" and "priced s"
  shows "priced t"
proof (cases k)
  case None
  with assms show ?thesis by (simp add: opt_write_def priced_def)
next
  case (Some x)
  with assms show ?thesis
    by (intro priced_set [of t x f s]) (auto simp: opt_write_def set_session_def)
qed

lemma mark_reconciliation_priced:
  assumes "mark_reconciliation_required e aid actor error epoch s = Inr (u, s')" and "priced s"
  shows "priced s'"
  using mark_reconciliation_rows [OF assms(1)]
  by (auto intro: priced_opt [OF _ _ assms(2)] simp: park_session_def)

lemma activity_step_priced: "activity_step c s = Inr (x, s') \<Longrightarrow> priced s \<Longrightarrow> priced s'"
  by (erule activity_step_Inr)
    (auto simp: Inr_eq_bind_err split_beta dest!: sym [of "Inr _"] dest: activity_sessions intro: mark_reconciliation_priced
      priced_same [THEN iffD2])

lemma runtime_step_priced:
  assumes "runtime_step c s = Inr (x, s')" and "priced s"
  shows "priced s'"
  using assms(1)
proof (cases rule: runtime_step_cases)
  case (invoke e rec)
  then show ?thesis using assms(2)
    by (auto simp: record_invocation_def raise_simps add_invocation_Inr priced_def split: option.splits if_splits
        dest!: sym [of "Inr _"])
next
  case (replace e rec)
  then show ?thesis using assms(2)
    by (auto simp: replace_invocation_def set_invocation_def priced_def split: option.splits if_splits)
next
  case (open_case e rid aid reason actor session evidence reservation)
  then obtain y where "open_reconciliation e rid aid reason actor session evidence reservation s = Inr (y, s')"
    by (auto simp: Inr_eq_bind_err)
  then show ?thesis
    by (cases rule: open_reconciliation_sessions) (auto intro: priced_opt [OF _ _ assms(2)] simp: await_session_def)
next
  case (resolve e cid resolution reason actor result)
  then obtain y where "resolve_reconciliation e cid resolution reason actor result s = Inr (y, s')"
    by (auto simp: Inr_eq_bind_err)
  then show ?thesis
    by (cases rule: resolve_reconciliation_sessions) (rule priced_opt [OF _ _ assms(2)], assumption, simp)
qed

lemma system_step_priced:
  assumes "system_step c s = Inr (u, s')" and "priced s"
  shows "priced s'"
proof -
  have idle: "priced s'" if "idle s s'" using that assms(2) priced_same [of s' s] by (simp add: idle_def)
  show ?thesis
    using assms(1)
  proof (cases rule: system_step_Inr)
    case (settle e rid aid rsv result actual req pkg actor epoch)
    with assms(2) settle_exhausted_advances [OF settle(2)] show ?thesis by (simp add: priced_def)
  next
    case (run e d x)
    then show ?thesis by (intro idle run_step_idle)
  next
    case (budget e d x)
    then show ?thesis by (intro idle budget_step_idle)
  next
    case (evidence e d)
    then show ?thesis by (intro idle evidence_step_idle)
  next
    case (review e d)
    then show ?thesis by (intro idle review_step_idle)
  next
    case (invocation e d x)
    then show ?thesis by (intro idle invocation_step_idle)
  next
    case (artifact e d)
    then show ?thesis by (intro idle artifact_step_idle)
  qed (use assms(2) activity_step_priced session_step_priced runtime_step_priced in blast)+
qed

lemma system_step_sized:
  assumes "system_step c s = Inr (u, s')" and "sized s"
  shows "sized s'"
proof -
  have "priced s'" using assms system_step_priced by (auto simp: sized_def)
  then show ?thesis
    using system_step_parts [OF assms(1)] assms(2)
    by (auto simp: apart_def elim!: review_step_tables
        intro: sized_evaluations evidence_step_sized dest: create_run_evaluations)
qed

lemma sized_empty: "sized empty_db"
  by (simp add: sized_def priced_def empty_db_def)

lemma reachable_sized: "reachable s \<Longrightarrow> sized s"
  by (induction rule: reachable.induct) (auto intro: system_step_sized sized_empty)

section \<open>A campaign from the empty database\<close>

text \<open>
  One complete run: an experiment and its prepared run, the run started, a session queued and
  started, a candidate staged, evaluated and admitted, and an activity enqueued and claimed.
\<close>

definition demo_manifest :: CandidateManifest where
  "demo_manifest = \<lparr>cm_candidate_id = ''c1'', cm_run_id = ''r'', cm_session_id = ''s1'',
     parent_candidate_ids = [''seed-r''], base_workspace_digest = ''tree0'', cm_source_tree_digest = ''tree1'',
     patch_artifact = None, result_artifacts = [],
     harness_ref = \<lparr>component_id = ''h'', component_version = ''1'', package_digest = ''p'',
       capability_manifest_digest = ''m''\<rparr>,
     cm_model_config_digest = ''d'', context_digest = ''d'', cm_attempt_index_digest = ''d'',
     execution_profile_digest = ''d'', cm_policy_bundle_digest = ''d'', cm_created_at = Aware 5 0\<rparr>"

definition demo_campaign :: "(env \<times> system_call) list" where
  "demo_campaign =
     [(call_at ''a'' 1, Run_call (Create_experiment demo_spec None None)),
      (call_at ''b'' 2, Run_call (Create_run ''x'' ''op'' (Some ''r'') True None)),
      (call_at ''c'' 3, Run_call (Transition ''r'' R_RUNNING ''op'' None None None None)),
      (call_at ''d'' 4, Session_call (Enqueue_session (demo_request ''s1''))),
      (call_at ''e'' 5, Session_call (Start_session ''s1'')),
      (call_at ''f'' 6, Evidence_call (Stage demo_manifest)),
      (call_at ''g'' 7, Evidence_call (Record_evaluation (demo_record 20) ''k'')),
      (call_at ''h'' 8, Evidence_call (Commit_admission ''r'' (demo_decision ''a1'' ''c1'' A_admit))),
      (call_at ''i'' 9, Activity_call (Enqueue ''r'' ''k'' ''in'' ''op'' (Some ''s1'') None)),
      (call_at ''j'' 10, Activity_call (Claim ''w1'' 30 None))]"

end
