(* ===== verification/Campaigns.thy ===== *)
theory Campaigns
  imports Orchestration
begin

text \<open>
  What the services promise about a campaign, stated without tables: a run has a state and a
  reign, the list of the candidates that have been champion. A campaign opens runs with their
  seed, moves runs along the transition table, and crowns a successor in a running run. The
  database implements this specification call by call.
\<close>

section \<open>The specification\<close>

record campaign_run =
  cr_state :: RunState
  cr_reign :: "string list"

type_synonym campaign = "string \<rightharpoonup> campaign_run"

text \<open>A run moves along the table and keeps its reign.\<close>

fun run_moved :: "campaign_run option \<Rightarrow> campaign_run option \<Rightarrow> bool" where
  "run_moved None None = True"
| "run_moved (Some r) (Some r') = (run_reaches (cr_state r) (cr_state r') \<and> cr_reign r' = cr_reign r)"
| "run_moved _ _ = False"

inductive campaign_step :: "campaign \<Rightarrow> campaign \<Rightarrow> bool" where
  moves: "(\<And>k. run_moved (A k) (B k)) \<Longrightarrow> campaign_step A B"
| opens: "A k = None \<Longrightarrow> st \<in> {R_CREATED, R_READY} \<Longrightarrow>
    campaign_step A (A(k \<mapsto> \<lparr>cr_state = st, cr_reign = [first]\<rparr>))"
| crowns: "A k = Some r \<Longrightarrow> cr_state r = R_RUNNING \<Longrightarrow>
    campaign_step A (A(k \<mapsto> r\<lparr>cr_reign := cr_reign r @ [candidate]\<rparr>))"

text \<open>What a database stands for.\<close>

definition reign_of :: "string \<Rightarrow> db \<Rightarrow> string list" where
  "reign_of k s = map lin_candidate_id (run_lineage k (lineage s))"

definition campaign_of :: "db \<Rightarrow> campaign" where
  "campaign_of s k = map_option (\<lambda>r. \<lparr>cr_state = run_state r, cr_reign = reign_of k s\<rparr>) (get_run k s)"

section \<open>The services implement it\<close>

lemma champions_dom:
  assumes "champions (runs s') = champions (runs s)"
  shows "get_run k s' = None \<longleftrightarrow> get_run k s = None"
proof -
  have "map run_id (runs s') = map run_id (runs s)"
    using arg_cong [OF assms, of "map fst"] by (simp add: champions_def comp_def)
  then have "run_id ` set (runs s') = run_id ` set (runs s)" by (metis set_map)
  moreover have "get_run k t = None \<longleftrightarrow> k \<notin> run_id ` set (runs t)" for t
    by (auto simp: get_run_def row_get_None)
  ultimately show ?thesis by simp
qed

lemma keeps_moves:
  assumes "keeps_lineage s s'" and "run_advances s s'"
  shows "campaign_step (campaign_of s) (campaign_of s')"
proof (rule moves)
  fix k
  have reign: "reign_of k s' = reign_of k s" using assms(1) by (simp add: reign_of_def keeps_lineage_def)
  show "run_moved (campaign_of s k) (campaign_of s' k)"
  proof (cases "get_run k s")
    case None
    moreover have "champions (runs s') = champions (runs s)" using assms(1) by (simp add: keeps_lineage_def)
    ultimately have "get_run k s' = None" using champions_dom by blast
    with None show ?thesis by (simp add: campaign_of_def)
  next
    case (Some r)
    with assms(2) obtain r' where "get_run k s' = Some r'" "run_moves r r'"
      by (auto simp: run_advances_def dest: rows_advanceD)
    with Some reign show ?thesis by (simp add: campaign_of_def run_moves_def)
  qed
qed

lemma apart_moves: "apart s s' \<Longrightarrow> run_advances s s' \<Longrightarrow> campaign_step (campaign_of s) (campaign_of s')"
  by (rule keeps_moves) (rule apart_keeps)

lemma stays: "campaign_step A A"
proof (rule moves)
  fix k show "run_moved (A k) (A k)" by (cases "A k") auto
qed

lemma create_run_opens:
  assumes "create_run e xid actor given prepare key s = Inr (rid, s')" and "lineage_inv s"
  shows "campaign_step (campaign_of s) (campaign_of s')"
  using assms(1)
proof (cases rule: create_run_Inr)
  case (fresh i x t rows)
  let ?r = "first_run e rid x prepare"
  have id: "run_id ?r = rid" by (simp add: first_run_def new_run_def Let_def)
  have no: "\<forall>q\<in>set (runs s). run_id q \<noteq> rid" using fresh(2) by (simp add: get_run_def row_get_None)
  then have "run_lineage rid (lineage s) = []"
    using assms(2) by (force simp: lineage_inv_def lineage_ok_def run_lineage_def filter_empty_conv)
  then have reign: "reign_of k s' = (if k = rid then [seed_id_of rid] else reign_of k s)" for k
    using insert_run_Inr(1) [OF fresh(3)] fresh(4)
    by (auto simp: reign_of_def run_lineage_def seed_lineage_def)
  have "get_run k s' = (if k = rid then Some ?r else get_run k s)" for k
    using insert_run_Inr(1) [OF fresh(3)] fresh(2,4) id
    by (auto simp: get_run_def row_get_append row_get_Cons split: option.splits)
  with reign have "campaign_of s' =
      (campaign_of s)(rid \<mapsto> \<lparr>cr_state = run_state ?r, cr_reign = [seed_id_of rid]\<rparr>)"
    by (auto simp: campaign_of_def fun_eq_iff)
  moreover have "run_state ?r \<in> {R_CREATED, R_READY}" by (simp add: first_run_def new_run_def Let_def)
  ultimately show ?thesis using fresh(2) by (simp add: opens campaign_of_def)
qed (simp add: stays)

lemma admission_crowns:
  assumes "commit_admission e rid d s = Inr (n, s')" and "run_advances s s'"
  shows "campaign_step (campaign_of s) (campaign_of s')"
  using assms(1)
proof (cases rule: commit_admission_Inr)
  case (decide run c)
  have rid: "run_id run = rid" using decide(2) by (rule run_table.get_key)
  from decide(8) show ?thesis
  proof (cases rule: decide_admission_Inr)
    case recorded
    then have "keeps_lineage s s'" by (simp add: keeps_lineage_def)
    then show ?thesis using assms(2) by (rule keeps_moves)
  next
    case (admitted m)
    note eff = append_lineage_Inr(4) [OF admitted(7)]
    have "get_run k s' = (if k = rid then Some (crowned e run (ad_candidate_id d) run) else get_run k s)" for k
      using decide(2) rid by (simp add: eff get_run_def row_get_row_set)
    moreover have "reign_of k s' = reign_of k s @ (if k = rid then [ad_candidate_id d] else [])" for k
      using rid by (simp add: eff reign_of_def run_lineage_def lineage_row_def)
    ultimately have "campaign_of s' = (campaign_of s)(rid \<mapsto>
        \<lparr>cr_state = run_state run, cr_reign = reign_of rid s\<rparr>\<lparr>cr_reign := reign_of rid s @ [ad_candidate_id d]\<rparr>)"
      by (auto simp: campaign_of_def fun_eq_iff)
    then show ?thesis
      using crowns [of "campaign_of s" rid "\<lparr>cr_state = run_state run, cr_reign = reign_of rid s\<rparr>"
          "ad_candidate_id d"] decide(2) admitted(5)
      by (simp add: campaign_of_def)
  qed
qed (simp add: stays)

lemma system_step_campaign:
  assumes "system_inv s" and "system_step c s = Inr (u, s')"
  shows "campaign_step (campaign_of s) (campaign_of s')"
proof -
  have adv: "run_advances s s'" using system_step_le [OF assms(2)] by (simp add: system_le_def)
  from system_step_parts [OF assms(2)] show ?thesis
  proof (elim disjE exE)
    fix d assume "evidence_step d s = Inr (u, s')"
    then show ?thesis
      by (cases rule: evidence_step_parts) (auto intro: keeps_moves admission_crowns adv)
  qed (use assms(1) adv in \<open>auto simp: system_inv_def
      intro: apart_moves create_run_opens keeps_moves review_step_keeps\<close>)
qed

interpretation campaign: refinement system_step system_inv campaign_of campaign_step
  by unfold_locales (rule system_step_campaign)

text \<open>
  C2. The services implement the campaign specification: whatever calls are made from a
  reachable database, failed ones included, what happens to the runs is a run of the
  specification, in which runs are opened with their seed as champion, move along the
  transition table, and gain a champion only one at a time, at the end of their reign and
  while running; nothing else about states and champions ever changes.
\<close>

theorem campaign_refinement:
  assumes "reachable s"
  shows "campaign_step\<^sup>*\<^sup>* (campaign_of s) (campaign_of (run_sessions system_step cs s))"
  using reachable_inv [OF assms] by (rule campaign.sessions_refine)

text \<open>The run of one call from the empty database, and a reign that grows.\<close>

theorem campaign_refinement_witness:
  "campaign_step\<^sup>*\<^sup>* (campaign_of empty_db)
     (campaign_of (run_sessions system_step
        [(call_at ''a'' 1, Run_call (Create_experiment demo_spec None None)),
         (call_at ''b'' 2, Run_call (Create_run ''x'' ''op'' (Some ''r'') True None))] empty_db)) \<and>
   campaign_of empty_db ''r'' = None \<and>
   campaign_of (run_sessions system_step
        [(call_at ''a'' 1, Run_call (Create_experiment demo_spec None None)),
         (call_at ''b'' 2, Run_call (Create_run ''x'' ''op'' (Some ''r'') True None))] empty_db) ''r'' =
     Some \<lparr>cr_state = R_READY, cr_reign = [''seed-r'']\<rparr>"
  (is "?refines \<and> ?before \<and> ?after")
proof (intro conjI)
  show ?refines using reachable.start by (rule campaign_refinement)
  show ?before ?after by code_simp+
qed

end
