(* ===== verification/Policy.thy ===== *)
theory Policy
  imports Fixtures "HOL-Library.Multiset"
begin

text \<open>
  The policy interpreter (adapters/policy/builtin.py) over the bundles of
  contracts/policy_bundle.py: the rules that match a request by actor, action and resource
  pattern, of which the most restrictive one decides; without a match the request is denied.
  Resource patterns are shell patterns as the Python library documents them for
  \<open>fnmatch.fnmatchcase\<close>. The digests of the bundle and of the request are parameters.
\<close>

section \<open>Shell patterns\<close>

datatype pattern_token = Star | Any_char | Literal char | Char_set bool "(char \<times> char) list"

text \<open>The items of a bracket expression: single characters and ranges.\<close>

fun set_items :: "string \<Rightarrow> (char \<times> char) list" where
  "set_items [] = []"
| "set_items (x # d # y # cs) =
     (if d = CHR ''-'' then (x, y) # set_items cs else (x, x) # set_items (d # y # cs))"
| "set_items (x # cs) = (x, x) # set_items cs"

text \<open>
  The text of a bracket expression and what follows it: a \<open>]\<close> directly after the opening
  (and after \<open>!\<close>) belongs to the set.
\<close>

definition close_bracket :: "string \<Rightarrow> (string \<times> string) option" where
  "close_bracket cs =
     (let body = takeWhile (\<lambda>c. c \<noteq> CHR '']''); rest = dropWhile (\<lambda>c. c \<noteq> CHR '']'')
      in case cs of
           [] \<Rightarrow> None
         | c # cs' \<Rightarrow>
             if c = CHR '']''
             then (case rest cs' of [] \<Rightarrow> None | _ # after \<Rightarrow> Some (c # body cs', after))
             else (case rest cs of [] \<Rightarrow> None | _ # after \<Rightarrow> Some (body cs, after)))"

definition bracket :: "string \<Rightarrow> (pattern_token \<times> string) option" where
  "bracket cs =
     (let negated = (cs \<noteq> [] \<and> hd cs = CHR ''!'')
      in map_option (\<lambda>(body, after). (Char_set negated (set_items body), after))
           (close_bracket (if negated then tl cs else cs)))"

lemma close_bracket_shorter:
  "close_bracket cs = Some (body, after) \<Longrightarrow> length after < length cs"
proof -
  have shorter: "dropWhile P xs = y # ys \<Longrightarrow> length ys < length xs" for P and xs ys :: string and y
    using length_dropWhile_le [of P xs] by simp
  assume some: "close_bracket cs = Some (body, after)"
  then obtain c cs' where cs: "cs = c # cs'" by (cases cs) (auto simp: close_bracket_def)
  show ?thesis
  proof (cases "c = CHR '']''")
    case True
    with some cs obtain y where "dropWhile (\<lambda>c. c \<noteq> CHR '']'') cs' = y # after"
      by (cases "dropWhile (\<lambda>c. c \<noteq> CHR '']'') cs'") (auto simp: close_bracket_def Let_def)
    then show ?thesis using shorter cs by fastforce
  next
    case False
    with some cs obtain y where "dropWhile (\<lambda>c. c \<noteq> CHR '']'') cs = y # after"
      by (cases "dropWhile (\<lambda>c. c \<noteq> CHR '']'') cs'") (auto simp: close_bracket_def Let_def)
    then show ?thesis by (rule shorter)
  qed
qed

lemma bracket_shorter: "bracket cs = Some (t, after) \<Longrightarrow> length after < length cs"
proof -
  assume "bracket cs = Some (t, after)"
  then obtain body where "close_bracket cs = Some (body, after) \<or>
      cs \<noteq> [] \<and> close_bracket (tl cs) = Some (body, after)"
    by (auto simp: bracket_def Let_def simp del: split_paired_Ex split: if_splits)
  then show ?thesis by (cases cs) (auto dest: close_bracket_shorter)
qed

function translate :: "string \<Rightarrow> pattern_token list" where
  "translate [] = []"
| "translate (c # cs) =
     (if c = CHR ''*'' then Star # translate cs
      else if c = CHR ''?'' then Any_char # translate cs
      else if c = CHR ''['' then
        (case bracket cs of
           None \<Rightarrow> Literal c # translate cs
         | Some (t, after) \<Rightarrow> t # translate after)
      else Literal c # translate cs)"
  by pat_completeness auto

termination
  by (relation "measure length") (auto dest: bracket_shorter)

fun in_range :: "char \<Rightarrow> char \<times> char \<Rightarrow> bool" where
  "in_range c (a, b) \<longleftrightarrow> (of_char a :: nat) \<le> of_char c \<and> (of_char c :: nat) \<le> of_char b"

fun token_matches :: "pattern_token \<Rightarrow> char \<Rightarrow> bool" where
  "token_matches Star c = False"
| "token_matches Any_char c = True"
| "token_matches (Literal d) c = (c = d)"
| "token_matches (Char_set negated rs) c = (list_ex (in_range c) rs \<noteq> negated)"

fun matches_tokens :: "pattern_token list \<Rightarrow> string \<Rightarrow> bool" where
  "matches_tokens [] s = (s = [])"
| "matches_tokens (Star # ts) [] = matches_tokens ts []"
| "matches_tokens (Star # ts) (c # s) = (matches_tokens ts (c # s) \<or> matches_tokens (Star # ts) s)"
| "matches_tokens (t # ts) [] = False"
| "matches_tokens (t # ts) (c # s) = (token_matches t c \<and> matches_tokens ts s)"

definition fnmatchcase :: "string \<Rightarrow> string \<Rightarrow> bool" where
  "fnmatchcase name pat = matches_tokens (translate pat) name"

section \<open>Rules and decisions\<close>

record PolicyRequest =
  prq_action :: string
  prq_resource :: string
  prq_actor_id :: string
  attributes :: "(string \<times> jval) list"

record PolicyRule =
  rule_id :: string
  rule_effect :: policy_outcome
  actors :: "string list"
  actions :: "string list"
  resource_patterns :: "string list"
  reason_code :: string
  rule_obligations :: "PolicyObligation list"

record PolicyBundle =
  pb_engine_id :: string
  rules :: "PolicyRule list"

record BuiltinPolicyEngine =
  bundle_of :: PolicyBundle
  bundle_digest :: string

definition mk_engine :: "(PolicyBundle \<Rightarrow> string) \<Rightarrow> PolicyBundle \<Rightarrow> BuiltinPolicyEngine" where
  "mk_engine digest b = \<lparr>bundle_of = b, bundle_digest = digest b\<rparr>"

fun effect_priority :: "policy_outcome \<Rightarrow> nat" where
  "effect_priority P_deny = 0"
| "effect_priority P_review = 1"
| "effect_priority P_allow = 2"

definition rule_matches :: "PolicyRule \<Rightarrow> PolicyRequest \<Rightarrow> bool" where
  "rule_matches rule request \<longleftrightarrow>
     (''*'' \<in> set (actors rule) \<or> prq_actor_id request \<in> set (actors rule)) \<and>
     (''*'' \<in> set (actions rule) \<or> prq_action request \<in> set (actions rule)) \<and>
     list_ex (\<lambda>pattern. fnmatchcase (prq_resource request) pattern) (resource_patterns rule)"

text \<open>\<open>min\<close> with the key (priority, rule_id): the first of the smallest.\<close>

definition rule_before :: "PolicyRule \<Rightarrow> PolicyRule \<Rightarrow> bool" where
  "rule_before a b \<longleftrightarrow>
     effect_priority (rule_effect a) < effect_priority (rule_effect b) \<or>
     effect_priority (rule_effect a) = effect_priority (rule_effect b) \<and> str_less (rule_id a) (rule_id b)"

fun min_rule :: "PolicyRule \<Rightarrow> PolicyRule list \<Rightarrow> PolicyRule" where
  "min_rule best [] = best"
| "min_rule best (r # rs) = min_rule (if rule_before r best then r else best) rs"

definition decide ::
  "env \<Rightarrow> (PolicyRequest \<Rightarrow> string) \<Rightarrow> BuiltinPolicyEngine \<Rightarrow> PolicyRequest \<Rightarrow> PolicyDecision" where
  "decide e digest engine request =
     (let matches = filter (\<lambda>rule. rule_matches rule request) (rules (bundle_of engine));
          (effect, codes, obls) =
            (case matches of
               [] \<Rightarrow> (P_deny, [''POLICY_DEFAULT_DENY''], [])
             | r # rs \<Rightarrow> (let selected = min_rule r rs
                 in (rule_effect selected, [reason_code selected], rule_obligations selected)))
      in \<lparr>pd_decision_id = uuid4 e 0, policy_engine_id = pb_engine_id (bundle_of engine),
          pd_policy_bundle_digest = bundle_digest engine, pd_action = prq_action request,
          pd_resource = prq_resource request, pd_input_digest = digest request,
          pd_outcome = effect, pd_reason_codes = codes, obligations = obls, pd_decided_at = now e\<rparr>)"

definition matching :: "PolicyBundle \<Rightarrow> PolicyRequest \<Rightarrow> PolicyRule set" where
  "matching b request = {r \<in> set (rules b). rule_matches r request}"

section \<open>The most restrictive matching rule decides\<close>

lemma rule_before_irrefl: "\<not> rule_before a a"
  by (simp add: rule_before_def)

lemma rule_before_asym: "rule_before a b \<Longrightarrow> \<not> rule_before b a"
  by (auto simp: rule_before_def dest: str_less_asym)

lemma rule_before_cotrans: "rule_before a c \<Longrightarrow> rule_before a b \<or> rule_before b c"
  by (auto simp: rule_before_def dest: str_less_cotrans)

lemma min_rule_mem: "min_rule r rs \<in> set (r # rs)"
proof (induction rs arbitrary: r)
  case (Cons q rs)
  then show ?case using Cons.IH [of q] Cons.IH [of r] by auto
qed simp

lemma min_rule_le: "x \<in> set (r # rs) \<Longrightarrow> \<not> rule_before x (min_rule r rs)"
proof (induction rs arbitrary: r x)
  case (Cons q rs)
  define b where "b = (if rule_before q r then q else r)"
  have le: "\<not> rule_before y (min_rule b rs)" if "y \<in> set (b # rs)" for y
    using that by (rule Cons.IH)
  have worse: "\<not> rule_before y (min_rule b rs)" if "\<not> rule_before y b" for y
    using rule_before_cotrans [of y "min_rule b rs" b] that le [of b] by auto
  have "\<not> rule_before r b" "\<not> rule_before q b"
    using rule_before_irrefl rule_before_asym by (auto simp: b_def)
  with Cons.prems le worse show ?case by (auto simp: b_def)
qed (simp add: rule_before_irrefl)

lemma decide_outcome:
  "pd_outcome (decide e digest engine request) =
     (case filter (\<lambda>rule. rule_matches rule request) (rules (bundle_of engine)) of
        [] \<Rightarrow> P_deny | r # rs \<Rightarrow> rule_effect (min_rule r rs))"
  by (simp add: decide_def Let_def split: list.split)

lemma min_rule_effect:
  "x \<in> set (r # rs) \<Longrightarrow>
     effect_priority (rule_effect (min_rule r rs)) \<le> effect_priority (rule_effect x)"
  using min_rule_le [of x r rs] by (auto simp: rule_before_def not_less)

text \<open>
  C35. The interpreter fails closed and takes the most restrictive matching rule: a request is
  allowed exactly when some rule matches it and every matching rule allows it, it is denied
  exactly when no rule matches or a matching rule denies it, and it goes to review exactly
  when a matching rule asks for review and none denies.
\<close>

theorem policy_most_restrictive:
  "(pd_outcome (decide e digest (mk_engine dg b) request) = P_allow \<longleftrightarrow>
      matching b request \<noteq> {} \<and> (\<forall>r\<in>matching b request. rule_effect r = P_allow)) \<and>
    (pd_outcome (decide e digest (mk_engine dg b) request) = P_deny \<longleftrightarrow>
      matching b request = {} \<or> (\<exists>r\<in>matching b request. rule_effect r = P_deny)) \<and>
    (pd_outcome (decide e digest (mk_engine dg b) request) = P_review \<longleftrightarrow>
      (\<exists>r\<in>matching b request. rule_effect r = P_review) \<and> (\<forall>r\<in>matching b request. rule_effect r \<noteq> P_deny))"
proof (cases "filter (\<lambda>rule. rule_matches rule request) (rules b)")
  case Nil
  then have "matching b request = {}" by (auto simp: matching_def filter_empty_conv)
  with Nil show ?thesis by (simp add: decide_outcome mk_engine_def)
next
  case (Cons r rs)
  define M where "M = matching b request"
  from Cons have M: "M = set (r # rs)" unfolding M_def matching_def by (metis set_filter)
  define x where "x = rule_effect (min_rule r rs)"
  have in_M: "\<exists>q\<in>M. rule_effect q = x" using min_rule_mem [of r rs] M by (auto simp: x_def)
  have least: "effect_priority x \<le> effect_priority (rule_effect q)" if "q \<in> M" for q
    using min_rule_effect that M by (simp add: x_def)
  have out: "pd_outcome (decide e digest (mk_engine dg b) request) = x"
    using Cons by (simp add: decide_outcome mk_engine_def x_def)
  have prio: "effect_priority x \<le> effect_priority y \<longleftrightarrow>
      x = P_deny \<or> y = P_allow \<or> x = y" for y by (cases x; cases y) auto
  show ?thesis unfolding out M_def [symmetric] using in_M least unfolding prio by (cases x) fastforce+
qed

lemma str_less_total: "x \<noteq> y \<Longrightarrow> str_less x y \<or> str_less y x"
proof (induction x y rule: str_less.induct)
  case (1 x)
  then show ?case by (cases x) auto
next
  case (3 c cs d ds)
  then show ?case by (auto simp: nat_neq_iff dest: injD [OF inj_of_char])
qed simp

lemma min_rule_unique:
  assumes "set (r # rs) = set (q # qs)" and "inj_on rule_id (set (r # rs))"
  shows "min_rule r rs = min_rule q qs"
proof -
  let ?a = "min_rule r rs" and ?b = "min_rule q qs"
  have mem: "?a \<in> set (r # rs)" "?b \<in> set (r # rs)"
    using min_rule_mem [of r rs] min_rule_mem [of q qs] assms(1) by auto
  have "\<not> rule_before ?a ?b" "\<not> rule_before ?b ?a"
    using min_rule_le [of ?a q qs] min_rule_le [of ?b r rs] mem assms(1) by auto
  then have same: "rule_id ?a = rule_id ?b"
    using str_less_total [of "rule_id ?a" "rule_id ?b"] by (auto simp: rule_before_def not_less)
  show ?thesis by (rule inj_onD [OF assms(2) same mem])
qed

text \<open>
  The order of the rules in a bundle does not matter: two bundles that hold the same rules
  under distinct identifiers give the same outcome, reason codes and obligations.
\<close>

theorem policy_order_irrelevant:
  assumes "mset (rules b) = mset (rules c)" and "distinct (map rule_id (rules b))"
  shows "pd_outcome (decide e digest (mk_engine dg b) request) =
      pd_outcome (decide e digest (mk_engine dg c) request) \<and>
    pd_reason_codes (decide e digest (mk_engine dg b) request) =
      pd_reason_codes (decide e digest (mk_engine dg c) request) \<and>
    obligations (decide e digest (mk_engine dg b) request) =
      obligations (decide e digest (mk_engine dg c) request)"
proof -
  let ?m = "\<lambda>x. filter (\<lambda>rule. rule_matches rule request) (rules x)"
  have sets: "set (?m b) = set (?m c)" using assms(1) by (metis mset_filter set_mset_mset)
  have inj: "inj_on rule_id (set (?m b))"
    using assms(2) by (auto simp: distinct_map inj_on_def)
  show ?thesis
  proof (cases "?m b")
    case Nil
    moreover from Nil sets have "?m c = []" by (metis set_empty)
    ultimately show ?thesis by (simp add: decide_def Let_def mk_engine_def)
  next
    case (Cons r rs)
    moreover from Cons sets obtain q qs where "?m c = q # qs" by (cases "?m c") auto
    ultimately show ?thesis
      using min_rule_unique [of r rs q qs] sets inj by (simp add: decide_def Let_def mk_engine_def)
  qed
qed

section \<open>Witnesses\<close>

definition demo_rule :: "string \<Rightarrow> policy_outcome \<Rightarrow> string \<Rightarrow> PolicyRule" where
  "demo_rule i x pat = \<lparr>rule_id = i, rule_effect = x, actors = [''*''], actions = [''candidate.admit''],
     resource_patterns = [pat], reason_code = i, rule_obligations = []\<rparr>"

definition demo_bundle :: PolicyBundle where
  "demo_bundle = \<lparr>pb_engine_id = ''builtin'', rules = [demo_rule ''a'' P_allow ''candidate:*'',
     demo_rule ''b'' P_deny ''candidate:[x-z]?'']\<rparr>"

definition demo_policy_request :: "string \<Rightarrow> PolicyRequest" where
  "demo_policy_request r = \<lparr>prq_action = ''candidate.admit'', prq_resource = r, prq_actor_id = ''op'',
     attributes = []\<rparr>"

lemma demo_matches:
  "matching demo_bundle (demo_policy_request ''candidate:y1'') = set (rules demo_bundle)"
  by code_simp

theorem policy_most_restrictive_witness:
  "pd_outcome (decide (call_at ''p'' 1) (\<lambda>r. ''d'') (mk_engine (\<lambda>b. ''d'') demo_bundle)
     (demo_policy_request ''candidate:y1'')) = P_deny"
  using policy_most_restrictive [of "call_at ''p'' 1" "\<lambda>r. ''d''" "\<lambda>b. ''d''" demo_bundle
      "demo_policy_request ''candidate:y1''"]
  unfolding demo_matches by (simp add: demo_bundle_def demo_rule_def)

theorem policy_order_irrelevant_witness:
  "pd_outcome (decide (call_at ''p'' 1) (\<lambda>r. ''d'')
     (mk_engine (\<lambda>b. ''d'') (demo_bundle\<lparr>rules := rev (rules demo_bundle)\<rparr>)) (demo_policy_request ''candidate:y1'')) =
   pd_outcome (decide (call_at ''p'' 1) (\<lambda>r. ''d'') (mk_engine (\<lambda>b. ''d'') demo_bundle)
     (demo_policy_request ''candidate:y1''))"
  using policy_order_irrelevant [of "demo_bundle\<lparr>rules := rev (rules demo_bundle)\<rparr>" demo_bundle]
  by (simp add: demo_bundle_def demo_rule_def)

end
