(* ===== verification/StrictSchema.thy ===== *)
theory StrictSchema
  imports Fixtures
begin

text \<open>
  The compiler of strict output schemas (domain/structured_schema.py): it walks a JSON
  schema, rejects what strict providers do not accept, drops defaults, closes every object
  and makes every property required. The code edits one tree in place and resolves
  references against the tree as edited so far; here a node is compiled together with a
  context that puts it back into the whole schema. A JSON object is the list of its members
  in order, with distinct names; Pydantic's schema and the canonical digest are parameters.
\<close>

section \<open>Dictionaries\<close>

definition dict_pop :: "string \<Rightarrow> (string \<times> jval) list \<Rightarrow> (string \<times> jval) list" where
  "dict_pop k kvs = filter (\<lambda>(n, _). n \<noteq> k) kvs"

fun dict_set :: "string \<Rightarrow> jval \<Rightarrow> (string \<times> jval) list \<Rightarrow> (string \<times> jval) list" where
  "dict_set k v [] = [(k, v)]"
| "dict_set k v ((n, w) # kvs) = (if n = k then (n, v) # kvs else (n, w) # dict_set k v kvs)"

lemma map_of_pop: "map_of (dict_pop k kvs) n = (if n = k then None else map_of kvs n)"
  by (induction kvs) (auto simp: dict_pop_def)

lemma map_of_dict_set: "map_of (dict_set k v kvs) n = (if n = k then Some v else map_of kvs n)"
  by (induction kvs) auto

section \<open>References\<close>

fun replace_pair :: "char \<Rightarrow> char \<Rightarrow> char \<Rightarrow> string \<Rightarrow> string" where
  "replace_pair a b c (x # y # cs) =
     (if x = a \<and> y = b then c # replace_pair a b c cs else x # replace_pair a b c (y # cs))"
| "replace_pair a b c cs = cs"

definition unescape :: "string \<Rightarrow> string" where
  "unescape raw = replace_pair (CHR ''~'') (CHR ''0'') (CHR ''~'')
     (replace_pair (CHR ''~'') (CHR ''1'') (CHR ''/'') raw)"

fun resolve :: "string \<Rightarrow> string list \<Rightarrow> jval \<Rightarrow> err + jval" where
  "resolve path [] current = Inr current"
| "resolve path (raw # segments) current =
     (case current of
        JObj kvs \<Rightarrow>
          (case map_of kvs (unescape raw) of
             None \<Rightarrow> Inl (StructuredSchemaError (''$ref target does not exist at '' @ path))
           | Some v \<Rightarrow> resolve path segments v)
      | _ \<Rightarrow> Inl (StructuredSchemaError (''$ref target does not exist at '' @ path)))"

definition validate_ref :: "jval \<Rightarrow> jval \<Rightarrow> string \<Rightarrow> err + unit" where
  "validate_ref ref root path =
     (case ref of
        JStr r \<Rightarrow>
          if take 2 r \<noteq> ''#/''
          then Inl (StructuredSchemaError (''external $ref is unsupported at '' @ path))
          else
            let segments = split_on (CHR ''/'') (drop 2 r) in
            if hd segments \<noteq> ''$defs'' \<or> length segments < 2
            then Inl (StructuredSchemaError (''unsupported local $ref at '' @ path))
            else bind_err (resolve path segments root) (\<lambda>current.
              case current of JObj _ \<Rightarrow> Inr ()
              | _ \<Rightarrow> Inl (StructuredSchemaError (''$ref target at '' @ path @ '' is not a schema object'')))
      | _ \<Rightarrow> Inl (StructuredSchemaError (''$ref at '' @ path @ '' must be a string'')))"

section \<open>Checks of one node\<close>

definition json_types :: "string list" where
  "json_types = [''array'', ''boolean'', ''integer'', ''null'', ''number'', ''object'', ''string'']"

definition check_type :: "string \<Rightarrow> (string \<times> jval) list \<Rightarrow> err + unit" where
  "check_type path kvs =
     (case map_of kvs ''type'' of
        None \<Rightarrow> Inr ()
      | Some (JStr t) \<Rightarrow> if t \<in> set json_types then Inr ()
          else Inl (StructuredSchemaError (''invalid type at '' @ path))
      | Some _ \<Rightarrow> Inl (StructuredSchemaError (''invalid type at '' @ path)))"

definition check_ref :: "(jval \<Rightarrow> jval) \<Rightarrow> string \<Rightarrow> (string \<times> jval) list \<Rightarrow> err + unit" where
  "check_ref C path kvs =
     (case map_of kvs ''$ref'' of
        None \<Rightarrow> Inr ()
      | Some r \<Rightarrow> validate_ref r (C (JObj kvs)) (path @ ''.$ref''))"

definition open_or_object :: "(string \<times> jval) list \<Rightarrow> bool" where
  "open_or_object kvs \<longleftrightarrow> map_of kvs ''type'' \<in> {None, Some JNull, Some (JStr ''object'')}"

text \<open>The members of \<open>properties\<close> and \<open>$defs\<close>, when the node has them.\<close>

definition properties_of :: "string \<Rightarrow> (string \<times> jval) list \<Rightarrow> err + (string \<times> jval) list option" where
  "properties_of path kvs =
     (case map_of kvs ''properties'' of
        None \<Rightarrow> Inr None
      | Some (JObj ps) \<Rightarrow> if open_or_object kvs then Inr (Some ps)
          else Inl (StructuredSchemaError (''properties at '' @ path @ '' require an object schema''))
      | Some _ \<Rightarrow> Inl (StructuredSchemaError (''properties at '' @ path @ '' must be an object'')))"

definition definitions_of :: "string \<Rightarrow> (string \<times> jval) list \<Rightarrow> err + (string \<times> jval) list option" where
  "definitions_of path kvs =
     (case map_of kvs ''$defs'' of
        None \<Rightarrow> Inr None
      | Some (JObj ds) \<Rightarrow> Inr (Some ds)
      | Some _ \<Rightarrow> Inl (StructuredSchemaError (''$defs at '' @ path @ '' must be an object'')))"

definition alternatives_of :: "string \<Rightarrow> string \<Rightarrow> (string \<times> jval) list \<Rightarrow> err + jval list option" where
  "alternatives_of path keyword kvs =
     (case map_of kvs keyword of
        None \<Rightarrow> Inr None
      | Some (JList (a # as)) \<Rightarrow> Inr (Some (a # as))
      | Some _ \<Rightarrow> Inl (StructuredSchemaError (keyword @ '' at '' @ path @ '' must be a non-empty list'')))"

fun is_str :: "jval \<Rightarrow> bool" where
  "is_str (JStr _) = True"
| "is_str _ = False"

definition check_required :: "string \<Rightarrow> (string \<times> jval) list \<Rightarrow> err + unit" where
  "check_required path kvs =
     (case map_of kvs ''required'' of
        None \<Rightarrow> Inr ()
      | Some (JList req) \<Rightarrow>
          (let names = (case map_of kvs ''properties'' of Some (JObj ps) \<Rightarrow> Some (map fst ps) | _ \<Rightarrow> None) in
           if list_ex (\<lambda>n. \<not> is_str n) req
           then Inl (StructuredSchemaError (''required at '' @ path @ '' must be a list of property names''))
           else if names = None \<and> req \<noteq> []
           then Inl (StructuredSchemaError (''required at '' @ path @ '' references an absent properties object''))
           else if \<not> distinct req
           then Inl (StructuredSchemaError (''required at '' @ path @ '' contains duplicate names''))
           else if names \<noteq> None \<and> list_ex (\<lambda>n. n \<notin> JStr ` set (the names)) req
           then Inl (StructuredSchemaError (''required at '' @ path @ '' references an undeclared property''))
           else Inr ())
      | Some _ \<Rightarrow> Inl (StructuredSchemaError (''required at '' @ path @ '' must be a list of property names'')))"

definition check_additional :: "string \<Rightarrow> (string \<times> jval) list \<Rightarrow> err + unit" where
  "check_additional path kvs =
     (case map_of kvs ''additionalProperties'' of
        None \<Rightarrow> Inr ()
      | Some v \<Rightarrow>
          if v \<noteq> JBool False
          then Inl (StructuredSchemaError
            (''schema-valued or open additionalProperties are unsupported at '' @ path))
          else if \<not> open_or_object kvs
          then Inl (StructuredSchemaError (''additionalProperties at '' @ path @ '' require an object schema''))
          else Inr ())"

definition close_object :: "(string \<times> jval) list \<Rightarrow> (string \<times> jval) list" where
  "close_object kvs =
     (if map_of kvs ''type'' = Some (JStr ''object'') \<or> map_of kvs ''properties'' \<noteq> None then
        let closed = dict_set ''additionalProperties'' (JBool False) kvs
        in case map_of kvs ''properties'' of
             Some (JObj ps) \<Rightarrow> dict_set ''required'' (JList (map (JStr \<circ> fst) ps)) closed
           | _ \<Rightarrow> if map_of kvs ''required'' \<noteq> None then dict_set ''required'' (JList []) closed else closed
      else kvs)"

definition check_open_keywords :: "string \<Rightarrow> (string \<times> jval) list \<Rightarrow> err + unit" where
  "check_open_keywords path kvs =
     (if map_of kvs ''patternProperties'' \<noteq> None
      then Inl (StructuredSchemaError (''unsupported open-object keyword patternProperties at '' @ path))
      else if map_of kvs ''unevaluatedProperties'' \<noteq> None
      then Inl (StructuredSchemaError (''unsupported open-object keyword unevaluatedProperties at '' @ path))
      else Inr ())"

section \<open>The walk\<close>

lemma bind_err_cong [fundef_cong]:
  "m = m' \<Longrightarrow> (\<And>x. m' = Inr x \<Longrightarrow> f x = g x) \<Longrightarrow> bind_err m f = bind_err m' g"
  by (cases m') auto

lemma size_field: "map_of kvs k = Some v \<Longrightarrow> size v < size (JObj kvs)"
  by (induction kvs) (auto split: if_splits)

lemma size_obj_field: "map_of kvs k = Some (JObj ps) \<Longrightarrow> size_list (size_prod (\<lambda>x. 0) size) ps < size (JObj kvs)"
  using size_field [of kvs k "JObj ps"] by simp

lemma size_list_field: "map_of kvs k = Some (JList as) \<Longrightarrow> size_list size as < size (JObj kvs)"
  using size_field [of kvs k "JList as"] by simp

lemma properties_size:
  "properties_of path (dict_pop k node) = Inr (Some ps) \<Longrightarrow> size_list (size_prod (\<lambda>x. 0) size) ps < size (JObj node)"
  by (rule size_obj_field [of _ "''properties''"])
    (auto simp: properties_of_def map_of_pop split: option.splits jval.splits if_splits)

lemma definitions_size:
  "definitions_of path node = Inr (Some ds) \<Longrightarrow> size_list (size_prod (\<lambda>x. 0) size) ds < size (JObj node)"
  by (rule size_obj_field [of _ "''$defs''"])
    (auto simp: definitions_of_def split: option.splits jval.splits)

lemma alternatives_size:
  "alternatives_of path k node = Inr (Some as) \<Longrightarrow> size_list size as < size (JObj node)"
  by (rule size_list_field [of _ k])
    (auto simp: alternatives_of_def split: option.splits jval.splits list.splits)

text \<open>
  A child is read from the node as it came: the steps before it write only other members.
\<close>

function (sequential) compile_node :: "(jval \<Rightarrow> jval) \<Rightarrow> string \<Rightarrow> jval \<Rightarrow> err + jval"
  and compile_fields ::
    "((string \<times> jval) list \<Rightarrow> jval) \<Rightarrow> string \<Rightarrow> (string \<times> jval) list \<Rightarrow> (string \<times> jval) list \<Rightarrow>
       err + (string \<times> jval) list"
  and compile_keywords ::
    "(jval \<Rightarrow> jval) \<Rightarrow> string \<Rightarrow> (string \<times> jval) list \<Rightarrow> string list \<Rightarrow> (string \<times> jval) list \<Rightarrow>
       err + (string \<times> jval) list"
  and compile_list :: "(jval list \<Rightarrow> jval) \<Rightarrow> string \<Rightarrow> jval list \<Rightarrow> jval list \<Rightarrow> err + jval list"
where
  "compile_node C path (JObj node) =
     (let kvs = dict_pop ''default'' node in
      bind_err (check_type path kvs) (\<lambda>_.
      bind_err (check_ref C path kvs) (\<lambda>_.
      bind_err (properties_of path kvs) (\<lambda>properties.
      bind_err (case properties of
          None \<Rightarrow> Inr kvs
        | Some ps \<Rightarrow>
            bind_err (compile_fields (\<lambda>qs. C (JObj (dict_set ''properties'' (JObj qs) kvs)))
              (path @ ''.properties.'') [] ps) (\<lambda>qs. Inr (dict_set ''properties'' (JObj qs) kvs))) (\<lambda>kvs.
      bind_err (check_required path kvs) (\<lambda>_.
      bind_err (check_additional path kvs) (\<lambda>_.
      bind_err (case map_of node ''items'' of
          None \<Rightarrow> Inr (close_object kvs)
        | Some item \<Rightarrow>
            bind_err (compile_node (\<lambda>v. C (JObj (dict_set ''items'' v (close_object kvs))))
              (path @ ''.items'') item) (\<lambda>v. Inr (dict_set ''items'' v (close_object kvs)))) (\<lambda>kvs.
      bind_err (definitions_of path node) (\<lambda>definitions.
      bind_err (case definitions of
          None \<Rightarrow> Inr kvs
        | Some ds \<Rightarrow>
            bind_err (compile_fields (\<lambda>qs. C (JObj (dict_set ''$defs'' (JObj qs) kvs)))
              (path @ ''.$defs.'') [] ds) (\<lambda>qs. Inr (dict_set ''$defs'' (JObj qs) kvs))) (\<lambda>kvs.
      bind_err (compile_keywords C path node [''anyOf'', ''oneOf'', ''allOf''] kvs) (\<lambda>kvs.
      bind_err (check_open_keywords path kvs) (\<lambda>_.
      Inr (JObj kvs)))))))))))))"
| "compile_node C path _ =
     Inl (StructuredSchemaError (''schema node at '' @ path @ '' must be an object''))"
| "compile_fields C path done [] = Inr done"
| "compile_fields C path done ((n, v) # rest) =
     bind_err (compile_node (\<lambda>w. C (done @ (n, w) # rest)) (path @ n) v) (\<lambda>w.
     compile_fields C path (done @ [(n, w)]) rest)"
| "compile_keywords C path node [] kvs = Inr kvs"
| "compile_keywords C path node (k # ks) kvs =
     bind_err (alternatives_of path k node) (\<lambda>alternatives.
     bind_err (case alternatives of
         None \<Rightarrow> Inr kvs
       | Some as \<Rightarrow>
           bind_err (compile_list (\<lambda>bs. C (JObj (dict_set k (JList bs) kvs))) (path @ ''.'' @ k) [] as)
             (\<lambda>bs. Inr (dict_set k (JList bs) kvs))) (\<lambda>kvs.
     compile_keywords C path node ks kvs))"
| "compile_list C path done [] = Inr done"
| "compile_list C path done (a # rest) =
     bind_err (compile_node (\<lambda>b. C (done @ b # rest))
       (path @ ''['' @ show_nat (length done) @ '']'') a) (\<lambda>b.
     compile_list C path (done @ [b]) rest)"
  by pat_completeness auto

termination
proof (relation "measures
    [\<lambda>x. case x of Inl (Inl (C, p, v)) \<Rightarrow> size v
       | Inl (Inr (C, p, d, kvs)) \<Rightarrow> size_list (size_prod (\<lambda>x. 0) size) kvs
       | Inr (Inl (C, p, node, ks, kvs)) \<Rightarrow> size (JObj node)
       | Inr (Inr (C, p, d, vs)) \<Rightarrow> size_list size vs,
     \<lambda>x. case x of Inl (Inl (C, p, v)) \<Rightarrow> 4
       | Inl (Inr (C, p, d, kvs)) \<Rightarrow> 0
       | Inr (Inl (C, p, node, ks, kvs)) \<Rightarrow> length ks
       | Inr (Inr (C, p, d, vs)) \<Rightarrow> 0]", goal_cases)
qed (auto dest: properties_size definitions_size alternatives_size size_field)

section \<open>The compiler\<close>

record CompiledStructuredSchema =
  source_schema :: jval
  wire_schema :: jval
  source_digest :: string
  wire_digest :: string

definition require_object_root :: "jval \<Rightarrow> err + unit" where
  "require_object_root schema =
     (case schema of
        JObj kvs \<Rightarrow> if map_of kvs ''type'' = Some (JStr ''object'') then Inr ()
          else Inl (StructuredSchemaError
            (''strict output schema root must have type '' @ [CHR 0x27] @ ''object'' @ [CHR 0x27]))
      | _ \<Rightarrow> Inl (StructuredSchemaError
            (''strict output schema root must have type '' @ [CHR 0x27] @ ''object'' @ [CHR 0x27])))"

text \<open>The digest either fails with a message or gives the digest of the canonical form.\<close>

definition compile_strict_output_schema ::
  "(jval \<Rightarrow> string + string) \<Rightarrow> jval \<Rightarrow> err + CompiledStructuredSchema" where
  "compile_strict_output_schema digest generated =
     (case generated of
        JObj _ \<Rightarrow>
          (case digest generated of
             Inl m \<Rightarrow> Inl (StructuredSchemaError (''invalid source schema: '' @ m))
           | Inr source \<Rightarrow>
               bind_err (require_object_root generated) (\<lambda>_.
               bind_err (compile_node (\<lambda>root. root) ''$'' generated) (\<lambda>wired.
               case digest wired of
                 Inl m \<Rightarrow> Inl (StructuredSchemaError (''invalid compiled schema: '' @ m))
               | Inr wire \<Rightarrow> Inr \<lparr>source_schema = generated, wire_schema = wired,
                   source_digest = source, wire_digest = wire\<rparr>)))
      | _ \<Rightarrow> Inl (StructuredSchemaError ''model_json_schema() must return a JSON object''))"

section \<open>Every compiled node is strict\<close>

definition closed_node :: "(string \<times> jval) list \<Rightarrow> bool" where
  "closed_node kvs \<longleftrightarrow>
     map_of kvs ''default'' = None \<and> map_of kvs ''patternProperties'' = None \<and>
     map_of kvs ''unevaluatedProperties'' = None \<and>
     (case map_of kvs ''properties'' of
        None \<Rightarrow> map_of kvs ''type'' = Some (JStr ''object'') \<longrightarrow>
          map_of kvs ''additionalProperties'' = Some (JBool False)
      | Some (JObj ps) \<Rightarrow> map_of kvs ''additionalProperties'' = Some (JBool False) \<and>
          map_of kvs ''required'' = Some (JList (map (JStr \<circ> fst) ps))
      | Some _ \<Rightarrow> False)"

lemma size_member: "x \<in> set ps \<Longrightarrow> size (snd x) < size_list (size_prod (\<lambda>x. 0) size) ps"
  by (induction ps) auto

lemma size_item: "x \<in> set as \<Longrightarrow> size (x :: jval) < size_list size as"
  by (induction as) auto

function (sequential) strict_node :: "jval \<Rightarrow> bool" where
  "strict_node (JObj kvs) \<longleftrightarrow>
     closed_node kvs \<and>
     (case map_of kvs ''properties'' of Some (JObj ps) \<Rightarrow> list_all (\<lambda>x. strict_node (snd x)) ps | _ \<Rightarrow> True) \<and>
     (case map_of kvs ''items'' of Some v \<Rightarrow> strict_node v | _ \<Rightarrow> True) \<and>
     (case map_of kvs ''$defs'' of Some (JObj ds) \<Rightarrow> list_all (\<lambda>x. strict_node (snd x)) ds | _ \<Rightarrow> True) \<and>
     (case map_of kvs ''anyOf'' of Some (JList as) \<Rightarrow> list_all strict_node as | _ \<Rightarrow> True) \<and>
     (case map_of kvs ''oneOf'' of Some (JList as) \<Rightarrow> list_all strict_node as | _ \<Rightarrow> True) \<and>
     (case map_of kvs ''allOf'' of Some (JList as) \<Rightarrow> list_all strict_node as | _ \<Rightarrow> True)"
| "strict_node _ \<longleftrightarrow> False"
  by pat_completeness auto

termination
  by (relation "measure size")
    (auto dest!: size_member size_item size_obj_field size_list_field dest: size_field)

lemma map_of_close_object:
  "n \<noteq> ''required'' \<Longrightarrow> n \<noteq> ''additionalProperties'' \<Longrightarrow> map_of (close_object kvs) n = map_of kvs n"
  by (auto simp: close_object_def Let_def map_of_dict_set split: option.splits jval.splits)

lemma close_object_closed:
  "map_of (close_object kvs) ''additionalProperties'' =
     (if map_of kvs ''type'' = Some (JStr ''object'') \<or> map_of kvs ''properties'' \<noteq> None
      then Some (JBool False) else map_of kvs ''additionalProperties'')"
  by (auto simp: close_object_def Let_def map_of_dict_set split: option.splits jval.splits)

lemma close_object_required:
  "map_of kvs ''properties'' = Some (JObj ps) \<Longrightarrow>
     map_of (close_object kvs) ''required'' = Some (JList (map (JStr \<circ> fst) ps))"
  by (simp add: close_object_def Let_def map_of_dict_set)

text \<open>The optional steps of the walk: an absent member leaves the node as it is.\<close>

definition step_fields ::
  "string \<Rightarrow> (jval \<Rightarrow> jval) \<Rightarrow> string \<Rightarrow> (string \<times> jval) list option \<Rightarrow> (string \<times> jval) list \<Rightarrow>
     err + (string \<times> jval) list" where
  "step_fields k C path members kvs =
     (case members of None \<Rightarrow> Inr kvs
      | Some ps \<Rightarrow> bind_err (compile_fields (\<lambda>qs. C (JObj (dict_set k (JObj qs) kvs))) path [] ps)
          (\<lambda>qs. Inr (dict_set k (JObj qs) kvs)))"

definition step_items ::
  "(jval \<Rightarrow> jval) \<Rightarrow> string \<Rightarrow> jval option \<Rightarrow> (string \<times> jval) list \<Rightarrow> err + (string \<times> jval) list" where
  "step_items C path items kvs =
     (case items of None \<Rightarrow> Inr kvs
      | Some item \<Rightarrow> bind_err (compile_node (\<lambda>v. C (JObj (dict_set ''items'' v kvs))) path item)
          (\<lambda>v. Inr (dict_set ''items'' v kvs)))"

lemma compile_node_Inr:
  assumes "compile_node C path (JObj node) = Inr out"
  obtains ps kvs2 kvs4 ds kvs5 kvs6 where
    "properties_of path (dict_pop ''default'' node) = Inr ps"
    "step_fields ''properties'' C (path @ ''.properties.'') ps (dict_pop ''default'' node) = Inr kvs2"
    "step_items C (path @ ''.items'') (map_of node ''items'') (close_object kvs2) = Inr kvs4"
    "definitions_of path node = Inr ds"
    "step_fields ''$defs'' C (path @ ''.$defs.'') ds kvs4 = Inr kvs5"
    "compile_keywords C path node [''anyOf'', ''oneOf'', ''allOf''] kvs5 = Inr kvs6"
    "check_open_keywords path kvs6 = Inr ()" "out = JObj kvs6"
  using assms unfolding compile_node.simps Let_def bind_err_eq_Inr step_fields_def step_items_def
  by (elim exE conjE) simp

text \<open>
  What the helpers promise when the children compile to strict nodes: fields and alternatives
  come out strict under the same names, and the keywords step writes only the composition
  keywords.
\<close>

definition compiles_strictly :: "jval \<Rightarrow> bool" where
  "compiles_strictly v \<longleftrightarrow> (\<forall>C p v'. compile_node C p v = Inr v' \<longrightarrow> strict_node v')"

definition strict_fields :: "jval option \<Rightarrow> bool" where
  "strict_fields x \<longleftrightarrow> (case x of Some (JObj ps) \<Rightarrow> list_all (\<lambda>x. strict_node (snd x)) ps | _ \<Rightarrow> True)"

definition strict_list :: "jval option \<Rightarrow> bool" where
  "strict_list x \<longleftrightarrow> (case x of Some (JList as) \<Rightarrow> list_all strict_node as | _ \<Rightarrow> True)"

lemma compile_fields_strict:
  assumes "compile_fields C path ds ps = Inr qs" and "\<forall>x\<in>set ps. compiles_strictly (snd x)"
    and "list_all (\<lambda>x. strict_node (snd x)) ds"
  shows "list_all (\<lambda>x. strict_node (snd x)) qs \<and> map fst qs = map fst ds @ map fst ps"
  using assms
proof (induction ps arbitrary: ds)
  case (Cons x ps)
  obtain n v where x: "x = (n, v)" by (cases x)
  with Cons.prems(1) obtain w where w: "compile_node (\<lambda>w. C (ds @ (n, w) # ps)) (path @ n) v = Inr w"
    and rest: "compile_fields C path (ds @ [(n, w)]) ps = Inr qs"
    by (auto simp: bind_err_eq_Inr)
  have "strict_node w" using Cons.prems(2) w x by (auto simp: compiles_strictly_def)
  with Cons.IH [OF rest] Cons.prems(2,3) show ?case by (simp add: x)
qed simp

lemma compile_list_strict:
  assumes "compile_list C path ds as = Inr bs" and "\<forall>x\<in>set as. compiles_strictly x"
    and "list_all strict_node ds"
  shows "list_all strict_node bs"
  using assms
proof (induction as arbitrary: ds)
  case (Cons a as)
  from Cons.prems(1) obtain b p D where b: "compile_node D p a = Inr b"
    and rest: "compile_list C path (ds @ [b]) as = Inr bs"
    by (auto simp: bind_err_eq_Inr)
  have "strict_node b" using Cons.prems(2) b by (auto simp: compiles_strictly_def)
  with Cons.IH [OF rest] Cons.prems(2,3) show ?case by simp
qed simp

lemma alternatives_of_map: "alternatives_of path k node = Inr None \<Longrightarrow> map_of node k = None"
  by (auto simp: alternatives_of_def split: option.splits jval.splits list.splits)

lemma compile_keywords_strict:
  assumes "compile_keywords C path node ks kvs = Inr kvs'" and "distinct ks"
    and "\<forall>k\<in>set ks. map_of kvs k = map_of node k"
    and "\<forall>k as. alternatives_of path k node = Inr (Some as) \<longrightarrow> (\<forall>x\<in>set as. compiles_strictly x)"
  shows "(\<forall>n. n \<notin> set ks \<longrightarrow> map_of kvs' n = map_of kvs n) \<and> (\<forall>k\<in>set ks. strict_list (map_of kvs' k))"
  using assms
proof (induction ks arbitrary: kvs)
  case (Cons k ks)
  from Cons.prems(1) obtain alts kvs1 where alts: "alternatives_of path k node = Inr alts"
    and k1: "(case alts of None \<Rightarrow> Inr kvs | Some as \<Rightarrow>
        bind_err (compile_list (\<lambda>bs. C (JObj (dict_set k (JList bs) kvs))) (path @ ''.'' @ k) [] as)
          (\<lambda>bs. Inr (dict_set k (JList bs) kvs))) = Inr kvs1"
    and rest: "compile_keywords C path node ks kvs1 = Inr kvs'"
    by (auto simp: bind_err_eq_Inr)
  have same: "map_of kvs1 n = map_of kvs n" if "n \<noteq> k" for n
    using k1 that by (auto simp: bind_err_eq_Inr map_of_dict_set split: option.splits)
  have new: "strict_list (map_of kvs1 k)"
  proof (cases alts)
    case None
    then have "map_of kvs1 k = None" using k1 alts Cons.prems(3) by (auto dest: alternatives_of_map)
    then show ?thesis by (simp add: strict_list_def)
  next
    case (Some as)
    with k1 obtain bs where bs: "compile_list (\<lambda>bs. C (JObj (dict_set k (JList bs) kvs))) (path @ ''.'' @ k) [] as = Inr bs"
      and kvs1: "kvs1 = dict_set k (JList bs) kvs" by (auto simp: bind_err_eq_Inr)
    have "list_all strict_node bs"
      using compile_list_strict [OF bs] Cons.prems(4) alts Some by auto
    then show ?thesis by (simp add: kvs1 map_of_dict_set strict_list_def)
  qed
  have "\<forall>q\<in>set ks. map_of kvs1 q = map_of node q"
  proof
    fix q assume "q \<in> set ks"
    moreover from this have "q \<noteq> k" using Cons.prems(2) by auto
    ultimately show "map_of kvs1 q = map_of node q" using same Cons.prems(3) by simp
  qed
  with Cons.IH [OF rest] Cons.prems(2,4) same new show ?case by auto
qed simp

lemma step_fields_strict:
  assumes step: "step_fields k C path ps kvs = Inr kvs'"
    and kids: "\<forall>qs. ps = Some qs \<longrightarrow> (\<forall>x\<in>set qs. compiles_strictly (snd x))"
    and absent: "ps = None \<Longrightarrow> map_of kvs k = None"
  shows "n \<noteq> k \<Longrightarrow> map_of kvs' n = map_of kvs n" and "strict_fields (map_of kvs' k)"
    and "map_of kvs' k = None \<or> (\<exists>qs. map_of kvs' k = Some (JObj qs))"
proof -
  show "n \<noteq> k \<Longrightarrow> map_of kvs' n = map_of kvs n"
    using step by (auto simp: step_fields_def bind_err_eq_Inr map_of_dict_set split: option.splits)
  have "strict_fields (map_of kvs' k) \<and> (map_of kvs' k = None \<or> (\<exists>qs. map_of kvs' k = Some (JObj qs)))"
  proof (cases ps)
    case None
    then show ?thesis using step absent by (simp add: step_fields_def strict_fields_def)
  next
    case (Some qs)
    with step obtain rs where rs: "compile_fields (\<lambda>qs. C (JObj (dict_set k (JObj qs) kvs))) path [] qs = Inr rs"
      and kvs': "kvs' = dict_set k (JObj rs) kvs"
      by (auto simp: step_fields_def bind_err_eq_Inr)
    have "list_all (\<lambda>x. strict_node (snd x)) rs"
      using compile_fields_strict [OF rs] kids Some by simp
    then show ?thesis by (simp add: kvs' map_of_dict_set strict_fields_def)
  qed
  then show "strict_fields (map_of kvs' k)"
    and "map_of kvs' k = None \<or> (\<exists>qs. map_of kvs' k = Some (JObj qs))" by blast+
qed

lemma step_items_strict:
  assumes "step_items C path items kvs = Inr kvs'" and "\<forall>v. items = Some v \<longrightarrow> compiles_strictly v"
    and "items = None \<Longrightarrow> map_of kvs ''items'' = None"
  shows "n \<noteq> ''items'' \<Longrightarrow> map_of kvs' n = map_of kvs n"
    and "case map_of kvs' ''items'' of None \<Rightarrow> True | Some v \<Rightarrow> strict_node v"
  using assms
  by (auto simp: step_items_def bind_err_eq_Inr map_of_dict_set compiles_strictly_def split: option.splits)

lemma properties_of_None: "properties_of path kvs = Inr None \<Longrightarrow> map_of kvs ''properties'' = None"
  by (auto simp: properties_of_def split: option.splits jval.splits if_splits)

lemma definitions_of_None: "definitions_of path kvs = Inr None \<Longrightarrow> map_of kvs ''$defs'' = None"
  by (auto simp: definitions_of_def split: option.splits jval.splits)

lemma compile_node_strict: "compiles_strictly v"
proof (induction v rule: measure_induct_rule [of size])
  case (less v)
  have "strict_node v'" if comp: "compile_node C path v = Inr v'" for C path v'
  proof (cases v)
    case (JObj node)
    from comp [unfolded JObj] show ?thesis
    proof (rule compile_node_Inr)
      fix ps kvs2 kvs4 ds kvs5 kvs6
      let ?kvs = "dict_pop ''default'' node"
      assume props: "properties_of path ?kvs = Inr ps"
        and k2: "step_fields ''properties'' C (path @ ''.properties.'') ps ?kvs = Inr kvs2"
        and k4: "step_items C (path @ ''.items'') (map_of node ''items'') (close_object kvs2) = Inr kvs4"
        and defs: "definitions_of path node = Inr ds"
        and k5: "step_fields ''$defs'' C (path @ ''.$defs.'') ds kvs4 = Inr kvs5"
        and k6: "compile_keywords C path node [''anyOf'', ''oneOf'', ''allOf''] kvs5 = Inr kvs6"
        and opens: "check_open_keywords path kvs6 = Inr ()" and out: "v' = JObj kvs6"
      have kids: "\<forall>qs. ps = Some qs \<longrightarrow> (\<forall>x\<in>set qs. compiles_strictly (snd x))"
        "\<forall>w. map_of node ''items'' = Some w \<longrightarrow> compiles_strictly w"
        "\<forall>qs. ds = Some qs \<longrightarrow> (\<forall>x\<in>set qs. compiles_strictly (snd x))"
        "\<forall>k as. alternatives_of path k node = Inr (Some as) \<longrightarrow> (\<forall>x\<in>set as. compiles_strictly x)"
        using less.IH props defs
        by (auto simp: JObj dest!: properties_size definitions_size alternatives_size dest: size_field size_member size_item
            intro!: less.IH)
      have k2_other: "map_of kvs2 n = map_of ?kvs n" if "n \<noteq> ''properties''" for n
        by (rule step_fields_strict(1) [OF k2 kids(1)]) (use that props in \<open>auto dest: properties_of_None\<close>)
      have k2_props: "strict_fields (map_of kvs2 ''properties'')"
        "map_of kvs2 ''properties'' = None \<or> (\<exists>qs. map_of kvs2 ''properties'' = Some (JObj qs))"
        using step_fields_strict(2,3) [OF k2 kids(1)] props by (auto dest: properties_of_None)
      have absent: "map_of (close_object kvs2) n = map_of node n"
        if "n \<in> {''items'', ''$defs'', ''anyOf'', ''oneOf'', ''allOf'', ''type''}" for n
        using that by (auto simp: map_of_close_object k2_other map_of_pop)
      have k4_other: "map_of kvs4 n = map_of (close_object kvs2) n" if "n \<noteq> ''items''" for n
        by (rule step_items_strict(1) [OF k4 kids(2)]) (use that absent in auto)
      have k4_items: "case map_of kvs4 ''items'' of None \<Rightarrow> True | Some v \<Rightarrow> strict_node v"
        by (rule step_items_strict(2) [OF k4 kids(2)]) (use absent in auto)
      have no_defs: "map_of kvs4 ''$defs'' = None" if "ds = None"
        using that defs by (auto simp: k4_other absent dest: definitions_of_None)
      note k5_other = step_fields_strict(1) [OF k5 kids(3) no_defs]
      note k5_defs = step_fields_strict(2) [OF k5 kids(3) no_defs]
      have k6_all: "(\<forall>n. n \<notin> set [''anyOf'', ''oneOf'', ''allOf''] \<longrightarrow> map_of kvs6 n = map_of kvs5 n) \<and>
          (\<forall>k\<in>set [''anyOf'', ''oneOf'', ''allOf'']. strict_list (map_of kvs6 k))"
        by (rule compile_keywords_strict [OF k6 _ _ kids(4)]) (auto simp: k5_other k4_other absent)
      have k6_other: "map_of kvs6 n = map_of kvs5 n" if "n \<notin> set [''anyOf'', ''oneOf'', ''allOf'']" for n
        using k6_all that by blast
      have k6_lists: "strict_list (map_of kvs6 ''anyOf'')" "strict_list (map_of kvs6 ''oneOf'')"
        "strict_list (map_of kvs6 ''allOf'')"
        using k6_all by simp_all
      have late: "map_of kvs6 n = map_of (close_object kvs2) n"
        if "n \<in> {''default'', ''type'', ''properties'', ''required'', ''additionalProperties''}" for n
        using that by (elim insertE emptyE) (simp_all add: k6_other k5_other k4_other)
      have "closed_node kvs6"
        using k2_props(2) opens
        by (auto simp: closed_node_def late map_of_close_object close_object_closed close_object_required
            k2_other map_of_pop check_open_keywords_def split: if_splits)
      moreover have "strict_fields (map_of kvs6 ''properties'')"
        using k2_props(1) by (simp add: late map_of_close_object)
      moreover have "map_of kvs6 ''items'' = map_of kvs4 ''items''" "map_of kvs6 ''$defs'' = map_of kvs5 ''$defs''"
        by (simp_all add: k6_other k5_other)
      ultimately show ?thesis
        using k4_items k5_defs k6_lists unfolding out
        by (simp add: strict_fields_def strict_list_def)
    qed
  qed (use comp in simp_all)
  then show ?case by (simp add: compiles_strictly_def)
qed

text \<open>The properties of a node keep their names and order.\<close>

lemma compile_node_names:
  assumes comp: "compile_node C path (JObj node) = Inr (JObj out)"
    and node: "map_of node ''properties'' = Some (JObj ps)"
  shows "\<exists>qs. map_of out ''properties'' = Some (JObj qs) \<and> map fst qs = map fst ps"
  using comp
proof (rule compile_node_Inr)
  fix ps' kvs2 kvs4 ds kvs5 kvs6
  let ?kvs = "dict_pop ''default'' node"
  assume props: "properties_of path ?kvs = Inr ps'"
    and k2: "step_fields ''properties'' C (path @ ''.properties.'') ps' ?kvs = Inr kvs2"
    and k4: "step_items C (path @ ''.items'') (map_of node ''items'') (close_object kvs2) = Inr kvs4"
    and k5: "step_fields ''$defs'' C (path @ ''.$defs.'') ds kvs4 = Inr kvs5"
    and k6: "compile_keywords C path node [''anyOf'', ''oneOf'', ''allOf''] kvs5 = Inr kvs6"
    and out: "JObj out = JObj kvs6"
  have "ps' = Some ps"
    using props node by (auto simp: properties_of_def map_of_pop split: if_splits)
  then obtain qs where qs: "compile_fields (\<lambda>qs. C (JObj (dict_set ''properties'' (JObj qs) ?kvs)))
      (path @ ''.properties.'') [] ps = Inr qs" and kvs2: "kvs2 = dict_set ''properties'' (JObj qs) ?kvs"
    using k2 by (auto simp: step_fields_def bind_err_eq_Inr)
  have "map_of kvs4 ''properties'' = map_of kvs2 ''properties''"
    using k4 by (auto simp: step_items_def bind_err_eq_Inr map_of_dict_set map_of_close_object split: option.splits)
  moreover have "map_of kvs5 ''properties'' = map_of kvs4 ''properties''"
    using k5 by (auto simp: step_fields_def bind_err_eq_Inr map_of_dict_set split: option.splits)
  moreover have "map_of kvs6 ''properties'' = map_of kvs5 ''properties''"
    using k6 by (auto simp: bind_err_eq_Inr map_of_dict_set split: option.splits)
  moreover have "map fst qs = map fst ps"
    using compile_fields_strict [OF qs] compile_node_strict by simp
  ultimately show ?thesis using out by (simp add: kvs2 map_of_dict_set)
qed

lemma compile_strict_Inr:
  assumes "compile_strict_output_schema digest generated = Inr c"
  obtains node where "generated = JObj node" "digest generated = Inr (source_digest c)"
    "compile_node (\<lambda>root. root) ''$'' generated = Inr (wire_schema c)"
    "digest (wire_schema c) = Inr (wire_digest c)" "source_schema c = generated"
proof (cases generated)
  case (JObj node)
  with assms obtain d where d: "digest generated = Inr d"
    by (cases "digest generated") (simp_all add: compile_strict_output_schema_def)
  with assms JObj obtain wired where w: "compile_node (\<lambda>root. root) ''$'' generated = Inr wired"
    and rest: "(case digest wired of Inl m \<Rightarrow> Inl (StructuredSchemaError (''invalid compiled schema: '' @ m))
      | Inr wire \<Rightarrow> Inr \<lparr>source_schema = generated, wire_schema = wired, source_digest = d, wire_digest = wire\<rparr>) = Inr c"
    by (auto simp: compile_strict_output_schema_def bind_err_eq_Inr simp del: compile_node.simps)
  from rest obtain x where "digest wired = Inr x"
    "c = \<lparr>source_schema = generated, wire_schema = wired, source_digest = d, wire_digest = x\<rparr>"
    by (cases "digest wired") auto
  with that JObj d w show ?thesis by simp
qed (use assms in \<open>simp_all add: compile_strict_output_schema_def\<close>)

text \<open>
  C39. The wire schema the compiler returns is strict at every node it reaches through
  properties, items, definitions and compositions: no default and no open-object keyword is
  left, every object is closed, and its required list is exactly its properties. The root's
  properties keep their names and order, the source schema is returned as it came, and both
  digests are those of the schemas returned.
\<close>

theorem compiled_schema_strict:
  assumes "compile_strict_output_schema digest generated = Inr c"
  shows "strict_node (wire_schema c) \<and> source_schema c = generated \<and>
    digest generated = Inr (source_digest c) \<and> digest (wire_schema c) = Inr (wire_digest c) \<and>
    (\<forall>node ps. generated = JObj node \<and> map_of node ''properties'' = Some (JObj ps) \<longrightarrow>
      (\<exists>out qs. wire_schema c = JObj out \<and> map_of out ''properties'' = Some (JObj qs) \<and>
        map fst qs = map fst ps \<and> map_of out ''required'' = Some (JList (map (JStr \<circ> fst) ps))))"
proof -
  obtain node where node: "generated = JObj node" and src: "digest generated = Inr (source_digest c)"
    and comp: "compile_node (\<lambda>root. root) ''$'' generated = Inr (wire_schema c)"
    and wire: "digest (wire_schema c) = Inr (wire_digest c)" and same: "source_schema c = generated"
    using assms by (rule compile_strict_Inr)
  have strict: "strict_node (wire_schema c)"
    using comp compile_node_strict by (auto simp: compiles_strictly_def)
  then obtain out where out: "wire_schema c = JObj out" "closed_node out"
    by (cases "wire_schema c") auto
  have "\<exists>qs. map_of out ''properties'' = Some (JObj qs) \<and> map fst qs = map fst ps \<and>
      map_of out ''required'' = Some (JList (map (JStr \<circ> fst) ps))"
    if ps: "map_of node ''properties'' = Some (JObj ps)" for ps
  proof -
    obtain qs where qs: "map_of out ''properties'' = Some (JObj qs)" and names: "map fst qs = map fst ps"
      using compile_node_names [OF comp [unfolded node out(1)] ps] by blast
    have "map_of out ''required'' = Some (JList (map (JStr \<circ> fst) qs))"
      using out(2) qs by (simp add: closed_node_def)
    moreover have "map (JStr \<circ> fst) qs = map (JStr \<circ> fst) ps" using names by (metis map_map)
    ultimately show ?thesis using qs names by auto
  qed
  then show ?thesis using strict same src wire node out(1) by auto
qed

section \<open>Witnesses\<close>

definition demo_schema :: jval where
  "demo_schema = JObj
     [(''type'', JStr ''object''),
      (''properties'', JObj
         [(''a'', JObj [(''$ref'', JStr ''#/$defs/A/default'')]),
          (''b'', JObj [(''type'', JStr ''integer''), (''default'', JInt 0)])]),
      (''$defs'', JObj [(''A'', JObj [(''type'', JStr ''object''), (''default'', JObj [])])])]"

definition demo_digest :: "jval \<Rightarrow> string + string" where
  "demo_digest v = Inr ''digest''"

definition demo_wire :: jval where
  "demo_wire = JObj
     [(''type'', JStr ''object''),
      (''properties'', JObj
         [(''a'', JObj [(''$ref'', JStr ''#/$defs/A/default'')]),
          (''b'', JObj [(''type'', JStr ''integer'')])]),
      (''$defs'', JObj [(''A'', JObj [(''type'', JStr ''object''), (''additionalProperties'', JBool False)])]),
      (''additionalProperties'', JBool False),
      (''required'', JList [JStr ''a'', JStr ''b''])]"

lemma demo_compiled:
  "compile_strict_output_schema demo_digest demo_schema =
     Inr \<lparr>source_schema = demo_schema, wire_schema = demo_wire, source_digest = ''digest'', wire_digest = ''digest''\<rparr>"
  by code_simp

theorem compiled_schema_strict_witness: "strict_node demo_wire"
  using compiled_schema_strict [OF demo_compiled] by simp

text \<open>
  A compiled schema need not be self-contained: a reference into the default value of a
  definition is accepted because it resolves when it is checked, then the default is
  dropped, and in the wire schema that is returned the same reference has no target.
\<close>

theorem compiled_reference_dangles:
  "compile_strict_output_schema demo_digest demo_schema =
     Inr \<lparr>source_schema = demo_schema, wire_schema = demo_wire, source_digest = ''digest'', wire_digest = ''digest''\<rparr> \<and>
   validate_ref (JStr ''#/$defs/A/default'') demo_schema ''p'' = Inr () \<and>
   validate_ref (JStr ''#/$defs/A/default'') demo_wire ''p'' =
     Inl (StructuredSchemaError ''$ref target does not exist at p'')"
  by code_simp

end
