(* ===== verification/Queries.thy ===== *)
theory Queries
  imports ReviewSvc RuntimeSvc
begin

text \<open>
  The read projections for operators (application/query_service.py over
  contracts/projections.py). A row's JSON column holds the record it was written from, so a
  projection carries records; a query returns a value and leaves the database alone. Without
  an \<open>ORDER BY\<close> rows come in the order they were inserted.
\<close>

section \<open>Projections\<close>

record SessionProjection =
  sp_session_id :: string
  sp_run_id :: string
  sp_state :: VariationSessionState
  sp_request :: VariationSessionRequest
  sp_result :: "VariationSessionResult option"
  sp_attempts :: "VariationAttemptRecord list"

record ReviewProjection =
  rvp_review_id :: string
  rvp_state :: ReviewState
  rvp_action :: string
  rvp_approvals_required :: int
  rvp_decisions :: "ReviewDecision list"

record CandidateProjection =
  cp_candidate_id :: string
  cp_run_id :: string
  cp_state :: candidate_row_state
  cp_manifest :: candidate_manifest
  cp_evaluations :: "EvaluationRecord list"
  cp_admission :: "AdmissionDecision option"
  cp_policy_decisions :: "PolicyDecision list"
  cp_reviews :: "ReviewProjection list"

record SessionRuntimeProjection =
  srp_session_id :: string
  srp_run_id :: string
  srp_session_state :: VariationSessionState
  srp_invocations :: "HarnessInvocationRecord list"
  srp_reconciliations :: "ReconciliationCaseRecord list"

record ArtifactMetadataProjection =
  ap_digest :: string
  ap_size_bytes :: int
  ap_media_type :: string
  ap_role :: string
  ap_created_at :: py_datetime
  ap_verified_at :: py_datetime

section \<open>Queries\<close>

definition query_session :: "string \<Rightarrow> db \<Rightarrow> err + SessionProjection" where
  "query_session k s =
     (case get_session k s of
        None \<Rightarrow> Inl (NotFoundError (''session not found: '' @ k))
      | Some row \<Rightarrow> Inr \<lparr>sp_session_id = ses_id row, sp_run_id = ses_run_id row, sp_state = ses_state row,
          sp_request = ses_request row, sp_result = ses_result row,
          sp_attempts = map att_record (sort_key att_number (filter (\<lambda>a. att_session_id a = k) (attempts s)))\<rparr>)"

definition review_projection :: "db \<Rightarrow> ReviewRequestRow \<Rightarrow> ReviewProjection" where
  "review_projection s q = \<lparr>rvp_review_id = rvq_id q, rvp_state = rvq_state q, rvp_action = rvq_action q,
     rvp_approvals_required = rvq_approvals_required q,
     rvp_decisions = map rvd_decision (filter (\<lambda>r. rvd_review_id r = rvq_id q) (review_decisions s))\<rparr>"

definition query_candidate :: "string \<Rightarrow> db \<Rightarrow> err + CandidateProjection" where
  "query_candidate k s =
     (case get_candidate_row k s of
        None \<Rightarrow> Inl (NotFoundError (''candidate not found: '' @ k))
      | Some row \<Rightarrow> Inr \<lparr>cp_candidate_id = cand_id row, cp_run_id = cand_run_id row, cp_state = cand_state row,
          cp_manifest = cand_manifest row,
          cp_evaluations = map evl_record (filter (\<lambda>r. evl_candidate_id r = k) (evaluations s)),
          cp_admission = map_option adm_decision (find (\<lambda>r. adm_candidate_id r = k) (admissions s)),
          cp_policy_decisions =
            map pol_decision (filter (\<lambda>r. pol_candidate_id r = Some k) (policy_decisions s)),
          cp_reviews = map (review_projection s) (filter (\<lambda>q. rvq_candidate_id q = k) (review_requests s))\<rparr>)"

definition query_session_runtime :: "string \<Rightarrow> db \<Rightarrow> err + SessionRuntimeProjection" where
  "query_session_runtime k s =
     (case get_session k s of
        None \<Rightarrow> Inl (NotFoundError (''session not found: '' @ k))
      | Some row \<Rightarrow> Inr \<lparr>srp_session_id = ses_id row, srp_run_id = ses_run_id row,
          srp_session_state = ses_state row,
          srp_invocations = map inv_record (sort_key (\<lambda>r. wall (inv_created_at r))
            (filter (\<lambda>r. inv_session_id r = Some k) (invocations s))),
          srp_reconciliations = map rec_record (sort_key (\<lambda>r. wall (rec_created_at r))
            (filter (\<lambda>r. rec_session_id r = Some k) (reconciliations s)))\<rparr>)"

definition query_artifact :: "string \<Rightarrow> db \<Rightarrow> err + ArtifactMetadataProjection" where
  "query_artifact digest s =
     (case get_artifact_metadata digest s of
        None \<Rightarrow> Inl (NotFoundError (''artifact not found: '' @ digest))
      | Some m \<Rightarrow> Inr \<lparr>ap_digest = am_digest m, ap_size_bytes = am_size_bytes m,
          ap_media_type = am_media_type m, ap_role = am_role m,
          ap_created_at = am_created_at m, ap_verified_at = am_verified_at m\<rparr>)"

section \<open>An admission is visible\<close>

lemma find_append_None: "(\<forall>x\<in>set xs. \<not> P x) \<Longrightarrow> find P (xs @ ys) = find P ys"
  by (induction xs) auto

text \<open>
  A committed admission shows in the candidate's projection: after an admission of a
  candidate that had no decision before, the projection has the state admitted, carries
  exactly that decision, and lists among its evaluations an admissible one.
\<close>

theorem admission_visible:
  assumes "commit_admission e rid d s = Inr (Some n, s')"
    and "\<forall>r\<in>set (admissions s). adm_candidate_id r \<noteq> ad_candidate_id d"
    and "get_admission_row (ad_admission_id d) s = None"
  shows "\<exists>p. query_candidate (ad_candidate_id d) s' = Inr p \<and> cp_run_id p = rid \<and>
    cp_state p = In_state C_ADMITTED \<and> cp_admission p = Some d \<and>
    list_ex evaluation_is_admissible (cp_evaluations p)"
  using assms(1,3)
proof (rule admitted_cases)
  fix run c
  assume c: "get_candidate_row (ad_candidate_id d) s = Some c" and run: "cand_run_id c = rid"
    and valid: "validate_decision_evidence d s = Inr ()" and adm: "ad_outcome d = A_admit"
    and app: "append_lineage e run c d (decided_db e rid d s) = Inr (n, s')"
  have s': "candidates s' = candidates (decided_db e rid d s)"
      "admissions s' = admissions s @ [admission_row e rid d]" "evaluations s' = evaluations s"
    using append_lineage_Inr(4) [OF app] by simp_all
  have id: "cand_id c = ad_candidate_id d" using c by (auto simp: get_candidate_row_def dest: row_get_SomeD)
  have "get_candidate_row (ad_candidate_id d) s' = Some (c\<lparr>cand_state := In_state C_ADMITTED\<rparr>)"
    using c adm by (simp add: get_candidate_row_def s' decided_db_def row_get_row_set)
  moreover have "find (\<lambda>r. adm_candidate_id r = ad_candidate_id d) (admissions s') = Some (admission_row e rid d)"
    unfolding s' by (subst find_append_None) (use assms(2) in \<open>auto simp: admission_row_def\<close>)
  moreover have "list_ex evaluation_is_admissible
      (map evl_record (filter (\<lambda>r. evl_candidate_id r = ad_candidate_id d) (evaluations s)))"
    using validate_decision_evidence_Inr(4) [OF valid] adm
    by (auto simp: list_ex_iff)
  ultimately show ?thesis
    by (simp add: query_candidate_def s' run admission_row_def)
qed

section \<open>Witnesses\<close>

theorem admission_visible_witness:
  "\<exists>p. query_candidate ''c1'' demo_crowned = Inr p \<and> cp_state p = In_state C_ADMITTED \<and>
     cp_admission p = Some (demo_decision ''a1'' ''c1'' A_admit)"
proof -
  have "\<forall>r\<in>set (admissions (demo_arena C_EVALUATING)). adm_candidate_id r \<noteq> ad_candidate_id (demo_decision ''a1'' ''c1'' A_admit)"
    and "get_admission_row (ad_admission_id (demo_decision ''a1'' ''c1'' A_admit)) (demo_arena C_EVALUATING) = None"
    by code_simp+
  from admission_visible [OF demo_admission this] show ?thesis by (auto simp: demo_decision_def)
qed

text \<open>A candidate that is first sent to review, then approved and admitted.\<close>

definition reviewed_world :: db where
  "reviewed_world =
     (let s1 = snd (in_session (commit_admission (call_at ''m'' 1) ''r'' (demo_decision ''a0'' ''c1'' A_review_required))
           (demo_arena C_EVALUATING));
          s2 = snd (in_session (review_create (call_at ''q'' 2) demo_review) s1);
          s3 = snd (in_session (review_submit (call_at ''s'' 3) (demo_verdict ''d1'' ''ann'') None None) s2)
      in snd (in_session (commit_admission (call_at ''n'' 4) ''r'' (demo_decision ''a1'' ''c1'' A_admit)) s3))"

text \<open>
  The candidate projection can show a decision that no longer holds: after a candidate was
  sent to review, approved and admitted, its projection has the state admitted and the
  lineage holds its admission, but the admission it shows is the earlier decision that asked
  for review.
\<close>

theorem projection_shows_first_decision:
  "map_option lin_admission_id (find (\<lambda>l. lin_candidate_id l = ''c1'') (lineage reviewed_world)) = Some (Some ''a1'') \<and>
   (case query_candidate ''c1'' reviewed_world of
      Inl _ \<Rightarrow> False
    | Inr p \<Rightarrow> cp_state p = In_state C_ADMITTED \<and>
        map_option ad_outcome (cp_admission p) = Some A_review_required)"
  by code_simp

end
