(* ===== verification/Tokens.thy ===== *)
theory Tokens
  imports Fixtures
begin

text \<open>
  Signed capability tokens (application/capabilities.py) and signed plugin manifests
  (application/plugin_registry.py). HMAC, the canonical bytes of a record and the parser of
  the claims are parameters; URL-safe Base64 is written out as the Python library defines it.
  Bytes are characters.
\<close>

section \<open>Base64\<close>

definition b64_alphabet :: string where
  "b64_alphabet = ''ABCDEFGHIJKLMNOPQRSTUVWXYZabcdefghijklmnopqrstuvwxyz0123456789-_''"

definition sextet_char :: "nat \<Rightarrow> char" where
  "sextet_char n = b64_alphabet ! n"

definition byte :: "char \<Rightarrow> nat" where
  "byte c = of_char c"

text \<open>\<open>urlsafe_b64encode\<close> followed by \<open>rstrip(b"=")\<close>: three bytes give four characters.\<close>

fun encode :: "string \<Rightarrow> string" where
  "encode [] = []"
| "encode [a] = [sextet_char (byte a div 4), sextet_char (byte a mod 4 * 16)]"
| "encode [a, b] =
     [sextet_char (byte a div 4), sextet_char (byte a mod 4 * 16 + byte b div 16),
      sextet_char (byte b mod 16 * 4)]"
| "encode (a # b # c # cs) =
     sextet_char (byte a div 4) # sextet_char (byte a mod 4 * 16 + byte b div 16) #
     sextet_char (byte b mod 16 * 4 + byte c div 64) # sextet_char (byte c mod 64) # encode cs"

text \<open>
  \<open>b64decode(value + padding, altchars=b"-_", validate=True)\<close>: the alternative characters
  stand for \<open>+\<close> and \<open>/\<close>, which are accepted too; at most two \<open>=\<close> may follow the data.
\<close>

fun position :: "char \<Rightarrow> string \<Rightarrow> nat option" where
  "position c [] = None"
| "position c (d # ds) = (if c = d then Some 0 else map_option Suc (position c ds))"

definition sextet :: "char \<Rightarrow> nat option" where
  "sextet c = position (if c = CHR ''+'' then CHR ''-'' else if c = CHR ''/'' then CHR ''_'' else c) b64_alphabet"

fun sextets :: "string \<Rightarrow> nat list option" where
  "sextets [] = Some []"
| "sextets (c # cs) =
     (case (sextet c, sextets cs) of (Some n, Some ns) \<Rightarrow> Some (n # ns) | _ \<Rightarrow> None)"

fun unpack :: "nat list \<Rightarrow> string" where
  "unpack (a # b # c # d # ns) =
     char_of (a * 4 + b div 16) # char_of (b mod 16 * 16 + c div 4) # char_of (c mod 4 * 64 + d) # unpack ns"
| "unpack [a, b, c] = [char_of (a * 4 + b div 16), char_of (b mod 16 * 16 + c div 4)]"
| "unpack [a, b] = [char_of (a * 4 + b div 16)]"
| "unpack _ = []"

definition decode :: "string \<Rightarrow> err + string" where
  "decode value =
     (let padding = replicate ((4 - length value mod 4) mod 4) (CHR ''='');
          padded = value @ padding;
          data = takeWhile (\<lambda>c. c \<noteq> CHR ''='') padded;
          pads = dropWhile (\<lambda>c. c \<noteq> CHR ''='') padded
      in if length pads > 2 \<or> list_ex (\<lambda>c. c \<noteq> CHR ''='') pads
         then Inl (ValueError ''Only base64 data is allowed'')
         else case sextets data of None \<Rightarrow> Inl (ValueError ''Only base64 data is allowed'')
              | Some ns \<Rightarrow> Inr (unpack ns))"

lemma byte_bound: "byte c < 256"
  by (simp add: byte_def)

lemma char_of_byte: "n = byte c \<Longrightarrow> char_of n = c"
  by (simp add: byte_def)

lemma alphabet_length: "length b64_alphabet = 64"
  by (simp add: b64_alphabet_def)

lemma alphabet_chars: "c \<in> set b64_alphabet \<Longrightarrow> c \<notin> {CHR ''+'', CHR ''/'', CHR ''='', CHR ''.''}"
  by (auto simp: b64_alphabet_def)

lemma position_nth: "distinct cs \<Longrightarrow> n < length cs \<Longrightarrow> position (cs ! n) cs = Some n"
  by (induction cs arbitrary: n) (auto simp: nth_Cons split: nat.split)

lemma sextet_char_mem: "n < 64 \<Longrightarrow> sextet_char n \<in> set b64_alphabet"
  by (simp add: sextet_char_def alphabet_length)

lemma sextet_sextet_char: "n < 64 \<Longrightarrow> sextet (sextet_char n) = Some n"
proof -
  assume n: "n < 64"
  have "distinct b64_alphabet" by code_simp
  then have "position (b64_alphabet ! n) b64_alphabet = Some n"
    using n by (simp add: position_nth alphabet_length)
  then show ?thesis
    using alphabet_chars [OF sextet_char_mem [OF n]] by (simp add: sextet_def sextet_char_def)
qed

lemma sextets_map: "(\<forall>n\<in>set ns. n < 64) \<Longrightarrow> sextets (map sextet_char ns) = Some ns"
  by (induction ns) (auto simp: sextet_sextet_char)

fun pack :: "string \<Rightarrow> nat list" where
  "pack [] = []"
| "pack [a] = [byte a div 4, byte a mod 4 * 16]"
| "pack [a, b] = [byte a div 4, byte a mod 4 * 16 + byte b div 16, byte b mod 16 * 4]"
| "pack (a # b # c # cs) =
     byte a div 4 # (byte a mod 4 * 16 + byte b div 16) # (byte b mod 16 * 4 + byte c div 64) #
     byte c mod 64 # pack cs"

lemma encode_pack: "encode xs = map sextet_char (pack xs)"
  by (induction xs rule: encode.induct) auto

lemma pack_bound: "n \<in> set (pack xs) \<Longrightarrow> n < 64"
proof (induction xs rule: pack.induct)
  case (2 a)
  then show ?case using byte_bound [of a] by auto
next
  case (3 a b)
  then show ?case using byte_bound [of a] byte_bound [of b] by auto
next
  case (4 a b c cs)
  then show ?case using byte_bound [of a] byte_bound [of b] byte_bound [of c] by auto
qed simp

lemma unpack_pack: "unpack (pack xs) = xs"
proof (induction xs rule: pack.induct)
  case (2 a)
  have "byte a div 4 * 4 + byte a mod 4 * 16 div 16 = byte a" by simp
  then show ?case by (simp add: char_of_byte)
next
  case (3 a b)
  have "byte a div 4 * 4 + (byte a mod 4 * 16 + byte b div 16) div 16 = byte a"
    using byte_bound [of b] by simp
  moreover have "(byte a mod 4 * 16 + byte b div 16) mod 16 * 16 + byte b mod 16 * 4 div 4 = byte b"
    using byte_bound [of b] by simp
  ultimately show ?case by (simp add: char_of_byte)
next
  case (4 a b c cs)
  have "byte a div 4 * 4 + (byte a mod 4 * 16 + byte b div 16) div 16 = byte a"
    using byte_bound [of b] by simp
  moreover have "(byte a mod 4 * 16 + byte b div 16) mod 16 * 16 + (byte b mod 16 * 4 + byte c div 64) div 4 = byte b"
    using byte_bound [of b] byte_bound [of c] by simp
  moreover have "(byte b mod 16 * 4 + byte c div 64) mod 4 * 64 + byte c mod 64 = byte c"
    using byte_bound [of c] by simp
  ultimately show ?case using 4 by (simp add: char_of_byte)
qed simp


lemma pack_length: "length (pack xs) mod 4 \<noteq> 1"
proof (induction xs rule: pack.induct)
  case (4 a b c cs)
  have "length (pack (a # b # c # cs)) = length (pack cs) + 4" by simp
  then have "length (pack (a # b # c # cs)) mod 4 = length (pack cs) mod 4" by presburger
  with 4 show ?case by (simp only: not_False_eq_True)
qed simp_all

lemma encode_chars: "c \<in> set (encode xs) \<Longrightarrow> c \<in> set b64_alphabet"
  by (auto simp: encode_pack intro: sextet_char_mem pack_bound)

lemma encode_no_separator: "CHR ''.'' \<notin> set (encode xs)" "CHR ''='' \<notin> set (encode xs)"
  using encode_chars alphabet_chars by blast+

lemma take_while_no: "\<forall>c\<in>set xs. P c \<Longrightarrow> takeWhile P (xs @ replicate n y) = xs @ takeWhile P (replicate n y)"
  by (induction xs) auto

lemma padding_bound: "m \<noteq> 1 \<Longrightarrow> m < 4 \<Longrightarrow> (4 - m) mod 4 \<le> (2 :: nat)"
proof -
  assume "m \<noteq> 1" "m < 4"
  then consider "m = 0" | "m = 2" | "m = 3" by linarith
  then show ?thesis by cases simp_all
qed

lemma decode_encode [simp]: "decode (encode xs) = Inr (unpack (pack xs))"
proof -
  let ?n = "(4 - length (encode xs) mod 4) mod 4"
  let ?padded = "encode xs @ replicate ?n (CHR ''='')"
  have plain: "\<forall>c\<in>set (encode xs). c \<noteq> CHR ''=''"
    using encode_no_separator(2) by blast
  have data: "takeWhile (\<lambda>c. c \<noteq> CHR ''='') ?padded = encode xs"
    using plain by (simp add: take_while_no takeWhile_replicate)
  have pads: "dropWhile (\<lambda>c. c \<noteq> CHR ''='') ?padded = replicate ?n (CHR ''='')"
    using plain by (simp add: dropWhile_append2 dropWhile_replicate)
  have "length (encode xs) mod 4 \<noteq> 1" unfolding encode_pack length_map by (rule pack_length)
  then have few: "?n \<le> 2" by (rule padding_bound) simp
  show ?thesis
    unfolding decode_def Let_def data pads
    using few by (simp add: encode_pack sextets_map pack_bound list_ex_iff del: mod_less_divisor)
qed

section \<open>Capability tokens\<close>

record CapabilityClaims =
  cl_token_id :: string
  cl_session_id :: string
  cl_actor_id :: string
  cl_workspace_digest :: string
  cl_tools :: "string list"
  cl_policy_decision_id :: string
  cl_expires_at :: py_datetime

definition mk_claims :: "CapabilityClaims \<Rightarrow> err + CapabilityClaims" where
  "mk_claims c =
     bind_err (non_empty_string (cl_token_id c)) (\<lambda>k.
     bind_err (non_empty_string (cl_session_id c)) (\<lambda>s.
     bind_err (non_empty_string (cl_actor_id c)) (\<lambda>a.
     bind_err (sha256_digest (cl_workspace_digest c)) (\<lambda>w.
     bind_err (bind_err (map_err non_empty_string (cl_tools c)) min_one) (\<lambda>ts.
     bind_err (non_empty_string (cl_policy_decision_id c)) (\<lambda>p.
     bind_err (require_aware_datetime (cl_expires_at c)) (\<lambda>x.
     Inr \<lparr>cl_token_id = k, cl_session_id = s, cl_actor_id = a, cl_workspace_digest = w,
       cl_tools = ts, cl_policy_decision_id = p, cl_expires_at = x\<rparr>)))))))"

text \<open>
  What the service takes from libraries: \<open>hmac.digest\<close> with SHA-256, the canonical bytes of
  the claims, and the JSON reader in front of the field validators, with \<open>None\<close> where the
  bytes are not the JSON of such an object.
\<close>

record token_libs =
  hmac_digest :: "string \<Rightarrow> string \<Rightarrow> string"
  claims_bytes :: "CapabilityClaims \<Rightarrow> string"
  claims_json :: "string \<Rightarrow> CapabilityClaims option"

record CapabilityIssuer =
  signing_key :: string

definition mk_issuer :: "string \<Rightarrow> err + CapabilityIssuer" where
  "mk_issuer key =
     (if length key < 32 then Inl (ValueError ''capability signing key must contain at least 32 bytes'')
      else Inr \<lparr>signing_key = key\<rparr>)"

definition issue :: "token_libs \<Rightarrow> CapabilityIssuer \<Rightarrow> CapabilityClaims \<Rightarrow> string" where
  "issue libs issuer claims =
     (let payload = claims_bytes libs claims; signature = hmac_digest libs (signing_key issuer) payload
      in ''v1.'' @ encode payload @ ''.'' @ encode signature)"

definition parse_token :: "string \<Rightarrow> err + string \<times> string \<times> string" where
  "parse_token token =
     (case split_on (CHR ''.'') token of
        [version, encoded_payload, encoded_signature] \<Rightarrow>
          (case (decode encoded_payload, decode encoded_signature) of
             (Inr payload, Inr signature) \<Rightarrow> Inr (version, payload, signature)
           | _ \<Rightarrow> Inl (InvalidCapabilityToken ''malformed capability token''))
      | _ \<Rightarrow> Inl (InvalidCapabilityToken ''malformed capability token''))"

definition model_validate_json :: "token_libs \<Rightarrow> string \<Rightarrow> err + CapabilityClaims" where
  "model_validate_json libs payload =
     (case Option.bind (claims_json libs payload) (\<lambda>c. case mk_claims c of Inl _ \<Rightarrow> None | Inr c \<Rightarrow> Some c) of
        None \<Rightarrow> Inl (InvalidCapabilityToken ''invalid capability claims'') | Some c \<Rightarrow> Inr c)"

definition check_grant ::
  "CapabilityClaims \<Rightarrow> string \<Rightarrow> string \<Rightarrow> string \<Rightarrow> py_datetime \<Rightarrow> err + CapabilityClaims" where
  "check_grant claims session_id workspace_digest tool_id checked_at =
     bind_err (dt_less checked_at (cl_expires_at claims)) (\<lambda>live.
       if \<not> live then Inl (InvalidCapabilityToken ''capability token expired'')
       else if cl_session_id claims \<noteq> session_id
       then Inl (InvalidCapabilityToken ''capability token belongs to another session'')
       else if cl_workspace_digest claims \<noteq> workspace_digest
       then Inl (InvalidCapabilityToken ''capability token belongs to another workspace'')
       else if tool_id \<notin> set (cl_tools claims)
       then Inl (InvalidCapabilityToken ''tool is not granted by capability token'')
       else Inr claims)"

definition verify ::
  "token_libs \<Rightarrow> CapabilityIssuer \<Rightarrow> string \<Rightarrow> string \<Rightarrow> string \<Rightarrow> string \<Rightarrow> py_datetime \<Rightarrow> err + CapabilityClaims" where
  "verify libs issuer token session_id workspace_digest tool_id checked_at =
     bind_err (parse_token token) (\<lambda>(version, payload, signature).
       if version \<noteq> ''v1'' then Inl (InvalidCapabilityToken ''unsupported capability token version'')
       else if signature \<noteq> hmac_digest libs (signing_key issuer) payload
       then Inl (InvalidCapabilityToken ''invalid capability token signature'')
       else bind_err (model_validate_json libs payload) (\<lambda>claims.
         check_grant claims session_id workspace_digest tool_id checked_at))"

lemma split_on_plain: "c \<notin> set xs \<Longrightarrow> split_on c xs = [xs]"
  by (induction xs) auto

lemma split_on_append: "c \<notin> set xs \<Longrightarrow> split_on c (xs @ c # ys) = xs # split_on c ys"
  by (induction xs) auto

lemma parse_issued:
  "parse_token (issue libs issuer claims) =
     Inr (''v1'', claims_bytes libs claims, hmac_digest libs (signing_key issuer) (claims_bytes libs claims))"
proof -
  let ?p = "claims_bytes libs claims"
  let ?s = "hmac_digest libs (signing_key issuer) ?p"
  have "issue libs issuer claims = ''v1'' @ CHR ''.'' # encode ?p @ CHR ''.'' # encode ?s"
    by (simp add: issue_def Let_def)
  then have "split_on (CHR ''.'') (issue libs issuer claims) = [''v1'', encode ?p, encode ?s]"
    by (simp only: split_on_append split_on_plain encode_no_separator) (simp add: split_on_append split_on_plain encode_no_separator)
  then show ?thesis by (simp add: parse_token_def unpack_pack)
qed

text \<open>
  The promise of the tokens: those that come back from a verification are the claims that
  some holder of the key signed, unexpired and for the session, workspace and tool at hand.
\<close>

lemma check_grant_Inr:
  "check_grant c sid wd tool t = Inr r \<longleftrightarrow>
     r = c \<and> dt_less t (cl_expires_at c) = Inr True \<and> cl_session_id c = sid \<and>
     cl_workspace_digest c = wd \<and> tool \<in> set (cl_tools c)"
  by (cases "dt_less t (cl_expires_at c)") (auto simp: check_grant_def)

lemma verify_Inr:
  "verify libs issuer token sid wd tool t = Inr c \<longleftrightarrow>
     (\<exists>payload. parse_token token = Inr (''v1'', payload, hmac_digest libs (signing_key issuer) payload) \<and>
        model_validate_json libs payload = Inr c \<and> dt_less t (cl_expires_at c) = Inr True \<and>
        cl_session_id c = sid \<and> cl_workspace_digest c = wd \<and> tool \<in> set (cl_tools c))"
  by (auto simp: verify_def bind_err_eq_Inr check_grant_Inr)


section \<open>Plugin manifests\<close>

record PluginCapabilityManifest =
  pm_plugin_id :: string
  pm_plugin_version :: string
  pm_package_digest :: string
  pm_source_digest :: string
  pm_supported_contract_versions :: "string list"
  pm_supported_schema_versions :: "int list"
  pm_operating_systems :: "string list"
  pm_architectures :: "string list"
  pm_required_executables :: "string list"
  pm_network_access :: string
  pm_configuration_schema :: jval
  pm_side_effects :: "string list"
  pm_security_classification :: string
  pm_health_check :: "string list"
  pm_license :: string

record SignedPluginManifest =
  sp_manifest :: PluginCapabilityManifest
  sp_signature_algorithm :: string
  sp_signer_key_id :: string
  sp_signature_hex :: string

text \<open>\<open>mac key manifest\<close> is the hexadecimal HMAC of the manifest's canonical bytes.\<close>

definition sign_plugin_manifest ::
  "(string \<Rightarrow> PluginCapabilityManifest \<Rightarrow> string) \<Rightarrow> PluginCapabilityManifest \<Rightarrow> string \<Rightarrow> string \<Rightarrow>
     err + SignedPluginManifest" where
  "sign_plugin_manifest mac manifest key_id key =
     (if length key < 32 then Inl (ValueError ''plugin signing key must contain at least 32 bytes'')
      else
        bind_err (non_empty_string key_id) (\<lambda>k.
        bind_err (non_empty_string (mac key manifest)) (\<lambda>sig.
        Inr \<lparr>sp_manifest = manifest, sp_signature_algorithm = ''hmac-sha256'', sp_signer_key_id = k,
          sp_signature_hex = sig\<rparr>)))"

definition verify_plugin_manifest ::
  "(string \<Rightarrow> PluginCapabilityManifest \<Rightarrow> string) \<Rightarrow> SignedPluginManifest \<Rightarrow> (string \<rightharpoonup> string) \<Rightarrow> string \<Rightarrow> int \<Rightarrow>
     string \<Rightarrow> string \<Rightarrow> err + PluginCapabilityManifest" where
  "verify_plugin_manifest mac signed trusted_keys required_contract required_schema_version
       operating_system architecture =
     (case trusted_keys (sp_signer_key_id signed) of
        None \<Rightarrow> Inl (PluginCompatibilityError ''plugin signer is not trusted'')
      | Some key \<Rightarrow>
          let manifest = sp_manifest signed in
          if mac key manifest \<noteq> sp_signature_hex signed
          then Inl (PluginCompatibilityError ''plugin manifest signature is invalid'')
          else if required_contract \<notin> set (pm_supported_contract_versions manifest)
          then Inl (PluginCompatibilityError ''plugin does not support the required contract'')
          else if required_schema_version \<notin> set (pm_supported_schema_versions manifest)
          then Inl (PluginCompatibilityError ''plugin does not support the required schema'')
          else if operating_system \<notin> set (pm_operating_systems manifest)
          then Inl (PluginCompatibilityError ''plugin does not support this operating system'')
          else if architecture \<notin> set (pm_architectures manifest)
          then Inl (PluginCompatibilityError ''plugin does not support this architecture'')
          else Inr manifest)"

section \<open>Properties\<close>


definition demo_claims :: CapabilityClaims where
  "demo_claims = \<lparr>cl_token_id = ''t1'', cl_session_id = ''s1'', cl_actor_id = ''agent'',
     cl_workspace_digest = ''sha256:'' @ replicate 64 (CHR ''a''), cl_tools = [''shell'', ''grep''],
     cl_policy_decision_id = ''p1'', cl_expires_at = Aware 100 0\<rparr>"

definition demo_libs :: token_libs where
  "demo_libs = \<lparr>hmac_digest = (\<lambda>k p. k @ p), claims_bytes = cl_token_id,
     claims_json = (\<lambda>p. if p = ''t1'' then Some demo_claims else None)\<rparr>"

lemma demo_claims_valid: "mk_claims demo_claims = Inr demo_claims"
  by code_simp


text \<open>
  A manifest signed with a trusted key verifies exactly for the contracts, schema versions,
  operating systems and architectures it lists, and what is then returned is the manifest that
  was signed. The hypothesis on the hexadecimal signature is that it has no white space around
  it, which the record's validator would strip.
\<close>

theorem plugin_signatures:
  assumes signed: "sign_plugin_manifest mac m kid key = Inr signed"
    and trusted: "keys (strip kid) = Some key"
    and hex: "strip (mac key m) = mac key m"
  shows "verify_plugin_manifest mac signed keys contract version os arch = Inr m' \<longleftrightarrow>
     m' = m \<and> contract \<in> set (pm_supported_contract_versions m) \<and>
     version \<in> set (pm_supported_schema_versions m) \<and>
     os \<in> set (pm_operating_systems m) \<and> arch \<in> set (pm_architectures m)"
  using assms
  by (auto simp: sign_plugin_manifest_def verify_plugin_manifest_def bind_err_eq_Inr non_empty_string_def
      split: if_splits)

definition demo_plugin :: PluginCapabilityManifest where
  "demo_plugin = \<lparr>pm_plugin_id = ''p'', pm_plugin_version = ''1'', pm_package_digest = ''d'',
     pm_source_digest = ''d'', pm_supported_contract_versions = [''harness/1''],
     pm_supported_schema_versions = [1], pm_operating_systems = [''linux''],
     pm_architectures = [''x86_64''], pm_required_executables = [], pm_network_access = ''none'',
     pm_configuration_schema = JObj [], pm_side_effects = [], pm_security_classification = ''low'',
     pm_health_check = [''true''], pm_license = ''MIT''\<rparr>"

theorem plugin_signatures_witness:
  "sign_plugin_manifest (\<lambda>k m. pm_plugin_id m) demo_plugin ''k1'' (replicate 32 (CHR ''k'')) =
     Inr \<lparr>sp_manifest = demo_plugin, sp_signature_algorithm = ''hmac-sha256'',
       sp_signer_key_id = ''k1'', sp_signature_hex = ''p''\<rparr> \<and>
   verify_plugin_manifest (\<lambda>k m. pm_plugin_id m)
     \<lparr>sp_manifest = demo_plugin, sp_signature_algorithm = ''hmac-sha256'',
       sp_signer_key_id = ''k1'', sp_signature_hex = ''p''\<rparr>
     [''k1'' \<mapsto> replicate 32 (CHR ''k'')] ''harness/1'' 1 ''linux'' ''x86_64'' = Inr demo_plugin"
  (is "?sign \<and> ?verify")
proof
  have stripped: "strip ''k1'' = ''k1''" "strip ''p'' = ''p''"
    by (simp_all add: strip_def white_space_def)
  then show ?sign
    by (simp add: sign_plugin_manifest_def non_empty_string_def demo_plugin_def)
  from plugin_signatures [OF this] stripped show ?verify
    by (simp add: demo_plugin_def)
qed

end
