(* ===== verification/Steering.thy ===== *)
theory Steering
  imports RunSvc
begin

text \<open>
  The services that steer a campaign without writing to the database: the dry run of an
  experiment (application/validation_service.py), the deterministic supervisor
  (domain/supervisor.py over contracts/supervisor.py), and the search strategies that choose
  the next parent (application/search_strategies.py over contracts/search.py).
\<close>

section \<open>The dry run\<close>

record RuntimeCapabilities =
  sandbox_profiles :: "string list"
  component_ids :: "string list"
  policy_bundle_digests :: "string list"

record ValidationCheck =
  vc_check_id :: string
  vc_outcome :: string
  vc_detail :: string

record DryRunReport =
  dr_experiment_id :: string
  dr_spec_digest :: string
  dr_outcome :: string
  dr_checks :: "ValidationCheck list"

definition present :: "string \<Rightarrow> string \<Rightarrow> string list \<Rightarrow> ValidationCheck" where
  "present check_id value available =
     (let found = value \<in> set available in
      \<lparr>vc_check_id = check_id, vc_outcome = (if found then ''pass'' else ''fail''),
       vc_detail = (if found then ''available: '' else ''not registered: '') @ value\<rparr>)"

definition evaluator_check :: "RuntimeCapabilities \<Rightarrow> EvaluatorSpec \<Rightarrow> ValidationCheck" where
  "evaluator_check caps v =
     (let cid = component_id (es_component v)
      in present (''evaluator:'' @ es_tier v @ '':'' @ cid) cid (component_ids caps))"

definition network_check :: ValidationCheck where
  "network_check = \<lparr>vc_check_id = ''network_policy'', vc_outcome = ''pass'',
     vc_detail = ''v1 tool and evaluator profiles default to network denied''\<rparr>"

definition all_evaluators :: "ExperimentSpec \<Rightarrow> EvaluatorSpec list" where
  "all_evaluators spec = development_evaluators spec @ admission_evaluators spec @ audit_evaluators spec"

definition dry_run :: "env \<Rightarrow> RuntimeCapabilities \<Rightarrow> ExperimentSpec \<Rightarrow> DryRunReport" where
  "dry_run e caps spec =
     (let checks =
        [present ''sandbox_profile'' (sandbox_profile_id spec) (sandbox_profiles caps),
         present ''harness'' (component_id (hs_component (harness spec))) (component_ids caps),
         present ''policy_bundle'' (xs_policy_bundle_digest spec) (policy_bundle_digests caps)] @
        map (evaluator_check caps) (all_evaluators spec) @ [network_check]
      in \<lparr>dr_experiment_id = experiment_id spec, dr_spec_digest = canonical_digest e (D_experiment spec),
          dr_outcome = (if list_ex (\<lambda>c. vc_outcome c = ''fail'') checks then ''blocked'' else ''ready''),
          dr_checks = checks\<rparr>)"

section \<open>The supervisor\<close>

record SupervisorObservation =
  ob_run_id :: string
  ob_run_state :: string
  sessions_without_admission :: int
  repeated_failure_count :: int
  quarantine_count :: int
  duplicate_patch_count :: int
  policy_denial_count :: int
  budget_fraction_micros :: int
  diversity_fraction_micros :: int

record SupervisorDirective =
  directive :: string
  sd_reason_codes :: "string list"
  payload :: jval

definition in_micros :: "int \<Rightarrow> bool" where
  "in_micros n \<longleftrightarrow> 0 \<le> n \<and> n \<le> 1000000"

definition mk_observation :: "SupervisorObservation \<Rightarrow> err + SupervisorObservation" where
  "mk_observation b =
     bind_err (non_empty_string (ob_run_id b)) (\<lambda>rid.
     bind_err (non_empty_string (ob_run_state b)) (\<lambda>st.
     if list_ex (\<lambda>n. n < 0) [sessions_without_admission b, repeated_failure_count b, quarantine_count b,
          duplicate_patch_count b, policy_denial_count b] \<or>
        \<not> in_micros (budget_fraction_micros b) \<or> \<not> in_micros (diversity_fraction_micros b)
     then Inl (ValueError ''observation out of range'')
     else Inr (b\<lparr>ob_run_id := rid, ob_run_state := st\<rparr>)))"

definition directs :: "string \<Rightarrow> string \<Rightarrow> SupervisorDirective" where
  "directs name reason = \<lparr>directive = name, sd_reason_codes = [reason], payload = JObj []\<rparr>"

definition supervise :: "SupervisorObservation \<Rightarrow> SupervisorDirective" where
  "supervise b =
     (if ob_run_state b \<in> {''completed'', ''cancelled'', ''failed'', ''cancelling''}
      then directs ''terminate'' ''RUN_NOT_SCHEDULABLE''
      else if budget_fraction_micros b \<ge> 950000 then directs ''pause'' ''HARD_BUDGET_BOUND_APPROACHING''
      else if quarantine_count b \<ge> 2
      then (directs ''request_review'' ''REPEATED_AUTHORITATIVE_QUARANTINE'')
        \<lparr>payload := JObj [(''required_evidence'', JStr ''evaluator-integrity-summary'')]\<rparr>
      else if policy_denial_count b \<ge> 3 then directs ''pause'' ''REPEATED_POLICY_DENIAL''
      else if duplicate_patch_count b \<ge> 2 then directs ''change_hypothesis'' ''DUPLICATE_OR_NOOP_PATCHES''
      else if repeated_failure_count b \<ge> 3 then directs ''reduce_scope'' ''REPEATED_DEVELOPMENT_FAILURE''
      else if sessions_without_admission b \<ge> 3 then directs ''revisit_lineage'' ''NO_RECENT_ADMISSION''
      else if diversity_fraction_micros b < 100000
      then directs ''change_hypothesis'' ''ATTEMPT_DIVERSITY_COLLAPSE''
      else directs ''continue'' ''WITHIN_BOUNDS'')"

section \<open>Decimal products and quotients\<close>

text \<open>
  Python's decimals under the default context: the exact product is rounded, and a quotient is
  computed to one digit more than the precision, with a sticky last digit when it is inexact.
\<close>

definition decimal_mul :: "decimal \<Rightarrow> decimal \<Rightarrow> decimal" where
  "decimal_mul a b = decimal_fix (Dec (coefficient a * coefficient b) (exponent a + exponent b))"

fun strip_zeros :: "nat \<Rightarrow> int \<Rightarrow> int \<Rightarrow> decimal" where
  "strip_zeros 0 c x = Dec c x"
| "strip_zeros (Suc n) c x = (if c mod 10 = 0 then strip_zeros n (c div 10) (x + 1) else Dec c x)"

definition decimal_reciprocal :: "int \<Rightarrow> decimal" where
  "decimal_reciprocal m =
     (let shift = ndigits (nat m) + decimal_prec; c = 10 ^ shift div m
      in decimal_fix
        (if 10 ^ shift mod m \<noteq> 0 then Dec (if c mod 5 = 0 then c + 1 else c) (- int shift)
         else strip_zeros shift c (- int shift)))"

section \<open>Search strategies\<close>

record SearchCandidate =
  sc_candidate_id :: string
  sc_workspace_digest :: string
  lineage_sequence :: int
  quality :: decimal
  novelty :: decimal
  selection_count :: int

record SearchState =
  sst_run_id :: string
  champion_id :: string
  sst_candidates :: "SearchCandidate list"
  budget_limit :: BudgetSpec
  budget_used :: UsageRecord
  next_session_number :: int

record SearchDecision =
  sd_method :: string
  sd_method_version :: string
  parent_candidate_id :: string
  sd_reasons :: "string list"

text \<open>\<open>min\<close> and \<open>max\<close> with a key keep the first of the best items.\<close>

fun best :: "('a \<Rightarrow> 'a \<Rightarrow> bool) \<Rightarrow> 'a \<Rightarrow> 'a list \<Rightarrow> 'a" where
  "best better b [] = b"
| "best better b (x # xs) = best better (if better x b then x else b) xs"

definition single_lineage_parent :: "SearchState \<Rightarrow> err + SearchDecision" where
  "single_lineage_parent st =
     (if \<not> list_ex (\<lambda>c. sc_candidate_id c = champion_id st) (sst_candidates st)
      then Inl (ValueError ''champion is absent from search state'')
      else Inr \<lparr>sd_method = ''single_lineage_agentic'', sd_method_version = ''1.0.0'',
        parent_candidate_id = champion_id st, sd_reasons = [''CURRENT_CHAMPION'']\<rparr>)"

record HybridArchive =
  novelty_weight :: decimal
  exploration_weight :: decimal

definition mk_hybrid :: "decimal \<Rightarrow> decimal \<Rightarrow> err + HybridArchive" where
  "mk_hybrid nw ew =
     (if decimal_negative nw \<or> decimal_negative ew then Inl (ValueError ''archive weights cannot be negative'')
      else Inr \<lparr>novelty_weight = nw, exploration_weight = ew\<rparr>)"

definition score :: "HybridArchive \<Rightarrow> SearchCandidate \<Rightarrow> decimal" where
  "score h c =
     (let exploration = decimal_reciprocal (selection_count c + 1)
      in decimal_add (decimal_add (quality c) (decimal_mul (novelty_weight h) (novelty c)))
           (decimal_mul (exploration_weight h) exploration))"

definition decimal_less :: "decimal \<Rightarrow> decimal \<Rightarrow> bool" where
  "decimal_less a b \<longleftrightarrow> \<not> decimal_le b a"

text \<open>The keys are compared as tuples: an earlier component decides unless it is equal.\<close>

definition archive_better :: "HybridArchive \<Rightarrow> SearchCandidate \<Rightarrow> SearchCandidate \<Rightarrow> bool" where
  "archive_better h x y \<longleftrightarrow>
     decimal_less (score h y) (score h x) \<or>
     decimal_le (score h y) (score h x) \<and>
       (lineage_sequence x < lineage_sequence y \<or>
        lineage_sequence x = lineage_sequence y \<and> str_less (sc_candidate_id y) (sc_candidate_id x))"

definition hybrid_parent :: "HybridArchive \<Rightarrow> SearchState \<Rightarrow> err + SearchDecision" where
  "hybrid_parent h st =
     (case sst_candidates st of
        [] \<Rightarrow> Inl (ValueError ''max() iterable argument is empty'')
      | c # cs \<Rightarrow> Inr \<lparr>sd_method = ''hybrid_archive_agentic'', sd_method_version = ''0.1.0-experimental'',
          parent_candidate_id = sc_candidate_id (best (archive_better h) c cs),
          sd_reasons = [''QUALITY_DIVERSITY_SCORE'']\<rparr>)"

definition breadth_better :: "SearchCandidate \<Rightarrow> SearchCandidate \<Rightarrow> bool" where
  "breadth_better x y \<longleftrightarrow>
     selection_count x < selection_count y \<or>
     selection_count x = selection_count y \<and>
       (lineage_sequence x < lineage_sequence y \<or>
        lineage_sequence x = lineage_sequence y \<and> str_less (sc_candidate_id x) (sc_candidate_id y))"

definition round_robin_parent :: "SearchState \<Rightarrow> err + SearchDecision" where
  "round_robin_parent st =
     (case sst_candidates st of
        [] \<Rightarrow> Inl (ValueError ''min() iterable argument is empty'')
      | c # cs \<Rightarrow> Inr \<lparr>sd_method = ''population_agentic'', sd_method_version = ''0.1.0-experimental'',
          parent_candidate_id = sc_candidate_id (best breadth_better c cs),
          sd_reasons = [''LEAST_SELECTED_PARENT'']\<rparr>)"

definition require_equal_methodology_budget :: "SearchState \<Rightarrow> SearchState \<Rightarrow> err + unit" where
  "require_equal_methodology_budget l r =
     (if budget_limit l \<noteq> budget_limit r
      then Inl (ValueError ''methodology comparison requires equal hard budgets'')
      else if budget_used l \<noteq> budget_used r
      then Inl (ValueError ''methodology comparison must start from equal usage'')
      else Inr ())"

section \<open>Preferences\<close>

text \<open>What the two selections share: the chosen item is one of the items and none beats it.\<close>

locale preference =
  fixes better :: "'a \<Rightarrow> 'a \<Rightarrow> bool"
  assumes irreflexive: "\<not> better x x"
    and transitive: "better x y \<Longrightarrow> better y z \<Longrightarrow> better x z"
begin

lemma best_member: "best better b xs \<in> set (b # xs)"
  by (induction xs arbitrary: b) (auto split: if_splits)

lemma best_keeps: "\<not> better y b \<Longrightarrow> \<not> better y (best better b xs)"
  by (induction xs arbitrary: b) (auto dest: transitive)

lemma best_unbeaten: "y \<in> set (b # xs) \<Longrightarrow> \<not> better y (best better b xs)"
proof (induction xs arbitrary: b)
  case (Cons x xs)
  have "\<not> better b (if better x b then x else b)" "\<not> better x (if better x b then x else b)"
    using irreflexive transitive by auto
  then show ?case using Cons by (auto dest: best_keeps)
qed (simp add: irreflexive)

end

lemma str_less_trans: "str_less x y \<Longrightarrow> str_less y z \<Longrightarrow> str_less x z"
  using str_less_cotrans [of x y z] str_less_asym [of y z] by blast

interpretation breadth: preference breadth_better
  by unfold_locales (auto simp: breadth_better_def dest: str_less_trans)

lemma align_shift:
  "e' \<le> e \<Longrightarrow> e \<le> exponent d \<Longrightarrow> decimal_align d e' = decimal_align d e * 10 ^ nat (e - e')"
proof -
  assume le: "e' \<le> e" "e \<le> exponent d"
  then have "nat (exponent d - e') = nat (exponent d - e) + nat (e - e')" by simp
  then show ?thesis by (simp add: decimal_align_def power_add)
qed

lemma decimal_le_at:
  assumes "e \<le> exponent a" and "e \<le> exponent b"
  shows "decimal_le a b \<longleftrightarrow> decimal_align a e \<le> decimal_align b e"
proof -
  let ?m = "min (exponent a) (exponent b)"
  have "decimal_align a e = decimal_align a ?m * 10 ^ nat (?m - e)"
    "decimal_align b e = decimal_align b ?m * 10 ^ nat (?m - e)"
    using assms by (auto intro: align_shift)
  then show ?thesis by (simp add: decimal_le_def Let_def)
qed

lemma decimal_le_total: "decimal_le a b \<or> decimal_le b a"
  using decimal_le_at [of "min (exponent a) (exponent b)"] by fastforce

lemma decimal_le_trans: "decimal_le a b \<Longrightarrow> decimal_le b c \<Longrightarrow> decimal_le a c"
proof -
  let ?m = "min (exponent a) (min (exponent b) (exponent c))"
  assume "decimal_le a b" "decimal_le b c"
  moreover have "?m \<le> exponent a" "?m \<le> exponent b" "?m \<le> exponent c" by simp_all
  ultimately show ?thesis using decimal_le_at [of ?m] order_trans by meson
qed

lemma archive_better_trans:
  assumes "archive_better h x y" and "archive_better h y z"
  shows "archive_better h x z"
proof (cases "decimal_le (score h x) (score h z)")
  case False
  then show ?thesis by (simp add: archive_better_def decimal_less_def)
next
  case True
  have le: "decimal_le (score h y) (score h x)" "decimal_le (score h z) (score h y)"
    using assms decimal_le_total by (auto simp: archive_better_def decimal_less_def)
  then have "decimal_le (score h x) (score h y)" "decimal_le (score h y) (score h z)"
    "decimal_le (score h z) (score h x)"
    using True by (auto intro: decimal_le_trans)
  with assms show ?thesis
    by (auto simp: archive_better_def decimal_less_def intro: str_less_trans)
qed

interpretation archive: preference "archive_better h" for h
proof unfold_locales
  show "\<not> archive_better h x x" for x
    using decimal_le_total [of "score h x" "score h x"] by (simp add: archive_better_def decimal_less_def)
qed (rule archive_better_trans)

section \<open>Properties\<close>

text \<open>
  A dry run reports ready exactly when everything the experiment names is registered: its
  sandbox profile, its harness, its policy bundle and the component of every evaluator of all
  three tiers; its report has one check for each of them, in that order, and one for the
  network policy.
\<close>

theorem dry_run_ready:
  "(dr_outcome (dry_run e caps spec) = ''ready'' \<longleftrightarrow>
     sandbox_profile_id spec \<in> set (sandbox_profiles caps) \<and>
     component_id (hs_component (harness spec)) \<in> set (component_ids caps) \<and>
     xs_policy_bundle_digest spec \<in> set (policy_bundle_digests caps) \<and>
     (\<lambda>v. component_id (es_component v)) ` set (all_evaluators spec) \<subseteq> set (component_ids caps)) \<and>
   length (dr_checks (dry_run e caps spec)) = 4 + length (all_evaluators spec)"
  by (auto simp: dry_run_def Let_def present_def evaluator_check_def network_check_def list_ex_iff)

text \<open>
  The supervisor lets a run continue exactly when the run can still be scheduled, the
  budget is below 95 percent and every counter is below its bound, and it ends a run exactly
  when the run is terminal or being cancelled.
\<close>

theorem supervisor_continues:
  "(directive (supervise b) = ''continue'' \<longleftrightarrow>
     ob_run_state b \<notin> {''completed'', ''cancelled'', ''failed'', ''cancelling''} \<and>
     budget_fraction_micros b < 950000 \<and> quarantine_count b < 2 \<and> policy_denial_count b < 3 \<and>
     duplicate_patch_count b < 2 \<and> repeated_failure_count b < 3 \<and> sessions_without_admission b < 3 \<and>
     diversity_fraction_micros b \<ge> 100000) \<and>
   (directive (supervise (b\<lparr>ob_run_state := run_value r\<rparr>)) = ''terminate'' \<longleftrightarrow>
     run_terminal r \<or> r = R_CANCELLING)"
  by (cases r) (auto simp: supervise_def directs_def)

lemma breadth_unbeaten:
  "\<not> breadth_better x p \<Longrightarrow> selection_count p < selection_count x \<or>
     selection_count p = selection_count x \<and> lineage_sequence p \<le> lineage_sequence x"
  by (auto simp: breadth_better_def)

lemma archive_unbeaten:
  "\<not> archive_better h x p \<Longrightarrow> decimal_le (score h x) (score h p) \<and>
     (decimal_le (score h p) (score h x) \<longrightarrow> lineage_sequence p \<le> lineage_sequence x)"
  by (auto simp: archive_better_def decimal_less_def)

text \<open>
  The search strategies choose the best candidate of the state: round robin one that has
  been selected least often, and among those the oldest of the lineage; the archive one whose
  score no candidate exceeds, and among those of its score the oldest.
\<close>

theorem strategies_choose_best:
  assumes "sst_candidates st \<noteq> []"
  shows "(\<exists>d p. round_robin_parent st = Inr d \<and> p \<in> set (sst_candidates st) \<and>
       parent_candidate_id d = sc_candidate_id p \<and>
       (\<forall>x\<in>set (sst_candidates st). selection_count p < selection_count x \<or>
          selection_count p = selection_count x \<and> lineage_sequence p \<le> lineage_sequence x)) \<and>
    (\<exists>d p. hybrid_parent h st = Inr d \<and> p \<in> set (sst_candidates st) \<and>
       parent_candidate_id d = sc_candidate_id p \<and>
       (\<forall>x\<in>set (sst_candidates st). decimal_le (score h x) (score h p) \<and>
          (decimal_le (score h p) (score h x) \<longrightarrow> lineage_sequence p \<le> lineage_sequence x)))"
proof -
  from assms obtain c cs where st: "sst_candidates st = c # cs" by (cases "sst_candidates st") auto
  let ?p = "best breadth_better c cs" and ?q = "best (archive_better h) c cs"
  have "?p \<in> set (sst_candidates st)" "?q \<in> set (sst_candidates st)"
    unfolding st by (rule breadth.best_member archive.best_member)+
  moreover have "\<not> breadth_better x ?p" "\<not> archive_better h x ?q" if "x \<in> set (sst_candidates st)" for x
    using that unfolding st by (rule breadth.best_unbeaten archive.best_unbeaten)+
  moreover have "\<exists>d. round_robin_parent st = Inr d \<and> parent_candidate_id d = sc_candidate_id ?p"
    "\<exists>d. hybrid_parent h st = Inr d \<and> parent_candidate_id d = sc_candidate_id ?q"
    by (simp_all add: st round_robin_parent_def hybrid_parent_def)
  ultimately show ?thesis by (meson breadth_unbeaten archive_unbeaten)
qed

definition demo_pick :: "string \<Rightarrow> int \<Rightarrow> int \<Rightarrow> int \<Rightarrow> SearchCandidate" where
  "demo_pick k n q used = \<lparr>sc_candidate_id = k, sc_workspace_digest = ''d'', lineage_sequence = n,
     quality = Dec q 0, novelty = Dec 0 0, selection_count = used\<rparr>"

definition demo_search :: SearchState where
  "demo_search = \<lparr>sst_run_id = ''r'', champion_id = ''c'',
     sst_candidates = [demo_pick ''a'' 0 5 2, demo_pick ''b'' 1 7 1, demo_pick ''c'' 2 7 1],
     budget_limit = plain_usage 10, budget_used = plain_usage 0, next_session_number = 1\<rparr>"

theorem strategies_choose_best_witness:
  "\<exists>d p. hybrid_parent \<lparr>novelty_weight = Dec 1 0, exploration_weight = Dec 0 0\<rparr> demo_search = Inr d \<and>
     p \<in> set (sst_candidates demo_search) \<and> parent_candidate_id d = sc_candidate_id p \<and>
     (\<forall>x\<in>set (sst_candidates demo_search).
        decimal_le (score \<lparr>novelty_weight = Dec 1 0, exploration_weight = Dec 0 0\<rparr> x)
          (score \<lparr>novelty_weight = Dec 1 0, exploration_weight = Dec 0 0\<rparr> p))"
proof -
  have "sst_candidates demo_search \<noteq> []" by (simp add: demo_search_def)
  from strategies_choose_best [OF this] show ?thesis by blast
qed

end
