(* ===== verification/PythonValues.thy ===== *)
theory PythonValues
  imports Contracts
begin

text \<open>
  Values of the language that the components compare and print: dictionaries in insertion order,
  equality of values read from JSON, and the text of date-times.
\<close>

section \<open>Python dictionaries and values read from JSON\<close>

type_synonym dict = "(string \<times> jval) list"

text \<open>\<open>d[k] = v\<close> keeps the place of an existing key and appends a new one.\<close>

fun dict_put :: "string \<Rightarrow> jval \<Rightarrow> dict \<Rightarrow> dict" where
  "dict_put k v [] = [(k, v)]"
| "dict_put k v ((k', v') # d) = (if k' = k then (k, v) # d else (k', v') # dict_put k v d)"

text \<open>\<open>d.get(k)\<close>, where a missing key and a null give \<open>None\<close> alike, and \<open>d.get(k, default)\<close>.\<close>

definition dict_get_or :: "string \<Rightarrow> jval \<Rightarrow> dict \<Rightarrow> jval" where
  "dict_get_or k v d = (case map_of d k of None \<Rightarrow> v | Some x \<Rightarrow> x)"

abbreviation dict_get :: "string \<Rightarrow> dict \<Rightarrow> jval" where
  "dict_get k d \<equiv> dict_get_or k JNull d"

text \<open>The method call \<open>value.get(k)\<close> on a value that need not be a dictionary.\<close>

fun get_method :: "string \<Rightarrow> jval \<Rightarrow> err + jval" where
  "get_method k (JObj d) = Inr (dict_get k d)"
| "get_method k _ = Inl (AttributeError ''get'')"

text \<open>The items a \<open>for\<close> loop over the value sees.\<close>

fun iter_items :: "jval \<Rightarrow> err + jval list" where
  "iter_items (JList xs) = Inr xs"
| "iter_items (JObj d) = Inr (map (JStr \<circ> fst) d)"
| "iter_items (JStr t) = Inr (map (\<lambda>c. JStr [c]) t)"
| "iter_items _ = Inl (TypeError ''object is not iterable'')"

fun truthy :: "jval \<Rightarrow> bool" where
  "truthy JNull = False"
| "truthy (JBool b) = b"
| "truthy (JInt n) = (n \<noteq> 0)"
| "truthy (JStr t) = (t \<noteq> [])"
| "truthy (JList xs) = (xs \<noteq> [])"
| "truthy (JObj d) = (d \<noteq> [])"

text \<open>Equality of Python values: \<open>True == 1\<close>, and dictionaries compare without their order.\<close>

fun as_number :: "jval \<Rightarrow> int option" where
  "as_number (JInt n) = Some n"
| "as_number (JBool b) = Some (if b then 1 else 0)"
| "as_number _ = None"

lemma dict_value_size: "(k, v) \<in> set d \<Longrightarrow> size v < size (JObj d)"
  by (induction d) auto

function py_eq :: "jval \<Rightarrow> jval \<Rightarrow> bool" where
  "py_eq v w =
     (case as_number v of
        Some n \<Rightarrow> as_number w = Some n
      | None \<Rightarrow>
        (case v of
           JNull \<Rightarrow> w = JNull
         | JStr t \<Rightarrow> w = JStr t
         | JList xs \<Rightarrow> (case w of JList ys \<Rightarrow> list_all2 py_eq xs ys | _ \<Rightarrow> False)
         | JObj d \<Rightarrow>
             (case w of JObj d' \<Rightarrow> length d = length d' \<and>
                (\<forall>p\<in>set d. case map_of d' (fst p) of None \<Rightarrow> False | Some y \<Rightarrow> py_eq (snd p) y)
              | _ \<Rightarrow> False)
         | _ \<Rightarrow> False))"
  by pat_completeness auto
termination
  by (relation "measure (\<lambda>(v, w). size v)")
    (auto dest: dict_value_size simp: size_list_estimation' less_Suc_eq_le)

declare py_eq.simps [simp del]

lemma py_eq_simps [simp]:
  "py_eq (JInt n) w = (as_number w = Some n)" "py_eq (JStr t) w = (w = JStr t)" "py_eq JNull w = (w = JNull)"
  by (simp_all add: py_eq.simps)

section \<open>Timestamps as text\<close>

text \<open>
  \<open>datetime.isoformat\<close>: the civil date of the wall clock (microseconds from 1 January 1970 in
  the proleptic Gregorian calendar), the fraction only when it is not zero, the offset of an
  aware value.
\<close>

definition pad :: "nat \<Rightarrow> int \<Rightarrow> string" where
  "pad n k = (let t = show_int k in replicate (n - length t) (CHR ''0'') @ t)"

definition civil_date :: "int \<Rightarrow> int \<times> int \<times> int" where
  "civil_date days =
     (let z = days + 719468; era = z div 146097; doe = z mod 146097;
          yoe = (doe - doe div 1460 + doe div 36524 - doe div 146096) div 365;
          doy = doe - (365 * yoe + yoe div 4 - yoe div 100);
          mp = (5 * doy + 2) div 153; day = doy - (153 * mp + 2) div 5 + 1;
          month = (if mp < 10 then mp + 3 else mp - 9)
      in (yoe + era * 400 + (if month \<le> 2 then 1 else 0), month, day))"

definition clock_text :: "int \<Rightarrow> string" where
  "clock_text us =
     (let secs = us div 1000000
      in pad 2 (secs div 3600) @ '':'' @ pad 2 (secs div 60 mod 60) @ '':'' @ pad 2 (secs mod 60) @
         (if us mod 1000000 = 0 then [] else ''.'' @ pad 6 (us mod 1000000)))"

definition offset_text :: "int \<Rightarrow> string" where
  "offset_text off =
     (let us = \<bar>off\<bar>; secs = us div 1000000
      in (if off < 0 then ''-'' else ''+'') @ pad 2 (secs div 3600) @ '':'' @ pad 2 (secs div 60 mod 60) @
         (if us mod 60000000 = 0 then []
          else '':'' @ pad 2 (secs mod 60) @
            (if us mod 1000000 = 0 then [] else ''.'' @ pad 6 (us mod 1000000))))"

definition isoformat :: "py_datetime \<Rightarrow> string" where
  "isoformat t =
     (let day_us = 86400000000; (y, m, d) = civil_date (wall t div day_us)
      in pad 4 y @ ''-'' @ pad 2 m @ ''-'' @ pad 2 d @ ''T'' @ clock_text (wall t mod day_us) @
         (case t of Naive _ \<Rightarrow> [] | Aware _ off \<Rightarrow> offset_text off))"

end
