(* ===== verification/Provenance.thy ===== *)
theory Provenance
  imports Orchestration PythonValues
begin

text \<open>
  Lineage export and its verification (application/provenance_service.py over
  contracts/provenance.py). The manifest is the JSON object the service builds; the text a
  record column holds is its Pydantic serialisation, which is a parameter of the export, and
  the verifier reads the manifest as the untyped dictionary it is, so a tampered export can be
  anything a JSON object can be.
\<close>

section \<open>Export\<close>

text \<open>What a JSON column of each table gives back when it is loaded.\<close>

record model_dumps =
  dump_spec :: "ExperimentSpec \<Rightarrow> dict"
  dump_usage :: "UsageRecord \<Rightarrow> dict"
  dump_request :: "VariationSessionRequest \<Rightarrow> dict"
  dump_result :: "VariationSessionResult \<Rightarrow> dict"
  dump_manifest :: "candidate_manifest \<Rightarrow> dict"
  dump_evaluation :: "EvaluationRecord \<Rightarrow> dict"
  dump_policy :: "PolicyDecision \<Rightarrow> dict"
  dump_admission :: "AdmissionDecision \<Rightarrow> dict"
  dump_review :: "ReviewDecision \<Rightarrow> dict"
  dump_tool :: "ToolInvocationRecord \<Rightarrow> dict"
  dump_model :: "ModelInvocationRecord \<Rightarrow> dict"
  dump_harness :: "HarnessInvocationRecord \<Rightarrow> dict"
  dump_case :: "ReconciliationCaseRecord \<Rightarrow> dict"

text \<open>The rows that \<open>_records\<close> tells apart by their attributes.\<close>

datatype run_row =
    Session_row VariationSessionRow
  | Candidate_row CandidateRow
  | Policy_row PolicyDecisionRow
  | Admission_row AdmissionRow
  | Tool_row ToolInvocationRow
  | Model_row ModelInvocationRow
  | Harness_row HarnessInvocationRow
  | Case_row ReconciliationCaseRow

fun row_run_id :: "run_row \<Rightarrow> string" where
  "row_run_id (Session_row r) = ses_run_id r"
| "row_run_id (Candidate_row r) = cand_run_id r"
| "row_run_id (Policy_row r) = pol_run_id r"
| "row_run_id (Admission_row r) = adm_run_id r"
| "row_run_id (Tool_row r) = tin_run_id r"
| "row_run_id (Model_row r) = min_run_id r"
| "row_run_id (Harness_row r) = inv_run_id r"
| "row_run_id (Case_row r) = rec_run_id r"

fun record_of :: "model_dumps \<Rightarrow> run_row \<Rightarrow> dict" where
  "record_of d (Tool_row r) = dict_put ''record_digest'' (JStr (tin_record_digest r)) (dump_tool d (tin_record r))"
| "record_of d (Model_row r) = dict_put ''record_digest'' (JStr (min_record_digest r)) (dump_model d (min_record r))"
| "record_of d (Harness_row r) =
     dict_put ''record_digest'' (JStr (inv_record_digest r)) (dump_harness d (inv_record r))"
| "record_of d (Case_row r) = dict_put ''record_digest'' (JStr (rec_record_digest r)) (dump_case d (rec_record r))"
| "record_of d (Policy_row r) =
     dict_put ''decision_digest'' (JStr (pol_decision_digest r)) (dump_policy d (pol_decision r))"
| "record_of d (Admission_row r) =
     dict_put ''decision_digest'' (JStr (adm_decision_digest r)) (dump_admission d (adm_decision r))"
| "record_of d (Session_row r) =
     [(''session_id'', JStr (ses_id r)), (''state'', JStr (session_value (ses_state r))),
      (''request'', JObj (dump_request d (ses_request r))),
      (''result'', case ses_result r of None \<Rightarrow> JNull | Some x \<Rightarrow> JObj (dump_result d x))]"
| "record_of d (Candidate_row r) =
     dict_put ''state'' (JStr (candidate_row_value (cand_state r)))
       (dict_put ''manifest_digest'' (JStr (cand_manifest_digest r)) (dump_manifest d (cand_manifest r)))"

definition records_of :: "model_dumps \<Rightarrow> string \<Rightarrow> run_row list \<Rightarrow> jval" where
  "records_of d rid rows = JList (map (JObj \<circ> record_of d) (filter (\<lambda>r. row_run_id r = rid) rows))"

text \<open>Evaluations have no run column: they are joined through their candidate.\<close>

definition candidate_records :: "model_dumps \<Rightarrow> string \<Rightarrow> db \<Rightarrow> jval" where
  "candidate_records d rid s =
     JList (map (\<lambda>r. JObj (dict_put ''record_digest'' (JStr (evl_record_digest r)) (dump_evaluation d (evl_record r))))
       (filter (\<lambda>r. \<exists>c\<in>set (candidates s). cand_id c = evl_candidate_id r \<and> cand_run_id c = rid) (evaluations s)))"

definition event_json :: "EventRow \<Rightarrow> jval" where
  "event_json v = JObj
     [(''event_id'', JStr (ev_id v)), (''sequence'', JInt (ev_sequence v)), (''event_type'', JStr (ev_type v)),
      (''actor_id'', JStr (ev_actor_id v)), (''payload'', ev_payload v),
      (''created_at'', JStr (isoformat (ev_created_at v)))]"

definition lineage_json :: "LineageRow \<Rightarrow> jval" where
  "lineage_json l = JObj
     [(''sequence'', JInt (lin_sequence l)), (''candidate_id'', JStr (lin_candidate_id l)),
      (''source_tree_digest'', JStr (lin_source_tree_digest l)), (''admission_id'', json_opt (lin_admission_id l)),
      (''committed_at'', JStr (isoformat (lin_committed_at l)))]"

definition review_json :: "model_dumps \<Rightarrow> db \<Rightarrow> ReviewRequestRow \<Rightarrow> jval" where
  "review_json d s q = JObj
     [(''review_id'', JStr (rvq_id q)), (''candidate_id'', JStr (rvq_candidate_id q)),
      (''action'', JStr (rvq_action q)), (''state'', JStr (review_value (rvq_state q))),
      (''approvals_required'', JInt (rvq_approvals_required q)),
      (''expires_at'', JStr (isoformat (rvq_expires_at q))),
      (''decisions'', JList (map (\<lambda>v. JObj (dump_review d (rvd_decision v)))
         (filter (\<lambda>v. rvd_review_id v = rvq_id q) (review_decisions s))))]"

definition run_manifest :: "model_dumps \<Rightarrow> RunRow \<Rightarrow> ExperimentRow \<Rightarrow> BudgetLedgerRow \<Rightarrow> db \<Rightarrow> dict" where
  "run_manifest d run experiment ledger s =
     (let rid = run_id run in
      [(''schema_version'', JInt 1),
       (''run'', JObj
          [(''run_id'', JStr rid), (''experiment_id'', JStr (run_experiment_id run)),
           (''state'', JStr (run_value (run_state run))), (''revision'', JInt (run_revision run)),
           (''event_sequence'', JInt (run_event_sequence run)), (''champion_id'', json_opt (run_champion_id run))]),
       (''experiment'', JObj
          [(''spec_digest'', JStr (exp_spec_digest experiment)), (''spec'', JObj (dump_spec d (exp_spec experiment)))]),
       (''budget'', JObj
          [(''limit'', JObj (dump_usage d (led_limit ledger))), (''used'', JObj (dump_usage d (led_used ledger))),
           (''reserved'', JObj (dump_usage d (led_reserved ledger))), (''revision'', JInt (led_revision ledger))]),
       (''events'', JList (map event_json
          (sort_key ev_sequence (filter (\<lambda>v. ev_run_id v = rid) (events s))))),
       (''lineage'', JList (map lineage_json
          (sort_key lin_sequence (filter (\<lambda>l. lin_run_id l = rid) (lineage s))))),
       (''sessions'', records_of d rid (map Session_row (sessions s))),
       (''candidates'', records_of d rid (map Candidate_row (candidates s))),
       (''evaluations'', candidate_records d rid s),
       (''policy_decisions'', records_of d rid (map Policy_row (policy_decisions s))),
       (''admissions'', records_of d rid (map Admission_row (admissions s))),
       (''tool_invocations'', records_of d rid (map Tool_row (tool_invocations s))),
       (''model_invocations'', records_of d rid (map Model_row (model_invocations s))),
       (''harness_invocations'', records_of d rid (map Harness_row (invocations s))),
       (''reconciliations'', records_of d rid (map Case_row (reconciliations s))),
       (''reviews'', JList (map (review_json d s) (filter (\<lambda>q. rvq_run_id q = rid) (review_requests s))))])"

record ProvenanceExport =
  pe_run_id :: string
  pe_manifest :: dict
  pe_manifest_digest :: string

record VerificationReport =
  vr_verified :: bool
  vr_checks :: "string list"
  vr_errors :: "string list"

definition export_run :: "env \<Rightarrow> model_dumps \<Rightarrow> string \<Rightarrow> db \<Rightarrow> err + ProvenanceExport" where
  "export_run e d rid s =
     (case get_run rid s of
        None \<Rightarrow> Inl (LookupError (''run not found: '' @ rid))
      | Some run \<Rightarrow>
        (case (get_experiment_row (run_experiment_id run) s, get_ledger rid s) of
           (Some experiment, Some ledger) \<Rightarrow>
             (let manifest = run_manifest d run experiment ledger s
              in Inr \<lparr>pe_run_id = rid, pe_manifest = manifest,
                   pe_manifest_digest = canonical_digest e (D_json (JObj manifest))\<rparr>)
         | _ \<Rightarrow> Inl (LookupError ''run envelope is incomplete'')))"

section \<open>Verification\<close>

definition get_each :: "string \<Rightarrow> jval list \<Rightarrow> err + jval list" where
  "get_each k = map_err (get_method k)"

text \<open>The loop of \<open>any(item.get("state") == "open" for item in \<dots>)\<close>, which stops at the first hit.\<close>

fun any_open :: "jval list \<Rightarrow> err + bool" where
  "any_open [] = Inr False"
| "any_open (x # xs) =
     bind_err (get_method ''state'' x) (\<lambda>v. if py_eq v (JStr ''open'') then Inr True else any_open xs)"

text \<open>Membership in a set of strings raises on an unhashable value.\<close>

fun in_str_set :: "jval \<Rightarrow> string list \<Rightarrow> err + bool" where
  "in_str_set (JStr t) xs = Inr (t \<in> set xs)"
| "in_str_set (JList _) xs = Inl (TypeError ''unhashable type'')"
| "in_str_set (JObj _) xs = Inl (TypeError ''unhashable type'')"
| "in_str_set _ xs = Inr False"

definition verify_checks :: "string list" where
  "verify_checks = [''manifest_digest'', ''event_sequence'', ''lineage_sequence'', ''champion'',
     ''terminal_reconciliation'']"

text \<open>\<open>xs != list(range(start, start + len(xs)))\<close> on values that should be integers.\<close>

definition numbered_from :: "int \<Rightarrow> jval list \<Rightarrow> bool" where
  "numbered_from start xs = list_all2 py_eq (map JInt [start..start + int (length xs) - 1]) xs"

definition error_if :: "bool \<Rightarrow> string \<Rightarrow> string list" where
  "error_if failed message = (if failed then [message] else [])"

definition champion_mismatch :: "jval \<Rightarrow> jval \<Rightarrow> jval list \<Rightarrow> err + bool" where
  "champion_mismatch run line items =
     (if \<not> truthy line then Inr True
      else bind_err (get_method ''champion_id'' run) (\<lambda>champion.
           bind_err (get_method ''candidate_id'' (last items)) (\<lambda>candidate.
           Inr (\<not> py_eq champion candidate))))"

definition open_at_end :: "jval \<Rightarrow> jval \<Rightarrow> err + bool" where
  "open_at_end run cases =
     bind_err (get_method ''state'' run) (\<lambda>state.
     bind_err (in_str_set state [''completed'', ''cancelled'', ''failed'']) (\<lambda>terminal.
     if terminal then bind_err (iter_items cases) any_open else Inr False))"

definition provenance_verify :: "env \<Rightarrow> ProvenanceExport \<Rightarrow> err + VerificationReport" where
  "provenance_verify e exported =
     (let m = pe_manifest exported;
          line = dict_get_or ''lineage'' (JList []) m;
          run = dict_get_or ''run'' (JObj []) m
      in
      bind_err (iter_items (dict_get_or ''events'' (JList []) m)) (\<lambda>events.
      bind_err (get_each ''sequence'' events) (\<lambda>event_numbers.
      bind_err (iter_items line) (\<lambda>items.
      bind_err (get_each ''sequence'' items) (\<lambda>lineage_numbers.
      bind_err (champion_mismatch run line items) (\<lambda>mismatch.
      bind_err (open_at_end run (dict_get_or ''reconciliations'' (JList []) m)) (\<lambda>unresolved.
      let errors =
        error_if (canonical_digest e (D_json (JObj m)) \<noteq> pe_manifest_digest exported) ''manifest_digest_mismatch'' @
        error_if (\<not> numbered_from 1 event_numbers) ''event_sequence_gap'' @
        error_if (\<not> numbered_from 0 lineage_numbers) ''lineage_sequence_gap'' @
        error_if mismatch ''champion_lineage_mismatch'' @
        error_if unresolved ''terminal_run_has_open_reconciliation''
      in Inr \<lparr>vr_verified = (errors = []), vr_checks = verify_checks, vr_errors = errors\<rparr>)))))))"

section \<open>An export verifies\<close>

text \<open>
  Pydantic writes the state of a case under its field name, as the string of the literal.
\<close>

fun case_value :: "case_state \<Rightarrow> string" where
  "case_value Open = ''open''"
| "case_value Resolved = ''resolved''"

definition dumps_cases :: "model_dumps \<Rightarrow> bool" where
  "dumps_cases d \<longleftrightarrow> (\<forall>c. map_of (dump_case d c) ''state'' = Some (JStr (case_value (rc_state c))))"

lemma map_of_dict_put: "map_of (dict_put k v d) k' = (if k' = k then Some v else map_of d k')"
  by (induction k v d rule: dict_put.induct) auto

lemma get_each_map:
  assumes "\<And>x. get_method k (f x) = Inr (g x)"
  shows "get_each k (map f xs) = Inr (map g xs)"
  using assms by (induction xs) (simp_all add: get_each_def)

lemma sequence_numbers:
  "get_method ''sequence'' (event_json v) = Inr (JInt (ev_sequence v))"
  "get_method ''sequence'' (lineage_json l) = Inr (JInt (lin_sequence l))"
  by (simp_all add: event_json_def lineage_json_def dict_get_or_def)

lemma py_eq_JInt_list: "list_all2 py_eq (map JInt xs) (map JInt ys) = (xs = ys)"
  by (auto simp: list_all2_conv_all_nth intro: nth_equalityI)

lemma numbered_from_JInt: "numbered_from n (map JInt xs) = (xs = [n..n + int (length xs) - 1])"
  unfolding numbered_from_def by (metis length_map py_eq_JInt_list)

lemma any_open_cases:
  assumes "dumps_cases d"
  shows "any_open (map (JObj \<circ> (record_of d \<circ> Case_row)) cs) = Inr (\<exists>c\<in>set cs. rc_state (rec_record c) = Open)"
proof (induction cs)
  case (Cons c cs)
  have "map_of (dump_case d (rec_record c)) ''state'' = Some (JStr (case_value (rc_state (rec_record c))))"
    using assms by (simp add: dumps_cases_def)
  with Cons show ?case
    by (cases "rc_state (rec_record c)") (auto simp: dict_get_or_def map_of_dict_put)
qed simp

lemma successively_counts:
  assumes "successively (backed as es) ls" and "ls \<noteq> []"
  shows "map lin_sequence ls = [lin_sequence (hd ls)..lin_sequence (hd ls) + int (length ls) - 1]"
  using assms
proof (induction ls)
  case (Cons l ls)
  show ?case
  proof (cases ls)
    case (Cons m ms)
    with Cons.prems have "lin_sequence m = lin_sequence l + 1" "successively (backed as es) ls"
      by (auto simp: backed_def)
    with Cons.IH Cons show ?thesis by (simp add: upto_rec1 [of "lin_sequence l"])
  qed simp
qed simp

lemma sorted_upto_key: "map f xs = [a..b] \<Longrightarrow> sort_key f xs = xs"
  by (rule sort_key_id_if_sorted) simp

lemma run_log_numbers:
  assumes "system_inv s" and "get_run k s = Some r"
  shows "map ev_sequence (filter (\<lambda>v. ev_run_id v = k) (events s)) = [1..run_event_sequence r]"
    and "1 \<le> run_event_sequence r"
  using assms row_get_SomeD [of run_id k "runs s" r]
  by (auto simp: system_inv_def core_inv_def log_inv_def log_ok_def events_of_def get_run_def)

lemma run_lineage_numbers:
  assumes "system_inv s" and "get_run k s = Some r"
  defines "ls \<equiv> filter (\<lambda>l. lin_run_id l = k) (lineage s)"
  shows "map lin_sequence ls = [0..int (length ls) - 1]" and "ls \<noteq> []"
    and "run_champion_id r = Some (lin_candidate_id (last ls))"
proof -
  have "dynasty (admissions s) (evaluations s) r ls"
    using assms row_get_SomeD [of run_id k "runs s" r]
    by (auto simp: system_inv_def lineage_inv_def lineage_ok_def run_lineage_def get_run_def)
  then show "map lin_sequence ls = [0..int (length ls) - 1]" "ls \<noteq> []"
    "run_champion_id r = Some (lin_candidate_id (last ls))"
    using successively_counts [of "admissions s" "evaluations s" ls] by (auto simp: dynasty_def)
qed

lemma terminal_value: "(run_value st \<in> set [''completed'', ''cancelled'', ''failed'']) = run_terminal st"
  by (cases st) simp_all

definition stale_case :: "RunRow \<Rightarrow> db \<Rightarrow> bool" where
  "stale_case r s \<longleftrightarrow> run_terminal (run_state r) \<and>
     (\<exists>c\<in>set (reconciliations s). rec_run_id c = run_id r \<and> rc_state (rec_record c) = Open)"

lemma manifest_parts:
  defines "m d r x l s \<equiv> run_manifest d r x l s"
  shows "dict_get_or ''run'' v (m d r x l s) = JObj
      [(''run_id'', JStr (run_id r)), (''experiment_id'', JStr (run_experiment_id r)),
       (''state'', JStr (run_value (run_state r))), (''revision'', JInt (run_revision r)),
       (''event_sequence'', JInt (run_event_sequence r)), (''champion_id'', json_opt (run_champion_id r))]"
    and "dict_get_or ''events'' v (m d r x l s) = JList (map event_json
      (sort_key ev_sequence (filter (\<lambda>v. ev_run_id v = run_id r) (events s))))"
    and "dict_get_or ''lineage'' v (m d r x l s) = JList (map lineage_json
      (sort_key lin_sequence (filter (\<lambda>l. lin_run_id l = run_id r) (lineage s))))"
    and "dict_get_or ''reconciliations'' v (m d r x l s) = JList (map (JObj \<circ> (record_of d \<circ> Case_row))
      (filter (\<lambda>c. rec_run_id c = run_id r) (reconciliations s)))"
  by (simp_all add: m_def run_manifest_def dict_get_or_def records_of_def filter_map comp_def Let_def)

lemma manifest_run:
  "get_method ''champion_id'' (dict_get_or ''run'' v (run_manifest d r x l s)) = Inr (json_opt (run_champion_id r))"
  "get_method ''state'' (dict_get_or ''run'' v (run_manifest d r x l s)) = Inr (JStr (run_value (run_state r)))"
  unfolding manifest_parts(1) by (simp_all add: dict_get_or_def)

lemma verify_manifest:
  assumes inv: "system_inv s" and d: "dumps_cases d" and r: "get_run k s = Some r"
  shows "provenance_verify e \<lparr>pe_run_id = k, pe_manifest = run_manifest d r x l s,
      pe_manifest_digest = canonical_digest e (D_json (JObj (run_manifest d r x l s)))\<rparr> =
    Inr \<lparr>vr_verified = (\<not> stale_case r s), vr_checks = verify_checks,
      vr_errors = error_if (stale_case r s) ''terminal_run_has_open_reconciliation''\<rparr>"
proof -
  let ?vs = "filter (\<lambda>v. ev_run_id v = run_id r) (events s)"
  let ?ls = "filter (\<lambda>l. lin_run_id l = run_id r) (lineage s)"
  have k: "run_id r = k" using r by (auto simp: get_run_def dest: row_get_SomeD)
  note vs = run_log_numbers [OF inv r, folded k]
  note ls = run_lineage_numbers [OF inv r, folded k]
  have n: "run_event_sequence r = int (length ?vs)"
    using arg_cong [OF vs(1), of length] vs(2) by simp
  have c: "get_method ''candidate_id'' (last (map lineage_json ?ls)) = Inr (JStr (lin_candidate_id (last ?ls)))"
    using ls(2) by (simp add: last_map lineage_json_def dict_get_or_def)
  have events: "numbered_from 1 (map (JInt \<circ> ev_sequence) ?vs)"
    using vs n by (simp add: numbered_from_JInt flip: map_map)
  have line: "numbered_from 0 (map (JInt \<circ> lin_sequence) ?ls)"
    using ls(1) by (simp add: numbered_from_JInt flip: map_map)
  have champion: "champion_mismatch (dict_get_or ''run'' (JObj []) (run_manifest d r x l s))
      (JList (map lineage_json ?ls)) (map lineage_json ?ls) = Inr False"
    using ls(2,3) c by (simp add: champion_mismatch_def manifest_run json_opt_def)
  have terminal: "open_at_end (dict_get_or ''run'' (JObj []) (run_manifest d r x l s))
      (dict_get_or ''reconciliations'' (JList []) (run_manifest d r x l s)) = Inr (stale_case r s)"
    using terminal_value [of "run_state r"]
    by (auto simp: open_at_end_def manifest_run manifest_parts(4) any_open_cases [OF d] stale_case_def)
  have sorted: "sort_key ev_sequence ?vs = ?vs" "sort_key lin_sequence ?ls = ?ls"
    using vs(1) ls(1) by (simp_all add: sorted_upto_key)
  show ?thesis
    using events line champion terminal
    by (simp add: provenance_verify_def Let_def manifest_parts(2,3) sorted get_each_map [OF sequence_numbers(1)]
        get_each_map [OF sequence_numbers(2)] error_if_def comp_def)
qed

text \<open>
  C31. In every state the system reaches, the export of a run with its experiment and ledger
  succeeds, and the verification of the export finds the manifest digest, the event numbers,
  the lineage numbers and the champion in order; it reports at most one error, and exactly when
  a terminal run has a reconciliation case that is still open.
\<close>

theorem export_verifies:
  assumes "reachable s" and "dumps_cases d" and "get_run k s = Some r"
    and "get_experiment_row (run_experiment_id r) s = Some x" and "get_ledger k s = Some l"
  shows "\<exists>p. export_run e d k s = Inr p \<and>
    provenance_verify e p = Inr \<lparr>vr_verified = (\<not> stale_case r s), vr_checks = verify_checks,
      vr_errors = (if stale_case r s then [''terminal_run_has_open_reconciliation''] else [])\<rparr>"
  using verify_manifest [OF reachable_inv [OF assms(1)] assms(2,3)] assms(3-5)
  by (simp add: export_run_def error_if_def Let_def)

lemma error_if_Nil: "error_if b msg = [] \<longleftrightarrow> \<not> b"
  by (simp add: error_if_def)

lemma iter_items_truthy: "iter_items v = Inr xs \<Longrightarrow> truthy v = (xs \<noteq> [])"
  by (cases v) auto

lemma numbered_from_numbers:
  "numbered_from n xs \<Longrightarrow> map as_number xs = map Some [n..n + int (length xs) - 1]"
  by (auto simp: numbered_from_def list_all2_conv_all_nth intro!: nth_equalityI)

lemma get_each_length: "get_each k xs = Inr ys \<Longrightarrow> length ys = length xs"
  unfolding get_each_def by (induction xs arbitrary: ys) (auto simp: bind_err_eq_Inr)

text \<open>
  C32. What a verified export shows, whoever made it: the digest is that of the manifest, the
  events are numbered from 1 and the lineage from 0 without gap or repeat, the lineage is not
  empty and its last candidate is the run's champion.
\<close>

theorem verified_export:
  assumes "provenance_verify e p = Inr v" and "vr_verified v"
  shows "vr_errors v = [] \<and> canonical_digest e (D_json (JObj (pe_manifest p))) = pe_manifest_digest p \<and>
    (\<exists>vs ls ns ms. iter_items (dict_get_or ''events'' (JList []) (pe_manifest p)) = Inr vs \<and>
      get_each ''sequence'' vs = Inr ns \<and> map as_number ns = map Some [1..int (length vs)] \<and>
      iter_items (dict_get_or ''lineage'' (JList []) (pe_manifest p)) = Inr ls \<and> ls \<noteq> [] \<and>
      get_each ''sequence'' ls = Inr ms \<and> map as_number ms = map Some [0..int (length ls) - 1] \<and>
      (\<exists>a b. get_method ''champion_id'' (dict_get_or ''run'' (JObj []) (pe_manifest p)) = Inr a \<and>
         get_method ''candidate_id'' (last ls) = Inr b \<and> py_eq a b))"
proof -
  let ?m = "pe_manifest p"
  from assms(1) obtain vs ns ls ms x y where parts:
    "iter_items (dict_get_or ''events'' (JList []) ?m) = Inr vs" "get_each ''sequence'' vs = Inr ns"
    "iter_items (dict_get_or ''lineage'' (JList []) ?m) = Inr ls" "get_each ''sequence'' ls = Inr ms"
    "champion_mismatch (dict_get_or ''run'' (JObj []) ?m) (dict_get_or ''lineage'' (JList []) ?m) ls = Inr x"
    "vr_errors v = error_if (canonical_digest e (D_json (JObj ?m)) \<noteq> pe_manifest_digest p)
        ''manifest_digest_mismatch'' @ error_if (\<not> numbered_from 1 ns) ''event_sequence_gap'' @
      error_if (\<not> numbered_from 0 ms) ''lineage_sequence_gap'' @ error_if x ''champion_lineage_mismatch'' @
      error_if y ''terminal_run_has_open_reconciliation''" "vr_verified v = (vr_errors v = [])"
    by (auto simp: provenance_verify_def Let_def bind_err_eq_Inr)
  with assms(2) have ok: "canonical_digest e (D_json (JObj ?m)) = pe_manifest_digest p" "numbered_from 1 ns"
    "numbered_from 0 ms" "\<not> x" by (simp_all add: error_if_Nil)
  have champion: "ls \<noteq> [] \<and> (\<exists>a b. get_method ''champion_id'' (dict_get_or ''run'' (JObj []) ?m) = Inr a \<and>
      get_method ''candidate_id'' (last ls) = Inr b \<and> py_eq a b)"
    using parts(5) ok(4) iter_items_truthy [OF parts(3)]
    by (auto simp: champion_mismatch_def bind_err_eq_Inr split: if_splits)
  show ?thesis
    using assms(2) parts ok champion numbered_from_numbers [OF ok(2)] numbered_from_numbers [OF ok(3)]
      get_each_length [OF parts(2)] get_each_length [OF parts(4)] by simp
qed

text \<open>
  Exports of one run are append-only: whatever calls the system serves in between, the
  events and the lineage of a later export start with those of the earlier one, unchanged.
\<close>

theorem exports_extend:
  assumes "reachable s" and "export_run e d k s = Inr p"
    and "export_run e' d k (run_sessions system_step cs s) = Inr p'"
  shows "\<exists>vs ws ls ms. dict_get ''events'' (pe_manifest p) = JList vs \<and>
    dict_get ''events'' (pe_manifest p') = JList (vs @ ws) \<and>
    dict_get ''lineage'' (pe_manifest p) = JList ls \<and>
    dict_get ''lineage'' (pe_manifest p') = JList (ls @ ms)"
proof -
  let ?t = "run_sessions system_step cs s"
  have events: "\<exists>vs. dict_get ''events'' (pe_manifest q) = JList (map event_json vs) \<and>
      vs = filter (\<lambda>v. ev_run_id v = k) (events u)"
    and lines: "\<exists>ls. dict_get ''lineage'' (pe_manifest q) = JList (map lineage_json ls) \<and>
      ls = filter (\<lambda>l. lin_run_id l = k) (lineage u)"
    if "reachable u" "export_run f d k u = Inr q" for u f q
  proof -
    from that(2) obtain r x l where r: "get_run k u = Some r" "pe_manifest q = run_manifest d r x l u"
      by (auto simp: export_run_def Let_def split: option.splits)
    have k: "run_id r = k" using r(1) by (auto simp: get_run_def dest: row_get_SomeD)
    note inv = reachable_inv [OF that(1)]
    show "\<exists>vs. dict_get ''events'' (pe_manifest q) = JList (map event_json vs) \<and>
        vs = filter (\<lambda>v. ev_run_id v = k) (events u)"
      using run_log_numbers(1) [OF inv r(1)] k by (simp add: r(2) manifest_parts(2) sorted_upto_key)
    show "\<exists>ls. dict_get ''lineage'' (pe_manifest q) = JList (map lineage_json ls) \<and>
        ls = filter (\<lambda>l. lin_run_id l = k) (lineage u)"
      using run_lineage_numbers(1) [OF inv r(1)] k by (simp add: r(2) manifest_parts(3) sorted_upto_key)
  qed
  have "system_le s ?t" by (rule system_history.sessions_le)
  then obtain vs ls where "events ?t = events s @ vs" "lineage ?t = lineage s @ ls"
    by (auto simp: system_le_def log_extends_def evidence_extends_def prefix_def)
  then show ?thesis
    using events [OF assms(1,2)] lines [OF assms(1,2)]
      events [OF reachable_sessions [OF assms(1)] assms(3)] lines [OF reachable_sessions [OF assms(1)] assms(3)]
    by auto
qed

section \<open>Concrete exports\<close>

definition bare_dumps :: model_dumps where
  "bare_dumps = \<lparr>dump_spec = (\<lambda>_. []), dump_usage = (\<lambda>_. []), dump_request = (\<lambda>_. []), dump_result = (\<lambda>_. []),
     dump_manifest = (\<lambda>_. []), dump_evaluation = (\<lambda>_. []), dump_policy = (\<lambda>_. []), dump_admission = (\<lambda>_. []),
     dump_review = (\<lambda>_. []), dump_tool = (\<lambda>_. []), dump_model = (\<lambda>_. []), dump_harness = (\<lambda>_. []),
     dump_case = (\<lambda>c. [(''state'', JStr (case_value (rc_state c)))])\<rparr>"

lemma bare_dumps_cases: "dumps_cases bare_dumps"
  by (simp add: dumps_cases_def bare_dumps_def)

definition exported_world :: db where
  "exported_world = run_sessions system_step demo_campaign empty_db"

text \<open>A claimed activity is lost, and the operator fails the run without resolving its case.\<close>

definition abandoned_world :: db where
  "abandoned_world = run_sessions system_step (take 3 demo_campaign @
     [(call_at ''i'' 9, Activity_call (Enqueue ''r'' ''k'' ''in'' ''op'' None None)),
      (call_at ''j'' 10, Activity_call (Claim ''w1'' 30 None)),
      (call_at ''k'' 11, Activity_call (Mark_reconciliation ''i'' ''op'' [(''type'', ''lost'')] None)),
      (call_at ''l'' 12, Run_call (Transition ''r'' R_FAILED ''op'' None None None None))]) empty_db"

definition export_facts :: "db \<Rightarrow> (string \<times> bool) option \<times> bool \<times> bool" where
  "export_facts w = (map_option (\<lambda>r. (run_experiment_id r, stale_case r w)) (get_run ''r'' w),
     get_experiment_row ''x'' w \<noteq> None, get_ledger ''r'' w \<noteq> None)"

lemma world_reachable: "reachable exported_world" "reachable abandoned_world"
  unfolding exported_world_def abandoned_world_def by (intro reachable_sessions reachable.start)+

theorem export_verifies_witness:
  "\<exists>p q. export_run (call_at ''x'' 20) bare_dumps ''r'' exported_world = Inr p \<and>
     provenance_verify (call_at ''x'' 20) p = Inr \<lparr>vr_verified = True, vr_checks = verify_checks, vr_errors = []\<rparr> \<and>
     export_run (call_at ''x'' 20) bare_dumps ''r'' abandoned_world = Inr q \<and>
     provenance_verify (call_at ''x'' 20) q = Inr \<lparr>vr_verified = False, vr_checks = verify_checks,
       vr_errors = [''terminal_run_has_open_reconciliation'']\<rparr>"
proof -
  have export: "\<exists>p. export_run (call_at ''x'' 20) bare_dumps ''r'' w = Inr p \<and>
      provenance_verify (call_at ''x'' 20) p = Inr \<lparr>vr_verified = (\<not> b), vr_checks = verify_checks,
        vr_errors = (if b then [''terminal_run_has_open_reconciliation''] else [])\<rparr>"
    if w: "reachable w" and facts: "export_facts w = (Some (''x'', b), True, True)" for w b
  proof -
    from facts obtain row where "get_run ''r'' w = Some row" "run_experiment_id row = ''x''" "stale_case row w = b"
      "get_experiment_row ''x'' w \<noteq> None" "get_ledger ''r'' w \<noteq> None" by (auto simp: export_facts_def)
    with export_verifies [OF w bare_dumps_cases, of "''r''" row _ _ "call_at ''x'' 20"] show ?thesis by fastforce
  qed
  have "export_facts exported_world = (Some (''x'', False), True, True)"
    and "export_facts abandoned_world = (Some (''x'', True), True, True)" by code_simp+
  from export [OF world_reachable(1) this(1)] export [OF world_reachable(2) this(2)] show ?thesis by auto
qed

definition first_world :: db where
  "first_world = run_sessions system_step (take 2 demo_campaign) empty_db"

definition checked_export :: "env \<Rightarrow> db \<Rightarrow> bool option" where
  "checked_export e w = (case export_run e bare_dumps ''r'' w of Inl _ \<Rightarrow> None
     | Inr p \<Rightarrow> (case provenance_verify e p of Inl _ \<Rightarrow> None | Inr v \<Rightarrow> Some (vr_verified v)))"

lemma checked_export_Some:
  assumes "checked_export e w = Some b"
  obtains p v where "export_run e bare_dumps ''r'' w = Inr p" "provenance_verify e p = Inr v" "vr_verified v = b"
  using assms by (auto simp: checked_export_def split: sum.splits)

theorem verified_export_witness:
  "\<exists>p v. export_run (call_at ''x'' 20) bare_dumps ''r'' first_world = Inr p \<and>
     provenance_verify (call_at ''x'' 20) p = Inr v \<and> vr_verified v \<and> vr_errors v = []"
proof -
  have "checked_export (call_at ''x'' 20) first_world = Some True" by code_simp
  then obtain p v where p: "export_run (call_at ''x'' 20) bare_dumps ''r'' first_world = Inr p"
    "provenance_verify (call_at ''x'' 20) p = Inr v" "vr_verified v = True" by (rule checked_export_Some)
  moreover have "vr_errors v = []" using verified_export [OF p(2)] p(3) by simp
  ultimately show ?thesis by (intro exI conjI) simp_all
qed

theorem exports_extend_witness:
  "\<exists>p p' vs ws. export_run (call_at ''x'' 20) bare_dumps ''r'' first_world = Inr p \<and>
     export_run (call_at ''x'' 20) bare_dumps ''r'' (run_sessions system_step [demo_campaign ! 2] first_world) = Inr p' \<and>
     dict_get ''events'' (pe_manifest p) = JList vs \<and> dict_get ''events'' (pe_manifest p') = JList (vs @ ws)"
proof -
  let ?e = "call_at ''x'' 20"
  have "checked_export ?e first_world = Some True" by code_simp
  then obtain p where p: "export_run ?e bare_dumps ''r'' first_world = Inr p" by (rule checked_export_Some)
  have "checked_export ?e (run_sessions system_step [demo_campaign ! 2] first_world) = Some True" by code_simp
  then obtain p' where p': "export_run ?e bare_dumps ''r'' (run_sessions system_step [demo_campaign ! 2] first_world) = Inr p'"
    by (rule checked_export_Some)
  have "reachable first_world" unfolding first_world_def by (intro reachable_sessions reachable.start)
  from exports_extend [OF this p p'] p p' show ?thesis by auto
qed

text \<open>
  The run service moves a run with an open case to a terminal state, after which every export
  of the run fails its verification for good: the case can no longer be resolved.
\<close>

definition unresolvable :: "db \<Rightarrow> bool" where
  "unresolvable w \<longleftrightarrow>
     (case get_run ''r'' w of None \<Rightarrow> False | Some r \<Rightarrow> stale_case r w) \<and>
     list_all (\<lambda>res. case resolve_reconciliation (call_at ''m'' 13) ''k'' res ''n'' ''op'' (Some ''d'') w of
         Inl (InvalidTransitionError _) \<Rightarrow> True | _ \<Rightarrow> False) [''retry'', ''accept_result'', ''cancel'', ''fail'']"

theorem terminal_run_keeps_open_case: "unresolvable abandoned_world"
  by code_simp

end
