(* ===== verification/Scheduler.thy ===== *)
theory Scheduler
  imports ActivitySvc
begin

text \<open>
  The single-host scheduler (application/scheduler.py): a worker claims an activity, asks
  the handler what is already known about it, executes it while a heartbeat task renews the
  lease, and completes it or hands it over to reconciliation. Handlers are code outside the
  scheduler and enter as a record of functions over the database and whatever else they work
  on (object files, spools, a runtime); an execution is the list of what happens to this world
  between the heartbeats (the handler's own calls and those of other processes) and the step
  that ends it.
\<close>

section \<open>The database in its world\<close>

type_synonym 'w world = "db \<times> 'w"

text \<open>One session block of a service, with the rest of the world left alone.\<close>

definition on_db :: "(db \<Rightarrow> err + 'a \<times> db) \<Rightarrow> 'w world \<Rightarrow> (err + 'a) \<times> 'w world" where
  "on_db m st = (case in_session m (fst st) of (r, s) \<Rightarrow> (r, s, snd st))"

section \<open>Handlers\<close>

record ActivityResult =
  result_digest :: string

datatype RecoveryDisposition = DURABLE_RESULT | NOT_STARTED | RESUMABLE | AMBIGUOUS

datatype FailureDisposition = RETRY | RECONCILE

record ActivityRecovery =
  disposition :: RecoveryDisposition
  recovered :: "ActivityResult option"

definition mk_recovery :: "RecoveryDisposition \<Rightarrow> ActivityResult option \<Rightarrow> err + ActivityRecovery" where
  "mk_recovery d r =
     (if (d = DURABLE_RESULT) \<noteq> (r \<noteq> None)
      then Inl (ValueError ''only durable-result recovery carries a result'')
      else Inr \<lparr>disposition = d, recovered = r\<rparr>)"

record 'w execution =
  beats :: "(('w world \<Rightarrow> 'w world) \<times> env) list"
  finish :: "'w world \<Rightarrow> (err + ActivityResult) \<times> 'w world"

datatype 'w execute_method =
    With_epoch "ActivityRow \<Rightarrow> int \<Rightarrow> 'w execution"
  | Without_epoch "ActivityRow \<Rightarrow> 'w execution"

text \<open>The optional methods are the ones the scheduler looks up with \<open>getattr\<close>.\<close>

record 'w ActivityHandler =
  recover_method :: "(ActivityRow \<Rightarrow> 'w world \<Rightarrow> (err + ActivityRecovery) \<times> 'w world) option"
  find_durable_result :: "(ActivityRow \<Rightarrow> 'w world \<Rightarrow> (err + ActivityResult option) \<times> 'w world) option"
  execute :: "'w execute_method"
  classify_method :: "(ActivityRow \<Rightarrow> err \<Rightarrow> 'w world \<Rightarrow> FailureDisposition \<times> 'w world) option"
  safely_retryable :: bool

record 'w Scheduler =
  worker_id :: string
  lease_secs :: int
  handlers :: "string \<rightharpoonup> 'w ActivityHandler"

definition mk_scheduler :: "string \<Rightarrow> int \<Rightarrow> err + 'w Scheduler" where
  "mk_scheduler worker lease_seconds =
     (if lease_seconds \<le> 0 then Inl (ValueError ''lease_seconds must be positive'')
      else Inr \<lparr>worker_id = worker, lease_secs = lease_seconds, handlers = Map.empty\<rparr>)"

definition register :: "string \<Rightarrow> 'w ActivityHandler \<Rightarrow> 'w Scheduler \<Rightarrow> err + 'w Scheduler" where
  "register activity_kind handler w =
     (if activity_kind = [] \<or> CHR '':'' \<in> set activity_kind
      then Inl (ValueError ''activity kind must be a non-empty prefix'')
      else Inr (w\<lparr>handlers := (handlers w)(activity_kind \<mapsto> handler)\<rparr>))"

section \<open>One turn of the worker\<close>

definition recover :: "'w ActivityHandler \<Rightarrow> ActivityRow \<Rightarrow> 'w world \<Rightarrow> (err + ActivityRecovery) \<times> 'w world" where
  "recover handler activity s =
     (case recover_method handler of
        Some f \<Rightarrow> f activity s
      | None \<Rightarrow>
          (case find_durable_result handler of
             None \<Rightarrow> (mk_recovery AMBIGUOUS None, s)
           | Some legacy \<Rightarrow>
               (case legacy activity s of
                  (Inl x, s) \<Rightarrow> (Inl x, s)
                | (Inr r, s) \<Rightarrow>
                    (mk_recovery (if r \<noteq> None then DURABLE_RESULT else NOT_STARTED) r, s))))"

text \<open>
  The heartbeat task: it renews the lease at every beat and ends at the first failure,
  whatever the exception; the work of the handler goes on.
\<close>

fun heartbeats ::
  "'w Scheduler \<Rightarrow> string \<Rightarrow> int \<Rightarrow> (('w world \<Rightarrow> 'w world) \<times> env) list \<Rightarrow> 'w world \<Rightarrow> 'w world" where
  "heartbeats w aid lease_epoch [] s = s"
| "heartbeats w aid lease_epoch ((meanwhile, e) # rest) s =
     (case on_db (heartbeat e aid (worker_id w) lease_epoch (lease_secs w) None) (meanwhile s) of
        (Inl _, s) \<Rightarrow> fold fst rest s
      | (Inr _, s) \<Rightarrow> heartbeats w aid lease_epoch rest s)"

definition execution_of :: "'w ActivityHandler \<Rightarrow> ActivityRow \<Rightarrow> int \<Rightarrow> 'w execution" where
  "execution_of handler activity lease_epoch =
     (case execute handler of With_epoch f \<Rightarrow> f activity lease_epoch | Without_epoch f \<Rightarrow> f activity)"

definition run_execution ::
  "'w Scheduler \<Rightarrow> 'w ActivityHandler \<Rightarrow> ActivityRow \<Rightarrow> int \<Rightarrow> 'w world \<Rightarrow>
     (err + ActivityResult) \<times> 'w world" where
  "run_execution w handler activity lease_epoch s =
     (let x = execution_of handler activity lease_epoch
      in finish x (heartbeats w (act_id activity) lease_epoch (beats x) s))"

definition classify_failure ::
  "'w ActivityHandler \<Rightarrow> ActivityRow \<Rightarrow> err \<Rightarrow> 'w world \<Rightarrow> FailureDisposition \<times> 'w world" where
  "classify_failure handler activity error s =
     (case classify_method handler of
        Some f \<Rightarrow> f activity error s
      | None \<Rightarrow> (if safely_retryable handler then RETRY else RECONCILE, s))"

fun exception_name :: "err \<Rightarrow> string" where
  "exception_name (LookupError _) = ''LookupError''"
| "exception_name (NotFoundError _) = ''NotFoundError''"
| "exception_name (ValueError _) = ''ValueError''"
| "exception_name (TypeError _) = ''TypeError''"
| "exception_name (KeyError _) = ''KeyError''"
| "exception_name (IntegrityError _) = ''IntegrityError''"
| "exception_name (InvalidTransitionError _) = ''InvalidTransitionError''"
| "exception_name (BudgetExceededError _) = ''BudgetExceededError''"
| "exception_name (ReservationConflictError _) = ''ReservationConflictError''"
| "exception_name (RevisionConflictError _) = ''RevisionConflictError''"
| "exception_name (DuplicateExperimentError _) = ''DuplicateExperimentError''"
| "exception_name (ActivityConflictError _) = ''ActivityConflictError''"
| "exception_name (SessionConflictError _) = ''SessionConflictError''"
| "exception_name (RuntimeConflictError _) = ''RuntimeConflictError''"
| "exception_name (TerminalBudgetConflictError _) = ''TerminalBudgetConflictError''"
| "exception_name (EvidenceConflictError _) = ''EvidenceConflictError''"
| "exception_name (InvalidAdmissionError _) = ''InvalidAdmissionError''"
| "exception_name (ReviewAuthorizationError _) = ''ReviewAuthorizationError''"
| "exception_name (ReviewConflictError _) = ''ReviewConflictError''"
| "exception_name (ComparisonInputError _) = ''ComparisonInputError''"
| "exception_name (ArtifactMetadataConflict _) = ''ArtifactMetadataConflict''"
| "exception_name (ArtifactTooLargeError _) = ''ArtifactTooLargeError''"
| "exception_name (ArtifactIntegrityError _) = ''ArtifactIntegrityError''"
| "exception_name (OSError _) = ''OSError''"
| "exception_name (UnsafeWorkspaceError _) = ''UnsafeWorkspaceError''"
| "exception_name (CanonicalizationError _) = ''CanonicalizationError''"
| "exception_name (StructuredSchemaError _) = ''StructuredSchemaError''"
| "exception_name (PluginCompatibilityError _) = ''PluginCompatibilityError''"
| "exception_name (InvalidCapabilityToken _) = ''InvalidCapabilityToken''"
| "exception_name (InvocationConflictError _) = ''InvocationConflictError''"
| "exception_name (AttributeError _) = ''AttributeError''"
| "exception_name (CampaignRuntimeError _) = ''CampaignRuntimeError''"
| "exception_name (CampaignAuthorityPathError _) = ''CampaignAuthorityPathError''"
| "exception_name (PromotionJournalError _) = ''PromotionJournalError''"
| "exception_name (PromotionLeaseConflictError _) = ''PromotionLeaseConflictError''"
| "exception_name (PromotionRecordConflictError _) = ''PromotionRecordConflictError''"
| "exception_name (IntegrationPromotionPreconditionError _) = ''IntegrationPromotionPreconditionError''"
| "exception_name (RuntimeError _) = ''RuntimeError''"
| "exception_name (FileExistsError _) = ''FileExistsError''"
| "exception_name (FileNotFoundError _) = ''FileNotFoundError''"
| "exception_name (PromotionStaleBaseError _) = ''PromotionStaleBaseError''"
| "exception_name (PromotionProvenanceError _) = ''PromotionProvenanceError''"
| "exception_name (PromotionEvidenceError _) = ''PromotionEvidenceError''"
| "exception_name (InjectedWorkerCrash _) = ''InjectedWorkerCrash''"
| "exception_name (HandlerError n) = n"

definition park ::
  "env \<Rightarrow> 'w Scheduler \<Rightarrow> string \<Rightarrow> int \<Rightarrow> (string \<times> string) list \<Rightarrow> 'w world \<Rightarrow>
     (err + bool) \<times> 'w world" where
  "park e w aid lease_epoch error s =
     (case on_db (mark_reconciliation_required e aid (worker_id w) error (Some lease_epoch)) s of
        (Inl x, s) \<Rightarrow> (Inl x, s)
      | (Inr _, s) \<Rightarrow> (Inr True, s))"

definition activity_kind :: "ActivityRow \<Rightarrow> string" where
  "activity_kind activity = takeWhile (\<lambda>c. c \<noteq> CHR '':'') (act_key activity)"

text \<open>From the recovery of the handler to the end of its work.\<close>

definition attempt ::
  "'w Scheduler \<Rightarrow> 'w ActivityHandler \<Rightarrow> ActivityRow \<Rightarrow> ActivityRecovery \<Rightarrow> 'w world \<Rightarrow>
     (err + ActivityResult) \<times> 'w world" where
  "attempt w handler activity recovery s =
     (case recovered recovery of
        Some r \<Rightarrow> (Inr r, s)
      | None \<Rightarrow> run_execution w handler activity (act_lease_epoch activity) s)"

definition serve ::
  "env \<Rightarrow> 'w Scheduler \<Rightarrow> bool \<Rightarrow> 'w ActivityHandler \<Rightarrow> ActivityRow \<Rightarrow> 'w world \<Rightarrow>
     (err + bool) \<times> 'w world" where
  "serve e w crash_after_external_result handler activity s =
     (case recover handler activity s of
        (Inl x, s) \<Rightarrow> (Inl x, s)
      | (Inr recovery, s) \<Rightarrow>
          if disposition recovery = AMBIGUOUS
          then park e w (act_id activity) (act_lease_epoch activity)
            [(''reason'', ''ambiguous_external_state'')] s
          else
            (case attempt w handler activity recovery s of
               (Inl x, s) \<Rightarrow>
                 (case classify_failure handler activity x s of
                    (RECONCILE, s) \<Rightarrow>
                      (case park e w (act_id activity) (act_lease_epoch activity)
                         [(''error_type'', exception_name x), (''reason'', ''uncertain_external_failure'')] s of
                         (Inl y, s) \<Rightarrow> (Inl y, s) | (Inr _, s) \<Rightarrow> (Inl x, s))
                  | (RETRY, s) \<Rightarrow> (Inl x, s))
             | (Inr r, s) \<Rightarrow>
                 if crash_after_external_result
                 then (Inl (InjectedWorkerCrash
                   ''injected after external completion before journal commit''), s)
                 else
                   (case on_db (activity_complete e (act_id activity) (worker_id w)
                       (act_lease_epoch activity) (result_digest r)) s of
                      (Inl x, s) \<Rightarrow> (Inl x, s) | (Inr _, s) \<Rightarrow> (Inr True, s))))"

text \<open>The two environments are the clock and identifiers at the claim and at the end.\<close>

definition run_once ::
  "env \<Rightarrow> env \<Rightarrow> 'w Scheduler \<Rightarrow> bool \<Rightarrow> 'w world \<Rightarrow> (err + bool) \<times> 'w world" where
  "run_once e e' w crash_after_external_result s =
     (case on_db (claim_next e (worker_id w) (lease_secs w) None) s of
        (Inl x, s) \<Rightarrow> (Inl x, s)
      | (Inr None, s) \<Rightarrow> (Inr False, s)
      | (Inr (Some activity), s) \<Rightarrow>
          (case handlers w (activity_kind activity) of
             None \<Rightarrow> park e' w (act_id activity) (act_lease_epoch activity)
               [(''activity_kind'', activity_kind activity), (''reason'', ''handler_not_registered'')] s
           | Some handler \<Rightarrow> serve e' w crash_after_external_result handler activity s))"

section \<open>What a turn achieves\<close>

lemma on_db_Inr: "on_db m st = (Inr x, st') \<longleftrightarrow> (\<exists>s'. m (fst st) = Inr (x, s') \<and> st' = (s', snd st))"
  by (auto simp: on_db_def in_session_def split: sum.splits prod.splits)

lemma on_db_Inl: "on_db m st = (Inl x, st') \<longleftrightarrow> m (fst st) = Inl x \<and> st' = st"
  by (auto simp: on_db_def in_session_def split: sum.splits prod.splits)

lemma on_db_simps [simp]:
  "m (fst st) = Inr (x, s') \<Longrightarrow> on_db m st = (Inr x, s', snd st)"
  "m (fst st) = Inl y \<Longrightarrow> on_db m st = (Inl y, st)"
  by (simp_all add: on_db_Inr on_db_Inl)

lemma mark_reconciliation_parks:
  assumes "mark_reconciliation_required e aid actor error epoch s = Inr (u, s')"
  shows "\<exists>a. get_activity aid s = Some a \<and> get_activity aid s' = Some (park_row e error a)"
  using assms
proof (cases rule: mark_reconciliation_Inr)
  case (1 a run rec t)
  have "activities t = activities (set_activity aid (park_row e error) s)"
    using 1(7) by (auto simp: add_reconciliation_Inr set_defs)
  then have "activities s' = row_set act_id aid (park_row e error) (activities s)"
    using append_run_event_activities [OF 1(8)] by (simp add: opt_write_frame set_defs)
  then show ?thesis
    using 1(1) activity_table.get_key [OF 1(1)]
    by (auto simp: get_activity_def row_get_row_set park_row_def)
qed

lemma park_True:
  assumes "park e w aid epoch error s = (Inr b, s')"
  shows "\<exists>row. get_activity aid (fst s') = Some row \<and> act_state row = Act_reconciliation_required \<and>
    act_lease_owner row = None"
  using assms
  by (auto simp: park_def on_db_Inr on_db_Inl park_row_def split: sum.splits prod.splits
      dest!: mark_reconciliation_parks)

lemma activity_complete_row:
  assumes "activity_complete e aid worker epoch result s = Inr (u, s')"
  shows "\<exists>row. get_activity aid s' = Some row \<and> act_state row = Act_completed \<and>
    act_result_digest row = Some result"
  using assms
proof (cases rule: activity_complete_Inr)
  case (finish a run)
  then show ?thesis
    using append_run_event_activities [OF finish(6)]
    by (auto simp: get_activity_def set_defs row_get_row_set completed_row_def)
qed auto

text \<open>The row that a turn that served an activity leaves: parked, or completed with the result.\<close>

definition served ::
  "'w Scheduler \<Rightarrow> ActivityRow \<Rightarrow> 'w world \<Rightarrow> ActivityRow \<Rightarrow> bool" where
  "served w a s row \<longleftrightarrow>
     act_state row = Act_reconciliation_required \<and> act_lease_owner row = None \<or>
     (\<exists>h recovery t r u. handlers w (activity_kind a) = Some h \<and>
        recover h a s = (Inr recovery, t) \<and> disposition recovery \<noteq> AMBIGUOUS \<and>
        attempt w h a recovery t = (Inr r, u) \<and>
        act_state row = Act_completed \<and> act_result_digest row = Some (result_digest r))"

lemma serve_Inr:
  assumes "serve e w crash h a s = (Inr b, s')" and "handlers w (activity_kind a) = Some h"
  shows "b \<and> (\<exists>row. get_activity (act_id a) (fst s') = Some row \<and> served w a s row)"
proof -
  obtain recovery t where rec: "recover h a s = (Inr recovery, t)"
    using assms(1) by (auto simp: serve_def split: prod.splits sum.splits)
  show ?thesis
  proof (cases "disposition recovery = AMBIGUOUS")
    case True
    then have parked: "park e w (act_id a) (act_lease_epoch a)
      [(''reason'', ''ambiguous_external_state'')] t = (Inr b, s')"
      using assms(1) rec by (simp add: serve_def)
    then have b using assms(1) by (auto simp: park_def split: prod.splits sum.splits)
    with park_True [OF parked] show ?thesis by (auto simp: served_def)
  next
    case False
    then obtain r u where work: "attempt w h a recovery t = (Inr r, u)"
      and fin: "activity_complete e (act_id a) (worker_id w) (act_lease_epoch a) (result_digest r) (fst u) =
        Inr ((), fst s')" and b
      using assms(1) rec
      by (auto simp: serve_def on_db_Inr on_db_Inl split: prod.splits sum.splits if_splits FailureDisposition.splits)
    have "served w a s row" if "act_state row = Act_completed"
      "act_result_digest row = Some (result_digest r)" for row
      using that rec False work assms(2) unfolding served_def by blast
    with activity_complete_row [OF fin] \<open>b\<close> show ?thesis by blast
  qed
qed

lemma run_once_returns:
  assumes "run_once e e' w crash s = (Inr found, s')"
  shows "(\<not> found \<longrightarrow> s' = s \<and> next_activity (now e) (fst s) = None) \<and>
    (found \<longrightarrow> (\<exists>a t row. claim_next e (worker_id w) (lease_secs w) None (fst s) = Inr (Some a, t) \<and>
       get_activity (act_id a) (fst s') = Some row \<and> served w a (t, snd s) row))"
proof (cases "claim_next e (worker_id w) (lease_secs w) None (fst s)")
  case (Inr p)
  obtain x t where p: "p = (x, t)" by (cases p)
  show ?thesis
  proof (cases x)
    case None
    then have "\<not> found" "s' = (t, snd s)" using assms Inr p by (auto simp: run_once_def)
    then show ?thesis using Inr p None by (auto elim!: claim_next_Inr simp: prod_eq_iff)
  next
    case (Some a)
    show ?thesis
    proof (cases "handlers w (activity_kind a)")
      case None
      then have parked: "park e' w (act_id a) (act_lease_epoch a)
        [(''activity_kind'', activity_kind a), (''reason'', ''handler_not_registered'')] (t, snd s) = (Inr found, s')"
        using assms Inr p Some by (simp add: run_once_def)
      then have found by (auto simp: park_def split: prod.splits sum.splits)
      with park_True [OF parked] Inr p Some show ?thesis by (auto simp: served_def)
    next
      case (Some h)
      then have "serve e' w crash h a (t, snd s) = (Inr found, s')"
        using assms Inr p \<open>x = Some a\<close> by (simp add: run_once_def)
      with serve_Inr [OF this Some] Inr p \<open>x = Some a\<close> show ?thesis by auto
    qed
  qed
qed (use assms in \<open>simp add: run_once_def\<close>)

text \<open>
  C27. A turn of the worker that returns: \<open>False\<close> only when there was nothing to claim, and
  then nothing changed; \<open>True\<close> when it claimed an activity that is now either parked for
  reconciliation without a lease, or completed with exactly the digest that the handler
  recovered or produced (never when the recovery was ambiguous).
\<close>

theorem run_once_outcomes:
  assumes "run_once e e' w crash s = (Inr found, s')"
  shows "(\<not> found \<longrightarrow> s' = s \<and> next_activity (now e) (fst s) = None) \<and>
    (found \<longrightarrow> (\<exists>a t row. claim_next e (worker_id w) (lease_secs w) None (fst s) = Inr (Some a, t) \<and>
       get_activity (act_id a) (fst s') = Some row \<and> served w a (t, snd s) row))"
  by (rule run_once_returns [OF assms])

text \<open>
  A worker that lost its lease while the handler ran cannot complete: when the activity
  has another epoch after the execution and is not completed, the turn raises the conflict
  and leaves the database as the execution left it.
\<close>

theorem lost_lease_refused:
  assumes "claim_next e (worker_id w) (lease_secs w) None (fst s) = Inr (Some a, t)"
    and "handlers w (activity_kind a) = Some h" and "recover h a (t, snd s) = (Inr recovery, u)"
    and "disposition recovery \<noteq> AMBIGUOUS" and "attempt w h a recovery u = (Inr r, v)"
    and "get_activity (act_id a) (fst v) = Some row" and "act_lease_epoch row \<noteq> act_lease_epoch a"
    and "act_state row \<noteq> Act_completed"
  shows "run_once e e' w False s =
    (Inl (ActivityConflictError ''worker does not hold the activity lease''), v)"
  using assms by (simp add: run_once_def serve_def activity_complete_def)

text \<open>
  An activity whose result is already durable is not executed again: when the handler's
  recovery carries a result, a turn behaves the same whatever the handler's execute method
  would do.
\<close>

theorem durable_result_not_reexecuted:
  assumes "claim_next e (worker_id w) (lease_secs w) None (fst s) = Inr (Some a, t)"
    and "handlers w (activity_kind a) = Some h" and "recover h a (t, snd s) = (Inr recovery, u)"
    and "recovered recovery \<noteq> None"
  shows "run_once e e' (w\<lparr>handlers := (handlers w)(activity_kind a \<mapsto> h\<lparr>execute := x\<rparr>)\<rparr>) crash s =
    run_once e e' w crash s"
proof -
  have "recover (h\<lparr>execute := x\<rparr>) a (t, snd s) = recover h a (t, snd s)" by (simp add: recover_def cong: option.case_cong)
  moreover from assms(4) obtain r where "recovered recovery = Some r" by auto
  then have "attempt w' h' a recovery u = (Inr r, u)" for w' h' by (simp add: attempt_def)
  ultimately show ?thesis
    using assms(1-3) by (simp add: run_once_def serve_def park_def)
qed

section \<open>Witnesses\<close>

definition quick_work :: "string \<Rightarrow> unit execution" where
  "quick_work out = \<lparr>beats = [], finish = (\<lambda>s. (Inr \<lparr>result_digest = out\<rparr>, s))\<rparr>"

definition fresh_handler :: "unit execution \<Rightarrow> unit ActivityHandler" where
  "fresh_handler x = \<lparr>recover_method = Some (\<lambda>a s. (mk_recovery NOT_STARTED None, s)),
     find_durable_result = None, execute = Without_epoch (\<lambda>a. x), classify_method = None,
     safely_retryable = False\<rparr>"

definition durable_handler :: "unit ActivityHandler" where
  "durable_handler = \<lparr>recover_method = None,
     find_durable_result = Some (\<lambda>a s. (Inr (Some \<lparr>result_digest = ''known''\<rparr>), s)),
     execute = With_epoch (\<lambda>a n. quick_work ''new''), classify_method = None, safely_retryable = True\<rparr>"

definition demo_worker :: "string \<Rightarrow> unit ActivityHandler \<Rightarrow> unit Scheduler" where
  "demo_worker name h = \<lparr>worker_id = name, lease_secs = 30, handlers = [''k'' \<mapsto> h]\<rparr>"

definition demo_turn :: "(err + bool) \<times> unit world" where
  "demo_turn = run_once (call_at ''b'' 2) (call_at ''c'' 3) (demo_worker ''w1'' (fresh_handler (quick_work ''out'')))
     False (demo_queued, ())"

lemma demo_kind: "activity_kind demo_claimed_row = ''k''"
  by code_simp

lemma demo_turn_result: "fst demo_turn = Inr True"
  by code_simp

theorem run_once_outcomes_witness:
  "\<exists>a t row. claim_next (call_at ''b'' 2) ''w1'' 30 None demo_queued = Inr (Some a, t) \<and>
     get_activity (act_id a) (fst (snd demo_turn)) = Some row"
proof -
  have "run_once (call_at ''b'' 2) (call_at ''c'' 3) (demo_worker ''w1'' (fresh_handler (quick_work ''out'')))
      False (demo_queued, ()) = (Inr True, snd demo_turn)"
    using demo_turn_result by (simp add: demo_turn_def prod_eq_iff)
  from run_once_outcomes [OF this] show ?thesis by (auto simp: demo_worker_def)
qed

text \<open>
  The handler of the first worker takes 40 seconds; the lease is 30 seconds and is renewed
  every 10. Meanwhile, at 40 seconds, a second worker takes a turn.
\<close>

definition slow_work :: "(unit world \<Rightarrow> unit world) \<Rightarrow> (string \<Rightarrow> int \<Rightarrow> env) \<Rightarrow> unit execution" where
  "slow_work rival clock = \<lparr>beats = [(id, clock ''h'' 12), (id, clock ''i'' 22), (id, clock ''j'' 32)],
     finish = (\<lambda>s. (Inr \<lparr>result_digest = ''slow''\<rparr>, rival s))\<rparr>"

definition rival_turn :: "(string \<Rightarrow> int \<Rightarrow> env) \<Rightarrow> unit world \<Rightarrow> (err + bool) \<times> unit world" where
  "rival_turn clock = run_once (clock ''r'' 40) (clock ''t'' 41)
     (demo_worker ''w2'' (fresh_handler (quick_work ''fast''))) False"

definition slow_turn :: "(string \<Rightarrow> int \<Rightarrow> env) \<Rightarrow> (err + bool) \<times> unit world" where
  "slow_turn clock = run_once (clock ''b'' 2) (clock ''c'' 42)
     (demo_worker ''w1'' (fresh_handler (slow_work (\<lambda>s. snd (rival_turn clock s)) clock))) False (demo_queued, ())"

definition zoned_at :: "string \<Rightarrow> int \<Rightarrow> env" where
  "zoned_at tag t = (call_at tag t)\<lparr>date_column := (\<lambda>d. d)\<rparr>"

text \<open>
  On a store whose date columns drop the time zone, a handler that runs longer than the
  lease is executed twice although its worker beats three times within the lease: every beat
  fails, the lease runs out, the second worker executes and completes the activity as the
  second attempt, and the first worker's result is refused. With a column that keeps the
  zone the same schedule ends with the first worker's result after one attempt.
\<close>

theorem slow_handler_runs_twice:
  "fst (slow_turn call_at) = Inl (ActivityConflictError ''activity completed with another result'') \<and>
   map (\<lambda>a. (act_attempt_count a, act_result_digest a)) (activities (fst (snd (slow_turn call_at)))) =
     [(2, Some ''fast'')] \<and>
   fst (slow_turn zoned_at) = Inr True \<and>
   map (\<lambda>a. (act_attempt_count a, act_result_digest a)) (activities (fst (snd (slow_turn zoned_at)))) =
     [(1, Some ''slow'')]"
  by code_simp

text \<open>A worker that loses its lease to a rival that has not finished when it completes.\<close>

definition robbed_work :: "unit execution" where
  "robbed_work = \<lparr>beats = [], finish = (\<lambda>s. (Inr \<lparr>result_digest = ''late''\<rparr>,
     snd (on_db (claim_next (call_at ''r'' 40) ''w2'' 30 None) s)))\<rparr>"

theorem lost_lease_refused_witness:
  "fst (run_once (call_at ''b'' 2) (call_at ''c'' 41) (demo_worker ''w1'' (fresh_handler robbed_work)) False
     (demo_queued, ())) = Inl (ActivityConflictError ''worker does not hold the activity lease'')"
proof -
  let ?w = "demo_worker ''w1'' (fresh_handler robbed_work)"
  let ?v = "snd (on_db (claim_next (call_at ''r'' 40) ''w2'' 30 None) (demo_claimed, ()))"
  have claim: "claim_next (call_at ''b'' 2) (worker_id ?w) (lease_secs ?w) None (fst (demo_queued, ())) =
      Inr (Some demo_claimed_row, demo_claimed)"
    using demo_claim by (simp add: demo_worker_def)
  have hand: "handlers ?w (activity_kind demo_claimed_row) = Some (fresh_handler robbed_work)"
    by (simp add: demo_worker_def demo_kind)
  have rec: "recover (fresh_handler robbed_work) demo_claimed_row (demo_claimed, snd (demo_queued, ())) =
      (Inr \<lparr>disposition = NOT_STARTED, recovered = None\<rparr>, demo_claimed, ())"
    by (simp add: recover_def fresh_handler_def mk_recovery_def)
  have work: "attempt ?w (fresh_handler robbed_work) demo_claimed_row \<lparr>disposition = NOT_STARTED, recovered = None\<rparr>
      (demo_claimed, ()) = (Inr \<lparr>result_digest = ''late''\<rparr>, ?v)"
    by (simp add: attempt_def run_execution_def execution_of_def fresh_handler_def robbed_work_def Let_def)
  have "map_option (\<lambda>r. (act_lease_epoch r, act_state r)) (get_activity (act_id demo_claimed_row) (fst ?v)) =
      Some (2, Act_running)" and epoch: "act_lease_epoch demo_claimed_row = 1" by code_simp+
  then obtain row where "get_activity (act_id demo_claimed_row) (fst ?v) = Some row"
    "act_lease_epoch row \<noteq> act_lease_epoch demo_claimed_row" "act_state row \<noteq> Act_completed"
    by auto
  with lost_lease_refused [OF claim hand rec _ work] show ?thesis by simp
qed

theorem durable_result_not_reexecuted_witness:
  "run_once (call_at ''b'' 2) (call_at ''c'' 3)
     ((demo_worker ''w1'' durable_handler)\<lparr>handlers :=
        (handlers (demo_worker ''w1'' durable_handler))(activity_kind demo_claimed_row \<mapsto>
          durable_handler\<lparr>execute := With_epoch (\<lambda>a n. robbed_work)\<rparr>)\<rparr>) False (demo_queued, ()) =
   run_once (call_at ''b'' 2) (call_at ''c'' 3) (demo_worker ''w1'' durable_handler) False (demo_queued, ())"
proof (rule durable_result_not_reexecuted)
  show "claim_next (call_at ''b'' 2) (worker_id (demo_worker ''w1'' durable_handler))
      (lease_secs (demo_worker ''w1'' durable_handler)) None (fst (demo_queued, ())) = Inr (Some demo_claimed_row, demo_claimed)"
    using demo_claim by (simp add: demo_worker_def)
  show "handlers (demo_worker ''w1'' durable_handler) (activity_kind demo_claimed_row) = Some durable_handler"
    by (simp add: demo_worker_def demo_kind)
  show "recover durable_handler demo_claimed_row (demo_claimed, snd (demo_queued, ())) =
      (Inr \<lparr>disposition = DURABLE_RESULT, recovered = Some \<lparr>result_digest = ''known''\<rparr>\<rparr>, demo_claimed, ())"
    by (simp add: recover_def durable_handler_def mk_recovery_def)
qed simp

end
