(* ===== verification/CampaignHandlers.thy ===== *)
theory CampaignHandlers
  imports Orchestration Scheduler
begin

text \<open>
  The campaign's evaluation and admission activities and the worker that serves them
  (application/campaign.py). A handler is a sequence of service calls, each its own session
  block with its own clock and identifiers (\<open>clock i\<close> for the i-th call), over the database and
  the world around it; the evaluators and the admission decider are code outside and enter as
  parameters. An error message keeps the fixed part of the source's text.

  Everything a handler does to the database is a call of the system, so a worker's turn keeps
  every invariant of the system; the worker's loop ends after at most the given number of turns.
\<close>

section \<open>Steps over the world\<close>

type_synonym ('w, 'a) process = "'w world \<Rightarrow> (err + 'a) \<times> 'w world"

definition give :: "'a \<Rightarrow> ('w, 'a) process" where
  "give x st = (Inr x, st)"

definition throw :: "err \<Rightarrow> ('w, 'a) process" where
  "throw x st = (Inl x, st)"

definition andthen :: "('w, 'a) process \<Rightarrow> ('a \<Rightarrow> ('w, 'b) process) \<Rightarrow> ('w, 'b) process" where
  "andthen m f st = (case m st of (Inl x, st) \<Rightarrow> (Inl x, st) | (Inr a, st) \<Rightarrow> f a st)"

text \<open>A query of the database, which may raise.\<close>

definition look :: "(db \<Rightarrow> err + 'a) \<Rightarrow> ('w, 'a) process" where
  "look g st = (g (fst st), st)"

definition require_some :: "err \<Rightarrow> 'a option \<Rightarrow> ('w, 'a) process" where
  "require_some x v = (case v of None \<Rightarrow> throw x | Some a \<Rightarrow> give a)"

section \<open>Activity keys and usage\<close>

text \<open>\<open>key.partition(":")\<close>: the kind before the first colon, the subject after it.\<close>

definition activity_subject :: "ActivityRow \<Rightarrow> string \<Rightarrow> err + string" where
  "activity_subject a expected_kind =
     (let rest = dropWhile (\<lambda>c. c \<noteq> CHR '':'') (act_key a)
      in if activity_kind a \<noteq> expected_kind \<or> rest = [] \<or> tl rest = []
         then Inl (CampaignRuntimeError (''invalid '' @ expected_kind @ '' activity key''))
         else Inr (tl rest))"

definition evaluation_usage :: "EvaluationRecord list \<Rightarrow> UsageRecord" where
  "evaluation_usage records = UsageRecord 0 0 0 0 0 0 0 (int (length records)) 0
     (sum_list (map ar_size_bytes (concat (map evidence_artifacts records))))"

definition digest_list :: "env \<Rightarrow> string list \<Rightarrow> string" where
  "digest_list e ds = canonical_digest e (D_json (JList (map JStr ds)))"

section \<open>Evaluation\<close>

record 'w EvaluationHandler =
  evaluator_keys :: "string list"
  runner :: "CandidateManifest \<Rightarrow> ('w, (string \<times> EvaluationRecord) list) process"
  ev_actor :: string

definition mk_evaluation_handler :: "'w EvaluationHandler \<Rightarrow> err + 'w EvaluationHandler" where
  "mk_evaluation_handler h =
     (if evaluator_keys h = [] \<or> \<not> distinct (evaluator_keys h)
      then Inl (ValueError ''evaluator keys must be non-empty and unique'') else Inr h)"

definition evaluation_recover ::
  "(nat \<Rightarrow> env) \<Rightarrow> 'w EvaluationHandler \<Rightarrow> ActivityRow \<Rightarrow> ('w, ActivityRecovery) process" where
  "evaluation_recover clock h a =
     andthen (look (\<lambda>_. activity_subject a ''evaluate'')) (\<lambda>cid.
     andthen (look (\<lambda>s. Inr (map_of (rev (list_evaluations cid s))))) (\<lambda>existing.
     if list_all (\<lambda>k. existing k \<noteq> None) (evaluator_keys h)
     then
       let records = map (\<lambda>k. the (existing k)) (evaluator_keys h);
           digests = map (\<lambda>r. canonical_digest (clock 0) (D_evaluation r)) records
       in
       andthen (require_some (CampaignRuntimeError ''evaluation activity lacks a budget reservation'')
         (act_reservation_id a)) (\<lambda>rsv.
       andthen (on_db (budget_complete (clock 0) rsv (evaluation_usage records) (ev_actor h))) (\<lambda>_.
       look (\<lambda>_. mk_recovery DURABLE_RESULT (Some \<lparr>result_digest = digest_list (clock 0) digests\<rparr>))))
     else look (\<lambda>_. mk_recovery RESUMABLE None)))"

fun record_all ::
  "(nat \<Rightarrow> env) \<Rightarrow> string \<Rightarrow> nat \<Rightarrow> (string \<times> EvaluationRecord) list \<Rightarrow> ('w, string list) process" where
  "record_all clock cid i [] = give []"
| "record_all clock cid i ((key, rec) # records) =
     (if er_candidate_id rec \<noteq> cid then throw (CampaignRuntimeError ''evaluator returned another candidate'')
      else andthen (on_db (record_evaluation (clock i) rec key)) (\<lambda>d.
           andthen (record_all clock cid (Suc i) records) (\<lambda>ds. give (d # ds))))"

definition evaluation_execute ::
  "(nat \<Rightarrow> env) \<Rightarrow> 'w EvaluationHandler \<Rightarrow> ActivityRow \<Rightarrow> ('w, ActivityResult) process" where
  "evaluation_execute clock h a =
     andthen (look (\<lambda>_. activity_subject a ''evaluate'')) (\<lambda>cid.
     andthen (require_some (CampaignRuntimeError ''evaluation activity lacks a budget reservation'')
       (act_reservation_id a)) (\<lambda>rsv.
     andthen (look (get_candidate cid)) (\<lambda>manifest.
     andthen (runner h manifest) (\<lambda>records.
     if map fst records \<noteq> evaluator_keys h
     then throw (CampaignRuntimeError ''evaluator keys differ from the frozen profile'')
     else
       andthen (record_all clock cid 2 records) (\<lambda>digests.
       andthen (on_db (activity_enqueue (clock 0) (cm_run_id manifest) (''admit:'' @ cid)
         (digest_list (clock 0) digests) (ev_actor h) (Some (cm_session_id manifest)) None)) (\<lambda>_.
       andthen (on_db (budget_complete (clock 1) rsv (evaluation_usage (map snd records)) (ev_actor h))) (\<lambda>_.
       give \<lparr>result_digest = digest_list (clock 0) digests\<rparr>)))))))"

definition retry_always :: "ActivityRow \<Rightarrow> err \<Rightarrow> 'w world \<Rightarrow> FailureDisposition \<times> 'w world" where
  "retry_always a x st = (RETRY, st)"

text \<open>The handler as the scheduler sees it; \<open>bs\<close> are the heartbeats while it works.\<close>

definition evaluation_handler ::
  "(nat \<Rightarrow> env) \<Rightarrow> (('w world \<Rightarrow> 'w world) \<times> env) list \<Rightarrow> 'w EvaluationHandler \<Rightarrow> 'w ActivityHandler" where
  "evaluation_handler clock bs h =
     \<lparr>recover_method = Some (evaluation_recover clock h), find_durable_result = None,
      execute = With_epoch (\<lambda>a lease_epoch. \<lparr>beats = bs, finish = evaluation_execute clock h a\<rparr>),
      classify_method = Some retry_always, safely_retryable = False\<rparr>"

section \<open>Admission\<close>

record AdmissionPackage =
  ap_policy_decisions :: "PolicyDecision list"
  ap_decision :: AdmissionDecision

record 'w AdmissionHandler =
  decider :: "CandidateManifest \<Rightarrow> EvaluationRecord list \<Rightarrow> ('w, AdmissionPackage) process"
  complete_on_admission :: bool
  ad_actor :: string

definition admission_recover ::
  "(nat \<Rightarrow> env) \<Rightarrow> 'w AdmissionHandler \<Rightarrow> ActivityRow \<Rightarrow> ('w, ActivityRecovery) process" where
  "admission_recover clock h a =
     andthen (look (\<lambda>_. activity_subject a ''admit'')) (\<lambda>cid.
     andthen (look (\<lambda>s. Inr (get_admission cid s))) (\<lambda>decision.
     case decision of
       None \<Rightarrow> look (\<lambda>_. mk_recovery RESUMABLE None)
     | Some d \<Rightarrow> look (\<lambda>_. mk_recovery DURABLE_RESULT
         (Some \<lparr>result_digest = canonical_digest (clock 0) (D_admission d)\<rparr>))))"

fun record_policies ::
  "(nat \<Rightarrow> env) \<Rightarrow> string \<Rightarrow> string \<Rightarrow> nat \<Rightarrow> PolicyDecision list \<Rightarrow> ('w, unit) process" where
  "record_policies clock rid cid i [] = give ()"
| "record_policies clock rid cid i (p # ps) =
     andthen (on_db (record_policy_decision (clock i) rid p (Some cid))) (\<lambda>_.
     record_policies clock rid cid (Suc i) ps)"

definition complete_run ::
  "env \<Rightarrow> string \<Rightarrow> string \<Rightarrow> string \<Rightarrow> ('w, unit) process" where
  "complete_run e rid admission_id actor =
     andthen (look (read_run rid)) (\<lambda>run.
     if run_state run = R_RUNNING
     then andthen (on_db (transition e rid R_COMPLETED actor (Some (run_revision run)) (Some ''first_admission'')
       (Some (''complete:'' @ admission_id)) None)) (\<lambda>_. give ())
     else give ())"

definition admission_execute ::
  "(nat \<Rightarrow> env) \<Rightarrow> 'w AdmissionHandler \<Rightarrow> ActivityRow \<Rightarrow> ('w, ActivityResult) process" where
  "admission_execute clock h a =
     andthen (look (\<lambda>_. activity_subject a ''admit'')) (\<lambda>cid.
     andthen (look (get_candidate cid)) (\<lambda>manifest.
     andthen (look (\<lambda>s. Inr (map snd (list_evaluations cid s)))) (\<lambda>evaluations.
     if evaluations = [] then throw (CampaignRuntimeError ''admission requires authoritative evaluations'')
     else
       andthen (decider h manifest evaluations) (\<lambda>package.
       if ad_candidate_id (ap_decision package) \<noteq> cid
       then throw (CampaignRuntimeError ''admission decision names another candidate'')
       else
         andthen (record_policies clock (cm_run_id manifest) cid 2 (ap_policy_decisions package)) (\<lambda>_.
         andthen (on_db (commit_admission (clock 0) (cm_run_id manifest) (ap_decision package))) (\<lambda>_.
         andthen (if ad_outcome (ap_decision package) = A_admit \<and> complete_on_admission h
           then complete_run (clock 1) (cm_run_id manifest) (ad_admission_id (ap_decision package)) (ad_actor h)
           else give ()) (\<lambda>_.
         give \<lparr>result_digest = canonical_digest (clock 0) (D_admission (ap_decision package))\<rparr>)))))))"

definition admission_handler ::
  "(nat \<Rightarrow> env) \<Rightarrow> (('w world \<Rightarrow> 'w world) \<times> env) list \<Rightarrow> 'w AdmissionHandler \<Rightarrow> 'w ActivityHandler" where
  "admission_handler clock bs h =
     \<lparr>recover_method = Some (admission_recover clock h), find_durable_result = None,
      execute = With_epoch (\<lambda>a lease_epoch. \<lparr>beats = bs, finish = admission_execute clock h a\<rparr>),
      classify_method = Some retry_always, safely_retryable = False\<rparr>"

section \<open>The local worker\<close>

definition mk_campaign_worker ::
  "string \<Rightarrow> int \<Rightarrow> 'w ActivityHandler \<Rightarrow> 'w ActivityHandler \<Rightarrow> 'w ActivityHandler \<Rightarrow> err + 'w Scheduler" where
  "mk_campaign_worker name lease_seconds variation evaluation admission =
     bind_err (mk_scheduler name lease_seconds) (\<lambda>w.
     bind_err (register ''variation'' variation w) (\<lambda>w.
     bind_err (register ''evaluate'' evaluation w) (\<lambda>w.
     register ''admit'' admission w)))"

text \<open>
  The loop of \<open>run_until_idle\<close>; \<open>turn i\<close> is the i-th turn of the worker, with the clock of its
  time.
\<close>

function until_idle ::
  "(int \<Rightarrow> 'w world \<Rightarrow> (err + bool) \<times> 'w world) \<Rightarrow> int \<Rightarrow> int \<Rightarrow> 'w world \<Rightarrow> (err + int) \<times> 'w world" where
  "until_idle turn max_activities completed st =
     (if completed < max_activities
      then (case turn completed st of
              (Inl x, st) \<Rightarrow> (Inl x, st)
            | (Inr found, st) \<Rightarrow>
                if found then until_idle turn max_activities (completed + 1) st else (Inr completed, st))
      else (Inr completed, st))"
  by pat_completeness auto
termination
  by (relation "measure (\<lambda>(turn, m, n, st). nat (m - n))") auto

declare until_idle.simps [simp del]

definition worker_turn ::
  "(int \<Rightarrow> env \<times> env) \<Rightarrow> (int \<Rightarrow> 'w Scheduler) \<Rightarrow> int \<Rightarrow> 'w world \<Rightarrow> (err + bool) \<times> 'w world" where
  "worker_turn hours worker i st = run_once (fst (hours i)) (snd (hours i)) (worker i) False st"

definition run_until_idle ::
  "(int \<Rightarrow> env \<times> env) \<Rightarrow> (int \<Rightarrow> 'w Scheduler) \<Rightarrow> int \<Rightarrow> 'w world \<Rightarrow> (err + int) \<times> 'w world" where
  "run_until_idle hours worker max_activities st =
     (if max_activities \<le> 0 then (Inl (ValueError ''max_activities must be positive''), st)
      else until_idle (worker_turn hours worker) max_activities 0 st)"

section \<open>The loop ends\<close>

text \<open>\<open>n\<close> turns in a row, each of which served an activity.\<close>

inductive served_turns ::
  "(int \<Rightarrow> 'w world \<Rightarrow> (err + bool) \<times> 'w world) \<Rightarrow> int \<Rightarrow> int \<Rightarrow> 'w world \<Rightarrow> 'w world \<Rightarrow> bool"
  for turn where
  none: "served_turns turn i i st st"
| more: "turn i st = (Inr True, st1) \<Longrightarrow> served_turns turn (i + 1) n st1 st2 \<Longrightarrow> served_turns turn i n st st2"

lemma served_turns_le: "served_turns turn i n st st' \<Longrightarrow> i \<le> n"
  by (induction rule: served_turns.induct) auto

lemma until_idle_runs:
  assumes "until_idle turn m i st = (r, st')" and "i \<le> m"
  shows "\<exists>n st1. n \<le> m \<and> served_turns turn i n st st1 \<and>
    (n = m \<and> r = Inr m \<and> st' = st1 \<or> n < m \<and> turn n st1 = (Inr False, st') \<and> r = Inr n \<or>
     n < m \<and> (\<exists>x. turn n st1 = (Inl x, st') \<and> r = Inl x))"
  using assms
proof (induction turn m i st rule: until_idle.induct)
  case (1 turn m i st)
  show ?case
  proof (cases "i < m")
    case False
    with 1(2,3) have "i = m \<and> r = Inr m \<and> st' = st" by (auto simp: until_idle.simps)
    then show ?thesis using served_turns.none [of turn i st] by blast
  next
    case i: True
    obtain y st1 where turn: "turn i st = (y, st1)" by (metis surj_pair)
    show ?thesis
    proof (cases y)
      case (Inl x)
      with 1(2) turn i have "r = Inl x \<and> st' = st1" by (simp add: until_idle.simps)
      with Inl turn i show ?thesis using served_turns.none [of turn i st] by (metis order_less_imp_le)
    next
      case (Inr found)
      show ?thesis
      proof (cases found)
        case True
        with 1(2) turn Inr i have "until_idle turn m (i + 1) st1 = (r, st')" by (simp add: until_idle.simps)
        from 1(1) [OF i turn [symmetric] Inr True this] i obtain n st2 where n: "n \<le> m"
          "served_turns turn (i + 1) n st1 st2"
          "n = m \<and> r = Inr m \<and> st' = st2 \<or> n < m \<and> turn n st2 = (Inr False, st') \<and> r = Inr n \<or>
           n < m \<and> (\<exists>x. turn n st2 = (Inl x, st') \<and> r = Inl x)" by auto
        have "served_turns turn i n st st2"
          using turn Inr True n(2) by (intro served_turns.more [of turn i st st1]) simp_all
        with n show ?thesis by blast
      next
        case False
        with 1(2) turn Inr i have "r = Inr i \<and> st' = st1" by (simp add: until_idle.simps)
        with False Inr turn i show ?thesis using served_turns.none [of turn i st] by (metis order_less_imp_le)
      qed
    qed
  qed
qed

text \<open>
  C28. The worker's loop ends after at most \<open>max_activities\<close> turns, whatever the handlers do. It
  returns the number of turns that served an activity: all of the allowed ones, or fewer when
  the next turn found nothing that could be claimed and changed nothing; and when it raises, it
  raises what the turn after those raised.
\<close>

theorem run_until_idle_ends:
  assumes "0 < max_activities" and "run_until_idle hours worker max_activities st = (r, st')"
  shows "\<exists>n st1. 0 \<le> n \<and> n \<le> max_activities \<and> served_turns (worker_turn hours worker) 0 n st st1 \<and>
    (case r of
       Inr k \<Rightarrow> k = n \<and> st' = st1 \<and> (n < max_activities \<longrightarrow> next_activity (now (fst (hours n))) (fst st') = None)
     | Inl x \<Rightarrow> n < max_activities \<and> worker_turn hours worker n st1 = (Inl x, st'))"
proof -
  have "until_idle (worker_turn hours worker) max_activities 0 st = (r, st')"
    using assms by (simp add: run_until_idle_def)
  from until_idle_runs [OF this] assms(1) obtain n st1 where n: "n \<le> max_activities"
    "served_turns (worker_turn hours worker) 0 n st st1"
    "n = max_activities \<and> r = Inr max_activities \<and> st' = st1 \<or>
     n < max_activities \<and> worker_turn hours worker n st1 = (Inr False, st') \<and> r = Inr n \<or>
     n < max_activities \<and> (\<exists>x. worker_turn hours worker n st1 = (Inl x, st') \<and> r = Inl x)" by auto
  have "st' = st1 \<and> next_activity (now (fst (hours n))) (fst st') = None"
    if "worker_turn hours worker n st1 = (Inr False, st')"
    using run_once_returns [OF that [unfolded worker_turn_def]] by auto
  with n served_turns_le [OF n(2)] show ?thesis by (intro exI [of _ n] exI [of _ st1]) auto
qed

section \<open>Handlers only make calls of the system\<close>

declare split_paired_All [simp del] split_paired_Ex [simp del]

text \<open>A process keeps a property of the database when the database has it afterwards, raised or not.\<close>

definition keeps :: "(db \<Rightarrow> bool) \<Rightarrow> ('w, 'a) process \<Rightarrow> bool" where
  "keeps I m \<longleftrightarrow> (\<forall>st. I (fst st) \<longrightarrow> I (fst (snd (m st))))"

definition system_body :: "(db \<Rightarrow> err + 'a \<times> db) \<Rightarrow> bool" where
  "system_body m \<longleftrightarrow> (\<forall>s x s'. m s = Inr (x, s') \<longrightarrow> (\<exists>c u. system_step c s = Inr (u, s')))"

named_theorems keeping "processes that keep an invariant of the system"

lemma keeps_pure [keeping]: "keeps I (give x)" "keeps I (throw e)" "keeps I (look g)" "keeps I (require_some e v)"
  by (auto simp: keeps_def give_def throw_def look_def require_some_def split: option.split)

lemma keepsD: "keeps I m \<Longrightarrow> I (fst st) \<Longrightarrow> I (fst (snd (m st)))"
  by (simp add: keeps_def del: split_paired_All)

lemma keeps_result: "keeps I m \<Longrightarrow> m st = (r, s', w) \<Longrightarrow> I (fst st) \<Longrightarrow> I s'"
  using keepsD [of I m st] by simp

lemma keeps_andthen:
  assumes "keeps I m" and "\<And>st a st'. m st = (Inr a, st') \<Longrightarrow> I (fst st) \<Longrightarrow> keeps I (f a)"
  shows "keeps I (andthen m f)"
  unfolding keeps_def
proof (intro allI impI)
  fix st :: "'a world" assume i: "I (fst st)"
  obtain r st1 where m: "m st = (r, st1)" by (metis surj_pair)
  with i have "I (fst st1)" using keepsD [OF assms(1) i] by simp
  then show "I (fst (snd (andthen m f st)))"
    using m i keepsD [OF assms(2)] by (cases r) (simp_all add: andthen_def)
qed

lemma keeps_if [keeping]: "keeps I m \<Longrightarrow> keeps I n \<Longrightarrow> keeps I (if b then m else n)"
  by simp

lemma system_bodyD: "system_body m \<Longrightarrow> m s = Inr (x, s') \<Longrightarrow> \<exists>c u. system_step c s = Inr (u, s')"
  unfolding system_body_def by blast

lemma system_bodyI:
  "(\<And>s x s'. m s = Inr (x, s') \<Longrightarrow> system_step c s = Inr ((), s')) \<Longrightarrow> system_body m"
  unfolding system_body_def by blast

lemma complete_call [keeping]: "0 \<le> u \<Longrightarrow> system_body (budget_complete e rsv u actor)"
  by (rule system_bodyI [of _ "(e, Budget_call (Complete rsv u actor))"]) (simp add: forget_def bind_err_eq_Inr mk_usage_Inr)

lemma reserve_call [keeping]: "0 \<le> u \<Longrightarrow> system_body (budget_reserve e rid key u actor)"
  by (rule system_bodyI [of _ "(e, Budget_call (Reserve rid key u actor))"]) (simp add: forget_def bind_err_eq_Inr mk_usage_Inr)

lemma enqueue_call [keeping]: "system_body (activity_enqueue e rid key input actor session reservation)"
  by (rule system_bodyI [of _ "(e, Activity_call (Enqueue rid key input actor session reservation))"]) (simp)

lemma claim_call [keeping]: "system_body (claim_next e worker secs t)"
  by (rule system_bodyI [of _ "(e, Activity_call (Claim worker secs t))"]) (simp)

lemma heartbeat_call [keeping]: "system_body (heartbeat e aid worker epoch secs t)"
  by (rule system_bodyI [of _ "(e, Activity_call (Heartbeat aid worker epoch secs t))"]) (simp)

lemma park_call [keeping]: "system_body (mark_reconciliation_required e aid actor error epoch)"
  by (rule system_bodyI [of _ "(e, Activity_call (Mark_reconciliation aid actor error epoch))"]) (simp)

lemma completion_call [keeping]: "system_body (activity_complete e aid worker epoch result)"
  by (rule system_bodyI [of _ "(e, Activity_call (Complete_activity aid worker epoch result))"]) (simp)

lemma evaluation_call [keeping]: "list_all (\<lambda>a. 0 \<le> ar_size_bytes a) (evidence_artifacts rec) \<Longrightarrow>
   system_body (record_evaluation e rec key)"
  by (rule system_bodyI [of _ "(e, Evidence_call (Record_evaluation rec key))"]) (simp add: mk_evaluation_record_def)

lemma policy_call [keeping]: "system_body (record_policy_decision e rid d cid)"
  by (rule system_bodyI [of _ "(e, Evidence_call (Record_policy rid d cid))"]) (simp)

lemma admission_call [keeping]: "system_body (commit_admission e rid d)"
  by (rule system_bodyI [of _ "(e, Evidence_call (Commit_admission rid d))"]) (simp)

lemma stage_call [keeping]: "system_body (stage_candidate e m)"
  by (rule system_bodyI [of _ "(e, Evidence_call (Stage m))"]) (simp)

lemma transition_call [keeping]: "system_body (transition e rid target actor expected reason key scope)"
  by (rule system_bodyI [of _ "(e, Run_call (Transition rid target actor expected reason key scope))"]) (simp add: forget_def)

locale system_invariant =
  fixes I :: "db \<Rightarrow> bool"
  assumes step: "system_step c s = Inr (u, s') \<Longrightarrow> I s \<Longrightarrow> I s'"
    and sizes: "I s \<Longrightarrow> sized s"
begin

lemma keeps_on_db [keeping]: "system_body m \<Longrightarrow> keeps I (on_db m)"
  unfolding keeps_def on_db_def in_session_def
  by (auto dest!: system_bodyD intro: step split: sum.split)

lemma keeps_on_db_snd: "system_body m \<Longrightarrow> I (fst st) \<Longrightarrow> I (fst (snd (on_db m st)))"
  by (rule keepsD [OF keeps_on_db])

end

interpretation reached: system_invariant reachable
  by unfold_locales (auto intro: reachable.call reachable_sized)

interpretation sound: system_invariant "\<lambda>s. system_inv s \<and> sized s"
  by unfold_locales (auto intro: system_step_inv system_step_sized)

text \<open>What a handler owes the worker: none of its methods leaves the invariant.\<close>

definition execution_keeps :: "(db \<Rightarrow> bool) \<Rightarrow> 'w execution \<Rightarrow> bool" where
  "execution_keeps I x \<longleftrightarrow>
     (\<forall>b\<in>set (beats x). \<forall>st. I (fst st) \<longrightarrow> I (fst (fst b st))) \<and> keeps I (finish x)"

definition handler_keeps :: "(db \<Rightarrow> bool) \<Rightarrow> 'w ActivityHandler \<Rightarrow> bool" where
  "handler_keeps I h \<longleftrightarrow>
     (\<forall>f a. recover_method h = Some f \<longrightarrow> keeps I (f a)) \<and>
     (\<forall>f a. find_durable_result h = Some f \<longrightarrow> keeps I (f a)) \<and>
     (\<forall>a n. execution_keeps I (execution_of h a n)) \<and>
     (\<forall>f a x st. classify_method h = Some f \<longrightarrow> I (fst st) \<longrightarrow> I (fst (snd (f a x st))))"

context system_invariant
begin

lemma heartbeats_keep:
  assumes "\<forall>b\<in>set bs. \<forall>st. I (fst st) \<longrightarrow> I (fst (fst b st))" and "I (fst st)"
  shows "I (fst (heartbeats w aid epoch bs st))"
  using assms
proof (induction w aid epoch bs st rule: heartbeats.induct)
  case (2 w aid epoch meanwhile e rest st)
  let ?beat = "on_db (heartbeat e aid (worker_id w) epoch (lease_secs w) None) (meanwhile st)"
  from 2 have "I (fst (meanwhile st))" by auto
  then have beat: "I (fst (snd ?beat))" by (rule keeps_on_db_snd [OF heartbeat_call])
  have rest: "I (fst (fold fst rest u))" if "I (fst u)" for u
    using that 2(2) by (induction rest arbitrary: u) auto
  obtain r u where "?beat = (r, u)" by (metis surj_pair)
  with 2 beat rest show ?case by (cases r) auto
qed simp

lemma run_execution_keeps:
  assumes "handler_keeps I h"
  shows "keeps I (run_execution w h a n)"
  unfolding keeps_def run_execution_def Let_def
proof (intro allI impI)
  fix st :: "'a world" assume "I (fst st)"
  moreover have x: "execution_keeps I (execution_of h a n)" using assms by (simp add: handler_keeps_def)
  ultimately have "I (fst (heartbeats w (act_id a) n (beats (execution_of h a n)) st))"
    by (intro heartbeats_keep) (simp_all add: execution_keeps_def)
  with x show "I (fst (snd (finish (execution_of h a n)
      (heartbeats w (act_id a) n (beats (execution_of h a n)) st))))"
    by (simp add: execution_keeps_def keepsD)
qed

lemma recover_keeps:
  assumes "handler_keeps I h"
  shows "keeps I (recover h a)"
proof (cases "recover_method h")
  case (Some f)
  with assms show ?thesis by (simp add: recover_def [abs_def] handler_keeps_def)
next
  case None
  show ?thesis
  proof (cases "find_durable_result h")
    case legacy: (Some f)
    with assms have "keeps I (f a)" by (simp add: handler_keeps_def)
    with None legacy show ?thesis
      unfolding keeps_def by (auto simp: recover_def split: prod.splits sum.splits)
  qed (simp add: None recover_def [abs_def] keeps_def)
qed

lemma park_keeps: "keeps I (park e w aid epoch error)"
proof -
  have "keeps I (on_db (mark_reconciliation_required e aid (worker_id w) error (Some epoch)))"
    by (rule keeps_on_db [OF park_call])
  then show ?thesis
    unfolding keeps_def by (auto simp: park_def split: prod.splits sum.splits)
qed

lemma attempt_keeps: "handler_keeps I h \<Longrightarrow> keeps I (attempt w h a recovery)"
  by (cases "recovered recovery") (auto simp: attempt_def keeps_def intro: keepsD [OF run_execution_keeps])

lemma classify_keeps: "handler_keeps I h \<Longrightarrow> classify_failure h a x st = (d, s', w) \<Longrightarrow> I (fst st) \<Longrightarrow> I s'"
  by (auto simp: classify_failure_def handler_keeps_def split: option.splits) (metis fst_conv snd_conv)

lemma serve_keeps:
  assumes "handler_keeps I h"
  shows "keeps I (serve e w crash h a)"
  unfolding keeps_def serve_def
  by (auto split: prod.split sum.split FailureDisposition.split
      dest!: keeps_result [OF recover_keeps [OF assms]] keeps_result [OF attempt_keeps [OF assms]]
        classify_keeps [OF assms] keeps_result [OF park_keeps] keeps_result [OF keeps_on_db [OF completion_call]]
      intro!: keepsD [OF park_keeps])

lemma run_once_keeps:
  assumes "\<And>k h. handlers w k = Some h \<Longrightarrow> handler_keeps I h"
  shows "keeps I (run_once e e' w crash)"
  unfolding keeps_def run_once_def
  by (auto split: prod.split sum.split option.split
      dest!: keeps_result [OF keeps_on_db [OF claim_call]]
      intro!: keepsD [OF park_keeps] keepsD [OF serve_keeps [OF assms]])

lemma until_idle_keeps:
  assumes "\<And>i. keeps I (turn i)" and "I (fst st)"
  shows "I (fst (snd (until_idle turn m n st)))"
  using assms
proof (induction turn m n st rule: until_idle.induct)
  case (1 turn m n st)
  obtain r st1 where t: "turn n st = (r, st1)" by (metis surj_pair)
  then have "I (fst st1)" using keepsD [OF 1(2) 1(3), of n] by simp
  with 1 t show ?case by (cases r) (auto simp: until_idle.simps [of turn m n st])
qed

lemma run_until_idle_keeps:
  assumes "\<And>i k h. handlers (worker i) k = Some h \<Longrightarrow> handler_keeps I h"
  shows "keeps I (run_until_idle hours worker m)"
  unfolding keeps_def run_until_idle_def
  using until_idle_keeps [of "worker_turn hours worker"] run_once_keeps [OF assms]
  by (simp add: worker_turn_def [abs_def])

end

lemma evaluation_usage_nonneg:
  assumes "\<forall>r\<in>set records. list_all (\<lambda>a. 0 \<le> ar_size_bytes a) (evidence_artifacts r)"
  shows "0 \<le> evaluation_usage records"
proof -
  have "0 \<le> sum_list (map ar_size_bytes (concat (map evidence_artifacts records)))"
    using assms by (intro sum_list_nonneg) (auto simp: list_all_iff)
  then show ?thesis by (simp add: evaluation_usage_def UsageRecord_le_iff zero_UsageRecord_def)
qed

lemma list_evaluations_records:
  "snd ` set (list_evaluations cid s) \<subseteq> evl_record ` set (evaluations s)"
proof -
  have "set (insert_key x ys) = insert x (set ys)" for x :: "string \<times> EvaluationRecord" and ys
    by (induction x ys rule: insert_key.induct) auto
  then have "set (foldr insert_key kvs []) = set kvs" for kvs :: "(string \<times> EvaluationRecord) list"
    by (induction kvs) auto
  then show ?thesis by (auto simp: list_evaluations_def)
qed

text \<open>An evaluator keeps the invariant and returns records of the contract's form.\<close>

definition runner_keeps :: "(db \<Rightarrow> bool) \<Rightarrow> 'w EvaluationHandler \<Rightarrow> bool" where
  "runner_keeps I h \<longleftrightarrow> (\<forall>m. keeps I (runner h m)) \<and>
     (\<forall>m st records st'. runner h m st = (Inr records, st') \<longrightarrow>
        (\<forall>r\<in>set records. list_all (\<lambda>a. 0 \<le> ar_size_bytes a) (evidence_artifacts (snd r))))"

lemma runner_records:
  "runner_keeps I h \<Longrightarrow> runner h m st = (Inr records, st') \<Longrightarrow>
   \<forall>r\<in>set records. list_all (\<lambda>a. 0 \<le> ar_size_bytes a) (evidence_artifacts (snd r))"
  unfolding runner_keeps_def by blast

definition beats_keep :: "(db \<Rightarrow> bool) \<Rightarrow> (('w world \<Rightarrow> 'w world) \<times> env) list \<Rightarrow> bool" where
  "beats_keep I bs \<longleftrightarrow> (\<forall>b\<in>set bs. \<forall>st. I (fst st) \<longrightarrow> I (fst (fst b st)))"

context system_invariant
begin

lemma record_all_keeps:
  "\<forall>r\<in>set records. list_all (\<lambda>a. 0 \<le> ar_size_bytes a) (evidence_artifacts (snd r)) \<Longrightarrow>
   keeps I (record_all clock cid i records)"
  by (induction clock cid i records rule: record_all.induct) (auto intro!: keeps_andthen keeping)

lemma record_policies_keeps: "keeps I (record_policies clock rid cid i ps)"
  by (induction clock rid cid i ps rule: record_policies.induct) (auto intro!: keeps_andthen keeping)

lemma evaluation_execute_keeps:
  assumes "runner_keeps I h"
  shows "keeps I (evaluation_execute clock h a)"
proof -
  have run: "keeps I (runner h m)" for m using assms by (simp add: runner_keeps_def)
  show ?thesis
    unfolding evaluation_execute_def
    by (auto intro!: keeps_andthen keeping run record_all_keeps evaluation_usage_nonneg
        dest!: runner_records [OF assms])
qed

lemma evaluation_recover_keeps: "keeps I (evaluation_recover clock h a)"
  unfolding keeps_def
proof (intro allI impI)
  fix st :: "'a world" assume i: "I (fst st)"
  have usage: "0 \<le> evaluation_usage (map (\<lambda>k. the (map_of (rev (list_evaluations cid (fst st))) k)) ks)"
    if "list_all (\<lambda>k. map_of (rev (list_evaluations cid (fst st))) k \<noteq> None) ks" for cid ks
  proof (rule evaluation_usage_nonneg, clarsimp)
    fix k assume "k \<in> set ks"
    with that obtain r where r: "map_of (rev (list_evaluations cid (fst st))) k = Some r" by (auto simp: list_all_iff)
    then have "r \<in> snd ` set (list_evaluations cid (fst st))" using map_of_SomeD [OF r] by (force intro: rev_image_eqI)
    with list_evaluations_records have "r \<in> evl_record ` set (evaluations (fst st))" by blast
    with sizes [OF i] r show "list_all (\<lambda>a. 0 \<le> ar_size_bytes a)
      (evidence_artifacts (the (map_of (rev (list_evaluations cid (fst st))) k)))" by (auto simp: sized_def)
  qed
  have complete: "I s'" if "on_db (budget_complete e rsv (evaluation_usage
      (map (\<lambda>k. the (map_of (rev (list_evaluations cid (fst st))) k)) ks)) actor) st = (r, s', w)"
    "list_all (\<lambda>k. map_of (rev (list_evaluations cid (fst st))) k \<noteq> None) ks" for e rsv cid ks actor r s' w
    using keeps_result [OF keeps_on_db [OF complete_call [OF usage [OF that(2)]]] that(1) i] .
  show "I (fst (snd (evaluation_recover clock h a st)))"
    using i complete
    by (auto simp: evaluation_recover_def andthen_def look_def require_some_def throw_def give_def Let_def
        split: sum.split option.split prod.split)
qed

lemma admission_execute_keeps:
  assumes "\<And>m es. keeps I (decider h m es)"
  shows "keeps I (admission_execute clock h a)"
  unfolding admission_execute_def complete_run_def using assms
  by (auto intro!: keeps_andthen keeping record_policies_keeps)

lemma admission_recover_keeps: "keeps I (admission_recover clock h a)"
  unfolding admission_recover_def by (auto intro!: keeps_andthen keeping split: option.split)

lemma evaluation_handler_keeps:
  "runner_keeps I h \<Longrightarrow> beats_keep I bs \<Longrightarrow> handler_keeps I (evaluation_handler clock bs h)"
  by (simp add: handler_keeps_def evaluation_handler_def execution_keeps_def execution_of_def beats_keep_def
      evaluation_recover_keeps evaluation_execute_keeps retry_always_def)

lemma admission_handler_keeps:
  "(\<And>m es. keeps I (decider h m es)) \<Longrightarrow> beats_keep I bs \<Longrightarrow> handler_keeps I (admission_handler clock bs h)"
  by (simp add: handler_keeps_def admission_handler_def execution_keeps_def execution_of_def beats_keep_def
      admission_recover_keeps admission_execute_keeps retry_always_def)

end

section \<open>What a served activity leaves\<close>

lemma andthen_Inr:
  "andthen m f st = (Inr b, st') \<longleftrightarrow> (\<exists>a st1. m st = (Inr a, st1) \<and> f a st1 = (Inr b, st'))"
  by (auto simp: andthen_def split: prod.splits sum.splits)

lemma step_Inr [simp]:
  "look g st = (Inr x, st') \<longleftrightarrow> g (fst st) = Inr x \<and> st' = st"
  "give y st = (Inr x, st') \<longleftrightarrow> x = y \<and> st' = st" "throw e st = (Inr x, st') \<longleftrightarrow> False"
  "require_some e v st = (Inr x, st') \<longleftrightarrow> v = Some x \<and> st' = st"
  by (auto simp: look_def give_def throw_def require_some_def split: option.splits)

lemma find_prefix: "find P xs = Some x \<Longrightarrow> prefix xs ys \<Longrightarrow> find P ys = Some x"
proof -
  have "find P (xs @ zs) = Some x" if "find P xs = Some x" for zs
    using that by (induction xs) (auto split: if_splits)
  then show "find P xs = Some x \<Longrightarrow> prefix xs ys \<Longrightarrow> find P ys = Some x" by (auto simp: prefix_def)
qed

definition on_record :: "string \<Rightarrow> db \<Rightarrow> string \<times> EvaluationRecord \<Rightarrow> string \<Rightarrow> bool" where
  "on_record cid s kr d \<longleftrightarrow> er_candidate_id (snd kr) = cid \<and>
     (\<exists>row. find_evaluation cid (fst kr) s = Some row \<and> evl_record_digest row = d)"

lemma on_record_mono: "on_record cid s kr d \<Longrightarrow> prefix (evaluations s) (evaluations s') \<Longrightarrow> on_record cid s' kr d"
  by (auto simp: on_record_def find_evaluation_def intro: find_prefix)

lemma record_evaluation_found:
  assumes "record_evaluation e rec key s = Inr (d, s')"
  shows "on_record (er_candidate_id rec) s' (key, rec) d" "d = canonical_digest e (D_evaluation rec)"
    "prefix (evaluations s) (evaluations s')"
proof -
  have "find P (xs @ [x]) = Some x" if "find P xs = None" "P x" for P xs and x :: EvaluationRow
    using that by (induction xs) (auto split: if_splits)
  with assms show "on_record (er_candidate_id rec) s' (key, rec) d" "d = canonical_digest e (D_evaluation rec)"
    "prefix (evaluations s) (evaluations s')"
    by (auto simp: record_evaluation_def Let_def bind_err_eq_Inr add_evaluation_Inr on_record_def find_evaluation_def
        set_candidate_def evaluation_row_def split: option.splits if_splits)
qed

lemma record_all_stored:
  assumes "record_all clock cid i records st = (Inr ds, st')"
  shows "list_all2 (on_record cid (fst st')) records ds \<and> prefix (evaluations (fst st)) (evaluations (fst st')) \<and>
    (\<forall>dig. (\<forall>j. canonical_digest (clock j) = dig) \<longrightarrow> ds = map (\<lambda>r. dig (D_evaluation (snd r))) records)"
  using assms
proof (induction clock cid i records arbitrary: st ds rule: record_all.induct)
  case (2 clock cid i key rec records)
  from 2(2) obtain d ds' s1 where cid: "er_candidate_id rec = cid" and ds: "ds = d # ds'"
    and one: "record_evaluation (clock i) rec key (fst st) = Inr (d, s1)"
    and rest: "record_all clock cid (Suc i) records (s1, snd st) = (Inr ds', st')"
    by (auto simp: andthen_Inr on_db_Inr split: if_splits)
  from cid have "\<not> er_candidate_id rec \<noteq> cid" by simp
  note IH = 2(1) [OF this rest] and found = record_evaluation_found [OF one]
  from found(3) IH have "prefix (evaluations (fst st)) (evaluations (fst st'))" by (auto intro: prefix_order.trans)
  moreover have "on_record cid (fst st') (key, rec) d"
    using found(1) cid IH by (auto intro: on_record_mono)
  ultimately show ?case using IH ds found(2) by auto
qed simp

lemma enqueued_found:
  assumes "activity_enqueue e rid key input actor session reservation s = Inr (x, s')"
  shows "\<exists>a. find_activity rid key s' = Some a \<and> act_input_digest a = input \<and> act_session_id a = session \<and>
    act_reservation_id a = reservation \<and> act_id a = x"
  using assms
proof (cases rule: activity_enqueue_Inr)
  case (fresh run t)
  have "activities s' = activities s @ [new_activity e rid key input session reservation]"
    using fresh(3) append_run_event_activities [OF fresh(4)] by (auto simp: add_activity_Inr)
  moreover have "find P (xs @ [y]) = Some y" if "find P xs = None" "P y" for P xs and y :: ActivityRow
    using that by (induction xs) (auto split: if_splits)
  ultimately show ?thesis
    using fresh(1,5) by (auto simp: find_activity_def new_activity_def)
qed auto

lemma completed_found:
  assumes "budget_complete e rsv actual actor s = Inr (u, s')"
  shows "\<exists>r. get_reservation rsv s' = Some r \<and> res_state r = Completed \<and> res_actual r = Some actual"
  using assms
proof (cases rule: budget_complete_Inr)
  case (settle r l run)
  have "reservations s' = row_set res_id rsv (\<lambda>r. r\<lparr>res_state := Completed, res_actual := Some actual,
      res_reconciled_at := Some (date_column e (now e))\<rparr>) (reservations s)"
    using append_run_event_runs(3) [OF settle(7)] by (simp add: set_defs)
  then show ?thesis
    using settle(1) by (auto simp: get_reservation_def row_get_row_set)
qed auto

text \<open>
  C29. An evaluation that ends well has handed its candidate over: the runner was asked once and
  answered with exactly the frozen evaluator keys, every record is of this candidate and on file
  under its key, the admission activity of the candidate is queued with the digest of these
  records as its input, and the reservation is completed with the usage of the records. The
  result is the digest of the records' digests, in the order of the keys.
\<close>

theorem evaluation_hands_over:
  assumes "evaluation_execute clock h a st = (Inr r, st')" and "\<And>j. canonical_digest (clock j) = dig"
  shows "\<exists>cid rsv m records st1. activity_subject a ''evaluate'' = Inr cid \<and> act_reservation_id a = Some rsv \<and>
    get_candidate cid (fst st) = Inr m \<and> runner h m st = (Inr records, st1) \<and>
    map fst records = evaluator_keys h \<and>
    (\<forall>kr\<in>set records. on_record cid (fst st') kr (dig (D_evaluation (snd kr)))) \<and>
    result_digest r = dig (D_json (JList (map (\<lambda>kr. JStr (dig (D_evaluation (snd kr)))) records))) \<and>
    (\<exists>act. find_activity (cm_run_id m) (''admit:'' @ cid) (fst st') = Some act \<and>
       act_input_digest act = result_digest r \<and> act_session_id act = Some (cm_session_id m)) \<and>
    (\<exists>row. get_reservation rsv (fst st') = Some row \<and> res_state row = Completed \<and>
       res_actual row = Some (evaluation_usage (map snd records)))"
proof -
  from assms(1) obtain cid rsv m records st1 ds st2 x s3 u where
    parts: "activity_subject a ''evaluate'' = Inr cid" "act_reservation_id a = Some rsv"
      "get_candidate cid (fst st) = Inr m" "runner h m st = (Inr records, st1)" "map fst records = evaluator_keys h"
    and all: "record_all clock cid 2 records st1 = (Inr ds, st2)"
    and enq: "activity_enqueue (clock 0) (cm_run_id m) (''admit:'' @ cid) (digest_list (clock 0) ds) (ev_actor h)
        (Some (cm_session_id m)) None (fst st2) = Inr (x, s3)"
    and com: "budget_complete (clock 1) rsv (evaluation_usage (map snd records)) (ev_actor h) s3 = Inr (u, fst st')"
    and r: "r = \<lparr>result_digest = digest_list (clock 0) ds\<rparr>"
    unfolding evaluation_execute_def by (fastforce simp: andthen_Inr on_db_Inr split: if_splits)
  note stored = record_all_stored [OF all]
  have ds: "ds = map (\<lambda>kr. dig (D_evaluation (snd kr))) records" using stored assms(2) by blast
  have "evaluations (fst st') = evaluations (fst st2)"
    using activity_apart(1) [OF enq] budget_apart(2) [OF com] by (simp add: apart_def)
  then have "on_record cid (fst st') kr (dig (D_evaluation (snd kr)))" if "kr \<in> set records" for kr
    using stored that unfolding ds by (auto simp: list_all2_conv_all_nth in_set_conv_nth intro: on_record_mono)
  moreover from enqueued_found [OF enq] obtain act where
    "find_activity (cm_run_id m) (''admit:'' @ cid) s3 = Some act" "act_input_digest act = digest_list (clock 0) ds"
    "act_session_id act = Some (cm_session_id m)" by auto
  moreover have "activities (fst st') = activities s3"
    using idle_budget(2) [OF com] by (simp add: idle_def)
  ultimately show ?thesis
    using parts completed_found [OF com] r assms(2)
    by (fastforce simp: find_activity_def digest_list_def ds comp_def)
qed

lemma record_policies_frame:
  "record_policies clock rid cid i ps st = (Inr u, st') \<Longrightarrow>
   idempotency (fst st') = idempotency (fst st) \<and> runs (fst st') = runs (fst st)"
proof (induction clock rid cid i ps arbitrary: st rule: record_policies.induct)
  case (2 clock rid cid i p ps)
  from 2(2) obtain x s1 where "record_policy_decision (clock i) rid p (Some cid) (fst st) = Inr (x, s1)"
    "record_policies clock rid cid (Suc i) ps (s1, snd st) = (Inr u, st')"
    by (auto simp: andthen_Inr on_db_Inr)
  with 2(1) [of "(s1, snd st)"] show ?case by (auto dest!: record_policy_decision_Inr)
qed simp

lemma commit_admission_filed:
  assumes "commit_admission e rid d s = Inr (n, s')"
  shows "\<exists>row. get_admission_row (ad_admission_id d) s' = Some row \<and>
    adm_decision_digest row = canonical_digest e (D_admission d)" (is "?filed")
    and "idempotency s' = idempotency s"
proof -
  have "?filed \<and> idempotency s' = idempotency s"
    using assms
  proof (cases rule: commit_admission_Inr)
    case (decide run c)
    have "admissions s' = admissions s @ [admission_row e (run_id run) d] \<and> idempotency s' = idempotency s"
      using decide(8) by (cases rule: decide_admission_Inr) (auto simp: decided_db_def dest!: append_lineage_Inr(4))
    moreover have "row_get adm_id k (xs @ [row]) = Some row" if "row_get adm_id k xs = None" "adm_id row = k"
      for k xs and row :: AdmissionRow
      using that by (induction xs) (auto simp: row_get_def split: if_splits)
    then have "row_get adm_id (ad_admission_id d) (admissions s @ [admission_row e (run_id run) d]) =
        Some (admission_row e (run_id run) d)"
      using decide(1) by (simp add: get_admission_row_def admission_row_def)
    ultimately show ?thesis by (simp add: get_admission_row_def admission_row_def)
  qed auto
  then show ?filed "idempotency s' = idempotency s" by auto
qed

lemma completion_moves:
  assumes "transition e rid R_COMPLETED actor expected reason (Some key) None s = Inr (r, s')"
    and "find_idempotency actor (transition_scope rid None) key s = None"
  shows "\<exists>run. get_run rid s' = Some run \<and> run_state run = R_COMPLETED"
proof -
  from assms obtain d where p: "perform_transition e rid R_COMPLETED actor expected reason (Some key)
      (transition_scope rid None) d s = Inr (r, s')"
    by (auto simp: transition_def Let_def check_optional_def check_idempotency_Inr bind_err_eq_Inr)
  then obtain current t where c: "get_run rid s = Some current"
    "commit_transition e current R_COMPLETED actor reason s = Inr t" "runs s' = runs t"
    by (auto simp: perform_transition_def raise_simps record_optional_def add_idempotency_Inr record_idempotency_def
        split: option.splits if_splits)
  have "run_id current = rid" using c(1) by (auto simp: get_run_def dest: row_get_SomeD)
  then show ?thesis
    using c commit_transition_Inr(1) [OF c(2)] by (auto simp: get_run_def row_get_row_set moved_run_def)
qed

lemma complete_run_ends:
  assumes "complete_run e rid admission_id actor st = (Inr u, st')"
  shows "admissions (fst st') = admissions (fst st) \<and> (\<exists>run. get_run rid (fst st') = Some run \<and>
    (run_state run \<noteq> R_RUNNING \<or>
     find_idempotency actor (transition_scope rid None) (''complete:'' @ admission_id) (fst st) \<noteq> None))"
proof -
  let ?k = "''complete:'' @ admission_id"
  from assms obtain run where run: "get_run rid (fst st) = Some run"
    by (auto simp: complete_run_def andthen_Inr read_run_def split: option.splits)
  show ?thesis
  proof (cases "run_state run = R_RUNNING")
    case True
    with assms run obtain x where t: "transition e rid R_COMPLETED actor (Some (run_revision run))
        (Some ''first_admission'') (Some ?k) None (fst st) = Inr (x, fst st')"
      by (auto simp: complete_run_def andthen_Inr on_db_Inr read_run_def)
    have "\<exists>run. get_run rid (fst st') = Some run"
      using t
    proof (cases rule: transition_Inr)
      case (move current t' rows)
      then show ?thesis
        using commit_transition_Inr(1) [OF move(4)] by (auto simp: get_run_def row_get_row_set)
    qed (use run in simp)
    moreover have "admissions (fst st') = admissions (fst st)" using transition_apart [OF t] by (simp add: apart_def)
    ultimately show ?thesis using completion_moves [OF t] by fastforce
  next
    case False
    with assms run have "st' = st" by (auto simp: complete_run_def andthen_Inr read_run_def)
    with run False show ?thesis by simp
  qed
qed


section \<open>A worker at work\<close>

definition demo_evaluation :: "unit EvaluationHandler" where
  "demo_evaluation = \<lparr>evaluator_keys = [''k''], runner = (\<lambda>m. give [(''k'', demo_record 20)]), ev_actor = ''ev''\<rparr>"

definition demo_admitting :: "unit AdmissionHandler" where
  "demo_admitting = \<lparr>decider = (\<lambda>m es. give \<lparr>ap_policy_decisions = [],
     ap_decision = demo_decision ''a1'' ''c1'' A_admit\<rparr>), complete_on_admission = True, ad_actor = ''ad''\<rparr>"

definition demo_clock :: "string \<Rightarrow> int \<Rightarrow> nat \<Rightarrow> env" where
  "demo_clock tag t i = call_at (tag @ replicate i (CHR ''-'')) t"

definition demo_campaign_worker :: "int \<Rightarrow> unit Scheduler" where
  "demo_campaign_worker i = (let clock = demo_clock (''h'' @ show_int i) (100 + 10 * i) in
     \<lparr>worker_id = ''w2'', lease_secs = 30,
      handlers = [''evaluate'' \<mapsto> evaluation_handler clock [] demo_evaluation,
        ''admit'' \<mapsto> admission_handler clock [] demo_admitting]\<rparr>)"

definition demo_hours :: "int \<Rightarrow> env \<times> env" where
  "demo_hours i = (call_at (''c'' @ show_int i) (100 + 10 * i), call_at (''d'' @ show_int i) (101 + 10 * i))"

text \<open>A staged candidate whose evaluation is queued.\<close>

definition staged_world :: db where
  "staged_world = run_sessions system_step (take 6 demo_campaign @
     [(call_at ''A'' 10, Budget_call (Reserve ''r'' ''evaluate:c1'' (UsageRecord 0 0 0 0 0 0 0 1 0 0) ''op'')),
      (call_at ''B'' 11, Activity_call (Enqueue ''r'' ''evaluate:c1'' ''in'' ''op'' (Some ''s1'') (Some ''A'')))]) empty_db"

definition outcome_of :: "(err + int) \<times> unit world \<Rightarrow> (err + int) \<times> (string \<times> activity_state) list \<times> RunState list \<times> nat" where
  "outcome_of x = (fst x, map (\<lambda>a. (act_key a, act_state a)) (activities (fst (snd x))),
     map run_state (runs (fst (snd x))), length (lineage (fst (snd x))))"

lemma demo_work: "outcome_of (run_until_idle demo_hours demo_campaign_worker 5 (staged_world, ())) =
   (Inr 2, [(''evaluate:c1'', Act_completed), (''admit:c1'', Act_completed)], [R_COMPLETED], 2)"
  by code_simp

theorem run_until_idle_ends_witness:
  "\<exists>st1. served_turns (worker_turn demo_hours demo_campaign_worker) 0 2 (staged_world, ()) st1 \<and>
     next_activity (now (fst (demo_hours 2))) (fst st1) = None"
proof -
  let ?run = "run_until_idle demo_hours demo_campaign_worker 5 (staged_world, ())"
  have r: "?run = (Inr 2, snd ?run)"
    using demo_work by (simp add: outcome_of_def prod_eq_iff)
  from run_until_idle_ends [OF _ r] show ?thesis by auto
qed

lemma demo_clock_digest: "canonical_digest (demo_clock tag t i) = (\<lambda>d. ''digest'')"
  by (simp add: demo_clock_def call_at_def)

definition demo_evaluated :: "(err + ActivityResult) \<times> unit world" where
  "demo_evaluated = evaluation_execute (demo_clock ''E'' 30) demo_evaluation
     (new_activity (call_at ''B'' 11) ''r'' ''evaluate:c1'' ''in'' (Some ''s1'') (Some ''A'')) (staged_world, ())"

theorem evaluation_hands_over_witness:
  "\<exists>act st'. snd demo_evaluated = st' \<and> find_activity ''r'' ''admit:c1'' (fst st') = Some act \<and>
     act_input_digest act = ''digest''"
proof -
  have "fst demo_evaluated = Inr \<lparr>result_digest = ''digest''\<rparr>" by code_simp
  then have e: "evaluation_execute (demo_clock ''E'' 30) demo_evaluation
      (new_activity (call_at ''B'' 11) ''r'' ''evaluate:c1'' ''in'' (Some ''s1'') (Some ''A'')) (staged_world, ()) =
      (Inr \<lparr>result_digest = ''digest''\<rparr>, snd demo_evaluated)"
    by (simp add: demo_evaluated_def prod_eq_iff)
  have m: "get_candidate ''c1'' staged_world = Inr demo_manifest" by code_simp
  have c: "activity_subject (new_activity (call_at ''B'' 11) ''r'' ''evaluate:c1'' ''in'' (Some ''s1'') (Some ''A''))
    ''evaluate'' = Inr ''c1''" by code_simp
  from evaluation_hands_over [OF e demo_clock_digest] c m show ?thesis by (auto simp: demo_manifest_def)
qed

definition evaluated_world :: db where
  "evaluated_world = run_sessions system_step (take 7 demo_campaign) empty_db"

definition demo_admitted :: "(err + ActivityResult) \<times> unit world" where
  "demo_admitted = admission_execute (demo_clock ''E'' 30) demo_admitting
     (new_activity (call_at ''B'' 11) ''r'' ''admit:c1'' ''in'' (Some ''s1'') None) (evaluated_world, ())"


section \<open>Where recovery loses the campaign\<close>

text \<open>
  The first worker stops after its last evaluation record and before the admission activity is
  queued. Recovery sees all records, completes the reservation and reports the durable result,
  so the evaluation is completed, nothing is left to claim, and the run stays running with no
  activity that could ever admit its candidate.
\<close>

definition crashed_evaluation :: db where
  "crashed_evaluation = run_sessions system_step
     [(call_at ''C'' 20, Activity_call (Claim ''w1'' 30 None)),
      (call_at ''D'' 21, Evidence_call (Record_evaluation (demo_record 20) ''k''))] staged_world"

theorem recovered_evaluation_is_stranded:
  "outcome_of (run_until_idle demo_hours demo_campaign_worker 5 (crashed_evaluation, ())) =
   (Inr 1, [(''evaluate:c1'', Act_completed)], [R_RUNNING], 1)"
  by code_simp

text \<open>
  The first worker stops after the admission is committed and before the run is completed.
  Recovery finds the decision and reports it as the result, and the run stays running although
  its handler completes runs on admission.
\<close>

definition crashed_admission :: db where
  "crashed_admission = run_sessions system_step (take 7 demo_campaign @
     [(call_at ''B'' 11, Activity_call (Enqueue ''r'' ''admit:c1'' ''in'' ''op'' (Some ''s1'') None)),
      (call_at ''C'' 20, Activity_call (Claim ''w1'' 30 None)),
      (call_at ''D'' 21, Evidence_call (Commit_admission ''r'' (demo_decision ''a1'' ''c1'' A_admit)))]) empty_db"

theorem recovered_admission_leaves_run_open:
  "outcome_of (run_until_idle demo_hours demo_campaign_worker 5 (crashed_admission, ())) =
   (Inr 1, [(''admit:c1'', Act_completed)], [R_RUNNING], 2)"
  by code_simp

end
