(* ===== verification/Workspace.thy ===== *)
theory Workspace
  imports Artifacts "HOL-Library.Multiset"
begin

text \<open>
  Workspace ingestion (domain/workspace.py) and the portable digest of a source tree
  (domain/canonical.py). A tree is the list of its paths below the root with what each is;
  the loops run over it in the order of the paths. Unicode normalisation, case folding and
  SHA-256 are parameters. Archives are lists of members, a destination is the list of the
  files below it, and the extraction returns what it wrote also when it raises.
\<close>

section \<open>Trees\<close>

datatype tree_node =
    Regular bytes nat  \<comment> \<open>content and number of links\<close>
  | Directory
  | Symlink string bool bool  \<comment> \<open>link text, target exists, target below the root\<close>
  | Special

record tree_entry =
  te_path :: string
  te_node :: tree_node

fun insert_entry :: "tree_entry \<Rightarrow> tree_entry list \<Rightarrow> tree_entry list" where
  "insert_entry x [] = [x]"
| "insert_entry x (y # ys) = (if str_less (te_path y) (te_path x) then y # insert_entry x ys else x # y # ys)"

definition sort_entries :: "tree_entry list \<Rightarrow> tree_entry list" where
  "sort_entries t = foldr insert_entry t []"

lemma set_insert_entry [simp]: "set (insert_entry x ys) = insert x (set ys)"
  by (induction ys) auto

lemma set_sort_entries [simp]: "set (sort_entries t) = set t"
  by (induction t) (auto simp: sort_entries_def)

text \<open>The functions of the platform: NFC, \<open>casefold\<close> and SHA-256.\<close>

record platform =
  nfc :: "string \<Rightarrow> string"
  casefold :: "string \<Rightarrow> string"
  sha256 :: "bytes \<Rightarrow> string"

section \<open>The source tree digest\<close>

definition NUL :: string where
  "NUL = [CHR 0x00]"

definition newline :: string where
  "newline = [CHR 0x0A]"

definition tree_record :: "platform \<Rightarrow> string \<Rightarrow> string \<Rightarrow> bytes \<Rightarrow> bytes" where
  "tree_record pf path kind content =
     path @ NUL @ kind @ NUL @ kind @ NUL @ show_nat (length content) @ NUL @
     ''sha256:'' @ sha256 pf content @ newline"

fun tree_records :: "platform \<Rightarrow> string \<Rightarrow> string set \<Rightarrow> tree_entry list \<Rightarrow> err + bytes list" where
  "tree_records pf links seen [] = Inr []"
| "tree_records pf links seen (x # xs) =
     (let normalized_path = nfc pf (te_path x); folded = casefold pf normalized_path in
      if folded \<in> seen
      then Inl (CanonicalizationError (''case or Unicode path collision: '' @ normalized_path))
      else
        let rest = tree_records pf links (insert folded seen) xs in
        case te_node x of
          Symlink target there inside \<Rightarrow>
            if links \<noteq> ''internal_only''
            then Inl (CanonicalizationError (''symlink is not allowed: '' @ normalized_path))
            else if \<not> there then Inl (OSError (te_path x))
            else if \<not> inside
            then Inl (CanonicalizationError (''symlink escapes tree: '' @ normalized_path))
            else bind_err rest (\<lambda>rs. Inr (tree_record pf normalized_path ''symlink'' target # rs))
        | Directory \<Rightarrow> rest
        | Special \<Rightarrow> Inl (CanonicalizationError (''unsupported file type: '' @ normalized_path))
        | Regular content _ \<Rightarrow>
            bind_err rest (\<lambda>rs. Inr (tree_record pf normalized_path ''regular'' content # rs)))"

definition source_tree_digest :: "platform \<Rightarrow> string \<Rightarrow> tree_entry list \<Rightarrow> err + string" where
  "source_tree_digest pf links t =
     bind_err (tree_records pf links {} (sort_entries t)) (\<lambda>records.
     Inr (''sha256:'' @ sha256 pf (concat records)))"

section \<open>Workspace validation\<close>

definition path_parts :: "string \<Rightarrow> string list" where
  "path_parts p = split_on (CHR ''/'') p"

definition within :: "string list \<Rightarrow> string list \<Rightarrow> bool" where
  "within path parts \<longleftrightarrow> length path \<ge> length parts \<and> take (length parts) path = parts"

definition permitted :: "string \<Rightarrow> string list \<Rightarrow> string list \<Rightarrow> bool" where
  "permitted relative allowed forbidden \<longleftrightarrow>
     list_ex (\<lambda>item. within (path_parts relative) (path_parts item)) allowed \<and>
     \<not> list_ex (\<lambda>item. within (path_parts relative) (path_parts item)) forbidden"

text \<open>The loop: the folded paths seen, the files accepted and their total size.\<close>

fun scan ::
  "platform \<Rightarrow> WorkspaceSpec \<Rightarrow> string set \<Rightarrow> string list \<Rightarrow> int \<Rightarrow> tree_entry list \<Rightarrow> err + string list" where
  "scan pf spec seen files total_bytes [] = Inr files"
| "scan pf spec seen files total_bytes (x # xs) =
     (let relative = te_path x; collision_key = casefold pf (nfc pf relative) in
      if nfc pf relative \<noteq> relative
      then Inl (UnsafeWorkspaceError (''path is not NFC-normalized: '' @ relative))
      else if collision_key \<in> seen
      then Inl (UnsafeWorkspaceError (''case or Unicode path collision: '' @ relative))
      else
        let seen = insert collision_key seen;
            git = last (path_parts relative) = ''.git'' \<and> submodules spec = ''deny''
        in case te_node x of
          Symlink target there inside \<Rightarrow>
            if symlinks spec = ''deny''
            then Inl (UnsafeWorkspaceError (''symlink is forbidden: '' @ relative))
            else if \<not> there then Inl (OSError relative)
            else if \<not> inside
            then Inl (UnsafeWorkspaceError (''symlink escapes workspace: '' @ relative))
            else scan pf spec seen files total_bytes xs
        | Regular content links \<Rightarrow>
            if git then Inl (UnsafeWorkspaceError (''nested Git metadata is forbidden: '' @ relative))
            else if links > 1
            then Inl (UnsafeWorkspaceError (''hardlinked file is forbidden: '' @ relative))
            else if \<not> permitted relative (allowed_paths spec @ required_paths spec) (forbidden_paths spec)
            then Inl (UnsafeWorkspaceError (''file is outside the workspace manifest: '' @ relative))
            else if int (length content) > max_file_bytes spec
            then Inl (UnsafeWorkspaceError (''file exceeds maximum size: '' @ relative))
            else if total_bytes + int (length content) > max_tree_bytes spec
            then Inl (UnsafeWorkspaceError ''workspace exceeds maximum tree size'')
            else scan pf spec seen (relative # files) (total_bytes + int (length content)) xs
        | _ \<Rightarrow>
            if git then Inl (UnsafeWorkspaceError (''nested Git metadata is forbidden: '' @ relative))
            else scan pf spec seen files total_bytes xs)"

definition prefix_of :: "string \<Rightarrow> string \<Rightarrow> bool" where
  "prefix_of p x \<longleftrightarrow> take (length p) x = p"

fun check_required_paths :: "string list \<Rightarrow> string list \<Rightarrow> err + unit" where
  "check_required_paths files [] = Inr ()"
| "check_required_paths files (r # rs) =
     (if r \<notin> set files \<and> \<not> list_ex (prefix_of (r @ ''/'')) files
      then Inl (UnsafeWorkspaceError (''required path is missing: '' @ r))
      else check_required_paths files rs)"

definition validate_workspace :: "platform \<Rightarrow> WorkspaceSpec \<Rightarrow> tree_entry list \<Rightarrow> err + string" where
  "validate_workspace pf spec t =
     bind_err (scan pf spec {} [] 0 (sort_entries t)) (\<lambda>files.
     bind_err (check_required_paths files (required_paths spec)) (\<lambda>_.
     source_tree_digest pf (symlinks spec) t))"

section \<open>Archives\<close>

datatype member_kind = M_file | M_directory | M_symlink | M_special | M_unsupported

record archive_member =
  mem_name :: string
  mem_kind :: member_kind
  mem_size :: int
  mem_content :: bytes
  mem_readable :: bool

definition archive_path :: "platform \<Rightarrow> string \<Rightarrow> err + string" where
  "archive_path pf value =
     (let v = (if value \<noteq> [] \<and> last value = CHR ''/'' then butlast value else value) in
      case validate_manifest_path (nfc pf) v of
        Inl _ \<Rightarrow> Inl (UnsafeWorkspaceError (''unsafe archive path: '' @ v))
      | Inr p \<Rightarrow> Inr p)"

definition check_archive_size :: "int \<Rightarrow> int \<Rightarrow> int \<Rightarrow> int \<Rightarrow> err + int" where
  "check_archive_size entry_size total_bytes per_file tree =
     (if entry_size < 0 \<or> entry_size > per_file then Inl (UnsafeWorkspaceError ''archive entry exceeds size limit'')
      else if total_bytes + entry_size > tree then Inl (UnsafeWorkspaceError ''archive exceeds tree size limit'')
      else Inr (total_bytes + entry_size))"

text \<open>
  A destination: the files below it, and the paths that resolve outside it because a symbolic
  link of the destination is on the way.
\<close>

record destination =
  dest_files :: "(string \<times> bytes) list"
  escapes :: "string \<Rightarrow> bool"

text \<open>
  A parent directory cannot be made where a file is, and the file itself must not exist yet,
  neither as a file nor as the directory of another.
\<close>

definition obstructed :: "string \<Rightarrow> destination \<Rightarrow> bool" where
  "obstructed relative d \<longleftrightarrow>
     list_ex (\<lambda>(p, _). p = relative \<or> prefix_of (p @ ''/'') relative \<or> prefix_of (relative @ ''/'') p) (dest_files d)"

definition write_member :: "string \<Rightarrow> archive_member \<Rightarrow> destination \<Rightarrow> err + destination" where
  "write_member relative m d =
     (if escapes d relative
      then Inl (UnsafeWorkspaceError (''archive path escapes destination: '' @ relative))
      else if obstructed relative d then Inl (OSError relative)
      else Inr (d\<lparr>dest_files := dest_files d @ [(relative, mem_content m)]\<rparr>))"

definition zip_guard :: "string \<Rightarrow> archive_member \<Rightarrow> err + unit" where
  "zip_guard relative m =
     (if mem_kind m = M_symlink
      then Inl (UnsafeWorkspaceError (''archive symlink is forbidden: '' @ relative)) else Inr ())"

definition tar_guard :: "string \<Rightarrow> archive_member \<Rightarrow> err + unit" where
  "tar_guard relative m =
     (if mem_kind m \<in> {M_symlink, M_special}
      then Inl (UnsafeWorkspaceError (''archive special entry is forbidden: '' @ relative))
      else if mem_kind m = M_unsupported
      then Inl (UnsafeWorkspaceError (''unsupported archive entry: '' @ relative)) else Inr ())"

text \<open>
  What an unreadable member raises: the tar reader returns nothing for it and the code reports
  that; the zip reader raises an exception of its own, here an \<open>OSError\<close>.
\<close>

definition tar_unreadable :: "string \<Rightarrow> err" where
  "tar_unreadable relative = UnsafeWorkspaceError (''archive entry cannot be read: '' @ relative)"

fun extract_members ::
  "(string \<Rightarrow> archive_member \<Rightarrow> err + unit) \<Rightarrow> (string \<Rightarrow> err) \<Rightarrow> platform \<Rightarrow> int \<Rightarrow> int \<Rightarrow> int \<Rightarrow>
     archive_member list \<Rightarrow> destination \<Rightarrow> (err + unit) \<times> destination" where
  "extract_members guard unread pf per_file tree total_bytes [] d = (Inr (), d)"
| "extract_members guard unread pf per_file tree total_bytes (m # ms) d =
     (case archive_path pf (mem_name m) of
        Inl x \<Rightarrow> (Inl x, d)
      | Inr relative \<Rightarrow>
          (case guard relative m of
             Inl x \<Rightarrow> (Inl x, d)
           | Inr _ \<Rightarrow>
               if mem_kind m = M_directory then extract_members guard unread pf per_file tree total_bytes ms d
               else
                 (case check_archive_size (mem_size m) total_bytes per_file tree of
                    Inl x \<Rightarrow> (Inl x, d)
                  | Inr total_bytes \<Rightarrow>
                      if \<not> mem_readable m
                      then (Inl (unread relative), d)
                      else
                        (case write_member relative m d of
                           Inl x \<Rightarrow> (Inl x, d)
                         | Inr d \<Rightarrow> extract_members guard unread pf per_file tree total_bytes ms d))))"

definition safe_extract_zip ::
  "platform \<Rightarrow> int \<Rightarrow> int \<Rightarrow> archive_member list \<Rightarrow> destination \<Rightarrow> (err + unit) \<times> destination" where
  "safe_extract_zip pf max_file max_tree ms d = extract_members zip_guard OSError pf max_file max_tree 0 ms d"

definition safe_extract_tar ::
  "platform \<Rightarrow> int \<Rightarrow> int \<Rightarrow> archive_member list \<Rightarrow> destination \<Rightarrow> (err + unit) \<times> destination" where
  "safe_extract_tar pf max_file max_tree ms d = extract_members tar_guard tar_unreadable pf max_file max_tree 0 ms d"

section \<open>Extraction stays inside and within the limits\<close>

definition safe_relative :: "string \<Rightarrow> bool" where
  "safe_relative p \<longleftrightarrow> p \<noteq> [] \<and> hd p \<noteq> CHR ''/'' \<and> CHR 0x00 \<notin> set p \<and> CHR 0x5C \<notin> set p \<and>
     list_all (\<lambda>segment. segment \<notin> {[], ''.'', ''..''}) (path_parts p)"

lemma archive_path_safe: "archive_path pf name = Inr p \<Longrightarrow> safe_relative p"
  by (auto simp: archive_path_def Let_def validate_manifest_path_def safe_relative_def path_parts_def
      list_ex_iff list_all_iff split: sum.splits if_splits)

definition written_bytes :: "(string \<times> bytes) list \<Rightarrow> int" where
  "written_bytes new = sum_list (map (\<lambda>(_, b). int (length b)) new)"

lemma extract_contained:
  assumes "extract_members guard unread pf per_file tree total_bytes ms d = (res, d')"
    and "\<forall>m\<in>set ms. int (length (mem_content m)) \<le> mem_size m" and "total_bytes \<le> tree"
  shows "\<exists>new. dest_files d' = dest_files d @ new \<and>
    (\<forall>(p, b)\<in>set new. safe_relative p \<and> \<not> escapes d p \<and> int (length b) \<le> per_file) \<and>
    total_bytes + written_bytes new \<le> tree"
  using assms
proof (induction ms arbitrary: total_bytes d)
  case (Cons m ms)
  have stay: ?case if "d' = d" using that Cons.prems(3) by (intro exI [of _ "[]"]) (simp add: written_bytes_def)
  show ?case
  proof (cases "archive_path pf (mem_name m)")
    case (Inr p)
    note path = Inr
    show ?thesis
    proof (cases "isl (guard p m) \<or> mem_kind m = M_directory \<or>
        isl (check_archive_size (mem_size m) total_bytes per_file tree) \<or> \<not> mem_readable m \<or> isl (write_member p m d)")
      case True
      then show ?thesis
      proof (cases "\<not> isl (guard p m) \<and> mem_kind m = M_directory")
        case True
        then have "extract_members guard unread pf per_file tree total_bytes ms d = (res, d')"
          using Cons.prems(1) path by (auto split: sum.splits)
        from Cons.IH [OF this] Cons.prems(2,3) show ?thesis by simp
      next
        case False
        then have "d' = d"
          using True Cons.prems(1) path by (auto split: sum.splits if_splits)
        then show ?thesis by (rule stay)
      qed
    next
      case False
      then obtain t d1 where t: "check_archive_size (mem_size m) total_bytes per_file tree = Inr t"
        and w: "write_member p m d = Inr d1"
        by (auto simp: isl_def) (metis sum.exhaust)
      then have rest: "extract_members guard unread pf per_file tree t ms d1 = (res, d')"
        using False Cons.prems(1) path by (auto split: sum.splits)
      have t': "t = total_bytes + mem_size m" "mem_size m \<le> per_file" "t \<le> tree"
        using t by (auto simp: check_archive_size_def split: if_splits)
      have d1: "dest_files d1 = dest_files d @ [(p, mem_content m)]" "escapes d1 = escapes d" "\<not> escapes d p"
        using w by (auto simp: write_member_def split: if_splits)
      obtain new where new: "dest_files d' = dest_files d1 @ new"
        "\<forall>(p, b)\<in>set new. safe_relative p \<and> \<not> escapes d p \<and> int (length b) \<le> per_file"
        "t + written_bytes new \<le> tree"
        using Cons.IH [OF rest] Cons.prems(2) t'(3) d1(2) by auto
      have len: "int (length (mem_content m)) \<le> mem_size m" using Cons.prems(2) by simp
      show ?thesis
        using new d1 t' len archive_path_safe [OF path]
        by (intro exI [of _ "(p, mem_content m) # new"]) (auto simp: written_bytes_def)
    qed
  next
    case (Inl x)
    then show ?thesis using Cons.prems(1) stay by simp
  qed
qed (auto simp: written_bytes_def)


section \<open>What an accepted workspace looks like\<close>

definition entry_ok :: "platform \<Rightarrow> WorkspaceSpec \<Rightarrow> tree_entry \<Rightarrow> bool" where
  "entry_ok pf spec x \<longleftrightarrow> nfc pf (te_path x) = te_path x \<and>
     (case te_node x of
        Regular content links \<Rightarrow> links \<le> 1 \<and> int (length content) \<le> max_file_bytes spec \<and>
          permitted (te_path x) (allowed_paths spec @ required_paths spec) (forbidden_paths spec)
      | Symlink target there inside \<Rightarrow> symlinks spec \<noteq> ''deny'' \<and> there \<and> inside
      | _ \<Rightarrow> True) \<and>
     (case te_node x of Symlink _ _ _ \<Rightarrow> True
      | _ \<Rightarrow> submodules spec = ''deny'' \<longrightarrow> last (path_parts (te_path x)) \<noteq> ''.git'')"

fun entry_bytes :: "tree_node \<Rightarrow> int" where
  "entry_bytes (Regular content links) = int (length content)"
| "entry_bytes _ = 0"

fun is_regular :: "tree_node \<Rightarrow> bool" where
  "is_regular (Regular content links) = True"
| "is_regular _ = False"

definition tree_bytes :: "tree_entry list \<Rightarrow> int" where
  "tree_bytes xs = sum_list (map (\<lambda>x. entry_bytes (te_node x)) xs)"

definition collision_key :: "platform \<Rightarrow> tree_entry \<Rightarrow> string" where
  "collision_key pf x = casefold pf (nfc pf (te_path x))"

lemma scan_sound:
  assumes "scan pf spec seen fs n xs = Inr fs'" and "n \<le> max_tree_bytes spec"
  shows "(\<forall>x\<in>set xs. entry_ok pf spec x) \<and> distinct (map (collision_key pf) xs) \<and>
    set (map (collision_key pf) xs) \<inter> seen = {} \<and> n + tree_bytes xs \<le> max_tree_bytes spec \<and>
    set fs' = set fs \<union> te_path ` {x \<in> set xs. is_regular (te_node x)}"
  using assms
proof (induction xs arbitrary: seen fs n)
  case (Cons x xs)
  have fresh: "collision_key pf x \<notin> seen" and norm: "nfc pf (te_path x) = te_path x"
    using Cons.prems(1) by (auto simp: collision_key_def Let_def split: if_splits)
  show ?case
  proof (cases "te_node x")
    case (Regular content links)
    then have rest: "scan pf spec (insert (collision_key pf x) seen) (te_path x # fs) (n + int (length content)) xs = Inr fs'"
      and ok: "entry_ok pf spec x" and fits: "n + int (length content) \<le> max_tree_bytes spec"
      using Cons.prems(1) norm
      by (auto simp: Let_def collision_key_def entry_ok_def split: if_splits)
    from Cons.IH [OF rest fits] show ?thesis
      using ok fresh Regular by (auto simp: tree_bytes_def)
  next
    case Directory
    then have rest: "scan pf spec (insert (collision_key pf x) seen) fs n xs = Inr fs'"
      and ok: "entry_ok pf spec x"
      using Cons.prems(1) norm
      by (auto simp: Let_def collision_key_def entry_ok_def split: if_splits)
    from Cons.IH [OF rest Cons.prems(2)] show ?thesis
      using ok fresh Directory by (auto simp: tree_bytes_def)
  next
    case (Symlink target there inside)
    then have rest: "scan pf spec (insert (collision_key pf x) seen) fs n xs = Inr fs'"
      and ok: "entry_ok pf spec x"
      using Cons.prems(1) norm
      by (auto simp: Let_def collision_key_def entry_ok_def split: if_splits)
    from Cons.IH [OF rest Cons.prems(2)] show ?thesis
      using ok fresh Symlink by (auto simp: tree_bytes_def)
  next
    case Special
    then have rest: "scan pf spec (insert (collision_key pf x) seen) fs n xs = Inr fs'"
      and ok: "entry_ok pf spec x"
      using Cons.prems(1) norm
      by (auto simp: Let_def collision_key_def entry_ok_def split: if_splits)
    from Cons.IH [OF rest Cons.prems(2)] show ?thesis
      using ok fresh Special by (auto simp: tree_bytes_def)
  qed
qed (simp add: tree_bytes_def)

lemma mset_insert_entry: "mset (insert_entry x ys) = add_mset x (mset ys)"
  by (induction ys) auto

lemma mset_sort_entries: "mset (sort_entries t) = mset t"
  by (induction t) (auto simp: sort_entries_def mset_insert_entry)

lemma tree_bytes_sort: "tree_bytes (sort_entries t) = tree_bytes t"
  using mset_sort_entries [of t] by (metis tree_bytes_def mset_map sum_mset_sum_list)

lemma distinct_sort: "distinct (map f (sort_entries t)) = distinct (map f t)"
  using mset_sort_entries [of t] by (metis mset_eq_imp_distinct_iff mset_map)

lemma required_present:
  "check_required_paths fs rs = Inr () \<Longrightarrow> r \<in> set rs \<Longrightarrow> r \<in> set fs \<or> (\<exists>f\<in>set fs. prefix_of (r @ ''/'') f)"
  by (induction rs) (auto simp: list_ex_iff split: if_splits)

lemma tree_records_no_special:
  "tree_records pf links seen xs = Inr rs \<Longrightarrow> x \<in> set xs \<Longrightarrow> te_node x \<noteq> Special"
  by (induction xs arbitrary: seen rs)
    (auto simp: Let_def bind_err_eq_Inr split: if_splits tree_node.splits)

text \<open>
  C37. A workspace that validates obeys its manifest: every path is NFC-normalised and no two
  paths fold to the same name; every file is a regular file with one link, under an allowed
  or required path and under no forbidden one, within the file limit, and all together within
  the tree limit; symbolic links exist only where the manifest permits them and stay inside;
  there is no nested Git metadata where submodules are denied; every required path is there.
\<close>

theorem workspace_obeys_manifest:
  assumes "validate_workspace pf spec t = Inr digest" and "0 \<le> max_tree_bytes spec"
  shows "(\<forall>x\<in>set t. entry_ok pf spec x \<and> te_node x \<noteq> Special) \<and>
    distinct (map (\<lambda>x. casefold pf (nfc pf (te_path x))) t) \<and> tree_bytes t \<le> max_tree_bytes spec \<and>
    (\<forall>r\<in>set (required_paths spec). \<exists>x\<in>set t. is_regular (te_node x) \<and>
       (te_path x = r \<or> prefix_of (r @ ''/'') (te_path x)))"
proof -
  obtain fs rs where scan: "scan pf spec {} [] 0 (sort_entries t) = Inr fs"
    and req: "check_required_paths fs (required_paths spec) = Inr ()"
    and recs: "tree_records pf (symlinks spec) {} (sort_entries t) = Inr rs"
    using assms(1) by (auto simp: validate_workspace_def source_tree_digest_def bind_err_eq_Inr)
  note sound = scan_sound [OF scan assms(2)]
  have "\<exists>x\<in>set t. is_regular (te_node x) \<and> (te_path x = r \<or> prefix_of (r @ ''/'') (te_path x))"
    if "r \<in> set (required_paths spec)" for r
    using required_present [OF req that] sound by auto
  moreover have "te_node x \<noteq> Special" if "x \<in> set t" for x
    using tree_records_no_special [OF recs] that by simp
  ultimately show ?thesis
    using sound by (simp add: tree_bytes_sort collision_key_def [abs_def] distinct_sort)
qed

section \<open>The digest stream determines the tree\<close>

definition digits_value :: "string \<Rightarrow> nat" where
  "digits_value = foldl (\<lambda>a c. 10 * a + (of_char c - 48)) 0"

lemma show_nat_value: "digits_value (show_nat n) = n"
proof (induction n rule: show_nat.induct)
  case (1 n)
  have last: "(of_char (char_of (48 + k) :: char) :: nat) - 48 = k" if "k < 10" for k :: nat
    using that by (simp add: of_char_of)
  show ?case
  proof (cases "n < 10")
    case True
    then show ?thesis using last [of n] by (simp add: show_nat.simps [of n] digits_value_def)
  next
    case False
    have "digits_value (show_nat n) = 10 * digits_value (show_nat (n div 10)) + n mod 10"
      using False last [of "n mod 10"] by (simp add: show_nat.simps [of n] digits_value_def)
    then show ?thesis using 1 False by simp
  qed
qed

lemma show_nat_inj: "show_nat m = show_nat n \<Longrightarrow> m = n"
  by (metis show_nat_value)

lemma show_nat_no_nul: "CHR 0x00 \<notin> set (show_nat n)"
proof (induction n rule: show_nat.induct)
  case (1 n)
  have digit: "(char_of (48 + k) :: char) \<noteq> CHR 0x00" if "k < 10" for k :: nat
  proof
    assume "(char_of (48 + k) :: char) = CHR 0x00"
    then have "(of_char (char_of (48 + k) :: char) :: nat) = of_char (CHR 0x00)" by simp
    then show False using that by (simp add: of_char_of)
  qed
  show ?case
    using 1 digit [of n] digit [of "n mod 10"] by (auto simp: show_nat.simps [of n])
qed

lemma split_at:
  "xs @ c # ys = xs' @ c # ys' \<Longrightarrow> c \<notin> set xs \<Longrightarrow> c \<notin> set xs' \<Longrightarrow> xs = xs' \<and> ys = ys'"
  by (induction xs arbitrary: xs') (case_tac xs'; auto)+

text \<open>What the stream says of an entry: path, kind, size and hash of the content.\<close>

type_synonym tree_line = "string \<times> string \<times> nat \<times> string"

fun line_bytes :: "tree_line \<Rightarrow> bytes" where
  "line_bytes (path, kind, n, h) =
     path @ NUL @ kind @ NUL @ kind @ NUL @ show_nat n @ NUL @ ''sha256:'' @ h @ newline"

definition line_ok :: "tree_line \<Rightarrow> bool" where
  "line_ok l \<longleftrightarrow> (case l of (path, kind, n, h) \<Rightarrow>
     CHR 0x00 \<notin> set path \<and> CHR 0x00 \<notin> set kind \<and> length h = 64)"

lemma line_bytes_inj:
  assumes eq: "line_bytes l @ xs = line_bytes m @ ys" and "line_ok l" and "line_ok m"
  shows "l = m \<and> xs = ys"
proof -
  obtain p k n h where l: "l = (p, k, n, h)" by (cases l)
  obtain p' k' n' h' where m: "m = (p', k', n', h')" by (cases m)
  have ok: "CHR 0x00 \<notin> set p" "CHR 0x00 \<notin> set k" "length h = 64"
    "CHR 0x00 \<notin> set p'" "CHR 0x00 \<notin> set k'" "length h' = 64"
    using assms(2,3) by (auto simp: line_ok_def l m)
  have "p = p' \<and> k @ CHR 0x00 # (k @ CHR 0x00 # (show_nat n @ CHR 0x00 # (''sha256:'' @ h @ newline @ xs))) =
      k' @ CHR 0x00 # (k' @ CHR 0x00 # (show_nat n' @ CHR 0x00 # (''sha256:'' @ h' @ newline @ ys)))"
    using eq ok by (intro split_at) (simp_all add: l m NUL_def)
  moreover from this have "k = k' \<and> k @ CHR 0x00 # (show_nat n @ CHR 0x00 # (''sha256:'' @ h @ newline @ xs)) =
      k' @ CHR 0x00 # (show_nat n' @ CHR 0x00 # (''sha256:'' @ h' @ newline @ ys))"
    using ok by (intro split_at) simp_all
  ultimately have p: "p = p'" and k: "k = k'"
    and n: "show_nat n @ CHR 0x00 # (''sha256:'' @ h @ newline @ xs) =
      show_nat n' @ CHR 0x00 # (''sha256:'' @ h' @ newline @ ys)" by auto
  from split_at [OF n] have "show_nat n = show_nat n'" and h: "h @ newline @ xs = h' @ newline @ ys"
    by (simp_all add: show_nat_no_nul)
  moreover from h ok have "h = h' \<and> xs = ys" by (auto simp: newline_def)
  ultimately show ?thesis using p k show_nat_inj by (auto simp: l m)
qed

lemma line_bytes_nonempty: "line_bytes l \<noteq> []"
  by (cases l) (simp add: NUL_def)

lemma line_stream_inj:
  assumes "concat (map line_bytes ls) = concat (map line_bytes ms)"
    and "list_all line_ok ls" and "list_all line_ok ms"
  shows "ls = ms"
  using assms
proof (induction ls arbitrary: ms)
  case Nil
  then show ?case by (cases ms) (auto simp: line_bytes_nonempty)
next
  case (Cons l ls)
  then obtain m ms' where ms: "ms = m # ms'" by (cases ms) (auto simp: line_bytes_nonempty)
  with Cons.prems have "l = m \<and> concat (map line_bytes ls) = concat (map line_bytes ms')"
    by (intro line_bytes_inj) auto
  with Cons.IH [of ms'] Cons.prems ms show ?case by simp
qed

fun entry_line :: "platform \<Rightarrow> tree_entry \<Rightarrow> tree_line list" where
  "entry_line pf x =
     (case te_node x of
        Regular content links \<Rightarrow> [(nfc pf (te_path x), ''regular'', length content, sha256 pf content)]
      | Symlink target there inside \<Rightarrow> [(nfc pf (te_path x), ''symlink'', length target, sha256 pf target)]
      | _ \<Rightarrow> [])"

definition tree_lines :: "platform \<Rightarrow> tree_entry list \<Rightarrow> tree_line list" where
  "tree_lines pf t = concat (map (entry_line pf) (sort_entries t))"

lemma tree_records_lines:
  "tree_records pf links seen xs = Inr rs \<Longrightarrow> rs = map line_bytes (concat (map (entry_line pf) xs))"
  by (induction xs arbitrary: seen rs)
    (auto simp: Let_def bind_err_eq_Inr tree_record_def split: if_splits tree_node.splits)

lemma tree_lines_ok:
  assumes "hex_hash (sha256 pf)" and "\<forall>x\<in>set t. CHR 0x00 \<notin> set (nfc pf (te_path x))"
  shows "list_all line_ok (tree_lines pf t)"
  using assms
  by (auto simp: tree_lines_def list_all_iff line_ok_def hex_hash_def split: tree_node.splits)

text \<open>
  C38. The digest of a source tree identifies it as far as the hash does: when two trees have
  the same digest and the hash does not collide on their record streams, both list the same
  paths, kinds, sizes and content hashes in the same order. (Paths hold no NUL byte, and the
  hash is 64 hexadecimal digits.)
\<close>

theorem tree_digest_identifies:
  assumes "source_tree_digest pf links t = Inr d" and "source_tree_digest pf links' u = Inr d"
    and "hex_hash (sha256 pf)"
    and "collision_free (sha256 pf) (concat (map line_bytes (tree_lines pf t)))"
    and "\<forall>x\<in>set t \<union> set u. CHR 0x00 \<notin> set (nfc pf (te_path x))"
  shows "tree_lines pf t = tree_lines pf u"
proof (rule line_stream_inj)
  have "sha256 pf (concat (map line_bytes (tree_lines pf u))) =
      sha256 pf (concat (map line_bytes (tree_lines pf t)))"
    using assms(1,2)
    by (auto simp: source_tree_digest_def bind_err_eq_Inr tree_lines_def dest!: tree_records_lines)
  then show "concat (map line_bytes (tree_lines pf t)) = concat (map line_bytes (tree_lines pf u))"
    using assms(4) unfolding collision_free_def by metis
qed (use assms(3,5) in \<open>auto intro!: tree_lines_ok\<close>)

section \<open>Witnesses\<close>

definition demo_stream :: bytes where
  "demo_stream = line_bytes (''src/f'', ''regular'', 4, replicate 64 (CHR ''b''))"

definition demo_platform :: platform where
  "demo_platform = \<lparr>nfc = (\<lambda>x. x), casefold = (\<lambda>x. x),
     sha256 = (\<lambda>d. replicate 64 (if d = demo_stream then CHR ''a'' else CHR ''b''))\<rparr>"

definition demo_tree :: "tree_entry list" where
  "demo_tree = [\<lparr>te_path = ''src/f'', te_node = Regular ''data'' 1\<rparr>, \<lparr>te_path = ''src'', te_node = Directory\<rparr>]"

definition demo_rules :: WorkspaceSpec where
  "demo_rules = \<lparr>source_uri = ''file'', source_revision = ''1'', ws_source_tree_digest = ''d'',
     allowed_paths = [''src''], forbidden_paths = [''src/secret''], required_paths = [''src''],
     max_file_bytes = 10, max_tree_bytes = 10, submodules = ''deny'', symlinks = ''deny''\<rparr>"

lemma demo_valid: "validate_workspace demo_platform demo_rules demo_tree = Inr (''sha256:'' @ replicate 64 (CHR ''a''))"
  by code_simp

theorem workspace_obeys_manifest_witness: "tree_bytes demo_tree \<le> 10"
proof -
  have "0 \<le> max_tree_bytes demo_rules" by (simp add: demo_rules_def)
  from workspace_obeys_manifest [OF demo_valid this] show ?thesis by (simp add: demo_rules_def)
qed

lemma demo_digests:
  "source_tree_digest demo_platform ''deny'' demo_tree = Inr (''sha256:'' @ replicate 64 (CHR ''a''))"
  "source_tree_digest demo_platform ''internal_only'' (take 1 demo_tree) = Inr (''sha256:'' @ replicate 64 (CHR ''a''))"
  "concat (map line_bytes (tree_lines demo_platform demo_tree)) = demo_stream"
  by code_simp+

theorem tree_digest_identifies_witness:
  "tree_lines demo_platform demo_tree = tree_lines demo_platform (take 1 demo_tree)"
proof (rule tree_digest_identifies [OF demo_digests(1,2)])
  show "hex_hash (sha256 demo_platform)"
    by (simp add: hex_hash_def demo_platform_def list_all_iff)
  show "collision_free (sha256 demo_platform) (concat (map line_bytes (tree_lines demo_platform demo_tree)))"
    unfolding demo_digests(3) by (auto simp: collision_free_def demo_platform_def)
  show "\<forall>x\<in>set demo_tree \<union> set (take 1 demo_tree). CHR 0x00 \<notin> set (nfc demo_platform (te_path x))"
    by code_simp
qed

definition demo_archive :: "archive_member list" where
  "demo_archive = [\<lparr>mem_name = ''a/'', mem_kind = M_directory, mem_size = 0, mem_content = [], mem_readable = True\<rparr>,
     \<lparr>mem_name = ''a/f'', mem_kind = M_file, mem_size = 4, mem_content = ''data'', mem_readable = True\<rparr>,
     \<lparr>mem_name = ''../g'', mem_kind = M_file, mem_size = 1, mem_content = ''x'', mem_readable = True\<rparr>]"

definition demo_target :: destination where
  "demo_target = \<lparr>dest_files = [(''old'', ''o'')], escapes = (\<lambda>p. False)\<rparr>"

definition demo_extracted :: destination where
  "demo_extracted = snd (safe_extract_zip demo_platform 8 8 demo_archive demo_target)"

lemma demo_extraction:
  "fst (safe_extract_zip demo_platform 8 8 demo_archive demo_target) =
     Inl (UnsafeWorkspaceError ''unsafe archive path: ../g'')"
  "dest_files demo_extracted = [(''old'', ''o''), (''a/f'', ''data'')]"
  by code_simp+


end
