(* ===== verification/PromotionPolicy.thy ===== *)
theory PromotionPolicy
  imports Workspace "HOL-Library.Char_ord" "HOL-Library.List_Lexorder"
begin

text \<open>
  The controller-owned promotion policy (contracts/promotion_policy.py): valid promotion paths,
  the risk class that a set of changed paths carries, and the decision over the attestations of
  a request. Unicode normalisation and case folding come from the platform record of the
  workspace theory; the hash of the canonical JSON list of paths is a parameter.
\<close>

section \<open>Paths\<close>

definition windows_reserved_names :: "string list" where
  "windows_reserved_names =
     [''con'', ''prn'', ''aux'', ''nul''] @
     map (\<lambda>d. ''com'' @ [d]) ''123456789'' @ map (\<lambda>d. ''lpt'' @ [d]) ''123456789''"

definition starts_with :: "string list \<Rightarrow> string \<Rightarrow> bool" where
  "starts_with ps x \<longleftrightarrow> list_ex (\<lambda>p. prefix_of p x) ps"

definition ends_with :: "string list \<Rightarrow> string \<Rightarrow> bool" where
  "ends_with qs x \<longleftrightarrow> list_ex (\<lambda>q. prefix_of (rev q) (rev x)) qs"

fun contains :: "string \<Rightarrow> string \<Rightarrow> bool" where
  "contains t [] \<longleftrightarrow> t = []"
| "contains t (c # cs) \<longleftrightarrow> prefix_of t (c # cs) \<or> contains t cs"

definition is_valid_promotion_path :: "platform \<Rightarrow> string \<Rightarrow> bool" where
  "is_valid_promotion_path pf path =
     (let parts = split_on (CHR ''/'') path in
      \<not> (nfc pf path \<noteq> path \<or>
         list_ex (\<lambda>c. (of_char c :: nat) < 32) path \<or>
         CHR 0x5C \<in> set path \<or> CHR '':'' \<in> set path \<or>
         list_ex (\<lambda>c. c \<in> set [CHR ''<'', CHR ''>'', CHR 0x22, CHR ''|'', CHR ''?'', CHR ''*'']) path \<or>
         starts_with [''/'', ''~''] path \<or>
         list_ex (\<lambda>part. part \<in> set [[], ''.'', ''..''] \<or> ends_with ['' '', ''.''] part) parts \<or>
         list_ex (\<lambda>part. casefold pf (hd (split_on (CHR ''.'') part)) \<in> set windows_reserved_names) parts))"

text \<open>\<open>json_digest\<close> stands for the SHA-256 digest of the JSON list of the folded paths.\<close>

definition path_manifest_digest :: "platform \<Rightarrow> (string list \<Rightarrow> string) \<Rightarrow> string list \<Rightarrow> string" where
  "path_manifest_digest pf json_digest paths = ''sha256:'' @ json_digest (sort (map (casefold pf) paths))"

definition validate_changed_paths :: "platform \<Rightarrow> string list \<Rightarrow> err + string list" where
  "validate_changed_paths pf paths =
     (if paths = [] then Inl (ValueError ''changed paths cannot be empty'')
      else if list_ex (\<lambda>p. \<not> is_valid_promotion_path pf p) paths
      then Inl (ValueError ''paths must be normalized relative paths'')
      else if \<not> distinct (map (casefold pf) paths)
      then Inl (ValueError ''changed paths must not contain case or Unicode collisions'')
      else Inr paths)"

section \<open>Risk\<close>

datatype RiskClass = LOW | ORDINARY | CONSTITUTIONAL | PRODUCTION

fun risk_value :: "RiskClass \<Rightarrow> string" where
  "risk_value LOW = ''low''"
| "risk_value ORDINARY = ''ordinary''"
| "risk_value CONSTITUTIONAL = ''constitutional''"
| "risk_value PRODUCTION = ''production''"

fun risk_rank :: "RiskClass \<Rightarrow> nat" where
  "risk_rank LOW = 0"
| "risk_rank ORDINARY = 1"
| "risk_rank CONSTITUTIONAL = 2"
| "risk_rank PRODUCTION = 3"

text \<open>The classes are ordered by how much they restrict.\<close>

instantiation RiskClass :: linorder
begin

definition less_eq_RiskClass :: "RiskClass \<Rightarrow> RiskClass \<Rightarrow> bool" where
  "less_eq_RiskClass a b \<longleftrightarrow> risk_rank a \<le> risk_rank b"

definition less_RiskClass :: "RiskClass \<Rightarrow> RiskClass \<Rightarrow> bool" where
  "less_RiskClass a b \<longleftrightarrow> risk_rank a < risk_rank b"

instance
proof
  show "a = b" if "a \<le> b" "b \<le> a" for a b :: RiskClass
    using that by (cases a; cases b) (simp_all add: less_eq_RiskClass_def)
qed (auto simp: less_eq_RiskClass_def less_RiskClass_def)

end

definition CONSTITUTIONAL_EXACT :: "string list" where
  "CONSTITUTIONAL_EXACT =
     [''.gitattributes'', ''.gitmodules'', ''pyproject.toml'', ''docs/roadmap.md'', ''uv.lock'',
      ''poetry.lock'', ''pdm.lock'', ''package-lock.json'', ''yarn.lock'', ''pnpm-lock.yaml'',
      ''bun.lockb'', ''cargo.lock'', ''gemfile.lock'', ''composer.lock'', ''go.sum'']"

definition CONSTITUTIONAL_PREFIXES :: "string list" where
  "CONSTITUTIONAL_PREFIXES =
     [''.agents/skills/avo-roadmap/'', ''.github/'', ''schemas/'', ''migrations/'', ''evaluators/private/'',
      ''sandbox/'', ''credentials/'', ''.credentials/'', ''secrets/'', ''.secrets/'',
      ''src/avo_correlate/adapters/policy/'', ''src/avo_correlate/adapters/persistence/migrations/'']"

definition CONSTITUTIONAL_AUTHORITY_PATHS :: "string list" where
  "CONSTITUTIONAL_AUTHORITY_PATHS =
     [''scripts/run_sanitized_integration_campaign.py'',
      ''src/avo_correlate/application/campaign.py'',
      ''src/avo_correlate/application/integration_campaign_service.py'',
      ''src/avo_correlate/application/integration_attester_drill_service.py'',
      ''src/avo_correlate/application/integration_drill_service.py'',
      ''src/avo_correlate/application/integration_promotion_service.py'',
      ''src/avo_correlate/application/integration_rollback_service.py'',
      ''src/avo_correlate/application/promotion_service.py'',
      ''src/avo_correlate/application/synthetic_validation_service.py'',
      ''src/avo_correlate/adapters/artifacts/campaign_journal.py'',
      ''src/avo_correlate/adapters/artifacts/drill_journal.py'',
      ''src/avo_correlate/adapters/artifacts/promotion_journal.py'',
      ''src/avo_correlate/adapters/artifacts/synthetic_validation_journal.py'',
      ''src/avo_correlate/contracts/integration_campaign.py'',
      ''src/avo_correlate/contracts/integration_drill.py'',
      ''src/avo_correlate/contracts/integration_promotion.py'',
      ''src/avo_correlate/contracts/policy.py'',
      ''src/avo_correlate/contracts/policy_bundle.py'',
      ''src/avo_correlate/contracts/promotion_bundle.py'',
      ''src/avo_correlate/contracts/synthetic_validation.py'',
      ''scripts/run_avo0046_drills.py'']"

definition CONSTITUTIONAL_AUTHORITY_PREFIXES :: "string list" where
  "CONSTITUTIONAL_AUTHORITY_PREFIXES =
     [''src/avo_correlate/adapters/hosted_git/'', ''src/avo_correlate/adapters/git/'']"

definition CONSTITUTIONAL_TERMS :: "string list" where
  "CONSTITUTIONAL_TERMS =
     [''admission'', ''budget'', ''controller'', ''graduation'', ''lifecycle'', ''policy'', ''promotion'',
      ''provenance'']"

definition DEPENDENCY_FILENAMES :: "string list" where
  "DEPENDENCY_FILENAMES =
     [''bun.lockb'', ''cargo.lock'', ''cargo.toml'', ''composer.lock'', ''composer.json'', ''deno.json'',
      ''deno.jsonc'', ''deno.lock'', ''deps.edn'', ''flake.lock'', ''flake.nix'', ''gemfile'',
      ''gemfile.lock'', ''go.mod'', ''go.sum'', ''gradle.lockfile'', ''gradle.properties'', ''mix.exs'',
      ''mix.lock'', ''npm-shrinkwrap.json'', ''package.json'', ''package-lock.json'', ''package.resolved'',
      ''package.swift'', ''pdm.lock'', ''pipfile'', ''pipfile.lock'', ''pnpm-lock.yaml'', ''poetry.lock'',
      ''pom.xml'', ''project.clj'', ''pubspec.lock'', ''pubspec.yaml'', ''pyproject.toml'', ''uv.lock'',
      ''yarn.lock'']"

definition PRODUCTION_PREFIXES :: "string list" where
  "PRODUCTION_PREFIXES = [''deploy/'', ''production/'', ''infra/'', ''ops/'']"

definition constitutional_path :: "string \<Rightarrow> bool" where
  "constitutional_path path =
     (let filename = last (split_on (CHR ''/'') path) in
      path \<in> set CONSTITUTIONAL_EXACT \<or>
      path \<in> set CONSTITUTIONAL_AUTHORITY_PATHS \<or>
      starts_with CONSTITUTIONAL_PREFIXES path \<or>
      starts_with CONSTITUTIONAL_AUTHORITY_PREFIXES path \<or>
      filename \<in> set DEPENDENCY_FILENAMES \<or>
      ends_with [''.lock'', ''.lockb'', ''-lock.json''] filename \<or>
      starts_with [''requirements''] filename \<and> ends_with [''.in'', ''.txt''] filename \<or>
      starts_with [''build.gradle'', ''settings.gradle''] filename \<or>
      filename = ''.env'' \<or>
      list_ex (\<lambda>t. contains t path) CONSTITUTIONAL_TERMS)"

definition derive_risk :: "platform \<Rightarrow> string list \<Rightarrow> err + RiskClass" where
  "derive_risk pf paths =
     bind_err (validate_changed_paths pf paths) (\<lambda>_.
       let normalized = map (casefold pf) paths in
       Inr (if list_ex (starts_with PRODUCTION_PREFIXES) normalized then PRODUCTION
            else if list_ex constitutional_path normalized then CONSTITUTIONAL
            else if list_all (starts_with [''docs/'', ''tests/'']) normalized then LOW
            else ORDINARY))"

section \<open>Attestations\<close>

text \<open>What the four attestations share; each extends it by its own statement.\<close>

record attestation =
  at_candidate_digest :: string
  at_base_digest :: string
  at_evidence_digest :: string
  at_issuer_id :: string
  at_valid_from_epoch :: int
  at_valid_until_epoch :: int

record GateAttestation = attestation +
  gate_name :: string
  ga_passed :: bool

record ReviewerAttestation = attestation +
  at_reviewer_id :: string
  approved :: bool

record RollbackAttestation = attestation +
  rollback_count :: int
  available :: bool

record PathManifestAttestation = attestation +
  pa_path_manifest_digest :: string

definition validate_window :: "'a attestation_scheme \<Rightarrow> err + unit" where
  "validate_window a =
     (if at_valid_until_epoch a < at_valid_from_epoch a then Inl (ValueError ''validity window is reversed'')
      else Inr ())"

definition check_attestation :: "'a attestation_scheme \<Rightarrow> err + 'a attestation_scheme" where
  "check_attestation a =
     bind_err (sha256_digest (at_candidate_digest a)) (\<lambda>c.
     bind_err (sha256_digest (at_base_digest a)) (\<lambda>b.
     bind_err (sha256_digest (at_evidence_digest a)) (\<lambda>d.
     bind_err (non_empty_string (at_issuer_id a)) (\<lambda>i.
     if at_valid_from_epoch a < 0 \<or> at_valid_until_epoch a < 0
     then Inl (ValueError ''Input should be greater than or equal to 0'')
     else bind_err (validate_window a) (\<lambda>_.
       Inr (a\<lparr>at_candidate_digest := c, at_base_digest := b, at_evidence_digest := d,
         at_issuer_id := i\<rparr>))))))"

definition mk_gate :: "GateAttestation \<Rightarrow> err + GateAttestation" where
  "mk_gate a =
     bind_err (non_empty_string (gate_name a)) (\<lambda>n.
     bind_err (check_attestation a) (\<lambda>a. Inr (a\<lparr>gate_name := n\<rparr>)))"

definition mk_reviewer :: "ReviewerAttestation \<Rightarrow> err + ReviewerAttestation" where
  "mk_reviewer a =
     bind_err (non_empty_string (at_reviewer_id a)) (\<lambda>n.
     bind_err (check_attestation a) (\<lambda>a. Inr (a\<lparr>at_reviewer_id := n\<rparr>)))"

definition mk_rollback :: "RollbackAttestation \<Rightarrow> err + RollbackAttestation" where
  "mk_rollback a =
     (if rollback_count a < 0 then Inl (ValueError ''Input should be greater than or equal to 0'')
      else check_attestation a)"

definition mk_path_manifest :: "PathManifestAttestation \<Rightarrow> err + PathManifestAttestation" where
  "mk_path_manifest a =
     bind_err (check_attestation a) (\<lambda>a.
     bind_err (sha256_digest (pa_path_manifest_digest a)) (\<lambda>d.
     Inr (a\<lparr>pa_path_manifest_digest := d\<rparr>)))"

section \<open>Requests and decisions\<close>

record PromotionConfig =
  evaluation_epoch :: int
  gate_issuers_dict :: "(string \<times> string list) list"
  trusted_base_issuers :: "string list"
  trusted_reviewer_issuers :: "string list"
  trusted_path_issuers :: "string list"
  rollback_issuer_ids :: "string list"
  rollback_limit :: int
  reviewer_domains_dict :: "(string \<times> string) list"
  proposer_domains_dict :: "(string \<times> string) list"
  candidate_proposers_dict :: "(string \<times> string) list"
  low_gates :: "string list"
  ordinary_gates :: "string list"

text \<open>The dictionaries of a configuration are used for look-ups only.\<close>

abbreviation trusted_gate_issuers :: "PromotionConfig \<Rightarrow> string \<rightharpoonup> string list" where
  "trusted_gate_issuers c \<equiv> map_of (gate_issuers_dict c)"

abbreviation reviewer_domains :: "PromotionConfig \<Rightarrow> string \<rightharpoonup> string" where
  "reviewer_domains c \<equiv> map_of (reviewer_domains_dict c)"

abbreviation proposer_domains :: "PromotionConfig \<Rightarrow> string \<rightharpoonup> string" where
  "proposer_domains c \<equiv> map_of (proposer_domains_dict c)"

abbreviation candidate_proposers :: "PromotionConfig \<Rightarrow> string \<rightharpoonup> string" where
  "candidate_proposers c \<equiv> map_of (candidate_proposers_dict c)"

record PromotionRequest =
  pq_candidate_id :: string
  pq_proposer_id :: string
  pq_candidate_digest :: string
  pq_base_digest :: string
  changed_paths :: "string list"
  path_manifest_attestation :: PathManifestAttestation
  base_attestation :: GateAttestation
  gate_attestations :: "GateAttestation list"
  reviewer_attestations :: "ReviewerAttestation list"
  rollback_attestation :: "RollbackAttestation option"
  exception_requested :: bool

datatype PromotionOutcome = PO_ALLOW | PO_DENY | PO_QUARANTINE | PO_ESCALATE

record PromotionDecision =
  pdn_candidate_id :: string
  pdn_outcome :: PromotionOutcome
  risk_class :: RiskClass
  pdn_reason_codes :: "string list"
  required_quorum :: int

definition mk_promotion_request :: "platform \<Rightarrow> PromotionRequest \<Rightarrow> err + PromotionRequest" where
  "mk_promotion_request pf q =
     bind_err (non_empty_string (pq_candidate_id q)) (\<lambda>c.
     bind_err (non_empty_string (pq_proposer_id q)) (\<lambda>p.
     bind_err (sha256_digest (pq_candidate_digest q)) (\<lambda>cd.
     bind_err (sha256_digest (pq_base_digest q)) (\<lambda>bd.
     bind_err (map_err non_empty_string (changed_paths q)) (\<lambda>ps.
     bind_err (validate_changed_paths pf ps) (\<lambda>ps.
     bind_err (mk_path_manifest (path_manifest_attestation q)) (\<lambda>pm.
     bind_err (mk_gate (base_attestation q)) (\<lambda>b.
     bind_err (map_err mk_gate (gate_attestations q)) (\<lambda>gs.
     bind_err (map_err mk_reviewer (reviewer_attestations q)) (\<lambda>rs.
     bind_err (case rollback_attestation q of None \<Rightarrow> Inr None
         | Some r \<Rightarrow> bind_err (mk_rollback r) (\<lambda>r. Inr (Some r))) (\<lambda>rb.
     Inr \<lparr>pq_candidate_id = c, pq_proposer_id = p, pq_candidate_digest = cd, pq_base_digest = bd,
       changed_paths = ps, path_manifest_attestation = pm, base_attestation = b, gate_attestations = gs,
       reviewer_attestations = rs, rollback_attestation = rb,
       exception_requested = exception_requested q\<rparr>)))))))))))"

section \<open>Predicates of the policy\<close>

definition bound :: "'a attestation_scheme \<Rightarrow> PromotionRequest \<Rightarrow> int \<Rightarrow> string list \<Rightarrow> bool" where
  "bound a q epoch issuers \<longleftrightarrow>
     at_candidate_digest a = pq_candidate_digest q \<and> at_base_digest a = pq_base_digest q \<and>
     at_issuer_id a \<in> set issuers \<and> at_valid_from_epoch a \<le> epoch \<and> epoch \<le> at_valid_until_epoch a"

definition path_manifest_valid ::
  "platform \<Rightarrow> (string list \<Rightarrow> string) \<Rightarrow> PromotionRequest \<Rightarrow> PromotionConfig \<Rightarrow> bool" where
  "path_manifest_valid pf json_digest q c \<longleftrightarrow>
     pa_path_manifest_digest (path_manifest_attestation q) =
       path_manifest_digest pf json_digest (changed_paths q) \<and>
     bound (path_manifest_attestation q) q (evaluation_epoch c) (trusted_path_issuers c)"

definition base_valid :: "GateAttestation \<Rightarrow> PromotionRequest \<Rightarrow> PromotionConfig \<Rightarrow> bool" where
  "base_valid a q c \<longleftrightarrow>
     gate_name a = ''base'' \<and> ga_passed a \<and> bound a q (evaluation_epoch c) (trusted_base_issuers c)"

definition gate_valid :: "GateAttestation \<Rightarrow> PromotionRequest \<Rightarrow> string \<Rightarrow> PromotionConfig \<Rightarrow> bool" where
  "gate_valid a q gate c \<longleftrightarrow>
     gate_name a = gate \<and>
     bound a q (evaluation_epoch c) (case trusted_gate_issuers c gate of None \<Rightarrow> [] | Some is \<Rightarrow> is)"

definition gate_passed :: "PromotionRequest \<Rightarrow> PromotionConfig \<Rightarrow> string \<Rightarrow> bool" where
  "gate_passed q c gate \<longleftrightarrow> list_ex (\<lambda>a. ga_passed a \<and> gate_valid a q gate c) (gate_attestations q)"

definition failed_gate :: "PromotionRequest \<Rightarrow> PromotionConfig \<Rightarrow> string \<Rightarrow> bool" where
  "failed_gate q c gate \<longleftrightarrow> list_ex (\<lambda>a. \<not> ga_passed a \<and> gate_valid a q gate c) (gate_attestations q)"

definition conflicting_gate :: "PromotionRequest \<Rightarrow> PromotionConfig \<Rightarrow> string \<Rightarrow> bool" where
  "conflicting_gate q c gate =
     (let trusted = filter (\<lambda>a. gate_valid a q gate c) (gate_attestations q)
      in list_ex ga_passed trusted \<and> list_ex (\<lambda>a. \<not> ga_passed a) trusted)"

definition duplicate_gate :: "PromotionRequest \<Rightarrow> PromotionConfig \<Rightarrow> string \<Rightarrow> bool" where
  "duplicate_gate q c gate \<longleftrightarrow> length (filter (\<lambda>a. gate_valid a q gate c) (gate_attestations q)) > 1"

definition has_invalid_gate_evidence :: "PromotionRequest \<Rightarrow> PromotionConfig \<Rightarrow> string \<Rightarrow> bool" where
  "has_invalid_gate_evidence q c gate \<longleftrightarrow>
     list_ex (\<lambda>a. gate_name a = gate \<and> \<not> gate_valid a q gate c) (gate_attestations q)"

definition reviewer_valid :: "ReviewerAttestation \<Rightarrow> PromotionRequest \<Rightarrow> PromotionConfig \<Rightarrow> bool" where
  "reviewer_valid a q c \<longleftrightarrow>
     reviewer_domains c (at_reviewer_id a) \<noteq> None \<and> at_issuer_id a \<in> set (trusted_reviewer_issuers c) \<and>
     at_candidate_digest a = pq_candidate_digest q \<and> at_base_digest a = pq_base_digest q \<and>
     at_valid_from_epoch a \<le> evaluation_epoch c \<and> evaluation_epoch c \<le> at_valid_until_epoch a"

section \<open>The decision\<close>

definition required_gates :: "RiskClass \<Rightarrow> PromotionConfig \<Rightarrow> string list" where
  "required_gates risk c = (if risk = LOW then low_gates c else ordinary_gates c)"

text \<open>\<open>sorted(gate for gate in required_gates if \<dots>)\<close> over a set of names.\<close>

definition bad_gates :: "(string \<Rightarrow> bool) \<Rightarrow> string list \<Rightarrow> string list" where
  "bad_gates bad gates = sort (remdups (filter bad gates))"

definition quorum_of :: "RiskClass \<Rightarrow> int" where
  "quorum_of risk = (if risk = LOW then 1 else 2)"

definition decision ::
  "PromotionRequest \<Rightarrow> PromotionOutcome \<Rightarrow> RiskClass \<Rightarrow> string list \<Rightarrow> int \<Rightarrow> PromotionDecision" where
  "decision q outcome risk reasons quorum = \<lparr>pdn_candidate_id = pq_candidate_id q, pdn_outcome = outcome,
     risk_class = risk, pdn_reason_codes = reasons, required_quorum = quorum\<rparr>"

definition reviewers_decide :: "PromotionRequest \<Rightarrow> PromotionConfig \<Rightarrow> RiskClass \<Rightarrow> PromotionDecision" where
  "reviewers_decide q c risk =
     (let quorum = quorum_of risk; rs = reviewer_attestations q;
          approvals = filter (\<lambda>r. approved r \<and>
            proposer_domains c (pq_proposer_id q) \<noteq> reviewer_domains c (at_reviewer_id r)) rs
      in if rs = [] then decision q PO_QUARANTINE risk [''missing_reviewer_evidence''] quorum
         else if \<not> distinct (map at_reviewer_id rs)
         then decision q PO_QUARANTINE risk [''duplicate_reviewer_evidence''] quorum
         else if list_ex (\<lambda>r. \<not> reviewer_valid r q c) rs
         then decision q PO_QUARANTINE risk [''invalid_reviewer_evidence''] quorum
         else if exception_requested q then decision q PO_ESCALATE risk [''operator_exception''] quorum
         else if list_ex (\<lambda>r. \<not> approved r) rs
         then decision q PO_ESCALATE risk [''reviewer_disagreement''] quorum
         else if int (length approvals) < quorum \<or>
           int (card (set (map (\<lambda>r. reviewer_domains c (at_reviewer_id r)) approvals))) < quorum
         then decision q PO_DENY risk [''review_quorum_not_met''] quorum
         else decision q PO_ALLOW risk [''requirements_satisfied''] quorum)"

definition gates_decide :: "PromotionRequest \<Rightarrow> PromotionConfig \<Rightarrow> RiskClass \<Rightarrow> PromotionDecision" where
  "gates_decide q c risk =
     (let quorum = quorum_of risk; gates = required_gates risk c;
          invalid = bad_gates (has_invalid_gate_evidence q c) gates;
          missing = bad_gates (\<lambda>g. \<not> gate_passed q c g) gates
      in if invalid \<noteq> [] then decision q PO_QUARANTINE risk (map (\<lambda>g. ''invalid_gate:'' @ g) invalid) quorum
         else if missing \<noteq> [] then decision q PO_QUARANTINE risk (map (\<lambda>g. ''missing_gate:'' @ g) missing) quorum
         else reviewers_decide q c risk)"

definition rollback_decides :: "PromotionRequest \<Rightarrow> PromotionConfig \<Rightarrow> RiskClass \<Rightarrow> PromotionDecision" where
  "rollback_decides q c risk =
     (let quorum = quorum_of risk;
          bound_rollback = (\<lambda>r. bound r q (evaluation_epoch c) (rollback_issuer_ids c));
          attested = rollback_attestation q
      in if \<exists>r\<in>set_option attested. bound_rollback r \<and> \<not> available r
         then decision q PO_DENY risk [''rollback_unavailable''] quorum
         else if \<exists>r\<in>set_option attested. bound_rollback r \<and> rollback_count r > rollback_limit c
         then decision q PO_DENY risk [''rollback_limit_exceeded''] quorum
         else if \<not> base_valid (base_attestation q) q c
         then decision q PO_QUARANTINE risk [''untrusted_or_stale_base''] quorum
         else case attested of
             None \<Rightarrow> decision q PO_QUARANTINE risk [''missing_rollback_evidence''] quorum
           | Some r \<Rightarrow> if \<not> bound_rollback r
               then decision q PO_QUARANTINE risk [''invalid_rollback_evidence''] quorum
               else gates_decide q c risk)"

definition classify ::
  "platform \<Rightarrow> (string list \<Rightarrow> string) \<Rightarrow> PromotionRequest \<Rightarrow> PromotionConfig \<Rightarrow> err + PromotionDecision" where
  "classify pf json_digest q c =
     bind_err (derive_risk pf (changed_paths q)) (\<lambda>risk.
       let quorum = quorum_of risk; gates = required_gates risk c;
           conflicting = bad_gates (conflicting_gate q c) gates;
           duplicate = bad_gates (duplicate_gate q c) gates;
           failed = bad_gates (failed_gate q c) gates
       in Inr (
         if risk = PRODUCTION then decision q PO_DENY risk [''production_out_of_scope''] quorum
         else if \<not> path_manifest_valid pf json_digest q c
         then decision q PO_QUARANTINE risk [''invalid_path_manifest''] quorum
         else if proposer_domains c (pq_proposer_id q) = None \<or>
           candidate_proposers c (pq_candidate_digest q) \<noteq> Some (pq_proposer_id q)
         then decision q PO_QUARANTINE risk [''invalid_proposer_identity''] quorum
         else if conflicting \<noteq> []
         then decision q PO_QUARANTINE risk (map (\<lambda>g. ''conflicting_gate:'' @ g) conflicting) quorum
         else if duplicate \<noteq> []
         then decision q PO_QUARANTINE risk (map (\<lambda>g. ''duplicate_gate:'' @ g) duplicate) quorum
         else if failed \<noteq> []
         then decision q PO_DENY risk (map (\<lambda>g. ''failed_gate:'' @ g) failed) quorum
         else if list_ex (\<lambda>r. at_reviewer_id r = pq_proposer_id q \<and> reviewer_valid r q c)
           (reviewer_attestations q)
         then decision q PO_DENY risk [''self_approval''] quorum
         else if risk = CONSTITUTIONAL then decision q PO_ESCALATE risk [''constitutional_change''] 2
         else rollback_decides q c risk))"


section \<open>Properties\<close>

lemma bad_gates_Nil: "bad_gates bad gates = [] \<longleftrightarrow> (\<forall>g\<in>set gates. \<not> bad g)"
  by (metis (no_types, lifting) bad_gates_def empty_set filter_empty_conv set_empty set_remdups set_sort)

lemma decision_simps [simp]:
  "pdn_outcome (decision q x risk rs n) = x" "risk_class (decision q x risk rs n) = risk"
  "required_quorum (decision q x risk rs n) = n"
  by (simp_all add: decision_def)

lemma derive_risk_cases:
  assumes "derive_risk pf paths = Inr r"
  shows "validate_changed_paths pf paths = Inr paths"
    and "r = PRODUCTION \<longleftrightarrow> (\<exists>p\<in>set paths. starts_with PRODUCTION_PREFIXES (casefold pf p))"
    and "r \<ge> CONSTITUTIONAL \<longleftrightarrow> r = PRODUCTION \<or> (\<exists>p\<in>set paths. constitutional_path (casefold pf p))"
    and "r = LOW \<longrightarrow> (\<forall>p\<in>set paths. starts_with [''docs/'', ''tests/''] (casefold pf p))"
    and "r \<noteq> LOW \<and> r < CONSTITUTIONAL \<longrightarrow> (\<exists>p\<in>set paths. \<not> starts_with [''docs/'', ''tests/''] (casefold pf p))"
  using assms
  by (auto simp: derive_risk_def bind_err_eq_Inr validate_changed_paths_def Let_def list_ex_iff list_all_iff
      less_eq_RiskClass_def less_RiskClass_def split: if_splits)

lemma derive_risk_Inr: "validate_changed_paths pf paths = Inr ps \<Longrightarrow> \<exists>r. derive_risk pf paths = Inr r"
  by (simp add: derive_risk_def Let_def)

text \<open>
  Changing more paths never lowers the risk: the class of a set of paths that contains
  another is at least as restrictive, in the order low, ordinary, constitutional, production.
\<close>

theorem risk_monotone:
  assumes "derive_risk pf paths = Inr r" and "derive_risk pf paths' = Inr r'" and "set paths \<subseteq> set paths'"
  shows "r \<le> r'"
proof -
  note d = derive_risk_cases [OF assms(1)] and d' = derive_risk_cases [OF assms(2)]
  show ?thesis
  proof (cases r)
    case LOW
    then show ?thesis by (simp add: less_eq_RiskClass_def)
  next
    case ORDINARY
    then obtain p where "p \<in> set paths'" "\<not> starts_with [''docs/'', ''tests/''] (casefold pf p)"
      using d(5) assms(3) by (auto simp: less_RiskClass_def)
    with d'(4) have "r' \<noteq> LOW" by blast
    with ORDINARY show ?thesis by (cases r') (simp_all add: less_eq_RiskClass_def)
  next
    case CONSTITUTIONAL
    then have "CONSTITUTIONAL \<le> r'" using d(3) d'(3) assms(3) by auto
    with CONSTITUTIONAL show ?thesis by simp
  next
    case PRODUCTION
    then have "r' = PRODUCTION" using d(2) d'(2) assms(3) by auto
    with PRODUCTION show ?thesis by simp
  qed
qed

text \<open>
  The reviewers a decision may count: those whose trust domain is not the proposer's.
\<close>

definition independent_domains :: "PromotionRequest \<Rightarrow> PromotionConfig \<Rightarrow> string option set" where
  "independent_domains q c =
     (\<lambda>r. reviewer_domains c (at_reviewer_id r)) ` set (reviewer_attestations q) -
     {proposer_domains c (pq_proposer_id q)}"

definition reviewers_agree :: "PromotionRequest \<Rightarrow> PromotionConfig \<Rightarrow> RiskClass \<Rightarrow> bool" where
  "reviewers_agree q c risk \<longleftrightarrow>
     distinct (map at_reviewer_id (reviewer_attestations q)) \<and>
     (\<forall>r\<in>set (reviewer_attestations q). reviewer_valid r q c \<and> approved r) \<and>
     \<not> exception_requested q \<and> quorum_of risk \<le> int (card (independent_domains q c))"

lemma quorum_pos: "0 < quorum_of risk"
  by (simp add: quorum_of_def)

lemma reviewers_decide_allow:
  "pdn_outcome (reviewers_decide q c risk) = PO_ALLOW \<longleftrightarrow> reviewers_agree q c risk"
proof -
  let ?rs = "reviewer_attestations q" and ?dom = "\<lambda>r. reviewer_domains c (at_reviewer_id r)"
  let ?ok = "filter (\<lambda>r. approved r \<and> proposer_domains c (pq_proposer_id q) \<noteq> ?dom r) ?rs"
  have few: "card (set (map ?dom ?ok)) \<le> length ?ok" using card_length [of "map ?dom ?ok"] by (simp only: length_map)
  have "set (map ?dom ?ok) = independent_domains q c" if "\<forall>r\<in>set ?rs. approved r"
    using that by (auto simp: independent_domains_def)
  moreover have "?rs \<noteq> []" if "quorum_of risk \<le> int (card (independent_domains q c))"
    using that quorum_pos [of risk] by (auto simp: independent_domains_def)
  moreover have "pdn_outcome (reviewers_decide q c risk) = PO_ALLOW \<longleftrightarrow>
      ?rs \<noteq> [] \<and> distinct (map at_reviewer_id ?rs) \<and> (\<forall>r\<in>set ?rs. reviewer_valid r q c \<and> approved r) \<and>
      \<not> exception_requested q \<and> quorum_of risk \<le> int (length ?ok) \<and>
      quorum_of risk \<le> int (card (set (map ?dom ?ok)))"
    by (auto simp: reviewers_decide_def Let_def list_ex_iff not_less)
  moreover have "quorum_of risk \<le> int (card (set (map ?dom ?ok))) \<Longrightarrow> quorum_of risk \<le> int (length ?ok)"
    using few by linarith
  ultimately show ?thesis unfolding reviewers_agree_def by auto
qed

definition gates_attested :: "PromotionRequest \<Rightarrow> PromotionConfig \<Rightarrow> RiskClass \<Rightarrow> bool" where
  "gates_attested q c risk \<longleftrightarrow>
     (\<forall>g\<in>set (required_gates risk c).
        \<exists>a. filter (\<lambda>a. gate_name a = g) (gate_attestations q) = [a] \<and> gate_valid a q g c \<and> ga_passed a)"

lemma gate_attested:
  "\<not> duplicate_gate q c g \<and> \<not> failed_gate q c g \<and> \<not> has_invalid_gate_evidence q c g \<and> gate_passed q c g \<longleftrightarrow>
   (\<exists>a. filter (\<lambda>a. gate_name a = g) (gate_attestations q) = [a] \<and> gate_valid a q g c \<and> ga_passed a)"
  (is "?l \<longleftrightarrow> ?r")
proof
  let ?v = "filter (\<lambda>a. gate_valid a q g c) (gate_attestations q)"
    and ?n = "filter (\<lambda>a. gate_name a = g) (gate_attestations q)"
  assume l: ?l
  then have same: "?n = ?v"
    by (intro filter_cong) (auto simp: has_invalid_gate_evidence_def gate_valid_def list_ex_iff)
  from l obtain a where a: "a \<in> set ?v" "ga_passed a" by (auto simp: gate_passed_def list_ex_iff)
  with l have "?v = [a]" by (cases ?v) (auto simp: duplicate_gate_def)
  moreover have "gate_valid a q g c" using a(1) by simp
  ultimately show ?r using same a(2) by auto
next
  assume ?r
  then obtain a where a: "filter (\<lambda>a. gate_name a = g) (gate_attestations q) = [a]" "gate_valid a q g c" "ga_passed a"
    by blast
  have "b = a" if "b \<in> set (gate_attestations q)" "gate_name b = g" for b
  proof -
    have "b \<in> set (filter (\<lambda>a. gate_name a = g) (gate_attestations q))" using that by simp
    then show ?thesis by (simp add: a(1))
  qed
  moreover have "filter (\<lambda>a. gate_valid a q g c) (gate_attestations q) =
      filter (\<lambda>a. gate_valid a q g c) (filter (\<lambda>a. gate_name a = g) (gate_attestations q))"
    by (simp add: filter_filter) (auto intro: filter_cong simp: gate_valid_def)
  moreover have "a \<in> set (gate_attestations q)" using arg_cong [OF a(1), of set] by auto
  ultimately have v: "filter (\<lambda>a. gate_valid a q g c) (gate_attestations q) = [a]"
    and only: "\<And>b. b \<in> set (gate_attestations q) \<Longrightarrow> gate_name b = g \<Longrightarrow> b = a"
    and mem: "a \<in> set (gate_attestations q)"
    by (simp_all add: a)
  show ?l
  proof (intro conjI)
    show "\<not> duplicate_gate q c g" by (simp add: duplicate_gate_def v)
    show "\<not> failed_gate q c g" "\<not> has_invalid_gate_evidence q c g"
      using only a(2,3) by (auto simp: failed_gate_def has_invalid_gate_evidence_def list_ex_iff gate_valid_def)
    show "gate_passed q c g" using mem a(2,3) by (auto simp: gate_passed_def list_ex_iff)
  qed
qed

lemma conflict_needs_both: "conflicting_gate q c g \<Longrightarrow> failed_gate q c g"
  by (auto simp: conflicting_gate_def failed_gate_def list_ex_iff Let_def)

text \<open>
  C16. A promotion is allowed exactly on complete evidence: the paths are of low or ordinary
  risk and attested, the proposer is the registered one of this candidate, the base is attested
  and current, a rollback is attested, available and within the limit, every required gate has
  exactly one attestation, trusted and passed, and distinct trusted reviewers other than the
  proposer all approve, from at least as many trust domains other than the proposer's as the
  quorum asks for, without an exception being requested.
\<close>

theorem promotion_allowed_exactly:
  assumes "classify pf json_digest q c = Inr d"
  shows "pdn_outcome d = PO_ALLOW \<longleftrightarrow>
    risk_class d \<in> {LOW, ORDINARY} \<and> path_manifest_valid pf json_digest q c \<and>
    proposer_domains c (pq_proposer_id q) \<noteq> None \<and>
    candidate_proposers c (pq_candidate_digest q) = Some (pq_proposer_id q) \<and>
    base_valid (base_attestation q) q c \<and>
    (\<exists>r. rollback_attestation q = Some r \<and> bound r q (evaluation_epoch c) (rollback_issuer_ids c) \<and>
       available r \<and> rollback_count r \<le> rollback_limit c) \<and>
    gates_attested q c (risk_class d) \<and> reviewers_agree q c (risk_class d) \<and>
    (\<forall>r\<in>set (reviewer_attestations q). at_reviewer_id r \<noteq> pq_proposer_id q)"
proof -
  obtain risk where risk: "derive_risk pf (changed_paths q) = Inr risk"
    using assms by (auto simp: classify_def bind_err_eq_Inr)
  have gates: "gates_attested q c risk \<longleftrightarrow>
      (\<forall>g\<in>set (required_gates risk c). \<not> duplicate_gate q c g \<and> \<not> failed_gate q c g \<and>
        \<not> conflicting_gate q c g \<and> \<not> has_invalid_gate_evidence q c g \<and> gate_passed q c g)"
    unfolding gates_attested_def gate_attested [symmetric] using conflict_needs_both by blast
  have gd: "pdn_outcome (gates_decide q c risk) = PO_ALLOW \<longleftrightarrow>
      (\<forall>g\<in>set (required_gates risk c). \<not> has_invalid_gate_evidence q c g \<and> gate_passed q c g) \<and>
      reviewers_agree q c risk"
    unfolding gates_decide_def Let_def reviewers_decide_allow [symmetric]
    using bad_gates_Nil [of "has_invalid_gate_evidence q c" "required_gates risk c"]
      bad_gates_Nil [of "\<lambda>g. \<not> gate_passed q c g" "required_gates risk c"] by auto
  have rd: "pdn_outcome (rollback_decides q c risk) = PO_ALLOW \<longleftrightarrow>
      base_valid (base_attestation q) q c \<and>
      (\<exists>r. rollback_attestation q = Some r \<and> bound r q (evaluation_epoch c) (rollback_issuer_ids c) \<and>
         available r \<and> rollback_count r \<le> rollback_limit c) \<and>
      pdn_outcome (gates_decide q c risk) = PO_ALLOW"
    unfolding rollback_decides_def Let_def
    by (cases "rollback_attestation q") (auto simp: not_less split: if_splits)
  have cls: "risk_class (reviewers_decide q c risk) = risk" "risk_class (gates_decide q c risk) = risk"
      "risk_class (rollback_decides q c risk) = risk"
    by (simp_all add: reviewers_decide_def gates_decide_def rollback_decides_def Let_def split: option.splits)
  have same: "risk_class d = risk"
    using assms risk cls by (auto simp: classify_def Let_def split: if_splits)
  have valid: "reviewers_agree q c risk \<Longrightarrow> r \<in> set (reviewer_attestations q) \<Longrightarrow> reviewer_valid r q c" for r
    by (simp add: reviewers_agree_def)
  have "pdn_outcome d = PO_ALLOW \<longleftrightarrow>
      risk \<noteq> PRODUCTION \<and> path_manifest_valid pf json_digest q c \<and>
      proposer_domains c (pq_proposer_id q) \<noteq> None \<and>
      candidate_proposers c (pq_candidate_digest q) = Some (pq_proposer_id q) \<and>
      (\<forall>g\<in>set (required_gates risk c).
         \<not> conflicting_gate q c g \<and> \<not> duplicate_gate q c g \<and> \<not> failed_gate q c g) \<and>
      \<not> list_ex (\<lambda>r. at_reviewer_id r = pq_proposer_id q \<and> reviewer_valid r q c) (reviewer_attestations q) \<and>
      risk \<noteq> CONSTITUTIONAL \<and> pdn_outcome (rollback_decides q c risk) = PO_ALLOW"
    using assms risk by (auto simp: classify_def Let_def bad_gates_Nil split: if_splits)
  moreover have "risk \<in> {LOW, ORDINARY} \<longleftrightarrow> risk \<noteq> PRODUCTION \<and> risk \<noteq> CONSTITUTIONAL" by (cases risk) auto
  ultimately show ?thesis
    unfolding same rd gd gates list_ex_iff using valid by blast
qed


section \<open>Witnesses\<close>

definition demo_attested :: attestation where
  "demo_attested = \<lparr>at_candidate_digest = ''c'', at_base_digest = ''b'', at_evidence_digest = ''e'',
     at_issuer_id = ''ci'', at_valid_from_epoch = 1, at_valid_until_epoch = 9\<rparr>"

definition demo_gate :: "string \<Rightarrow> GateAttestation" where
  "demo_gate n = attestation.extend demo_attested (GateAttestation.fields n True)"

definition demo_reviewer :: "string \<Rightarrow> ReviewerAttestation" where
  "demo_reviewer n = attestation.extend demo_attested (ReviewerAttestation.fields n True)"

definition demo_promotion :: PromotionRequest where
  "demo_promotion = \<lparr>pq_candidate_id = ''cand'', pq_proposer_id = ''agent'', pq_candidate_digest = ''c'',
     pq_base_digest = ''b'', changed_paths = [''src/app/x.py''],
     path_manifest_attestation = attestation.extend demo_attested (PathManifestAttestation.fields ''sha256:p''),
     base_attestation = demo_gate ''base'', gate_attestations = [demo_gate ''ci''],
     reviewer_attestations = [demo_reviewer ''ann'', demo_reviewer ''bob''],
     rollback_attestation = Some (attestation.extend demo_attested (RollbackAttestation.fields 0 True)),
     exception_requested = False\<rparr>"

definition demo_promotion_config :: PromotionConfig where
  "demo_promotion_config = \<lparr>evaluation_epoch = 5, gate_issuers_dict = [(''ci'', [''ci''])],
     trusted_base_issuers = [''ci''], trusted_reviewer_issuers = [''ci''], trusted_path_issuers = [''ci''],
     rollback_issuer_ids = [''ci''], rollback_limit = 1,
     reviewer_domains_dict = [(''ann'', ''d1''), (''bob'', ''d2'')], proposer_domains_dict = [(''agent'', ''d0'')],
     candidate_proposers_dict = [(''c'', ''agent'')], low_gates = [], ordinary_gates = [''ci'']\<rparr>"

lemma demo_classified:
  "classify demo_platform (\<lambda>_. ''p'') demo_promotion demo_promotion_config =
     Inr \<lparr>pdn_candidate_id = ''cand'', pdn_outcome = PO_ALLOW, risk_class = ORDINARY,
       pdn_reason_codes = [''requirements_satisfied''], required_quorum = 2\<rparr>"
  by code_simp

theorem promotion_allowed_exactly_witness:
  "reviewers_agree demo_promotion demo_promotion_config ORDINARY \<and>
   gates_attested demo_promotion demo_promotion_config ORDINARY"
  using promotion_allowed_exactly [OF demo_classified] by simp

theorem risk_monotone_witness: "ORDINARY \<le> CONSTITUTIONAL"
proof (rule risk_monotone)
  show "derive_risk demo_platform [''src/app/x.py''] = Inr ORDINARY" by code_simp
  show "derive_risk demo_platform [''src/app/x.py'', ''uv.lock''] = Inr CONSTITUTIONAL" by code_simp
qed simp

end
