(* ===== verification/CodingVariation.thy ===== *)
theory CodingVariation
  imports CampaignHandlers PromotionPolicy
begin

text \<open>
  The campaign's variation activity (CodingVariationActivityHandler in
  application/campaign.py): one coding-agent session in a workspace, its event stream spooled and
  stored, and its proposal frozen as a candidate and handed to evaluation. The agent runtime is a
  port of the application (application/ports.py) and enters as a record of functions over a state
  of its own; the file trees the agent works in are read from that state, and the binary patch
  (a git process) and the JSON text of a record are parameters too. The object store, the spool
  files and the runtime's state are the world beside the database.
\<close>

section \<open>The runtime port\<close>

datatype inspection_state = Not_started | Turn_running | Turn_completed | Interrupted | Missing | Unknown

record RuntimeInspection =
  ri_state :: inspection_state
  ri_session :: RuntimeSessionRef
  ri_completion :: "AgentCompletion option"

record RuntimeEvent =
  re_invocation_id :: string
  re_sequence :: int
  re_event_type :: string
  re_payload_digest :: string
  re_usage_delta :: "(string \<times> int) list"
  re_occurred_at :: py_datetime

text \<open>An event stream ends, or raises after the events it has delivered.\<close>

record 'r CodingAgentRuntime =
  rt_adapter_id :: string
  rt_adapter_version :: string
  rt_version :: string
  preflight :: "'r \<Rightarrow> (err + bool) \<times> 'r"
  prepare :: "VariationSessionRequest \<Rightarrow> string list \<Rightarrow> string \<Rightarrow> 'r \<Rightarrow> (err + RuntimeSessionRef) \<times> 'r"
  start_turn :: "VariationSessionRequest \<Rightarrow> RuntimeSessionRef \<Rightarrow> 'r \<Rightarrow> (err + RuntimeSessionRef) \<times> 'r"
  event_stream :: "RuntimeSessionRef \<Rightarrow> 'r \<Rightarrow> (RuntimeEvent list \<times> err option) \<times> 'r"
  wait :: "RuntimeSessionRef \<Rightarrow> 'r \<Rightarrow> (err + AgentCompletion) \<times> 'r"
  inspect :: "RuntimeSessionRef \<Rightarrow> string list \<Rightarrow> 'r \<Rightarrow> (err + RuntimeInspection) \<times> 'r"

section \<open>Workspaces\<close>

text \<open>
  Resolved paths are lists of segments. A view of the file system gives the resolution of a
  path (\<open>None\<close> when strict resolution fails), what exists, and the tree below a directory with
  the permission bits of each entry.
\<close>

type_synonym path = "string list"

record ws_entry = tree_entry +
  we_mode :: int

record file_view =
  fv_resolve :: "path \<Rightarrow> path option"
  fv_exists :: "path \<Rightarrow> bool"
  fv_tree :: "path \<Rightarrow> ws_entry list"

record CampaignWorkspace =
  baseline :: path
  candidate :: path
  git_metadata :: path

definition is_relative_to :: "path \<Rightarrow> path \<Rightarrow> bool" where
  "is_relative_to p q \<longleftrightarrow> take (length q) p = q"

definition resolve_strict :: "file_view \<Rightarrow> path \<Rightarrow> err + path" where
  "resolve_strict fv p = (case fv_resolve fv p of None \<Rightarrow> Inl (OSError ''no such file or directory'') | Some q \<Rightarrow> Inr q)"

definition resolve_lax :: "file_view \<Rightarrow> path \<Rightarrow> path" where
  "resolve_lax fv p = (case fv_resolve fv p of None \<Rightarrow> p | Some q \<Rightarrow> q)"

definition ancestors :: "path \<Rightarrow> path list" where
  "ancestors p = map (\<lambda>i. take i p) (rev [0..<Suc (length p)])"

text \<open>The last segment of a relative path is what \<open>rglob\<close> compares.\<close>

definition entry_name :: "string \<Rightarrow> string" where
  "entry_name p = last (path_parts p)"

definition validate_campaign_workspace ::
  "file_view \<Rightarrow> CampaignWorkspace \<Rightarrow> path \<Rightarrow> err + path \<times> path" where
  "validate_campaign_workspace fv w event_spool_root =
     bind_err (resolve_strict fv (baseline w)) (\<lambda>base.
     bind_err (resolve_strict fv (candidate w)) (\<lambda>cand.
     let metadata = resolve_lax fv (git_metadata w); spool = resolve_lax fv event_spool_root in
     if base = cand \<or> is_relative_to base cand \<or> is_relative_to cand base
     then Inl (CampaignRuntimeError ''baseline and candidate trees must be disjoint'')
     else if metadata = base \<or> is_relative_to metadata base
     then Inl (CampaignRuntimeError ''external Git metadata is inside a workspace'')
     else if spool = base \<or> is_relative_to spool base
     then Inl (CampaignRuntimeError ''runtime event spool is inside a workspace'')
     else if metadata = cand \<or> is_relative_to metadata cand
     then Inl (CampaignRuntimeError ''external Git metadata is inside a workspace'')
     else if spool = cand \<or> is_relative_to spool cand
     then Inl (CampaignRuntimeError ''runtime event spool is inside a workspace'')
     else if list_ex (\<lambda>p. fv_exists fv (p @ [''.git''])) (ancestors cand)
     then Inl (CampaignRuntimeError ''candidate workspace and ancestors must be VCS-free'')
     else if list_ex (\<lambda>x. entry_name (te_path x) = ''.git'') (fv_tree fv cand)
     then Inl (CampaignRuntimeError ''candidate workspace contains Git metadata'')
     else Inr (base, cand)))"

text \<open>What \<open>entries\<close> records of a tree: kind, link text or content digest, and mode.\<close>

fun workspace_entries :: "platform \<Rightarrow> ws_entry list \<Rightarrow> err + (string \<times> string \<times> string \<times> int) list" where
  "workspace_entries pf [] = Inr []"
| "workspace_entries pf (x # xs) =
     (case te_node x of
        Symlink target _ _ \<Rightarrow>
          bind_err (workspace_entries pf xs) (\<lambda>ys. Inr ((te_path x, ''symlink'', target, we_mode x) # ys))
      | Regular content _ \<Rightarrow>
          bind_err (workspace_entries pf xs) (\<lambda>ys.
            Inr ((te_path x, ''file'', ''sha256:'' @ sha256 pf content, we_mode x) # ys))
      | Directory \<Rightarrow> workspace_entries pf xs
      | Special \<Rightarrow> Inl (CampaignAuthorityPathError ''candidate contains unsupported workspace entry''))"

definition changed_workspace_paths :: "platform \<Rightarrow> ws_entry list \<Rightarrow> ws_entry list \<Rightarrow> err + string list" where
  "changed_workspace_paths pf base cand =
     bind_err (workspace_entries pf base) (\<lambda>b.
     bind_err (workspace_entries pf cand) (\<lambda>c.
     Inr (sort (filter (\<lambda>p. map_of b p \<noteq> map_of c p) (remdups (map fst b @ map fst c))))))"

definition tree_digest :: "platform \<Rightarrow> ws_entry list \<Rightarrow> err + string" where
  "tree_digest pf t = source_tree_digest pf ''deny'' (map tree_entry.truncate t)"

section \<open>Usage\<close>

text \<open>The highest value reported for each key; events report running totals.\<close>

fun raise_usage :: "string \<Rightarrow> int \<Rightarrow> (string \<times> int) list \<Rightarrow> (string \<times> int) list" where
  "raise_usage k v [] = [(k, max 0 v)]"
| "raise_usage k v ((k', v') # u) = (if k' = k then (k', max v' v) # u else (k', v') # raise_usage k v u)"

definition runtime_usage :: "RuntimeEvent list \<Rightarrow> (string \<times> int) list" where
  "runtime_usage evs = foldl (\<lambda>u (k, v). raise_usage k v u) [] (concat (map re_usage_delta evs))"

definition maximum_of :: "(string \<times> int) list \<Rightarrow> string list \<Rightarrow> int" where
  "maximum_of observed names =
     (let vs = map snd (filter (\<lambda>(k, _). list_ex (\<lambda>x. k = x \<or> ends_with [CHR ''.'' # x] k) names) observed)
      in case vs of [] \<Rightarrow> 0 | v # ws \<Rightarrow> foldl max v ws)"

definition usage_from_events :: "RuntimeEvent list \<Rightarrow> UsageRecord" where
  "usage_from_events evs =
     (let observed = runtime_usage evs
      in UsageRecord 0 (maximum_of observed [''input_tokens'', ''prompt_tokens''])
           (maximum_of observed [''output_tokens'', ''completion_tokens'']) 0 0 0 0 0 1 0)"

section \<open>The handler\<close>

record 'r desk =
  dk_objects :: object_store
  dk_spool :: "string \<rightharpoonup> bytes"
  dk_runtime :: 'r

record 'r VariationHandler =
  runtime :: "'r CodingAgentRuntime"
  files :: "'r \<Rightarrow> file_view"
  vcs_free_patch :: "'r \<Rightarrow> CampaignWorkspace \<Rightarrow> err + bytes"
  pf :: platform
  disk :: race
  event_text :: "RuntimeEvent \<Rightarrow> bytes"
  completion_text :: "AgentCompletion \<Rightarrow> bytes"
  profile :: jval
  authentication_class :: string
  profile_model :: string
  workspace_resolver :: "VariationSessionRequest \<Rightarrow> CampaignWorkspace"
  spool_root :: path
  evaluation_estimate :: UsageRecord
  vh_harness_ref :: VersionedComponentRef
  model_config_digest :: string
  policy_bundle :: string
  vh_actor :: string

text \<open>Calls of the runtime, reads of the file system, and the spool files.\<close>

definition on_runtime :: "('r \<Rightarrow> (err + 'a) \<times> 'r) \<Rightarrow> ('r desk, 'a) process" where
  "on_runtime m st = (case m (dk_runtime (snd st)) of (r, rt) \<Rightarrow> (r, fst st, (snd st)\<lparr>dk_runtime := rt\<rparr>))"

definition look_outside :: "('r desk \<Rightarrow> err + 'a) \<Rightarrow> ('r desk, 'a) process" where
  "look_outside g st = (g (snd st), st)"

definition change_desk :: "('r desk \<Rightarrow> 'r desk) \<Rightarrow> ('r desk, unit) process" where
  "change_desk f st = (Inr (), fst st, f (snd st))"

definition MAX_SPOOL_BYTES :: int where
  "MAX_SPOOL_BYTES = 16 * 1024 * 1024"

definition spool_path :: "env \<Rightarrow> string \<Rightarrow> string" where
  "spool_path e invocation_id = removeprefix ''sha256:'' (canonical_digest e (D_json (JStr invocation_id))) @ ''.jsonl''"

definition append_spool :: "'r VariationHandler \<Rightarrow> string \<Rightarrow> RuntimeEvent \<Rightarrow> ('r desk, unit) process" where
  "append_spool h path ev =
     (let payload = event_text h ev @ [CHR 0x0A] in
      andthen (look_outside (\<lambda>d. Inr (dk_spool d path))) (\<lambda>old.
      case old of
        None \<Rightarrow> change_desk (\<lambda>d. d\<lparr>dk_spool := (dk_spool d)(path \<mapsto> payload)\<rparr>)
      | Some b \<Rightarrow>
          if int (length b) + int (length payload) > MAX_SPOOL_BYTES
          then throw (CampaignRuntimeError ''runtime event spool exceeds 16 MiB'')
          else change_desk (\<lambda>d. d\<lparr>dk_spool := (dk_spool d)(path \<mapsto> b @ payload)\<rparr>)))"

fun spool_all :: "'r VariationHandler \<Rightarrow> string \<Rightarrow> RuntimeEvent list \<Rightarrow> ('r desk, unit) process" where
  "spool_all h path [] = give ()"
| "spool_all h path (ev # evs) = andthen (append_spool h path ev) (\<lambda>_. spool_all h path evs)"

definition put_artifact :: "env \<Rightarrow> 'r VariationHandler \<Rightarrow> artifact_call \<Rightarrow> ('r desk, ArtifactRef) process" where
  "put_artifact e h c st =
     (case artifact_put_bytes (sha256 (pf h)) (disk h) e c (fst st, dk_objects (snd st)) of
        (r, s, fs) \<Rightarrow> (r, s, (snd st)\<lparr>dk_objects := fs\<rparr>))"

definition invocation_name :: "ActivityRow \<Rightarrow> string" where
  "invocation_name a = ''harness:'' @ act_id a"

text \<open>The dictionary that maps the authentication class to a billing mode.\<close>

definition billing_of :: "string \<Rightarrow> err + string" where
  "billing_of c = (case map_of [(''subscription'', ''subscription''), (''api_key'', ''unknown''), (''none'', ''local'')] c of
     None \<Rightarrow> Inl (KeyError c) | Some m \<Rightarrow> Inr m)"

definition new_invocation ::
  "env \<Rightarrow> 'r VariationHandler \<Rightarrow> ActivityRow \<Rightarrow> VariationSessionRequest \<Rightarrow> string \<Rightarrow> string \<Rightarrow> HarnessInvocationRecord" where
  "new_invocation e h a request before_digest billing =
     \<lparr>hi_invocation_id = invocation_name a, hi_activity_id = act_id a, hi_run_id = vsr_run_id request,
      hi_session_id = Some (vsr_session_id request), profile_digest = canonical_digest e (D_json (profile h)),
      runtime_id = rt_adapter_id (runtime h), hi_state = I_started, adapter_version = rt_adapter_version (runtime h),
      runtime_version = rt_version (runtime h), requested_model = profile_model h, resolved_model = None,
      runtime_session = None, workspace_before_digest = before_digest, workspace_after_digest = None,
      event_stream_artifact_digest = None, hi_completion = None, hi_usage = [],
      economics = \<lparr>billing_mode = billing, charged_cost_microusd = None, provider_equivalent_cost_microusd = None,
        counterfactual_cost_microusd = None, cost_source = ''none'', price_table_digest = None, token_details = [],
        quota_details = []\<rparr>,
      error_class = None, hi_started_at = now e, hi_completed_at = None\<rparr>"

text \<open>The checks before anything is started.\<close>

definition open_workspace ::
  "'r VariationHandler \<Rightarrow> VariationSessionRequest \<Rightarrow> ('r desk, path \<times> path \<times> string) process" where
  "open_workspace h request =
     look_outside (\<lambda>d.
       bind_err (validate_campaign_workspace (files h (dk_runtime d)) (workspace_resolver h request) (spool_root h))
         (\<lambda>(base, cand).
       bind_err (tree_digest (pf h) (fv_tree (files h (dk_runtime d)) base)) (\<lambda>before_digest.
       if before_digest \<noteq> cr_source_tree_digest (champion request)
       then Inl (CampaignRuntimeError ''materialized champion digest does not match the request'')
       else Inr (base, cand, before_digest))))"

definition ensure_started :: "env \<Rightarrow> VariationSessionRequest \<Rightarrow> ('w, unit) process" where
  "ensure_started e request =
     andthen (look (get_state (vsr_session_id request))) (\<lambda>state.
     if state = S_QUEUED then on_db (session_start e (vsr_session_id request)) else give ())"

definition ensure_invocation ::
  "env \<Rightarrow> 'r VariationHandler \<Rightarrow> ActivityRow \<Rightarrow> VariationSessionRequest \<Rightarrow> string \<Rightarrow>
     ('r desk, HarnessInvocationRecord) process" where
  "ensure_invocation e h a request before_digest =
     andthen (look (\<lambda>s. Inr (find_activity_invocation (act_id a) s))) (\<lambda>found.
     case found of
       Some invocation \<Rightarrow> give invocation
     | None \<Rightarrow>
         andthen (look (\<lambda>_. billing_of (authentication_class h))) (\<lambda>billing.
         let invocation = new_invocation e h a request before_digest billing in
         andthen (on_db (record_invocation e invocation)) (\<lambda>_. give invocation)))"

definition ensure_prepared ::
  "env \<Rightarrow> 'r VariationHandler \<Rightarrow> ActivityRow \<Rightarrow> VariationSessionRequest \<Rightarrow> path \<Rightarrow> HarnessInvocationRecord \<Rightarrow>
     ('r desk, HarnessInvocationRecord \<times> RuntimeSessionRef) process" where
  "ensure_prepared e h a request cand invocation =
     (case runtime_session invocation of
        Some ref \<Rightarrow> give (invocation, ref)
      | None \<Rightarrow>
          andthen (on_runtime (preflight (runtime h))) (\<lambda>compatible.
          if \<not> compatible then throw (CampaignRuntimeError ''coding-agent runtime failed preflight'')
          else
            andthen (on_runtime (prepare (runtime h) request cand (invocation_name a))) (\<lambda>ref.
            let invocation = invocation\<lparr>runtime_session := Some ref\<rparr> in
            andthen (on_db (replace_invocation e invocation)) (\<lambda>_. give (invocation, ref)))))"

text \<open>The turn is started only when the runtime says that it was not; the answer is inspected again.\<close>

definition ensure_turn ::
  "env \<Rightarrow> 'r VariationHandler \<Rightarrow> VariationSessionRequest \<Rightarrow> path \<Rightarrow> HarnessInvocationRecord \<Rightarrow> RuntimeSessionRef \<Rightarrow>
     ('r desk, HarnessInvocationRecord \<times> RuntimeSessionRef \<times> RuntimeInspection) process" where
  "ensure_turn e h request cand invocation ref =
     andthen (on_runtime (inspect (runtime h) ref cand)) (\<lambda>inspection.
     if native_operation_id ref \<noteq> None then give (invocation, ref, inspection)
     else if ri_state inspection = Not_started then
       andthen (on_runtime (start_turn (runtime h) request ref)) (\<lambda>ref.
       let invocation = invocation\<lparr>hi_state := I_running, runtime_session := Some ref\<rparr> in
       andthen (on_db (replace_invocation e invocation)) (\<lambda>_. give (invocation, ref, inspection)))
     else if ri_state inspection = Turn_completed then give (invocation, ri_session inspection, inspection)
     else throw (CampaignRuntimeError ''prepared Codex thread needs reconciliation''))"

definition collect_turn ::
  "'r VariationHandler \<Rightarrow> string \<Rightarrow> RuntimeSessionRef \<Rightarrow> RuntimeInspection \<Rightarrow>
     ('r desk, RuntimeEvent list \<times> AgentCompletion) process" where
  "collect_turn h path ref inspection =
     (if ri_state inspection = Turn_completed
      then (case ri_completion inspection of
              None \<Rightarrow> throw (CampaignRuntimeError ''completed runtime inspection lacks completion'')
            | Some completion \<Rightarrow> give ([], completion))
      else
        andthen (on_runtime (\<lambda>rt. case event_stream (runtime h) ref rt of (p, rt) \<Rightarrow> (Inr p, rt))) (\<lambda>(evs, failure).
        andthen (spool_all h path evs) (\<lambda>_.
        case failure of
          Some x \<Rightarrow> throw x
        | None \<Rightarrow> andthen (on_runtime (wait (runtime h) ref)) (\<lambda>completion. give (evs, completion)))))"

section \<open>A finished turn\<close>

definition completion_json :: "AgentCompletion \<Rightarrow> jval" where
  "completion_json c = JObj [(''schema_version'', JInt 1),
     (''outcome'', JStr (case ac_outcome c of Proposal \<Rightarrow> ''proposal'' | Stop \<Rightarrow> ''stop'')),
     (''rationale'', JStr (ac_rationale c)), (''claimed_tests'', JList (map JStr (claimed_tests c)))]"

definition attempt_digest_of :: "env \<Rightarrow> AgentCompletion \<Rightarrow> string \<Rightarrow> string \<Rightarrow> string" where
  "attempt_digest_of e c stream_digest after_digest = canonical_digest e (D_json (JObj
     [(''completion'', completion_json c), (''event_stream_digest'', JStr stream_digest),
      (''workspace_digest'', JStr after_digest)]))"

definition attempt_of ::
  "env \<Rightarrow> ActivityRow \<Rightarrow> VariationSessionRequest \<Rightarrow> string \<Rightarrow> string option \<Rightarrow> string option \<Rightarrow> string \<Rightarrow> string \<Rightarrow>
     VariationAttemptRecord" where
  "attempt_of e a request before_digest after_digest patch stream_digest outcome =
     \<lparr>attempt_id = uuid5 e (''avo:attempt:'' @ act_id a), var_session_id = vsr_session_id request,
      parent_workspace_digest = before_digest, result_workspace_digest = after_digest, patch_digest = patch,
      development_evaluation_ids = [], tool_trace_digest = stream_digest, var_outcome = outcome,
      var_started_at = now e, var_completed_at = now e\<rparr>"

text \<open>The paths a proposal changes, and the gate on their risk.\<close>

definition guard_paths :: "'r VariationHandler \<Rightarrow> CampaignWorkspace \<Rightarrow> 'r desk \<Rightarrow> err + RiskClass" where
  "guard_paths h w d =
     bind_err (changed_workspace_paths (pf h) (fv_tree (files h (dk_runtime d)) (baseline w))
         (fv_tree (files h (dk_runtime d)) (candidate w))) (\<lambda>changed_paths.
     case derive_risk (pf h) changed_paths of
       Inl _ \<Rightarrow> Inl (CampaignAuthorityPathError ''candidate changed paths failed canonical validation'')
     | Inr risk \<Rightarrow>
         if risk \<in> {CONSTITUTIONAL, PRODUCTION}
         then Inl (CampaignAuthorityPathError
           (''candidate changes trusted authority paths; completion rejected before candidate staging (risk='' @
            risk_value risk @ '')''))
         else Inr risk)"

definition candidate_artifact ::
  "'r VariationHandler \<Rightarrow> VariationSessionRequest \<Rightarrow> string \<Rightarrow> bytes \<Rightarrow> string \<Rightarrow> string \<Rightarrow> int \<Rightarrow> artifact_call" where
  "candidate_artifact h request cid data media_type role limit =
     \<lparr>ac_data = data, ac_run_id = vsr_run_id request, ac_owner_type = ''candidate'', ac_owner_id = cid,
      ac_media_type = media_type, ac_role = role, ac_retention_class = ''candidate-evidence'', ac_max_bytes = limit,
      ac_actor_id = vh_actor h\<rparr>"

definition manifest_of ::
  "env \<Rightarrow> 'r VariationHandler \<Rightarrow> VariationSessionRequest \<Rightarrow> string \<Rightarrow> string \<Rightarrow> string \<Rightarrow> ArtifactRef \<Rightarrow> ArtifactRef \<Rightarrow>
     string \<Rightarrow> CandidateManifest" where
  "manifest_of e h request cid before_digest after_digest patch_ref rationale_ref attempt_digest =
     \<lparr>cm_candidate_id = cid, cm_run_id = vsr_run_id request, cm_session_id = vsr_session_id request,
      parent_candidate_ids = [cr_candidate_id (champion request)], base_workspace_digest = before_digest,
      cm_source_tree_digest = after_digest, patch_artifact = Some patch_ref, result_artifacts = [rationale_ref],
      harness_ref = vh_harness_ref h, cm_model_config_digest = model_config_digest h,
      context_digest = initial_context_digest request, cm_attempt_index_digest = attempt_digest,
      execution_profile_digest = canonical_digest e (D_json (profile h)),
      cm_policy_bundle_digest = policy_bundle h, cm_created_at = now e\<rparr>"

definition hand_to_evaluation ::
  "(nat \<Rightarrow> env) \<Rightarrow> 'r VariationHandler \<Rightarrow> VariationSessionRequest \<Rightarrow> CandidateManifest \<Rightarrow> ('r desk, string) process" where
  "hand_to_evaluation clock h request manifest =
     (let key = ''evaluate:'' @ cm_candidate_id manifest; digest = canonical_digest (clock 0) (D_manifest manifest) in
      andthen (on_db (stage_candidate (clock 11) manifest)) (\<lambda>_.
      andthen (on_db (budget_reserve (clock 12) (vsr_run_id request) key (evaluation_estimate h) (vh_actor h))) (\<lambda>rsv.
      andthen (on_db (activity_enqueue (clock 13) (vsr_run_id request) key digest (vh_actor h)
        (Some (vsr_session_id request)) (Some rsv))) (\<lambda>_.
      give digest))))"

definition finalize_stop ::
  "(nat \<Rightarrow> env) \<Rightarrow> ActivityRow \<Rightarrow> VariationSessionRequest \<Rightarrow> UsageRecord \<Rightarrow> string \<Rightarrow> string \<Rightarrow> string \<Rightarrow>
     ('r desk, string) process" where
  "finalize_stop clock a request usage stream_digest before_digest attempt_digest =
     (let result = \<lparr>vres_session_id = vsr_session_id request, vres_outcome = O_exhausted,
            proposed_workspace_digest = None, proposed_patch_digest = None, rationale_artifact = None,
            vres_attempt_index_digest = attempt_digest, vres_usage = usage\<rparr> in
      andthen (on_db (record_attempt (clock 9)
        (attempt_of (clock 6) a request before_digest None None stream_digest ''abandoned''))) (\<lambda>_.
      andthen (on_db (session_finish (clock 10) result)) (\<lambda>_.
      give (canonical_digest (clock 0) (D_result result)))))"

definition finalize_proposal ::
  "(nat \<Rightarrow> env) \<Rightarrow> 'r VariationHandler \<Rightarrow> ActivityRow \<Rightarrow> VariationSessionRequest \<Rightarrow> CampaignWorkspace \<Rightarrow>
     AgentCompletion \<Rightarrow> UsageRecord \<Rightarrow> string \<Rightarrow> string \<Rightarrow> string \<Rightarrow> string \<Rightarrow> ('r desk, string) process" where
  "finalize_proposal clock h a request w completion usage stream_digest before_digest after_digest attempt_digest =
     (if before_digest = after_digest
      then throw (CampaignRuntimeError ''Codex proposed a candidate without workspace changes'')
      else
        andthen (look_outside (\<lambda>d. vcs_free_patch h (dk_runtime d) w)) (\<lambda>patch.
        andthen (look_outside (guard_paths h w)) (\<lambda>_.
        let cid = uuid5 (clock 0) (''avo:candidate:'' @ act_id a @ '':'' @ after_digest) in
        andthen (put_artifact (clock 7) h (candidate_artifact h request cid patch ''text/x-diff'' ''candidate-patch''
          (16 * 1024 * 1024))) (\<lambda>patch_ref.
        andthen (put_artifact (clock 8) h (candidate_artifact h request cid (completion_text h completion)
          ''application/json'' ''agent-rationale'' (1024 * 1024))) (\<lambda>rationale_ref.
        andthen (on_db (record_attempt (clock 9) (attempt_of (clock 6) a request before_digest (Some after_digest)
          (Some (ar_digest patch_ref)) stream_digest ''improved''))) (\<lambda>_.
        andthen (on_db (session_finish (clock 10)
          \<lparr>vres_session_id = vsr_session_id request, vres_outcome = O_proposal_ready,
           proposed_workspace_digest = Some after_digest, proposed_patch_digest = Some (ar_digest patch_ref),
           rationale_artifact = Some rationale_ref, vres_attempt_index_digest = attempt_digest,
           vres_usage = usage\<rparr>)) (\<lambda>_.
        hand_to_evaluation clock h request
          (manifest_of (clock 6) h request cid before_digest after_digest patch_ref rationale_ref attempt_digest))))))))"

definition finalize_completion ::
  "(nat \<Rightarrow> env) \<Rightarrow> 'r VariationHandler \<Rightarrow> ActivityRow \<Rightarrow> VariationSessionRequest \<Rightarrow> CampaignWorkspace \<Rightarrow>
     AgentCompletion \<Rightarrow> UsageRecord \<Rightarrow> string \<Rightarrow> string \<Rightarrow> string \<Rightarrow> ('r desk, string) process" where
  "finalize_completion clock h a request w completion usage stream_digest before_digest after_digest =
     (let attempt_digest = attempt_digest_of (clock 0) completion stream_digest after_digest in
      case ac_outcome completion of
        Stop \<Rightarrow> finalize_stop clock a request usage stream_digest before_digest attempt_digest
      | Proposal \<Rightarrow>
          finalize_proposal clock h a request w completion usage stream_digest before_digest after_digest attempt_digest)"

text \<open>\<open>try: m except BudgetExceededError: bad else: ok\<close>.\<close>

definition try_budget ::
  "('w, 'a) process \<Rightarrow> ('a \<Rightarrow> ('w, 'b) process) \<Rightarrow> (err \<Rightarrow> ('w, 'b) process) \<Rightarrow> ('w, 'b) process" where
  "try_budget m ok bad st =
     (case m st of
        (Inr a, st) \<Rightarrow> ok a st
      | (Inl (BudgetExceededError x), st) \<Rightarrow> bad (BudgetExceededError x) st
      | (Inl x, st) \<Rightarrow> (Inl x, st))"

definition settle ::
  "env \<Rightarrow> 'r VariationHandler \<Rightarrow> string \<Rightarrow> ActivityRow \<Rightarrow> string \<Rightarrow> string \<Rightarrow> UsageRecord \<Rightarrow> int \<Rightarrow> ('r desk, unit) process" where
  "settle e h rid a rsv digest usage lease_epoch =
     on_db (settle_exhausted_variation e rid (act_id a) rsv digest usage (evaluation_estimate h) (policy_bundle h)
       (vh_actor h) (Some lease_epoch))"

definition unlink_spool :: "string \<Rightarrow> ('r desk, unit) process" where
  "unlink_spool path = change_desk (\<lambda>d. d\<lparr>dk_spool := (dk_spool d)(path := None)\<rparr>)"

text \<open>The evaluation could not be reserved: the frozen proposal is settled as the last of its run.\<close>

definition close_exhausted ::
  "(nat \<Rightarrow> env) \<Rightarrow> 'r VariationHandler \<Rightarrow> ActivityRow \<Rightarrow> VariationSessionRequest \<Rightarrow> string \<Rightarrow> int \<Rightarrow>
     HarnessInvocationRecord \<Rightarrow> err \<Rightarrow> ('r desk, ActivityResult) process" where
  "close_exhausted clock h a request rsv lease_epoch completed x =
     andthen (look (get_result (vsr_session_id request))) (\<lambda>result.
     andthen (look (get_session_candidate (vsr_session_id request))) (\<lambda>frozen.
     case (result, frozen) of
       (Some result, Some manifest) \<Rightarrow>
         let digest = canonical_digest (clock 0) (D_manifest manifest) in
         andthen (on_db (replace_invocation (clock 14) completed)) (\<lambda>_.
         andthen (settle (clock 16) h (vsr_run_id request) a rsv digest (vres_usage result) lease_epoch) (\<lambda>_.
         andthen (unlink_spool (spool_path (clock 0) (invocation_name a))) (\<lambda>_.
         give \<lparr>result_digest = digest\<rparr>)))
     | _ \<Rightarrow> throw x))"

definition close_turn ::
  "(nat \<Rightarrow> env) \<Rightarrow> 'r VariationHandler \<Rightarrow> ActivityRow \<Rightarrow> VariationSessionRequest \<Rightarrow> string \<Rightarrow> int \<Rightarrow> UsageRecord \<Rightarrow>
     HarnessInvocationRecord \<Rightarrow> string \<Rightarrow> ('r desk, ActivityResult) process" where
  "close_turn clock h a request rsv lease_epoch usage completed digest =
     andthen (on_db (replace_invocation (clock 14) completed)) (\<lambda>_.
     andthen (try_budget (on_db (budget_complete (clock 15) rsv usage (vh_actor h))) give
       (\<lambda>_. settle (clock 16) h (vsr_run_id request) a rsv digest usage lease_epoch)) (\<lambda>_.
     andthen (unlink_spool (spool_path (clock 0) (invocation_name a))) (\<lambda>_.
     give \<lparr>result_digest = digest\<rparr>)))"

definition stream_bytes :: "'r VariationHandler \<Rightarrow> string \<Rightarrow> RuntimeEvent list \<Rightarrow> 'r desk \<Rightarrow> bytes" where
  "stream_bytes h path evs d = (case dk_spool d path of Some b \<Rightarrow> b
     | None \<Rightarrow> concat (map (\<lambda>ev. event_text h ev @ [CHR 0x0A]) evs))"

definition stream_artifact ::
  "'r VariationHandler \<Rightarrow> string \<Rightarrow> string \<Rightarrow> bytes \<Rightarrow> string \<Rightarrow> string \<Rightarrow> artifact_call" where
  "stream_artifact h rid invocation_id data role retention =
     \<lparr>ac_data = data, ac_run_id = rid, ac_owner_type = ''invocation'', ac_owner_id = invocation_id,
      ac_media_type = ''application/x-ndjson'', ac_role = role, ac_retention_class = retention,
      ac_max_bytes = 16 * 1024 * 1024, ac_actor_id = vh_actor h\<rparr>"

definition completed_invocation ::
  "env \<Rightarrow> HarnessInvocationRecord \<Rightarrow> RuntimeSessionRef \<Rightarrow> string \<Rightarrow> string \<Rightarrow> AgentCompletion \<Rightarrow> RuntimeEvent list \<Rightarrow>
     HarnessInvocationRecord" where
  "completed_invocation e invocation ref after_digest stream_digest completion evs =
     invocation\<lparr>hi_state := I_completed, runtime_session := Some ref, workspace_after_digest := Some after_digest,
       event_stream_artifact_digest := Some stream_digest, hi_completion := Some completion,
       hi_usage := runtime_usage evs, hi_completed_at := Some (now e)\<rparr>"

text \<open>From the collected turn to the end of the activity.\<close>

definition finish_turn ::
  "(nat \<Rightarrow> env) \<Rightarrow> 'r VariationHandler \<Rightarrow> ActivityRow \<Rightarrow> string \<Rightarrow> int \<Rightarrow> VariationSessionRequest \<Rightarrow> path \<Rightarrow> string \<Rightarrow>
     HarnessInvocationRecord \<Rightarrow> RuntimeSessionRef \<Rightarrow> RuntimeEvent list \<Rightarrow> AgentCompletion \<Rightarrow> ('r desk, ActivityResult) process" where
  "finish_turn clock h a rsv lease_epoch request cand before_digest invocation ref evs completion =
     (let usage = usage_from_events evs; path = spool_path (clock 0) (invocation_name a) in
      andthen (look_outside (\<lambda>d. Inr (stream_bytes h path evs d))) (\<lambda>data.
      andthen (put_artifact (clock 5) h (stream_artifact h (vsr_run_id request) (invocation_name a) data
        ''runtime-event-stream'' ''campaign-evidence'')) (\<lambda>stream_ref.
      andthen (look_outside (\<lambda>d. tree_digest (pf h) (fv_tree (files h (dk_runtime d)) cand))) (\<lambda>after_digest.
      let completed =
        completed_invocation (clock 6) invocation ref after_digest (ar_digest stream_ref) completion evs in
      try_budget
        (finalize_completion clock h a request (workspace_resolver h request) completion usage
          (ar_digest stream_ref) before_digest after_digest)
        (close_turn clock h a request rsv lease_epoch usage completed)
        (close_exhausted clock h a request rsv lease_epoch completed)))))"

definition variation_execute ::
  "(nat \<Rightarrow> env) \<Rightarrow> 'r VariationHandler \<Rightarrow> ActivityRow \<Rightarrow> int \<Rightarrow> ('r desk, ActivityResult) process" where
  "variation_execute clock h a lease_epoch =
     (case (act_session_id a, act_reservation_id a) of
        (Some sid, Some rsv) \<Rightarrow>
          andthen (look (get_request sid)) (\<lambda>request.
          andthen (open_workspace h request) (\<lambda>(base, cand, before_digest).
          andthen (ensure_started (clock 1) request) (\<lambda>_.
          andthen (ensure_invocation (clock 2) h a request before_digest) (\<lambda>invocation.
          andthen (ensure_prepared (clock 3) h a request cand invocation) (\<lambda>(invocation, ref).
          andthen (ensure_turn (clock 4) h request cand invocation ref) (\<lambda>(invocation, ref, inspection).
          andthen (collect_turn h (spool_path (clock 0) (invocation_name a)) ref inspection) (\<lambda>(evs, completion).
          finish_turn clock h a rsv lease_epoch request cand before_digest invocation ref evs completion)))))))
      | _ \<Rightarrow> throw (CampaignRuntimeError ''variation activity lacks session or budget context''))"

section \<open>Recovery and failures\<close>

definition conclude :: "RecoveryDisposition \<Rightarrow> ('w, ActivityRecovery) process" where
  "conclude d = look (\<lambda>_. mk_recovery d None)"

definition durable_as :: "string \<Rightarrow> ('w, ActivityRecovery) process" where
  "durable_as digest = look (\<lambda>_. mk_recovery DURABLE_RESULT (Some \<lparr>result_digest = digest\<rparr>))"

definition recover_completed ::
  "(nat \<Rightarrow> env) \<Rightarrow> 'r VariationHandler \<Rightarrow> ActivityRow \<Rightarrow> ('r desk, ActivityRecovery) process" where
  "recover_completed clock h a =
     (case (act_session_id a, act_reservation_id a) of
        (Some sid, Some rsv) \<Rightarrow>
          andthen (look (get_result sid)) (\<lambda>result.
          case result of
            None \<Rightarrow> conclude AMBIGUOUS
          | Some result \<Rightarrow>
              andthen (if vres_outcome result = O_proposal_ready
                then andthen (look (get_session_candidate sid)) (\<lambda>c.
                  give (map_option (\<lambda>m. canonical_digest (clock 0) (D_manifest m)) c))
                else give (Some (canonical_digest (clock 0) (D_result result)))) (\<lambda>digest.
              case digest of
                None \<Rightarrow> conclude AMBIGUOUS
              | Some digest \<Rightarrow>
                  andthen (try_budget (on_db (budget_complete (clock 1) rsv (vres_usage result) (vh_actor h))) give
                    (\<lambda>_. settle (clock 2) h (act_run_id a) a rsv digest (vres_usage result) (act_lease_epoch a))) (\<lambda>_.
                  durable_as digest)))
      | _ \<Rightarrow> conclude AMBIGUOUS)"

definition variation_recover ::
  "(nat \<Rightarrow> env) \<Rightarrow> 'r VariationHandler \<Rightarrow> ActivityRow \<Rightarrow> ('r desk, ActivityRecovery) process" where
  "variation_recover clock h a =
     andthen (look (\<lambda>s. Inr (find_activity_invocation (act_id a) s))) (\<lambda>found.
     case found of
       None \<Rightarrow> conclude NOT_STARTED
     | Some invocation \<Rightarrow>
         (case hi_state invocation of
            I_completed \<Rightarrow> recover_completed clock h a
          | I_failed \<Rightarrow> durable_as (canonical_digest (clock 0) (D_invocation invocation))
          | I_reconciliation_required \<Rightarrow> conclude AMBIGUOUS
          | _ \<Rightarrow>
              (case (runtime_session invocation, act_session_id a) of
                 (Some ref, Some sid) \<Rightarrow>
                   andthen (look (get_request sid)) (\<lambda>request.
                   andthen (on_runtime (inspect (runtime h) ref (candidate (workspace_resolver h request)))) (\<lambda>inspection.
                   if ri_state inspection \<in> {Not_started, Turn_completed} then conclude RESUMABLE
                   else conclude AMBIGUOUS))
               | _ \<Rightarrow> conclude RESUMABLE)))"

definition keep_partial_stream ::
  "(nat \<Rightarrow> env) \<Rightarrow> 'r VariationHandler \<Rightarrow> HarnessInvocationRecord \<Rightarrow> ('r desk, unit) process" where
  "keep_partial_stream clock h invocation =
     andthen (look_outside (\<lambda>d. Inr (dk_spool d (spool_path (clock 0) (hi_invocation_id invocation))))) (\<lambda>spooled.
     andthen (case spooled of
         None \<Rightarrow> give (event_stream_artifact_digest invocation)
       | Some data \<Rightarrow> andthen (put_artifact (clock 1) h (stream_artifact h (hi_run_id invocation)
           (hi_invocation_id invocation) data ''runtime-event-stream-partial'' ''reconciliation-evidence'')) (\<lambda>ref.
           give (Some (ar_digest ref)))) (\<lambda>stream_digest.
     on_db (replace_invocation (clock 2) (invocation\<lparr>hi_state := I_reconciliation_required,
       event_stream_artifact_digest := stream_digest, error_class := Some ''ambiguous_runtime_failure''\<rparr>))))"

definition variation_classify ::
  "(nat \<Rightarrow> env) \<Rightarrow> 'r VariationHandler \<Rightarrow> ActivityRow \<Rightarrow> err \<Rightarrow> 'r desk world \<Rightarrow> FailureDisposition \<times> 'r desk world" where
  "variation_classify clock h a x st =
     (case find_activity_invocation (act_id a) (fst st) of
        Some invocation \<Rightarrow>
          if runtime_session invocation \<noteq> None
          then (RECONCILE, snd (keep_partial_stream clock h invocation st)) else (RETRY, st)
      | None \<Rightarrow> (RETRY, st))"

definition variation_handler ::
  "(nat \<Rightarrow> env) \<Rightarrow> (('r desk world \<Rightarrow> 'r desk world) \<times> env) list \<Rightarrow> 'r VariationHandler \<Rightarrow> 'r desk ActivityHandler" where
  "variation_handler clock bs h =
     \<lparr>recover_method = Some (variation_recover clock h), find_durable_result = None,
      execute = With_epoch (\<lambda>a n. \<lparr>beats = bs, finish = variation_execute clock h a n\<rparr>),
      classify_method = Some (variation_classify clock h), safely_retryable = False\<rparr>"

section \<open>A variation only makes calls of the system\<close>

definition nonneg_values :: "(string \<times> int) list \<Rightarrow> bool" where
  "nonneg_values u \<longleftrightarrow> list_all (\<lambda>kv. 0 \<le> snd kv) u"

lemma raise_usage_nonneg: "nonneg_values u \<Longrightarrow> nonneg_values (raise_usage k v u)"
  by (induction k v u rule: raise_usage.induct) (auto simp: nonneg_values_def)

lemma runtime_usage_nonneg: "nonneg_values (runtime_usage evs)"
proof -
  have "nonneg_values (foldl (\<lambda>u (k, v). raise_usage k v u) u kvs)" if "nonneg_values u" for u kvs
    using that by (induction kvs arbitrary: u) (auto simp: raise_usage_nonneg split: prod.split)
  then show ?thesis by (simp add: runtime_usage_def nonneg_values_def)
qed

lemma foldl_max_ge: "(v::int) \<le> foldl max v ws"
  by (induction ws arbitrary: v) (simp, metis foldl_Cons max.cobounded1 order_trans)

lemma maximum_of_nonneg: "nonneg_values observed \<Longrightarrow> 0 \<le> maximum_of observed names"
proof -
  assume u: "nonneg_values observed"
  have max: "0 \<le> (case vs of [] \<Rightarrow> 0 | v # ws \<Rightarrow> foldl max v ws)" if "\<forall>v\<in>set vs. 0 \<le> v" for vs :: "int list"
    using that foldl_max_ge by (auto intro: order_trans split: list.split)
  show ?thesis
    unfolding maximum_of_def Let_def using u by (intro max) (auto simp: nonneg_values_def list_all_iff)
qed

lemma usage_from_events_nonneg: "0 \<le> usage_from_events evs"
  using maximum_of_nonneg [OF runtime_usage_nonneg]
  by (simp add: usage_from_events_def UsageRecord_le_iff zero_UsageRecord_def Let_def)

lemma session_calls [keeping]:
  "system_body (session_start e sid)" "system_body (record_attempt e rec)"
  "0 \<le> vres_usage r \<Longrightarrow> proposal_requires_workspace r = Inr r \<Longrightarrow> system_body (session_finish e r)"
  by (rule system_bodyI [of _ "(e, Session_call (Start_session sid))"]
        system_bodyI [of _ "(e, Session_call (Record_attempt rec))"]
        system_bodyI [of _ "(e, Session_call (Finish_session r))"],
      simp add: mk_session_result_def mk_usage_Inr [THEN iffD2])+

lemma invocation_calls [keeping]:
  "system_body (record_invocation e i)" "system_body (replace_invocation e i)"
  by (rule system_bodyI [of _ "(e, Runtime_call (Record_invocation i))"]
        system_bodyI [of _ "(e, Runtime_call (Replace_invocation i))"], simp)+

lemma settlement_call [keeping]: "0 \<le> actual \<Longrightarrow> 0 \<le> req \<Longrightarrow>
   system_body (settle_exhausted_variation e rid aid rsv digest actual req bundle actor epoch)"
  by (rule system_bodyI [of _ "(e, Settle_call (Settle_exhausted rid aid rsv digest actual req bundle actor epoch))"])
    (simp add: bind_err_eq_Inr mk_usage_Inr)

lemma register_call [keeping]: "system_body (register_artifact e c r)"
  by (rule system_bodyI [of _ "(e, Artifact_call (Register_artifact c r))"]) simp

lemma keeps_desk [keeping]:
  "keeps I (on_runtime m)" "keeps I (look_outside g)" "keeps I (change_desk f)"
  by (auto simp: keeps_def on_runtime_def look_outside_def change_desk_def split: prod.split)

lemma keeps_try [keeping]:
  assumes "keeps I m" and "\<And>a. keeps I (ok a)" and "\<And>x. keeps I (bad x)"
  shows "keeps I (try_budget m ok bad)"
  unfolding keeps_def
proof (intro allI impI)
  fix st :: "'a world" assume "I (fst st)"
  moreover obtain r st1 where m: "m st = (r, st1)" by (metis surj_pair)
  ultimately have "I (fst st1)" using keepsD [OF assms(1)] by fastforce
  then show "I (fst (snd (try_budget m ok bad st)))"
    using m keepsD [OF assms(2)] keepsD [OF assms(3)]
    by (auto simp: try_budget_def split: sum.split err.split)
qed

context system_invariant
begin

lemma put_artifact_keeps [keeping]: "keeps I (put_artifact e h c)"
  unfolding keeps_def put_artifact_def artifact_put_bytes_def in_session_def
  by (auto split: prod.splits sum.splits dest!: system_bodyD [OF register_call] intro: step)

lemma spool_all_keeps: "keeps I (spool_all h path evs)"
  by (induction h path evs rule: spool_all.induct)
    (auto simp: append_spool_def Let_def intro!: keeps_andthen keeping split: option.split)

lemma opening_keeps [keeping]:
  "keeps I (open_workspace h request)" "keeps I (ensure_started e request)"
  "keeps I (ensure_invocation e h a request before_digest)" "keeps I (ensure_prepared e h a request cand invocation)"
  "keeps I (ensure_turn e h request cand invocation ref)" "keeps I (collect_turn h path ref inspection)"
  unfolding open_workspace_def ensure_started_def ensure_invocation_def ensure_prepared_def ensure_turn_def
    collect_turn_def
  by (auto simp: Let_def intro!: keeps_andthen keeping spool_all_keeps split: option.split)

end

context system_invariant
begin

lemma finalize_keeps [keeping]:
  assumes "0 \<le> usage" and "0 \<le> evaluation_estimate h"
  shows "keeps I (finalize_completion clock h a request w completion usage stream_digest before_digest after_digest)"
  unfolding finalize_completion_def finalize_stop_def finalize_proposal_def hand_to_evaluation_def Let_def
  using assms by (auto simp: proposal_requires_workspace_def intro!: keeps_andthen keeping split: completion_outcome.split)

lemma stored_usage: "get_result sid s = Inr (Some r) \<Longrightarrow> I s \<Longrightarrow> 0 \<le> vres_usage r"
  using sizes [of s] row_get_mem
  by (fastforce simp: sized_def priced_def get_result_def get_session_def split: option.splits dest: row_get_SomeD)

lemma close_keeps [keeping]:
  assumes "0 \<le> usage" and "0 \<le> evaluation_estimate h"
  shows "keeps I (close_turn clock h a request rsv lease_epoch usage completed digest)"
    "keeps I (close_exhausted clock h a request rsv lease_epoch completed x)"
  unfolding close_turn_def close_exhausted_def settle_def unlink_spool_def Let_def
  using assms by (auto intro!: keeps_andthen keeping intro: stored_usage split: option.split)

lemma variation_execute_keeps:
  assumes "0 \<le> evaluation_estimate h"
  shows "keeps I (variation_execute clock h a lease_epoch)"
  unfolding variation_execute_def finish_turn_def Let_def
  using assms usage_from_events_nonneg
  by (auto intro!: keeps_andthen keeping split: option.split prod.split)

lemma recover_completed_keeps:
  assumes "0 \<le> evaluation_estimate h"
  shows "keeps I (recover_completed clock h a)"
proof -
  have settled: "keeps I (try_budget (on_db (budget_complete e rsv u actor)) give
      (\<lambda>_. settle e' h rid a rsv digest u epoch))" if "0 \<le> u" for e e' rsv u actor rid digest epoch
    unfolding settle_def using assms that by (intro keeping)
  show ?thesis
    unfolding recover_completed_def conclude_def durable_as_def
    by (auto intro!: keeps_andthen keeping settled split: option.split) (erule (1) stored_usage)+
qed

lemma variation_recover_keeps:
  assumes "0 \<le> evaluation_estimate h"
  shows "keeps I (variation_recover clock h a)"
  unfolding variation_recover_def conclude_def durable_as_def
  by (auto intro!: keeps_andthen keeping recover_completed_keeps [OF assms] split: option.split invocation_state.split)

lemma variation_handler_keeps:
  assumes "0 \<le> evaluation_estimate h" and "beats_keep I bs"
  shows "handler_keeps I (variation_handler clock bs h)"
proof -
  have "keeps I (keep_partial_stream clock h invocation)" for invocation
    unfolding keep_partial_stream_def by (auto intro!: keeps_andthen keeping split: option.split)
  then have "I (fst (snd (variation_classify clock h a x st)))" if "I (fst st)" for a x st
    using that by (auto simp: variation_classify_def keepsD split: option.split)
  then show ?thesis
    using assms by (simp add: handler_keeps_def variation_handler_def execution_keeps_def execution_of_def
        beats_keep_def variation_recover_keeps variation_execute_keeps)
qed

end

section \<open>The campaign refines the system\<close>

text \<open>The databases that a sequence of calls of the system leads to from a given one.\<close>

definition by_calls :: "db \<Rightarrow> db \<Rightarrow> bool" where
  "by_calls s t \<longleftrightarrow> (\<exists>cs. t = run_sessions system_step cs s)"

lemma by_calls_refl: "by_calls s s"
  unfolding by_calls_def by (rule exI [of _ "[]"]) simp

lemma by_calls_trans: "by_calls s t \<Longrightarrow> by_calls t u \<Longrightarrow> by_calls s u"
  unfolding by_calls_def by (metis run_sessions_append)

lemma by_calls_step: "system_step c s = Inr (u, s') \<Longrightarrow> by_calls s s'"
  unfolding by_calls_def by (rule exI [of _ "[c]"]) (simp add: in_session_def)

lemma by_calls_reachable: "by_calls s t \<Longrightarrow> reachable s \<Longrightarrow> reachable t"
  by (auto simp: by_calls_def reachable_sessions)

interpretation onward: system_invariant "\<lambda>t. reachable s \<and> by_calls s t" for s
  by unfold_locales (auto intro: by_calls_trans by_calls_step reachable_sized by_calls_reachable)

text \<open>Code outside that acts on the database through the services only.\<close>

definition only_calls :: "('w, 'a) process \<Rightarrow> bool" where
  "only_calls m \<longleftrightarrow> (\<forall>st. by_calls (fst st) (fst (snd (m st))))"

definition beats_only_call :: "(('w world \<Rightarrow> 'w world) \<times> env) list \<Rightarrow> bool" where
  "beats_only_call bs \<longleftrightarrow> (\<forall>b\<in>set bs. \<forall>st. by_calls (fst st) (fst (fst b st)))"

lemma only_calls_keep: "only_calls m \<Longrightarrow> keeps (\<lambda>t. reachable s \<and> by_calls s t) m"
  by (auto simp: only_calls_def keeps_def intro: by_calls_trans)

lemma beats_only_call_keep: "beats_only_call bs \<Longrightarrow> beats_keep (\<lambda>t. reachable s \<and> by_calls s t) bs"
  by (auto simp: beats_only_call_def beats_keep_def intro: by_calls_trans)

lemma campaign_worker_handlers:
  assumes "mk_campaign_worker name secs v ev ad = Inr w" and "handlers w k = Some h"
  shows "h \<in> {v, ev, ad}"
  using assms by (auto simp: mk_campaign_worker_def register_def mk_scheduler_def bind_err_eq_Inr split: if_splits)

text \<open>
  C7. A campaign worker refines the system of services: whatever its three handlers do in any
  number of turns, with errors, recoveries, parked activities and other processes at work
  between their heartbeats, the database it leaves is one that a sequence of service calls
  leads to, provided that the evaluators, the decider and the other processes use the database
  through the services as well. So every property of the system holds of a campaign.
\<close>

theorem campaign_refines_system:
  assumes "reachable (fst st)"
    and "\<And>i. mk_campaign_worker name secs (variation_handler (clock i) (vbs i) (vh i))
      (evaluation_handler (clock i) (ebs i) (eh i)) (admission_handler (clock i) (dbs i) (ah i)) = Inr (worker i)"
    and "\<And>i. 0 \<le> evaluation_estimate (vh i)"
    and "\<And>i m. only_calls (runner (eh i) m)" and "\<And>i m es. only_calls (decider (ah i) m es)"
    and "\<And>i m st records st' r. runner (eh i) m st = (Inr records, st') \<Longrightarrow> r \<in> set records \<Longrightarrow>
      list_all (\<lambda>a. 0 \<le> ar_size_bytes a) (evidence_artifacts (snd r))"
    and "\<And>i. beats_only_call (vbs i)" and "\<And>i. beats_only_call (ebs i)" and "\<And>i. beats_only_call (dbs i)"
  shows "\<exists>cs. fst (snd (run_until_idle hours worker max_activities st)) = run_sessions system_step cs (fst st)"
proof -
  let ?I = "\<lambda>t. reachable (fst st) \<and> by_calls (fst st) t"
  have "handler_keeps ?I h" if "handlers (worker i) k = Some h" for i k h
    using campaign_worker_handlers [OF assms(2) that] assms(3-)
    by (auto intro!: onward.variation_handler_keeps onward.evaluation_handler_keeps onward.admission_handler_keeps
        beats_only_call_keep only_calls_keep simp: runner_keeps_def)
  then have "keeps ?I (run_until_idle hours worker max_activities)" by (rule onward.run_until_idle_keeps)
  from keepsD [OF this, of st] assms(1) show ?thesis by (simp add: by_calls_refl) (simp add: by_calls_def)
qed

section \<open>What a variation may stage\<close>

declare split_paired_All [simp del] split_paired_Ex [simp del]

text \<open>A process that leaves some part of the world as it was, raised or not.\<close>

definition same :: "('w world \<Rightarrow> 'b) \<Rightarrow> ('w, 'a) process \<Rightarrow> bool" where
  "same g m \<longleftrightarrow> (\<forall>st. g (snd (m st)) = g st)"

named_theorems same_part "processes that leave a part of the world alone"

lemma sameD: "same g m \<Longrightarrow> m st = (r, st') \<Longrightarrow> g st' = g st"
  unfolding same_def by (metis snd_conv)

lemma same_pure [same_part]: "same g (give x)" "same g (throw e)" "same g (look f)" "same g (look_outside f')"
  by (simp_all add: same_def give_def throw_def look_def look_outside_def)

lemma same_andthen:
  assumes "same g m" and "\<And>a. same g (f a)"
  shows "same g (andthen m f)"
  unfolding same_def
proof
  fix st :: "'a world"
  obtain r st1 where m: "m st = (r, st1)" by (metis surj_pair)
  then show "g (snd (andthen m f st)) = g st"
    using sameD [OF assms(1) m] assms(2) by (cases r) (simp_all add: andthen_def same_def)
qed

lemma same_try:
  assumes "same g m" and "\<And>a. same g (ok a)" and "\<And>x. same g (bad x)"
  shows "same g (try_budget m ok bad)"
  unfolding same_def
proof
  fix st :: "'a world"
  obtain r st1 where m: "m st = (r, st1)" by (metis surj_pair)
  then show "g (snd (try_budget m ok bad st)) = g st"
    using sameD [OF assms(1) m] assms(2,3)
    by (auto simp: try_budget_def same_def split: sum.split err.split)
qed

definition staged :: "'w world \<Rightarrow> string list" where
  "staged st = map cand_id (candidates (fst st))"

text \<open>The candidates on file together with the state of the runtime.\<close>

definition staged_here :: "'r desk world \<Rightarrow> string list \<times> 'r" where
  "staged_here st = (staged st, dk_runtime (snd st))"

lemma same_staged: "same staged_here m \<Longrightarrow> same staged m"
  by (simp add: same_def staged_here_def)

lemma same_on_db:
  "(\<And>s x s'. m s = Inr (x, s') \<Longrightarrow> map cand_id (candidates s') = map cand_id (candidates s)) \<Longrightarrow>
   same staged_here (on_db m)"
  by (auto simp: same_def on_db_def in_session_def staged_here_def staged_def split: sum.split)

lemma row_set_ids [simp]: "(\<And>r. key (f r) = key r) \<Longrightarrow> map key (row_set key k f xs) = map key xs"
  by (induction xs) (auto simp: row_set_def)

lemma same_calls [same_part]:
  "same staged_here (on_db (session_start e sid))" "same staged_here (on_db (record_attempt e rec))"
  "same staged_here (on_db (session_finish e r))" "same staged_here (on_db (record_invocation e i))"
  "same staged_here (on_db (replace_invocation e i))" "same staged_here (on_db (budget_reserve e rid key u actor))"
  "same staged_here (on_db (budget_complete e rsv u actor))"
  "same staged_here (on_db (activity_enqueue e rid key input actor session reservation))"
  subgoal by (rule same_on_db) (auto elim!: session_start_Inr simp: set_defs)
  subgoal by (rule same_on_db) (auto elim!: record_attempt_Inr simp: add_attempt_Inr)
  subgoal by (rule same_on_db) (auto elim!: session_finish_Inr simp: set_defs)
  subgoal by (rule same_on_db) (auto simp: record_invocation_def raise_simps add_invocation_Inr split: option.splits if_splits)
  subgoal by (rule same_on_db) (auto simp: replace_invocation_def set_defs split: option.splits if_splits)
  subgoal by (rule same_on_db) (auto elim!: budget_reserve_Inr dest!: append_run_event_Inr(1) simp: add_reservation_Inr set_defs)
  subgoal by (rule same_on_db) (auto elim!: budget_complete_Inr dest!: append_run_event_Inr(1) simp: set_defs)
  subgoal by (rule same_on_db) (auto elim!: activity_enqueue_Inr dest!: append_run_event_Inr(1) simp: add_activity_Inr)
  done

lemma cancel_evaluation_candidates:
  assumes "cancel_evaluation e c ev reserved s = Inr (remaining, t)"
  shows "candidates t = candidates s"
  using assms by (cases rule: cancel_evaluation_Inr) (auto dest!: cancel_activity_Inr simp: set_defs)

lemma block_candidate_ids:
  assumes "block_candidate e rid c ev actual limit dims bundle reserved s = Inr (remaining, t)"
  shows "map cand_id (candidates t) = map cand_id (candidates s)"
  using assms
  by (auto simp: block_candidate_def raise_simps set_defs split: if_splits prod.splits option.splits
      dest!: record_policy_denial_Inr cancel_evaluation_candidates)

lemma same_settle [same_part]: "same staged_here (settle e h rid a rsv digest u epoch)"
  unfolding settle_def
proof (rule same_on_db, erule settle_exhausted_Inr, elim disjE conjE)
  fix s x s' run a r l
  assume "settle_again e run a r u (vh_actor h) s = Inr (x, s')"
  then show "map cand_id (candidates s') = map cand_id (candidates s)"
    by (rule settle_again_Inr) (auto dest!: append_run_event_Inr(1) simp: resolve_open_cases_def)
next
  fix s x s' run a r l
  assume "settle_active e run a r l digest u (evaluation_estimate h) (policy_bundle h) (vh_actor h) s = Inr (x, s')"
  then show "map cand_id (candidates s') = map cand_id (candidates s)"
    by (rule settle_active_Inr)
      (auto dest!: append_run_event_Inr(1) block_candidate_ids simp: set_defs resolve_open_cases_def)
qed

lemma same_put [same_part]: "same staged_here (put_artifact e h c)"
proof -
  have "candidates s' = candidates s" if "register_artifact e c r s = Inr (x, s')" for r s x s'
    using that by (cases rule: register_artifact_tables) (auto dest!: append_run_event_Inr(1))
  then show ?thesis
    unfolding same_def put_artifact_def artifact_put_bytes_def in_session_def
    by (auto simp: staged_here_def staged_def split: prod.split sum.split)
qed

lemma same_change [same_part]: "(\<And>d. dk_runtime (f d) = dk_runtime d) \<Longrightarrow> same staged_here (change_desk f)"
  by (simp add: same_def change_desk_def staged_here_def staged_def)

lemma same_spool [same_part]: "same staged_here (unlink_spool path)" "same staged_here (append_spool h path ev)"
  unfolding unlink_spool_def append_spool_def Let_def
  by (auto intro!: same_andthen same_part split: option.split)

lemma same_runtime: "same staged (on_runtime m)"
  by (simp add: same_def on_runtime_def staged_def split: prod.split)

lemma same_opening:
  "same staged (open_workspace h request)" "same staged (ensure_started e request :: ('r desk, unit) process)"
  "same staged (ensure_invocation e h a request before_digest)" "same staged (ensure_prepared e h a request cand invocation)"
  "same staged (ensure_turn e h request cand invocation ref)" "same staged (collect_turn h path ref inspection)"
proof -
  have spool: "same staged_here (spool_all h path evs)" for evs
    by (induction evs) (auto intro!: same_andthen same_part)
  show "same staged (open_workspace h request)" "same staged (ensure_started e request :: ('r desk, unit) process)"
    "same staged (ensure_invocation e h a request before_digest)" "same staged (ensure_prepared e h a request cand invocation)"
    "same staged (ensure_turn e h request cand invocation ref)" "same staged (collect_turn h path ref inspection)"
    unfolding open_workspace_def ensure_started_def ensure_invocation_def ensure_prepared_def ensure_turn_def
      collect_turn_def Let_def
    by (auto intro!: same_andthen same_runtime same_staged [OF spool] same_staged [OF same_calls(1)]
        same_staged [OF same_calls(4)] same_staged [OF same_calls(5)] same_pure split: option.split)
qed

text \<open>At most one candidate is staged, and only past the guard on the paths it changes.\<close>

definition stage_rel :: "'r desk world \<Rightarrow> 'r desk world \<Rightarrow> bool" where
  "stage_rel st st' \<longleftrightarrow> dk_runtime (snd st') = dk_runtime (snd st) \<and>
     (staged st' = staged st \<or> (\<exists>cid. staged st' = staged st @ [cid]))"

definition guarded_rel :: "'r VariationHandler \<Rightarrow> CampaignWorkspace \<Rightarrow> 'r desk world \<Rightarrow> 'r desk world \<Rightarrow> bool" where
  "guarded_rel h w st st' \<longleftrightarrow> staged st' = staged st \<or>
     (\<exists>cid risk. staged st' = staged st @ [cid] \<and> guard_paths h w (snd st') = Inr risk)"

definition relates :: "('w world \<Rightarrow> 'w world \<Rightarrow> bool) \<Rightarrow> ('w, 'a) process \<Rightarrow> bool" where
  "relates R m \<longleftrightarrow> (\<forall>st. R st (snd (m st)))"

abbreviation stages :: "('r desk, 'a) process \<Rightarrow> bool" where
  "stages \<equiv> relates stage_rel"

abbreviation stages_guarded :: "'r VariationHandler \<Rightarrow> CampaignWorkspace \<Rightarrow> ('r desk, 'a) process \<Rightarrow> bool" where
  "stages_guarded h w \<equiv> relates (guarded_rel h w)"

lemma relatesD: "relates R m \<Longrightarrow> m st = (r, st') \<Longrightarrow> R st st'"
  unfolding relates_def by (metis snd_conv)

lemma relatesI: "(\<And>st r st'. m st = (r, st') \<Longrightarrow> R st st') \<Longrightarrow> relates R m"
  unfolding relates_def by (metis surj_pair snd_conv)

lemma andthen_cases:
  assumes "andthen m f st = (r, st')"
  obtains x where "m st = (Inl x, st')" "r = Inl x" | a st1 where "m st = (Inr a, st1)" "f a st1 = (r, st')"
  using assms by (auto simp: andthen_def split: prod.splits sum.splits)

lemma relates_before:
  assumes "same g m" and "\<And>a. relates R (f a)" and "\<And>st st'. g st' = g st \<Longrightarrow> R st st'"
    and "\<And>st st1 st'. g st1 = g st \<Longrightarrow> R st1 st' \<Longrightarrow> R st st'"
  shows "relates R (andthen m f)"
  by (rule relatesI, erule andthen_cases) (use assms in \<open>blast dest: sameD relatesD\<close>)+

lemma relates_after:
  assumes "relates R m" and "\<And>a. same g (f a)" and "\<And>st st1 st'. R st st1 \<Longrightarrow> g st' = g st1 \<Longrightarrow> R st st'"
  shows "relates R (andthen m f)"
  by (rule relatesI, erule andthen_cases) (use assms in \<open>blast dest: sameD relatesD\<close>)+

lemma guard_paths_runtime: "dk_runtime d = dk_runtime d' \<Longrightarrow> guard_paths h w d = guard_paths h w d'"
  by (simp add: guard_paths_def)

lemma stage_rel_here [simp]: "staged_here st' = staged_here st \<Longrightarrow> stage_rel st st'"
  by (simp add: stage_rel_def staged_here_def)

lemma stages_before: "same staged_here m \<Longrightarrow> (\<And>a. stages (f a)) \<Longrightarrow> stages (andthen m f)"
  by (rule relates_before [of staged_here]) (auto simp: stage_rel_def staged_here_def)

lemma stages_after: "stages m \<Longrightarrow> (\<And>a. same staged_here (f a)) \<Longrightarrow> stages (andthen m f)"
  by (rule relates_after [of _ _ staged_here]) (auto simp: stage_rel_def staged_here_def)

lemma stage_candidate_stages: "stages (on_db (stage_candidate e m))"
  by (rule relatesI)
    (auto simp: stage_rel_def on_db_def in_session_def staged_def add_candidate_Inr split: sum.splits
      elim!: stage_candidate_Inr)

lemma guarded_same: "same staged m \<Longrightarrow> stages_guarded h w m"
  by (rule relatesI) (auto simp: guarded_rel_def dest: sameD)

lemma guarded_before:
  "same staged m \<Longrightarrow> (\<And>a. stages_guarded h w (f a)) \<Longrightarrow> stages_guarded h w (andthen m f)"
  by (rule relates_before [of staged]) (auto simp: guarded_rel_def)

lemma guarded_guard:
  assumes "stages m"
  shows "stages_guarded h w (andthen (look_outside (guard_paths h w)) (\<lambda>_. m))"
proof (rule relatesI, erule andthen_cases)
  fix st r st' risk st1
  assume "look_outside (guard_paths h w) st = (Inr risk, st1)" and "m st1 = (r, st')"
  then have "guard_paths h w (snd st) = Inr risk" "stage_rel st st'"
    using relatesD [OF assms] by (auto simp: look_outside_def)
  then show "guarded_rel h w st st'"
    using guard_paths_runtime [of "snd st'" "snd st" h w] by (auto simp: guarded_rel_def stage_rel_def)
qed (auto simp: look_outside_def guarded_rel_def)

lemma guarded_try:
  assumes "stages_guarded h w m" and "\<And>a. same staged_here (ok a)" and "\<And>x. same staged_here (bad x)"
  shows "stages_guarded h w (try_budget m ok bad)"
proof (rule relatesI)
  fix st r st'
  assume "try_budget m ok bad st = (r, st')"
  then obtain y st1 where m: "m st = (y, st1)" and here: "staged_here st' = staged_here st1"
    using sameD [OF assms(2)] sameD [OF assms(3)]
    by (auto simp: try_budget_def split: prod.splits sum.splits err.splits)
  from relatesD [OF assms(1) m] here show "guarded_rel h w st st'"
    using guard_paths_runtime [of "snd st'" "snd st1" h w] by (auto simp: guarded_rel_def staged_here_def)
qed

lemma finalize_guarded:
  "stages_guarded h w (finalize_completion clock h a request w completion usage stream_digest before_digest after_digest)"
proof -
  have rest: "stages (hand_to_evaluation clock h request m)" for m
    unfolding hand_to_evaluation_def Let_def by (intro stages_after stage_candidate_stages same_andthen same_part)
  show ?thesis
    unfolding finalize_completion_def finalize_stop_def finalize_proposal_def Let_def
    by (auto split: completion_outcome.split
        intro!: guarded_before guarded_guard stages_before rest same_part same_staged [OF same_calls(2)]
          same_staged [OF same_calls(3)] guarded_same [OF same_pure(1)] guarded_same [OF same_pure(2)])
qed

lemma finish_guarded:
  "stages_guarded h (workspace_resolver h request)
     (finish_turn clock h a rsv lease_epoch request cand before_digest invocation ref evs completion)"
  unfolding finish_turn_def close_turn_def close_exhausted_def Let_def
  by (auto intro!: guarded_before guarded_try finalize_guarded same_try same_andthen same_part same_staged [OF same_put]
      split: option.split)

lemma guard_paths_Inr:
  assumes "guard_paths h w d = Inr risk"
  obtains paths where "changed_workspace_paths (pf h) (fv_tree (files h (dk_runtime d)) (baseline w))
      (fv_tree (files h (dk_runtime d)) (candidate w)) = Inr paths"
    "derive_risk (pf h) paths = Inr risk" "risk \<notin> {CONSTITUTIONAL, PRODUCTION}"
proof -
  from assms obtain paths where p: "changed_workspace_paths (pf h) (fv_tree (files h (dk_runtime d)) (baseline w))
      (fv_tree (files h (dk_runtime d)) (candidate w)) = Inr paths"
    "(case derive_risk (pf h) paths of
       Inl _ \<Rightarrow> Inl (CampaignAuthorityPathError ''candidate changed paths failed canonical validation'')
     | Inr risk \<Rightarrow>
         if risk \<in> {CONSTITUTIONAL, PRODUCTION}
         then Inl (CampaignAuthorityPathError
           (''candidate changes trusted authority paths; completion rejected before candidate staging (risk='' @
            risk_value risk @ '')''))
         else Inr risk) = Inr risk"
    unfolding guard_paths_def by (auto simp: bind_err_eq_Inr)
  from p(2) that [OF p(1)] show thesis by (cases "derive_risk (pf h) paths") (auto split: if_splits)
qed

lemma derive_risk_ordinary:
  assumes "derive_risk fm paths = Inr risk" and "risk \<notin> {CONSTITUTIONAL, PRODUCTION}" and "p \<in> set paths"
  shows "\<not> constitutional_path (casefold fm p) \<and> \<not> starts_with PRODUCTION_PREFIXES (casefold fm p)"
  using assms by (auto simp: derive_risk_def bind_err_eq_Inr list_ex_iff Let_def split: if_splits)

text \<open>
  C8. A coding agent cannot stage a change to trusted authority paths. Whatever the runtime
  does, an executed variation stages at most one candidate; and when it stages one, the
  changes between the two workspaces as they then stand were listed, every one of their paths is
  a valid promotion path, and none of them is a constitutional or a production path. Otherwise
  the list of candidates is as before, whether the variation returned or raised.
\<close>

theorem variation_stages_no_authority_change:
  assumes "variation_execute clock h a lease_epoch st = (r, st')" and "act_session_id a = Some sid"
    and "get_request sid (fst st) = Inr request"
  shows "map cand_id (candidates (fst st')) = map cand_id (candidates (fst st)) \<or>
    (\<exists>cid paths. map cand_id (candidates (fst st')) = map cand_id (candidates (fst st)) @ [cid] \<and>
       changed_workspace_paths (pf h)
         (fv_tree (files h (dk_runtime (snd st'))) (baseline (workspace_resolver h request)))
         (fv_tree (files h (dk_runtime (snd st'))) (candidate (workspace_resolver h request))) = Inr paths \<and>
       (\<exists>v. validate_changed_paths (pf h) paths = Inr v) \<and>
       (\<forall>p\<in>set paths. \<not> constitutional_path (casefold (pf h) p) \<and>
          \<not> starts_with PRODUCTION_PREFIXES (casefold (pf h) p)))"
proof -
  let ?w = "workspace_resolver h request"
  have guarded: "stages_guarded h ?w (andthen (open_workspace h request) (\<lambda>(base, cand, before_digest).
      andthen (ensure_started (clock 1) request) (\<lambda>_.
      andthen (ensure_invocation (clock 2) h a request before_digest) (\<lambda>invocation.
      andthen (ensure_prepared (clock 3) h a request cand invocation) (\<lambda>(invocation, ref).
      andthen (ensure_turn (clock 4) h request cand invocation ref) (\<lambda>(invocation, ref, inspection).
      andthen (collect_turn h (spool_path (clock 0) (invocation_name a)) ref inspection) (\<lambda>(evs, completion).
      finish_turn clock h a rsv lease_epoch request cand before_digest invocation ref evs completion)))))))" for rsv
    by (auto intro!: guarded_before same_opening finish_guarded split: prod.split)
  have look_first: "andthen (look (get_request sid)) f st = f request st" for f :: "_ \<Rightarrow> ('a desk, ActivityResult) process"
    using assms(3) by (simp add: andthen_def look_def)
  have "guarded_rel h ?w st st'"
  proof (cases "act_reservation_id a")
    case (Some rsv)
    with assms(1,2) show ?thesis
      by (intro relatesD [OF guarded [of rsv]]) (simp add: variation_execute_def look_first)
  qed (use assms in \<open>simp add: variation_execute_def throw_def guarded_rel_def\<close>)
  then have "staged st' = staged st \<or> (\<exists>cid risk. staged st' = staged st @ [cid] \<and> guard_paths h ?w (snd st') = Inr risk)"
    by (simp add: guarded_rel_def)
  moreover have "\<exists>paths. changed_workspace_paths (pf h) (fv_tree (files h (dk_runtime d)) (baseline ?w))
      (fv_tree (files h (dk_runtime d)) (candidate ?w)) = Inr paths \<and>
      (\<exists>v. validate_changed_paths (pf h) paths = Inr v) \<and>
      (\<forall>p\<in>set paths. \<not> constitutional_path (casefold (pf h) p) \<and> \<not> starts_with PRODUCTION_PREFIXES (casefold (pf h) p))"
    if "guard_paths h ?w d = Inr risk" for d risk
  proof -
    from that obtain paths where "changed_workspace_paths (pf h) (fv_tree (files h (dk_runtime d)) (baseline ?w))
        (fv_tree (files h (dk_runtime d)) (candidate ?w)) = Inr paths"
      "derive_risk (pf h) paths = Inr risk" "risk \<notin> {CONSTITUTIONAL, PRODUCTION}" by (rule guard_paths_Inr)
    then show ?thesis
      using derive_risk_ordinary [of "pf h" paths risk] by (auto simp: derive_risk_def bind_err_eq_Inr)
  qed
  ultimately show ?thesis unfolding staged_def by blast
qed

section \<open>A turn is started once\<close>

lemma andthen_eq:
  "m st = m' st \<Longrightarrow> (\<And>a st1. m st = (Inr a, st1) \<Longrightarrow> f a st1 = f' a st1) \<Longrightarrow> andthen m f st = andthen m' f' st"
  by (auto simp: andthen_def split: prod.split sum.split)

lemma runtime_apart:
  "put_artifact e (h\<lparr>runtime := x\<rparr>) = put_artifact e h" "stream_bytes (h\<lparr>runtime := x\<rparr>) = stream_bytes h"
  "stream_artifact (h\<lparr>runtime := x\<rparr>) = stream_artifact h" "guard_paths (h\<lparr>runtime := x\<rparr>) = guard_paths h"
  "candidate_artifact (h\<lparr>runtime := x\<rparr>) = candidate_artifact h" "manifest_of e (h\<lparr>runtime := x\<rparr>) = manifest_of e h"
  "hand_to_evaluation clock (h\<lparr>runtime := x\<rparr>) = hand_to_evaluation clock h" "settle e (h\<lparr>runtime := x\<rparr>) = settle e h"
  by (intro ext, simp add: put_artifact_def stream_bytes_def stream_artifact_def guard_paths_def candidate_artifact_def
      manifest_of_def hand_to_evaluation_def settle_def cong: option.case_cong)+

lemma finalize_runtime: "finalize_completion clock (h\<lparr>runtime := x\<rparr>) = finalize_completion clock h"
proof -
  have "finalize_proposal clock (h\<lparr>runtime := x\<rparr>) = finalize_proposal clock h"
    by (intro ext) (simp add: finalize_proposal_def runtime_apart Let_def cong: if_cong)
  then show ?thesis by (intro ext) (simp add: finalize_completion_def Let_def split: completion_outcome.split)
qed

lemma finish_turn_runtime: "finish_turn clock (h\<lparr>runtime := x\<rparr>) = finish_turn clock h"
proof -
  have "close_turn clock (h\<lparr>runtime := x\<rparr>) = close_turn clock h"
    by (intro ext) (simp add: close_turn_def runtime_apart)
  moreover have "close_exhausted clock (h\<lparr>runtime := x\<rparr>) = close_exhausted clock h"
    by (intro ext) (simp add: close_exhausted_def runtime_apart Let_def cong: option.case_cong)
  ultimately show ?thesis
    by (intro ext) (simp add: finish_turn_def runtime_apart finalize_runtime Let_def)
qed

lemma open_workspace_runtime: "open_workspace (h\<lparr>runtime := x\<rparr>) = open_workspace h"
  by (intro ext) (simp add: open_workspace_def)

lemma spool_all_runtime: "spool_all (h\<lparr>runtime := x\<rparr>) path evs = spool_all h path evs"
  by (induction evs) (simp_all add: append_spool_def)

lemma same_invocation:
  "same (\<lambda>st. find_activity_invocation aid (fst st)) (open_workspace h request)"
  "same (\<lambda>st. find_activity_invocation aid (fst st)) (ensure_started e request :: ('r desk, unit) process)"
proof -
  have start: "same (\<lambda>st :: 'r desk world. find_activity_invocation aid (fst st))
      (on_db (session_start e (vsr_session_id request)))"
    by (auto simp: same_def on_db_def in_session_def find_activity_invocation_def set_defs
        elim!: session_start_Inr split: sum.split)
  show "same (\<lambda>st. find_activity_invocation aid (fst st)) (open_workspace h request)"
    "same (\<lambda>st. find_activity_invocation aid (fst st)) (ensure_started e request :: ('r desk, unit) process)"
    unfolding open_workspace_def ensure_started_def by (auto intro!: same_andthen same_pure start)
qed

text \<open>
  C9. A turn that the runtime has accepted is never started again. When the invocation of the
  activity has a session with a native operation, executing the activity (again, after a crash
  or by another worker) behaves the same whatever the preflight, the preparation and the start
  of a turn would do: none of them is called.
\<close>

theorem accepted_turn_not_started_again:
  assumes "find_activity_invocation (act_id a) (fst st) = Some invocation"
    and "runtime_session invocation = Some ref" and "native_operation_id ref \<noteq> None"
  shows "variation_execute clock (h\<lparr>runtime := (runtime h)\<lparr>preflight := p, prepare := q, start_turn := t\<rparr>\<rparr>)
      a lease_epoch st = variation_execute clock h a lease_epoch st"
proof -
  let ?rt = "(runtime h)\<lparr>preflight := p, prepare := q, start_turn := t\<rparr>"
  let ?h = "h\<lparr>runtime := ?rt\<rparr>"
  have prepared: "ensure_prepared e g a request cand invocation = give (invocation, ref)" for e g request cand
    using assms(2) by (simp add: ensure_prepared_def)
  have turn: "ensure_turn e ?h request cand invocation ref = ensure_turn e h request cand invocation ref"
    for e request cand
    using assms(3) by (simp add: ensure_turn_def)
  have collect: "collect_turn ?h = collect_turn h"
    by (intro ext) (simp add: collect_turn_def spool_all_runtime cong: option.case_cong)
  have found: "ensure_invocation e g a request d st2 = (Inr invocation, st2)"
    if "open_workspace h request st = (r1, st1)" "ensure_started e' request st1 = (r2, st2)" for e g request d e' r1 st1 r2 st2
    using sameD [OF same_invocation(1) that(1)] sameD [OF same_invocation(2) that(2)] assms(1)
    by (simp add: ensure_invocation_def andthen_def look_def give_def)
  have rest: "andthen (open_workspace ?h request) (\<lambda>(base, cand, before_digest).
      andthen (ensure_started (clock 1) request) (\<lambda>_.
      andthen (ensure_invocation (clock 2) ?h a request before_digest) (\<lambda>invocation.
      andthen (ensure_prepared (clock 3) ?h a request cand invocation) (\<lambda>(invocation, ref).
      andthen (ensure_turn (clock 4) ?h request cand invocation ref) (k cand before_digest))))) st =
    andthen (open_workspace h request) (\<lambda>(base, cand, before_digest).
      andthen (ensure_started (clock 1) request) (\<lambda>_.
      andthen (ensure_invocation (clock 2) h a request before_digest) (\<lambda>invocation.
      andthen (ensure_prepared (clock 3) h a request cand invocation) (\<lambda>(invocation, ref).
      andthen (ensure_turn (clock 4) h request cand invocation ref) (k cand before_digest))))) st"
    for request and k :: "path \<Rightarrow> string \<Rightarrow> _ \<Rightarrow> ('a desk, ActivityResult) process"
  proof (rule andthen_eq, simp add: open_workspace_runtime, clarify)
    fix base cand before_digest st1
    assume "open_workspace ?h request st = (Inr (base, cand, before_digest), st1)"
    then have opened: "open_workspace h request st = (Inr (base, cand, before_digest), st1)"
      by (simp add: open_workspace_runtime)
    have go: "andthen (ensure_invocation (clock 2) g a request before_digest) (\<lambda>invocation.
        andthen (ensure_prepared (clock 3) g a request cand invocation) (\<lambda>(invocation, ref).
        andthen (ensure_turn (clock 4) g request cand invocation ref) (k cand before_digest))) st2 =
      andthen (ensure_turn (clock 4) g request cand invocation ref) (k cand before_digest) st2"
      if "ensure_started (clock 1) request st1 = (Inr u, st2)" for g u st2
      unfolding andthen_def [of "ensure_invocation _ _ _ _ _"] found [OF opened that]
      by (simp add: prepared andthen_def [of "give _"] give_def)
    show "andthen (ensure_started (clock 1) request) (\<lambda>_.
        andthen (ensure_invocation (clock 2) ?h a request before_digest) (\<lambda>invocation.
        andthen (ensure_prepared (clock 3) ?h a request cand invocation) (\<lambda>(invocation, ref).
        andthen (ensure_turn (clock 4) ?h request cand invocation ref) (k cand before_digest)))) st1 =
      andthen (ensure_started (clock 1) request) (\<lambda>_.
        andthen (ensure_invocation (clock 2) h a request before_digest) (\<lambda>invocation.
        andthen (ensure_prepared (clock 3) h a request cand invocation) (\<lambda>(invocation, ref).
        andthen (ensure_turn (clock 4) h request cand invocation ref) (k cand before_digest)))) st1"
      by (rule andthen_eq) (simp_all only: go turn)
  qed
  show ?thesis
  proof (cases "act_session_id a = None \<or> act_reservation_id a = None")
    case False
    then obtain sid rsv where "act_session_id a = Some sid" "act_reservation_id a = Some rsv" by auto
    then show ?thesis
      unfolding variation_execute_def collect finish_turn_runtime
      by (simp only: option.case prod.case)
        (rule andthen_eq [OF refl], unfold step_Inr, elim conjE, hypsubst, rule rest)
  qed (auto simp: variation_execute_def split: option.split)
qed

section \<open>A campaign at work\<close>

text \<open>
  A runtime whose state is the number of turns it was asked to start: the agent edits one file
  of the candidate tree, reports two usage events and proposes.
\<close>

definition agent_ref :: "string option \<Rightarrow> RuntimeSessionRef" where
  "agent_ref op = \<lparr>adapter_id = ''agent'', native_session_id = ''n'', native_operation_id = op,
     rsr_invocation_id = None, storage_class = ''durable'', checkpoint = None\<rparr>"

definition agent_event :: "int \<Rightarrow> int \<Rightarrow> RuntimeEvent" where
  "agent_event i n = \<lparr>re_invocation_id = ''i'', re_sequence = i, re_event_type = ''usage'',
     re_payload_digest = ''d'', re_usage_delta = [(''input_tokens'', n), (''model.output_tokens'', 1)],
     re_occurred_at = Aware 1 0\<rparr>"

definition agent_completion :: AgentCompletion where
  "agent_completion = \<lparr>ac_outcome = Proposal, ac_rationale = ''faster'', claimed_tests = []\<rparr>"

definition agent :: "nat CodingAgentRuntime" where
  "agent = \<lparr>rt_adapter_id = ''agent'', rt_adapter_version = ''1'', rt_version = ''1'',
     preflight = (\<lambda>n. (Inr True, n)), prepare = (\<lambda>request cand inv n. (Inr (agent_ref None), n)),
     start_turn = (\<lambda>request ref n. (Inr (agent_ref (Some ''op'')), Suc n)),
     event_stream = (\<lambda>ref n. (([agent_event 1 2, agent_event 2 3], None), n)),
     wait = (\<lambda>ref n. (Inr agent_completion, n)),
     inspect = (\<lambda>ref cand n. (Inr (if n = 0 then \<lparr>ri_state = Not_started, ri_session = ref, ri_completion = None\<rparr>
       else \<lparr>ri_state = Turn_completed, ri_session = agent_ref (Some ''op''), ri_completion = Some agent_completion\<rparr>), n))\<rparr>"

definition agent_file :: "string \<Rightarrow> bytes \<Rightarrow> ws_entry" where
  "agent_file p content = \<lparr>te_path = p, te_node = Regular content 1, we_mode = 420\<rparr>"

definition agent_files :: "string \<Rightarrow> nat \<Rightarrow> file_view" where
  "agent_files edited n = \<lparr>fv_resolve = Some, fv_exists = (\<lambda>p. False),
     fv_tree = (\<lambda>p. if p = [''cand''] \<and> 0 < n then [agent_file ''src/f.py'' ''old'', agent_file edited ''new'']
       else [agent_file ''src/f.py'' ''old''])\<rparr>"

text \<open>A hash that tells the byte strings of the example apart.\<close>

definition agent_hash :: "bytes \<Rightarrow> char" where
  "agent_hash b = (if list_ex (\<lambda>c. c = CHR ''q'') b then CHR ''1''
     else if take 1 b = ''p'' then CHR ''2'' else if take 1 b = ''f'' then CHR ''3''
     else if take 1 b = ''e'' then CHR ''4'' else CHR ''0'')"

definition agent_platform :: platform where
  "agent_platform = \<lparr>nfc = (\<lambda>x. x), casefold = (\<lambda>x. x),
     sha256 = (\<lambda>b. agent_hash b # replicate 63 (CHR ''0''))\<rparr>"

definition agent_digest :: "string" where
  "agent_digest = (case tree_digest agent_platform [agent_file ''src/f.py'' ''old''] of Inr d \<Rightarrow> d | Inl _ \<Rightarrow> [])"

definition agent_request :: VariationSessionRequest where
  "agent_request = (demo_request ''s1'')\<lparr>champion := \<lparr>cr_candidate_id = ''seed-r'', cr_source_tree_digest = agent_digest,
     cr_lineage_sequence = 0\<rparr>\<rparr>"

definition one_evaluation :: UsageRecord where
  "one_evaluation = UsageRecord 0 0 0 0 0 0 0 1 0 0"

definition coder :: "string \<Rightarrow> nat VariationHandler" where
  "coder edited = \<lparr>runtime = agent, files = agent_files edited, vcs_free_patch = (\<lambda>n w. Inr ''patch''), pf = agent_platform,
     disk = alone, event_text = (\<lambda>ev. ''event''), completion_text = (\<lambda>c. ac_rationale c), profile = JNull,
     authentication_class = ''subscription'', profile_model = ''m'',
     workspace_resolver = (\<lambda>r. \<lparr>baseline = [''base''], candidate = [''cand''], git_metadata = [''git'']\<rparr>),
     spool_root = [''spool''], evaluation_estimate = one_evaluation,
     vh_harness_ref = \<lparr>component_id = ''c'', component_version = ''1'', package_digest = ''d'',
       capability_manifest_digest = ''d''\<rparr>,
     model_config_digest = ''d'', policy_bundle = ''d'', vh_actor = ''va''\<rparr>"

definition coder_evaluation :: "nat desk EvaluationHandler" where
  "coder_evaluation = \<lparr>evaluator_keys = [''k''],
     runner = (\<lambda>m. give [(''k'', (demo_record 20)\<lparr>er_candidate_id := cm_candidate_id m\<rparr>)]), ev_actor = ''ev''\<rparr>"

definition coder_admission :: "nat desk AdmissionHandler" where
  "coder_admission = \<lparr>decider = (\<lambda>m es. give \<lparr>ap_policy_decisions = [],
     ap_decision = demo_decision ''a1'' (cm_candidate_id m) A_admit\<rparr>), complete_on_admission = True, ad_actor = ''ad''\<rparr>"

definition coder_clock :: "int \<Rightarrow> nat \<Rightarrow> env" where
  "coder_clock i = demo_clock (''h'' @ show_int i) (100 + 10 * i)"

definition coder_worker :: "string \<Rightarrow> int \<Rightarrow> nat desk Scheduler" where
  "coder_worker edited i = (case mk_campaign_worker ''w2'' 30 (variation_handler (coder_clock i) [] (coder edited))
     (evaluation_handler (coder_clock i) [] coder_evaluation) (admission_handler (coder_clock i) [] coder_admission) of
       Inr w \<Rightarrow> w | Inl _ \<Rightarrow> \<lparr>worker_id = [], lease_secs = 0, handlers = Map.empty\<rparr>)"

text \<open>A running run with a queued session and its variation activity.\<close>

definition queueing :: "(env \<times> system_call) list" where
  "queueing = [(call_at ''d'' 4, Session_call (Enqueue_session agent_request)),
      (call_at ''A'' 10, Budget_call (Reserve ''r'' ''variation:s1'' (plain_usage 3) ''op'')),
      (call_at ''B'' 11, Activity_call (Enqueue ''r'' ''variation:s1'' ''in'' ''op'' (Some ''s1'') (Some ''A'')))]"

definition queued_world :: db where
  "queued_world = run_sessions system_step (take 3 demo_campaign @ queueing) empty_db"

definition queued_demo :: db where
  "queued_demo = run_sessions system_step queueing demo_db"

definition fresh_desk :: "nat desk" where
  "fresh_desk = \<lparr>dk_objects = \<lparr>objects = Map.empty, temporaries = []\<rparr>, dk_spool = Map.empty, dk_runtime = 0\<rparr>"

definition coder_activity :: ActivityRow where
  "coder_activity = new_activity (call_at ''B'' 11) ''r'' ''variation:s1'' ''in'' (Some ''s1'') (Some ''A'')"

text \<open>The first worker stops after the agent's turn has ended and its events are spooled.\<close>

definition interrupted_turn :: "nat desk world" where
  "interrupted_turn =
     (let clock = demo_clock ''C'' 20; h = coder ''src/q.py'';
          s = run_sessions system_step [(call_at ''C'' 20, Activity_call (Claim ''w1'' 30 None))] queued_demo in
      snd (andthen (ensure_started (clock 1) agent_request) (\<lambda>_.
        andthen (ensure_invocation (clock 2) h coder_activity agent_request agent_digest) (\<lambda>invocation.
        andthen (ensure_prepared (clock 3) h coder_activity agent_request [''cand''] invocation) (\<lambda>(invocation, ref).
        andthen (ensure_turn (clock 4) h agent_request [''cand''] invocation ref) (\<lambda>(invocation, ref, inspection).
        collect_turn h (spool_path (clock 0) (invocation_name coder_activity)) ref inspection)))) (s, fresh_desk)))"

definition charged_tokens :: "'w world \<Rightarrow> (string \<times> (int \<times> int) option) list" where
  "charged_tokens st = map (\<lambda>r. (res_activity_key r, map_option (\<lambda>u. (model_input_tokens u, model_output_tokens u)) (res_actual r)))
     (reservations (fst st))"


lemma queued_world_reachable: "reachable queued_world"
  unfolding queued_world_def by (intro reachable_sessions reachable.start)

lemma coder_worker_made:
  "mk_campaign_worker ''w2'' 30 (variation_handler (coder_clock i) [] (coder edited))
     (evaluation_handler (coder_clock i) [] coder_evaluation) (admission_handler (coder_clock i) [] coder_admission) =
   Inr (coder_worker edited i)"
  by (simp add: coder_worker_def mk_campaign_worker_def mk_scheduler_def register_def)

theorem campaign_refines_system_witness:
  "\<exists>cs. fst (snd (run_until_idle demo_hours (coder_worker ''src/q.py'') 5 (queued_world, fresh_desk))) =
     run_sessions system_step cs queued_world"
proof -
  have sizes: "list_all (\<lambda>a. 0 \<le> ar_size_bytes a) (evidence_artifacts (demo_record 20))" by code_simp
  have "\<exists>cs. fst (snd (run_until_idle demo_hours (coder_worker ''src/q.py'') 5 (queued_world, fresh_desk))) =
      run_sessions system_step cs (fst (queued_world, fresh_desk))"
  proof (rule campaign_refines_system [OF _ coder_worker_made])
    show "reachable (fst (queued_world, fresh_desk))" by (simp add: queued_world_reachable)
    show "0 \<le> evaluation_estimate (coder ''src/q.py'')"
      by (simp add: coder_def one_evaluation_def UsageRecord_le_iff zero_UsageRecord_def)
    show "only_calls (runner coder_evaluation m)" "only_calls (decider coder_admission m es)" for m es
      by (simp_all add: coder_evaluation_def coder_admission_def only_calls_def give_def by_calls_refl)
    show "list_all (\<lambda>a. 0 \<le> ar_size_bytes a) (evidence_artifacts (snd r))"
      if "runner coder_evaluation m st = (Inr records, st')" "r \<in> set records" for m st records st' r
      using that sizes by (auto simp: coder_evaluation_def)
  qed (simp_all add: beats_only_call_def)
  then show ?thesis by simp
qed

definition coder_executed :: "(err + ActivityResult) \<times> nat desk world" where
  "coder_executed = variation_execute (demo_clock ''E'' 30) (coder ''src/q.py'') coder_activity 1 (queued_demo, fresh_desk)"

lemma coder_results:
  "(length (candidates (fst (snd coder_executed))), candidates queued_demo, get_request ''s1'' queued_demo,
     hd (charged_tokens (snd coder_executed))) =
   (1, [], Inr agent_request, (''variation:s1'', Some (3, 1)))"
  by code_simp

theorem variation_stages_no_authority_change_witness:
  "\<exists>cid. map cand_id (candidates (fst (snd coder_executed))) = [cid]"
proof -
  have "variation_execute (demo_clock ''E'' 30) (coder ''src/q.py'') coder_activity 1 (queued_demo, fresh_desk) =
      (fst coder_executed, snd coder_executed)" by (simp add: coder_executed_def)
  moreover have "act_session_id coder_activity = Some ''s1''" by (simp add: coder_activity_def new_activity_def)
  moreover have "map cand_id (candidates (fst (snd coder_executed))) \<noteq> []" "candidates queued_demo = []"
    "get_request ''s1'' queued_demo = Inr agent_request" using coder_results by auto
  ultimately show ?thesis
    using variation_stages_no_authority_change [of _ _ _ _ "(queued_demo, fresh_desk)" _ _ "''s1''" agent_request]
    by fastforce
qed

definition coder_resumed :: "(err + ActivityResult) \<times> nat desk world" where
  "coder_resumed = variation_execute (demo_clock ''E'' 60) (coder ''src/q.py'') coder_activity 2 interrupted_turn"

lemma resumed_results:
  "(fst coder_resumed, map_option (\<lambda>i. runtime_session i) (find_activity_invocation ''B'' (fst interrupted_turn)),
     hd (charged_tokens (snd coder_resumed)), dk_runtime (snd (snd coder_resumed))) =
   (Inr \<lparr>result_digest = ''digest''\<rparr>, Some (Some (agent_ref (Some ''op''))), (''variation:s1'', Some (0, 0)), 1)"
  by code_simp

theorem accepted_turn_not_started_again_witness:
  "fst (variation_execute (demo_clock ''E'' 60) ((coder ''src/q.py'')\<lparr>runtime := agent\<lparr>preflight := (\<lambda>n. (Inr False, n)),
      prepare := (\<lambda>request cand inv n. (Inl (OSError ''prepare''), n)),
      start_turn := (\<lambda>request ref n. (Inr ref, n + 100))\<rparr>\<rparr>) coder_activity 2 interrupted_turn) =
   Inr \<lparr>result_digest = ''digest''\<rparr>"
proof -
  from resumed_results obtain invocation where
    i: "find_activity_invocation (act_id coder_activity) (fst interrupted_turn) = Some invocation"
    "runtime_session invocation = Some (agent_ref (Some ''op''))"
    by (auto simp: coder_activity_def new_activity_def call_at_def)
  have "runtime (coder ''src/q.py'') = agent" by (simp add: coder_def)
  with accepted_turn_not_started_again [OF i, where clock = "demo_clock ''E'' 60" and h = "coder ''src/q.py''"]
    resumed_results
  show ?thesis by (simp add: agent_ref_def coder_resumed_def)
qed

section \<open>What a resumed turn is charged\<close>

text \<open>
  The agent reported three input tokens and one output token. The variation that runs through
  is charged with them. When the first worker stops after the turn, the second one finds the
  completed turn, keeps the spooled stream as its evidence and completes the reservation with
  the usage of an empty list of events: the tokens are never charged.
\<close>

theorem resumed_turn_is_free:
  "hd (charged_tokens (snd coder_executed)) = (''variation:s1'', Some (3, 1)) \<and>
   hd (charged_tokens (snd coder_resumed)) = (''variation:s1'', Some (0, 0))"
  using coder_results resumed_results by simp

end
