(* ===== verification/PromotionRecords.thy ===== *)
theory PromotionRecords
  imports PythonValues PromotionPolicy
begin

text \<open>
  The records of a protected integration promotion (contracts/integration_promotion.py): the
  published candidate, the lease evidence, the intent that is written before the provider is
  asked to merge, the receipt that is written afterwards, and what the provider reports, each
  with the validators that run when it is built. \<open>StrictModel\<close> strips every string; a field
  whose type admits a single literal is not stored. RFC 8785 serialisation is a parameter, the
  rest of the canonical encoding (domain/canonical.py) is written out.
\<close>

section \<open>Canonical encoding\<close>

record encoder = platform +
  rfc8785 :: "jval \<Rightarrow> err + bytes"

text \<open>\<open>_normalize\<close> returns the value it is given when every string in it is in normal form.\<close>

fun nfc_value :: "(string \<Rightarrow> string) \<Rightarrow> jval \<Rightarrow> bool" where
  "nfc_value nf (JStr t) \<longleftrightarrow> nf t = t"
| "nfc_value nf (JList xs) \<longleftrightarrow> list_all (nfc_value nf) xs"
| "nfc_value nf (JObj d) \<longleftrightarrow> list_all (\<lambda>(k, v). nf k = k \<and> nfc_value nf v) d"
| "nfc_value nf _ \<longleftrightarrow> True"

definition canonical_bytes :: "'a encoder_scheme \<Rightarrow> jval \<Rightarrow> err + bytes" where
  "canonical_bytes h v =
     (if nfc_value (nfc h) v then rfc8785 h v
      else Inl (CanonicalizationError ''strings must already be NFC-normalized''))"

definition digest_of :: "'a encoder_scheme \<Rightarrow> jval \<Rightarrow> err + string" where
  "digest_of h v = bind_err (canonical_bytes h v) (\<lambda>data. Inr (''sha256:'' @ sha256 h data))"

text \<open>
  \<open>astimezone(UTC)\<close>, the text Pydantic writes for a date-time, which spells the offset zero as
  Z, and \<open>str.replace\<close>.
\<close>

fun astimezone_utc :: "py_datetime \<Rightarrow> py_datetime" where
  "astimezone_utc (Aware w off) = Aware (w - off) 0"
| "astimezone_utc (Naive w) = Naive w"

fun json_time :: "py_datetime \<Rightarrow> string" where
  "json_time (Naive w) = isoformat (Naive w)"
| "json_time (Aware w off) = (if off = 0 then isoformat (Naive w) @ ''Z'' else isoformat (Aware w off))"

function replace_text :: "string \<Rightarrow> string \<Rightarrow> string \<Rightarrow> string" where
  "replace_text old new [] = []"
| "replace_text old new (c # cs) =
     (if old \<noteq> [] \<and> prefix_of old (c # cs) then new @ replace_text old new (drop (length old) (c # cs))
      else c # replace_text old new cs)"
  by pat_completeness auto
termination
  by (relation "measure (\<lambda>(_, _, t). length t)") (auto simp: neq_Nil_conv)

definition opt_str :: "string option \<Rightarrow> jval" where
  "opt_str v = (case v of None \<Rightarrow> JNull | Some t \<Rightarrow> JStr t)"

section \<open>Fields\<close>

definition any_string :: "string \<Rightarrow> err + string" where
  "any_string x = Inr (strip x)"

definition field :: "('r \<Rightarrow> 'v) \<Rightarrow> (('v \<Rightarrow> 'v) \<Rightarrow> 'r \<Rightarrow> 'r) \<Rightarrow> ('v \<Rightarrow> err + 'v) \<Rightarrow> 'r \<Rightarrow> err + 'r" where
  "field get upd v r = bind_err (v (get r)) (\<lambda>x. Inr (upd (\<lambda>_. x) r))"

definition optional :: "('v \<Rightarrow> err + 'v) \<Rightarrow> 'v option \<Rightarrow> err + 'v option" where
  "optional v x = (case x of None \<Rightarrow> Inr None | Some y \<Rightarrow> bind_err (v y) (\<lambda>y. Inr (Some y)))"

abbreviation opt_field ::
  "('r \<Rightarrow> 'v option) \<Rightarrow> (('v option \<Rightarrow> 'v option) \<Rightarrow> 'r \<Rightarrow> 'r) \<Rightarrow> ('v \<Rightarrow> err + 'v) \<Rightarrow> 'r \<Rightarrow> err + 'r" where
  "opt_field get upd v \<equiv> field get upd (optional v)"

fun validate_fields :: "('r \<Rightarrow> err + 'r) list \<Rightarrow> 'r \<Rightarrow> err + 'r" where
  "validate_fields [] r = Inr r"
| "validate_fields (f # fs) r = bind_err (f r) (validate_fields fs)"

text \<open>A chain of checks, the first that fails raises its message.\<close>

fun require_all :: "(bool \<times> string) list \<Rightarrow> err + unit" where
  "require_all [] = Inr ()"
| "require_all ((ok, msg) # cs) = (if ok then require_all cs else Inl (ValueError msg))"

lemma field_Inr: "field get upd v r = Inr r' \<longleftrightarrow> (\<exists>x. v (get r) = Inr x \<and> r' = upd (\<lambda>_. x) r)"
  by (auto simp: field_def bind_err_eq_Inr)

lemma validate_fields_Inr:
  "validate_fields [] r = Inr r' \<longleftrightarrow> r' = r"
  "validate_fields (f # fs) r = Inr r' \<longleftrightarrow> (\<exists>r1. f r = Inr r1 \<and> validate_fields fs r1 = Inr r')"
  by (auto simp: bind_err_eq_Inr)

lemma text_validators:
  "any_string x = Inr y \<longleftrightarrow> y = strip x"
  "non_empty_string x = Inr y \<longleftrightarrow> y = strip x \<and> y \<noteq> []"
  "sha256_digest x = Inr y \<longleftrightarrow> y = strip x \<and> is_sha256 y"
  by (auto simp: any_string_def non_empty_string_def sha256_digest_def)

lemma require_all_Inr: "require_all cs = Inr u \<longleftrightarrow> list_all fst cs"
  by (induction cs rule: require_all.induct) auto

declare require_all.simps [simp del]

text \<open>Stripping a second time changes nothing.\<close>

lemma dropWhile_absorb: "dropWhile P xs = ys \<Longrightarrow> dropWhile P ys = ys"
  by (induction xs) (auto split: if_splits)

lemma dropWhile_trimmed:
  assumes "dropWhile P xs = xs"
  shows "dropWhile P (rev (dropWhile P (rev xs))) = rev (dropWhile P (rev xs))"
proof (cases xs)
  case (Cons x ys)
  then have "\<not> P x" using assms by (metis dropWhile.simps(2) impossible_Cons length_dropWhile_le)
  then show ?thesis
  proof (cases "rev (dropWhile P (rev xs))")
    case Nil
    show ?thesis unfolding Nil by simp
  next
    case (Cons z zs)
    have "\<exists>us. xs = rev (dropWhile P (rev xs)) @ us"
      by (metis rev_append rev_rev_ident takeWhile_dropWhile_id)
    with Cons \<open>xs = x # ys\<close> have "z = x" by auto
    with Cons \<open>\<not> P x\<close> show ?thesis by simp
  qed
qed simp

lemma strip_idem [simp]: "strip (strip x) = strip x"
proof -
  let ?a = "dropWhile white_space x"
  have a: "dropWhile white_space ?a = ?a" by (rule dropWhile_absorb) (rule refl)
  have "dropWhile white_space (rev (dropWhile white_space (rev ?a))) = rev (dropWhile white_space (rev ?a))"
    using a by (rule dropWhile_trimmed)
  moreover have "dropWhile white_space (dropWhile white_space (rev ?a)) = dropWhile white_space (rev ?a)"
    by (rule dropWhile_absorb) (rule refl)
  ultimately show ?thesis by (simp add: strip_def)
qed

definition is_git_object :: "string \<Rightarrow> bool" where
  "is_git_object v \<longleftrightarrow> (length v = 40 \<or> length v = 64) \<and> list_all (\<lambda>c. c \<in> set ''0123456789abcdef'') v"

definition git_object :: "string \<Rightarrow> bool \<times> string" where
  "git_object v = (is_git_object v, ''Git object IDs must be lowercase 40- or 64-hex values'')"

definition opt_git_object :: "string option \<Rightarrow> bool \<times> string" where
  "opt_git_object v = (case v of None \<Rightarrow> (True, []) | Some x \<Rightarrow> git_object x)"

definition ref_bad :: "char \<Rightarrow> bool" where
  "ref_bad c \<longleftrightarrow> of_char c \<le> (32 :: nat) \<or> c \<in> set ''~^:?*['' \<or> c = CHR 0x5C"

definition ref_checks :: "'a encoder_scheme \<Rightarrow> string \<Rightarrow> (bool \<times> string) list" where
  "ref_checks h v =
     (let lowered = casefold h v in
      [(\<not> (v = [] \<or> starts_with [''-''] v \<or> starts_with [''/''] v \<or> ends_with [''/'', ''.''] v \<or> contains ''..'' v \<or>
           contains [CHR ''@'', CHR ''{''] v \<or> list_ex ref_bad v), ''malformed Git ref''),
       (\<not> (last (split_on (CHR ''/'') lowered) \<in> {''main'', ''master''} \<or> contains ''production'' lowered \<or>
           contains ''deploy'' lowered),
        ''protected integration contract cannot target main or deployment refs'')])"

section \<open>The published candidate\<close>

record CandidatePublicationBinding =
  cpb_repository_digest :: string
  cpb_base_commit :: string
  cpb_base_tree :: string
  cpb_candidate_digest :: string
  cpb_candidate_ref :: string
  cpb_candidate_commit :: string
  cpb_candidate_tree :: string
  controller_publisher_identity :: string
  cpb_publication_evidence_digest :: string
  cpb_verified :: bool
  cpb_changed_paths :: "string list"

text \<open>\<open>sorted(paths, key=lambda value: (value.casefold(), value))\<close>.\<close>

definition path_order :: "'a encoder_scheme \<Rightarrow> string list \<Rightarrow> string list" where
  "path_order h paths = sort_key (casefold h) (sort paths)"

definition mk_publication :: "'a encoder_scheme \<Rightarrow> CandidatePublicationBinding \<Rightarrow> err + CandidatePublicationBinding" where
  "mk_publication h p =
     bind_err (validate_fields
       [field cpb_repository_digest cpb_repository_digest_update sha256_digest,
        field cpb_base_commit cpb_base_commit_update any_string, field cpb_base_tree cpb_base_tree_update any_string,
        field cpb_candidate_digest cpb_candidate_digest_update sha256_digest,
        field cpb_candidate_ref cpb_candidate_ref_update non_empty_string,
        field cpb_candidate_commit cpb_candidate_commit_update any_string,
        field cpb_candidate_tree cpb_candidate_tree_update any_string,
        field controller_publisher_identity controller_publisher_identity_update non_empty_string,
        field cpb_publication_evidence_digest cpb_publication_evidence_digest_update sha256_digest] p) (\<lambda>p.
     bind_err (map_err non_empty_string (cpb_changed_paths p)) (\<lambda>paths.
     bind_err (require_all
       ([(list_all (\<lambda>v. \<not> starts_with [''/'', [CHR 0x5C]] v \<and> ''..'' \<notin> set (split_on (CHR ''/'') v)) paths,
          ''changed paths must be normalized relative paths''),
         (paths = path_order h paths, ''changed paths must be sorted''),
         (distinct (map (casefold h) paths), ''changed paths must be unique'')] @
        map git_object [cpb_base_commit p, cpb_base_tree p, cpb_candidate_commit p, cpb_candidate_tree p] @
        ref_checks h (cpb_candidate_ref p) @
        [(cpb_verified p, ''candidate publication must be verified'')])) (\<lambda>_.
     Inr (p\<lparr>cpb_changed_paths := paths\<rparr>))))"

section \<open>Leases and authorizations\<close>

record PromotionLeaseEvidence =
  le_operation_id :: string
  le_repository_digest :: string
  le_target_ref :: string
  le_identity :: string
  le_acquired_at :: py_datetime
  le_expires_at :: py_datetime
  le_digest :: string

text \<open>The JSON object whose digest a lease carries.\<close>

definition lease_payload ::
  "(py_datetime \<Rightarrow> string) \<Rightarrow> string \<Rightarrow> string \<Rightarrow> string \<Rightarrow> string \<Rightarrow> py_datetime \<Rightarrow> py_datetime \<Rightarrow> dict" where
  "lease_payload stamp operation repository target identity acquired expires =
     [(''schema_version'', JInt 1), (''operation_id'', JStr operation), (''repository_digest'', JStr repository),
      (''target_ref'', JStr target), (''identity'', JStr identity), (''acquired_at'', JStr (stamp acquired)),
      (''expires_at'', JStr (stamp expires))]"

definition evidence_payload :: "PromotionLeaseEvidence \<Rightarrow> dict" where
  "evidence_payload e = lease_payload json_time (le_operation_id e) (le_repository_digest e) (le_target_ref e)
     (le_identity e) (le_acquired_at e) (le_expires_at e)"

definition evidence_json :: "PromotionLeaseEvidence \<Rightarrow> jval" where
  "evidence_json e = JObj (evidence_payload e @ [(''digest'', JStr (le_digest e))])"

definition mk_lease_evidence :: "'a encoder_scheme \<Rightarrow> PromotionLeaseEvidence \<Rightarrow> err + PromotionLeaseEvidence" where
  "mk_lease_evidence h e =
     bind_err (validate_fields
       [field le_operation_id le_operation_id_update sha256_digest,
        field le_repository_digest le_repository_digest_update sha256_digest,
        field le_target_ref le_target_ref_update non_empty_string, field le_identity le_identity_update non_empty_string] e) (\<lambda>e.
     bind_err (require_aware_datetime (le_acquired_at e)) (\<lambda>_.
     bind_err (require_aware_datetime (le_expires_at e)) (\<lambda>_.
     bind_err (field le_digest le_digest_update sha256_digest e) (\<lambda>e.
     bind_err (require_all (ref_checks h (le_target_ref e))) (\<lambda>_.
     bind_err (dt_less (le_acquired_at e) (le_expires_at e)) (\<lambda>later.
     bind_err (require_all [(later, ''lease evidence expiry must be after acquisition'')]) (\<lambda>_.
     bind_err (digest_of h (JObj (evidence_payload e))) (\<lambda>d.
     bind_err (require_all [(d = le_digest e, ''lease evidence digest mismatch'')]) (\<lambda>_.
     Inr e)))))))))"

record PromotionMutationAuthorization =
  ma_operation_id :: string
  ma_intent_digest :: string
  ma_lease_identity :: string
  ma_lease_digest :: string
  authorized_at :: py_datetime

definition mk_authorization :: "PromotionMutationAuthorization \<Rightarrow> err + PromotionMutationAuthorization" where
  "mk_authorization m =
     bind_err (validate_fields
       [field ma_operation_id ma_operation_id_update sha256_digest, field ma_intent_digest ma_intent_digest_update sha256_digest,
        field ma_lease_identity ma_lease_identity_update non_empty_string,
        field ma_lease_digest ma_lease_digest_update sha256_digest] m) (\<lambda>m.
     bind_err (require_aware_datetime (authorized_at m)) (\<lambda>_. Inr m))"

definition authorization_json :: "PromotionMutationAuthorization \<Rightarrow> jval" where
  "authorization_json m = JObj
     [(''schema_version'', JInt 1), (''operation_id'', JStr (ma_operation_id m)),
      (''intent_digest'', JStr (ma_intent_digest m)), (''lease_identity'', JStr (ma_lease_identity m)),
      (''lease_digest'', JStr (ma_lease_digest m)), (''authorized_at'', JStr (json_time (authorized_at m)))]"

section \<open>The intent\<close>

record IntegrationPromotionIntent =
  pi_operation_id :: string
  pi_repository_digest :: string
  controller_lease_digest :: string
  controller_lease_identity :: string
  pi_candidate_ref :: string
  pi_target_ref :: string
  pi_base_commit :: string
  pi_base_tree :: string
  pi_candidate_commit :: string
  pi_candidate_tree :: string
  pi_candidate_repository_digest :: string
  candidate_head_ref :: string
  candidate_head_commit :: string
  candidate_head_tree :: string
  pi_target_repository_digest :: string
  target_base_ref :: string
  target_base_commit :: string
  target_base_tree :: string
  pi_synthetic_merge_commit :: string
  pi_synthetic_merge_tree :: string
  pi_bundle_digest :: string
  pi_candidate_digest :: string
  pi_controller_config_digest :: string
  pi_protection_evidence_digest :: string
  pi_evidence_manifest_digest :: string
  pi_check_evidence_manifest_digest :: string
  pi_publication_evidence_digest :: string
  pi_pull_request_number :: int
  pi_pull_request_url :: string
  pi_provider_identity :: string
  pi_provider_api_version :: string
  pi_expected_main_commit :: "string option"

text \<open>The fields from which the operation identity is computed.\<close>

definition promotion_identity :: "IntegrationPromotionIntent \<Rightarrow> dict" where
  "promotion_identity i =
     [(''repository_digest'', JStr (pi_repository_digest i)),
      (''pull_request_number'', JStr (show_int (pi_pull_request_number i))),
      (''candidate_ref'', JStr (pi_candidate_ref i)), (''target_ref'', JStr (pi_target_ref i)),
      (''base_commit'', JStr (pi_base_commit i)), (''candidate_commit'', JStr (pi_candidate_commit i)),
      (''candidate_head_commit'', JStr (candidate_head_commit i)),
      (''target_base_commit'', JStr (target_base_commit i)),
      (''synthetic_merge_commit'', JStr (pi_synthetic_merge_commit i)),
      (''bundle_digest'', JStr (pi_bundle_digest i)), (''candidate_digest'', JStr (pi_candidate_digest i)),
      (''publication_evidence_digest'', JStr (pi_publication_evidence_digest i)),
      (''provider_identity'', JStr (pi_provider_identity i)),
      (''provider_api_version'', JStr (pi_provider_api_version i)), (''merge_method'', JStr ''squash'')] @
     (case pi_expected_main_commit i of None \<Rightarrow> [] | Some c \<Rightarrow> [(''expected_main_commit'', JStr c)])"

definition intent_json :: "IntegrationPromotionIntent \<Rightarrow> jval" where
  "intent_json i = JObj
     [(''schema_version'', JInt 1), (''operation_id'', JStr (pi_operation_id i)),
      (''repository_digest'', JStr (pi_repository_digest i)),
      (''controller_lease_digest'', JStr (controller_lease_digest i)),
      (''controller_lease_identity'', JStr (controller_lease_identity i)),
      (''candidate_ref'', JStr (pi_candidate_ref i)), (''target_ref'', JStr (pi_target_ref i)),
      (''base_commit'', JStr (pi_base_commit i)), (''base_tree'', JStr (pi_base_tree i)),
      (''candidate_commit'', JStr (pi_candidate_commit i)), (''candidate_tree'', JStr (pi_candidate_tree i)),
      (''candidate_repository_digest'', JStr (pi_candidate_repository_digest i)),
      (''candidate_head_ref'', JStr (candidate_head_ref i)),
      (''candidate_head_commit'', JStr (candidate_head_commit i)),
      (''candidate_head_tree'', JStr (candidate_head_tree i)),
      (''target_repository_digest'', JStr (pi_target_repository_digest i)),
      (''target_base_ref'', JStr (target_base_ref i)), (''target_base_commit'', JStr (target_base_commit i)),
      (''target_base_tree'', JStr (target_base_tree i)),
      (''synthetic_merge_commit'', JStr (pi_synthetic_merge_commit i)),
      (''synthetic_merge_tree'', JStr (pi_synthetic_merge_tree i)), (''bundle_digest'', JStr (pi_bundle_digest i)),
      (''candidate_digest'', JStr (pi_candidate_digest i)),
      (''controller_config_digest'', JStr (pi_controller_config_digest i)),
      (''protection_evidence_digest'', JStr (pi_protection_evidence_digest i)),
      (''evidence_manifest_digest'', JStr (pi_evidence_manifest_digest i)),
      (''check_evidence_manifest_digest'', JStr (pi_check_evidence_manifest_digest i)),
      (''publication_evidence_digest'', JStr (pi_publication_evidence_digest i)),
      (''pull_request_number'', JInt (pi_pull_request_number i)),
      (''pull_request_url'', JStr (pi_pull_request_url i)), (''provider_identity'', JStr (pi_provider_identity i)),
      (''provider_api_version'', JStr (pi_provider_api_version i)), (''merge_method'', JStr ''squash''),
      (''expected_main_commit'', opt_str (pi_expected_main_commit i)), (''state'', JStr ''intent_recorded'')]"

definition intent_digest_of :: "'a encoder_scheme \<Rightarrow> IntegrationPromotionIntent \<Rightarrow> err + string" where
  "intent_digest_of h i = digest_of h (intent_json i)"

definition validate_bindings :: "'a encoder_scheme \<Rightarrow> IntegrationPromotionIntent \<Rightarrow> err + IntegrationPromotionIntent" where
  "validate_bindings h i =
     bind_err (require_all
       (map git_object [pi_base_commit i, pi_base_tree i, pi_candidate_commit i, pi_candidate_tree i,
          candidate_head_commit i, candidate_head_tree i, target_base_commit i, target_base_tree i,
          pi_synthetic_merge_commit i, pi_synthetic_merge_tree i] @
        concat (map (ref_checks h) [pi_candidate_ref i, pi_target_ref i, candidate_head_ref i, target_base_ref i]) @
        [(pi_candidate_ref i \<noteq> pi_target_ref i, ''candidate and target refs must differ''),
         (casefold h (pi_candidate_ref i) \<noteq> casefold h (pi_target_ref i),
          ''candidate and target refs must differ case-insensitively''),
         (pi_base_commit i = target_base_commit i \<and> pi_base_tree i = target_base_tree i,
          ''base binding differs from target PR base''),
         (pi_candidate_commit i = candidate_head_commit i \<and> pi_candidate_tree i = candidate_head_tree i,
          ''candidate binding differs from PR head''),
         (pi_synthetic_merge_tree i = pi_candidate_tree i, ''synthetic merge tree differs from candidate tree''),
         opt_git_object (pi_expected_main_commit i),
         (pi_candidate_repository_digest i = pi_repository_digest i, ''candidate repository binding differs''),
         (pi_target_repository_digest i = pi_repository_digest i, ''target repository binding differs''),
         (candidate_head_ref i = pi_candidate_ref i \<and> target_base_ref i = pi_target_ref i,
          ''PR base/head ref binding differs''),
         (starts_with [''https://''] (pi_pull_request_url i), ''pull request URL must use HTTPS'')])) (\<lambda>_.
     bind_err (digest_of h (JObj (promotion_identity i))) (\<lambda>expected.
     bind_err (require_all
       [(pi_operation_id i = expected, ''operation ID does not match deterministic promotion identity'')]) (\<lambda>_.
     Inr i)))"

definition mk_intent :: "'a encoder_scheme \<Rightarrow> IntegrationPromotionIntent \<Rightarrow> err + IntegrationPromotionIntent" where
  "mk_intent h i =
     bind_err (validate_fields
       [field pi_operation_id pi_operation_id_update sha256_digest,
        field pi_repository_digest pi_repository_digest_update sha256_digest,
        field controller_lease_digest controller_lease_digest_update sha256_digest,
        field controller_lease_identity controller_lease_identity_update non_empty_string,
        field pi_candidate_ref pi_candidate_ref_update non_empty_string,
        field pi_target_ref pi_target_ref_update non_empty_string,
        field pi_base_commit pi_base_commit_update any_string, field pi_base_tree pi_base_tree_update any_string,
        field pi_candidate_commit pi_candidate_commit_update any_string,
        field pi_candidate_tree pi_candidate_tree_update any_string,
        field pi_candidate_repository_digest pi_candidate_repository_digest_update sha256_digest,
        field candidate_head_ref candidate_head_ref_update non_empty_string,
        field candidate_head_commit candidate_head_commit_update any_string,
        field candidate_head_tree candidate_head_tree_update any_string,
        field pi_target_repository_digest pi_target_repository_digest_update sha256_digest,
        field target_base_ref target_base_ref_update non_empty_string,
        field target_base_commit target_base_commit_update any_string,
        field target_base_tree target_base_tree_update any_string,
        field pi_synthetic_merge_commit pi_synthetic_merge_commit_update any_string,
        field pi_synthetic_merge_tree pi_synthetic_merge_tree_update any_string,
        field pi_bundle_digest pi_bundle_digest_update sha256_digest,
        field pi_candidate_digest pi_candidate_digest_update sha256_digest,
        field pi_controller_config_digest pi_controller_config_digest_update sha256_digest,
        field pi_protection_evidence_digest pi_protection_evidence_digest_update sha256_digest,
        field pi_evidence_manifest_digest pi_evidence_manifest_digest_update sha256_digest,
        field pi_check_evidence_manifest_digest pi_check_evidence_manifest_digest_update sha256_digest,
        field pi_publication_evidence_digest pi_publication_evidence_digest_update sha256_digest] i) (\<lambda>i.
     bind_err (positive_int (pi_pull_request_number i)) (\<lambda>_.
     bind_err (validate_fields
       [field pi_pull_request_url pi_pull_request_url_update non_empty_string,
        field pi_provider_identity pi_provider_identity_update non_empty_string,
        field pi_provider_api_version pi_provider_api_version_update non_empty_string,
        opt_field pi_expected_main_commit pi_expected_main_commit_update any_string] i) (\<lambda>i.
     validate_bindings h i)))"

section \<open>The receipt\<close>

datatype promotion_outcome =
    Ready
  | Intent_recorded
  | Applied
  | Already_applied
  | Stale_base
  | Not_applicable
  | Invalid
  | Reconciliation_required

fun outcome_value :: "promotion_outcome \<Rightarrow> string" where
  "outcome_value Ready = ''ready''"
| "outcome_value Intent_recorded = ''intent_recorded''"
| "outcome_value Applied = ''applied''"
| "outcome_value Already_applied = ''already_applied''"
| "outcome_value Stale_base = ''stale_base''"
| "outcome_value Not_applicable = ''not_applicable''"
| "outcome_value Invalid = ''invalid''"
| "outcome_value Reconciliation_required = ''reconciliation_required''"

definition success :: "promotion_outcome \<Rightarrow> bool" where
  "success x \<longleftrightarrow> x \<in> {Applied, Already_applied}"

record IntegrationPromotionReceipt =
  rc_operation_id :: string
  rc_intent_digest :: string
  rc_bundle_digest :: string
  expected_target_ref :: string
  expected_candidate_commit :: string
  expected_candidate_tree :: string
  expected_base_commit :: string
  expected_protection_evidence_digest :: string
  rc_main_protection_evidence_digest :: "string option"
  expected_provider_identity :: string
  expected_provider_api_version :: string
  expected_main_commit :: "string option"
  applied_result_commit :: "string option"
  applied_result_tree :: "string option"
  applied_result_parent_commit :: "string option"
  rc_outcome :: promotion_outcome
  observed_target_ref :: string
  observed_base_commit :: string
  observed_head_commit :: "string option"
  observed_head_tree :: "string option"
  observed_protection_evidence_digest :: string
  observed_provider_identity :: string
  observed_provider_api_version :: string
  observation_digest :: string
  rc_error :: "string option"

definition receipt_json :: "IntegrationPromotionReceipt \<Rightarrow> jval" where
  "receipt_json r = JObj
     [(''schema_version'', JInt 1), (''operation_id'', JStr (rc_operation_id r)),
      (''intent_digest'', JStr (rc_intent_digest r)), (''bundle_digest'', JStr (rc_bundle_digest r)),
      (''expected_target_ref'', JStr (expected_target_ref r)),
      (''expected_candidate_commit'', JStr (expected_candidate_commit r)),
      (''expected_candidate_tree'', JStr (expected_candidate_tree r)),
      (''expected_base_commit'', JStr (expected_base_commit r)),
      (''expected_protection_evidence_digest'', JStr (expected_protection_evidence_digest r)),
      (''main_protection_evidence_digest'', opt_str (rc_main_protection_evidence_digest r)),
      (''expected_provider_identity'', JStr (expected_provider_identity r)),
      (''expected_provider_api_version'', JStr (expected_provider_api_version r)),
      (''merge_method'', JStr ''squash''), (''expected_main_commit'', opt_str (expected_main_commit r)),
      (''applied_result_commit'', opt_str (applied_result_commit r)),
      (''applied_result_tree'', opt_str (applied_result_tree r)),
      (''applied_result_parent_commit'', opt_str (applied_result_parent_commit r)),
      (''outcome'', JStr (outcome_value (rc_outcome r))), (''observed_target_ref'', JStr (observed_target_ref r)),
      (''observed_base_commit'', JStr (observed_base_commit r)),
      (''observed_head_commit'', opt_str (observed_head_commit r)),
      (''observed_head_tree'', opt_str (observed_head_tree r)),
      (''observed_protection_evidence_digest'', JStr (observed_protection_evidence_digest r)),
      (''observed_provider_identity'', JStr (observed_provider_identity r)),
      (''observed_provider_api_version'', JStr (observed_provider_api_version r)),
      (''observation_digest'', JStr (observation_digest r)), (''error'', opt_str (rc_error r))]"

definition validate_observation ::
  "'a encoder_scheme \<Rightarrow> IntegrationPromotionReceipt \<Rightarrow> err + IntegrationPromotionReceipt" where
  "validate_observation h r =
     (let applied = success (rc_outcome r) in
      bind_err (require_all
       (ref_checks h (observed_target_ref r) @ [git_object (observed_base_commit r)] @
        ref_checks h (expected_target_ref r) @
        map git_object [expected_candidate_commit r, expected_candidate_tree r, expected_base_commit r] @
        map opt_git_object [expected_main_commit r, observed_head_commit r, observed_head_tree r,
          applied_result_commit r, applied_result_tree r, applied_result_parent_commit r] @
        [(applied = (observed_head_commit r \<noteq> None \<and> observed_head_tree r \<noteq> None),
          ''applied outcomes require exact observed head commit and tree''),
         (\<not> (applied \<and>
            (observed_target_ref r \<noteq> expected_target_ref r \<or>
             observed_head_tree r \<noteq> Some (expected_candidate_tree r) \<or>
             observed_protection_evidence_digest r \<noteq> expected_protection_evidence_digest r \<or>
             observed_provider_identity r \<noteq> expected_provider_identity r \<or>
             observed_provider_api_version r \<noteq> expected_provider_api_version r)),
          ''success observation is not bound to the expected protected promotion''),
         (applied = (applied_result_commit r \<noteq> None \<and> applied_result_tree r \<noteq> None \<and>
            applied_result_parent_commit r \<noteq> None),
          ''applied outcomes require the provider merge result commit and tree''),
         (\<not> (applied \<and>
            (applied_result_commit r = Some (expected_candidate_commit r) \<or>
             applied_result_tree r \<noteq> Some (expected_candidate_tree r) \<or>
             applied_result_parent_commit r \<noteq> Some (expected_base_commit r) \<or>
             applied_result_commit r \<noteq> observed_head_commit r \<or>
             applied_result_tree r \<noteq> observed_head_tree r)),
          ''merge result, tree, parent, and post-ref observation contradict''),
         (\<not> (rc_outcome r = Reconciliation_required \<and> rc_error r \<in> {None, Some []}),
          ''reconciliation-required receipt needs an error''),
         (\<not> (rc_outcome r = Invalid \<and> rc_error r \<in> {None, Some []}), ''invalid receipt needs an error'')])) (\<lambda>_.
      Inr r))"

definition mk_receipt ::
  "'a encoder_scheme \<Rightarrow> IntegrationPromotionReceipt \<Rightarrow> err + IntegrationPromotionReceipt" where
  "mk_receipt h r =
     bind_err (validate_fields
       [field rc_operation_id rc_operation_id_update sha256_digest,
        field rc_intent_digest rc_intent_digest_update sha256_digest,
        field rc_bundle_digest rc_bundle_digest_update sha256_digest,
        field expected_target_ref expected_target_ref_update non_empty_string,
        field expected_candidate_commit expected_candidate_commit_update any_string,
        field expected_candidate_tree expected_candidate_tree_update any_string,
        field expected_base_commit expected_base_commit_update any_string,
        field expected_protection_evidence_digest expected_protection_evidence_digest_update sha256_digest,
        opt_field rc_main_protection_evidence_digest rc_main_protection_evidence_digest_update sha256_digest,
        field expected_provider_identity expected_provider_identity_update non_empty_string,
        field expected_provider_api_version expected_provider_api_version_update non_empty_string,
        opt_field expected_main_commit expected_main_commit_update any_string,
        opt_field applied_result_commit applied_result_commit_update any_string,
        opt_field applied_result_tree applied_result_tree_update any_string,
        opt_field applied_result_parent_commit applied_result_parent_commit_update any_string] r) (\<lambda>r.
     bind_err (require_all [(rc_outcome r \<noteq> Ready, ''Input should be one of the literals'')]) (\<lambda>_.
     bind_err (validate_fields
       [field observed_target_ref observed_target_ref_update non_empty_string,
        field observed_base_commit observed_base_commit_update any_string,
        opt_field observed_head_commit observed_head_commit_update any_string,
        opt_field observed_head_tree observed_head_tree_update any_string,
        field observed_protection_evidence_digest observed_protection_evidence_digest_update sha256_digest,
        field observed_provider_identity observed_provider_identity_update non_empty_string,
        field observed_provider_api_version observed_provider_api_version_update non_empty_string,
        field observation_digest observation_digest_update sha256_digest,
        opt_field rc_error rc_error_update non_empty_string] r) (\<lambda>r.
     validate_observation h r)))"

section \<open>What the provider reports\<close>

record IntegrationProviderObservation =
  po_repository_digest :: string
  po_pull_request_number :: int
  po_pull_request_url :: string
  po_candidate_repository_digest :: string
  po_target_repository_digest :: string
  po_base_ref :: string
  po_base_commit :: string
  po_base_tree :: string
  po_head_ref :: string
  po_head_commit :: string
  po_candidate_tree :: string
  po_synthetic_merge_commit :: string
  po_synthetic_merge_tree :: string
  po_protection_evidence_digest :: string
  po_check_evidence_manifest_digest :: string
  po_provider_identity :: string
  po_provider_api_version :: string

definition mk_provider_observation ::
  "'a encoder_scheme \<Rightarrow> IntegrationProviderObservation \<Rightarrow> err + IntegrationProviderObservation" where
  "mk_provider_observation h p =
     bind_err (field po_repository_digest po_repository_digest_update sha256_digest p) (\<lambda>p.
     bind_err (positive_int (po_pull_request_number p)) (\<lambda>_.
     bind_err (validate_fields
       [field po_pull_request_url po_pull_request_url_update non_empty_string,
        field po_candidate_repository_digest po_candidate_repository_digest_update sha256_digest,
        field po_target_repository_digest po_target_repository_digest_update sha256_digest,
        field po_base_ref po_base_ref_update non_empty_string, field po_base_commit po_base_commit_update any_string,
        field po_base_tree po_base_tree_update any_string, field po_head_ref po_head_ref_update non_empty_string,
        field po_head_commit po_head_commit_update any_string,
        field po_candidate_tree po_candidate_tree_update any_string,
        field po_synthetic_merge_commit po_synthetic_merge_commit_update any_string,
        field po_synthetic_merge_tree po_synthetic_merge_tree_update any_string,
        field po_protection_evidence_digest po_protection_evidence_digest_update sha256_digest,
        field po_check_evidence_manifest_digest po_check_evidence_manifest_digest_update sha256_digest,
        field po_provider_identity po_provider_identity_update non_empty_string,
        field po_provider_api_version po_provider_api_version_update non_empty_string] p) (\<lambda>p.
     bind_err (require_all
       (map git_object [po_base_commit p, po_head_commit p, po_candidate_tree p, po_base_tree p,
          po_synthetic_merge_commit p, po_synthetic_merge_tree p] @
        ref_checks h (po_base_ref p) @ ref_checks h (po_head_ref p) @
        [(casefold h (po_base_ref p) \<noteq> casefold h (po_head_ref p), ''provider base and head refs must differ''),
         (po_candidate_repository_digest p = po_repository_digest p, ''candidate repository binding differs''),
         (po_target_repository_digest p = po_repository_digest p, ''target repository binding differs''),
         (starts_with [''https://''] (po_pull_request_url p), ''pull request URL must use HTTPS'')])) (\<lambda>_.
     Inr p))))"

datatype merge_outcome = Merge_applied | Merge_rejected | Merge_ambiguous

record IntegrationMergeResult =
  mr_outcome :: merge_outcome
  result_commit :: "string option"
  result_tree :: "string option"
  first_parent_commit :: "string option"
  mr_main_protection_evidence_digest :: "string option"
  response_digest :: string
  mr_error :: "string option"

definition mk_merge_result :: "IntegrationMergeResult \<Rightarrow> err + IntegrationMergeResult" where
  "mk_merge_result m =
     bind_err (validate_fields
       [opt_field result_commit result_commit_update any_string, opt_field result_tree result_tree_update any_string,
        opt_field first_parent_commit first_parent_commit_update any_string,
        opt_field mr_main_protection_evidence_digest mr_main_protection_evidence_digest_update sha256_digest,
        field response_digest response_digest_update sha256_digest,
        opt_field mr_error mr_error_update non_empty_string] m) (\<lambda>m.
     let values = [result_commit m, result_tree m, first_parent_commit m] in
     bind_err (require_all
       (map opt_git_object values @
        [(\<not> (mr_outcome m = Merge_applied \<and> None \<in> set values),
          ''applied result requires commit, tree, and first parent''),
         (\<not> (mr_outcome m \<noteq> Merge_applied \<and> \<not> list_all (\<lambda>v. v = None) values),
          ''non-applied result cannot claim merge objects''),
         (\<not> (mr_outcome m \<in> {Merge_rejected, Merge_ambiguous} \<and> mr_error m \<in> {None, Some []}),
          ''rejected or ambiguous result requires an error'')])) (\<lambda>_.
     Inr m))"

record IntegrationProviderReconciliation =
  pr_repository_digest :: string
  pr_pull_request_number :: int
  pr_pull_request_url :: string
  pr_provider_identity :: string
  pr_provider_api_version :: string
  pr_open :: bool
  pr_merged :: bool
  merge_commit :: "string option"
  pr_target_ref :: string
  target_head_commit :: string
  target_head_tree :: string
  target_first_parent :: string
  target_parents :: "string list"
  pr_protection_evidence_digest :: string
  pr_main_protection_evidence_digest :: "string option"

definition reconciliation_json :: "IntegrationProviderReconciliation \<Rightarrow> jval" where
  "reconciliation_json p = JObj
     [(''schema_version'', JInt 1), (''repository_digest'', JStr (pr_repository_digest p)),
      (''pull_request_number'', JInt (pr_pull_request_number p)),
      (''pull_request_url'', JStr (pr_pull_request_url p)), (''provider_identity'', JStr (pr_provider_identity p)),
      (''provider_api_version'', JStr (pr_provider_api_version p)),
      (''state'', JStr (if pr_open p then ''open'' else ''closed'')), (''merged'', JBool (pr_merged p)),
      (''merge_commit'', opt_str (merge_commit p)), (''target_ref'', JStr (pr_target_ref p)),
      (''target_head_commit'', JStr (target_head_commit p)), (''target_head_tree'', JStr (target_head_tree p)),
      (''target_first_parent'', JStr (target_first_parent p)),
      (''target_parents'', JList (map JStr (target_parents p))),
      (''protection_evidence_digest'', JStr (pr_protection_evidence_digest p)),
      (''main_protection_evidence_digest'', opt_str (pr_main_protection_evidence_digest p))]"

definition mk_reconciliation_view ::
  "'a encoder_scheme \<Rightarrow> IntegrationProviderReconciliation \<Rightarrow> err + IntegrationProviderReconciliation" where
  "mk_reconciliation_view h p =
     bind_err (field pr_repository_digest pr_repository_digest_update sha256_digest p) (\<lambda>p.
     bind_err (positive_int (pr_pull_request_number p)) (\<lambda>_.
     bind_err (validate_fields
       [field pr_pull_request_url pr_pull_request_url_update non_empty_string,
        field pr_provider_identity pr_provider_identity_update non_empty_string,
        field pr_provider_api_version pr_provider_api_version_update non_empty_string,
        opt_field merge_commit merge_commit_update any_string,
        field pr_target_ref pr_target_ref_update non_empty_string,
        field target_head_commit target_head_commit_update any_string,
        field target_head_tree target_head_tree_update any_string,
        field target_first_parent target_first_parent_update any_string] p) (\<lambda>p.
     bind_err (map_err any_string (target_parents p)) (\<lambda>parents.
     bind_err (validate_fields
       [field pr_protection_evidence_digest pr_protection_evidence_digest_update sha256_digest,
        opt_field pr_main_protection_evidence_digest pr_main_protection_evidence_digest_update sha256_digest]
       (p\<lparr>target_parents := parents\<rparr>)) (\<lambda>p.
     bind_err (require_all
       (map git_object [target_head_commit p, target_head_tree p, target_first_parent p] @
        [opt_git_object (merge_commit p)] @ map git_object (target_parents p) @
        [(\<not> (target_parents p \<noteq> [] \<and> hd (target_parents p) \<noteq> target_first_parent p),
          ''target parent topology contradicts first parent''),
         (\<not> (pr_merged p \<and> target_parents p \<noteq> [target_first_parent p]),
          ''merged target must have exactly one parent'')] @
        ref_checks h (pr_target_ref p) @
        [(starts_with [''https://''] (pr_pull_request_url p), ''pull request URL must use HTTPS''),
         (pr_merged p = (merge_commit p \<noteq> None), ''merged state and merge commit contradict''),
         (\<not> (pr_merged p \<and> pr_open p), ''merged pull request must be closed''),
         (\<not> (\<not> pr_merged p \<and> \<not> pr_open p), ''unmerged reconciliation must remain open'')])) (\<lambda>_.
     Inr p))))))"

record IntegrationPromotionReport =
  rp_operation_id :: string
  rp_outcome :: promotion_outcome
  rp_intent_digest :: "string option"
  rp_receipt_digest :: "string option"
  rp_checks :: "string list"
  rp_errors :: "string list"

definition mk_promotion_report :: "IntegrationPromotionReport \<Rightarrow> err + IntegrationPromotionReport" where
  "mk_promotion_report r =
     bind_err (validate_fields
       [field rp_operation_id rp_operation_id_update sha256_digest,
        opt_field rp_intent_digest rp_intent_digest_update sha256_digest,
        opt_field rp_receipt_digest rp_receipt_digest_update sha256_digest] r) (\<lambda>r.
     bind_err (map_err non_empty_string (rp_checks r)) (\<lambda>checks.
     bind_err (min_one checks) (\<lambda>checks.
     bind_err (map_err non_empty_string (rp_errors r)) (\<lambda>errors.
     Inr (r\<lparr>rp_checks := checks, rp_errors := errors\<rparr>)))))"

section \<open>What validation gives\<close>

lemma mk_intent_Inr:
  assumes "mk_intent h i0 = Inr i"
  shows "strip (pi_operation_id i) = pi_operation_id i \<and> strip (pi_target_ref i) = pi_target_ref i \<and>
    strip (pi_candidate_tree i) = pi_candidate_tree i \<and> strip (pi_base_commit i) = pi_base_commit i \<and>
    strip (pi_bundle_digest i) = pi_bundle_digest i"
proof -
  have same: "validate_bindings h j = Inr i \<Longrightarrow> i = j" for j by (auto simp: validate_bindings_def bind_err_eq_Inr)
  show ?thesis
    using assms
    by (auto simp: mk_intent_def bind_err_eq_Inr validate_fields_Inr field_Inr text_validators dest!: same)
qed

lemma mk_receipt_Inr:
  assumes "mk_receipt h r0 = Inr r"
  shows "rc_operation_id r = strip (rc_operation_id r0) \<and> rc_bundle_digest r = strip (rc_bundle_digest r0) \<and>
    expected_target_ref r = strip (expected_target_ref r0) \<and>
    expected_candidate_tree r = strip (expected_candidate_tree r0) \<and>
    expected_base_commit r = strip (expected_base_commit r0) \<and> rc_outcome r = rc_outcome r0 \<and>
    validate_observation h r = Inr r"
proof -
  have same: "validate_observation h q = Inr r \<Longrightarrow> r = q \<and> validate_observation h r = Inr r" for q
    by (auto simp: validate_observation_def Let_def bind_err_eq_Inr)
  show ?thesis
    using assms
    by (auto simp: mk_receipt_def bind_err_eq_Inr validate_fields_Inr field_Inr text_validators dest!: same)
qed

end
