(* ===== verification/PromotionJournal.thy ===== *)
theory PromotionJournal
  imports PromotionRecords
begin

text \<open>
  The journal of protected integration promotions (adapters/artifacts/promotion_journal.py):
  leases that only their owner removes, and records that are written once. The journal lives on
  a disk that other processes use at the same time and that may fail: every access is one step,
  before which the others act, and a fault can stop a write before the file is created, leave
  it torn, or leave it complete but not durably so. JSON reading, \<open>datetime.fromisoformat\<close> and
  the reading of a JSON object into the typed fields of a model (Pydantic) are parameters; the
  validators of the models run on what they give.
\<close>

section \<open>Exception classes\<close>

fun is_value_error :: "err \<Rightarrow> bool" where
  "is_value_error (ValueError _) = True"
| "is_value_error (InvalidTransitionError _) = True"
| "is_value_error (BudgetExceededError _) = True"
| "is_value_error (DuplicateExperimentError _) = True"
| "is_value_error (InvalidAdmissionError _) = True"
| "is_value_error (ReviewAuthorizationError _) = True"
| "is_value_error (ComparisonInputError _) = True"
| "is_value_error (ArtifactTooLargeError _) = True"
| "is_value_error (UnsafeWorkspaceError _) = True"
| "is_value_error (CanonicalizationError _) = True"
| "is_value_error (StructuredSchemaError _) = True"
| "is_value_error (PluginCompatibilityError _) = True"
| "is_value_error (InvalidCapabilityToken _) = True"
| "is_value_error (IntegrationPromotionPreconditionError _) = True"
| "is_value_error (PromotionProvenanceError _) = True"
| "is_value_error (PromotionEvidenceError _) = True"
| "is_value_error _ = False"

fun is_os_error :: "err \<Rightarrow> bool" where
  "is_os_error (OSError _) = True"
| "is_os_error (FileExistsError _) = True"
| "is_os_error (FileNotFoundError _) = True"
| "is_os_error _ = False"

fun is_runtime_error :: "err \<Rightarrow> bool" where
  "is_runtime_error (RuntimeError _) = True"
| "is_runtime_error (ReservationConflictError _) = True"
| "is_runtime_error (RevisionConflictError _) = True"
| "is_runtime_error (ActivityConflictError _) = True"
| "is_runtime_error (SessionConflictError _) = True"
| "is_runtime_error (RuntimeConflictError _) = True"
| "is_runtime_error (TerminalBudgetConflictError _) = True"
| "is_runtime_error (EvidenceConflictError _) = True"
| "is_runtime_error (ReviewConflictError _) = True"
| "is_runtime_error (ArtifactMetadataConflict _) = True"
| "is_runtime_error (ArtifactIntegrityError _) = True"
| "is_runtime_error (InvocationConflictError _) = True"
| "is_runtime_error (CampaignRuntimeError _) = True"
| "is_runtime_error (CampaignAuthorityPathError _) = True"
| "is_runtime_error (InjectedWorkerCrash _) = True"
| "is_runtime_error (PromotionJournalError _) = True"
| "is_runtime_error (PromotionLeaseConflictError _) = True"
| "is_runtime_error (PromotionRecordConflictError _) = True"
| "is_runtime_error (PromotionStaleBaseError _) = True"
| "is_runtime_error _ = False"

fun is_type_error :: "err \<Rightarrow> bool" where
  "is_type_error (TypeError _) = True"
| "is_type_error _ = False"

fun is_file_exists :: "err \<Rightarrow> bool" where
  "is_file_exists (FileExistsError _) = True"
| "is_file_exists _ = False"

definition is_failure :: "err \<Rightarrow> bool" where
  "is_failure x \<longleftrightarrow> is_value_error x \<or> is_runtime_error x \<or> is_os_error x"

section \<open>The disk and the steps on it\<close>

text \<open>The files of the journal: live leases by key, the index by kind and operation.\<close>

datatype journal_path = Lease_file string | Index_file string string

record disk =
  paths :: "journal_path \<rightharpoonup> bytes"
  object_files :: object_store

datatype disk_fault = Healthy | Not_opened | Torn nat | Not_synced

text \<open>
  What surrounds the process: the libraries, the clocks (the injected one and the system's), the
  identities it draws, and, for the n-th step, the fault of the disk, the work of the other
  processes and their races over an object file.
\<close>

record host = encoder +
  loads :: "bytes \<Rightarrow> err + jval"
  fromisoformat :: "string \<Rightarrow> err + py_datetime"
  artifact_ref_fields :: "jval \<Rightarrow> err + ArtifactRef"
  intent_fields :: "jval \<Rightarrow> err + IntegrationPromotionIntent"
  receipt_fields :: "jval \<Rightarrow> err + IntegrationPromotionReceipt"
  evidence_fields :: "jval \<Rightarrow> err + PromotionLeaseEvidence"
  authorization_fields :: "jval \<Rightarrow> err + PromotionMutationAuthorization"
  max_record_bytes :: int
  clock_at :: "nat \<Rightarrow> py_datetime"
  utc_at :: "nat \<Rightarrow> int"
  identity_at :: "nat \<Rightarrow> string"
  fault_at :: "nat \<Rightarrow> disk_fault"
  others_at :: "nat \<Rightarrow> disk \<Rightarrow> disk"
  race_at :: "nat \<Rightarrow> race"
  env_at :: "nat \<Rightarrow> env"

text \<open>The process: the disk, the number of steps taken, and the intents it handed to \<open>merge\<close>.\<close>

record machine =
  files :: disk
  ticks :: nat
  merged :: "IntegrationPromotionIntent list"

type_synonym ('s, 'a) computation = "'s \<Rightarrow> (err + 'a) \<times> 's"

type_synonym 'a action = "(machine, 'a) computation"

definition pass :: "'a \<Rightarrow> ('s, 'a) computation" where
  "pass x m = (Inr x, m)"

definition fail :: "err \<Rightarrow> ('s, 'a) computation" where
  "fail x m = (Inl x, m)"

definition lift :: "err + 'a \<Rightarrow> ('s, 'a) computation" where
  "lift r m = (r, m)"

definition chain :: "('s, 'a) computation \<Rightarrow> ('a \<Rightarrow> ('s, 'b) computation) \<Rightarrow> ('s, 'b) computation" where
  "chain a f m = (case a m of (Inl x, m) \<Rightarrow> (Inl x, m) | (Inr v, m) \<Rightarrow> f v m)"

text \<open>\<open>try: \<dots> except\<close> over the classes of a predicate.\<close>

definition catching ::
  "(err \<Rightarrow> bool) \<Rightarrow> ('s, 'a) computation \<Rightarrow> (err \<Rightarrow> ('s, 'a) computation) \<Rightarrow> ('s, 'a) computation" where
  "catching caught a handler m =
     (case a m of (Inl x, m) \<Rightarrow> if caught x then handler x m else (Inl x, m) | (Inr v, m) \<Rightarrow> (Inr v, m))"

definition disk_step :: "host \<Rightarrow> (nat \<Rightarrow> disk \<Rightarrow> (err + 'a) \<times> disk) \<Rightarrow> 'a action" where
  "disk_step h f m =
     (case f (ticks m) (others_at h (ticks m) (files m)) of
        (r, d) \<Rightarrow> (r, m\<lparr>files := d, ticks := Suc (ticks m)\<rparr>))"

definition ask :: "host \<Rightarrow> (nat \<Rightarrow> err + 'a) \<Rightarrow> 'a action" where
  "ask h f = disk_step h (\<lambda>n d. (f n, d))"

section \<open>Files\<close>

definition exclusive_write :: "host \<Rightarrow> journal_path \<Rightarrow> bytes \<Rightarrow> unit action" where
  "exclusive_write h p data = disk_step h (\<lambda>n d.
     if fault_at h n = Not_opened then (Inl (OSError ''open''), d)
     else if paths d p \<noteq> None then (Inl (FileExistsError ''open''), d)
     else case fault_at h n of
         Torn k \<Rightarrow> (Inl (OSError ''write''), d\<lparr>paths := (paths d)(p \<mapsto> take k data)\<rparr>)
       | Not_synced \<Rightarrow> (Inl (OSError ''fsync''), d\<lparr>paths := (paths d)(p \<mapsto> data)\<rparr>)
       | _ \<Rightarrow> (Inr (), d\<lparr>paths := (paths d)(p \<mapsto> data)\<rparr>))"

definition read_limited :: "host \<Rightarrow> journal_path \<Rightarrow> bytes action" where
  "read_limited h p = disk_step h (\<lambda>n d.
     (case paths d p of
        None \<Rightarrow> Inl (FileNotFoundError ''stat'')
      | Some data \<Rightarrow>
          if int (length data) > max_record_bytes h
          then Inl (ValueError ''journal record exceeds configured content limit'') else Inr data, d))"

definition is_file :: "host \<Rightarrow> journal_path \<Rightarrow> bool action" where
  "is_file h p = disk_step h (\<lambda>n d. (Inr (paths d p \<noteq> None), d))"

definition sync_directory :: "host \<Rightarrow> unit action" where
  "sync_directory h = disk_step h (\<lambda>n d. (if fault_at h n = Healthy then Inr () else Inl (OSError ''fsync''), d))"

definition unlink_path :: "host \<Rightarrow> journal_path \<Rightarrow> unit action" where
  "unlink_path h p = disk_step h (\<lambda>n d.
     if paths d p = None then (Inl (FileNotFoundError ''unlink''), d)
     else if fault_at h n \<noteq> Healthy then (Inl (OSError ''unlink''), d)
     else (Inr (), d\<lparr>paths := (paths d)(p := None)\<rparr>))"

definition put_object :: "host \<Rightarrow> bytes \<Rightarrow> string \<Rightarrow> string \<Rightarrow> ArtifactRef action" where
  "put_object h data media_type role = disk_step h (\<lambda>n d.
     case store_put_bytes (sha256 h) (race_at h n) (env_at h n) data media_type role (max_record_bytes h)
       (object_files d) of
       (r, fs) \<Rightarrow> (r, d\<lparr>object_files := fs\<rparr>))"

definition read_object :: "host \<Rightarrow> ArtifactRef \<Rightarrow> bytes action" where
  "read_object h r = disk_step h (\<lambda>n d. (read_bytes (sha256 h) True r (object_files d), d))"

section \<open>Records\<close>

definition media :: string where
  "media = ''application/vnd.avo.integration-promotion+json''"

definition artifact_ref_json :: "ArtifactRef \<Rightarrow> jval" where
  "artifact_ref_json r = JObj
     [(''schema_version'', JInt 1), (''digest'', JStr (ar_digest r)), (''size_bytes'', JInt (ar_size_bytes r)),
      (''media_type'', JStr (ar_media_type r)), (''role'', JStr (ar_role r)),
      (''created_at'', JStr (json_time (ar_created_at r)))]"

definition index_path :: "string \<Rightarrow> string \<Rightarrow> journal_path" where
  "index_path kind operation = Index_file kind (removeprefix ''sha256:'' operation)"

definition stored_reference :: "host \<Rightarrow> journal_path \<Rightarrow> ArtifactRef action" where
  "stored_reference h p =
     chain (read_limited h p) (\<lambda>data.
     chain (lift (loads h data)) (\<lambda>v.
     chain (lift (artifact_ref_fields h v)) (\<lambda>r.
     lift (mk_artifact_ref r))))"

definition wrong_metadata :: "string \<Rightarrow> ArtifactRef \<Rightarrow> bool" where
  "wrong_metadata kind r \<longleftrightarrow> ar_role r \<noteq> ''promotion-'' @ kind \<or> ar_media_type r \<noteq> media"

definition existing_record :: "host \<Rightarrow> string \<Rightarrow> journal_path \<Rightarrow> (ArtifactRef \<times> bytes) action" where
  "existing_record h kind p =
     catching (\<lambda>x. is_failure x \<or> is_type_error x)
       (chain (stored_reference h p) (\<lambda>old.
        if wrong_metadata kind old
        then fail (ValueError ''existing promotion record artifact metadata is malformed'')
        else chain (read_object h old) (\<lambda>data. pass (old, data))))
       (\<lambda>_. fail (PromotionRecordConflictError ''existing promotion record index is malformed''))"

definition journal_record :: "host \<Rightarrow> string \<Rightarrow> string \<Rightarrow> jval \<Rightarrow> ArtifactRef action" where
  "journal_record h kind operation_id v =
     chain (lift (canonical_bytes h v)) (\<lambda>data.
     chain (put_object h data media (''promotion-'' @ kind)) (\<lambda>artifact.
     chain (sync_directory h) (\<lambda>_.
     chain (lift (canonical_bytes h (artifact_ref_json artifact))) (\<lambda>reference.
     catching is_file_exists
       (chain (exclusive_write h (index_path kind operation_id) reference) (\<lambda>_. pass artifact))
       (\<lambda>_. chain (existing_record h kind (index_path kind operation_id)) (\<lambda>(old, old_data).
          if ar_digest old \<noteq> ar_digest artifact \<or> old_data \<noteq> data
          then fail (PromotionRecordConflictError (''conflicting '' @ kind @ '' for operation '' @ operation_id))
          else pass old))))))"

definition check_digest :: "string \<Rightarrow> string \<Rightarrow> err + unit" where
  "check_digest value name =
     (if is_sha256 value then Inr () else Inl (ValueError (name @ '' must be a SHA-256 digest'')))"

definition journal_read ::
  "host \<Rightarrow> string \<Rightarrow> string \<Rightarrow> (jval \<Rightarrow> err + 'r) \<Rightarrow> ('r \<Rightarrow> string) \<Rightarrow> ('r \<times> ArtifactRef) option action" where
  "journal_read h kind operation_id validate operation_of =
     chain (lift (check_digest operation_id ''operation_id'')) (\<lambda>_.
     chain (is_file h (index_path kind operation_id)) (\<lambda>there.
     if \<not> there then pass None
     else
       chain (catching (\<lambda>x. is_failure x \<or> is_type_error x)
         (chain (stored_reference h (index_path kind operation_id)) (\<lambda>reference.
          if wrong_metadata kind reference
          then fail (ValueError ''record artifact metadata does not match its journal kind'')
          else if ar_size_bytes reference > max_record_bytes h
          then fail (ValueError ''record exceeds configured content limit'')
          else
            chain (read_object h reference) (\<lambda>data.
            chain (lift (loads h data)) (\<lambda>parsed.
            chain (lift (canonical_bytes h parsed)) (\<lambda>again.
            if again \<noteq> data then fail (ValueError ''record is not canonical JSON'')
            else chain (lift (validate parsed)) (\<lambda>record. pass (record, reference)))))))
         (\<lambda>_. fail (PromotionJournalError (''malformed or unverifiable '' @ kind @ '' record'')))) (\<lambda>(record, reference).
       if operation_of record \<noteq> operation_id
       then fail (PromotionRecordConflictError (kind @ '' operation ID does not match index''))
       else pass (Some (record, reference)))))"

definition record_intent :: "host \<Rightarrow> IntegrationPromotionIntent \<Rightarrow> ArtifactRef action" where
  "record_intent h i = journal_record h ''intent'' (pi_operation_id i) (intent_json i)"

definition record_receipt :: "host \<Rightarrow> IntegrationPromotionReceipt \<Rightarrow> ArtifactRef action" where
  "record_receipt h r = journal_record h ''receipt'' (rc_operation_id r) (receipt_json r)"

definition record_lease_evidence :: "host \<Rightarrow> PromotionLeaseEvidence \<Rightarrow> ArtifactRef action" where
  "record_lease_evidence h e = journal_record h ''lease-evidence'' (le_operation_id e) (evidence_json e)"

definition record_mutation_authorization :: "host \<Rightarrow> PromotionMutationAuthorization \<Rightarrow> ArtifactRef action" where
  "record_mutation_authorization h a =
     journal_record h ''mutation-authorization'' (ma_operation_id a) (authorization_json a)"

definition read_intent :: "host \<Rightarrow> string \<Rightarrow> (IntegrationPromotionIntent \<times> ArtifactRef) option action" where
  "read_intent h operation_id =
     journal_read h ''intent'' operation_id (\<lambda>v. bind_err (intent_fields h v) (mk_intent h)) pi_operation_id"

definition read_receipt :: "host \<Rightarrow> string \<Rightarrow> (IntegrationPromotionReceipt \<times> ArtifactRef) option action" where
  "read_receipt h operation_id =
     journal_read h ''receipt'' operation_id (\<lambda>v. bind_err (receipt_fields h v) (mk_receipt h)) rc_operation_id"

definition read_lease_evidence :: "host \<Rightarrow> string \<Rightarrow> (PromotionLeaseEvidence \<times> ArtifactRef) option action" where
  "read_lease_evidence h operation_id =
     journal_read h ''lease-evidence'' operation_id
       (\<lambda>v. bind_err (evidence_fields h v) (mk_lease_evidence h)) le_operation_id"

definition read_mutation_authorization ::
  "host \<Rightarrow> string \<Rightarrow> (PromotionMutationAuthorization \<times> ArtifactRef) option action" where
  "read_mutation_authorization h operation_id =
     journal_read h ''mutation-authorization'' operation_id
       (\<lambda>v. bind_err (authorization_fields h v) mk_authorization) ma_operation_id"

definition read_lease_evidence_ref :: "host \<Rightarrow> string \<Rightarrow> ArtifactRef option action" where
  "read_lease_evidence_ref h operation_id =
     chain (read_lease_evidence h operation_id) (\<lambda>evidence. pass (map_option snd evidence))"

section \<open>Leases\<close>

record PromotionLease =
  pl_operation_id :: string
  pl_repository_digest :: string
  pl_target_ref :: string
  pl_identity :: string
  pl_acquired_at :: py_datetime
  pl_expires_at :: py_datetime
  pl_digest :: string

text \<open>Equality of the data class: date-times with an offset are equal as instants.\<close>

definition same_lease :: "PromotionLease \<Rightarrow> PromotionLease \<Rightarrow> bool" where
  "same_lease a b \<longleftrightarrow>
     a\<lparr>pl_acquired_at := astimezone_utc (pl_acquired_at a), pl_expires_at := astimezone_utc (pl_expires_at a)\<rparr> =
     b\<lparr>pl_acquired_at := astimezone_utc (pl_acquired_at b), pl_expires_at := astimezone_utc (pl_expires_at b)\<rparr>"

definition aware :: "py_datetime \<Rightarrow> err + py_datetime" where
  "aware value = bind_err (require_aware_datetime value) (\<lambda>t. Inr (astimezone_utc t))"

definition canonical_timestamp :: "py_datetime \<Rightarrow> string" where
  "canonical_timestamp value = replace_text ''+00:00'' ''Z'' (isoformat (astimezone_utc value))"

definition lease_path :: "host \<Rightarrow> string \<Rightarrow> string \<Rightarrow> err + journal_path" where
  "lease_path h repository_digest target_ref =
     bind_err (digest_of h (JObj [(''repository_digest'', JStr repository_digest), (''target_ref'', JStr target_ref)]))
       (\<lambda>d. Inr (Lease_file (removeprefix ''sha256:'' d)))"

definition lease_fields :: "string list" where
  "lease_fields = [''schema_version'', ''operation_id'', ''repository_digest'', ''target_ref'', ''identity'',
     ''acquired_at'', ''expires_at'']"

fun as_text :: "jval \<Rightarrow> string option" where
  "as_text (JStr t) = Some t"
| "as_text _ = None"

fun lease_from_document :: "host \<Rightarrow> jval \<Rightarrow> err + PromotionLease" where
  "lease_from_document h (JObj document) =
     (case map_of document ''digest'' of
        None \<Rightarrow> Inl (ValueError ''malformed lease'')
      | Some stored \<Rightarrow>
        (let raw = filter (\<lambda>(k, _). k \<noteq> ''digest'') document; item = (\<lambda>k. Option.bind (map_of raw k) as_text) in
         case as_text stored of
           None \<Rightarrow> Inl (ValueError ''lease digest mismatch'')
         | Some digest \<Rightarrow>
             bind_err (digest_of h (JObj raw)) (\<lambda>expected.
             if expected \<noteq> digest then Inl (ValueError ''lease digest mismatch'')
             else if set (map fst raw) \<noteq> set lease_fields then Inl (ValueError ''malformed lease fields'')
             else if \<not> py_eq (JInt 1) (the (map_of raw ''schema_version''))
             then Inl (ValueError ''malformed lease value'')
             else
               (case (item ''operation_id'', item ''repository_digest'', item ''target_ref'', item ''identity'',
                   item ''acquired_at'', item ''expires_at'') of
                  (Some operation, Some repository, Some target, Some identity, Some acquired, Some expires) \<Rightarrow>
                    bind_err (check_digest repository ''repository_digest'') (\<lambda>_.
                    bind_err (check_digest operation ''operation_id'') (\<lambda>_.
                    bind_err (bind_err (fromisoformat h acquired) aware) (\<lambda>acquired.
                    bind_err (bind_err (fromisoformat h expires) aware) (\<lambda>expires.
                    Inr \<lparr>pl_operation_id = operation, pl_repository_digest = repository, pl_target_ref = target,
                      pl_identity = identity, pl_acquired_at = acquired, pl_expires_at = expires,
                      pl_digest = digest\<rparr>))))
                | _ \<Rightarrow> Inl (ValueError ''malformed lease value'')))))"
| "lease_from_document h _ = Inl (ValueError ''malformed lease'')"

text \<open>Reading the live lease; anything that goes wrong is the given conflict.\<close>

definition load_lease :: "host \<Rightarrow> journal_path \<Rightarrow> string \<Rightarrow> PromotionLease action" where
  "load_lease h p message =
     catching (\<lambda>x. is_os_error x \<or> is_value_error x \<or> is_type_error x)
       (chain (read_limited h p) (\<lambda>data.
        chain (lift (loads h data)) (\<lambda>document.
        lift (lease_from_document h document))))
       (\<lambda>_. fail (PromotionLeaseConflictError message))"

definition release_lease :: "host \<Rightarrow> PromotionLease \<Rightarrow> unit action" where
  "release_lease h lease =
     chain (lift (lease_path h (pl_repository_digest lease) (pl_target_ref lease))) (\<lambda>p.
     chain (load_lease h p ''lease is missing or malformed'') (\<lambda>expected.
     if (pl_identity expected, pl_digest expected, pl_repository_digest expected, pl_target_ref expected) \<noteq>
        (pl_identity lease, pl_digest lease, pl_repository_digest lease, pl_target_ref lease)
     then fail (PromotionLeaseConflictError ''lease identity or digest does not match'')
     else
       chain (catching (\<lambda>x. case x of FileNotFoundError _ \<Rightarrow> True | _ \<Rightarrow> False) (unlink_path h p)
         (\<lambda>_. fail (PromotionLeaseConflictError ''lease disappeared before release''))) (\<lambda>_.
       catching is_os_error (sync_directory h)
         (\<lambda>_. fail (PromotionJournalError
            ''lease was removed but directory durability could not be confirmed; reconciliation required'')))))"

definition check_target :: "string \<Rightarrow> err + unit" where
  "check_target target_ref =
     (if target_ref = [] \<or> strip target_ref \<noteq> target_ref
      then Inl (ValueError ''target_ref must be non-empty and trimmed'') else Inr ())"

definition read_lease :: "host \<Rightarrow> string \<Rightarrow> string \<Rightarrow> PromotionLease option action" where
  "read_lease h repository_digest target_ref =
     chain (lift (check_digest repository_digest ''repository_digest'')) (\<lambda>_.
     chain (lift (check_target target_ref)) (\<lambda>_.
     chain (lift (lease_path h repository_digest target_ref)) (\<lambda>p.
     chain (is_file h p) (\<lambda>there.
     if \<not> there then pass None
     else
       chain (load_lease h p ''lease is malformed'') (\<lambda>lease.
       if (pl_repository_digest lease, pl_target_ref lease) \<noteq> (repository_digest, target_ref)
       then fail (PromotionLeaseConflictError ''lease scope does not match its key'')
       else pass (Some lease))))))"

definition release_matching_lease ::
  "host \<Rightarrow> string \<Rightarrow> string \<Rightarrow> string \<Rightarrow> string \<Rightarrow> string \<Rightarrow> bool action" where
  "release_matching_lease h repository_digest target_ref operation_id identity digest =
     chain (read_lease h repository_digest target_ref) (\<lambda>found.
     case found of
       None \<Rightarrow> pass False
     | Some lease \<Rightarrow>
         if (pl_operation_id lease, pl_identity lease, pl_digest lease) \<noteq> (operation_id, identity, digest)
         then fail (PromotionLeaseConflictError ''lease recovery bindings do not match'')
         else chain (release_lease h lease) (\<lambda>_. pass True))"

text \<open>\<open>now or datetime.now(UTC)\<close> reads the system clock, not the injected one.\<close>

definition assert_current :: "host \<Rightarrow> PromotionLease \<Rightarrow> py_datetime option \<Rightarrow> unit action" where
  "assert_current h lease at_time =
     chain (lift (lease_path h (pl_repository_digest lease) (pl_target_ref lease))) (\<lambda>p.
     chain (load_lease h p ''lease is missing or malformed'') (\<lambda>current.
     if \<not> same_lease current lease
     then fail (PromotionLeaseConflictError ''lease identity or digest does not match'')
     else
       chain (case at_time of Some t \<Rightarrow> pass t | None \<Rightarrow> ask h (\<lambda>n. Inr (Aware (utc_at h n) 0))) (\<lambda>t.
       chain (lift (aware t)) (\<lambda>t.
       chain (lift (dt_less t (pl_expires_at current))) (\<lambda>live.
       if live then pass () else fail (PromotionLeaseConflictError ''promotion lease has expired''))))))"

definition write_lease :: "host \<Rightarrow> journal_path \<Rightarrow> bytes \<Rightarrow> unit action" where
  "write_lease h p data =
     catching is_os_error (exclusive_write h p data)
       (\<lambda>x. fail (if is_file_exists x
          then PromotionLeaseConflictError
            ''promotion lease is occupied; expired or malformed leases are not auto-broken''
          else PromotionJournalError
            ''promotion lease creation is not durably recorded; reconciliation required''))"

text \<open>The evidence of a new lease; when it cannot be recorded, the lease is taken back.\<close>

definition witness_lease :: "host \<Rightarrow> PromotionLeaseEvidence \<Rightarrow> PromotionLease \<Rightarrow> PromotionLease action" where
  "witness_lease h evidence lease =
     catching is_failure (chain (record_lease_evidence h evidence) (\<lambda>_. pass lease))
       (\<lambda>_. chain (catching is_failure (release_lease h lease)
           (\<lambda>_. fail (PromotionJournalError
              ''promotion lease evidence failed and lease cleanup was not confirmed; operator reconciliation required'')))
         (\<lambda>_. fail (PromotionJournalError
            ''promotion lease evidence is not durably recorded; reconciliation required'')))"

text \<open>The lease as it will be written: its identity, its times and the digest over them.\<close>

definition written_payload :: "PromotionLease \<Rightarrow> dict" where
  "written_payload lease = lease_payload canonical_timestamp (pl_operation_id lease) (pl_repository_digest lease)
     (pl_target_ref lease) (pl_identity lease) (pl_acquired_at lease) (pl_expires_at lease)"

definition draft_lease ::
  "host \<Rightarrow> string \<Rightarrow> string \<Rightarrow> string \<Rightarrow> int \<Rightarrow> py_datetime option \<Rightarrow> PromotionLease action" where
  "draft_lease h repository_digest target_ref operation_id lease_seconds at_time =
     chain (lift (require_all [(lease_seconds > 0, ''lease_seconds must be positive'')])) (\<lambda>_.
     chain (lift (check_digest repository_digest ''repository_digest'')) (\<lambda>_.
     chain (lift (check_digest operation_id ''operation_id'')) (\<lambda>_.
     chain (lift (check_target target_ref)) (\<lambda>_.
     chain (case at_time of Some t \<Rightarrow> pass t | None \<Rightarrow> ask h (\<lambda>n. Inr (clock_at h n))) (\<lambda>t.
     chain (lift (aware t)) (\<lambda>acquired.
     chain (ask h (\<lambda>n. Inr (identity_at h n))) (\<lambda>identity.
     let lease = \<lparr>pl_operation_id = operation_id, pl_repository_digest = repository_digest, pl_target_ref = target_ref,
           pl_identity = identity, pl_acquired_at = acquired, pl_expires_at = dt_add acquired (seconds lease_seconds),
           pl_digest = []\<rparr>
     in
     chain (lift (digest_of h (JObj (written_payload lease)))) (\<lambda>digest.
     pass (lease\<lparr>pl_digest := digest\<rparr>)))))))))"

definition lease_evidence :: "PromotionLease \<Rightarrow> PromotionLeaseEvidence" where
  "lease_evidence lease =
     \<lparr>le_operation_id = pl_operation_id lease, le_repository_digest = pl_repository_digest lease,
      le_target_ref = pl_target_ref lease, le_identity = pl_identity lease, le_acquired_at = pl_acquired_at lease,
      le_expires_at = pl_expires_at lease, le_digest = pl_digest lease\<rparr>"

definition acquire_lease ::
  "host \<Rightarrow> string \<Rightarrow> string \<Rightarrow> string \<Rightarrow> int \<Rightarrow> py_datetime option \<Rightarrow> PromotionLease action" where
  "acquire_lease h repository_digest target_ref operation_id lease_seconds at_time =
     chain (draft_lease h repository_digest target_ref operation_id lease_seconds at_time) (\<lambda>lease.
     chain (lift (lease_path h repository_digest target_ref)) (\<lambda>p.
     chain (read_lease_evidence h operation_id) (\<lambda>known.
     case known of
       Some _ \<Rightarrow> fail (PromotionLeaseConflictError ''operation already has durable promotion lease evidence'')
     | None \<Rightarrow>
       chain (lift (canonical_bytes h (JObj (written_payload lease @ [(''digest'', JStr (pl_digest lease))])))) (\<lambda>data.
       chain (write_lease h p data) (\<lambda>_.
       chain (lift (mk_lease_evidence h (lease_evidence lease))) (\<lambda>evidence.
       witness_lease h evidence lease))))))"

section \<open>Reasoning about actions\<close>

lemma action_simps [simp]:
  "pass x m = (Inr x, m)" "fail e m = (Inl e, m)" "lift r m = (r, m)"
  by (simp_all add: pass_def fail_def lift_def)

lemma chain_simps [simp]:
  "chain (pass x) f = f x" "chain (fail e) f = fail e" "chain (lift (Inr x)) f = f x" "chain (lift (Inl e)) f = fail e"
  by (simp_all add: chain_def fun_eq_iff)

lemma chain_Inr: "chain a f m = (Inr y, m') \<longleftrightarrow> (\<exists>x m1. a m = (Inr x, m1) \<and> f x m1 = (Inr y, m'))"
  by (auto simp: chain_def split: sum.splits prod.splits)

lemma chain_Inl:
  "chain a f m = (Inl e, m') \<longleftrightarrow> a m = (Inl e, m') \<or> (\<exists>x m1. a m = (Inr x, m1) \<and> f x m1 = (Inl e, m'))"
  by (auto simp: chain_def split: sum.splits prod.splits)

lemma catching_Inr:
  "catching c a g m = (Inr y, m') \<longleftrightarrow>
     a m = (Inr y, m') \<or> (\<exists>e m1. a m = (Inl e, m1) \<and> c e \<and> g e m1 = (Inr y, m'))"
  by (auto simp: catching_def split: sum.splits prod.splits)

lemma unless_known:
  "(case v of None \<Rightarrow> a | Some _ \<Rightarrow> fail e) m = (Inr y, m') \<longleftrightarrow> v = None \<and> a m = (Inr y, m')"
  by (cases v) simp_all

lemma step_eq:
  "disk_step h f m = (r, m') \<longleftrightarrow>
     (\<exists>d. f (ticks m) (others_at h (ticks m) (files m)) = (r, d) \<and> m' = m\<lparr>files := d, ticks := Suc (ticks m)\<rparr>)"
  by (auto simp: disk_step_def split: prod.splits)

text \<open>
  A computation obeys an order on its states when every run of it moves up, whether it returns or
  raises. What is proved of the order once holds of every composition of actions.
\<close>

definition obeys :: "('s \<Rightarrow> 's \<Rightarrow> bool) \<Rightarrow> ('s, 'a) computation \<Rightarrow> bool" where
  "obeys R a \<longleftrightarrow> (\<forall>m. R m (snd (a m)))"

named_theorems obedient \<open>an action that obeys an order\<close>

locale state_order =
  fixes R :: "'s \<Rightarrow> 's \<Rightarrow> bool"
  assumes refl: "R m m" and trans: "R m1 m2 \<Longrightarrow> R m2 m3 \<Longrightarrow> R m1 m3"
begin

lemma obeys_pure: "obeys R (pass x)" "obeys R (fail e)" "obeys R (lift r)"
  by (simp_all add: obeys_def refl)

lemma obeys_chain:
  assumes "obeys R a" and "\<And>x. obeys R (f x)"
  shows "obeys R (chain a f)"
  unfolding obeys_def
proof
  fix m
  obtain r m1 where a: "a m = (r, m1)" by (cases "a m")
  then have "R m m1" using assms(1) by (metis obeys_def snd_conv)
  moreover have "R m1 (snd (f x m1))" for x using assms(2) by (simp add: obeys_def)
  ultimately show "R m (snd (chain a f m))"
    using a by (auto simp: chain_def intro: trans split: sum.splits)
qed

lemma obeys_catching:
  assumes "obeys R a" and "\<And>x. obeys R (g x)"
  shows "obeys R (catching c a g)"
  unfolding obeys_def
proof
  fix m
  obtain r m1 where a: "a m = (r, m1)" by (cases "a m")
  then have "R m m1" using assms(1) by (metis obeys_def snd_conv)
  moreover have "R m1 (snd (g x m1))" for x using assms(2) by (simp add: obeys_def)
  ultimately show "R m (snd (catching c a g m))"
    using a by (auto simp: catching_def intro: trans split: sum.splits)
qed

lemma obeys_if: "obeys R a \<Longrightarrow> obeys R b \<Longrightarrow> obeys R (if c then a else b)"
  by simp

lemma obeys_option:
  "obeys R a \<Longrightarrow> (\<And>x. obeys R (f x)) \<Longrightarrow> obeys R (case v of None \<Rightarrow> a | Some x \<Rightarrow> f x)"
  by (cases v) simp_all

lemma obeys_pair: "(\<And>x y. obeys R (f x y)) \<Longrightarrow> obeys R (case v of (x, y) \<Rightarrow> f x y)"
  by (cases v) simp

lemmas obeys_intros =
  obeys_pure obeys_chain obeys_catching obeys_if obeys_option obeys_pair

end

lemma obeysD: "obeys R a \<Longrightarrow> a m = (r, m') \<Longrightarrow> R m m'"
  by (metis obeys_def snd_conv)

lemma obeys_step:
  assumes "\<And>m r d. f (ticks m) (others_at h (ticks m) (files m)) = (r, d) \<Longrightarrow>
    R m (m\<lparr>files := d, ticks := Suc (ticks m)\<rparr>)"
  shows "obeys R (disk_step h f)"
  using assms by (auto simp: obeys_def disk_step_def split: prod.splits)

section \<open>Three orders\<close>

text \<open>
  The index is write-once, the files are only added to, and the provider is not called. The
  first two ask the same of the other processes.
\<close>

definition keeps_index :: "disk \<Rightarrow> disk \<Rightarrow> bool" where
  "keeps_index d d' \<longleftrightarrow>
     (\<forall>k n b. paths d (Index_file k n) = Some b \<longrightarrow> paths d' (Index_file k n) = Some b)"

definition index_kept :: "machine \<Rightarrow> machine \<Rightarrow> bool" where
  "index_kept m m' \<longleftrightarrow> keeps_index (files m) (files m')"

definition files_kept :: "machine \<Rightarrow> machine \<Rightarrow> bool" where
  "files_kept m m' \<longleftrightarrow> map_le (paths (files m)) (paths (files m'))"

definition silent :: "machine \<Rightarrow> machine \<Rightarrow> bool" where
  "silent m m' \<longleftrightarrow> merged m' = merged m"

definition spare_index :: "host \<Rightarrow> bool" where
  "spare_index h \<longleftrightarrow> (\<forall>n d. keeps_index d (others_at h n d))"

definition spare_files :: "host \<Rightarrow> bool" where
  "spare_files h \<longleftrightarrow> (\<forall>n d. map_le (paths d) (paths (others_at h n d)))"

interpretation index_order: state_order index_kept
  by unfold_locales (auto simp: index_kept_def keeps_index_def)

interpretation files_order: state_order files_kept
  by unfold_locales (auto simp: files_kept_def intro: map_le_trans)

interpretation silence: state_order silent
  by unfold_locales (auto simp: silent_def)

lemma exclusive_write_keeps [obedient]:
  "spare_index h \<Longrightarrow> obeys index_kept (exclusive_write h p data)"
  "spare_files h \<Longrightarrow> obeys files_kept (exclusive_write h p data)"
  "obeys silent (exclusive_write h p data)"
  unfolding exclusive_write_def
  by (rule obeys_step; force simp: index_kept_def keeps_index_def spare_index_def files_kept_def spare_files_def
      silent_def map_le_def dom_def split: if_splits disk_fault.splits)+

lemma look_keeps [obedient]:
  "spare_index h \<Longrightarrow> obeys index_kept (disk_step h (\<lambda>n d. (g n d, d)))"
  "spare_files h \<Longrightarrow> obeys files_kept (disk_step h (\<lambda>n d. (g n d, d)))"
  "obeys silent (disk_step h (\<lambda>n d. (g n d, d)))"
  by (rule obeys_step; force simp: index_kept_def spare_index_def files_kept_def spare_files_def silent_def)+

lemma unlink_lease_keeps [obedient]:
  "spare_index h \<Longrightarrow> obeys index_kept (unlink_path h (Lease_file k))"
  "obeys silent (unlink_path h p)"
  unfolding unlink_path_def
  by (rule obeys_step; force simp: index_kept_def keeps_index_def spare_index_def silent_def split: if_splits)+

lemma put_object_keeps [obedient]:
  "spare_index h \<Longrightarrow> obeys index_kept (put_object h data mt role)"
  "spare_files h \<Longrightarrow> obeys files_kept (put_object h data mt role)"
  "obeys silent (put_object h data mt role)"
  unfolding put_object_def
  by (rule obeys_step; force simp: index_kept_def keeps_index_def spare_index_def files_kept_def spare_files_def
      silent_def split: prod.splits)+

lemma reading_keeps [obedient]:
  "spare_index h \<Longrightarrow> obeys index_kept (read_limited h p)" "spare_files h \<Longrightarrow> obeys files_kept (read_limited h p)"
  "obeys silent (read_limited h p)"
  "spare_index h \<Longrightarrow> obeys index_kept (is_file h p)" "spare_files h \<Longrightarrow> obeys files_kept (is_file h p)"
  "obeys silent (is_file h p)"
  "spare_index h \<Longrightarrow> obeys index_kept (sync_directory h)" "spare_files h \<Longrightarrow> obeys files_kept (sync_directory h)"
  "obeys silent (sync_directory h)"
  "spare_index h \<Longrightarrow> obeys index_kept (read_object h r)" "spare_files h \<Longrightarrow> obeys files_kept (read_object h r)"
  "obeys silent (read_object h r)"
  "spare_index h \<Longrightarrow> obeys index_kept (ask h g)" "spare_files h \<Longrightarrow> obeys files_kept (ask h g)"
  "obeys silent (ask h g)"
  unfolding read_limited_def is_file_def sync_directory_def read_object_def ask_def
  by (simp_all add: look_keeps)

section \<open>Every operation of the journal\<close>

lemma lease_path_Inr: "lease_path h rd target = Inr p \<Longrightarrow> \<exists>k. p = Lease_file k"
  by (auto simp: lease_path_def bind_err_eq_Inr)

lemma obeys_known_lift:
  assumes "\<And>x. r = Inr x \<Longrightarrow> obeys R (f x)" and "\<And>m. R m m"
  shows "obeys R (chain (lift r) f)"
  using assms by (cases r) (auto simp: obeys_def)

lemmas index_intros = index_order.obeys_intros
lemmas files_intros = files_order.obeys_intros
lemmas silent_intros = silence.obeys_intros

lemma stored_reference_keeps [obedient]:
  "spare_index h \<Longrightarrow> obeys index_kept (stored_reference h p)"
  "spare_files h \<Longrightarrow> obeys files_kept (stored_reference h p)"
  "obeys silent (stored_reference h p)"
  unfolding stored_reference_def
  by ((intro index_intros obedient; assumption) | (intro files_intros obedient; assumption) | intro silent_intros obedient)+

lemma journal_record_keeps [obedient]:
  "spare_index h \<Longrightarrow> obeys index_kept (journal_record h kind oper v)"
  "spare_files h \<Longrightarrow> obeys files_kept (journal_record h kind oper v)"
  "obeys silent (journal_record h kind oper v)"
  unfolding journal_record_def existing_record_def
  by ((intro index_intros obedient; assumption) | (intro files_intros obedient; assumption) | intro silent_intros obedient)+

lemma journal_read_keeps [obedient]:
  "spare_index h \<Longrightarrow> obeys index_kept (journal_read h kind oper val op)"
  "spare_files h \<Longrightarrow> obeys files_kept (journal_read h kind oper val op)"
  "obeys silent (journal_read h kind oper val op)"
  unfolding journal_read_def
  by ((intro index_intros obedient; assumption) | (intro files_intros obedient; assumption) | intro silent_intros obedient)+

lemma load_lease_keeps [obedient]:
  "spare_index h \<Longrightarrow> obeys index_kept (load_lease h p msg)"
  "spare_files h \<Longrightarrow> obeys files_kept (load_lease h p msg)"
  "obeys silent (load_lease h p msg)"
  unfolding load_lease_def
  by ((intro index_intros obedient; assumption) | (intro files_intros obedient; assumption) | intro silent_intros obedient)+

lemma write_lease_keeps [obedient]:
  "spare_index h \<Longrightarrow> obeys index_kept (write_lease h p data)"
  "spare_files h \<Longrightarrow> obeys files_kept (write_lease h p data)"
  "obeys silent (write_lease h p data)"
  unfolding write_lease_def
  by ((intro index_intros obedient; assumption) | (intro files_intros obedient; assumption) | intro silent_intros obedient)+

lemma assert_current_keeps [obedient]:
  "spare_index h \<Longrightarrow> obeys index_kept (assert_current h lease t)"
  "spare_files h \<Longrightarrow> obeys files_kept (assert_current h lease t)"
  "obeys silent (assert_current h lease t)"
  unfolding assert_current_def
  by ((intro index_intros obedient; assumption) | (intro files_intros obedient; assumption) | intro silent_intros obedient)+

lemma release_lease_keeps [obedient]:
  "spare_index h \<Longrightarrow> obeys index_kept (release_lease h lease)"
  "obeys silent (release_lease h lease)"
proof -
  assume h: "spare_index h"
  show "obeys index_kept (release_lease h lease)"
    unfolding release_lease_def
  proof (rule obeys_known_lift)
    fix p assume "lease_path h (pl_repository_digest lease) (pl_target_ref lease) = Inr p"
    then obtain k where "p = Lease_file k" using lease_path_Inr by blast
    with h show "obeys index_kept
      (chain (load_lease h p ''lease is missing or malformed'') (\<lambda>expected.
         if (pl_identity expected, pl_digest expected, pl_repository_digest expected, pl_target_ref expected) \<noteq>
            (pl_identity lease, pl_digest lease, pl_repository_digest lease, pl_target_ref lease)
         then fail (PromotionLeaseConflictError ''lease identity or digest does not match'')
         else
           chain (catching (\<lambda>x. case x of FileNotFoundError _ \<Rightarrow> True | _ \<Rightarrow> False) (unlink_path h p)
             (\<lambda>_. fail (PromotionLeaseConflictError ''lease disappeared before release''))) (\<lambda>_.
           catching is_os_error (sync_directory h)
             (\<lambda>_. fail (PromotionJournalError
                ''lease was removed but directory durability could not be confirmed; reconciliation required'')))))"
      by (simp only:) (intro index_intros obedient; assumption)
  qed (rule index_order.refl)
next
  show "obeys silent (release_lease h lease)"
    unfolding release_lease_def by (intro silent_intros obedient)
qed

lemma lease_operations_keep [obedient]:
  "spare_index h \<Longrightarrow> obeys index_kept (read_lease h rd target)" "obeys silent (read_lease h rd target)"
  "spare_files h \<Longrightarrow> obeys files_kept (read_lease h rd target)"
  "spare_index h \<Longrightarrow> obeys index_kept (release_matching_lease h rd target oper i d)"
  "obeys silent (release_matching_lease h rd target oper i d)"
  unfolding read_lease_def release_matching_lease_def
  by ((intro index_intros obedient; assumption) | (intro files_intros obedient; assumption) | intro silent_intros obedient)+

lemma draft_lease_keeps [obedient]:
  "spare_index h \<Longrightarrow> obeys index_kept (draft_lease h rd target oper secs t)"
  "spare_files h \<Longrightarrow> obeys files_kept (draft_lease h rd target oper secs t)"
  "obeys silent (draft_lease h rd target oper secs t)"
  unfolding draft_lease_def Let_def
  by ((intro index_intros obedient; assumption) | (intro files_intros obedient; assumption) | intro silent_intros obedient)+

lemma witness_lease_keeps [obedient]:
  "spare_index h \<Longrightarrow> obeys index_kept (witness_lease h e lease)" "obeys silent (witness_lease h e lease)"
  unfolding witness_lease_def record_lease_evidence_def
  by ((intro index_intros obedient; assumption) | intro silent_intros obedient)+

lemma read_lease_evidence_keeps [obedient]:
  "spare_index h \<Longrightarrow> obeys index_kept (read_lease_evidence h oper)"
  "spare_files h \<Longrightarrow> obeys files_kept (read_lease_evidence h oper)"
  "obeys silent (read_lease_evidence h oper)"
  unfolding read_lease_evidence_def by (simp_all add: journal_read_keeps)

lemma acquire_lease_keeps [obedient]:
  "spare_index h \<Longrightarrow> obeys index_kept (acquire_lease h rd target oper secs t)"
  "obeys silent (acquire_lease h rd target oper secs t)"
  unfolding acquire_lease_def
  by ((intro index_intros obedient; assumption) | intro silent_intros obedient)+

section \<open>What an operation leaves and finds\<close>

lemma read_limited_Inr:
  assumes "read_limited h p m = (Inr data, m')"
  shows "paths (files m') p = Some data"
  using assms by (auto simp: read_limited_def step_eq split: option.splits if_splits)

lemma exclusive_write_Inr:
  assumes "exclusive_write h p data m = (Inr u, m')"
  shows "paths (files m') p = Some data"
  using assms by (auto simp: exclusive_write_def step_eq split: disk_fault.splits if_splits)

lemma index_keptD: "index_kept m m' \<Longrightarrow> paths (files m) (index_path k n) \<noteq> None \<Longrightarrow> paths (files m') (index_path k n) \<noteq> None"
  by (auto simp: index_kept_def keeps_index_def index_path_def)

lemma existing_record_index:
  assumes "existing_record h kind (index_path kind oper) m = (Inr x, m')" and h: "spare_index h"
  shows "paths (files m') (index_path kind oper) \<noteq> None"
proof -
  obtain data m1 old m2 where read: "read_limited h (index_path kind oper) m = (Inr data, m1)"
    and rest: "stored_reference h (index_path kind oper) m = (Inr old, m2)" "index_kept m1 m2" "index_kept m2 m'"
    using assms
    by (auto simp: existing_record_def catching_Inr chain_Inr stored_reference_def index_order.refl split: if_splits
        dest!: obeysD [OF reading_keeps(10) [OF h]])
  have "paths (files m1) (index_path kind oper) \<noteq> None" using read by (auto dest: read_limited_Inr)
  then show ?thesis using rest by (blast dest: index_keptD)
qed

lemma journal_record_index:
  assumes "journal_record h kind oper v m = (Inr r, m')" and "spare_index h"
  shows "paths (files m') (index_path kind oper) \<noteq> None"
  using assms
  by (auto simp: journal_record_def chain_Inr catching_Inr split: if_splits
      dest: exclusive_write_Inr existing_record_index)

lemma journal_read_finds:
  assumes "journal_read h kind oper val op m = (Inr x, m')" and "spare_index h"
    and "paths (files m) (index_path kind oper) \<noteq> None"
  shows "x \<noteq> None"
proof -
  obtain there m1 where there: "is_file h (index_path kind oper) m = (Inr there, m1)"
    and x: "x = None \<longrightarrow> \<not> there"
    using assms(1) by (auto simp: journal_read_def chain_Inr split: if_splits)
  have "paths (others_at h (ticks m) (files m)) (index_path kind oper) \<noteq> None"
    using assms(2,3) by (auto simp: spare_index_def keeps_index_def index_path_def)
  then show ?thesis using there x by (auto simp: is_file_def step_eq)
qed

text \<open>An operation that has lease evidence on the index is never given another lease.\<close>

lemma acquire_lease_Inr:
  assumes "acquire_lease h rd target oper secs t m = (Inr lease, m')"
  obtains m1 m2 m3 p data evidence where "draft_lease h rd target oper secs t m = (Inr lease, m1)"
    "lease_path h rd target = Inr p" "read_lease_evidence h oper m1 = (Inr None, m2)"
    "write_lease h p data m2 = (Inr (), m3)" "mk_lease_evidence h (lease_evidence lease) = Inr evidence"
    "\<exists>r. record_lease_evidence h evidence m3 = (Inr r, m')"
proof -
  have same: "lease' = lease \<and> (\<exists>r. record_lease_evidence h e m1 = (Inr r, m'))"
    if "witness_lease h e lease' m1 = (Inr lease, m')" for e lease' m1
    using that by (auto simp: witness_lease_def catching_Inr chain_Inr)
  show thesis
    using assms that by (auto simp: acquire_lease_def chain_Inr unless_known dest!: same)
qed

lemma acquire_needs_fresh_operation:
  assumes "spare_index h" and "paths (files m) (index_path ''lease-evidence'' oper) \<noteq> None"
  shows "acquire_lease h rd target oper secs t m \<noteq> (Inr lease, m')"
proof
  assume "acquire_lease h rd target oper secs t m = (Inr lease, m')"
  then obtain m1 m2 where draft: "draft_lease h rd target oper secs t m = (Inr lease, m1)"
    and read: "read_lease_evidence h oper m1 = (Inr None, m2)"
    by (rule acquire_lease_Inr)
  have "index_kept m m1" using draft_lease_keeps(1) [OF assms(1)] draft by (rule obeysD)
  then have "paths (files m1) (index_path ''lease-evidence'' oper) \<noteq> None"
    using assms(2) index_keptD by blast
  then show False
    using journal_read_finds [OF read [unfolded read_lease_evidence_def] assms(1)] by simp
qed

section \<open>Leases are not broken\<close>

lemma files_keptD: "files_kept m m' \<Longrightarrow> paths (files m) p = Some b \<Longrightarrow> paths (files m') p = Some b"
  by (auto simp: files_kept_def map_le_def dom_def)

lemma write_occupied:
  assumes "spare_files h" and "paths (files m) p = Some b"
  shows "\<exists>e m'. write_lease h p data m = (Inl e, m')"
proof -
  have "paths (others_at h (ticks m) (files m)) p = Some b"
    using assms by (auto simp: spare_files_def map_le_def dom_def)
  then show ?thesis
    by (cases "fault_at h (ticks m)") (simp_all add: write_lease_def exclusive_write_def disk_step_def catching_def)
qed

text \<open>
  The part of an acquisition up to the exclusive creation of the lease file only adds files; what
  comes after it is reached only by the process that created the file.
\<close>

lemma acquire_occupied:
  assumes h: "spare_files h" and p: "lease_path h rd target = Inr p" and b: "paths (files m) p = Some b"
    and run: "acquire_lease h rd target oper secs t m = (r, m')"
  shows "isl r \<and> paths (files m') p = Some b"
proof -
  have keeps: "obeys files_kept (draft_lease h rd target oper secs t)" "obeys files_kept (read_lease_evidence h oper)"
    "obeys files_kept (write_lease h p data)" for data
    using h by (simp_all add: obedient)
  obtain r1 m1 where draft: "draft_lease h rd target oper secs t m = (r1, m1)" by fastforce
  obtain r2 m2 where read: "read_lease_evidence h oper m1 = (r2, m2)" by fastforce
  have "files_kept m m1" "files_kept m1 m2" using keeps draft read by (blast dest: obeysD)+
  then have at1: "paths (files m1) p = Some b" and at2: "paths (files m2) p = Some b"
    using b files_keptD by blast+
  have late: "\<exists>e m3. write_lease h p data m2 = (Inl e, m3) \<and> paths (files m3) p = Some b" for data
    using write_occupied [OF h at2, of data] at2 keeps(3) [of data] by (blast dest: obeysD files_keptD)
  show ?thesis
  proof (cases r1)
    case (Inl x)
    then show ?thesis using run draft at1 by (auto simp: acquire_lease_def chain_def)
  next
    case lease: (Inr lease)
    show ?thesis
    proof (cases r2)
      case (Inl x)
      then show ?thesis using run draft read lease p at2 by (auto simp: acquire_lease_def chain_def)
    next
      case (Inr known)
      let ?doc = "JObj (written_payload lease @ [(''digest'', JStr (pl_digest lease))])"
      have "acquire_lease h rd target oper secs t m =
          (case known of
             Some _ \<Rightarrow> fail (PromotionLeaseConflictError ''operation already has durable promotion lease evidence'')
           | None \<Rightarrow> chain (lift (canonical_bytes h ?doc)) (\<lambda>data.
               chain (write_lease h p data) (\<lambda>_.
               chain (lift (mk_lease_evidence h (lease_evidence lease))) (\<lambda>evidence. witness_lease h evidence lease)))) m2"
        using draft read lease Inr p by (simp add: acquire_lease_def chain_def)
      moreover have "\<exists>e m3. chain (write_lease h p data) f m2 = (Inl e, m3) \<and> paths (files m3) p = Some b" for data
          and f :: "unit \<Rightarrow> PromotionLease action"
        using late [of data] by (auto simp: chain_def)
      then have "\<exists>e m3. chain (lift (canonical_bytes h ?doc)) (\<lambda>data. chain (write_lease h p data) f) m2 = (Inl e, m3) \<and>
          paths (files m3) p = Some b" for f :: "unit \<Rightarrow> PromotionLease action"
        using at2 by (cases "canonical_bytes h ?doc") simp_all
      ultimately show ?thesis
        using run at2 by (cases known) (simp, metis fst_conv isl_def snd_conv, simp)
    qed
  qed
qed

text \<open>A lease is released only with the identity and the digest that its file carries.\<close>

definition lease_on_file :: "host \<Rightarrow> bytes \<Rightarrow> PromotionLease \<Rightarrow> bool" where
  "lease_on_file h b lease \<longleftrightarrow>
     (\<exists>v held. loads h b = Inr v \<and> lease_from_document h v = Inr held \<and> pl_identity held = pl_identity lease \<and>
        pl_digest held = pl_digest lease \<and> pl_repository_digest held = pl_repository_digest lease \<and>
        pl_target_ref held = pl_target_ref lease)"

lemma load_lease_Inr:
  assumes "load_lease h p msg m = (Inr held, m')"
  shows "\<exists>b v. paths (files m') p = Some b \<and> loads h b = Inr v \<and> lease_from_document h v = Inr held"
  using assms by (auto simp: load_lease_def catching_Inr chain_Inr dest: read_limited_Inr)

lemma release_only_owned:
  assumes h: "spare_files h" and b: "paths (files m) q = Some b"
    and run: "release_lease h lease m = (r, m')" and gone: "paths (files m') q \<noteq> Some b"
  shows "lease_path h (pl_repository_digest lease) (pl_target_ref lease) = Inr q \<and> lease_on_file h b lease"
proof -
  obtain p where p: "lease_path h (pl_repository_digest lease) (pl_target_ref lease) = Inr p"
    using run b gone by (cases "lease_path h (pl_repository_digest lease) (pl_target_ref lease)") (auto simp: release_lease_def)
  obtain r1 m1 where load: "load_lease h p ''lease is missing or malformed'' m = (r1, m1)" by fastforce
  then have "files_kept m m1" using load_lease_keeps(2) [OF h] by (blast dest: obeysD)
  then have at1: "paths (files m1) q = Some b" using b files_keptD by blast
  obtain held where held: "r1 = Inr held"
    using run gone at1 p load by (cases r1) (auto simp: release_lease_def chain_def)
  define d where "d = others_at h (ticks m1) (files m1)"
  have d: "paths d q = Some b" using at1 h by (auto simp: d_def spare_files_def map_le_def dom_def)
  have sync: "obeys files_kept (sync_directory h)" using h by (simp add: obedient)
  have match: "pl_identity held = pl_identity lease" "pl_digest held = pl_digest lease"
    "pl_repository_digest held = pl_repository_digest lease" "pl_target_ref held = pl_target_ref lease"
    using run gone at1 p load held by (auto simp: release_lease_def chain_def split: if_splits)
  have "q = p"
  proof (rule ccontr)
    assume other: "q \<noteq> p"
    obtain r2 m2 where unlink: "unlink_path h p m1 = (r2, m2)" by fastforce
    then have at2: "paths (files m2) q = Some b"
      using d other by (auto simp: unlink_path_def step_eq d_def split: if_splits)
    obtain r3 m3 where "sync_directory h m2 = (r3, m3)" by fastforce
    moreover from this have "paths (files m3) q = Some b" using sync at2 by (blast dest: obeysD files_keptD)
    ultimately have "paths (files m') q = Some b"
      using run at1 at2 p load held match unlink
      by (auto simp: release_lease_def chain_def catching_def split: sum.splits if_splits)
    with gone show False by simp
  qed
  moreover obtain v where "loads h b = Inr v" "lease_from_document h v = Inr held"
    using load_lease_Inr [OF load [unfolded held]] at1 \<open>q = p\<close> by auto
  ultimately show ?thesis using p match by (auto simp: lease_on_file_def)
qed

section \<open>What is recorded is read back\<close>

text \<open>The index entry of an operation, and the record it leads to, as the disk holds them.\<close>

definition refers_to :: "host \<Rightarrow> disk \<Rightarrow> string \<Rightarrow> string \<Rightarrow> ArtifactRef \<Rightarrow> bool" where
  "refers_to h d kind oper r \<longleftrightarrow>
     (\<exists>b w r0. paths d (index_path kind oper) = Some b \<and> int (length b) \<le> max_record_bytes h \<and>
        loads h b = Inr w \<and> artifact_ref_fields h w = Inr r0 \<and> mk_artifact_ref r0 = Inr r)"

definition recorded :: "host \<Rightarrow> disk \<Rightarrow> string \<Rightarrow> string \<Rightarrow> (jval \<Rightarrow> err + 'r) \<Rightarrow> 'r \<Rightarrow> bool" where
  "recorded h d kind oper validate x \<longleftrightarrow>
     (\<exists>r data v. refers_to h d kind oper r \<and> sha256 h data = removeprefix ''sha256:'' (ar_digest r) \<and>
        loads h data = Inr v \<and> validate v = Inr x)"

lemma refers_to_kept: "refers_to h d kind oper r \<Longrightarrow> keeps_index d d' \<Longrightarrow> refers_to h d' kind oper r"
  by (fastforce simp: refers_to_def keeps_index_def index_path_def)

lemma recorded_kept: "recorded h d kind oper val x \<Longrightarrow> keeps_index d d' \<Longrightarrow> recorded h d' kind oper val x"
  by (auto simp: recorded_def dest: refers_to_kept)

lemma stored_reference_Inr:
  assumes "stored_reference h (index_path kind oper) m = (Inr r, m')"
  shows "refers_to h (files m') kind oper r"
  using assms
  by (auto simp: stored_reference_def chain_Inr read_limited_def step_eq refers_to_def split: option.splits if_splits)

lemma read_object_Inr:
  assumes "read_object h r m = (Inr data, m')"
  shows "sha256 h data = removeprefix ''sha256:'' (ar_digest r)"
  using assms by (auto simp: read_object_def step_eq read_bytes_def Let_def bind_err_eq_Inr split: option.splits if_splits)

lemma journal_read_recorded:
  assumes "journal_read h kind oper val op m = (Inr (Some (x, r)), m')" and h: "spare_index h"
  shows "recorded h (files m') kind oper val x \<and> op x = oper"
proof -
  obtain m1 m2 m3 data v where ref: "stored_reference h (index_path kind oper) m1 = (Inr r, m2)"
    and obj: "read_object h r m2 = (Inr data, m')" and "loads h data = Inr v" "val v = Inr x" "op x = oper"
    using assms(1) by (auto simp: journal_read_def chain_Inr catching_Inr split: if_splits)
  moreover have "keeps_index (files m2) (files m')"
    using obeysD [OF reading_keeps(10) [OF h] obj] by (simp add: index_kept_def)
  ultimately show ?thesis
    using stored_reference_Inr [OF ref] read_object_Inr [OF obj] by (auto simp: recorded_def dest: refers_to_kept)
qed

text \<open>
  What the codec promises for a value that the journal writes: its bytes are read back as a value
  with the same bytes, from which the fields can be read again. The references it writes are those
  that the store returns for the bytes of a record.
\<close>

definition readable :: "host \<Rightarrow> (jval \<Rightarrow> err + 'r) \<Rightarrow> jval \<Rightarrow> 'r \<Rightarrow> bool" where
  "readable h validate v x \<longleftrightarrow>
     (\<forall>data. canonical_bytes h v = Inr data \<longrightarrow>
        (\<exists>w. loads h data = Inr w \<and> canonical_bytes h w = Inr data \<and> validate w = Inr x))"

definition reference_at :: "host \<Rightarrow> string \<Rightarrow> string \<Rightarrow> bytes \<Rightarrow> nat \<Rightarrow> err + ArtifactRef" where
  "reference_at h media_type role data n =
     mk_artifact_ref \<lparr>ar_digest = ''sha256:'' @ sha256 h data, ar_size_bytes = int (length data),
       ar_media_type = media_type, ar_role = role, ar_created_at = now (env_at h n)\<rparr>"

definition references_readable :: "host \<Rightarrow> string \<Rightarrow> bytes \<Rightarrow> bool" where
  "references_readable h kind data \<longleftrightarrow>
     (\<forall>n r. reference_at h media (''promotion-'' @ kind) data n = Inr r \<longrightarrow>
        readable h (\<lambda>w. bind_err (artifact_ref_fields h w) mk_artifact_ref) (artifact_ref_json r) r \<and>
        (\<forall>b. canonical_bytes h (artifact_ref_json r) = Inr b \<longrightarrow> int (length b) \<le> max_record_bytes h))"

definition objects_kept :: "machine \<Rightarrow> machine \<Rightarrow> bool" where
  "objects_kept m m' \<longleftrightarrow> map_le (objects (object_files (files m))) (objects (object_files (files m')))"

definition spare_objects :: "host \<Rightarrow> bool" where
  "spare_objects h \<longleftrightarrow>
     (\<forall>n d. map_le (objects (object_files d)) (objects (object_files (others_at h n d)))) \<and>
     (\<forall>n. spares (uuid4 (env_at h n) 0 @ ''.partial'') (race_at h n))"

interpretation objects_order: state_order objects_kept
  by unfold_locales (auto simp: objects_kept_def intro: map_le_trans)

lemma objects_look [obedient]: "spare_objects h \<Longrightarrow> obeys objects_kept (disk_step h (\<lambda>n d. (g n d, d)))"
  by (rule obeys_step) (auto simp: objects_kept_def spare_objects_def)

lemma objects_write [obedient]: "spare_objects h \<Longrightarrow> obeys objects_kept (exclusive_write h p data)"
  unfolding exclusive_write_def
  by (rule obeys_step) (auto simp: objects_kept_def spare_objects_def split: if_splits disk_fault.splits)

lemma objects_reading [obedient]:
  assumes "spare_objects h"
  shows "obeys objects_kept (read_limited h p)" "obeys objects_kept (is_file h p)"
    "obeys objects_kept (sync_directory h)" "obeys objects_kept (read_object h r)"
    "obeys objects_kept (stored_reference h p)"
  unfolding stored_reference_def read_limited_def is_file_def sync_directory_def read_object_def
  using assms by (intro objects_order.obeys_intros objects_look; assumption)+

text \<open>A record on the disk: the reference its index entry holds, and the bytes behind it.\<close>

definition record_on_disk :: "host \<Rightarrow> disk \<Rightarrow> string \<Rightarrow> string \<Rightarrow> ArtifactRef \<Rightarrow> bytes \<Rightarrow> bool" where
  "record_on_disk h d kind oper r data \<longleftrightarrow>
     refers_to h d kind oper r \<and> \<not> wrong_metadata kind r \<and> ar_size_bytes r = int (length data) \<and>
     sha256 h data = removeprefix ''sha256:'' (ar_digest r) \<and>
     (\<exists>p. path_for_hex (sha256 h data) = Inr p \<and> objects (object_files d) p = Some data)"

lemma record_on_disk_kept:
  assumes "record_on_disk h d kind oper r data" and "keeps_index d d'"
    and "map_le (objects (object_files d)) (objects (object_files d'))"
  shows "record_on_disk h d' kind oper r data"
  using assms by (auto simp: record_on_disk_def map_le_def dom_def dest: refers_to_kept)

lemma record_on_disk_read: "record_on_disk h d kind oper r data \<Longrightarrow> read_bytes (sha256 h) True r (object_files d) = Inr data"
  by (auto simp: record_on_disk_def read_bytes_def Let_def)

lemma record_on_disk_found:
  assumes "record_on_disk h (files m) kind oper r data" and "spare_index h" and "spare_objects h"
  shows "\<exists>m1 m2. is_file h (index_path kind oper) m = (Inr True, m1) \<and>
      stored_reference h (index_path kind oper) m1 = (Inr r, m2) \<and> (\<exists>m3. read_object h r m2 = (Inr data, m3))"
proof -
  define d1 where "d1 = others_at h (ticks m) (files m)"
  define d2 where "d2 = others_at h (Suc (ticks m)) d1"
  define d3 where "d3 = others_at h (Suc (Suc (ticks m))) d2"
  have later: "record_on_disk h (others_at h n d) kind oper r data" if "record_on_disk h d kind oper r data" for n d
    using that assms(2,3) record_on_disk_kept by (auto simp: spare_index_def spare_objects_def)
  have d1: "record_on_disk h d1 kind oper r data" unfolding d1_def by (rule later) (rule assms(1))
  have d2: "record_on_disk h d2 kind oper r data" unfolding d2_def by (rule later) (rule d1)
  have d3: "record_on_disk h d3 kind oper r data" unfolding d3_def by (rule later) (rule d2)
  from d1 have "is_file h (index_path kind oper) m = (Inr True, m\<lparr>files := d1, ticks := Suc (ticks m)\<rparr>)"
    by (auto simp: is_file_def disk_step_def d1_def record_on_disk_def refers_to_def)
  moreover from d2 have "stored_reference h (index_path kind oper) (m\<lparr>files := d1, ticks := Suc (ticks m)\<rparr>) =
      (Inr r, m\<lparr>files := d2, ticks := Suc (Suc (ticks m))\<rparr>)"
    by (auto simp: stored_reference_def read_limited_def disk_step_def chain_def d2_def record_on_disk_def refers_to_def)
  moreover have "\<exists>m3. read_object h r (m\<lparr>files := d2, ticks := Suc (Suc (ticks m))\<rparr>) = (Inr data, m3)"
    using record_on_disk_read [OF d3] by (simp add: read_object_def disk_step_def d3_def)
  ultimately show ?thesis by blast
qed

lemma put_object_Inr:
  assumes put: "put_object h data mt role m = (Inr a, m')" and "hex_hash (sha256 h)" "collision_free (sha256 h) data"
    and "spare_objects h"
  shows "ar_digest a = ''sha256:'' @ sha256 h data" and "ar_size_bytes a = int (length data)"
    and "\<exists>p. path_for_hex (sha256 h data) = Inr p \<and> objects (object_files (files m')) p = Some data"
    and "ar_media_type a = strip mt" and "ar_role a = strip role" and "\<exists>n. reference_at h mt role data n = Inr a"
proof -
  let ?d = "others_at h (ticks m) (files m)" and ?n = "ticks m"
  have stored: "store_put_bytes (sha256 h) (race_at h ?n) (env_at h ?n) data mt role (max_record_bytes h) (object_files ?d) =
      (Inr a, object_files (files m'))"
    using put by (auto simp: put_object_def step_eq split: prod.splits)
  have "put_ok (sha256 h) data a (object_files (files m'))"
    using store_put_ok [OF stored] assms by (simp add: spare_objects_def)
  then show "ar_digest a = ''sha256:'' @ sha256 h data" and "ar_size_bytes a = int (length data)"
    and "\<exists>p. path_for_hex (sha256 h data) = Inr p \<and> objects (object_files (files m')) p = Some data"
    using assms(3) by (auto simp: put_ok_def collision_free_def)
  have made: "mk_artifact_ref \<lparr>ar_digest = ''sha256:'' @ sha256 h data, ar_size_bytes = int (length data),
     ar_media_type = mt, ar_role = role, ar_created_at = now (env_at h ?n)\<rparr> = Inr a"
    using stored by (rule store_put_Inr)
  then show "\<exists>n. reference_at h mt role data n = Inr a" unfolding reference_at_def by blast
  from made show "ar_media_type a = strip mt" and "ar_role a = strip role"
    by (auto simp: mk_artifact_ref_def bind_err_eq_Inr non_empty_string_def split: if_splits)
qed

lemma existing_record_Inr:
  assumes "existing_record h kind (index_path kind oper) m = (Inr (r, data), m')" and "spare_index h"
  shows "record_on_disk h (files m') kind oper r data"
proof -
  obtain m1 where ref: "stored_reference h (index_path kind oper) m = (Inr r, m1)" "\<not> wrong_metadata kind r"
    and obj: "read_object h r m1 = (Inr data, m')"
    using assms(1) by (auto simp: existing_record_def catching_Inr chain_Inr split: if_splits)
  have "keeps_index (files m1) (files m')"
    using obeysD [OF reading_keeps(10) [OF assms(2)] obj] by (simp add: index_kept_def)
  moreover have "read_bytes (sha256 h) True r (object_files (files m')) = Inr data"
    using obj by (auto simp: read_object_def step_eq)
  ultimately show ?thesis
    using ref stored_reference_Inr [OF ref(1)]
    by (auto simp: record_on_disk_def read_bytes_def Let_def bind_err_eq_Inr split: option.splits if_splits dest: refers_to_kept)
qed

lemma media_trimmed: "strip media = media"
  by code_simp

lemma journal_record_on_record:
  assumes rec: "journal_record h kind oper v m = (Inr r, m')" and data: "canonical_bytes h v = Inr data"
    and hash: "hex_hash (sha256 h)" "collision_free (sha256 h) data"
    and spare: "spare_index h" "spare_objects h" and codec: "references_readable h kind data"
    and role: "strip (''promotion-'' @ kind) = ''promotion-'' @ kind"
  shows "record_on_disk h (files m') kind oper r data"
proof -
  obtain a m1 m2 reference where put: "put_object h data media (''promotion-'' @ kind) m = (Inr a, m1)"
    and sync: "sync_directory h m1 = (Inr (), m2)" and bytes: "canonical_bytes h (artifact_ref_json a) = Inr reference"
    and written: "exclusive_write h (index_path kind oper) reference m2 = (Inr (), m') \<and> r = a \<or>
      (\<exists>m3. existing_record h kind (index_path kind oper) m3 = (Inr (r, data), m'))"
    using rec data
    by (auto simp: journal_record_def chain_Inr catching_Inr split: if_splits)
  note stored = put_object_Inr [OF put hash spare(2)]
  from written show ?thesis
  proof
    assume new: "exclusive_write h (index_path kind oper) reference m2 = (Inr (), m') \<and> r = a"
    have "objects_kept m1 m2" "objects_kept m2 m'"
      using obeysD [OF objects_reading(3) [OF spare(2)] sync] obeysD [OF objects_write [OF spare(2)]] new by blast+
    then have kept: "map_le (objects (object_files (files m1))) (objects (object_files (files m')))"
      by (auto simp: objects_kept_def intro: map_le_trans)
    have "refers_to h (files m') kind oper a"
      using codec stored(6) bytes exclusive_write_Inr new
      by (fastforce simp: references_readable_def readable_def refers_to_def bind_err_eq_Inr)
    moreover have "\<not> wrong_metadata kind a" using stored(4,5) role media_trimmed by (simp add: wrong_metadata_def)
    moreover have "\<exists>p. path_for_hex (sha256 h data) = Inr p \<and> objects (object_files (files m')) p = Some data"
      using stored(3) kept by (auto simp: map_le_def dom_def)
    ultimately show ?thesis using new stored(1,2) by (simp add: record_on_disk_def)
  next
    assume "\<exists>m3. existing_record h kind (index_path kind oper) m3 = (Inr (r, data), m')"
    then show ?thesis using existing_record_Inr [OF _ spare(1)] by blast
  qed
qed


end
