(* ===== verification/PromotionBundles.thy ===== *)
theory PromotionBundles
  imports PromotionJournal
begin

text \<open>
  Promotion bundles (contracts/promotion_bundle.py) and their replay by the promotion controller
  (application/promotion_service.py): the records that tie a trusted snapshot, a request, a
  decision and its evidence together, with their validators, the canonical payload and its
  digest, and the check of a bundle against the controller's configuration, the policy and the
  current state of the repository. The repository, the two verifiers and the store of rollback
  authorities are parameters of the controller; the JSON digest of the list of paths is the
  parameter that the policy theory has.
\<close>

section \<open>Configurations\<close>

definition plain :: "'a encoder_scheme \<Rightarrow> platform" where
  "plain h = \<lparr>nfc = nfc h, casefold = casefold h, sha256 = sha256 h\<rparr>"

definition strip_items :: "(string \<Rightarrow> err + string) \<Rightarrow> ('v \<Rightarrow> err + 'v) \<Rightarrow> (string \<times> 'v) list \<Rightarrow> err + (string \<times> 'v) list" where
  "strip_items key item = map_err (\<lambda>(k, v). bind_err (key k) (\<lambda>k. bind_err (item v) (\<lambda>v. Inr (k, v))))"

definition non_negative :: "int \<Rightarrow> err + int" where
  "non_negative n = (if n < 0 then Inl (ValueError ''Input should be greater than or equal to 0'') else Inr n)"

definition mk_promotion_config :: "PromotionConfig \<Rightarrow> err + PromotionConfig" where
  "mk_promotion_config c =
     bind_err (non_negative (evaluation_epoch c)) (\<lambda>_.
     bind_err (strip_items non_empty_string (map_err non_empty_string) (gate_issuers_dict c)) (\<lambda>gates.
     bind_err (bind_err (map_err non_empty_string (trusted_base_issuers c)) min_one) (\<lambda>base.
     bind_err (bind_err (map_err non_empty_string (trusted_reviewer_issuers c)) min_one) (\<lambda>reviewer.
     bind_err (bind_err (map_err non_empty_string (trusted_path_issuers c)) min_one) (\<lambda>path.
     bind_err (bind_err (map_err non_empty_string (rollback_issuer_ids c)) min_one) (\<lambda>rollback.
     bind_err (non_negative (rollback_limit c)) (\<lambda>_.
     bind_err (bind_err (strip_items non_empty_string non_empty_string (reviewer_domains_dict c)) min_one) (\<lambda>reviewers.
     bind_err (bind_err (strip_items non_empty_string non_empty_string (proposer_domains_dict c)) min_one) (\<lambda>proposers.
     bind_err (bind_err (strip_items sha256_digest non_empty_string (candidate_proposers_dict c)) min_one) (\<lambda>candidates.
     bind_err (map_err non_empty_string (low_gates c)) (\<lambda>low.
     bind_err (map_err non_empty_string (ordinary_gates c)) (\<lambda>ordinary.
     Inr \<lparr>evaluation_epoch = evaluation_epoch c, gate_issuers_dict = gates, trusted_base_issuers = base,
       trusted_reviewer_issuers = reviewer, trusted_path_issuers = path, rollback_issuer_ids = rollback,
       rollback_limit = rollback_limit c, reviewer_domains_dict = reviewers, proposer_domains_dict = proposers,
       candidate_proposers_dict = candidates, low_gates = low, ordinary_gates = ordinary\<rparr>))))))))))))"

record PromotionControllerConfig =
  controller_identity :: string
  controller_version :: string
  base_issuer_id :: string
  path_issuer_id :: string
  pc_policy :: PromotionConfig

definition mk_controller_config :: "PromotionControllerConfig \<Rightarrow> err + PromotionControllerConfig" where
  "mk_controller_config c =
     bind_err (validate_fields
       [field controller_identity controller_identity_update non_empty_string,
        field controller_version controller_version_update non_empty_string,
        field base_issuer_id base_issuer_id_update non_empty_string,
        field path_issuer_id path_issuer_id_update non_empty_string] c) (\<lambda>c.
     bind_err (mk_promotion_config (pc_policy c)) (\<lambda>policy.
     bind_err (require_all
       [(base_issuer_id c \<in> set (trusted_base_issuers policy), ''base issuer is not trusted by the policy''),
        (path_issuer_id c \<in> set (trusted_path_issuers policy), ''path issuer is not trusted by the policy'')]) (\<lambda>_.
     Inr (c\<lparr>pc_policy := policy\<rparr>))))"

text \<open>Equality of configurations: sets of gates and dictionaries have no order.\<close>

definition same_policy :: "PromotionConfig \<Rightarrow> PromotionConfig \<Rightarrow> bool" where
  "same_policy a b \<longleftrightarrow>
     evaluation_epoch a = evaluation_epoch b \<and> set (gate_issuers_dict a) = set (gate_issuers_dict b) \<and>
     trusted_base_issuers a = trusted_base_issuers b \<and> trusted_reviewer_issuers a = trusted_reviewer_issuers b \<and>
     trusted_path_issuers a = trusted_path_issuers b \<and> rollback_issuer_ids a = rollback_issuer_ids b \<and>
     rollback_limit a = rollback_limit b \<and> set (reviewer_domains_dict a) = set (reviewer_domains_dict b) \<and>
     set (proposer_domains_dict a) = set (proposer_domains_dict b) \<and>
     set (candidate_proposers_dict a) = set (candidate_proposers_dict b) \<and>
     set (low_gates a) = set (low_gates b) \<and> set (ordinary_gates a) = set (ordinary_gates b)"

definition same_config :: "PromotionControllerConfig \<Rightarrow> PromotionControllerConfig \<Rightarrow> bool" where
  "same_config a b \<longleftrightarrow>
     controller_identity a = controller_identity b \<and> controller_version a = controller_version b \<and>
     base_issuer_id a = base_issuer_id b \<and> path_issuer_id a = path_issuer_id b \<and>
     same_policy (pc_policy a) (pc_policy b)"

section \<open>Snapshots, comparisons and provenance\<close>

record GitRefSnapshot =
  gs_repository_digest :: string
  gs_target_ref :: string
  gs_commit :: string
  gs_tree :: string
  gs_source_tree_digest :: string
  gs_protection_evidence_digest :: string

definition mk_snapshot :: "GitRefSnapshot \<Rightarrow> err + GitRefSnapshot" where
  "mk_snapshot g =
     bind_err (validate_fields
       [field gs_repository_digest gs_repository_digest_update sha256_digest,
        field gs_target_ref gs_target_ref_update non_empty_string,
        field gs_commit gs_commit_update any_string, field gs_tree gs_tree_update any_string] g) (\<lambda>g.
     bind_err (require_all (map git_object [gs_commit g, gs_tree g])) (\<lambda>_.
     validate_fields
       [field gs_source_tree_digest gs_source_tree_digest_update sha256_digest,
        field gs_protection_evidence_digest gs_protection_evidence_digest_update sha256_digest] g))"

record WorkspaceComparison =
  wc_target_ref :: string
  wc_base_digest :: string
  wc_candidate_digest :: string
  wc_changed_paths :: "string list"

definition sorted_paths :: "'a encoder_scheme \<Rightarrow> string list \<Rightarrow> err + string list" where
  "sorted_paths h ps =
     bind_err (require_all
       [(ps \<noteq> [] \<and> list_all (is_valid_promotion_path (plain h)) ps,
         ''changed paths must be normalized relative paths''),
        (distinct (map (casefold h) ps), ''changed paths must not contain case or Unicode collisions''),
        (ps = path_order h ps, ''changed paths must be sorted'')]) (\<lambda>_.
     Inr ps)"

definition mk_comparison :: "'a encoder_scheme \<Rightarrow> WorkspaceComparison \<Rightarrow> err + WorkspaceComparison" where
  "mk_comparison h w =
     bind_err (validate_fields
       [field wc_target_ref wc_target_ref_update non_empty_string,
        field wc_base_digest wc_base_digest_update sha256_digest,
        field wc_candidate_digest wc_candidate_digest_update sha256_digest] w) (\<lambda>w.
     bind_err (bind_err (map_err non_empty_string (wc_changed_paths w)) min_one) (\<lambda>ps.
     bind_err (sorted_paths h ps) (\<lambda>ps.
     Inr (w\<lparr>wc_changed_paths := ps\<rparr>))))"

record PromotionProvenanceBinding =
  pv_candidate_digest :: string
  pv_base_digest :: string
  source_provenance_digest :: string
  pv_request_digest :: string
  pv_controller_config_digest :: string
  pv_decision_digest :: string
  pv_path_manifest_digest :: string
  pv_evidence_manifest_digest :: string
  pv_verified :: bool

definition mk_provenance_binding :: "PromotionProvenanceBinding \<Rightarrow> err + PromotionProvenanceBinding" where
  "mk_provenance_binding =
     validate_fields
       [field pv_candidate_digest pv_candidate_digest_update sha256_digest,
        field pv_base_digest pv_base_digest_update sha256_digest,
        field source_provenance_digest source_provenance_digest_update sha256_digest,
        field pv_request_digest pv_request_digest_update sha256_digest,
        field pv_controller_config_digest pv_controller_config_digest_update sha256_digest,
        field pv_decision_digest pv_decision_digest_update sha256_digest,
        field pv_path_manifest_digest pv_path_manifest_digest_update sha256_digest,
        field pv_evidence_manifest_digest pv_evidence_manifest_digest_update sha256_digest]"

definition mk_promotion_decision :: "PromotionDecision \<Rightarrow> err + PromotionDecision" where
  "mk_promotion_decision d =
     bind_err (non_empty_string (pdn_candidate_id d)) (\<lambda>c.
     bind_err (bind_err (map_err non_empty_string (pdn_reason_codes d)) min_one) (\<lambda>reasons.
     bind_err (non_negative (required_quorum d)) (\<lambda>_.
     Inr (d\<lparr>pdn_candidate_id := c, pdn_reason_codes := reasons\<rparr>))))"

section \<open>Rollback authority\<close>

record RollbackPromotionBundleAuthorization =
  ra_operation_id :: string
  canary_operation_id :: string
  canary_package_digest :: string
  drill_authorization_id :: "string option"
  ra_repository_digest :: string
  main_before_commit :: string
  failed_integration_head_commit :: string
  failed_integration_head_tree :: string
  restore_to_commit :: string
  restore_to_tree :: string
  rollback_candidate_commit :: string
  rollback_candidate_tree :: string
  rollback_candidate_parent_commit :: string
  ra_candidate_digest :: string
  ra_source_tree_digest :: string
  restore_tree_digest :: string
  ra_publication_evidence_digest :: string
  ra_issuer_id :: string
  ra_reason :: string
  authorized :: bool
  authorization_id :: string

definition integration_ref :: string where
  "integration_ref = ''refs/heads/integration''"

definition rollback_payload :: "RollbackPromotionBundleAuthorization \<Rightarrow> dict" where
  "rollback_payload a =
     [(''schema_version'', JInt 1), (''operation_id'', JStr (ra_operation_id a)),
      (''canary_operation_id'', JStr (canary_operation_id a)),
      (''canary_package_digest'', JStr (canary_package_digest a)),
      (''drill_authorization_id'', opt_str (drill_authorization_id a)),
      (''repository_digest'', JStr (ra_repository_digest a)), (''target_ref'', JStr integration_ref),
      (''main_before_commit'', JStr (main_before_commit a)),
      (''failed_integration_head_commit'', JStr (failed_integration_head_commit a)),
      (''failed_integration_head_tree'', JStr (failed_integration_head_tree a)),
      (''restore_to_commit'', JStr (restore_to_commit a)), (''restore_to_tree'', JStr (restore_to_tree a)),
      (''rollback_candidate_commit'', JStr (rollback_candidate_commit a)),
      (''rollback_candidate_tree'', JStr (rollback_candidate_tree a)),
      (''rollback_candidate_parent_commit'', JStr (rollback_candidate_parent_commit a)),
      (''candidate_digest'', JStr (ra_candidate_digest a)), (''source_tree_digest'', JStr (ra_source_tree_digest a)),
      (''restore_tree_digest'', JStr (restore_tree_digest a)),
      (''publication_evidence_digest'', JStr (ra_publication_evidence_digest a)),
      (''issuer_id'', JStr (ra_issuer_id a)), (''reason'', JStr (ra_reason a)), (''authorized'', JBool (authorized a))]"

definition mk_rollback_authorization ::
  "'a encoder_scheme \<Rightarrow> RollbackPromotionBundleAuthorization \<Rightarrow> err + RollbackPromotionBundleAuthorization" where
  "mk_rollback_authorization h a =
     bind_err (validate_fields
       [field ra_operation_id ra_operation_id_update sha256_digest,
        field canary_operation_id canary_operation_id_update sha256_digest,
        field canary_package_digest canary_package_digest_update sha256_digest,
        opt_field drill_authorization_id drill_authorization_id_update sha256_digest,
        field ra_repository_digest ra_repository_digest_update sha256_digest,
        field main_before_commit main_before_commit_update any_string,
        field failed_integration_head_commit failed_integration_head_commit_update any_string,
        field failed_integration_head_tree failed_integration_head_tree_update any_string,
        field restore_to_commit restore_to_commit_update any_string,
        field restore_to_tree restore_to_tree_update any_string,
        field rollback_candidate_commit rollback_candidate_commit_update any_string,
        field rollback_candidate_tree rollback_candidate_tree_update any_string,
        field rollback_candidate_parent_commit rollback_candidate_parent_commit_update any_string,
        field ra_candidate_digest ra_candidate_digest_update sha256_digest,
        field ra_source_tree_digest ra_source_tree_digest_update sha256_digest,
        field restore_tree_digest restore_tree_digest_update sha256_digest,
        field ra_publication_evidence_digest ra_publication_evidence_digest_update sha256_digest,
        field ra_issuer_id ra_issuer_id_update non_empty_string, field ra_reason ra_reason_update non_empty_string,
        field authorization_id authorization_id_update sha256_digest] a) (\<lambda>a.
     bind_err (require_all
       (map git_object [main_before_commit a, failed_integration_head_commit a, failed_integration_head_tree a,
          restore_to_commit a, restore_to_tree a, rollback_candidate_commit a, rollback_candidate_tree a,
          rollback_candidate_parent_commit a] @
        [(authorized a, ''rollback promotion authorization must be authorized''),
         (canary_operation_id a \<noteq> ra_operation_id a, ''rollback canary operation must differ from rollback operation''),
         (rollback_candidate_parent_commit a = failed_integration_head_commit a,
          ''rollback candidate parent differs from failed integration head''),
         (rollback_candidate_tree a = restore_to_tree a, ''rollback candidate tree differs from restore tree''),
         (restore_tree_digest a = ra_candidate_digest a, ''restore tree digest differs from candidate digest''),
         (rollback_candidate_commit a \<notin> {failed_integration_head_commit a, restore_to_commit a},
          ''rollback candidate must be a new commit distinct from restore anchor'')])) (\<lambda>_.
     bind_err (digest_of h (JObj (rollback_payload a))) (\<lambda>expected.
     bind_err (require_all
       [(authorization_id a = expected, ''rollback promotion authorization digest mismatch'')]) (\<lambda>_.
     Inr a))))"

section \<open>The bundle\<close>

datatype operation_kind = Ordinary_campaign | Authorized_rollback

record PromotionBundle =
  bn_snapshot :: GitRefSnapshot
  bn_comparison :: WorkspaceComparison
  bn_request :: PromotionRequest
  bn_request_digest :: string
  bn_controller_config :: PromotionControllerConfig
  bn_controller_config_digest :: string
  bn_decision :: PromotionDecision
  bn_decision_digest :: string
  bn_provenance :: PromotionProvenanceBinding
  evidence_digests :: "string list"
  operation_kind :: "operation_kind option"
  rollback_operation_id :: "string option"
  rollback_authorization :: "RollbackPromotionBundleAuthorization option"

definition rollback_unbound :: "PromotionBundle \<Rightarrow> RollbackPromotionBundleAuthorization \<Rightarrow> bool" where
  "rollback_unbound b a =
     (let s = bn_snapshot b; q = bn_request b; es = evidence_digests b in
      rollback_operation_id b \<noteq> Some (ra_operation_id a) \<or> canary_operation_id a = ra_operation_id a \<or>
      ra_repository_digest a \<noteq> gs_repository_digest s \<or> integration_ref \<noteq> gs_target_ref s \<or>
      failed_integration_head_commit a \<noteq> gs_commit s \<or> failed_integration_head_tree a \<noteq> gs_tree s \<or>
      ra_source_tree_digest a \<noteq> gs_source_tree_digest s \<or> ra_source_tree_digest a \<noteq> pq_base_digest q \<or>
      ra_candidate_digest a \<noteq> pq_candidate_digest q \<or> restore_tree_digest a \<noteq> pq_candidate_digest q \<or>
      ra_publication_evidence_digest a \<noteq> source_provenance_digest (bn_provenance b) \<or>
      authorization_id a \<notin> set es \<or> canary_package_digest a \<notin> set es \<or>
      ra_publication_evidence_digest a \<notin> set es \<or>
      gate_attestations q \<noteq> [] \<or> reviewer_attestations q \<noteq> [] \<or> rollback_attestation q \<noteq> None \<or>
      pdn_outcome (bn_decision b) \<noteq> PO_ALLOW \<or> ''authorized_rollback'' \<notin> set (pdn_reason_codes (bn_decision b)))"

definition linked_digests_match ::
  "'a encoder_scheme \<Rightarrow> (string list \<Rightarrow> string) \<Rightarrow> PromotionBundle \<Rightarrow> err + PromotionBundle" where
  "linked_digests_match h json_digest b =
     (let s = bn_snapshot b; w = bn_comparison b; q = bn_request b; p = bn_provenance b;
          authority = rollback_authorization b; labelled = ''authorized_rollback'' \<in> set (pdn_reason_codes (bn_decision b));
          manifest = pa_path_manifest_digest (path_manifest_attestation q)
      in
      bind_err (require_all
       [(pq_candidate_digest q = wc_candidate_digest w, ''request and comparison candidate digests differ''),
        (pq_base_digest q = wc_base_digest w, ''request and comparison base digests differ''),
        (changed_paths q = wc_changed_paths w, ''request and comparison paths differ''),
        (wc_target_ref w = gs_target_ref s, ''comparison and snapshot refs differ''),
        (wc_base_digest w = gs_source_tree_digest s, ''comparison is not bound to the snapshot source tree''),
        (pv_candidate_digest p = pq_candidate_digest q, ''provenance candidate binding differs''),
        (pv_base_digest p = pq_base_digest q, ''provenance base binding differs''),
        (pv_request_digest p = bn_request_digest b, ''provenance request binding differs''),
        (pv_controller_config_digest p = bn_controller_config_digest b, ''provenance controller-config binding differs''),
        (pv_decision_digest p = bn_decision_digest b, ''provenance decision binding differs''),
        (pv_path_manifest_digest p = manifest, ''provenance path-manifest binding differs''),
        (manifest = path_manifest_digest (plain h) json_digest (changed_paths q),
         ''path manifest digest does not match changed paths''),
        (\<not> (operation_kind b = Some Ordinary_campaign \<and>
            (rollback_operation_id b \<noteq> None \<or> authority \<noteq> None \<or> labelled)),
         ''ordinary campaign cannot carry rollback authority''),
        (\<not> (operation_kind b = Some Authorized_rollback \<and>
            (authority = None \<or> rollback_operation_id b \<noteq> map_option ra_operation_id authority \<or> \<not> labelled)),
         ''authorized rollback kind is not bound to controller authority''),
        (\<not> (operation_kind b = None \<and> authority \<noteq> None), ''rollback authority requires an explicit operation kind''),
        (case authority of None \<Rightarrow> True | Some a \<Rightarrow> \<not> rollback_unbound b a,
         ''rollback authorization is not bound to this bundle'')]) (\<lambda>_.
      Inr b))"

definition mk_bundle ::
  "'a encoder_scheme \<Rightarrow> (string list \<Rightarrow> string) \<Rightarrow> PromotionBundle \<Rightarrow> err + PromotionBundle" where
  "mk_bundle h json_digest b =
     bind_err (mk_snapshot (bn_snapshot b)) (\<lambda>snapshot.
     bind_err (mk_comparison h (bn_comparison b)) (\<lambda>comparison.
     bind_err (mk_promotion_request (plain h) (bn_request b)) (\<lambda>request.
     bind_err (sha256_digest (bn_request_digest b)) (\<lambda>request_digest.
     bind_err (mk_controller_config (bn_controller_config b)) (\<lambda>config.
     bind_err (sha256_digest (bn_controller_config_digest b)) (\<lambda>config_digest.
     bind_err (mk_promotion_decision (bn_decision b)) (\<lambda>decided.
     bind_err (sha256_digest (bn_decision_digest b)) (\<lambda>decision_digest.
     bind_err (mk_provenance_binding (bn_provenance b)) (\<lambda>provenance.
     bind_err (bind_err (map_err sha256_digest (evidence_digests b)) min_one) (\<lambda>evidence.
     bind_err (require_all
       [(evidence = sort (remdups evidence), ''evidence digests must be sorted and unique'')]) (\<lambda>_.
     bind_err (case rollback_operation_id b of None \<Rightarrow> Inr None
         | Some x \<Rightarrow> bind_err (sha256_digest x) (\<lambda>x. Inr (Some x))) (\<lambda>rollback.
     bind_err (case rollback_authorization b of None \<Rightarrow> Inr None
         | Some a \<Rightarrow> bind_err (mk_rollback_authorization h a) (\<lambda>a. Inr (Some a))) (\<lambda>authority.
     linked_digests_match h json_digest
       \<lparr>bn_snapshot = snapshot, bn_comparison = comparison, bn_request = request, bn_request_digest = request_digest,
        bn_controller_config = config, bn_controller_config_digest = config_digest, bn_decision = decided,
        bn_decision_digest = decision_digest, bn_provenance = provenance, evidence_digests = evidence,
        operation_kind = operation_kind b, rollback_operation_id = rollback,
        rollback_authorization = authority\<rparr>)))))))))))))"

section \<open>The canonical payload\<close>

definition window_json :: "'a attestation_scheme \<Rightarrow> dict" where
  "window_json a =
     [(''candidate_digest'', JStr (at_candidate_digest a)), (''base_digest'', JStr (at_base_digest a)),
      (''evidence_digest'', JStr (at_evidence_digest a)), (''issuer_id'', JStr (at_issuer_id a)),
      (''valid_from_epoch'', JInt (at_valid_from_epoch a)), (''valid_until_epoch'', JInt (at_valid_until_epoch a))]"

definition gate_json :: "GateAttestation \<Rightarrow> jval" where
  "gate_json a = JObj ([(''gate_name'', JStr (gate_name a)), (''passed'', JBool (ga_passed a))] @ window_json a)"

definition reviewer_json :: "ReviewerAttestation \<Rightarrow> jval" where
  "reviewer_json a = JObj ([(''reviewer_id'', JStr (at_reviewer_id a)), (''approved'', JBool (approved a))] @ window_json a)"

definition rollback_json :: "RollbackAttestation \<Rightarrow> jval" where
  "rollback_json a =
     JObj ([(''rollback_count'', JInt (rollback_count a)), (''available'', JBool (available a))] @ window_json a)"

definition path_manifest_json :: "PathManifestAttestation \<Rightarrow> jval" where
  "path_manifest_json a = JObj ((''path_manifest_digest'', JStr (pa_path_manifest_digest a)) # window_json a)"

definition strings :: "string list \<Rightarrow> jval" where
  "strings xs = JList (map JStr xs)"

text \<open>\<open>gates\<close> and \<open>reviewers\<close> are the attestations in the order in which they are written.\<close>

definition request_json :: "PromotionRequest \<Rightarrow> jval list \<Rightarrow> jval list \<Rightarrow> jval" where
  "request_json q gates reviewers = JObj
     [(''schema_version'', JInt 1), (''candidate_id'', JStr (pq_candidate_id q)),
      (''proposer_id'', JStr (pq_proposer_id q)), (''candidate_digest'', JStr (pq_candidate_digest q)),
      (''base_digest'', JStr (pq_base_digest q)), (''changed_paths'', strings (changed_paths q)),
      (''path_manifest_attestation'', path_manifest_json (path_manifest_attestation q)),
      (''base_attestation'', gate_json (base_attestation q)), (''gate_attestations'', JList gates),
      (''reviewer_attestations'', JList reviewers),
      (''rollback_attestation'', case rollback_attestation q of None \<Rightarrow> JNull | Some r \<Rightarrow> rollback_json r),
      (''exception_requested'', JBool (exception_requested q))]"

definition request_dump :: "PromotionRequest \<Rightarrow> jval" where
  "request_dump q = request_json q (map gate_json (gate_attestations q)) (map reviewer_json (reviewer_attestations q))"

fun promotion_outcome_value :: "PromotionOutcome \<Rightarrow> string" where
  "promotion_outcome_value PO_ALLOW = ''allow''"
| "promotion_outcome_value PO_DENY = ''deny''"
| "promotion_outcome_value PO_QUARANTINE = ''quarantine''"
| "promotion_outcome_value PO_ESCALATE = ''escalate''"

definition decision_json :: "PromotionDecision \<Rightarrow> jval" where
  "decision_json d = JObj
     [(''schema_version'', JInt 1), (''candidate_id'', JStr (pdn_candidate_id d)),
      (''outcome'', JStr (promotion_outcome_value (pdn_outcome d))),
      (''risk_class'', JStr (risk_value (risk_class d))), (''reason_codes'', strings (pdn_reason_codes d)),
      (''required_quorum'', JInt (required_quorum d))]"

definition snapshot_json :: "GitRefSnapshot \<Rightarrow> jval" where
  "snapshot_json g = JObj
     [(''repository_digest'', JStr (gs_repository_digest g)), (''target_ref'', JStr (gs_target_ref g)),
      (''commit'', JStr (gs_commit g)), (''tree'', JStr (gs_tree g)),
      (''source_tree_digest'', JStr (gs_source_tree_digest g)),
      (''protection_evidence_digest'', JStr (gs_protection_evidence_digest g))]"

definition comparison_json :: "WorkspaceComparison \<Rightarrow> jval" where
  "comparison_json w = JObj
     [(''target_ref'', JStr (wc_target_ref w)), (''base_digest'', JStr (wc_base_digest w)),
      (''candidate_digest'', JStr (wc_candidate_digest w)), (''changed_paths'', strings (wc_changed_paths w))]"

definition provenance_json :: "PromotionProvenanceBinding \<Rightarrow> jval" where
  "provenance_json p = JObj
     [(''candidate_digest'', JStr (pv_candidate_digest p)), (''base_digest'', JStr (pv_base_digest p)),
      (''source_provenance_digest'', JStr (source_provenance_digest p)),
      (''request_digest'', JStr (pv_request_digest p)),
      (''controller_config_digest'', JStr (pv_controller_config_digest p)),
      (''decision_digest'', JStr (pv_decision_digest p)),
      (''path_manifest_digest'', JStr (pv_path_manifest_digest p)),
      (''evidence_manifest_digest'', JStr (pv_evidence_manifest_digest p)), (''verified'', JBool (pv_verified p))]"

definition promotion_policy_payload :: "PromotionControllerConfig \<Rightarrow> jval" where
  "promotion_policy_payload c =
     (let p = pc_policy c; texts = map (\<lambda>(k, v). (k, JStr v)) in JObj
      [(''controller_identity'', JStr (controller_identity c)), (''controller_version'', JStr (controller_version c)),
       (''base_issuer_id'', JStr (base_issuer_id c)), (''path_issuer_id'', JStr (path_issuer_id c)),
       (''policy'', JObj
         [(''evaluation_epoch'', JInt (evaluation_epoch p)),
          (''trusted_gate_issuers'', JObj (map (\<lambda>(k, is). (k, strings (sort is))) (gate_issuers_dict p))),
          (''trusted_base_issuers'', strings (sort (trusted_base_issuers p))),
          (''trusted_reviewer_issuers'', strings (sort (trusted_reviewer_issuers p))),
          (''trusted_path_issuers'', strings (sort (trusted_path_issuers p))),
          (''rollback_issuer_ids'', strings (sort (rollback_issuer_ids p))),
          (''rollback_limit'', JInt (rollback_limit p)),
          (''reviewer_domains'', JObj (texts (reviewer_domains_dict p))),
          (''proposer_domains'', JObj (texts (proposer_domains_dict p))),
          (''candidate_proposers'', JObj (texts (candidate_proposers_dict p))),
          (''low_gates'', strings (sort (remdups (low_gates p)))),
          (''ordinary_gates'', strings (sort (remdups (ordinary_gates p))))])])"

text \<open>\<open>sorted(values, key=canonical_bytes)\<close>.\<close>

definition sort_values :: "'a encoder_scheme \<Rightarrow> jval list \<Rightarrow> err + jval list" where
  "sort_values h vs =
     bind_err (map_err (\<lambda>v. bind_err (canonical_bytes h v) (\<lambda>b. Inr (b, v))) vs) (\<lambda>ps.
     Inr (map snd (sort_key fst ps)))"

fun kind_value :: "operation_kind \<Rightarrow> string" where
  "kind_value Ordinary_campaign = ''ordinary_campaign''"
| "kind_value Authorized_rollback = ''authorized_rollback''"

definition promotion_bundle_payload :: "'a encoder_scheme \<Rightarrow> PromotionBundle \<Rightarrow> err + jval" where
  "promotion_bundle_payload h b =
     bind_err (sort_values h (map gate_json (gate_attestations (bn_request b)))) (\<lambda>gates.
     bind_err (sort_values h (map reviewer_json (reviewer_attestations (bn_request b)))) (\<lambda>reviewers.
     Inr (JObj
       ([(''schema_version'', JInt 1), (''format'', JStr ''avo-promotion-bundle-v1''),
         (''snapshot'', snapshot_json (bn_snapshot b)), (''comparison'', comparison_json (bn_comparison b)),
         (''request'', request_json (bn_request b) gates reviewers), (''request_digest'', JStr (bn_request_digest b)),
         (''controller_config'', promotion_policy_payload (bn_controller_config b)),
         (''controller_config_digest'', JStr (bn_controller_config_digest b)),
         (''decision'', decision_json (bn_decision b)), (''decision_digest'', JStr (bn_decision_digest b)),
         (''provenance'', provenance_json (bn_provenance b)),
         (''evidence_digests'', strings (sort (evidence_digests b))),
         (''operation_kind'', opt_str (map_option kind_value (operation_kind b)))] @
        (case rollback_operation_id b of None \<Rightarrow> [] | Some x \<Rightarrow> [(''rollback_operation_id'', JStr x)]) @
        (case rollback_authorization b of None \<Rightarrow> []
         | Some a \<Rightarrow> [(''rollback_authorization'',
             JObj (rollback_payload a @ [(''authorization_id'', JStr (authorization_id a))]))])))))"

definition promotion_bundle_digest :: "'a encoder_scheme \<Rightarrow> PromotionBundle \<Rightarrow> err + string" where
  "promotion_bundle_digest h b = bind_err (promotion_bundle_payload h b) (digest_of h)"

section \<open>The controller\<close>

text \<open>What a verifier gives back: a truth value, or an object with an attribute \<open>verified\<close> or without.\<close>

datatype verifier_result = Flag bool | Attribute "bool option"

fun verified_by :: "verifier_result \<Rightarrow> bool" where
  "verified_by (Flag b) = b"
| "verified_by (Attribute v) = (v = Some True)"

record controller =
  trusted_config :: PromotionControllerConfig
  provenance_verifier :: "string \<Rightarrow> string \<Rightarrow> string \<Rightarrow> err + verifier_result"
  evidence_verifier :: "string \<Rightarrow> string \<Rightarrow> string \<Rightarrow> string \<Rightarrow> err + verifier_result"
  repository_snapshot :: "nat \<Rightarrow> err + GitRefSnapshot"
  require_authority :: "RollbackPromotionBundleAuthorization \<Rightarrow> err + unit"
  paths_digest :: "string list \<Rightarrow> string"

definition provenance_verified :: "controller \<Rightarrow> string \<Rightarrow> string \<Rightarrow> string \<Rightarrow> err + bool" where
  "provenance_verified c digest candidate base =
     bind_err (provenance_verifier c digest candidate base) (\<lambda>v. Inr (verified_by v))"

definition evidence_verified :: "controller \<Rightarrow> string \<Rightarrow> string \<Rightarrow> string \<Rightarrow> string \<Rightarrow> err + bool" where
  "evidence_verified c digest issuer candidate base =
     bind_err (evidence_verifier c digest issuer candidate base) (\<lambda>v. Inr (verified_by v))"

fun all_evidence_verified :: "controller \<Rightarrow> string \<Rightarrow> string \<Rightarrow> (string \<times> string) list \<Rightarrow> err + bool" where
  "all_evidence_verified c candidate base [] = Inr True"
| "all_evidence_verified c candidate base ((digest, issuer) # xs) =
     bind_err (evidence_verified c digest issuer candidate base) (\<lambda>ok.
     if ok then all_evidence_verified c candidate base xs else Inr False)"

definition path_evidence_digest :: "'a encoder_scheme \<Rightarrow> (string list \<Rightarrow> string) \<Rightarrow> string \<Rightarrow> string \<Rightarrow> string list \<Rightarrow> err + string" where
  "path_evidence_digest h json_digest candidate base ps =
     digest_of h (JObj [(''candidate_digest'', JStr candidate), (''base_digest'', JStr base),
       (''path_manifest_digest'', JStr (path_manifest_digest (plain h) json_digest ps))])"

definition base_evidence_digest :: "'a encoder_scheme \<Rightarrow> GitRefSnapshot \<Rightarrow> string \<Rightarrow> err + string" where
  "base_evidence_digest h snapshot candidate =
     digest_of h (JObj [(''candidate_digest'', JStr candidate), (''snapshot'', snapshot_json snapshot)])"

fun join_comma :: "string list \<Rightarrow> string" where
  "join_comma [] = []"
| "join_comma [x] = x"
| "join_comma (x # xs) = x @ '','' @ join_comma xs"

definition validate_gate_scope ::
  "'a encoder_scheme \<Rightarrow> PromotionRequest \<Rightarrow> PromotionControllerConfig \<Rightarrow> err + unit" where
  "validate_gate_scope h q c =
     bind_err (derive_risk (plain h) (changed_paths q)) (\<lambda>risk.
       let unexpected = sort (remdups (filter (\<lambda>g. g \<notin> set (required_gates risk (pc_policy c)))
         (map gate_name (gate_attestations q))))
       in if unexpected \<noteq> [] then Inl (ValueError (''unexpected gate evidence: '' @ join_comma unexpected)) else Inr ())"

section \<open>Replay\<close>

datatype replay_outcome = Would_apply | Replay_not_applicable | Replay_stale_base | Invalid_bundle

record PromotionReplayReport =
  ry_bundle_digest :: string
  ry_outcome :: replay_outcome
  ry_checks :: "string list"
  ry_errors :: "string list"

definition mk_replay_report :: "string \<Rightarrow> replay_outcome \<Rightarrow> string list \<Rightarrow> string list \<Rightarrow> err + PromotionReplayReport" where
  "mk_replay_report digest outcome checks errors =
     bind_err (sha256_digest digest) (\<lambda>d.
     bind_err (bind_err (map_err non_empty_string checks) min_one) (\<lambda>checks.
     bind_err (map_err non_empty_string errors) (\<lambda>errors.
     Inr \<lparr>ry_bundle_digest = d, ry_outcome = outcome, ry_checks = checks, ry_errors = errors\<rparr>)))"

text \<open>Up to the digest of the bundle, which is the first check on the report.\<close>

definition replay_identity :: "'a encoder_scheme \<Rightarrow> controller \<Rightarrow> PromotionBundle \<Rightarrow> string \<Rightarrow> err + PromotionBundle" where
  "replay_identity h c bundle bundle_digest =
     bind_err (mk_bundle h (paths_digest c) bundle) (\<lambda>b.
     let authority = rollback_authorization b; labelled = ''authorized_rollback'' \<in> set (pdn_reason_codes (bn_decision b)) in
     bind_err (require_all
       [(operation_kind b \<noteq> None, ''bundle operation kind is missing''),
        (\<not> (operation_kind b = Some Ordinary_campaign \<and>
            (authority \<noteq> None \<or> rollback_operation_id b \<noteq> None \<or> labelled)),
         ''ordinary bundle carries rollback authority''),
        (\<not> (operation_kind b = Some Authorized_rollback \<and>
            (authority = None \<or> rollback_operation_id b \<noteq> map_option ra_operation_id authority \<or> \<not> labelled)),
         ''legacy rollback bundles require controller authorization'')]) (\<lambda>_.
     bind_err (promotion_bundle_digest h b) (\<lambda>expected.
     bind_err (require_all [(expected = bundle_digest, ''bundle digest mismatch'')]) (\<lambda>_.
     Inr b))))"

definition attested_evidence :: "PromotionRequest \<Rightarrow> (string \<times> string) list" where
  "attested_evidence q =
     map (\<lambda>a. (at_evidence_digest a, at_issuer_id a)) (gate_attestations q) @
     map (\<lambda>a. (at_evidence_digest a, at_issuer_id a)) (reviewer_attestations q) @
     (case rollback_attestation q of None \<Rightarrow> [] | Some a \<Rightarrow> [(at_evidence_digest a, at_issuer_id a)])"

definition expected_evidence :: "PromotionBundle \<Rightarrow> string \<Rightarrow> string \<Rightarrow> string list" where
  "expected_evidence b base_evidence path_evidence =
     [source_provenance_digest (bn_provenance b), gs_protection_evidence_digest (bn_snapshot b), base_evidence,
      path_evidence] @ map fst (attested_evidence (bn_request b)) @
     (case rollback_authorization b of None \<Rightarrow> [] | Some a \<Rightarrow> [authorization_id a, canary_package_digest a])"

definition replay_evidence :: "'a encoder_scheme \<Rightarrow> controller \<Rightarrow> PromotionBundle \<Rightarrow> err + unit" where
  "replay_evidence h c b =
     (let q = bn_request b; w = bn_comparison b; p = bn_provenance b; s = bn_snapshot b;
          candidate = pq_candidate_digest q; base = pq_base_digest q; json_digest = paths_digest c;
          manifest = path_manifest_attestation q
      in
      bind_err (digest_of h (request_dump q)) (\<lambda>request_digest.
      bind_err (require_all [(bn_request_digest b = request_digest, ''request digest mismatch'')]) (\<lambda>_.
      bind_err (digest_of h (promotion_policy_payload (bn_controller_config b))) (\<lambda>config_digest.
      bind_err (require_all
        [(bn_controller_config_digest b = config_digest, ''controller config digest mismatch''),
         (same_config (bn_controller_config b) (trusted_config c),
          ''bundle uses a policy configuration outside this controller'')]) (\<lambda>_.
      bind_err (digest_of h (decision_json (bn_decision b))) (\<lambda>decision_digest.
      bind_err (require_all
        [(bn_decision_digest b = decision_digest, ''decision digest mismatch''),
         (candidate = wc_candidate_digest w, ''candidate binding mismatch''),
         (base = wc_base_digest w, ''base binding mismatch''),
         (wc_base_digest w = gs_source_tree_digest s, ''snapshot source-tree binding mismatch'')]) (\<lambda>_.
      bind_err (base_evidence_digest h s candidate) (\<lambda>base_evidence.
      bind_err (require_all
        [(at_evidence_digest (base_attestation q) = base_evidence, ''trusted-base evidence binding mismatch''),
         (gate_name (base_attestation q) = ''base'' \<and> ga_passed (base_attestation q),
          ''trusted-base attestation is not a passing base result''),
         (pa_path_manifest_digest manifest = path_manifest_digest (plain h) json_digest (wc_changed_paths w),
          ''path manifest binding mismatch'')]) (\<lambda>_.
      bind_err (path_evidence_digest h json_digest candidate base (wc_changed_paths w)) (\<lambda>path_evidence.
      bind_err (require_all
        [(at_evidence_digest manifest = path_evidence, ''path evidence binding mismatch''),
         (source_provenance_digest p \<in> set (evidence_digests b), ''provenance evidence is not listed''),
         (pv_verified p, ''provenance binding is not verified''),
         (set (evidence_digests b) = set (expected_evidence b base_evidence path_evidence),
          ''bundle evidence manifest differs from referenced evidence'')]) (\<lambda>_.
      bind_err (digest_of h (strings (evidence_digests b))) (\<lambda>evidence_digest.
      bind_err (require_all [(pv_evidence_manifest_digest p = evidence_digest, ''evidence manifest digest mismatch'')]) (\<lambda>_.
      bind_err (provenance_verified c (source_provenance_digest p) candidate base) (\<lambda>proven.
      bind_err (require_all [(proven, ''provenance verification failed'')]) (\<lambda>_.
      bind_err (all_evidence_verified c candidate base
        (attested_evidence q @ [(gs_protection_evidence_digest s, base_issuer_id (bn_controller_config b))])) (\<lambda>attested.
      require_all [(attested, ''attestation evidence verification failed'')]))))))))))))))))"

definition replay_cas ::
  "controller \<Rightarrow> nat \<Rightarrow> PromotionBundle \<Rightarrow> string \<Rightarrow> string list \<Rightarrow> err + PromotionReplayReport" where
  "replay_cas c n b bundle_digest checks =
     bind_err (repository_snapshot c n) (\<lambda>current.
     if current \<noteq> bn_snapshot b
     then mk_replay_report bundle_digest Replay_stale_base (checks @ [''cas_precondition'']) [''cas_precondition_mismatch'']
     else mk_replay_report bundle_digest Would_apply (checks @ [''cas_precondition'']) [])"

definition replay_authority :: "'a encoder_scheme \<Rightarrow> controller \<Rightarrow> PromotionBundle \<Rightarrow> RollbackPromotionBundleAuthorization \<Rightarrow> err + unit" where
  "replay_authority h c b a =
     bind_err (digest_of h (JObj (rollback_payload a))) (\<lambda>expected.
     bind_err (require_all
       [(ra_issuer_id a \<in> set (rollback_issuer_ids (pc_policy (bn_controller_config b))) \<and>
         ra_publication_evidence_digest a = source_provenance_digest (bn_provenance b) \<and> authorization_id a = expected,
         ''rollback authorization issuer or digest is invalid'')]) (\<lambda>_.
     require_authority c a))"

definition replay_classification :: "'a encoder_scheme \<Rightarrow> controller \<Rightarrow> PromotionBundle \<Rightarrow> err + PromotionDecision" where
  "replay_classification h c b =
     bind_err (classify (plain h) (paths_digest c) (bn_request b) (pc_policy (bn_controller_config b))) (\<lambda>decided.
     bind_err (validate_gate_scope h (bn_request b) (bn_controller_config b)) (\<lambda>_.
     bind_err (require_all [(decided = bn_decision b, ''classification replay differs'')]) (\<lambda>_.
     Inr decided)))"

text \<open>\<open>except (ValueError, TypeError, KeyError)\<close> around all of it, with the checks passed so far.\<close>

fun is_key_error :: "err \<Rightarrow> bool" where
  "is_key_error (KeyError _) = True"
| "is_key_error _ = False"

definition rejecting ::
  "string \<Rightarrow> string list \<Rightarrow> err + 'a \<Rightarrow> ('a \<Rightarrow> err + PromotionReplayReport) \<Rightarrow> err + PromotionReplayReport" where
  "rejecting bundle_digest checks r f =
     (case r of
        Inr v \<Rightarrow> f v
      | Inl x \<Rightarrow>
          if is_value_error x \<or> is_type_error x \<or> is_key_error x
          then mk_replay_report bundle_digest Invalid_bundle (if checks = [] then [''bundle_parse''] else checks) [err_text x]
          else Inl x)"

definition replay ::
  "'a encoder_scheme \<Rightarrow> controller \<Rightarrow> nat \<Rightarrow> PromotionBundle \<Rightarrow> string \<Rightarrow> err + PromotionReplayReport" where
  "replay h c n bundle bundle_digest =
     rejecting bundle_digest [] (replay_identity h c bundle bundle_digest) (\<lambda>b.
     rejecting bundle_digest [''bundle_digest''] (replay_evidence h c b) (\<lambda>_.
     let checks = [''bundle_digest'', ''controller_config'', ''decision'', ''provenance''] in
     case rollback_authorization b of
       Some a \<Rightarrow>
         rejecting bundle_digest checks (replay_authority h c b a) (\<lambda>_.
         let checks = checks @ [''rollback_authorization''] in
         rejecting bundle_digest checks (replay_cas c n b bundle_digest checks) Inr)
     | None \<Rightarrow>
         rejecting bundle_digest checks (replay_classification h c b) (\<lambda>decided.
         let checks = checks @ [''classification''] in
         rejecting bundle_digest checks
           (if pdn_outcome decided \<noteq> PO_ALLOW
            then mk_replay_report bundle_digest Replay_not_applicable (checks @ [''cas_not_applicable''])
              [''promotion_outcome:'' @ promotion_outcome_value (pdn_outcome decided)]
            else replay_cas c n b bundle_digest checks) Inr)))"

section \<open>What a replay accepts\<close>

lemma rejecting_accepts:
  assumes "rejecting d checks r f = Inr rep" and "ry_outcome rep = Would_apply"
  shows "\<exists>v. r = Inr v \<and> f v = Inr rep"
  using assms
  by (auto simp: rejecting_def mk_replay_report_def bind_err_eq_Inr split: sum.splits if_splits)

lemma replay_cas_accepts:
  assumes "replay_cas c n b d checks = Inr rep" and "ry_outcome rep = Would_apply"
  shows "repository_snapshot c n = Inr (bn_snapshot b)"
  using assms by (auto simp: replay_cas_def mk_replay_report_def bind_err_eq_Inr split: if_splits)

lemma replay_identity_Inr:
  assumes "replay_identity h c bundle d = Inr b"
  shows "mk_bundle h (paths_digest c) bundle = Inr b \<and> promotion_bundle_digest h b = Inr d \<and>
    (operation_kind b = Some Authorized_rollback \<longleftrightarrow> rollback_authorization b \<noteq> None)"
proof -
  have made: "mk_bundle h (paths_digest c) bundle = Inr b" "promotion_bundle_digest h b = Inr d"
    and kind: "operation_kind b \<noteq> None" "operation_kind b = Some Ordinary_campaign \<Longrightarrow> rollback_authorization b = None"
      "operation_kind b = Some Authorized_rollback \<Longrightarrow> rollback_authorization b \<noteq> None"
    using assms by (auto simp: replay_identity_def Let_def bind_err_eq_Inr require_all_Inr)
  moreover from kind(1) obtain k where "operation_kind b = Some k" by blast
  ultimately show ?thesis by (cases k) auto
qed

lemma all_evidence_verified_True:
  "all_evidence_verified c candidate base xs = Inr True \<longleftrightarrow>
     (\<forall>(d, i)\<in>set xs. evidence_verified c d i candidate base = Inr True)"
  by (induction xs rule: all_evidence_verified.induct) (auto simp: bind_err_eq_Inr)

text \<open>Every piece of evidence a bundle refers to is listed, and the verifiers stand by it.\<close>

definition evidence_stands :: "controller \<Rightarrow> PromotionBundle \<Rightarrow> bool" where
  "evidence_stands c b \<longleftrightarrow>
     (let q = bn_request b; p = bn_provenance b; cd = pq_candidate_digest q; bd = pq_base_digest q in
      source_provenance_digest p \<in> set (evidence_digests b) \<and>
      provenance_verified c (source_provenance_digest p) cd bd = Inr True \<and>
      (\<forall>(d, i)\<in>set (attested_evidence q). d \<in> set (evidence_digests b) \<and> evidence_verified c d i cd bd = Inr True) \<and>
      evidence_verified c (gs_protection_evidence_digest (bn_snapshot b)) (base_issuer_id (bn_controller_config b)) cd bd =
        Inr True)"

lemma replay_evidence_Inr:
  assumes "replay_evidence h c b = Inr u"
  shows "same_config (bn_controller_config b) (trusted_config c)" and "evidence_stands c b"
proof -
  let ?q = "bn_request b" and ?p = "bn_provenance b" and ?s = "bn_snapshot b"
  obtain be pe where listed: "set (evidence_digests b) = set (expected_evidence b be pe)"
    and proven: "provenance_verified c (source_provenance_digest ?p) (pq_candidate_digest ?q) (pq_base_digest ?q) = Inr True"
    and attested: "all_evidence_verified c (pq_candidate_digest ?q) (pq_base_digest ?q)
      (attested_evidence ?q @ [(gs_protection_evidence_digest ?s, base_issuer_id (bn_controller_config b))]) = Inr True"
    and same: "same_config (bn_controller_config b) (trusted_config c)"
    using assms by (auto simp: replay_evidence_def Let_def bind_err_eq_Inr require_all_Inr)
  have "fst ` set (attested_evidence ?q) \<subseteq> set (evidence_digests b)" "source_provenance_digest ?p \<in> set (evidence_digests b)"
    using listed by (auto simp: expected_evidence_def)
  then show "evidence_stands c b"
    using proven attested by (auto simp: evidence_stands_def Let_def all_evidence_verified_True)
  show "same_config (bn_controller_config b) (trusted_config c)" by (rule same)
qed

text \<open>
  C14. A replay that would apply a bundle found the bundle valid and identical to the one its
  digest names, under the controller's own configuration, with all its evidence listed and
  verified, taken against the current state of the repository; and it found either a decision
  of the policy, computed again, that allows the promotion, or a rollback authority of a trusted
  issuer that is on record.
\<close>

theorem replay_accepts:
  assumes "replay h c n bundle d = Inr rep" and "ry_outcome rep = Would_apply"
  shows "\<exists>b. mk_bundle h (paths_digest c) bundle = Inr b \<and> promotion_bundle_digest h b = Inr d \<and>
    same_config (bn_controller_config b) (trusted_config c) \<and> evidence_stands c b \<and>
    repository_snapshot c n = Inr (bn_snapshot b) \<and>
    (case rollback_authorization b of
       None \<Rightarrow> pdn_outcome (bn_decision b) = PO_ALLOW \<and>
         classify (plain h) (paths_digest c) (bn_request b) (pc_policy (bn_controller_config b)) = Inr (bn_decision b)
     | Some a \<Rightarrow> operation_kind b = Some Authorized_rollback \<and> require_authority c a = Inr () \<and>
         ra_issuer_id a \<in> set (rollback_issuer_ids (pc_policy (bn_controller_config b))))"
proof -
  obtain b where identity: "replay_identity h c bundle d = Inr b" and evidence: "replay_evidence h c b = Inr ()"
    and rest: "case rollback_authorization b of
       Some a \<Rightarrow> replay_authority h c b a = Inr () \<and> (\<exists>checks. replay_cas c n b d checks = Inr rep)
     | None \<Rightarrow> \<exists>decided. replay_classification h c b = Inr decided \<and> pdn_outcome decided = PO_ALLOW \<and>
         (\<exists>checks. replay_cas c n b d checks = Inr rep)"
    using assms
    by (fastforce simp: replay_def Let_def mk_replay_report_def bind_err_eq_Inr split: option.splits if_splits
        dest!: rejecting_accepts)
  have "repository_snapshot c n = Inr (bn_snapshot b)"
    using rest assms(2) by (auto split: option.splits dest: replay_cas_accepts)
  moreover have "case rollback_authorization b of
       None \<Rightarrow> pdn_outcome (bn_decision b) = PO_ALLOW \<and>
         classify (plain h) (paths_digest c) (bn_request b) (pc_policy (bn_controller_config b)) = Inr (bn_decision b)
     | Some a \<Rightarrow> operation_kind b = Some Authorized_rollback \<and> require_authority c a = Inr () \<and>
         ra_issuer_id a \<in> set (rollback_issuer_ids (pc_policy (bn_controller_config b)))"
    using rest replay_identity_Inr [OF identity]
    by (auto simp: replay_classification_def replay_authority_def bind_err_eq_Inr require_all_Inr split: option.splits)
  ultimately show ?thesis
    using replay_identity_Inr [OF identity] replay_evidence_Inr [OF evidence] by blast
qed

end
