(* ===== verification/IntegrationPromotion.thy ===== *)
theory IntegrationPromotion
  imports PromotionBundles
begin

text \<open>
  Promotion of a candidate into the protected integration branch
  (application/integration_promotion_service.py): the intent is made durable under a lease before
  the provider is asked to merge, the answer is reconciled once, and a receipt ends the
  operation; every later call for the operation reads what was recorded. The hosted provider is a
  parameter. Its \<open>merge\<close> may call back: \<open>lease_guard\<close> and \<open>mutation_authorize\<close> are written as a
  conversation that the provider conducts and ends with a result or an exception; it is told
  whether a call back raised.
\<close>

section \<open>The provider and the service\<close>

datatype merge_talk =
    Answer "err + IntegrationMergeResult"
  | Guard "err option \<Rightarrow> merge_talk"
  | Authorize "err option \<Rightarrow> merge_talk"

record provider =
  observe_pull :: "IntegrationPromotionIntent \<Rightarrow> nat \<Rightarrow> err + IntegrationProviderObservation"
  merge_pull :: "IntegrationPromotionIntent \<Rightarrow> nat \<Rightarrow> merge_talk"
  reconcile_pull :: "IntegrationPromotionIntent \<Rightarrow> nat \<Rightarrow> err + IntegrationProviderReconciliation"

record service =
  svc_controller :: controller
  svc_provider :: provider
  publication_verifier :: "CandidatePublicationBinding \<Rightarrow> PromotionBundle \<Rightarrow> err + bool"
  svc_lease_seconds :: int
  svc_clock :: "nat \<Rightarrow> py_datetime"

definition mk_service :: "service \<Rightarrow> err + service" where
  "mk_service s =
     (if svc_lease_seconds s \<le> 0 then Inl (ValueError ''lease_seconds must be positive'') else Inr s)"

section \<open>Bindings\<close>

definition assert_publication_binding :: "CandidatePublicationBinding \<Rightarrow> PromotionBundle \<Rightarrow> err + unit" where
  "assert_publication_binding p b = require_all
     [(cpb_repository_digest p = gs_repository_digest (bn_snapshot b) \<and>
       cpb_base_commit p = gs_commit (bn_snapshot b) \<and> cpb_base_tree p = gs_tree (bn_snapshot b) \<and>
       cpb_candidate_digest p = pq_candidate_digest (bn_request b) \<and>
       cpb_publication_evidence_digest p = source_provenance_digest (bn_provenance b) \<and>
       \<not> (rollback_authorization b = None \<and>
          controller_publisher_identity p \<noteq> controller_identity (bn_controller_config b)) \<and>
       cpb_publication_evidence_digest p \<in> set (evidence_digests b),
       ''candidate publication does not match bundle provenance'')]"

definition assert_publication_intent_binding :: "CandidatePublicationBinding \<Rightarrow> IntegrationPromotionIntent \<Rightarrow> err + unit" where
  "assert_publication_intent_binding p i = require_all
     [(cpb_repository_digest p = pi_repository_digest i \<and> cpb_base_commit p = pi_base_commit i \<and>
       cpb_base_tree p = pi_base_tree i \<and> cpb_candidate_digest p = pi_candidate_digest i \<and>
       cpb_candidate_ref p = pi_candidate_ref i \<and> cpb_candidate_commit p = pi_candidate_commit i \<and>
       cpb_candidate_tree p = pi_candidate_tree i \<and>
       cpb_publication_evidence_digest p = pi_publication_evidence_digest i,
       ''candidate publication does not match intent'')]"

definition assert_intent_binding_without_lease ::
  "IntegrationPromotionIntent \<Rightarrow> PromotionBundle \<Rightarrow> string \<Rightarrow> string \<Rightarrow> err + unit" where
  "assert_intent_binding_without_lease i b bundle_digest operation_id = require_all
     [(pi_operation_id i = operation_id \<and> pi_repository_digest i = gs_repository_digest (bn_snapshot b) \<and>
       pi_target_ref i = gs_target_ref (bn_snapshot b), ''intent identity does not match operation or lease scope''),
      (pi_bundle_digest i = bundle_digest \<and> pi_candidate_digest i = pq_candidate_digest (bn_request b),
       ''intent and bundle differ''),
      (pi_base_commit i = gs_commit (bn_snapshot b) \<and> pi_base_tree i = gs_tree (bn_snapshot b) \<and>
       pi_protection_evidence_digest i = gs_protection_evidence_digest (bn_snapshot b) \<and>
       pi_controller_config_digest i = bn_controller_config_digest b \<and>
       pi_evidence_manifest_digest i = pv_evidence_manifest_digest (bn_provenance b) \<and>
       pi_publication_evidence_digest i = source_provenance_digest (bn_provenance b),
       ''intent binding differs from bundle snapshot or evidence'')]"

definition assert_intent_binding ::
  "IntegrationPromotionIntent \<Rightarrow> PromotionBundle \<Rightarrow> string \<Rightarrow> string \<Rightarrow> PromotionLease \<Rightarrow> err + unit" where
  "assert_intent_binding i b bundle_digest operation_id lease =
     bind_err (assert_intent_binding_without_lease i b bundle_digest operation_id) (\<lambda>_.
     require_all
       [(controller_lease_identity i = pl_identity lease \<and> controller_lease_digest i = pl_digest lease,
         ''intent lease binding differs from acquired lease'')])"

definition assert_lease_evidence :: "host \<Rightarrow> string \<Rightarrow> PromotionLease \<Rightarrow> unit action" where
  "assert_lease_evidence h operation_id lease =
     chain (read_lease_evidence h operation_id) (\<lambda>loaded.
     case loaded of
       None \<Rightarrow> fail (ValueError ''promotion lease evidence is missing'')
     | Some (e, _) \<Rightarrow> lift (require_all
         [(le_operation_id e = operation_id \<and> le_identity e = pl_identity lease \<and> le_digest e = pl_digest lease,
           ''promotion lease evidence does not bind to acquired lease'')]))"

definition assert_durable_lease_evidence :: "host \<Rightarrow> IntegrationPromotionIntent \<Rightarrow> unit action" where
  "assert_durable_lease_evidence h i =
     chain (read_lease_evidence h (pi_operation_id i)) (\<lambda>loaded.
     case loaded of
       None \<Rightarrow> fail (ValueError ''promotion lease evidence is missing for durable intent'')
     | Some (e, _) \<Rightarrow> lift (require_all
         [(le_operation_id e = pi_operation_id i \<and> le_repository_digest e = pi_repository_digest i \<and>
           le_target_ref e = pi_target_ref i \<and> le_identity e = controller_lease_identity i \<and>
           le_digest e = controller_lease_digest i,
           ''durable intent lease binding differs from lease evidence'')]))"

definition assert_mutation_authorization ::
  "host \<Rightarrow> IntegrationPromotionIntent \<Rightarrow> PromotionMutationAuthorization \<Rightarrow> err + unit" where
  "assert_mutation_authorization h i a =
     bind_err (intent_digest_of h i) (\<lambda>digest. require_all
       [(ma_operation_id a = pi_operation_id i \<and> ma_intent_digest a = digest \<and>
         ma_lease_identity a = controller_lease_identity i \<and> ma_lease_digest a = controller_lease_digest i,
         ''mutation authorization does not bind to durable intent'')])"

definition assert_receipt_binding :: "host \<Rightarrow> IntegrationPromotionReceipt \<Rightarrow> IntegrationPromotionIntent \<Rightarrow> err + unit" where
  "assert_receipt_binding h r i =
     bind_err (intent_digest_of h i) (\<lambda>digest. require_all
       [(rc_intent_digest r = digest, ''receipt intent digest does not match durable intent''),
        (rc_operation_id r = pi_operation_id i \<and> rc_bundle_digest r = pi_bundle_digest i \<and>
         expected_target_ref r = pi_target_ref i \<and> expected_candidate_commit r = pi_candidate_commit i \<and>
         expected_candidate_tree r = pi_candidate_tree i \<and> expected_base_commit r = pi_base_commit i \<and>
         expected_main_commit r = pi_expected_main_commit i \<and>
         expected_protection_evidence_digest r = pi_protection_evidence_digest i \<and>
         expected_provider_identity r = pi_provider_identity i \<and>
         expected_provider_api_version r = pi_provider_api_version i \<and> observed_target_ref r = pi_target_ref i \<and>
         observed_base_commit r = pi_base_commit i \<and>
         observed_protection_evidence_digest r = pi_protection_evidence_digest i \<and>
         observed_provider_identity r = pi_provider_identity i \<and>
         observed_provider_api_version r = pi_provider_api_version i,
         ''receipt binding differs from durable intent''),
        (\<not> (success (rc_outcome r) \<and> observed_head_tree r \<noteq> Some (pi_candidate_tree i)),
         ''receipt candidate tree differs from durable intent'')])"

definition mismatch :: "string \<Rightarrow> string \<Rightarrow> string" where
  "mismatch kind name = kind @ '' binding mismatch: '' @ name"

definition assert_observation :: "IntegrationPromotionIntent \<Rightarrow> IntegrationProviderObservation \<Rightarrow> err + unit" where
  "assert_observation i p = require_all (map (\<lambda>(ok, name). (ok, mismatch ''provider'' name))
     [(po_repository_digest p = pi_repository_digest i, ''repository_digest''),
      (po_pull_request_number p = pi_pull_request_number i, ''pull_request_number''),
      (po_pull_request_url p = pi_pull_request_url i, ''pull_request_url''),
      (po_candidate_repository_digest p = pi_repository_digest i, ''candidate_repository_digest''),
      (po_target_repository_digest p = pi_repository_digest i, ''target_repository_digest''),
      (po_base_ref p = pi_target_ref i, ''base_ref''), (po_base_commit p = pi_base_commit i, ''base_commit''),
      (po_base_tree p = pi_base_tree i, ''base_tree''), (po_head_ref p = pi_candidate_ref i, ''head_ref''),
      (po_head_commit p = pi_candidate_commit i, ''head_commit''),
      (po_candidate_tree p = pi_candidate_tree i, ''candidate_tree''),
      (po_synthetic_merge_commit p = pi_synthetic_merge_commit i, ''synthetic_merge_commit''),
      (po_synthetic_merge_tree p = pi_synthetic_merge_tree i, ''synthetic_merge_tree''),
      (po_protection_evidence_digest p = pi_protection_evidence_digest i, ''protection_evidence_digest''),
      (po_check_evidence_manifest_digest p = pi_check_evidence_manifest_digest i, ''check_evidence_manifest_digest''),
      (po_provider_identity p = pi_provider_identity i, ''provider_identity''),
      (po_provider_api_version p = pi_provider_api_version i, ''provider_api_version'')])"

definition assert_reconciliation_binding ::
  "IntegrationPromotionIntent \<Rightarrow> IntegrationProviderReconciliation \<Rightarrow> err + unit" where
  "assert_reconciliation_binding i p = require_all (map (\<lambda>(ok, name). (ok, mismatch ''reconciliation'' name))
     [(pr_repository_digest p = pi_repository_digest i, ''repository_digest''),
      (pr_pull_request_number p = pi_pull_request_number i, ''pull_request_number''),
      (pr_pull_request_url p = pi_pull_request_url i, ''pull_request_url''),
      (pr_provider_identity p = pi_provider_identity i, ''provider_identity''),
      (pr_provider_api_version p = pi_provider_api_version i, ''provider_api_version''),
      (pr_target_ref p = pi_target_ref i, ''target_ref''),
      (pr_protection_evidence_digest p = pi_protection_evidence_digest i, ''protection_evidence_digest'')])"

section \<open>Outcomes and receipts\<close>

definition exactly_merged :: "IntegrationProviderReconciliation \<Rightarrow> IntegrationPromotionIntent \<Rightarrow> bool" where
  "exactly_merged p i \<longleftrightarrow>
     pr_merged p \<and> merge_commit p = Some (target_head_commit p) \<and> target_head_tree p = pi_candidate_tree i \<and>
     target_first_parent p = pi_base_commit i \<and> target_parents p = [pi_base_commit i]"

definition classify_merge ::
  "IntegrationMergeResult \<Rightarrow> IntegrationProviderReconciliation \<Rightarrow> IntegrationPromotionIntent \<Rightarrow> promotion_outcome" where
  "classify_merge g p i =
     (if exactly_merged p i \<and> mr_outcome g = Merge_applied \<and> result_commit g = merge_commit p \<and>
        result_tree g = Some (target_head_tree p) \<and> first_parent_commit g = Some (target_first_parent p)
      then Applied
      else if exactly_merged p i \<and> mr_outcome g = Merge_ambiguous then Already_applied
      else if \<not> pr_merged p \<and> mr_outcome g = Merge_rejected
      then (if target_head_commit p \<noteq> pi_base_commit i then Stale_base else Not_applicable)
      else Reconciliation_required)"

definition classify_reconciliation ::
  "IntegrationProviderReconciliation \<Rightarrow> IntegrationPromotionIntent \<Rightarrow> promotion_outcome" where
  "classify_reconciliation p i = (if exactly_merged p i then Already_applied else Reconciliation_required)"

definition build_receipt ::
  "host \<Rightarrow> IntegrationPromotionIntent \<Rightarrow> IntegrationMergeResult \<Rightarrow> IntegrationProviderReconciliation \<Rightarrow>
     promotion_outcome \<Rightarrow> err + IntegrationPromotionReceipt" where
  "build_receipt h i g p outcome =
     (let applied = success outcome in
      bind_err (intent_digest_of h i) (\<lambda>intent_digest.
      bind_err (digest_of h (reconciliation_json p)) (\<lambda>observed.
      mk_receipt h
        \<lparr>rc_operation_id = pi_operation_id i, rc_intent_digest = intent_digest, rc_bundle_digest = pi_bundle_digest i,
         expected_target_ref = pi_target_ref i, expected_candidate_commit = pi_candidate_commit i,
         expected_candidate_tree = pi_candidate_tree i, expected_base_commit = pi_base_commit i,
         expected_protection_evidence_digest = pi_protection_evidence_digest i,
         rc_main_protection_evidence_digest = mr_main_protection_evidence_digest g,
         expected_provider_identity = pi_provider_identity i,
         expected_provider_api_version = pi_provider_api_version i,
         expected_main_commit = pi_expected_main_commit i,
         applied_result_commit = (if applied then merge_commit p else None),
         applied_result_tree = (if applied then Some (target_head_tree p) else None),
         applied_result_parent_commit = (if applied then Some (target_first_parent p) else None),
         rc_outcome = outcome, observed_target_ref = pr_target_ref p, observed_base_commit = pi_base_commit i,
         observed_head_commit = (if applied then Some (target_head_commit p) else None),
         observed_head_tree = (if applied then Some (target_head_tree p) else None),
         observed_protection_evidence_digest = pr_protection_evidence_digest p,
         observed_provider_identity = pr_provider_identity p,
         observed_provider_api_version = pr_provider_api_version p, observation_digest = observed,
         rc_error = (if applied then None
           else case mr_error g of None \<Rightarrow> Some ''promotion did not reconcile''
             | Some x \<Rightarrow> Some (if x = [] then ''promotion did not reconcile'' else x))\<rparr>)))"

definition precondition_receipt ::
  "host \<Rightarrow> IntegrationPromotionIntent \<Rightarrow> string \<Rightarrow> err + IntegrationPromotionReceipt" where
  "precondition_receipt h i error =
     bind_err (intent_digest_of h i) (\<lambda>intent_digest.
     bind_err (digest_of h (JObj [(''kind'', JStr ''integration-promotion-precondition-failure''),
       (''operation_id'', JStr (pi_operation_id i)), (''error'', JStr error)])) (\<lambda>observed.
     mk_receipt h
       \<lparr>rc_operation_id = pi_operation_id i, rc_intent_digest = intent_digest, rc_bundle_digest = pi_bundle_digest i,
        expected_target_ref = pi_target_ref i, expected_candidate_commit = pi_candidate_commit i,
        expected_candidate_tree = pi_candidate_tree i, expected_base_commit = pi_base_commit i,
        expected_protection_evidence_digest = pi_protection_evidence_digest i,
        rc_main_protection_evidence_digest = None, expected_provider_identity = pi_provider_identity i,
        expected_provider_api_version = pi_provider_api_version i, expected_main_commit = pi_expected_main_commit i,
        applied_result_commit = None, applied_result_tree = None, applied_result_parent_commit = None,
        rc_outcome = Invalid, observed_target_ref = pi_target_ref i, observed_base_commit = pi_base_commit i,
        observed_head_commit = None, observed_head_tree = None,
        observed_protection_evidence_digest = pi_protection_evidence_digest i,
        observed_provider_identity = pi_provider_identity i,
        observed_provider_api_version = pi_provider_api_version i, observation_digest = observed,
        rc_error = Some error\<rparr>))"

definition report ::
  "host \<Rightarrow> string \<Rightarrow> promotion_outcome \<Rightarrow> string list \<Rightarrow> string list \<Rightarrow> IntegrationPromotionReceipt option \<Rightarrow>
     ArtifactRef option \<Rightarrow> err + IntegrationPromotionReport" where
  "report h operation_id outcome checks errors receipt ref =
     bind_err (case (ref, receipt) of
         (Some r, _) \<Rightarrow> Inr (Some (ar_digest r))
       | (None, Some c) \<Rightarrow> bind_err (digest_of h (receipt_json c)) (\<lambda>d. Inr (Some d))
       | (None, None) \<Rightarrow> Inr None) (\<lambda>receipt_digest.
     mk_promotion_report \<lparr>rp_operation_id = operation_id, rp_outcome = outcome,
       rp_intent_digest = map_option rc_intent_digest receipt, rp_receipt_digest = receipt_digest,
       rp_checks = (if checks = [] then [''boundary''] else checks), rp_errors = errors\<rparr>)"

section \<open>Promotion\<close>

text \<open>The variables of one call of \<open>promote\<close>, beside the machine.\<close>

record locals =
  passed :: "string list"
  held :: "PromotionLease option"
  mutation_may_have_occurred :: bool
  safe_release :: bool

type_synonym 'a stage = "(machine \<times> locals, 'a) computation"

definition on_machine :: "'a action \<Rightarrow> 'a stage" where
  "on_machine a st = (case a (fst st) of (r, m) \<Rightarrow> (r, (m, snd st)))"

definition assign :: "(locals \<Rightarrow> locals) \<Rightarrow> unit stage" where
  "assign f st = (Inr (), (fst st, f (snd st)))"

definition append_checks :: "string list \<Rightarrow> unit stage" where
  "append_checks cs = assign (passed_update (\<lambda>xs. xs @ cs))"

text \<open>\<open>self._report\<close> with the checks passed so far.\<close>

definition report_now ::
  "host \<Rightarrow> string \<Rightarrow> promotion_outcome \<Rightarrow> string list \<Rightarrow> string list \<Rightarrow> IntegrationPromotionReceipt option \<Rightarrow>
     ArtifactRef option \<Rightarrow> IntegrationPromotionReport stage" where
  "report_now h operation_id outcome extra errors receipt ref st =
     (report h operation_id outcome (passed (snd st) @ extra) errors receipt ref, st)"

definition authorize_mutation :: "host \<Rightarrow> service \<Rightarrow> IntegrationPromotionIntent \<Rightarrow> PromotionLease \<Rightarrow> unit action" where
  "authorize_mutation h s i lease =
     chain (lift (intent_digest_of h i)) (\<lambda>digest.
     chain (ask h (\<lambda>n. Inr (svc_clock s n))) (\<lambda>t.
     chain (lift (mk_authorization \<lparr>ma_operation_id = pi_operation_id i, ma_intent_digest = digest,
       ma_lease_identity = pl_identity lease, ma_lease_digest = pl_digest lease, authorized_at = t\<rparr>)) (\<lambda>a.
     chain (record_mutation_authorization h a) (\<lambda>_. pass ()))))"

text \<open>How a call back ended, as the provider learns it.\<close>

definition attempted :: "'a action \<Rightarrow> (err + 'a) action" where
  "attempted a m = (case a m of (r, m) \<Rightarrow> (Inr r, m))"

fun raised :: "err + 'a \<Rightarrow> err option" where
  "raised (Inl x) = Some x"
| "raised (Inr v) = None"

primrec converse ::
  "host \<Rightarrow> service \<Rightarrow> IntegrationPromotionIntent \<Rightarrow> PromotionLease \<Rightarrow> merge_talk \<Rightarrow> IntegrationMergeResult action" where
  "converse h s i lease (Answer r) = lift (bind_err r mk_merge_result)"
| "converse h s i lease (Guard k) =
     chain (attempted (assert_current h lease None)) (\<lambda>r. converse h s i lease (k (raised r)))"
| "converse h s i lease (Authorize k) =
     chain (attempted (authorize_mutation h s i lease)) (\<lambda>r. converse h s i lease (k (raised r)))"

definition submit_merge ::
  "host \<Rightarrow> service \<Rightarrow> IntegrationPromotionIntent \<Rightarrow> PromotionLease \<Rightarrow> IntegrationMergeResult action" where
  "submit_merge h s i lease m =
     converse h s i lease (merge_pull (svc_provider s) i (ticks m)) (m\<lparr>merged := merged m @ [i]\<rparr>)"

definition observe_provider :: "host \<Rightarrow> service \<Rightarrow> IntegrationPromotionIntent \<Rightarrow> IntegrationProviderObservation action" where
  "observe_provider h s i =
     chain (ask h (observe_pull (svc_provider s) i)) (\<lambda>p. lift (mk_provider_observation h p))"

definition reconcile_provider ::
  "host \<Rightarrow> service \<Rightarrow> IntegrationPromotionIntent \<Rightarrow> IntegrationProviderReconciliation action" where
  "reconcile_provider h s i =
     chain (ask h (reconcile_pull (svc_provider s) i)) (\<lambda>p. lift (mk_reconciliation_view h p))"

definition release_recovered :: "host \<Rightarrow> IntegrationPromotionIntent \<Rightarrow> bool action" where
  "release_recovered h i = release_matching_lease h (pi_repository_digest i) (pi_target_ref i) (pi_operation_id i)
     (controller_lease_identity i) (controller_lease_digest i)"

text \<open>The arguments of \<open>promote\<close>; \<open>intent_factory\<close> builds the record, so its validators run.\<close>

record promotion_call =
  pm_bundle :: PromotionBundle
  pm_publication :: CandidatePublicationBinding
  pm_bundle_digest :: string
  pm_operation_id :: string
  intent_factory :: "PromotionLease \<Rightarrow> err + IntegrationPromotionIntent"
  pm_lease_seconds :: "int option"

text \<open>A receipt is on record: it is checked against the durable intent and reported again.\<close>

definition settled_operation ::
  "host \<Rightarrow> promotion_call \<Rightarrow> IntegrationPromotionReceipt \<Rightarrow> ArtifactRef \<Rightarrow> IntegrationPromotionReport action" where
  "settled_operation h c receipt ref =
     (if rc_bundle_digest receipt \<noteq> pm_bundle_digest c \<or> rc_operation_id receipt \<noteq> pm_operation_id c
      then lift (report h (pm_operation_id c) Invalid [''receipt_existing''] [''receipt binding mismatch''] None None)
      else
        chain (read_intent h (pm_operation_id c)) (\<lambda>durable.
        case durable of
          None \<Rightarrow> lift (report h (pm_operation_id c) Reconciliation_required [''receipt_existing'', ''missing_intent'']
            [''durable receipt has no matching durable intent''] None None)
        | Some (i, _) \<Rightarrow>
            chain (assert_durable_lease_evidence h i) (\<lambda>_.
            chain (lift (assert_intent_binding_without_lease i (pm_bundle c) (pm_bundle_digest c) (pm_operation_id c))) (\<lambda>_.
            chain (lift (assert_publication_intent_binding (pm_publication c) i)) (\<lambda>_.
            chain (lift (assert_receipt_binding h receipt i)) (\<lambda>_.
            chain (release_recovered h i) (\<lambda>_.
            lift (report h (pm_operation_id c) (rc_outcome receipt) [''receipt_existing''] [] (Some receipt) (Some ref)))))))))"

text \<open>The provider is asked once what became of an authorized intent.\<close>

definition reconcile_intent ::
  "host \<Rightarrow> service \<Rightarrow> promotion_call \<Rightarrow> IntegrationPromotionIntent \<Rightarrow> PromotionMutationAuthorization \<Rightarrow>
     IntegrationPromotionReport stage" where
  "reconcile_intent h s c i a =
     chain (lift (assert_mutation_authorization h i a)) (\<lambda>_.
     chain (on_machine (reconcile_provider h s i)) (\<lambda>p.
     chain (append_checks [''intent_existing'', ''reconciled_once'']) (\<lambda>_.
     chain (lift (assert_reconciliation_binding i p)) (\<lambda>_.
     let outcome = classify_reconciliation p i in
     if outcome \<noteq> Already_applied
     then report_now h (pm_operation_id c) Reconciliation_required [] [''existing intent requires reconciliation''] None None
     else
       chain (lift (digest_of h (reconciliation_json p))) (\<lambda>digest.
       chain (lift (mk_merge_result \<lparr>mr_outcome = Merge_ambiguous, result_commit = None, result_tree = None,
         first_parent_commit = None, mr_main_protection_evidence_digest = None, response_digest = digest,
         mr_error = Some ''reconciled existing intent''\<rparr>)) (\<lambda>g.
       chain (lift (build_receipt h i g p outcome)) (\<lambda>receipt.
       chain (on_machine (record_receipt h receipt)) (\<lambda>ref.
       chain (on_machine (release_recovered h i)) (\<lambda>_.
       chain (assign (safe_release_update (\<lambda>_. True))) (\<lambda>_.
       report_now h (pm_operation_id c) outcome [] [] (Some receipt) (Some ref)))))))))))"

text \<open>An intent without a receipt is on record.\<close>

definition recovered_operation ::
  "host \<Rightarrow> service \<Rightarrow> promotion_call \<Rightarrow> IntegrationPromotionIntent \<Rightarrow> IntegrationPromotionReport stage" where
  "recovered_operation h s c i =
     chain (on_machine (assert_durable_lease_evidence h i)) (\<lambda>_.
     chain (lift (assert_intent_binding_without_lease i (pm_bundle c) (pm_bundle_digest c) (pm_operation_id c))) (\<lambda>_.
     chain (lift (assert_publication_intent_binding (pm_publication c) i)) (\<lambda>_.
     chain (on_machine (read_mutation_authorization h (pm_operation_id c))) (\<lambda>authorization.
     case authorization of
       None \<Rightarrow> lift (report h (pm_operation_id c) Invalid [''intent_existing'', ''mutation_authorization_missing'']
         [''durable intent has no mutation authorization marker''] None None)
     | Some (a, _) \<Rightarrow> reconcile_intent h s c i a))))"

fun replayed :: "replay_outcome \<Rightarrow> promotion_outcome" where
  "replayed Would_apply = Ready"
| "replayed Replay_not_applicable = Not_applicable"
| "replayed Replay_stale_base = Stale_base"
| "replayed Invalid_bundle = Invalid"

text \<open>From the answer of the provider to the receipt.\<close>

definition conclude_merge ::
  "host \<Rightarrow> service \<Rightarrow> promotion_call \<Rightarrow> IntegrationPromotionIntent \<Rightarrow> PromotionLease \<Rightarrow> IntegrationMergeResult \<Rightarrow>
     IntegrationPromotionReport stage" where
  "conclude_merge h s c i lease g =
     chain (append_checks [''merge_submitted'']) (\<lambda>_.
     chain (on_machine (reconcile_provider h s i)) (\<lambda>p.
     chain (append_checks [''reconciled_once'']) (\<lambda>_.
     chain (lift (assert_reconciliation_binding i p)) (\<lambda>_.
     let outcome = classify_merge g p i in
     chain (lift (build_receipt h i g p outcome)) (\<lambda>receipt.
     chain (on_machine (assert_current h lease None)) (\<lambda>_.
     chain (on_machine (record_receipt h receipt)) (\<lambda>ref.
     chain (assign (safe_release_update (\<lambda>_. outcome \<noteq> Reconciliation_required))) (\<lambda>_.
     report_now h (pm_operation_id c) outcome []
       (case rc_error receipt of None \<Rightarrow> [] | Some x \<Rightarrow> if x = [] then [] else [x]) (Some receipt) (Some ref)))))))))"

definition ambiguous_merge :: "host \<Rightarrow> err \<Rightarrow> err + IntegrationMergeResult" where
  "ambiguous_merge h x =
     bind_err (digest_of h (JObj [(''error'', JStr (err_text x))])) (\<lambda>digest.
     mk_merge_result \<lparr>mr_outcome = Merge_ambiguous, result_commit = None, result_tree = None,
       first_parent_commit = None, mr_main_protection_evidence_digest = None, response_digest = digest,
       mr_error = Some (err_text x)\<rparr>)"

fun is_precondition_error :: "err \<Rightarrow> bool" where
  "is_precondition_error (IntegrationPromotionPreconditionError _) = True"
| "is_precondition_error _ = False"

text \<open>The provider found a precondition violated: nothing was merged, and a receipt says so.\<close>

definition refused_merge ::
  "host \<Rightarrow> promotion_call \<Rightarrow> IntegrationPromotionIntent \<Rightarrow> err \<Rightarrow> IntegrationPromotionReport stage" where
  "refused_merge h c i x =
     chain (assign (safe_release_update (\<lambda>_. True))) (\<lambda>_.
     chain (lift (precondition_receipt h i (err_text x))) (\<lambda>receipt.
     chain (on_machine (record_receipt h receipt)) (\<lambda>ref.
     report_now h (pm_operation_id c) Invalid [''merge_precondition_failed''] [err_text x] (Some receipt) (Some ref))))"

definition merge_and_conclude ::
  "host \<Rightarrow> service \<Rightarrow> promotion_call \<Rightarrow> IntegrationPromotionIntent \<Rightarrow> PromotionLease \<Rightarrow> IntegrationPromotionReport stage" where
  "merge_and_conclude h s c i lease =
     chain (on_machine (attempted (submit_merge h s i lease))) (\<lambda>answer.
     case answer of
       Inr g \<Rightarrow> conclude_merge h s c i lease g
     | Inl x \<Rightarrow>
         if is_precondition_error x then refused_merge h c i x
         else if is_failure x
         then chain (lift (ambiguous_merge h x)) (conclude_merge h s c i lease)
         else fail x)"

text \<open>Up to the replay of the bundle: the lease, the intent and the report of the replay.\<close>

definition prepare_operation ::
  "host \<Rightarrow> service \<Rightarrow> promotion_call \<Rightarrow> int \<Rightarrow>
     (PromotionLease \<times> IntegrationPromotionIntent \<times> PromotionReplayReport) stage" where
  "prepare_operation h s c lease_seconds =
     (let snapshot = bn_snapshot (pm_bundle c); operation_id = pm_operation_id c in
      chain (on_machine (acquire_lease h (gs_repository_digest snapshot) (gs_target_ref snapshot) operation_id
        lease_seconds None)) (\<lambda>lease.
      chain (assign (held_update (\<lambda>_. Some lease))) (\<lambda>_.
      chain (on_machine (assert_current h lease None)) (\<lambda>_.
      chain (on_machine (assert_lease_evidence h operation_id lease)) (\<lambda>_.
      chain (lift (bind_err (intent_factory c lease) (mk_intent h))) (\<lambda>i.
      chain (lift (assert_intent_binding i (pm_bundle c) (pm_bundle_digest c) operation_id lease)) (\<lambda>_.
      chain (lift (assert_publication_intent_binding (pm_publication c) i)) (\<lambda>_.
      chain (on_machine (ask h (\<lambda>n. replay h (svc_controller s) n (pm_bundle c) (pm_bundle_digest c)))) (\<lambda>r.
      chain (append_checks (ry_checks r)) (\<lambda>_.
      pass (lease, i, r)))))))))))"

text \<open>The last checks, and the durable intent that precedes the request.\<close>

definition declare_intent :: "host \<Rightarrow> service \<Rightarrow> IntegrationPromotionIntent \<Rightarrow> PromotionLease \<Rightarrow> unit stage" where
  "declare_intent h s i lease =
     chain (on_machine (assert_current h lease None)) (\<lambda>_.
     chain (on_machine (observe_provider h s i)) (\<lambda>p.
     chain (lift (assert_observation i p)) (\<lambda>_.
     chain (append_checks [''provider_precondition'']) (\<lambda>_.
     chain (on_machine (assert_current h lease None)) (\<lambda>_.
     chain (on_machine (record_intent h i)) (\<lambda>_.
     chain (append_checks [''intent_durable'']) (\<lambda>_.
     chain (assign (mutation_may_have_occurred_update (\<lambda>_. True))) (\<lambda>_.
     on_machine (assert_current h lease None)))))))))"

definition fresh_operation ::
  "host \<Rightarrow> service \<Rightarrow> promotion_call \<Rightarrow> int \<Rightarrow> IntegrationPromotionReport stage" where
  "fresh_operation h s c lease_seconds =
     chain (prepare_operation h s c lease_seconds) (\<lambda>(lease, i, r).
     if ry_outcome r \<noteq> Would_apply
     then
       chain (assign (safe_release_update (\<lambda>_. True))) (\<lambda>_.
       report_now h (pm_operation_id c) (replayed (ry_outcome r)) [] (ry_errors r) None None)
     else chain (declare_intent h s i lease) (\<lambda>_. merge_and_conclude h s c i lease))"

definition verify_publication :: "service \<Rightarrow> promotion_call \<Rightarrow> unit stage" where
  "verify_publication s c =
     chain (lift (assert_publication_binding (pm_publication c) (pm_bundle c))) (\<lambda>_.
     chain (lift (publication_verifier s (pm_publication c) (pm_bundle c))) (\<lambda>trusted.
     chain (lift (require_all [(trusted, ''candidate publication verifier rejected evidence'')])) (\<lambda>_.
     append_checks [''publication_verified''])))"

definition promote_body ::
  "host \<Rightarrow> service \<Rightarrow> promotion_call \<Rightarrow> int \<Rightarrow> IntegrationPromotionReport stage" where
  "promote_body h s c lease_seconds =
     chain (verify_publication s c) (\<lambda>_.
     chain (on_machine (read_receipt h (pm_operation_id c))) (\<lambda>existing.
     case existing of
       Some (receipt, ref) \<Rightarrow> on_machine (settled_operation h c receipt ref)
     | None \<Rightarrow>
         chain (on_machine (read_intent h (pm_operation_id c))) (\<lambda>durable.
         case durable of
           Some (i, _) \<Rightarrow> recovered_operation h s c i
         | None \<Rightarrow> fresh_operation h s c lease_seconds)))"

text \<open>The clauses around the body: \<open>except\<close> reports, \<open>finally\<close> gives the lease back when it is safe.\<close>

definition report_failure :: "host \<Rightarrow> promotion_call \<Rightarrow> err \<Rightarrow> IntegrationPromotionReport stage" where
  "report_failure h c x st =
     (report h (pm_operation_id c) (if mutation_may_have_occurred (snd st) then Reconciliation_required else Invalid)
        (passed (snd st)) [err_text x] None None, st)"

definition give_back :: "host \<Rightarrow> unit stage" where
  "give_back h st =
     (case held (snd st) of
        Some lease \<Rightarrow>
          if safe_release (snd st) \<or> \<not> mutation_may_have_occurred (snd st)
          then on_machine (catching is_failure (release_lease h lease) (\<lambda>_. pass ())) st
          else (Inr (), st)
      | None \<Rightarrow> (Inr (), st))"

definition finally_do :: "('s, 'a) computation \<Rightarrow> ('s, unit) computation \<Rightarrow> ('s, 'a) computation" where
  "finally_do a last_act st =
     (case a st of (r, st) \<Rightarrow> case last_act st of (Inl x, st) \<Rightarrow> (Inl x, st) | (Inr _, st) \<Rightarrow> (r, st))"

definition start_locals :: locals where
  "start_locals = \<lparr>passed = [], held = None, mutation_may_have_occurred = False, safe_release = False\<rparr>"

definition promote :: "host \<Rightarrow> service \<Rightarrow> promotion_call \<Rightarrow> IntegrationPromotionReport action" where
  "promote h s c m =
     (let lease_seconds = (case pm_lease_seconds c of None \<Rightarrow> svc_lease_seconds s | Some n \<Rightarrow> n) in
      if lease_seconds \<le> 0 then (Inl (ValueError ''lease_seconds must be positive''), m)
      else
        case finally_do (catching is_failure (promote_body h s c lease_seconds) (report_failure h c)) (give_back h)
          (m, start_locals) of
          (r, (m, _)) \<Rightarrow> (r, m))"

section \<open>What a stage does to the machine\<close>

definition stagewise :: "(machine \<Rightarrow> machine \<Rightarrow> bool) \<Rightarrow> machine \<times> locals \<Rightarrow> machine \<times> locals \<Rightarrow> bool" where
  "stagewise R st st' \<longleftrightarrow> R (fst st) (fst st')"

interpretation staged_index: state_order "stagewise index_kept"
  by unfold_locales (auto simp: stagewise_def index_order.refl intro: index_order.trans)

interpretation staged_silence: state_order "stagewise silent"
  by unfold_locales (auto simp: stagewise_def silence.refl intro: silence.trans)

lemma on_machine_obeys: "obeys R a \<Longrightarrow> obeys (stagewise R) (on_machine a)"
  by (auto simp: obeys_def stagewise_def on_machine_def split: prod.splits) (metis snd_conv)

lemma attempted_obeys: "obeys R a \<Longrightarrow> obeys R (attempted a)"
  by (auto simp: obeys_def attempted_def split: prod.splits) (metis snd_conv)

lemma locals_obey [obedient]:
  "obeys (stagewise index_kept) (assign f)" "obeys (stagewise silent) (assign f)"
  "obeys (stagewise index_kept) (append_checks cs)" "obeys (stagewise silent) (append_checks cs)"
  "obeys (stagewise index_kept) (report_now h oper x cs es receipt ref)"
  "obeys (stagewise silent) (report_now h oper x cs es receipt ref)"
  "obeys (stagewise index_kept) (report_failure h c e)" "obeys (stagewise silent) (report_failure h c e)"
  by (auto simp: obeys_def stagewise_def assign_def append_checks_def report_now_def report_failure_def
      index_order.refl silence.refl)

lemmas [obedient] =
  on_machine_obeys [of index_kept] on_machine_obeys [of silent] attempted_obeys [of index_kept] attempted_obeys [of silent]

lemma record_obeys [obedient]:
  "spare_index h \<Longrightarrow> obeys index_kept (record_intent h i)" "obeys silent (record_intent h i)"
  "spare_index h \<Longrightarrow> obeys index_kept (record_receipt h rc)" "obeys silent (record_receipt h rc)"
  "spare_index h \<Longrightarrow> obeys index_kept (record_mutation_authorization h a)" "obeys silent (record_mutation_authorization h a)"
  "spare_index h \<Longrightarrow> obeys index_kept (read_intent h oper)" "obeys silent (read_intent h oper)"
  "spare_index h \<Longrightarrow> obeys index_kept (read_receipt h oper)" "obeys silent (read_receipt h oper)"
  "spare_index h \<Longrightarrow> obeys index_kept (read_mutation_authorization h oper)" "obeys silent (read_mutation_authorization h oper)"
  unfolding record_intent_def record_receipt_def record_mutation_authorization_def read_intent_def read_receipt_def
    read_mutation_authorization_def
  by (simp_all add: journal_record_keeps journal_read_keeps)

lemma provider_obeys [obedient]:
  "spare_index h \<Longrightarrow> obeys index_kept (observe_provider h s i)" "obeys silent (observe_provider h s i)"
  "spare_index h \<Longrightarrow> obeys index_kept (reconcile_provider h s i)" "obeys silent (reconcile_provider h s i)"
  "spare_index h \<Longrightarrow> obeys index_kept (authorize_mutation h s i lease)" "obeys silent (authorize_mutation h s i lease)"
  "spare_index h \<Longrightarrow> obeys index_kept (release_recovered h i)" "obeys silent (release_recovered h i)"
  "spare_index h \<Longrightarrow> obeys index_kept (assert_lease_evidence h oper lease)" "obeys silent (assert_lease_evidence h oper lease)"
  "spare_index h \<Longrightarrow> obeys index_kept (assert_durable_lease_evidence h i)" "obeys silent (assert_durable_lease_evidence h i)"
  unfolding observe_provider_def reconcile_provider_def authorize_mutation_def release_recovered_def
    assert_lease_evidence_def assert_durable_lease_evidence_def
  by ((intro index_intros obedient; assumption) | intro silent_intros obedient)+

lemma converse_obeys [obedient]:
  "spare_index h \<Longrightarrow> obeys index_kept (converse h s i lease talk)" "obeys silent (converse h s i lease talk)"
  by (induction talk) (auto intro!: index_intros silent_intros obedient)

lemma settled_obeys [obedient]:
  "spare_index h \<Longrightarrow> obeys index_kept (settled_operation h c receipt ref)" "obeys silent (settled_operation h c receipt ref)"
  unfolding settled_operation_def
  by ((intro index_intros obedient; assumption) | intro silent_intros obedient)+

lemma recovered_obeys [obedient]:
  "spare_index h \<Longrightarrow> obeys (stagewise index_kept) (recovered_operation h s c i)"
  "obeys (stagewise silent) (recovered_operation h s c i)"
  unfolding recovered_operation_def reconcile_intent_def Let_def
  by ((intro staged_index.obeys_intros obedient; assumption) | intro staged_silence.obeys_intros obedient)+

lemma conclude_obeys [obedient]:
  "spare_index h \<Longrightarrow> obeys (stagewise index_kept) (conclude_merge h s c i lease g)"
  "obeys (stagewise silent) (conclude_merge h s c i lease g)"
  "spare_index h \<Longrightarrow> obeys (stagewise index_kept) (refused_merge h c i x)" "obeys (stagewise silent) (refused_merge h c i x)"
  unfolding conclude_merge_def refused_merge_def Let_def
  by ((intro staged_index.obeys_intros obedient; assumption) | intro staged_silence.obeys_intros obedient)+

lemma submit_obeys [obedient]: "spare_index h \<Longrightarrow> obeys index_kept (submit_merge h s i lease)"
  unfolding obeys_def submit_merge_def
proof
  fix m :: machine
  assume h: "spare_index h"
  let ?m = "m\<lparr>merged := merged m @ [i]\<rparr>"
  have "index_kept ?m (snd (converse h s i lease (merge_pull (svc_provider s) i (ticks m)) ?m))"
    using converse_obeys(1) [OF h] by (simp add: obeys_def)
  then show "index_kept m (snd (converse h s i lease (merge_pull (svc_provider s) i (ticks m)) ?m))"
    by (simp add: index_kept_def)
qed

lemma merge_obeys [obedient]: "spare_index h \<Longrightarrow> obeys (stagewise index_kept) (merge_and_conclude h s c i lease)"
  unfolding merge_and_conclude_def
  by (rule staged_index.obeys_chain)
    (auto split: sum.splits intro!: staged_index.obeys_intros obedient)

text \<open>The provider is handed the intent exactly once.\<close>

lemma merge_and_conclude_merges:
  assumes "merge_and_conclude h s c i lease st = (r, st')"
  shows "merged (fst st') = merged (fst st) @ [i]"
proof -
  obtain answer m1 where submit: "submit_merge h s i lease (fst st) = (answer, m1)" by fastforce
  have "merged m1 = merged (fst st) @ [i]"
    using submit obeysD [OF converse_obeys(2)] by (fastforce simp: submit_merge_def silent_def)
  moreover obtain next_stage where rest: "next_stage (m1, snd st) = (r, st')" and "obeys (stagewise silent) next_stage"
  proof (cases answer)
    case (Inr g)
    then show thesis
      using that assms submit conclude_obeys(2)
      by (fastforce simp: merge_and_conclude_def chain_def on_machine_def attempted_def)
  next
    case (Inl x)
    define f where "f = (if is_precondition_error x then refused_merge h c i x
         else if is_failure x then chain (lift (ambiguous_merge h x)) (conclude_merge h s c i lease) else fail x)"
    have "f (m1, snd st) = (r, st')"
      using assms submit Inl by (simp add: merge_and_conclude_def chain_def on_machine_def attempted_def f_def)
    moreover have "obeys (stagewise silent) f"
      unfolding f_def by (intro staged_silence.obeys_intros obedient)
    ultimately show thesis by (rule that)
  qed
  then have "merged (fst st') = merged m1" using obeysD [of "stagewise silent"] by (fastforce simp: stagewise_def silent_def)
  ultimately show ?thesis by simp
qed

lemma loud_chain:
  assumes run: "chain a f st = (r, st')" and loud: "merged (fst st') \<noteq> merged (fst st)"
    and quiet: "obeys (stagewise silent) a" and index: "obeys (stagewise index_kept) a"
  obtains x st1 where "a st = (Inr x, st1)" "f x st1 = (r, st')" "merged (fst st') \<noteq> merged (fst st1)"
    "merged (fst st1) = merged (fst st)" "index_kept (fst st) (fst st1)"
proof -
  obtain v st1 where a: "a st = (v, st1)" by (cases "a st")
  then have same: "merged (fst st1) = merged (fst st)" "index_kept (fst st) (fst st1)"
    using obeysD [OF quiet a] obeysD [OF index a] by (simp_all add: stagewise_def silent_def)
  then obtain x where "v = Inr x" using run loud a by (cases v) (auto simp: chain_def)
  with run loud a same that show thesis by (auto simp: chain_def)
qed

lemma prepare_obeys [obedient]:
  "spare_index h \<Longrightarrow> obeys (stagewise index_kept) (prepare_operation h s c secs)"
  "obeys (stagewise silent) (prepare_operation h s c secs)"
  "spare_index h \<Longrightarrow> obeys (stagewise index_kept) (declare_intent h s i lease)"
  "obeys (stagewise silent) (declare_intent h s i lease)"
  unfolding prepare_operation_def declare_intent_def Let_def
  by ((intro staged_index.obeys_intros obedient; assumption) | intro staged_silence.obeys_intros obedient)+

lemma fresh_obeys [obedient]: "spare_index h \<Longrightarrow> obeys (stagewise index_kept) (fresh_operation h s c secs)"
  unfolding fresh_operation_def by (intro staged_index.obeys_intros obedient; assumption)

lemma verify_obeys [obedient]:
  "obeys (stagewise index_kept) (verify_publication s c)" "obeys (stagewise silent) (verify_publication s c)"
  unfolding verify_publication_def by (intro staged_index.obeys_intros staged_silence.obeys_intros obedient)+

lemma body_obeys [obedient]: "spare_index h \<Longrightarrow> obeys (stagewise index_kept) (promote_body h s c secs)"
  unfolding promote_body_def by (intro staged_index.obeys_intros obedient; assumption)

lemma loud_if:
  assumes "(if b then a else f) st = (r, st')" and "merged (fst st') \<noteq> merged (fst st)" and "obeys (stagewise silent) a"
  obtains "\<not> b" "f st = (r, st')"
  using assms obeysD [OF assms(3), of st r st'] by (cases b) (auto simp: stagewise_def silent_def)

lemma on_machine_eq: "on_machine a st = (v, st1) \<longleftrightarrow> a (fst st) = (v, fst st1) \<and> snd st1 = snd st"
  by (cases st1) (auto simp: on_machine_def split: prod.splits)

lemma assign_eq: "assign f st = (v, st1) \<longleftrightarrow> v = Inr () \<and> st1 = (fst st, f (snd st))"
  by (auto simp: assign_def)

lemma ask_Inr: "ask h f m = (Inr v, m') \<Longrightarrow> \<exists>n. f n = Inr v"
  by (auto simp: ask_def step_eq)

text \<open>What stands when the operation is prepared and when its intent is declared.\<close>

lemma prepare_operation_Inr:
  assumes run: "prepare_operation h s c secs st = (Inr (lease, i, rep), st')" and h: "spare_index h"
  obtains m1 m2 m3 n where
    "acquire_lease h (gs_repository_digest (bn_snapshot (pm_bundle c))) (gs_target_ref (bn_snapshot (pm_bundle c)))
       (pm_operation_id c) secs None (fst st) = (Inr lease, m1)"
    "assert_lease_evidence h (pm_operation_id c) lease m2 = (Inr (), m3)" "index_kept m1 m2" "index_kept m3 (fst st')"
    "bind_err (intent_factory c lease) (mk_intent h) = Inr i"
    "assert_intent_binding i (pm_bundle c) (pm_bundle_digest c) (pm_operation_id c) lease = Inr ()"
    "assert_publication_intent_binding (pm_publication c) i = Inr ()"
    "replay h (svc_controller s) n (pm_bundle c) (pm_bundle_digest c) = Inr rep"
    "snd st' = (snd st)\<lparr>held := Some lease, passed := passed (snd st) @ ry_checks rep\<rparr>"
proof -
  obtain m1 m2 m3 m4 where
    acq: "acquire_lease h (gs_repository_digest (bn_snapshot (pm_bundle c))) (gs_target_ref (bn_snapshot (pm_bundle c)))
       (pm_operation_id c) secs None (fst st) = (Inr lease, m1)"
    and cur: "assert_current h lease None m1 = (Inr (), m2)"
    and ev: "assert_lease_evidence h (pm_operation_id c) lease m2 = (Inr (), m3)"
    and rest: "bind_err (intent_factory c lease) (mk_intent h) = Inr i"
      "assert_intent_binding i (pm_bundle c) (pm_bundle_digest c) (pm_operation_id c) lease = Inr ()"
      "assert_publication_intent_binding (pm_publication c) i = Inr ()"
    and ask: "ask h (\<lambda>n. replay h (svc_controller s) n (pm_bundle c) (pm_bundle_digest c)) m3 = (Inr rep, m4)"
    and "st' = (m4, (snd st)\<lparr>held := Some lease, passed := passed (snd st) @ ry_checks rep\<rparr>)"
    using run by (auto simp: prepare_operation_def Let_def chain_Inr on_machine_eq assign_eq append_checks_def)
  moreover have "index_kept m1 m2" using obeysD [OF assert_current_keeps(1) [OF h] cur] .
  moreover have "index_kept m3 m4" using obeysD [OF reading_keeps(13) [OF h] ask] .
  ultimately show thesis using that ask_Inr [OF ask] by auto
qed

lemma declare_intent_Inr:
  assumes run: "declare_intent h s i lease st = (Inr u, st')" and h: "spare_index h"
  obtains m1 m2 ref where "record_intent h i m1 = (Inr ref, m2)" "index_kept (fst st) m1" "index_kept m2 (fst st')"
    "mutation_may_have_occurred (snd st')" "held (snd st') = held (snd st)"
proof -
  obtain m1 m2 m3 m4 p ref where a: "assert_current h lease None (fst st) = (Inr (), m1)"
    and o: "observe_provider h s i m1 = (Inr p, m2)" and b: "assert_current h lease None m2 = (Inr (), m3)"
    and rec: "record_intent h i m3 = (Inr ref, m4)" and last_check: "assert_current h lease None m4 = (Inr (), fst st')"
    and flags: "snd st' = (snd st)\<lparr>passed := (passed (snd st) @ [''provider_precondition'']) @ [''intent_durable''],
      mutation_may_have_occurred := True\<rparr>"
    using run by (auto simp: declare_intent_def chain_Inr on_machine_eq assign_eq append_checks_def)
  have "index_kept (fst st) m3"
    using obeysD [OF assert_current_keeps(1) [OF h] a] obeysD [OF provider_obeys(1) [OF h] o]
      obeysD [OF assert_current_keeps(1) [OF h] b] by (blast intro: index_order.trans)
  moreover have "index_kept m4 (fst st')" using obeysD [OF assert_current_keeps(1) [OF h] last_check] .
  ultimately show thesis using that rec flags by simp
qed

lemma quiet_run: "obeys (stagewise silent) a \<Longrightarrow> a st = (r, st') \<Longrightarrow> merged (fst st') = merged (fst st)"
  by (drule obeysD) (simp_all add: stagewise_def silent_def)

lemma fresh_loud:
  assumes run: "fresh_operation h s c secs st = (r, st')" and loud: "merged (fst st') \<noteq> merged (fst st)"
    and h: "spare_index h"
  obtains lease i rep st1 st2 where "prepare_operation h s c secs st = (Inr (lease, i, rep), st1)"
    "ry_outcome rep = Would_apply" "declare_intent h s i lease st1 = (Inr (), st2)"
    "merge_and_conclude h s c i lease st2 = (r, st')" "merged (fst st2) = merged (fst st)"
    "merged (fst st') = merged (fst st) @ [i]"
proof -
  obtain v st1 where prep: "prepare_operation h s c secs st = (Inr v, st1)"
    and next1: "(case v of (lease, i, rep) \<Rightarrow> if ry_outcome rep \<noteq> Would_apply
       then chain (assign (safe_release_update (\<lambda>_. True))) (\<lambda>_.
         report_now h (pm_operation_id c) (replayed (ry_outcome rep)) [] (ry_errors rep) None None)
       else chain (declare_intent h s i lease) (\<lambda>_. merge_and_conclude h s c i lease)) st1 = (r, st')"
    and loud1: "merged (fst st') \<noteq> merged (fst st1)" and same1: "merged (fst st1) = merged (fst st)"
    using run loud prepare_obeys(1,2) h unfolding fresh_operation_def by (elim loud_chain) auto
  obtain lease i rep where v: "v = (lease, i, rep)" by (cases v) auto
  have "obeys (stagewise silent) (chain (assign (safe_release_update (\<lambda>_. True))) (\<lambda>_.
         report_now h (pm_operation_id c) (replayed (ry_outcome rep)) [] (ry_errors rep) None None))"
    by (intro staged_silence.obeys_intros obedient)
  with next1 [unfolded v prod.case] loud1 have would: "ry_outcome rep = Would_apply"
    and next2: "chain (declare_intent h s i lease) (\<lambda>_. merge_and_conclude h s c i lease) st1 = (r, st')"
    by (auto elim!: loud_if)
  obtain st2 where "declare_intent h s i lease st1 = (Inr (), st2)" "merge_and_conclude h s c i lease st2 = (r, st')"
    "merged (fst st2) = merged (fst st1)"
    using next2 loud1 prepare_obeys(3,4) h by (elim loud_chain) auto
  then show thesis
    using that prep [unfolded v] would same1 merge_and_conclude_merges by metis
qed

lemma body_loud:
  assumes run: "promote_body h s c secs st = (r, st')" and loud: "merged (fst st') \<noteq> merged (fst st)"
    and h: "spare_index h"
  obtains st0 st1 where "verify_publication s c st = (Inr (), st0)" "fresh_operation h s c secs st1 = (r, st')"
    "merged (fst st1) = merged (fst st)" "index_kept (fst st) (fst st1)"
proof -
  let ?after = "\<lambda>durable. case durable of Some (i, _) \<Rightarrow> recovered_operation h s c i | None \<Rightarrow> fresh_operation h s c secs"
  let ?next = "\<lambda>existing. case existing of
       Some (receipt, ref) \<Rightarrow> on_machine (settled_operation h c receipt ref)
     | None \<Rightarrow> chain (on_machine (read_intent h (pm_operation_id c))) ?after"
  have quiet: "obeys (stagewise silent) (on_machine (read_receipt h (pm_operation_id c)))"
    "obeys (stagewise index_kept) (on_machine (read_receipt h (pm_operation_id c)))"
    "obeys (stagewise silent) (on_machine (read_intent h (pm_operation_id c)))"
    "obeys (stagewise index_kept) (on_machine (read_intent h (pm_operation_id c)))"
    using h by (simp_all add: obedient)
  obtain u st1 where verified: "verify_publication s c st = (Inr u, st1)"
    and run1: "chain (on_machine (read_receipt h (pm_operation_id c))) ?next st1 = (r, st')"
    and loud1: "merged (fst st') \<noteq> merged (fst st1)" and same1: "merged (fst st1) = merged (fst st)"
    and kept1: "index_kept (fst st) (fst st1)"
    using run [unfolded promote_body_def] loud verify_obeys(2,1) by (rule loud_chain)
  obtain existing st2 where "on_machine (read_receipt h (pm_operation_id c)) st1 = (Inr existing, st2)"
    and run2: "?next existing st2 = (r, st')"
    and loud2: "merged (fst st') \<noteq> merged (fst st2)" and same2: "merged (fst st2) = merged (fst st1)"
    and kept2: "index_kept (fst st1) (fst st2)"
    using run1 loud1 quiet(1,2) by (rule loud_chain)
  have "existing = None"
    using run2 loud2 by (cases existing) (auto dest: quiet_run [OF on_machine_obeys [OF settled_obeys(2)]])
  with run2 have run3: "chain (on_machine (read_intent h (pm_operation_id c))) ?after st2 = (r, st')" by simp
  obtain durable st3 where "on_machine (read_intent h (pm_operation_id c)) st2 = (Inr durable, st3)"
    and run4: "?after durable st3 = (r, st')"
    and loud3: "merged (fst st') \<noteq> merged (fst st3)" and same3: "merged (fst st3) = merged (fst st2)"
    and kept3: "index_kept (fst st2) (fst st3)"
    using run3 loud2 quiet(3,4) by (rule loud_chain)
  have "durable = None"
    using run4 loud3 by (cases durable) (auto dest: quiet_run [OF recovered_obeys(2)])
  with run4 have "fresh_operation h s c secs st3 = (r, st')" by simp
  moreover have "index_kept (fst st) (fst st3)" using kept1 kept2 kept3 by (blast intro: index_order.trans)
  ultimately show thesis using that verified same1 same2 same3 by simp
qed

text \<open>The clauses around the body neither call the provider nor take anything from the index.\<close>

lemma give_back_obeys [obedient]:
  "spare_index h \<Longrightarrow> obeys (stagewise index_kept) (give_back h)" "obeys (stagewise silent) (give_back h)"
proof -
  have "obeys (stagewise R) (give_back h)" if "\<And>m. R m m"
    "\<And>lease. obeys R (catching is_failure (release_lease h lease) (\<lambda>_. pass ()))" for R
    using that(1) on_machine_obeys [OF that(2)]
    by (auto simp: obeys_def give_back_def stagewise_def split: option.splits)
  note each = this
  show "obeys (stagewise silent) (give_back h)"
    by (intro each silence.refl silence.obeys_catching silence.obeys_pure release_lease_keeps)
  assume "spare_index h"
  then show "obeys (stagewise index_kept) (give_back h)"
    by (intro each index_order.refl index_order.obeys_catching index_order.obeys_pure release_lease_keeps)
qed

lemma promote_run:
  assumes "promote h s c m = (r, m')"
  obtains "m' = m" "isl r" | r1 st1 v st2 where
    "promote_body h s c (case pm_lease_seconds c of None \<Rightarrow> svc_lease_seconds s | Some n \<Rightarrow> n) (m, start_locals) = (r1, st1)"
    "give_back h st1 = (v, st2)" "m' = fst st2"
    "\<And>x. r = Inr x \<Longrightarrow> r1 = Inr x \<or> (\<exists>e. r1 = Inl e \<and> is_failure e \<and> fst (report_failure h c e st1) = Inr x)"
proof (cases "(case pm_lease_seconds c of None \<Rightarrow> svc_lease_seconds s | Some n \<Rightarrow> n) \<le> 0")
  case True
  then show thesis using that(1) assms by (auto simp: promote_def Let_def)
next
  case False
  let ?secs = "case pm_lease_seconds c of None \<Rightarrow> svc_lease_seconds s | Some n \<Rightarrow> n"
  obtain r1 st1 where body: "promote_body h s c ?secs (m, start_locals) = (r1, st1)"
    by (cases "promote_body h s c ?secs (m, start_locals)")
  obtain v st2 where returned: "give_back h st1 = (v, st2)" by (cases "give_back h st1")
  show thesis
  proof (rule that(2) [OF body returned])
    show "m' = fst st2"
      using assms False body returned
      by (auto simp: promote_def Let_def finally_do_def catching_def report_failure_def split: sum.splits prod.splits if_splits)
    show "r1 = Inr x \<or> (\<exists>e. r1 = Inl e \<and> is_failure e \<and> fst (report_failure h c e st1) = Inr x)" if "r = Inr x" for x
      using that assms False body returned
      by (auto simp: promote_def Let_def finally_do_def catching_def report_failure_def split: sum.splits prod.splits if_splits)
  qed
qed

abbreviation evidence_reader :: "host \<Rightarrow> jval \<Rightarrow> err + PromotionLeaseEvidence" where
  "evidence_reader h \<equiv> \<lambda>v. bind_err (evidence_fields h v) (mk_lease_evidence h)"

lemma assert_lease_evidence_Inr:
  assumes "assert_lease_evidence h oper lease m = (Inr u, m')" and "spare_index h"
  obtains e where "recorded h (files m') ''lease-evidence'' oper (evidence_reader h) e"
    "le_identity e = pl_identity lease" "le_digest e = pl_digest lease"
proof -
  obtain e r where read: "read_lease_evidence h oper m = (Inr (Some (e, r)), m')"
    and "le_identity e = pl_identity lease" "le_digest e = pl_digest lease"
    using assms(1) by (auto simp: assert_lease_evidence_def chain_Inr require_all_Inr split: option.splits)
  moreover have "recorded h (files m') ''lease-evidence'' oper (evidence_reader h) e"
    using journal_read_recorded [OF read [unfolded read_lease_evidence_def] assms(2)] by simp
  ultimately show thesis using that by blast
qed

lemma recorded_indexed: "recorded h d kind oper val x \<Longrightarrow> paths d (index_path kind oper) \<noteq> None"
  by (auto simp: recorded_def refers_to_def)

lemma index_kept_keeps: "index_kept m m' \<longleftrightarrow> keeps_index (files m) (files m')"
  by (simp add: index_kept_def)

lemma verify_publication_Inr:
  assumes "verify_publication s c st = (Inr u, st')"
  shows "assert_publication_binding (pm_publication c) (pm_bundle c) = Inr () \<and>
    publication_verifier s (pm_publication c) (pm_bundle c) = Inr True"
  using assms by (auto simp: verify_publication_def chain_Inr require_all_Inr)

text \<open>Everything that stands behind a request to merge.\<close>

lemma promote_merges:
  assumes run: "promote h s c m = (r, m')" and h: "spare_index h" and loud: "merged m' \<noteq> merged m"
  obtains i lease e n rep where "merged m' = merged m @ [i]"
    "assert_intent_binding i (pm_bundle c) (pm_bundle_digest c) (pm_operation_id c) lease = Inr ()"
    "assert_publication_intent_binding (pm_publication c) i = Inr ()"
    "replay h (svc_controller s) n (pm_bundle c) (pm_bundle_digest c) = Inr rep" "ry_outcome rep = Would_apply"
    "paths (files m) (index_path ''lease-evidence'' (pm_operation_id c)) = None"
    "recorded h (files m') ''lease-evidence'' (pm_operation_id c) (evidence_reader h) e"
    "le_identity e = pl_identity lease" "le_digest e = pl_digest lease"
    "paths (files m') (index_path ''intent'' (pm_operation_id c)) \<noteq> None"
    "assert_publication_binding (pm_publication c) (pm_bundle c) = Inr ()"
    "publication_verifier s (pm_publication c) (pm_bundle c) = Inr True"
proof -
  let ?secs = "case pm_lease_seconds c of None \<Rightarrow> svc_lease_seconds s | Some n \<Rightarrow> n" and ?op = "pm_operation_id c"
  from run show thesis
  proof (rule promote_run)
    assume "m' = m" then show thesis using loud by simp
  next
    fix r1 st1 v st2
    assume body: "promote_body h s c ?secs (m, start_locals) = (r1, st1)" and last_step: "give_back h st1 = (v, st2)"
      and m': "m' = fst st2"
    have same: "merged m' = merged (fst st1)" and kept: "index_kept (fst st1) m'"
      using quiet_run [OF give_back_obeys(2) last_step] obeysD [OF give_back_obeys(1) [OF h] last_step] m'
      by (simp_all add: stagewise_def)
    obtain s0 sf where verified: "verify_publication s c (m, start_locals) = (Inr (), s0)"
      and fresh: "fresh_operation h s c ?secs sf = (r1, st1)" and sf: "merged (fst sf) = merged m"
      "index_kept m (fst sf)"
      using body loud h same by (elim body_loud) auto
    obtain lease i rep sp sd where prep: "prepare_operation h s c ?secs sf = (Inr (lease, i, rep), sp)"
      and would: "ry_outcome rep = Would_apply" and decl: "declare_intent h s i lease sp = (Inr (), sd)"
      and merge: "merge_and_conclude h s c i lease sd = (r1, st1)" and one: "merged (fst st1) = merged (fst sf) @ [i]"
      using fresh loud same sf(1) h by (elim fresh_loud) auto
    obtain m1 m2 m3 n where
      acq: "acquire_lease h (gs_repository_digest (bn_snapshot (pm_bundle c))) (gs_target_ref (bn_snapshot (pm_bundle c)))
        ?op ?secs None (fst sf) = (Inr lease, m1)"
      and ev: "assert_lease_evidence h ?op lease m2 = (Inr (), m3)" and kept3: "index_kept m3 (fst sp)"
      and bound: "assert_intent_binding i (pm_bundle c) (pm_bundle_digest c) ?op lease = Inr ()"
        "assert_publication_intent_binding (pm_publication c) i = Inr ()"
        "replay h (svc_controller s) n (pm_bundle c) (pm_bundle_digest c) = Inr rep"
      using prep h by (rule prepare_operation_Inr)
    obtain m4 m5 ref where rec: "record_intent h i m4 = (Inr ref, m5)" and kept4: "index_kept (fst sp) m4" "index_kept m5 (fst sd)"
      using decl h by (rule declare_intent_Inr)
    have to_end: "index_kept (fst sd) m'"
      using obeysD [OF merge_obeys [OF h] merge] kept by (auto simp: stagewise_def intro: index_order.trans)
    have kept45: "index_kept m4 m5" using obeysD [OF record_obeys(1) [OF h] rec] .
    have "paths (files m) (index_path ''lease-evidence'' ?op) = None"
      using acquire_needs_fresh_operation [OF h] acq index_keptD [OF sf(2)] by blast
    moreover obtain e where e: "recorded h (files m3) ''lease-evidence'' ?op (evidence_reader h) e"
      "le_identity e = pl_identity lease" "le_digest e = pl_digest lease"
      using ev h by (rule assert_lease_evidence_Inr)
    moreover have "index_kept m3 m'"
      using index_order.trans [OF kept3 index_order.trans [OF kept4(1) index_order.trans [OF kept45
        index_order.trans [OF kept4(2) to_end]]]] .
    moreover have "pi_operation_id i = ?op"
      using bound(1) by (auto simp: assert_intent_binding_def assert_intent_binding_without_lease_def bind_err_eq_Inr require_all_Inr)
    then have "paths (files m5) (index_path ''intent'' ?op) \<noteq> None"
      using journal_record_index [OF rec [unfolded record_intent_def] h] by simp
    then have "paths (files m') (index_path ''intent'' ?op) \<noteq> None"
      using kept4(2) to_end index_keptD by (blast intro: index_order.trans)
    ultimately show thesis
      using that [of i lease n rep e] verify_publication_Inr [OF verified] bound would one sf(1) same by (auto simp: index_kept_keeps dest: recorded_kept)
  qed
qed

section \<open>No operation is merged twice\<close>

fun run_promotions :: "(host \<times> service \<times> promotion_call) list \<Rightarrow> machine \<Rightarrow> machine" where
  "run_promotions [] m = m"
| "run_promotions ((h, s, c) # cs) m = run_promotions cs (snd (promote h s c m))"

definition merged_once :: "machine \<Rightarrow> bool" where
  "merged_once m \<longleftrightarrow> distinct (map pi_operation_id (merged m)) \<and>
     (\<forall>i\<in>set (merged m). paths (files m) (index_path ''lease-evidence'' (pi_operation_id i)) \<noteq> None)"

lemma promote_index: "spare_index h \<Longrightarrow> promote h s c m = (r, m') \<Longrightarrow> index_kept m m'"
proof (erule promote_run)
  assume "m' = m" then show "index_kept m m'" by (simp add: index_order.refl)
next
  fix r1 st1 v st2
  assume h: "spare_index h" and body: "promote_body h s c (case pm_lease_seconds c of None \<Rightarrow> svc_lease_seconds s | Some n \<Rightarrow> n)
    (m, start_locals) = (r1, st1)" and last_step: "give_back h st1 = (v, st2)" and "m' = fst st2"
  then show "index_kept m m'"
    using obeysD [OF body_obeys [OF h] body] obeysD [OF give_back_obeys(1) [OF h] last_step]
    by (auto simp: stagewise_def intro: index_order.trans)
qed

lemma promote_merged_once:
  assumes run: "promote h s c m = (r, m')" and h: "spare_index h" and once: "merged_once m"
  shows "merged_once m'"
proof (cases "merged m' = merged m")
  case True
  then show ?thesis using once index_keptD [OF promote_index [OF h run]] by (auto simp: merged_once_def)
next
  case False
  obtain i lease e where new: "merged m' = merged m @ [i]"
    and bound: "assert_intent_binding i (pm_bundle c) (pm_bundle_digest c) (pm_operation_id c) lease = Inr ()"
    and fresh: "paths (files m) (index_path ''lease-evidence'' (pm_operation_id c)) = None"
    and rec: "recorded h (files m') ''lease-evidence'' (pm_operation_id c) (evidence_reader h) e"
    using run h False by (rule promote_merges)
  have "pi_operation_id i = pm_operation_id c"
    using bound by (auto simp: assert_intent_binding_def assert_intent_binding_without_lease_def bind_err_eq_Inr require_all_Inr)
  then show ?thesis
    using once new fresh recorded_indexed [OF rec] index_keptD [OF promote_index [OF h run]]
    by (force simp: merged_once_def)
qed

text \<open>
  C10. No operation is merged twice: through any sequence of promotions, by any services on any
  hosts, with any providers, clocks and disk faults, the intents handed to the provider have
  distinct operation identities, as long as nothing removes or rewrites an entry of the
  journal's index.
\<close>

theorem merge_at_most_once:
  assumes "\<forall>x\<in>set cs. spare_index (fst x)" and "merged m = []"
  shows "distinct (map pi_operation_id (merged (run_promotions cs m)))"
proof -
  have "merged_once (run_promotions cs m)" if "merged_once m" "\<forall>x\<in>set cs. spare_index (fst x)"
    using that
  proof (induction cs m rule: run_promotions.induct)
    case (2 h s c cs m)
    then show ?case using promote_merged_once [of h s c m] by (cases "promote h s c m") auto
  qed simp
  then show ?thesis using assms by (simp add: merged_once_def)
qed

text \<open>The digest that the index entry of a record names has one preimage.\<close>

definition sole_preimage :: "host \<Rightarrow> disk \<Rightarrow> string \<Rightarrow> string \<Rightarrow> bool" where
  "sole_preimage h d kind oper \<longleftrightarrow>
     (\<forall>r data. refers_to h d kind oper r \<and> sha256 h data = removeprefix ''sha256:'' (ar_digest r) \<longrightarrow>
        collision_free (sha256 h) data)"

lemma record_unique:
  assumes "recorded h d kind oper val x" and "recorded h d kind oper val y" and "sole_preimage h d kind oper"
  shows "x = y"
proof -
  obtain r data v where x: "refers_to h d kind oper r" "sha256 h data = removeprefix ''sha256:'' (ar_digest r)"
    "loads h data = Inr v" "val v = Inr x"
    using assms(1) by (auto simp: recorded_def)
  obtain r' data' v' where y: "refers_to h d kind oper r'" "sha256 h data' = removeprefix ''sha256:'' (ar_digest r')"
    "loads h data' = Inr v'" "val v' = Inr y"
    using assms(2) by (auto simp: recorded_def)
  have "r' = r" using x(1) y(1) by (auto simp: refers_to_def)
  moreover have "collision_free (sha256 h) data" using assms(3) x(1,2) by (auto simp: sole_preimage_def)
  ultimately have "data' = data" using x(2) y(2) by (simp add: collision_free_def)
  then show ?thesis using x(3,4) y(3,4) by simp
qed


section \<open>Success is exact and durable\<close>

text \<open>
  The receipt of a landed promotion: for this operation and bundle, the target branch of the
  snapshot was seen at the commit of the merge, whose tree is the published candidate's and whose
  parent is the commit the snapshot was taken at.
\<close>

definition lands_exactly :: "promotion_call \<Rightarrow> IntegrationPromotionReceipt \<Rightarrow> bool" where
  "lands_exactly c r \<longleftrightarrow>
     rc_operation_id r = pm_operation_id c \<and> rc_bundle_digest r = pm_bundle_digest c \<and>
     observed_target_ref r = gs_target_ref (bn_snapshot (pm_bundle c)) \<and>
     observed_head_commit r \<noteq> None \<and> applied_result_commit r = observed_head_commit r \<and>
     observed_head_tree r = Some (cpb_candidate_tree (pm_publication c)) \<and>
     applied_result_parent_commit r = Some (gs_commit (bn_snapshot (pm_bundle c)))"

definition bound_intent :: "promotion_call \<Rightarrow> IntegrationPromotionIntent \<Rightarrow> bool" where
  "bound_intent c i \<longleftrightarrow>
     assert_intent_binding_without_lease i (pm_bundle c) (pm_bundle_digest c) (pm_operation_id c) = Inr () \<and>
     assert_publication_intent_binding (pm_publication c) i = Inr ()"

lemma bound_intent_fields:
  assumes "bound_intent c i"
  shows "pi_operation_id i = pm_operation_id c \<and> pi_bundle_digest i = pm_bundle_digest c \<and>
    pi_target_ref i = gs_target_ref (bn_snapshot (pm_bundle c)) \<and> pi_base_commit i = gs_commit (bn_snapshot (pm_bundle c)) \<and>
    pi_candidate_tree i = cpb_candidate_tree (pm_publication c)"
  using assms
  by (auto simp: bound_intent_def assert_intent_binding_without_lease_def assert_publication_intent_binding_def require_all_Inr)

lemma receipt_exact:
  assumes "validate_observation h r = Inr r" and "success (rc_outcome r)"
  shows "observed_target_ref r = expected_target_ref r \<and> observed_head_commit r \<noteq> None \<and>
    applied_result_commit r = observed_head_commit r \<and> observed_head_tree r = Some (expected_candidate_tree r) \<and>
    applied_result_parent_commit r = Some (expected_base_commit r)"
  using assms(1) unfolding validate_observation_def Let_def bind_err_eq_Inr require_all_Inr list_all_append
    list.pred_inject fst_conv
  by (elim exE conjE) (simp add: assms(2))

lemma build_receipt_lands:
  assumes made: "build_receipt h i g p outcome = Inr r" and ok: "success outcome" and bound: "bound_intent c i"
    and i: "mk_intent h i0 = Inr i"
  shows "lands_exactly c r \<and> rc_outcome r = outcome"
proof -
  obtain r0 where "mk_receipt h r0 = Inr r" and r0: "rc_operation_id r0 = pi_operation_id i"
    "rc_bundle_digest r0 = pi_bundle_digest i" "expected_target_ref r0 = pi_target_ref i"
    "expected_candidate_tree r0 = pi_candidate_tree i" "expected_base_commit r0 = pi_base_commit i" "rc_outcome r0 = outcome"
    using made by (auto simp: build_receipt_def Let_def bind_err_eq_Inr)
  then have r: "rc_operation_id r = pi_operation_id i" "rc_bundle_digest r = pi_bundle_digest i"
    "expected_target_ref r = pi_target_ref i" "expected_candidate_tree r = pi_candidate_tree i"
    "expected_base_commit r = pi_base_commit i" "rc_outcome r = outcome" "validate_observation h r = Inr r"
    using mk_receipt_Inr [of h r0 r] mk_intent_Inr [OF i] by simp_all
  have "observed_target_ref r = expected_target_ref r \<and> observed_head_commit r \<noteq> None \<and>
    applied_result_commit r = observed_head_commit r \<and> observed_head_tree r = Some (expected_candidate_tree r) \<and>
    applied_result_parent_commit r = Some (expected_base_commit r)"
    using r ok by (intro receipt_exact) simp_all
  then show ?thesis using r bound_intent_fields [OF bound] by (simp add: lands_exactly_def)
qed

lemma report_outcome: "report h oper x checks errors receipt ref = Inr rep \<Longrightarrow> rp_outcome rep = x"
  by (auto simp: report_def mk_promotion_report_def bind_err_eq_Inr validate_fields_Inr field_Inr)

lemma report_digest:
  "report h oper x checks errors receipt (Some ref) = Inr rep \<Longrightarrow> rp_receipt_digest rep = Some (strip (ar_digest ref))"
  by (auto simp: report_def mk_promotion_report_def bind_err_eq_Inr validate_fields_Inr field_Inr text_validators
      optional_def split: option.splits)

text \<open>A digest stands for a receipt: bytes with that digest are what the receipt is written as or read from.\<close>

definition stands_for :: "host \<Rightarrow> string \<Rightarrow> IntegrationPromotionReceipt \<Rightarrow> bool" where
  "stands_for h digest r \<longleftrightarrow>
     (\<exists>data. digest = ''sha256:'' @ sha256 h data \<and>
        (canonical_bytes h (receipt_json r) = Inr data \<or>
         (\<exists>v. loads h data = Inr v \<and> bind_err (receipt_fields h v) (mk_receipt h) = Inr r)))"

text \<open>What a successful report rests on, at the end of the run.\<close>

definition landed :: "host \<Rightarrow> promotion_call \<Rightarrow> IntegrationPromotionReport \<Rightarrow> machine \<Rightarrow> bool" where
  "landed h c rep m \<longleftrightarrow>
     (\<exists>r digest. rp_receipt_digest rep = Some digest \<and> stands_for h digest r \<and> lands_exactly c r \<and>
        rc_outcome r = rp_outcome rep) \<and>
     paths (files m) (index_path ''receipt'' (pm_operation_id c)) \<noteq> None"

lemma landed_kept: "landed h c rep m \<Longrightarrow> index_kept m m' \<Longrightarrow> landed h c rep m'"
  by (auto simp: landed_def dest: index_keptD)

lemma put_object_digest:
  assumes "put_object h data mt role m = (Inr a, m')" and "hex_hash (sha256 h)"
  shows "ar_digest a = ''sha256:'' @ sha256 h data"
  using assms strip_digest [OF assms(2)]
  by (auto simp: put_object_def step_eq mk_artifact_ref_def bind_err_eq_Inr text_validators split: prod.splits if_splits
      elim!: store_put_Inr)

lemma journal_record_digest:
  assumes "journal_record h kind oper v m = (Inr ref, m')" and "hex_hash (sha256 h)"
  shows "\<exists>data. canonical_bytes h v = Inr data \<and> ar_digest ref = ''sha256:'' @ sha256 h data"
  using assms(1) put_object_digest [OF _ assms(2)]
  by (fastforce simp: journal_record_def chain_Inr catching_Inr split: if_splits)

lemma record_receipt_landed:
  assumes rec: "record_receipt h r m = (Inr ref, m')" and h: "spare_index h" and hash: "hex_hash (sha256 h)"
    and "lands_exactly c r \<and> rc_outcome r = rp_outcome rep" and "rp_receipt_digest rep = Some (strip (ar_digest ref))"
  shows "landed h c rep m'"
proof -
  obtain data where "canonical_bytes h (receipt_json r) = Inr data" and d: "ar_digest ref = ''sha256:'' @ sha256 h data"
    using journal_record_digest [OF rec [unfolded record_receipt_def] hash] by blast
  then have "stands_for h (strip (ar_digest ref)) r"
    unfolding stands_for_def d strip_digest [OF hash] by blast
  then show ?thesis
    using journal_record_index [OF rec [unfolded record_receipt_def] h] assms(4,5) by (auto simp: landed_def lands_exactly_def)
qed

lemma journal_read_digest:
  assumes "journal_read h kind oper val op m = (Inr (Some (x, r)), m')"
  shows "\<exists>data v. ar_digest r = ''sha256:'' @ sha256 h data \<and> strip (ar_digest r) = ar_digest r \<and>
    loads h data = Inr v \<and> val v = Inr x"
proof -
  obtain m1 m2 data v where ref: "stored_reference h (index_path kind oper) m1 = (Inr r, m2)"
    and obj: "read_object h r m2 = (Inr data, m')" and "loads h data = Inr v" "val v = Inr x"
    using assms(1) by (auto simp: journal_read_def chain_Inr catching_Inr split: if_splits)
  moreover from ref obtain r0 where "mk_artifact_ref r0 = Inr r" by (auto simp: stored_reference_def chain_Inr)
  then have "strip (ar_digest r) = ar_digest r" "is_sha256 (ar_digest r)"
    by (auto simp: mk_artifact_ref_def bind_err_eq_Inr text_validators split: if_splits)
  moreover have "sha256 h data = removeprefix ''sha256:'' (ar_digest r)" using obj by (rule read_object_Inr)
  ultimately show ?thesis using is_sha256_split by metis
qed

lemma conclude_landed:
  assumes run: "conclude_merge h s c i lease g st = (Inr rep, st')" and ok: "success (rp_outcome rep)"
    and bound: "bound_intent c i" and i: "mk_intent h i0 = Inr i" and h: "spare_index h" "hex_hash (sha256 h)"
  shows "landed h c rep (fst st')"
proof -
  obtain p r m1 m2 ref where made: "build_receipt h i g p (classify_merge g p i) = Inr r"
    and rec: "record_receipt h r m1 = (Inr ref, m2)" and st': "fst st' = m2"
    and rep: "\<exists>checks errors. report h (pm_operation_id c) (classify_merge g p i) checks errors (Some r) (Some ref) = Inr rep"
    using run
    by (clarsimp simp: conclude_merge_def Let_def chain_Inr on_machine_eq assign_eq append_checks_def report_now_def) blast
  have rep: "rp_outcome rep = classify_merge g p i" "rp_receipt_digest rep = Some (strip (ar_digest ref))"
    using rep report_outcome report_digest by blast+
  have "lands_exactly c r \<and> rc_outcome r = rp_outcome rep"
    using build_receipt_lands [OF made _ bound i] ok rep by simp
  then show ?thesis using record_receipt_landed [OF rec h] rep(2) st' by simp
qed

lemma merge_landed:
  assumes run: "merge_and_conclude h s c i lease st = (Inr rep, st')" and ok: "success (rp_outcome rep)"
    and bound: "bound_intent c i" and i: "mk_intent h i0 = Inr i" and h: "spare_index h" "hex_hash (sha256 h)"
  shows "landed h c rep (fst st')"
proof -
  obtain answer st1 where rest: "(case answer of
       Inr g \<Rightarrow> conclude_merge h s c i lease g
     | Inl x \<Rightarrow> if is_precondition_error x then refused_merge h c i x
         else if is_failure x then chain (lift (ambiguous_merge h x)) (conclude_merge h s c i lease)
         else fail x) st1 = (Inr rep, st')"
    using run unfolding merge_and_conclude_def chain_Inr by blast
  have "rp_outcome rep = Invalid" if "refused_merge h c i x st1 = (Inr rep, st')" for x
    using that by (auto simp: refused_merge_def chain_Inr report_now_def dest!: report_outcome)
  with rest ok have "\<exists>g. conclude_merge h s c i lease g st1 = (Inr rep, st')"
    by (cases answer) (auto simp: chain_Inr success_def split: if_splits)
  then show ?thesis using conclude_landed ok bound i h by blast
qed

lemma fresh_landed:
  assumes run: "fresh_operation h s c secs st = (Inr rep, st')" and ok: "success (rp_outcome rep)"
    and h: "spare_index h" "hex_hash (sha256 h)"
  shows "landed h c rep (fst st')"
proof -
  obtain lease i rr st1 where prep: "prepare_operation h s c secs st = (Inr (lease, i, rr), st1)"
    and rest: "(if ry_outcome rr \<noteq> Would_apply
       then chain (assign (safe_release_update (\<lambda>_. True))) (\<lambda>_.
         report_now h (pm_operation_id c) (replayed (ry_outcome rr)) [] (ry_errors rr) None None)
       else chain (declare_intent h s i lease) (\<lambda>_. merge_and_conclude h s c i lease)) st1 = (Inr rep, st')"
    using run by (auto simp: fresh_operation_def chain_Inr)
  have "\<not> success (replayed x)" for x by (cases x) (simp_all add: success_def)
  then obtain st2 where merge: "merge_and_conclude h s c i lease st2 = (Inr rep, st')"
    using rest ok by (auto simp: chain_Inr report_now_def split: if_splits dest!: report_outcome)
  obtain i0 where "mk_intent h i0 = Inr i" "bound_intent c i"
    using prep h(1)
    by (elim prepare_operation_Inr) (auto simp: bind_err_eq_Inr bound_intent_def assert_intent_binding_def)
  then show ?thesis using merge_landed [OF merge ok] h by blast
qed

lemma reconcile_success:
  assumes run: "reconcile_intent h s c i a st = (Inr rep, st')" and ok: "success (rp_outcome rep)"
  obtains g p r m1 m2 ref released where "build_receipt h i g p Already_applied = Inr r"
    "record_receipt h r m1 = (Inr ref, m2)" "release_recovered h i m2 = (Inr released, fst st')"
    "rp_outcome rep = Already_applied" "rp_receipt_digest rep = Some (strip (ar_digest ref))"
proof -
  obtain p st1 where rest: "(if classify_reconciliation p i \<noteq> Already_applied
     then report_now h (pm_operation_id c) Reconciliation_required [] [''existing intent requires reconciliation''] None None
     else
       chain (lift (digest_of h (reconciliation_json p))) (\<lambda>digest.
       chain (lift (mk_merge_result \<lparr>mr_outcome = Merge_ambiguous, result_commit = None, result_tree = None,
         first_parent_commit = None, mr_main_protection_evidence_digest = None, response_digest = digest,
         mr_error = Some ''reconciled existing intent''\<rparr>)) (\<lambda>g.
       chain (lift (build_receipt h i g p (classify_reconciliation p i))) (\<lambda>receipt.
       chain (on_machine (record_receipt h receipt)) (\<lambda>ref.
       chain (on_machine (release_recovered h i)) (\<lambda>_.
       chain (assign (safe_release_update (\<lambda>_. True))) (\<lambda>_.
       report_now h (pm_operation_id c) (classify_reconciliation p i) [] [] (Some receipt) (Some ref))))))))
     st1 = (Inr rep, st')"
    using run unfolding reconcile_intent_def chain_Inr Let_def by blast
  have "classify_reconciliation p i = Already_applied"
    using rest ok by (auto simp: report_now_def success_def split: if_splits dest!: report_outcome)
  with rest obtain g r ref m1 m2 released where "build_receipt h i g p Already_applied = Inr r"
    "record_receipt h r m1 = (Inr ref, m2)" "release_recovered h i m2 = (Inr released, fst st')"
    and rep: "\<exists>checks. report h (pm_operation_id c) Already_applied checks [] (Some r) (Some ref) = Inr rep"
    by (clarsimp simp: chain_Inr on_machine_eq assign_eq report_now_def) blast
  moreover have "rp_outcome rep = Already_applied" "rp_receipt_digest rep = Some (strip (ar_digest ref))"
    using rep report_outcome report_digest by blast+
  ultimately show thesis using that by blast
qed

lemma recovered_landed:
  assumes run: "recovered_operation h s c i st = (Inr rep, st')" and ok: "success (rp_outcome rep)"
    and h: "spare_index h" "hex_hash (sha256 h)" and i: "mk_intent h i0 = Inr i"
  shows "landed h c rep (fst st')"
proof -
  obtain authorization :: "(PromotionMutationAuthorization \<times> ArtifactRef) option" and u v m1 m2 m3 m4 st1 where checked:
    "lift (assert_intent_binding_without_lease i (pm_bundle c) (pm_bundle_digest c) (pm_operation_id c)) (m1 :: machine \<times> locals) = (Inr u, m2)"
    "lift (assert_publication_intent_binding (pm_publication c) i) (m3 :: machine \<times> locals) = (Inr v, m4)"
    and rest: "(case authorization of
       None \<Rightarrow> lift (report h (pm_operation_id c) Invalid [''intent_existing'', ''mutation_authorization_missing'']
         [''durable intent has no mutation authorization marker''] None None)
     | Some (a, _) \<Rightarrow> reconcile_intent h s c i a) st1 = (Inr rep, st')"
    using run unfolding recovered_operation_def chain_Inr by blast
  have bound: "bound_intent c i" using checked by (simp add: bound_intent_def)
  from rest obtain a where "reconcile_intent h s c i a st1 = (Inr rep, st')"
    using ok by (cases authorization) (auto simp: success_def dest!: report_outcome)
  then obtain g p r m1 m2 ref released where made: "build_receipt h i g p Already_applied = Inr r"
    and rec: "record_receipt h r m1 = (Inr ref, m2)" and last_step: "release_recovered h i m2 = (Inr released, fst st')"
    and rep: "rp_outcome rep = Already_applied" "rp_receipt_digest rep = Some (strip (ar_digest ref))"
    using ok by (rule reconcile_success)
  have "lands_exactly c r \<and> rc_outcome r = rp_outcome rep"
    using build_receipt_lands [OF made _ bound i] rep by (simp add: success_def)
  then have "landed h c rep m2" using record_receipt_landed [OF rec h] rep(2) by blast
  then show ?thesis using obeysD [OF provider_obeys(7) [OF h(1)] last_step] landed_kept by blast
qed

lemma settled_landed:
  assumes run: "settled_operation h c r ref m = (Inr rep, m')" and ok: "success (rp_outcome rep)" and h: "spare_index h"
    and r: "mk_receipt h r0 = Inr r" and there: "paths (files m) (index_path ''receipt'' (pm_operation_id c)) \<noteq> None"
    and ref: "stands_for h (strip (ar_digest ref)) r"
  shows "landed h c rep m'"
proof -
  have *: "\<exists>i. bound_intent c i \<and> assert_receipt_binding h r i = Inr () \<and>
      report h (pm_operation_id c) (rc_outcome r) [''receipt_existing''] [] (Some r) (Some ref) = Inr rep"
    using run ok
    by (auto simp: settled_operation_def chain_Inr success_def bound_intent_def split: option.splits if_splits
        dest: report_outcome)
  then obtain i where bound: "bound_intent c i" and same: "assert_receipt_binding h r i = Inr ()"
    and rep: "rp_outcome rep = rc_outcome r" "rp_receipt_digest rep = Some (strip (ar_digest ref))"
    using report_outcome report_digest by blast
  have r': "rc_operation_id r = pi_operation_id i" "rc_bundle_digest r = pi_bundle_digest i"
    "expected_target_ref r = pi_target_ref i" "expected_candidate_tree r = pi_candidate_tree i"
    "expected_base_commit r = pi_base_commit i"
    using same by (auto simp: assert_receipt_binding_def bind_err_eq_Inr require_all_Inr)
  have "lands_exactly c r"
    using receipt_exact [of h r] mk_receipt_Inr [OF r] ok rep r' bound_intent_fields [OF bound] by (simp add: lands_exactly_def)
  moreover have "index_kept m m'" using obeysD [OF settled_obeys(1) [OF h] run] .
  ultimately show ?thesis using there rep ref index_keptD by (auto simp: landed_def)
qed

lemma body_landed:
  assumes body: "promote_body h s c secs st = (Inr rep, st')" and ok: "success (rp_outcome rep)"
    and h: "spare_index h" "hex_hash (sha256 h)"
  shows "landed h c rep (fst st')"
proof -
  let ?op = "pm_operation_id c"
  let ?after = "\<lambda>durable. case durable of Some (i, _) \<Rightarrow> recovered_operation h s c i | None \<Rightarrow> fresh_operation h s c secs"
  obtain existing m1 st2 where read: "read_receipt h ?op m1 = (Inr existing, fst st2)"
    and rest: "(case existing of
       Some (receipt, ref) \<Rightarrow> on_machine (settled_operation h c receipt ref)
     | None \<Rightarrow> chain (on_machine (read_intent h ?op)) ?after) st2 = (Inr rep, st')"
    using body unfolding promote_body_def chain_Inr on_machine_eq by blast
  show ?thesis
  proof (cases existing)
    case (Some x)
    obtain receipt ref where x: "x = (receipt, ref)" by (cases x)
    note read = read [unfolded read_receipt_def Some x]
    have there: "recorded h (files (fst st2)) ''receipt'' ?op (\<lambda>v. bind_err (receipt_fields h v) (mk_receipt h)) receipt"
      using journal_read_recorded [OF read h(1)] by simp
    then obtain r0 where r0: "mk_receipt h r0 = Inr receipt" by (auto simp: recorded_def bind_err_eq_Inr)
    have ref: "stands_for h (strip (ar_digest ref)) receipt"
      using journal_read_digest [OF read] by (auto simp: stands_for_def)
    have run: "settled_operation h c receipt ref (fst st2) = (Inr rep, fst st')"
      using rest Some x by (simp add: on_machine_eq)
    show ?thesis using run ok h(1) r0 recorded_indexed [OF there] ref by (rule settled_landed)
  next
    case None
    then obtain durable st3 where intent: "read_intent h ?op (fst st2) = (Inr durable, fst st3)"
      and rest: "?after durable st3 = (Inr rep, st')"
      using rest by (auto simp: chain_Inr on_machine_eq)
    show ?thesis
    proof (cases durable)
      case None
      then show ?thesis using rest fresh_landed [OF _ ok h] by auto
    next
      case (Some x)
      obtain i ref where x: "x = (i, ref)" by (cases x)
      obtain i0 where "mk_intent h i0 = Inr i"
        using journal_read_recorded [OF intent [unfolded read_intent_def Some x] h(1)]
        by (auto simp: recorded_def bind_err_eq_Inr)
      then show ?thesis using rest Some x recovered_landed [OF _ ok h] by auto
    qed
  qed
qed


text \<open>
  C12. What stands behind a merge: a call hands the provider at most one intent; and then the
  publication was bound to the bundle and accepted by its verifier, the intent names this
  operation, bundle and publication, a replay of the bundle would apply it, and the intent's
  index entry is on the disk.
\<close>

theorem merge_guarded:
  assumes "promote h s c m = (r, m')" and "spare_index h" and "merged m' \<noteq> merged m"
  shows "\<exists>i n rep. merged m' = merged m @ [i] \<and> bound_intent c i \<and>
    assert_publication_binding (pm_publication c) (pm_bundle c) = Inr () \<and>
    publication_verifier s (pm_publication c) (pm_bundle c) = Inr True \<and>
    replay h (svc_controller s) n (pm_bundle c) (pm_bundle_digest c) = Inr rep \<and> ry_outcome rep = Would_apply \<and>
    paths (files m') (index_path ''intent'' (pm_operation_id c)) \<noteq> None"
proof -
  obtain i lease n rep where new: "merged m' = merged m @ [i]"
    and bound: "assert_intent_binding i (pm_bundle c) (pm_bundle_digest c) (pm_operation_id c) lease = Inr ()"
      "assert_publication_intent_binding (pm_publication c) i = Inr ()"
    and guards: "replay h (svc_controller s) n (pm_bundle c) (pm_bundle_digest c) = Inr rep" "ry_outcome rep = Would_apply"
      "paths (files m') (index_path ''intent'' (pm_operation_id c)) \<noteq> None"
      "assert_publication_binding (pm_publication c) (pm_bundle c) = Inr ()"
      "publication_verifier s (pm_publication c) (pm_bundle c) = Inr True"
    using assms by (rule promote_merges)
  have "bound_intent c i" using bound by (auto simp: bound_intent_def assert_intent_binding_def bind_err_eq_Inr)
  then show ?thesis using new guards by (intro exI [of _ i] exI [of _ n] exI [of _ rep]) simp
qed

end
