(* ===== verification/PromotionScenario.thy ===== *)
theory PromotionScenario
  imports IntegrationPromotion
begin

text \<open>
  One promotion from the bundle to the receipt, on concrete values: a controller whose policy
  allows the change, a provider that merges, a healthy disk. The encoder of this host writes
  every value as the empty string, whose hash is the only one that is needed, so that the
  evaluation is about the protocol. The theorems on promotions are applied to this run.
\<close>

section \<open>The host\<close>

definition scenario_hash :: "bytes \<Rightarrow> string" where
  "scenario_hash data = replicate 64 (if data = [] then CHR ''a'' else CHR ''b'')"

definition sample_digest :: string where
  "sample_digest = ''sha256:'' @ scenario_hash []"

definition sample_object :: "char \<Rightarrow> string" where
  "sample_object c = replicate 40 c"

definition sample_evidence :: PromotionLeaseEvidence where
  "sample_evidence = \<lparr>le_operation_id = sample_digest, le_repository_digest = sample_digest, le_target_ref = integration_ref,
     le_identity = ''lease-1'', le_acquired_at = Aware 0 0, le_expires_at = Aware (seconds 60) 0, le_digest = sample_digest\<rparr>"

definition sample_lease_document :: jval where
  "sample_lease_document = JObj
     (lease_payload (\<lambda>t. if t = Aware 0 0 then ''start'' else ''end'') sample_digest sample_digest integration_ref ''lease-1''
        (Aware 0 0) (Aware (seconds 60) 0) @ [(''digest'', JStr sample_digest)])"

definition sample_reference :: ArtifactRef where
  "sample_reference = \<lparr>ar_digest = sample_digest, ar_size_bytes = 0, ar_media_type = media,
     ar_role = ''promotion-lease-evidence'', ar_created_at = Aware 0 0\<rparr>"

definition sample_host :: host where
  "sample_host = \<lparr>nfc = (\<lambda>t. t), casefold = (\<lambda>t. t), sha256 = scenario_hash, rfc8785 = (\<lambda>v. Inr []),
     loads = (\<lambda>data. Inr sample_lease_document),
     fromisoformat = (\<lambda>t. Inr (Aware (if t = ''start'' then 0 else seconds 60) 0)),
     artifact_ref_fields = (\<lambda>v. Inr sample_reference), intent_fields = (\<lambda>v. Inl (ValueError ''intent'')),
     receipt_fields = (\<lambda>v. Inl (ValueError ''receipt'')), evidence_fields = (\<lambda>v. Inr sample_evidence),
     authorization_fields = (\<lambda>v. Inl (ValueError ''authorization'')), max_record_bytes = 4096,
     clock_at = (\<lambda>n. Aware 0 0), utc_at = (\<lambda>n. seconds 1), identity_at = (\<lambda>n. ''lease-1''),
     fault_at = (\<lambda>n. Healthy), others_at = (\<lambda>n d. d), race_at = (\<lambda>n. alone), env_at = (\<lambda>n. call_at ''t'' 0)\<rparr>"

section \<open>The bundle\<close>

definition sample_claim :: attestation where
  "sample_claim = \<lparr>at_candidate_digest = sample_digest, at_base_digest = sample_digest, at_evidence_digest = sample_digest,
     at_issuer_id = ''ci'', at_valid_from_epoch = 1, at_valid_until_epoch = 9\<rparr>"

definition sample_check :: "string \<Rightarrow> GateAttestation" where
  "sample_check n = attestation.extend sample_claim (GateAttestation.fields n True)"

definition sample_approval :: "string \<Rightarrow> ReviewerAttestation" where
  "sample_approval n = attestation.extend sample_claim (ReviewerAttestation.fields n True)"

definition sample_request :: PromotionRequest where
  "sample_request = \<lparr>pq_candidate_id = ''cand'', pq_proposer_id = ''agent'', pq_candidate_digest = sample_digest,
     pq_base_digest = sample_digest, changed_paths = [''src/app/x.py''],
     path_manifest_attestation = attestation.extend sample_claim (PathManifestAttestation.fields sample_digest),
     base_attestation = sample_check ''base'', gate_attestations = [sample_check ''ci''],
     reviewer_attestations = [sample_approval ''ann'', sample_approval ''bob''],
     rollback_attestation = Some (attestation.extend sample_claim (RollbackAttestation.fields 0 True)),
     exception_requested = False\<rparr>"

definition sample_controller_config :: PromotionControllerConfig where
  "sample_controller_config = \<lparr>controller_identity = ''controller'', controller_version = ''1'', base_issuer_id = ''ci'',
     path_issuer_id = ''ci'', pc_policy = demo_promotion_config\<lparr>candidate_proposers_dict := [(sample_digest, ''agent'')]\<rparr>\<rparr>"

definition sample_decision :: PromotionDecision where
  "sample_decision = \<lparr>pdn_candidate_id = ''cand'', pdn_outcome = PO_ALLOW, risk_class = ORDINARY,
     pdn_reason_codes = [''requirements_satisfied''], required_quorum = 2\<rparr>"

definition sample_snapshot :: GitRefSnapshot where
  "sample_snapshot = \<lparr>gs_repository_digest = sample_digest, gs_target_ref = integration_ref, gs_commit = sample_object (CHR ''1''),
     gs_tree = sample_object (CHR ''2''), gs_source_tree_digest = sample_digest, gs_protection_evidence_digest = sample_digest\<rparr>"

definition sample_bundle :: PromotionBundle where
  "sample_bundle = \<lparr>bn_snapshot = sample_snapshot,
     bn_comparison = \<lparr>wc_target_ref = integration_ref, wc_base_digest = sample_digest, wc_candidate_digest = sample_digest,
       wc_changed_paths = [''src/app/x.py'']\<rparr>,
     bn_request = sample_request, bn_request_digest = sample_digest, bn_controller_config = sample_controller_config,
     bn_controller_config_digest = sample_digest, bn_decision = sample_decision, bn_decision_digest = sample_digest,
     bn_provenance = \<lparr>pv_candidate_digest = sample_digest, pv_base_digest = sample_digest,
       source_provenance_digest = sample_digest, pv_request_digest = sample_digest,
       pv_controller_config_digest = sample_digest, pv_decision_digest = sample_digest,
       pv_path_manifest_digest = sample_digest, pv_evidence_manifest_digest = sample_digest, pv_verified = True\<rparr>,
     evidence_digests = [sample_digest], operation_kind = Some Ordinary_campaign, rollback_operation_id = None,
     rollback_authorization = None\<rparr>"

definition sample_controller :: controller where
  "sample_controller = \<lparr>trusted_config = sample_controller_config, provenance_verifier = (\<lambda>d c b. Inr (Flag True)),
     evidence_verifier = (\<lambda>d i c b. Inr (Attribute (Some True))), repository_snapshot = (\<lambda>n. Inr sample_snapshot),
     require_authority = (\<lambda>a. Inl (ValueError ''no authority'')), paths_digest = (\<lambda>ps. scenario_hash [])\<rparr>"

section \<open>The promotion\<close>

definition sample_publication :: CandidatePublicationBinding where
  "sample_publication = \<lparr>cpb_repository_digest = sample_digest, cpb_base_commit = sample_object (CHR ''1''),
     cpb_base_tree = sample_object (CHR ''2''), cpb_candidate_digest = sample_digest,
     cpb_candidate_ref = ''refs/heads/candidate'', cpb_candidate_commit = sample_object (CHR ''3''),
     cpb_candidate_tree = sample_object (CHR ''4''), controller_publisher_identity = ''controller'',
     cpb_publication_evidence_digest = sample_digest, cpb_verified = True, cpb_changed_paths = [''src/app/x.py'']\<rparr>"

definition sample_intent :: "PromotionLease \<Rightarrow> IntegrationPromotionIntent" where
  "sample_intent lease = \<lparr>pi_operation_id = sample_digest, pi_repository_digest = sample_digest,
     controller_lease_digest = pl_digest lease, controller_lease_identity = pl_identity lease,
     pi_candidate_ref = ''refs/heads/candidate'', pi_target_ref = integration_ref,
     pi_base_commit = sample_object (CHR ''1''), pi_base_tree = sample_object (CHR ''2''),
     pi_candidate_commit = sample_object (CHR ''3''), pi_candidate_tree = sample_object (CHR ''4''),
     pi_candidate_repository_digest = sample_digest, candidate_head_ref = ''refs/heads/candidate'',
     candidate_head_commit = sample_object (CHR ''3''), candidate_head_tree = sample_object (CHR ''4''),
     pi_target_repository_digest = sample_digest, target_base_ref = integration_ref,
     target_base_commit = sample_object (CHR ''1''), target_base_tree = sample_object (CHR ''2''),
     pi_synthetic_merge_commit = sample_object (CHR ''5''), pi_synthetic_merge_tree = sample_object (CHR ''4''),
     pi_bundle_digest = sample_digest, pi_candidate_digest = sample_digest, pi_controller_config_digest = sample_digest,
     pi_protection_evidence_digest = sample_digest, pi_evidence_manifest_digest = sample_digest,
     pi_check_evidence_manifest_digest = sample_digest, pi_publication_evidence_digest = sample_digest,
     pi_pull_request_number = 7, pi_pull_request_url = ''https://host/7'', pi_provider_identity = ''host'',
     pi_provider_api_version = ''1'', pi_expected_main_commit = None\<rparr>"

definition sample_observed :: IntegrationProviderObservation where
  "sample_observed = \<lparr>po_repository_digest = sample_digest, po_pull_request_number = 7,
     po_pull_request_url = ''https://host/7'', po_candidate_repository_digest = sample_digest,
     po_target_repository_digest = sample_digest, po_base_ref = integration_ref,
     po_base_commit = sample_object (CHR ''1''), po_base_tree = sample_object (CHR ''2''),
     po_head_ref = ''refs/heads/candidate'', po_head_commit = sample_object (CHR ''3''),
     po_candidate_tree = sample_object (CHR ''4''), po_synthetic_merge_commit = sample_object (CHR ''5''),
     po_synthetic_merge_tree = sample_object (CHR ''4''), po_protection_evidence_digest = sample_digest,
     po_check_evidence_manifest_digest = sample_digest, po_provider_identity = ''host'', po_provider_api_version = ''1''\<rparr>"

definition sample_reconciled :: IntegrationProviderReconciliation where
  "sample_reconciled = \<lparr>pr_repository_digest = sample_digest, pr_pull_request_number = 7,
     pr_pull_request_url = ''https://host/7'', pr_provider_identity = ''host'', pr_provider_api_version = ''1'',
     pr_open = False, pr_merged = True, merge_commit = Some (sample_object (CHR ''6'')), pr_target_ref = integration_ref,
     target_head_commit = sample_object (CHR ''6''), target_head_tree = sample_object (CHR ''4''),
     target_first_parent = sample_object (CHR ''1''), target_parents = [sample_object (CHR ''1'')],
     pr_protection_evidence_digest = sample_digest, pr_main_protection_evidence_digest = None\<rparr>"

text \<open>The provider asks for the authorization and checks the lease before it merges.\<close>

definition sample_provider :: provider where
  "sample_provider = \<lparr>observe_pull = (\<lambda>i n. Inr sample_observed),
     merge_pull = (\<lambda>i n. Authorize (\<lambda>x. Guard (\<lambda>y. Answer (
       if x = None \<and> y = None
       then Inr \<lparr>mr_outcome = Merge_applied, result_commit = Some (sample_object (CHR ''6'')),
         result_tree = Some (sample_object (CHR ''4'')), first_parent_commit = Some (sample_object (CHR ''1'')),
         mr_main_protection_evidence_digest = None, response_digest = sample_digest, mr_error = None\<rparr>
       else Inl (RuntimeError ''not authorized''))))),
     reconcile_pull = (\<lambda>i n. Inr sample_reconciled)\<rparr>"

definition sample_service :: service where
  "sample_service = \<lparr>svc_controller = sample_controller, svc_provider = sample_provider,
     publication_verifier = (\<lambda>p b. Inr True), svc_lease_seconds = 60, svc_clock = (\<lambda>n. Aware 0 0)\<rparr>"

definition sample_call :: promotion_call where
  "sample_call = \<lparr>pm_bundle = sample_bundle, pm_publication = sample_publication, pm_bundle_digest = sample_digest,
     pm_operation_id = sample_digest, intent_factory = (\<lambda>lease. Inr (sample_intent lease)), pm_lease_seconds = None\<rparr>"

definition sample_machine :: machine where
  "sample_machine = \<lparr>files = \<lparr>paths = (\<lambda>p. None), object_files = \<lparr>objects = (\<lambda>p. None), temporaries = []\<rparr>\<rparr>,
     ticks = 0, merged = []\<rparr>"

definition sample_lease :: PromotionLease where
  "sample_lease = \<lparr>pl_operation_id = sample_digest, pl_repository_digest = sample_digest, pl_target_ref = integration_ref,
     pl_identity = ''lease-1'', pl_acquired_at = Aware 0 0, pl_expires_at = Aware (seconds 60) 0, pl_digest = sample_digest\<rparr>"

definition sample_end :: machine where
  "sample_end = snd (promote sample_host sample_service sample_call sample_machine)"

section \<open>Evaluation\<close>

lemma scenario_hash_hex: "hex_hash scenario_hash"
  by (simp add: hex_hash_def scenario_hash_def list_all_iff)

lemma scenario_hash_collision_free: "collision_free scenario_hash []"
  by (simp add: collision_free_def scenario_hash_def)

lemma sample_host_spares: "spare_index sample_host" "spare_objects sample_host"
  by (simp_all add: sample_host_def spare_index_def keeps_index_def spare_objects_def spares_def alone_def)

lemma sample_host_fields:
  "sha256 sample_host = scenario_hash" "loads sample_host data = Inr sample_lease_document"
  "artifact_ref_fields sample_host v = Inr sample_reference" "max_record_bytes sample_host = 4096"
  "env_at sample_host n = call_at ''t'' 0"
  by (simp_all add: sample_host_def)

lemma sample_replayed:
  "replay sample_host sample_controller 0 sample_bundle sample_digest =
     Inr \<lparr>ry_bundle_digest = sample_digest, ry_outcome = Would_apply,
       ry_checks = [''bundle_digest'', ''controller_config'', ''decision'', ''provenance'', ''classification'',
         ''cas_precondition''], ry_errors = []\<rparr>"
  by code_simp

lemma sample_promoted:
  "case promote sample_host sample_service sample_call sample_machine of (r, m) \<Rightarrow>
     map_sum (\<lambda>x. x) rp_outcome r = Inr Applied \<and> merged m = [sample_intent sample_lease]"
  by code_simp

lemma sample_run:
  obtains rep where "promote sample_host sample_service sample_call sample_machine = (Inr rep, sample_end)" "rp_outcome rep = Applied"
    "merged sample_end = [sample_intent sample_lease]"
proof -
  obtain r m where run: "promote sample_host sample_service sample_call sample_machine = (r, m)" by fastforce
  with sample_promoted obtain rep where "r = Inr rep" "rp_outcome rep = Applied" "merged m = [sample_intent sample_lease]"
    by (cases r) auto
  with run that show thesis by (simp add: sample_end_def)
qed

lemma sample_machine_idle: "merged sample_machine = []"
  by (simp add: sample_machine_def)

section \<open>Witnesses\<close>

theorem replay_accepts_witness:
  "\<exists>b. mk_bundle sample_host (paths_digest sample_controller) sample_bundle = Inr b \<and>
     promotion_bundle_digest sample_host b = Inr sample_digest \<and> evidence_stands sample_controller b"
  using replay_accepts [OF sample_replayed] by auto

theorem merge_at_most_once_witness:
  "distinct (map pi_operation_id (merged (run_promotions
     [(sample_host, sample_service, sample_call), (sample_host, sample_service, sample_call)] sample_machine))) \<and>
   merged (run_promotions [(sample_host, sample_service, sample_call)] sample_machine) = [sample_intent sample_lease]"
proof
  show "distinct (map pi_operation_id (merged (run_promotions
     [(sample_host, sample_service, sample_call), (sample_host, sample_service, sample_call)] sample_machine)))"
    by (rule merge_at_most_once) (simp_all add: sample_host_spares sample_machine_idle)
  show "merged (run_promotions [(sample_host, sample_service, sample_call)] sample_machine) = [sample_intent sample_lease]"
    using sample_run by (auto simp: sample_end_def)
qed


theorem merge_guarded_witness:
  "\<exists>i n rep. merged sample_end = [i] \<and> bound_intent sample_call i \<and>
     replay sample_host sample_controller n sample_bundle sample_digest = Inr rep \<and> ry_outcome rep = Would_apply \<and>
     paths (files sample_end) (index_path ''intent'' sample_digest) \<noteq> None"
proof -
  obtain rep where run: "promote sample_host sample_service sample_call sample_machine = (Inr rep, sample_end)"
    and new: "merged sample_end = [sample_intent sample_lease]"
    by (rule sample_run)
  then have "merged sample_end \<noteq> merged sample_machine" by (simp add: sample_machine_idle)
  from merge_guarded [OF run sample_host_spares(1) this] show ?thesis
    by (auto simp: sample_machine_idle sample_call_def sample_service_def)
qed

lemma sample_sole_preimage: "sole_preimage sample_host d ''lease-evidence'' oper"
proof -
  have "mk_artifact_ref sample_reference = Inr sample_reference" by code_simp
  then have "data = []" if "refers_to sample_host d ''lease-evidence'' oper r"
    "scenario_hash data = removeprefix ''sha256:'' (ar_digest r)" for r data
  proof -
    have "r = sample_reference"
      using that(1) \<open>mk_artifact_ref sample_reference = Inr sample_reference\<close> by (auto simp: refers_to_def sample_host_fields)
    moreover have "removeprefix ''sha256:'' (ar_digest sample_reference) = scenario_hash []" by code_simp
    ultimately show ?thesis using that(2) by (simp add: scenario_hash_def split: if_splits)
  qed
  then show ?thesis
    unfolding sole_preimage_def sample_host_fields using scenario_hash_collision_free by blast
qed


lemma sample_recorded:
  "fst (journal_record sample_host ''lease-evidence'' sample_digest (evidence_json sample_evidence) sample_machine) =
     Inr sample_reference"
  by code_simp

lemma sample_reads:
  "canonical_bytes sample_host (evidence_json sample_evidence) = Inr []" "is_sha256 sample_digest"
  "canonical_bytes sample_host sample_lease_document = Inr []" "evidence_reader sample_host sample_lease_document = Inr sample_evidence"
  "mk_artifact_ref sample_reference = Inr sample_reference"
  "strip (''promotion-'' @ ''lease-evidence'') = ''promotion-'' @ ''lease-evidence''" "le_operation_id sample_evidence = sample_digest"
  by code_simp+

lemma sample_references: "references_readable sample_host ''lease-evidence'' []"
proof -
  have "reference_at sample_host media (''promotion-'' @ ''lease-evidence'') [] 0 = Inr sample_reference" by code_simp
  then have "r = sample_reference" if "reference_at sample_host media (''promotion-'' @ ''lease-evidence'') [] n = Inr r" for n r
    using that by (simp add: reference_at_def sample_host_fields)
  moreover have "canonical_bytes sample_host (artifact_ref_json sample_reference) = Inr []" by code_simp
  moreover have "readable sample_host (\<lambda>w. bind_err (artifact_ref_fields sample_host w) mk_artifact_ref)
      (artifact_ref_json sample_reference) sample_reference"
    using calculation(2) sample_reads(3,5) by (auto simp: readable_def sample_host_fields)
  ultimately show ?thesis unfolding references_readable_def sample_host_fields
    by (metis Inr_inject list.size(3) of_nat_0 zero_le_numeral)
qed


section \<open>A lease that nobody holds\<close>

text \<open>
  The evidence of a lease is validated after the lease file is written: a target that the
  validator refuses makes \<open>acquire_lease\<close> raise and leaves the file behind, so the next call for
  that target finds it occupied.
\<close>

lemma refused_target_keeps_lease:
  "case acquire_lease sample_host sample_digest ''refs/heads/main'' sample_digest 60 None sample_machine of (r, m) \<Rightarrow>
     r = Inl (ValueError ''protected integration contract cannot target main or deployment refs'') \<and>
     paths (files m) (Lease_file (scenario_hash [])) \<noteq> None \<and>
     fst (acquire_lease sample_host sample_digest ''refs/heads/main'' sample_digest 60 None m) =
       Inl (PromotionLeaseConflictError
         ''promotion lease is occupied; expired or malformed leases are not auto-broken'')"
  by code_simp

end
