(* ===== verification/Spec2Isabelle.thy ===== *)
theory Spec2Isabelle
  imports Campaigns Policy StrictSchema Queries Tokens Steering Provenance CodingVariation PromotionScenario
begin

text \<open>
  Verification of the orchestration core of AVO Correlate (package avo_correlate under
  src/src/): the services that run an optimisation campaign over one relational database, and
  the components around them that decide, store, read and guard, up to the promotion of a candidate
  into the protected integration branch.

  \<^bold>\<open>The program.\<close> An operator stores an experiment and creates runs of it. A run moves through
  a closed table of states. Inside a run, variation sessions produce candidates; candidates are
  evaluated, compared with the champion and admitted, by policy and, where required, by human
  review; every admission extends the lineage of the run. Work is journalled as activities that
  workers claim under a lease, charged to a budget by reservations, and parked for
  reconciliation when its outcome is uncertain. Every change appends an event with an outbox
  message. Artifacts are content-addressed files with metadata and references in the database.
  A candidate leaves the campaign as a promotion bundle: a controller replays the bundle against
  its policy and the repository, and the promotion service, under a lease in a journal on disk,
  records its intent, asks the hosted provider to merge, and records what it then observed.

  \<^bold>\<open>The model.\<close> One theory per component, in the order the code depends on them:

  \<^item> Prelude: exceptions as the values of one datatype, results as sums, tables as lists of rows,
    the transaction of one session block (\<open>in_session\<close>: an exception rolls back), and the
    locales the components interpret: a keyed table, a transactional service with an invariant,
    a monotone service, and a service that refines a specification.
  \<^item> Lifecycle: contracts/lifecycle.py and domain/lifecycle/state_machine.py, the state
    enumerations and their transition tables.
  \<^item> Budgets: contracts/budgets.py and domain/budgets.py, usage records in ten dimensions.
  \<^item> Contracts: contracts/base.py, experiment.py, variation.py, evaluation.py, policy.py,
    review.py and runtime.py: the records and validators, date-times with and without an offset,
    decimals with the precision and rounding of the default context, JSON values, and the
    environment of a call.
  \<^item> PythonValues: dictionaries, equality of JSON values and the text of date-times.
  \<^item> Store: adapters/persistence/models.py and database.py, one record per row, one table per
    field of \<open>db\<close>, with the primary, unique and foreign keys.
  \<^item> EventLog: the appending of events that every service repeats as \<open>_append_event\<close>.
  \<^item> Fixtures: concrete environments and rows for the witnesses.
  \<^item> RunSvc, BudgetSvc, ActivitySvc, SessionSvc, RuntimeSvc, TerminalBudget, EvidenceSvc and
    ReviewSvc: the application services of the same names, one definition per operation, with
    the code's guards in the code's order; Admission: domain/admission.py.
  \<^item> Orchestration: the calls of all services over one database, and the reachable databases;
    Campaigns: a specification of campaigns without tables, which the services refine.
  \<^item> Artifacts: adapters/artifacts/filesystem.py and application/artifact_service.py.
  \<^item> Scheduler: application/scheduler.py, with heartbeats interleaved with the handler's work.
  \<^item> Policy: adapters/policy/builtin.py and contracts/policy_bundle.py, with shell patterns.
  \<^item> StrictSchema: domain/structured_schema.py, over JSON trees.
  \<^item> InvocationSvc: application/invocation_service.py, tool and model calls with their records.
  \<^item> CampaignHandlers and CodingVariation: application/campaign.py, the handlers of the campaign
    stages and the worker loop around them, up to one turn of a coding agent.
  \<^item> PromotionPolicy: contracts/promotion_policy.py, risk classes and the promotion decision.
  \<^item> PromotionRecords: contracts/integration_promotion.py and the canonical encoding of
    domain/canonical.py, the records of a promotion with their validators.
  \<^item> PromotionJournal: adapters/artifacts/promotion_journal.py, leases and write-once records.
  \<^item> PromotionBundles: contracts/promotion_bundle.py and \<open>replay\<close> of
    application/promotion_service.py.
  \<^item> IntegrationPromotion: application/integration_promotion_service.py, the whole of \<open>promote\<close>;
    PromotionScenario: one promotion on concrete values, for the witnesses.
  \<^item> Provenance: application/provenance_service.py and contracts/provenance.py, the export of a
    run and its verification.
  \<^item> Workspace: domain/workspace.py and the tree digest of domain/canonical.py.
  \<^item> Queries: application/query_service.py and contracts/projections.py.
  \<^item> Tokens: application/capabilities.py, application/plugin_registry.py, contracts/plugins.py.
  \<^item> Steering: application/validation_service.py, application/search_strategies.py,
    domain/supervisor.py and their contracts.

  \<^bold>\<open>Correspondence.\<close> The campaign code is written over a state of database, object store and
  turn counter: each call of a service inside a handler is a session block of its own, with its
  own clock reading and identifiers, and an exception keeps what earlier calls committed. The
  runtime port, the workspace on disk and the Git patch are parameters there. The promotion code is
  written over a machine of disk, step counter and the intents handed to the provider: each
  access to the disk is one step, before which other processes may act and at which a write may
  fail, be torn or not be durable. The provider is a parameter that may call back into the service
  while it merges. The locale \<open>state_order\<close> says what a computation keeps; it is interpreted for
  the index, the files, the stored objects and the provider's requests. A service method is a function from its arguments and the database to an
  error or a result with the new database; a call is one session block, so that it commits as a
  whole or changes nothing. Where the code opens several blocks in one method
  (\<open>settle_control_request\<close>, and the calls of a scheduler turn), the scheduler model keeps them
  apart and the control settlement is one block. Identifiers from \<open>uuid4\<close>, the clock, the
  canonical digest, the date column of the database and Unicode normalisation are the fields of
  the environment \<open>env\<close> of a call; SHA-256, HMAC, case folding and the JSON reader of the
  libraries are arguments where they are used. What is assumed of them is a hypothesis of the
  theorem that needs it, with a witness. A JSON column holds the record it was written from.
  Validators report their first error. SQLite's date column drops the offset of an aware
  date-time; this is a hypothesis (\<open>drops_tzinfo\<close>) where it matters. The store returns rows
  in insertion order where the code asks for none. Recursion follows the data throughout and
  needs no fuel; the only bounded loop is that of \<open>_install_or_reuse\<close>, with the eight
  attempts of the code. The schema compiler terminates by the size of the JSON tree.

  \<^bold>\<open>What is shown.\<close> Invariants of every reachable database: the lineage is a chain of proofs,
  the event feed has no gaps, sessions are numbered, history is append-only, runs and leases
  only move forward (this theory and Orchestration); the refinement of the campaign
  specification (Campaigns); budgets that are never oversubscribed and whose errors change
  nothing (BudgetSvc); claims in order, fencing and finality of completions (ActivitySvc); atomic
  settlement and reconciliation (TerminalBudget, RuntimeSvc); admission only on proof, with a
  single winner and a quorum where review is required (EvidenceSvc, ReviewSvc, here); durable
  references and the round trip of bytes (Artifacts); one turn of a worker (Scheduler);
  fail-closed policy independent of the order of rules (Policy); strict output schemas
  (StrictSchema); contained extraction, accepted workspaces and identifying tree digests
  (Workspace); tokens and manifests that verify exactly as issued (Tokens); supervisor bounds,
  dry runs and best parents (Steering). The campaign handlers, the scheduler and the services
  are put together in CampaignHandlers and CodingVariation: whatever a worker does is a sequence
  of system calls, so every invariant above holds of it; the worker loop ends; each stage hands
  over to the next; a campaign never authorises a change of an authority path, and an accepted
  agent turn is not started a second time. A verified export shows a gapless log and lineage of
  a reachable run, and a later export extends it (Provenance); a promotion is allowed exactly
  when risk, gates and reviewers agree (PromotionPolicy). The journal reads back what it recorded
  (PromotionJournal); a bundle is replayed successfully only on verified evidence and a decision
  computed again (PromotionBundles); no operation is merged twice, concurrent processes that
  merge hold the same lease, a merge is requested only behind all guards and a durable intent, and
  reported success has landed exactly and left a receipt (IntegrationPromotion). Where the parts do not fit together, a concrete sequence
  of calls shows it: the last section here, \<open>slow_handler_runs_twice\<close> in Scheduler,
  \<open>compiled_reference_dangles\<close> in StrictSchema, \<open>review_gate_bypass\<close> in EvidenceSvc,
  \<open>projection_shows_first_decision\<close> in Queries, \<open>collection_finds_nothing\<close> in Artifacts,
  \<open>recovered_evaluation_is_stranded\<close> and \<open>recovered_admission_leaves_run_open\<close> in
  CampaignHandlers, \<open>terminal_run_keeps_open_case\<close> in Provenance, \<open>resumed_turn_is_free\<close> in
  CodingVariation, \<open>refused_target_keeps_lease\<close> in PromotionScenario.

  \<^bold>\<open>Not modelled.\<close> The integration campaigns, drills, rollbacks and main graduation around the
  promotion service, with their own journals and contracts, and the Git and GitHub adapters;
  \<open>dry_run\<close>, the creation of rollback bundles and the store of rollback authorities of the
  promotion controller; the
  reference scenario, which drives the services here together with harness and sandbox
  processes; advisory review, synthetic validation and the benchmark harness; process, container, model and network adapters; the command line and the
  HTTP interface; RFC 8785 serialisation (a library) and the Git subprocess of
  \<open>create_vcs_free_binary_patch\<close>. Database column lengths, migrations and pragmas have no
  counterpart.
\<close>

section \<open>A campaign from the empty database\<close>

definition demo_world :: db where
  "demo_world = run_sessions system_step demo_campaign empty_db"

definition demo_world_run :: RunRow where
  "demo_world_run = \<lparr>run_id = ''r'', run_experiment_id = ''x'', run_state = R_RUNNING, run_revision = 7,
     run_event_sequence = 7, run_champion_id = Some ''c1'', run_created_at = Naive 2000000,
     run_updated_at = Naive 10000000\<rparr>"

lemma demo_world_reachable: "reachable demo_world"
  unfolding demo_world_def by (intro reachable_sessions reachable.start)

lemma demo_world_row: "get_run ''r'' demo_world = Some demo_world_run"
  by code_simp

section \<open>Properties of the whole system\<close>

text \<open>
  C4. The event log of every reachable database is complete: for each run, the feed from the
  start lists the sequence numbers 1, 2, ... up to the run's revision without a gap, and
  every event has exactly its outbox message, in the same order and with the same payload.
\<close>

theorem system_log_complete:
  assumes "reachable s" and "get_run rid s = Some run"
  shows "map ev_sequence (list_events rid 0 s) = [1..run_revision run] \<and>
    map (\<lambda>b. (ob_event_id b, ob_payload b)) (outbox s) = map (\<lambda>v. (ev_id v, ev_payload v)) (events s)"
proof -
  have log: "log_inv s" using reachable_inv [OF assms(1)] by (simp add: system_inv_def core_inv_def)
  moreover have "run \<in> set (runs s)" using assms(2) by (auto simp: get_run_def dest: row_get_SomeD)
  ultimately show ?thesis
    using list_events_complete [OF log assms(2), of 0] by (auto simp: log_inv_def log_ok_def)
qed

theorem system_log_complete_witness: "map ev_sequence (list_events ''r'' 0 demo_world) = [1..7]"
  using system_log_complete [OF demo_world_reachable demo_world_row] by (simp add: demo_world_run_def)

text \<open>
  C6. History is append-only: no sequence of calls of any services, failed ones included,
  removes or rewrites an event, an outbox message, an evaluation, a policy decision, an
  admission, a lineage entry or a review decision.
\<close>

theorem system_append_only:
  "let s' = run_sessions system_step cs s in
   prefix (events s) (events s') \<and> prefix (outbox s) (outbox s') \<and> prefix (evaluations s) (evaluations s') \<and>
   prefix (policy_decisions s) (policy_decisions s') \<and> prefix (admissions s) (admissions s') \<and>
   prefix (lineage s) (lineage s') \<and> prefix (review_decisions s) (review_decisions s')"
  using system_history.sessions_le [of s cs]
  by (simp add: system_le_def log_extends_def evidence_extends_def reviews_advance_def Let_def)

text \<open>
  C5. Runs only move along the closed table, whichever services act on them: after any
  sequence of calls a run is in a state that the table reaches from its earlier state, at a
  revision that is not smaller, and once completed, cancelled or failed it stays so.
\<close>

theorem system_run_lifecycle:
  assumes "get_run rid s = Some run"
  shows "\<exists>run'. get_run rid (run_sessions system_step cs s) = Some run' \<and>
    run_reaches (run_state run) (run_state run') \<and> run_revision run \<le> run_revision run' \<and>
    (run_terminal (run_state run) \<longrightarrow> run_state run' = run_state run)"
proof -
  have "run_advances s (run_sessions system_step cs s)"
    using system_history.sessions_le [of s cs] by (simp add: system_le_def)
  with assms obtain run' where "get_run rid (run_sessions system_step cs s) = Some run'" "run_moves run run'"
    by (auto simp: run_advances_def dest: rows_advanceD)
  then show ?thesis by (auto simp: run_moves_def dest: run_reaches_terminal)
qed

definition demo_shutdown :: "(env \<times> system_call) list" where
  "demo_shutdown = [(call_at ''k'' 11, Run_call (Transition ''r'' R_COMPLETED ''op'' None None None None)),
     (call_at ''l'' 12, Run_call (Transition ''r'' R_RUNNING ''op'' None None None None))]"

theorem system_run_lifecycle_witness:
  "\<exists>run'. get_run ''r'' (run_sessions system_step demo_shutdown demo_world) = Some run' \<and>
     run_reaches R_RUNNING (run_state run') \<and> 7 \<le> run_revision run'"
  using system_run_lifecycle [OF demo_world_row, of demo_shutdown] by (auto simp: demo_world_run_def)

text \<open>
  C1. The lineage of every reachable run is a proof chain: its entries are numbered 0, 1, 2,
  ..., the seed has no admission, the champion is the last entry, and every later entry has
  an admit decision on record that expected its predecessor as champion, concluded an
  improvement, and cites an admissible evaluation of exactly this candidate.
\<close>

theorem system_lineage_sound:
  assumes "reachable s" and "get_run rid s = Some run"
  shows "let ls = run_lineage rid (lineage s) in
    ls \<noteq> [] \<and> map lin_sequence ls = [0..int (length ls) - 1] \<and> lin_admission_id (hd ls) = None \<and>
    run_champion_id run = Some (lin_candidate_id (last ls)) \<and>
    (\<forall>i. Suc i < length ls \<longrightarrow> (\<exists>a\<in>set (admissions s). lin_admission_id (ls ! Suc i) = Some (adm_id a) \<and>
       adm_outcome a = A_admit \<and> adm_candidate_id a = lin_candidate_id (ls ! Suc i) \<and>
       expected_champion_id (adm_decision a) = lin_candidate_id (ls ! i) \<and>
       conclusion (comparison (adm_decision a)) = Improved \<and>
       (\<exists>v\<in>set (evaluations s). evl_id v \<in> set (evaluation_ids (adm_decision a)) \<and>
          evl_candidate_id v = lin_candidate_id (ls ! Suc i) \<and> evaluation_is_admissible (evl_record v))))"
proof -
  have "lineage_inv s" using reachable_inv [OF assms(1)] by (simp add: system_inv_def)
  moreover have "run \<in> set (runs s)" "run_id run = rid"
    using assms(2) by (auto simp: get_run_def dest: row_get_SomeD)
  ultimately have dyn: "dynasty (admissions s) (evaluations s) run (run_lineage rid (lineage s))"
    by (auto simp: lineage_inv_def lineage_ok_def)
  then have "backed (admissions s) (evaluations s) (run_lineage rid (lineage s) ! i) (run_lineage rid (lineage s) ! Suc i)"
    if "Suc i < length (run_lineage rid (lineage s))" for i
    using that by (simp add: dynasty_def successively_conv_nth)
  then show ?thesis
    using dyn dynasty_numbers [OF dyn] unfolding Let_def dynasty_def backed_def by blast
qed

theorem system_lineage_sound_witness:
  "map lin_sequence (run_lineage ''r'' (lineage demo_world)) = [0, 1] \<and>
   lin_candidate_id (last (run_lineage ''r'' (lineage demo_world))) = ''c1''"
proof -
  have "length (run_lineage ''r'' (lineage demo_world)) = 2" by code_simp
  with system_lineage_sound [OF demo_world_reachable demo_world_row] show ?thesis
    by (simp add: Let_def demo_world_run_def upto_rec1)
qed

text \<open>
  C19. Leases fence across services: once an activity was claimed, then after any later calls
  of any services (settlements, reconciliations and other claims included) its lease epoch
  is not smaller, and as long as the epoch is the claimed one, nobody but the claiming
  worker owns the lease; so a completion under that epoch by another worker is refused
  unless it repeats the recorded result.
\<close>

theorem system_lease_exclusive:
  assumes "claim_next e worker secs at_time s = Inr (Some a, s')"
    and "distinct (map act_id (activities s))"
    and "get_activity (act_id a) (run_sessions system_step cs s') = Some b"
  shows "act_lease_epoch a \<le> act_lease_epoch b \<and>
    (act_lease_epoch b = act_lease_epoch a \<longrightarrow> act_lease_owner b \<in> {None, Some worker}) \<and>
    (worker' \<noteq> worker \<and> act_state b \<noteq> Act_completed \<longrightarrow>
      activity_complete e' (act_id a) worker' (act_lease_epoch a) result (run_sessions system_step cs s') =
        Inl (ActivityConflictError ''worker does not hold the activity lease''))"
proof -
  have "get_activity (act_id a) s' = Some a" using assms(1,2) by (rule claim_stored)
  moreover have "leases_advance s' (run_sessions system_step cs s')"
    using system_history.sessions_le [of s' cs] by (simp add: system_le_def)
  ultimately have moves: "lease_moves a b"
    using assms(3) by (auto simp: leases_advance_def dest: rows_advanceD)
  moreover have "act_lease_owner a = Some worker"
    using assms(1) by (cases rule: claim_next_Inr) simp_all
  ultimately have "act_lease_epoch a \<le> act_lease_epoch b"
    "act_lease_epoch b = act_lease_epoch a \<longrightarrow> act_lease_owner b \<in> {None, Some worker}"
    by (auto simp: lease_moves_def)
  with assms(3) show ?thesis by (auto simp: activity_complete_def)
qed

theorem system_lease_exclusive_witness:
  "\<exists>a s'. claim_next (call_at ''j'' 10) ''w1'' 30 None (run_sessions system_step (butlast demo_campaign) empty_db) =
      Inr (Some a, s') \<and>
    activity_complete (call_at ''k'' 11) (act_id a) ''w2'' (act_lease_epoch a) ''out'' s' =
      Inl (ActivityConflictError ''worker does not hold the activity lease'')"
proof -
  let ?s = "run_sessions system_step (butlast demo_campaign) empty_db"
  obtain a where claim: "claim_next (call_at ''j'' 10) ''w1'' 30 None ?s = Inr (Some a, demo_world)"
    and row: "get_activity (act_id a) demo_world = Some a" and st: "act_state a = Act_running"
  proof -
    have "case claim_next (call_at ''j'' 10) ''w1'' 30 None ?s of
        Inr (Some a, t) \<Rightarrow> t = demo_world \<and> get_activity (act_id a) demo_world = Some a \<and> act_state a = Act_running
      | _ \<Rightarrow> False"
      by code_simp
    then show ?thesis using that by (auto split: sum.splits option.splits prod.splits)
  qed
  have "distinct (map act_id (activities ?s))" by code_simp
  from system_lease_exclusive [OF claim this, of "[]" a "''w2''" "call_at ''k'' 11" "''out''"] row st claim
  show ?thesis by auto
qed

text \<open>
  Sessions stay numbered and lawful under all services: in every reachable database the
  sessions of a run are numbered 1, 2, 3, ... in creation order, and any later calls leave
  each session with its number, request and recorded result, in a state that the table of
  session transitions reaches.
\<close>

theorem system_sessions_lawful:
  assumes "reachable s"
  shows "session_numbers rid s = [1..int (length (session_numbers rid s))] \<and>
    (\<forall>sid v. get_session sid s = Some v \<longrightarrow>
       (\<exists>v'. get_session sid (run_sessions system_step cs s) = Some v' \<and> ses_number v' = ses_number v \<and>
          ses_request v' = ses_request v \<and> session_reaches (ses_state v) (ses_state v') \<and>
          (ses_result v \<noteq> None \<longrightarrow> ses_result v' = ses_result v)))"
proof -
  have "sessions_numbered s" using reachable_inv [OF assms] by (simp add: system_inv_def)
  then have "session_numbers rid s = [1..int (length (session_numbers rid s))]"
    by (auto simp: sessions_numbered_def numbered_def session_numbers_def)
  moreover have "sessions_advance s (run_sessions system_step cs s)"
    using system_history.sessions_le [of s cs] by (simp add: system_le_def)
  then have "\<exists>v'. get_session sid (run_sessions system_step cs s) = Some v' \<and> session_moves v v'"
    if "get_session sid s = Some v" for sid v
    using that unfolding sessions_advance_def by (rule rows_advanceD)
  ultimately show ?thesis unfolding session_moves_def by blast
qed

theorem system_sessions_lawful_witness: "session_numbers ''r'' demo_world = [1]"
proof -
  have "length (session_numbers ''r'' demo_world) = 1" by code_simp
  with system_sessions_lawful [OF demo_world_reachable, of "''r''" "[]"] show ?thesis by (simp add: upto_rec1)
qed

text \<open>
  C20. A reviewed admission has a quorum behind it: when a candidate that waits for review is
  admitted in a reachable database, there is an approved request for admitting exactly this
  candidate, decided by as many distinct reviewers as it requires, every one of them in an
  eligible role, and none of them the proposer unless the request allows it.
\<close>

theorem reviewed_admission_quorum:
  assumes "reachable s" and "commit_admission e rid d s = Inr (Some n, s')"
    and "get_admission_row (ad_admission_id d) s = None"
    and "get_candidate_row (ad_candidate_id d) s = Some c" and "cand_state c = In_state C_REVIEW_REQUIRED"
  shows "\<exists>q\<in>set (review_requests s). rvq_candidate_id q = ad_candidate_id d \<and> rvq_action q = ''candidate.admit'' \<and>
    (let ds = decisions_of (rvq_id q) (review_decisions s) in
       int (length ds) = rvq_approvals_required q \<and> 1 \<le> length ds \<and> distinct (map rvd_reviewer_id ds) \<and>
       (\<forall>v\<in>set ds. rvd_outcome v = RV_approve \<and> reviewer_role (rvd_decision v) \<in> set (rvq_eligible_roles q) \<and>
          (rvd_reviewer_id v = rvq_proposer_id q \<longrightarrow> rvq_proposer_may_review q)))"
proof -
  have "review_approved d s"
    using assms(2,3) by (rule admitted_cases) (use assms(4,5) in auto)
  then obtain q where q: "q \<in> set (review_requests s)" "rvq_candidate_id q = ad_candidate_id d"
    "rvq_action q = ''candidate.admit''" "rvq_state q = V_APPROVED"
    by (auto simp: review_approved_def list_ex_iff)
  then have "request_sound q (decisions_of (rvq_id q) (review_decisions s))"
    using reachable_inv [OF assms(1)] by (simp add: system_inv_def review_inv_def)
  with q(4) have "let ds = decisions_of (rvq_id q) (review_decisions s) in
       int (length ds) = rvq_approvals_required q \<and> 1 \<le> length ds \<and> distinct (map rvd_reviewer_id ds) \<and>
       (\<forall>v\<in>set ds. rvd_outcome v = RV_approve \<and> reviewer_role (rvd_decision v) \<in> set (rvq_eligible_roles q) \<and>
          (rvd_reviewer_id v = rvq_proposer_id q \<longrightarrow> rvq_proposer_may_review q))"
    by (auto simp: request_sound_def tally_def approved_by_def list_all_iff lawful_def authorize_decision_Inr)
  with q show ?thesis by blast
qed

text \<open>A campaign in which the candidate is sent to review first, and approved.\<close>

definition demo_reviewed :: "(env \<times> system_call) list" where
  "demo_reviewed = take 7 demo_campaign @
     [(call_at ''h'' 8, Evidence_call (Commit_admission ''r'' (demo_decision ''a0'' ''c1'' A_review_required))),
      (call_at ''q'' 9, Review_call (Create_review demo_review)),
      (call_at ''s'' 10, Review_call (Submit_review (demo_verdict ''d1'' ''ann'') None None))]"

theorem reviewed_admission_quorum_witness:
  "\<exists>q\<in>set (review_requests (run_sessions system_step demo_reviewed empty_db)). rvq_candidate_id q = ''c1''"
proof -
  let ?s = "run_sessions system_step demo_reviewed empty_db" and ?d = "demo_decision ''a1'' ''c1'' A_admit"
  have s: "reachable ?s" by (intro reachable_sessions reachable.start)
  have "fst (in_session (commit_admission (call_at ''m'' 11) ''r'' ?d) ?s) = Inr (Some 1)" by code_simp
  then obtain s' where c: "commit_admission (call_at ''m'' 11) ''r'' ?d ?s = Inr (Some 1, s')"
    by (auto simp: in_session_def split: sum.splits prod.splits)
  have n: "get_admission_row (ad_admission_id ?d) ?s = None" by code_simp
  have "map_option cand_state (get_candidate_row (ad_candidate_id ?d) ?s) = Some (In_state C_REVIEW_REQUIRED)"
    by code_simp
  then obtain x where "get_candidate_row (ad_candidate_id ?d) ?s = Some x" "cand_state x = In_state C_REVIEW_REQUIRED"
    by auto
  from reviewed_admission_quorum [OF s c n this] show ?thesis by (auto simp: demo_decision_def)
qed

section \<open>Where the services do not fit together\<close>

text \<open>
  Concrete call sequences on which an intended property fails. Each is a computation of the
  model, one committed call after the other.
\<close>

definition double_release :: "(env \<times> system_call) list" where
  "double_release =
     [(call_at ''a'' 1, Budget_call (Reserve ''r'' ''k1'' (plain_usage 2) ''op'')),
      (call_at ''b'' 2, Budget_call (Reserve ''r'' ''k2'' (plain_usage 5) ''op'')),
      (call_at ''c'' 3, Activity_call (Enqueue ''r'' ''k1'' ''in'' ''op'' None (Some ''a''))),
      (call_at ''d'' 4, Activity_call (Claim ''w1'' 30 None)),
      (call_at ''e'' 5, Runtime_call (Open_reconciliation ''r'' ''c'' ''lost'' ''op'' None [] None)),
      (call_at ''f'' 6, Budget_call (Complete ''a'' (plain_usage 2) ''op'')),
      (call_at ''g'' 7, Runtime_call (Resolve_reconciliation ''e'' ''cancel'' ''n'' ''op'' None)),
      (call_at ''h'' 8, Budget_call (Reserve ''r'' ''k3'' (plain_usage 5) ''op''))]"

text \<open>
  Cancelling a case after its reservation was completed returns the budget twice: the
  resolution subtracts the completed estimate from the ledger once more, so that 3 units
  are booked for an active reservation of 5, and a further reservation is accepted although
  usage and active reservations then exceed the limit of 10.
\<close>

theorem cancel_releases_twice:
  "let before = run_sessions system_step (take 7 double_release) demo_db;
       after = run_sessions system_step double_release demo_db in
   ledger_inv demo_db \<and> \<not> ledger_inv before \<and>
   map_option led_reserved (get_ledger ''r'' before) = Some (plain_usage 3) \<and>
   map_option (\<lambda>r. (res_state r, res_estimated r)) (get_reservation ''b'' before) = Some (Reserved, plain_usage 5) \<and>
   map_option led_used (get_ledger ''r'' after) = Some (plain_usage 2) \<and>
   map_option (\<lambda>r. (res_state r, res_estimated r)) (get_reservation ''h'' after) = Some (Reserved, plain_usage 5) \<and>
   map_option led_limit (get_ledger ''r'' after) = Some (plain_usage 10) \<and>
   \<not> fits_within (usage_plus (usage_plus (plain_usage 2) (plain_usage 5)) (plain_usage 5)) (plain_usage 10)"
  by code_simp

definition overlapping_sessions :: "(env \<times> system_call) list" where
  "overlapping_sessions =
     [(call_at ''a'' 1, Session_call (Enqueue_session (demo_request ''s1''))),
      (call_at ''b'' 2, Session_call (Enqueue_session (demo_request ''s2''))),
      (call_at ''c'' 3, Session_call (Start_session ''s1'')),
      (call_at ''d'' 4, Activity_call (Enqueue ''r'' ''k1'' ''in'' ''op'' (Some ''s1'') None)),
      (call_at ''e'' 5, Activity_call (Enqueue ''r'' ''k2'' ''in'' ''op'' None None)),
      (call_at ''f'' 6, Runtime_call (Open_reconciliation ''r'' ''d'' ''lost'' ''op'' (Some ''s1'') [] None)),
      (call_at ''g'' 7, Runtime_call (Open_reconciliation ''r'' ''e'' ''lost'' ''op'' None [] None)),
      (call_at ''h'' 8, Runtime_call (Resolve_reconciliation ''g'' ''retry'' ''n'' ''op'' None)),
      (call_at ''i'' 9, Session_call (Start_session ''s2'')),
      (call_at ''j'' 10, Runtime_call (Open_reconciliation ''r'' ''e'' ''lost'' ''op'' None [] None)),
      (call_at ''k'' 11, Runtime_call (Resolve_reconciliation ''f'' ''retry'' ''n'' ''op'' None))]"

text \<open>
  A retry can start a second session: the resolution of a case puts its session back to
  running without looking at the other sessions, so two sessions of one run are running at
  once when another was started meanwhile.
\<close>

theorem retry_overlaps_sessions:
  "let s = run_sessions system_step overlapping_sessions demo_db in
   one_running demo_db \<and> \<not> one_running s \<and>
   map_option run_state (get_run ''r'' s) = Some R_RUNNING \<and>
   map_option ses_state (get_session ''s1'' s) = Some S_RUNNING \<and>
   map_option ses_state (get_session ''s2'' s) = Some S_RUNNING"
  by code_simp

definition undone_cancellation :: "(env \<times> system_call) list" where
  "undone_cancellation =
     [(call_at ''a'' 1, Activity_call (Enqueue ''r'' ''k1'' ''in'' ''op'' None None)),
      (call_at ''b'' 2, Run_call (Transition ''r'' R_CANCELLING ''op'' None None None None)),
      (call_at ''c'' 3, Runtime_call (Open_reconciliation ''r'' ''a'' ''lost'' ''op'' None [] None)),
      (call_at ''d'' 4, Runtime_call (Resolve_reconciliation ''c'' ''retry'' ''n'' ''op'' None)),
      (call_at ''e'' 5, Evidence_call (Commit_admission ''r'' (demo_decision ''a1'' ''c1'' A_admit)))]"

text \<open>
  The cancellation fence can be undone: a reconciliation case opened on a cancelling run
  blocks it, and resolving the case with retry makes it running again, so a candidate is
  admitted after the cancellation was committed.
\<close>

theorem cancellation_fence_undone:
  "let cancelled = run_sessions system_step (take 2 undone_cancellation) (demo_arena C_EVALUATING);
       s = run_sessions system_step undone_cancellation (demo_arena C_EVALUATING) in
   map_option run_state (get_run ''r'' cancelled) = Some R_CANCELLING \<and>
   map_option run_state (get_run ''r'' s) = Some R_RUNNING \<and>
   map_option run_champion_id (get_run ''r'' s) = Some (Some ''c1'')"
  by code_simp

end
